(* ===== verification/Prelude.thy ===== *)
theory Prelude
  imports Complex_Main "HOL-Library.AList" "HOL-Library.Char_ord" "HOL-Library.List_Lexorder"
begin

text \<open>
  Shared vocabulary of the development: the exceptions the gateway raises and the result
  type that carries them, Python dictionaries as association lists that keep insertion
  order, Python sets as duplicate-free lists, and the string operations of the Python
  standard library that the sources call.

  A Python \<open>str\<close> is a HOL \<open>string\<close> whose characters are the code points 0 to 255; case
  mapping, white space and digit tests follow the Unicode tables on that range. Python
  floats are real numbers (rounding is not modelled); Python ints are \<open>int\<close> or, where the
  code only counts, \<open>nat\<close>.
\<close>

named_theorems dict_simps \<open>lookups after dictionary updates\<close>
named_theorems dict_inv \<open>operations keep dictionary keys distinct\<close>
named_theorems str_simps \<open>evaluation of the string operations\<close>

section \<open>Exceptions and results\<close>

text \<open>
  \<open>HTTPException\<close> carries the status code and the message that \<open>i3x_http_error\<close> puts in
  the body; the other constructors are the built-in exceptions the sources raise or let
  escape.
\<close>

datatype exn =
    HTTPException int string
  | ValueError string
  | KeyError string
  | OtherError string

type_synonym 'a result = "exn + 'a"

definition rbind :: "'a result \<Rightarrow> ('a \<Rightarrow> 'b result) \<Rightarrow> 'b result" where
  "rbind r f = (case r of Inl e \<Rightarrow> Inl e | Inr x \<Rightarrow> f x)"

lemma rbind_simps [simp]:
  "rbind (Inl e) f = Inl e"
  "rbind (Inr x) f = f x"
  by (simp_all add: rbind_def)

lemma rbind_Inr_iff: "rbind r f = Inr y \<longleftrightarrow> (\<exists>x. r = Inr x \<and> f x = Inr y)"
  by (cases r) simp_all

lemma rbind_map_SomeD:
  "rbind r (\<lambda>x. Inr (map_option f x)) = Inr (Some c) \<Longrightarrow> \<exists>b. r = Inr (Some b) \<and> c = f b"
  by (cases r) auto

text \<open>Run a fallible function over a list, stopping at the first exception.\<close>

fun rmap :: "('a \<Rightarrow> 'b result) \<Rightarrow> 'a list \<Rightarrow> 'b list result" where
  "rmap f [] = Inr []"
| "rmap f (x # xs) = rbind (f x) (\<lambda>y. rbind (rmap f xs) (\<lambda>ys. Inr (y # ys)))"

lemma rmap_Inr_iff:
  "rmap f xs = Inr ys \<longleftrightarrow> list_all2 (\<lambda>x y. f x = Inr y) xs ys"
  by (induction xs arbitrary: ys) (auto simp: rbind_Inr_iff list_all2_Cons1)

lemma rmap_mem: "rmap f xs = Inr ys \<Longrightarrow> y \<in> set ys \<Longrightarrow> \<exists>x \<in> set xs. f x = Inr y"
  by (induction xs arbitrary: ys) (auto simp: rbind_Inr_iff)

lemma rmap_total: "(\<And>x. x \<in> set xs \<Longrightarrow> f x = Inr (g x)) \<Longrightarrow> rmap f xs = Inr (map g xs)"
  by (induction xs) auto

text \<open>A loop whose body may raise: the fold stops at the first exception.\<close>

fun rfold :: "('s \<Rightarrow> 'a \<Rightarrow> 's result) \<Rightarrow> 's \<Rightarrow> 'a list \<Rightarrow> 's result" where
  "rfold f s [] = Inr s"
| "rfold f s (x # xs) = rbind (f s x) (\<lambda>s'. rfold f s' xs)"

lemma rfold_append: "rfold f s (xs @ ys) = rbind (rfold f s xs) (\<lambda>s'. rfold f s' ys)"
proof (induction xs arbitrary: s)
  case (Cons x xs)
  then show ?case by (cases "f s x") simp_all
qed simp

lemma rfold_invariant:
  assumes "rfold f s xs = Inr s'" "P s"
    and step: "\<And>s x s'. P s \<Longrightarrow> x \<in> set xs \<Longrightarrow> f s x = Inr s' \<Longrightarrow> P s'"
  shows "P s'"
  using assms
proof (induction xs arbitrary: s)
  case (Cons x xs)
  obtain s1 where s1: "f s x = Inr s1" "rfold f s1 xs = Inr s'"
    using Cons.prems(1) by (auto simp: rbind_Inr_iff)
  have "P s1" by (rule Cons.prems(3) [OF Cons.prems(2) _ s1(1)]) simp
  then show ?case by (rule Cons.IH [OF s1(2)]) (rule Cons.prems(3), auto)
qed simp

lemma foldl_invariant: "P s \<Longrightarrow> (\<And>s x. P s \<Longrightarrow> x \<in> set xs \<Longrightarrow> P (f s x)) \<Longrightarrow> P (foldl f s xs)"
  by (induction xs arbitrary: s) auto

lemma rfold_all:
  assumes "rfold f s xs = Inr s'" "x \<in> set xs"
    and "\<And>s x s'. f s x = Inr s' \<Longrightarrow> Q x s'" and "\<And>s x s' y. f s x = Inr s' \<Longrightarrow> Q y s \<Longrightarrow> Q y s'"
  shows "Q x s'"
proof -
  obtain ys zs where xs: "xs = ys @ x # zs" using assms(2) by (meson split_list)
  obtain s1 s2 where s: "f s1 x = Inr s2" "rfold f s2 zs = Inr s'"
    using assms(1) unfolding xs rfold_append by (auto simp: rbind_Inr_iff)
  from s(2) assms(3) [OF s(1)] show ?thesis by (rule rfold_invariant) (rule assms(4))
qed

lemma rbind_error: "rbind r f = Inl e \<Longrightarrow> r = Inl e \<or> (\<exists>x. r = Inr x \<and> f x = Inl e)"
  by (cases r) simp_all

lemma rfold_error: "rfold f s xs = Inl e \<Longrightarrow> \<exists>s' x. x \<in> set xs \<and> f s' x = Inl e"
proof (induction xs arbitrary: s)
  case (Cons x xs)
  then show ?case
  proof (cases "f s x")
    case (Inr b)
    with Cons.prems Cons.IH [of b] show ?thesis by auto
  qed auto
qed simp

lemma rfold_total: "(\<And>s x. x \<in> set xs \<Longrightarrow> \<exists>s'. f s x = Inr s') \<Longrightarrow> \<exists>s'. rfold f s xs = Inr s'"
proof (induction xs arbitrary: s)
  case (Cons x xs)
  obtain s' where "f s x = Inr s'" using Cons.prems [of x] by auto
  then show ?case using Cons.IH [of s'] Cons.prems by auto
qed simp

section \<open>Dictionaries\<close>

text \<open>
  A \<open>dict\<close> is an association list in insertion order. \<open>AList.update\<close> overwrites in place
  and appends a new key, \<open>AList.delete\<close> removes a key: the order is Python's.
\<close>

type_synonym ('k, 'v) dict = "('k \<times> 'v) list"

abbreviation dict_get :: "('k, 'v) dict \<Rightarrow> 'k \<Rightarrow> 'v option" where
  "dict_get d k \<equiv> map_of d k"

abbreviation dict_set :: "'k \<Rightarrow> 'v \<Rightarrow> ('k, 'v) dict \<Rightarrow> ('k, 'v) dict" where
  "dict_set k v d \<equiv> AList.update k v d"

abbreviation dict_del :: "'k \<Rightarrow> ('k, 'v) dict \<Rightarrow> ('k, 'v) dict" where
  "dict_del k d \<equiv> AList.delete k d"

abbreviation dict_keys :: "('k, 'v) dict \<Rightarrow> 'k list" where
  "dict_keys d \<equiv> map fst d"

abbreviation dict_values :: "('k, 'v) dict \<Rightarrow> 'v list" where
  "dict_values d \<equiv> map snd d"

abbreviation dict_ok :: "('k, 'v) dict \<Rightarrow> bool" where
  "dict_ok d \<equiv> distinct (map fst d)"

definition dict_get_def :: "('k, 'v) dict \<Rightarrow> 'k \<Rightarrow> 'v \<Rightarrow> 'v" where
  "dict_get_def d k dflt = (case map_of d k of None \<Rightarrow> dflt | Some v \<Rightarrow> v)"

definition dict_setdefault :: "'k \<Rightarrow> 'v \<Rightarrow> ('k, 'v) dict \<Rightarrow> ('k, 'v) dict" where
  "dict_setdefault k v d = (case map_of d k of None \<Rightarrow> d @ [(k, v)] | Some _ \<Rightarrow> d)"

text \<open>\<open>d.setdefault(k, []).append(x)\<close>.\<close>

definition dict_append :: "'k \<Rightarrow> 'x \<Rightarrow> ('k, 'x list) dict \<Rightarrow> ('k, 'x list) dict" where
  "dict_append k x d = AList.update k (dict_get_def d k [] @ [x]) d"

text \<open>\<open>d.update(e)\<close>.\<close>

definition dict_merge :: "('k, 'v) dict \<Rightarrow> ('k, 'v) dict \<Rightarrow> ('k, 'v) dict" where
  "dict_merge d e = foldl (\<lambda>d (k, v). AList.update k v d) d e"

definition dict_of_list :: "('k \<times> 'v) list \<Rightarrow> ('k, 'v) dict" where
  "dict_of_list kvs = dict_merge [] kvs"

lemma dict_get_set [dict_simps, simp]:
  "map_of (AList.update k v d) k' = (if k' = k then Some v else map_of d k')"
  by (simp add: update_conv')

lemma dict_get_del [dict_simps, simp]:
  "map_of (AList.delete k d) k' = (if k' = k then None else map_of d k')"
  by (simp add: delete_conv')

lemma dict_get_setdefault [dict_simps]:
  "map_of (dict_setdefault k v d) k' =
     (if k' = k then Some (dict_get_def d k v) else map_of d k')"
  by (auto simp: dict_setdefault_def dict_get_def_def map_add_def split: option.splits)

lemma dict_get_def_append [dict_simps]:
  "dict_get_def (dict_append k x d) k' dflt =
     (if k' = k then dict_get_def d k [] @ [x] else dict_get_def d k' dflt)"
  by (simp add: dict_append_def dict_get_def_def)

lemma dict_get_def_set [simp]:
  "dict_get_def (AList.update k v d) k' z = (if k' = k then v else dict_get_def d k' z)"
  by (simp add: dict_get_def_def)

lemma dict_get_append [dict_simps]:
  "map_of (dict_append k x d) k' =
     (if k' = k then Some (dict_get_def d k [] @ [x]) else map_of d k')"
  by (simp add: dict_append_def)

lemma dict_ok_set [dict_inv, simp]: "dict_ok d \<Longrightarrow> dict_ok (AList.update k v d)"
  by (rule distinct_update)

lemma dict_ok_del [dict_inv, simp]: "dict_ok d \<Longrightarrow> dict_ok (AList.delete k d)"
  by (rule distinct_delete)

lemma dict_ok_setdefault [dict_inv]: "dict_ok d \<Longrightarrow> dict_ok (dict_setdefault k v d)"
  by (auto simp: dict_setdefault_def map_of_eq_None_iff split: option.splits)

lemma dict_ok_append [dict_inv]: "dict_ok d \<Longrightarrow> dict_ok (dict_append k x d)"
  by (simp add: dict_append_def)

lemma dict_ok_merge [dict_inv]: "dict_ok d \<Longrightarrow> dict_ok (dict_merge d e)"
  unfolding dict_merge_def by (induction e arbitrary: d) (auto split: prod.splits)

lemma dict_merge_Nil [simp]: "dict_merge d [] = d"
  by (simp add: dict_merge_def)

lemma dict_merge_Cons [simp]: "dict_merge d (kv # e) = dict_merge (AList.update (fst kv) (snd kv) d) e"
  by (simp add: dict_merge_def split: prod.splits)

lemma set_keys_set [simp]: "fst ` set (AList.update k v d) = insert k (fst ` set d)"
  using dom_update [of k v d] by simp

lemma set_keys_merge: "fst ` set (dict_merge d e) = fst ` set d \<union> fst ` set e"
  by (induction e arbitrary: d) auto

lemma dict_get_merge:
  "map_of (dict_merge d e) k = (case map_of (rev e) k of Some v \<Rightarrow> Some v | None \<Rightarrow> map_of d k)"
proof (induction e arbitrary: d)
  case Nil
  then show ?case by simp
next
  case (Cons kv e)
  then show ?case
    by (auto simp: map_add_def split: option.splits)
qed

lemma dict_ok_of_list [dict_inv]: "dict_ok (dict_of_list kvs)"
  by (simp add: dict_of_list_def dict_ok_merge)

lemma dict_get_of_list: "map_of (dict_of_list kvs) k = map_of (rev kvs) k"
  by (simp add: dict_of_list_def dict_get_merge split: option.splits)

lemma set_update_subset: "set (AList.update k v d) \<subseteq> insert (k, v) (set d)"
  by (induction d) auto

lemma dict_set_new: "k \<notin> fst ` set d \<Longrightarrow> AList.update k v d = d @ [(k, v)]"
  by (induction d) auto

lemma set_delete: "set (AList.delete k d) = {p \<in> set d. fst p \<noteq> k}"
  by (auto simp: AList.delete_eq)

text \<open>Marking a key of a dictionary leaves fewer keys unmarked: the measure of the walks along dictionaries.\<close>

lemma unmarked_keys_less:
  assumes "dict_get d k \<noteq> None" "k \<notin> set marked"
  shows "length (filter (\<lambda>x. x \<notin> insert k (set marked)) (dict_keys d))
    < length (filter (\<lambda>x. x \<notin> set marked) (dict_keys d))"
proof -
  have "k \<in> set (dict_keys d)" using assms(1) by (simp add: map_of_eq_None_iff)
  then obtain xs ys where xs: "dict_keys d = xs @ k # ys" by (meson split_list)
  have le: "length (filter (\<lambda>x. x \<notin> insert k (set marked)) zs) \<le> length (filter (\<lambda>x. x \<notin> set marked) zs)" for zs
    by (induction zs) auto
  show ?thesis unfolding xs using assms(2) le [of xs] le [of ys] by simp
qed

section \<open>Sets\<close>

text \<open>
  A Python \<open>set\<close> is a duplicate-free list: the list order is one of the iteration orders
  Python may choose, and the theorems hold for every such list.
\<close>

definition set_add :: "'a \<Rightarrow> 'a list \<Rightarrow> 'a list" where
  "set_add x xs = (if x \<in> set xs then xs else xs @ [x])"

definition set_discard :: "'a \<Rightarrow> 'a list \<Rightarrow> 'a list" where
  "set_discard x xs = filter (\<lambda>y. y \<noteq> x) xs"

definition set_union :: "'a list \<Rightarrow> 'a list \<Rightarrow> 'a list" where
  "set_union xs ys = foldl (\<lambda>acc y. set_add y acc) xs ys"

definition set_diff :: "'a list \<Rightarrow> 'a list \<Rightarrow> 'a list" where
  "set_diff xs ys = filter (\<lambda>x. x \<notin> set ys) xs"

lemma set_set_add [simp]: "set (set_add x xs) = insert x (set xs)"
  by (auto simp: set_add_def)

lemma distinct_set_add [simp]: "distinct (set_add x xs) = distinct xs"
  by (simp add: set_add_def)

lemma set_set_discard [simp]: "set (set_discard x xs) = set xs - {x}"
  by (auto simp: set_discard_def)

lemma distinct_set_discard [simp]: "distinct xs \<Longrightarrow> distinct (set_discard x xs)"
  by (simp add: set_discard_def)

lemma set_set_union [simp]: "set (set_union xs ys) = set xs \<union> set ys"
  unfolding set_union_def by (induction ys arbitrary: xs) auto

lemma distinct_set_union [simp]: "distinct (set_union xs ys) = distinct xs"
  unfolding set_union_def by (induction ys arbitrary: xs) auto

lemma set_set_diff [simp]: "set (set_diff xs ys) = set xs - set ys"
  by (auto simp: set_diff_def)

lemma distinct_set_diff [simp]: "distinct xs \<Longrightarrow> distinct (set_diff xs ys)"
  by (simp add: set_diff_def)

section \<open>Strings\<close>

definition py_isspace :: "char \<Rightarrow> bool" where
  "py_isspace c = (let n = (of_char c :: nat) in
     (9 \<le> n \<and> n \<le> 13) \<or> (28 \<le> n \<and> n \<le> 32) \<or> n = 133 \<or> n = 160)"

definition py_lower_char :: "char \<Rightarrow> char" where
  "py_lower_char c = (let n = (of_char c :: nat) in
     if (65 \<le> n \<and> n \<le> 90) \<or> (192 \<le> n \<and> n \<le> 222 \<and> n \<noteq> 215) then char_of (n + 32) else c)"

definition py_lower :: "string \<Rightarrow> string" where
  "py_lower s = map py_lower_char s"

text \<open>\<open>\\d\<close> and \<open>str.isdecimal\<close> on the range: the ten ASCII digits.\<close>

definition py_isdecimal :: "char \<Rightarrow> bool" where
  "py_isdecimal c = (let n = (of_char c :: nat) in 48 \<le> n \<and> n \<le> 57)"

text \<open>\<open>str.isdigit\<close> also accepts the superscripts two, three and one.\<close>

definition py_isdigit :: "char \<Rightarrow> bool" where
  "py_isdigit c = (py_isdecimal c \<or> (of_char c :: nat) \<in> {178, 179, 185})"

definition py_isalnum :: "char \<Rightarrow> bool" where
  "py_isalnum c = (let n = (of_char c :: nat) in
     (48 \<le> n \<and> n \<le> 57) \<or> (65 \<le> n \<and> n \<le> 90) \<or> (97 \<le> n \<and> n \<le> 122)
     \<or> n \<in> {170, 178, 179, 181, 185, 186, 188, 189, 190}
     \<or> (192 \<le> n \<and> n \<le> 255 \<and> n \<noteq> 215 \<and> n \<noteq> 247))"

definition strip_if :: "(char \<Rightarrow> bool) \<Rightarrow> string \<Rightarrow> string" where
  "strip_if p s = rev (dropWhile p (rev (dropWhile p s)))"

definition py_strip :: "string \<Rightarrow> string" where
  "py_strip s = strip_if py_isspace s"

definition py_rstrip_char :: "char \<Rightarrow> string \<Rightarrow> string" where
  "py_rstrip_char c s = rev (dropWhile (\<lambda>x. x = c) (rev s))"

fun startswith :: "string \<Rightarrow> string \<Rightarrow> bool" where
  "startswith s [] = True"
| "startswith [] (p # ps) = False"
| "startswith (c # cs) (p # ps) = (c = p \<and> startswith cs ps)"

text \<open>\<open>s.partition(c)\<close> as the part before the first \<open>c\<close> and, when there is one, the part after it.\<close>

fun partition_at :: "char \<Rightarrow> string \<Rightarrow> string \<times> string option" where
  "partition_at c [] = ([], None)"
| "partition_at c (x # xs) =
     (if x = c then ([], Some xs) else (let (a, b) = partition_at c xs in (x # a, b)))"

text \<open>\<open>s.rsplit(c, 1)[-1]\<close> when \<open>c\<close> occurs in \<open>s\<close>, and \<open>s\<close> otherwise: the part after the last \<open>c\<close>.\<close>

definition after_last :: "char \<Rightarrow> string \<Rightarrow> string" where
  "after_last c s = rev (takeWhile (\<lambda>x. x \<noteq> c) (rev s))"

text \<open>\<open>s.split(c)\<close>: never empty.\<close>

fun split_on :: "char \<Rightarrow> string \<Rightarrow> string list" where
  "split_on c [] = [[]]"
| "split_on c (x # xs) =
     (if x = c then [] # split_on c xs
      else (case split_on c xs of [] \<Rightarrow> [[x]] | w # ws \<Rightarrow> (x # w) # ws))"

fun join_with :: "string \<Rightarrow> string list \<Rightarrow> string" where
  "join_with sep [] = []"
| "join_with sep [w] = w"
| "join_with sep (w # v # ws) = w @ sep @ join_with sep (v # ws)"

fun is_substring :: "string \<Rightarrow> string \<Rightarrow> bool" where
  "is_substring p [] = (p = [])"
| "is_substring p (c # cs) = (startswith (c # cs) p \<or> is_substring p cs)"

definition digit_val :: "char \<Rightarrow> nat" where
  "digit_val c = of_char c - 48"

definition dec_val :: "string \<Rightarrow> nat" where
  "dec_val s = foldl (\<lambda>n c. n * 10 + digit_val c) 0 s"

text \<open>
  \<open>int(s)\<close> on a string for which \<open>s.isdigit()\<close> holds: a superscript is a digit but not a
  decimal digit, and \<open>int\<close> raises \<open>ValueError\<close> for it.
\<close>

definition py_int_of_digits :: "string \<Rightarrow> nat result" where
  "py_int_of_digits s =
     (if s \<noteq> [] \<and> list_all py_isdecimal s then Inr (dec_val s)
      else Inl (ValueError ''invalid literal for int()''))"

text \<open>\<open>int(s)\<close>: white space around, a sign, digits with single underscores between them.\<close>

definition py_int_of_string :: "string \<Rightarrow> int option" where
  "py_int_of_string s =
     (let t = py_strip s;
          neg = startswith t ''-'';
          u = (if neg \<or> startswith t ''+'' then drop 1 t else t);
          parts = split_on CHR ''_'' u
      in if list_all (\<lambda>p. p \<noteq> [] \<and> list_all py_isdecimal p) parts
         then Some ((if neg then -1 else 1) * int (dec_val (concat parts))) else None)"

definition digit_char :: "nat \<Rightarrow> char" where
  "digit_char d = ''0123456789'' ! d"

text \<open>\<open>str(n)\<close> for a natural number.\<close>

fun nat_digits :: "nat \<Rightarrow> string" where
  "nat_digits n = (if n < 10 then [digit_char n] else nat_digits (n div 10) @ [digit_char (n mod 10)])"

declare nat_digits.simps [simp del]

lemmas str_defs [str_simps] =
  py_isspace_def py_lower_char_def py_lower_def py_isdecimal_def py_isdigit_def py_isalnum_def
  strip_if_def py_strip_def py_rstrip_char_def after_last_def digit_val_def dec_val_def digit_char_def

subsection \<open>Facts about the string operations\<close>

lemma startswith_append [simp]: "startswith (p @ s) p"
  by (induction p) auto

lemma startswith_iff: "startswith s p \<longleftrightarrow> (\<exists>t. s = p @ t)"
  by (induction s p rule: startswith.induct) auto

lemma py_lower_char_idem [simp]: "py_lower_char (py_lower_char c) = py_lower_char c"
proof -
  have "(of_char c :: nat) < 256" by simp
  then show ?thesis
    by (auto simp: py_lower_char_def Let_def)
qed

lemma py_lower_idem [simp]: "py_lower (py_lower s) = py_lower s"
  by (simp add: py_lower_def)

lemma length_py_lower [simp]: "length (py_lower s) = length s"
  by (simp add: py_lower_def)

lemma strip_if_subset: "set (strip_if p s) \<subseteq> set s"
  by (auto simp: strip_if_def dest!: set_dropWhileD)

lemma strip_if_fix: "s = [] \<or> (\<not> p (hd s) \<and> \<not> p (last s)) \<Longrightarrow> strip_if p s = s"
  by (auto simp: strip_if_def hd_rev dropWhile_eq_self_iff [THEN iffD2])

lemma strip_if_ends: "strip_if p s = [] \<or> (\<not> p (hd (strip_if p s)) \<and> \<not> p (last (strip_if p s)))"
proof -
  define t where "t = dropWhile p s"
  have t: "t = [] \<or> \<not> p (hd t)"
    using hd_dropWhile [of p s] by (auto simp: t_def)
  obtain u where u: "t = rev (dropWhile p (rev t)) @ rev u"
    by (metis rev_append rev_rev_ident takeWhile_dropWhile_id)
  have last: "strip_if p s = [] \<or> \<not> p (last (strip_if p s))"
    using hd_dropWhile [of p "rev t"] by (auto simp: strip_if_def t_def [symmetric] last_rev)
  have "strip_if p s = [] \<or> hd (strip_if p s) = hd t"
    unfolding strip_if_def t_def [symmetric] by (metis hd_append2 u)
  with t last u show ?thesis
    by (metis Nil_is_append_conv strip_if_def t_def)
qed

lemma strip_if_idem [simp]: "strip_if p (strip_if p s) = strip_if p s"
  by (rule strip_if_fix) (rule strip_if_ends)

lemma py_strip_idem [simp]: "py_strip (py_strip s) = py_strip s"
  by (simp add: py_strip_def)

lemma partition_at_parts:
  "partition_at c s = (a, b) \<Longrightarrow>
     c \<notin> set a \<and> (case b of None \<Rightarrow> s = a | Some r \<Rightarrow> s = a @ c # r)"
  by (induction s arbitrary: a b) (auto split: if_splits prod.splits option.splits)

lemma partition_at_append [simp]: "c \<notin> set a \<Longrightarrow> partition_at c (a @ c # r) = (a, Some r)"
  by (induction a) auto

lemma partition_at_none [simp]: "c \<notin> set a \<Longrightarrow> partition_at c a = (a, None)"
  by (induction a) auto

lemma split_on_not_Nil [simp]: "split_on c s \<noteq> []"
  by (induction s) (auto split: list.splits)

lemma join_split_on: "join_with [c] (split_on c s) = s"
proof (induction s)
  case Nil
  then show ?case by simp
next
  case (Cons x xs)
  obtain w ws where w: "split_on c xs = w # ws"
    by (cases "split_on c xs") auto
  with Cons show ?case by (cases ws) auto
qed

lemma digit_char_facts: "\<forall>d \<in> set [0..<10]. digit_val (digit_char d) = d \<and> py_isdecimal (digit_char d)"
  by code_simp

lemma digit_val_char: "d < 10 \<Longrightarrow> digit_val (digit_char d) = d"
  and digit_char_isdecimal: "d < 10 \<Longrightarrow> py_isdecimal (digit_char d)"
  using digit_char_facts by simp_all

lemma dec_val_snoc: "dec_val (s @ [c]) = dec_val s * 10 + digit_val c"
  by (simp add: dec_val_def)

lemma nat_digits_not_Nil [simp]: "nat_digits n \<noteq> []"
  by (subst nat_digits.simps) simp

lemma nat_digits_isdecimal: "list_all py_isdecimal (nat_digits n)"
proof (induction n rule: nat_digits.induct)
  case (1 n)
  then show ?case
    by (subst nat_digits.simps) (auto simp: digit_char_isdecimal)
qed

lemma dec_val_nat_digits [simp]: "dec_val (nat_digits n) = n"
proof (induction n rule: nat_digits.induct)
  case (1 n)
  show ?case
  proof (cases "n < 10")
    case True
    then show ?thesis
      by (subst nat_digits.simps) (simp add: dec_val_def digit_val_char)
  next
    case False
    with "1" have IH: "dec_val (nat_digits (n div 10)) = n div 10" by simp
    from False have "dec_val (nat_digits n) = dec_val (nat_digits (n div 10)) * 10 + n mod 10"
      by (subst nat_digits.simps) (simp add: dec_val_snoc digit_val_char)
    with IH show ?thesis by simp
  qed
qed

end
