(* ===== verification/Values.thy ===== *)
theory Values
  imports Prelude
begin

text \<open>
  Python values as the gateway handles them, \<open>==\<close> on them, and the canonicalisation of OPC UA
  values, \<open>i3x_server/schemas/opcua_value.py\<close>.

  A dataclass instance is its class name and its \<open>init\<close> fields; \<open>Argument\<close>, the one class the
  code treats specially, has its \<open>ValueRank\<close> and \<open>ArrayDimensions\<close> apart from the other
  fields. Floats are reals with a separate NaN.
\<close>

datatype pyval =
    PNone
  | PBool bool
  | PInt int
  | PFloat real
  | PNan
  | PStr string
  | PList "pyval list"
  | PTuple "pyval list"
  | PDict "(string \<times> pyval) list"
  | PArgument "(string \<times> pyval) list" int pyval
  | PData string "(string \<times> pyval) list"

text \<open>\<open>bool\<close>, \<open>int\<close> and \<open>float\<close> compare by their numeric value.\<close>

fun num_val :: "pyval \<Rightarrow> real option" where
  "num_val (PBool b) = Some (if b then 1 else 0)"
| "num_val (PInt i) = Some (of_int i)"
| "num_val (PFloat r) = Some r"
| "num_val _ = None"

lemma size_snd_mem: "(k, v) \<in> set xs \<Longrightarrow> size v < Suc (size_list (size_prod (\<lambda>_. 0) size) xs)"
  by (induction xs) (auto simp: less_Suc_eq_le)

text \<open>The test \<open>current == value\<close>. Dictionaries and records compare by key, lists and tuples by position.\<close>

function py_eq :: "pyval \<Rightarrow> pyval \<Rightarrow> bool" where
  "py_eq a b =
     (case (a, b) of
        (PNone, PNone) \<Rightarrow> True
      | (PStr s, PStr t) \<Rightarrow> s = t
      | (PList xs, PList ys) \<Rightarrow> list_all2 py_eq xs ys
      | (PTuple xs, PTuple ys) \<Rightarrow> list_all2 py_eq xs ys
      | (PDict xs, PDict ys) \<Rightarrow> length xs = length ys \<and>
          list_all (\<lambda>(k, v). case map_of ys k of None \<Rightarrow> False | Some w \<Rightarrow> py_eq v w) xs
      | (PArgument xs r d, PArgument ys r' d') \<Rightarrow>
          list_all2 (\<lambda>(k, v) (l, w). k = l \<and> py_eq v w) xs ys \<and> r = r' \<and> py_eq d d'
      | (PData c xs, PData c' ys) \<Rightarrow>
          c = c' \<and> list_all2 (\<lambda>(k, v) (l, w). k = l \<and> py_eq v w) xs ys
      | _ \<Rightarrow> (case (num_val a, num_val b) of (Some x, Some y) \<Rightarrow> x = y | _ \<Rightarrow> False))"
  by pat_completeness auto
termination
  by (relation "measure (\<lambda>(a, b). size a)")
    (auto simp: less_Suc_eq_le dest!: size_snd_mem intro: size_list_estimation' trans_le_add1)

declare py_eq.simps [simp del]

lemma py_eq_simps [simp]:
  "py_eq PNone PNone"
  "py_eq (PStr s) (PStr t) = (s = t)"
  "py_eq (PInt i) (PInt j) = (i = j)"
  "py_eq (PFloat x) (PFloat y) = (x = y)"
  "py_eq (PBool p) (PBool q) = (p = q)"
  "py_eq (PInt i) (PFloat x) = (of_int i = x)"
  "py_eq (PList xs) (PList ys) = list_all2 py_eq xs ys"
  "py_eq (PTuple xs) (PTuple ys) = list_all2 py_eq xs ys"
  "py_eq (PDict xs') (PDict ys') = (length xs' = length ys' \<and>
     list_all (\<lambda>(k, v). case map_of ys' k of None \<Rightarrow> False | Some w \<Rightarrow> py_eq v w) xs')"
  "py_eq (PArgument xs' r d) (PArgument ys' r' d') =
     (list_all2 (\<lambda>(k, v) (l, w). k = l \<and> py_eq v w) xs' ys' \<and> r = r' \<and> py_eq d d')"
  "py_eq (PData c xs') (PData c' ys') =
     (c = c' \<and> list_all2 (\<lambda>(k, v) (l, w). k = l \<and> py_eq v w) xs' ys')"
  "\<not> py_eq PNone (PInt i)" "\<not> py_eq (PInt i) PNone"
  "\<not> py_eq PNone (PStr s)" "\<not> py_eq (PStr s) PNone"
  "\<not> py_eq PNan v"
  by (subst py_eq.simps, simp split: pyval.splits)+

text \<open>
  Canonical argument dimensions. \<open>Argument\<close> is tested first and not descended into; lists,
  tuples, dictionaries and other dataclasses are rebuilt from their canonical parts.
\<close>

function normalize_opcua_value :: "pyval \<Rightarrow> pyval" where
  "normalize_opcua_value v =
     (case v of
        PArgument fs rank dims \<Rightarrow> if rank \<le> 0 \<and> dims \<noteq> PNone then PArgument fs rank PNone else v
      | PList xs \<Rightarrow> PList (map normalize_opcua_value xs)
      | PTuple xs \<Rightarrow> PTuple (map normalize_opcua_value xs)
      | PDict kvs \<Rightarrow> PDict (map (\<lambda>(k, x). (k, normalize_opcua_value x)) kvs)
      | PData c kvs \<Rightarrow> PData c (map (\<lambda>(k, x). (k, normalize_opcua_value x)) kvs)
      | _ \<Rightarrow> v)"
  by pat_completeness auto
termination
  by (relation "measure size")
    (auto simp: less_Suc_eq_le dest!: size_snd_mem intro: size_list_estimation')

declare normalize_opcua_value.simps [simp del]

lemma normalize_opcua_value_simps [simp]:
  "normalize_opcua_value PNone = PNone"
  "normalize_opcua_value (PBool b) = PBool b"
  "normalize_opcua_value (PInt i) = PInt i"
  "normalize_opcua_value (PFloat x) = PFloat x"
  "normalize_opcua_value PNan = PNan"
  "normalize_opcua_value (PStr s) = PStr s"
  "normalize_opcua_value (PList xs) = PList (map normalize_opcua_value xs)"
  "normalize_opcua_value (PTuple xs) = PTuple (map normalize_opcua_value xs)"
  "normalize_opcua_value (PDict kvs) = PDict (map (\<lambda>(k, x). (k, normalize_opcua_value x)) kvs)"
  "normalize_opcua_value (PData c kvs) = PData c (map (\<lambda>(k, x). (k, normalize_opcua_value x)) kvs)"
  "normalize_opcua_value (PArgument fs rank dims) =
     (if rank \<le> 0 \<and> dims \<noteq> PNone then PArgument fs rank PNone else PArgument fs rank dims)"
  by (subst normalize_opcua_value.simps, simp)+

lemma normalize_opcua_value_idem [simp]:
  "normalize_opcua_value (normalize_opcua_value v) = normalize_opcua_value v"
proof (induction v rule: normalize_opcua_value.induct)
  case (1 v)
  then show ?case by (cases v) auto
qed

lemma normalize_None_iff [simp]: "normalize_opcua_value v = PNone \<longleftrightarrow> v = PNone"
  by (cases v) auto

text \<open>
  Values on which \<open>==\<close> is reflexive: no NaN inside, dictionary keys distinct.
\<close>

function plain_value :: "pyval \<Rightarrow> bool" where
  "plain_value v =
     (case v of
        PNan \<Rightarrow> False
      | PList xs \<Rightarrow> list_all plain_value xs
      | PTuple xs \<Rightarrow> list_all plain_value xs
      | PDict kvs \<Rightarrow> distinct (map fst kvs) \<and> list_all (\<lambda>(k, x). plain_value x) kvs
      | PArgument kvs r d \<Rightarrow> list_all (\<lambda>(k, x). plain_value x) kvs \<and> plain_value d
      | PData c kvs \<Rightarrow> list_all (\<lambda>(k, x). plain_value x) kvs
      | _ \<Rightarrow> True)"
  by pat_completeness auto
termination
  by (relation "measure size")
    (auto simp: less_Suc_eq_le dest!: size_snd_mem intro: size_list_estimation' trans_le_add1)

declare plain_value.simps [simp del]

lemma plain_value_simps [simp]:
  "plain_value PNone" "plain_value (PBool b)" "plain_value (PInt i)" "plain_value (PFloat x)"
  "plain_value (PStr s)" "\<not> plain_value PNan"
  "plain_value (PList xs) = list_all plain_value xs"
  "plain_value (PTuple xs) = list_all plain_value xs"
  "plain_value (PDict kvs) = (distinct (map fst kvs) \<and> list_all (\<lambda>(k, x). plain_value x) kvs)"
  "plain_value (PArgument kvs r d) = (list_all (\<lambda>(k, x). plain_value x) kvs \<and> plain_value d)"
  "plain_value (PData c kvs) = list_all (\<lambda>(k, x). plain_value x) kvs"
  by (subst plain_value.simps, simp)+

lemma py_eq_refl: "plain_value v \<Longrightarrow> py_eq v v"
proof (induction v rule: plain_value.induct)
  case (1 v)
  show ?case
  proof (cases v)
    case (PDict kvs)
    with 1 have "distinct (map fst kvs)" "\<forall>(k, x) \<in> set kvs. py_eq x x"
      by (auto simp: list_all_iff)
    then show ?thesis
      by (auto simp: PDict list_all_iff dest: eq_key_imp_eq_value split: option.splits)
  qed (use 1 in \<open>auto simp: list_all_iff list_all2_same\<close>)
qed

end
