(* ===== verification/Queue.thy ===== *)
theory Queue
  imports Values
begin

text \<open>
  The update queue of one subscription, \<open>i3x_server/infrastructure/subscriptions/service.py\<close>:
  \<open>_SubscriptionState\<close>, \<open>_append_update\<close> and the acknowledgement, collection and reading
  steps that \<open>sync\<close>, \<open>updates_after\<close> and \<open>wait_for_updates\<close> run under the lock. The interface
  of the queue towards its producers is the locale \<open>bounded_log\<close>; the subscription state
  interprets it.
\<close>

section \<open>State\<close>

record SubscriptionUpdate =
  su_sequence_number :: int
  su_element_id :: string
  su_node_id :: string
  su_value :: pyval
  su_quality :: string
  su_timestamp :: string

datatype mode = Idle | Native | Polling

record SubscriptionState =
  ss_subscription_id :: string
  ss_client_id :: "string option"
  ss_display_name :: "string option"
  ss_monitored_objects :: "(string, int) dict"
  ss_monitored_node_ids :: "string list"
  ss_node_to_element_id :: "(string, string) dict"
  ss_handle_to_node_id :: "(int, string) dict"
  ss_last_values_by_node_id :: "(string, pyval) dict"
  ss_updates :: "SubscriptionUpdate list"
  ss_sequence_number :: int
  ss_mode :: mode
  ss_update_event :: bool
  ss_active_stream_generation :: int
  ss_stream_connected :: bool
  ss_dropped_from_sequence :: "int option"
  ss_dropped_to_sequence :: "int option"
  ss_last_activity_monotonic :: real
  ss_native_refresh_interval_seconds :: "real option"
  ss_native_timeout_count :: nat

record SubscriptionSyncResult =
  sr_updates :: "SubscriptionUpdate list"
  sr_queue_overflow :: bool
  sr_dropped_from_sequence :: "int option"
  sr_dropped_to_sequence :: "int option"
  sr_stream_active :: bool

definition new_subscription_state ::
  "string \<Rightarrow> string option \<Rightarrow> string option \<Rightarrow> real \<Rightarrow> SubscriptionState" where
  "new_subscription_state sid client_id display_name now =
     \<lparr>ss_subscription_id = sid, ss_client_id = client_id, ss_display_name = display_name,
      ss_monitored_objects = [], ss_monitored_node_ids = [], ss_node_to_element_id = [],
      ss_handle_to_node_id = [], ss_last_values_by_node_id = [], ss_updates = [],
      ss_sequence_number = 0, ss_mode = Idle, ss_update_event = False,
      ss_active_stream_generation = 0, ss_stream_connected = False,
      ss_dropped_from_sequence = None, ss_dropped_to_sequence = None,
      ss_last_activity_monotonic = now, ss_native_refresh_interval_seconds = None,
      ss_native_timeout_count = 0\<rparr>"

section \<open>Appending an update\<close>

text \<open>The element id an update is reported under.\<close>

definition update_element_id :: "SubscriptionState \<Rightarrow> string \<Rightarrow> string" where
  "update_element_id st node_id =
     (let e = (case dict_get (ss_node_to_element_id st) node_id of
                 Some e \<Rightarrow> e
               | None \<Rightarrow> dict_get_def (ss_node_to_element_id st) (py_lower node_id) node_id)
      in if e = node_id \<and> length (ss_monitored_objects st) = 1
         then fst (hd (ss_monitored_objects st)) else e)"

text \<open>Whether \<open>_append_update\<close> returns early: the value equals the last one seen for the node.\<close>

definition unchanged :: "SubscriptionState \<Rightarrow> string \<Rightarrow> pyval \<Rightarrow> bool" where
  "unchanged st node_id value =
     (case dict_get (ss_last_values_by_node_id st) node_id of
        None \<Rightarrow> False
      | Some current \<Rightarrow> py_eq current (normalize_opcua_value value))"

definition make_update :: "SubscriptionState \<Rightarrow> string \<Rightarrow> pyval \<Rightarrow> string \<Rightarrow> SubscriptionUpdate" where
  "make_update st node_id value timestamp =
     (let v = normalize_opcua_value value in
      \<lparr>su_sequence_number = ss_sequence_number st + 1,
       su_element_id = update_element_id st node_id,
       su_node_id = node_id,
       su_value = v,
       su_quality = (if v = PNone then ''GoodNoData'' else ''Good''),
       su_timestamp = timestamp\<rparr>)"

text \<open>
  The overflow step: the oldest update is popped and the dropped range is opened or extended.
  The bound is at least one, so there is an update to pop.
\<close>

definition drop_oldest :: "nat \<Rightarrow> SubscriptionState \<Rightarrow> SubscriptionState" where
  "drop_oldest max_updates st =
     (if max_updates \<le> length (ss_updates st) then
        (case ss_updates st of
           [] \<Rightarrow> st
         | d # rest \<Rightarrow>
             st\<lparr>ss_updates := rest,
                ss_dropped_from_sequence :=
                  (case ss_dropped_from_sequence st of
                     None \<Rightarrow> Some (su_sequence_number d) | Some f \<Rightarrow> Some f),
                ss_dropped_to_sequence := Some (su_sequence_number d)\<rparr>)
      else st)"

definition append_update ::
  "nat \<Rightarrow> string \<Rightarrow> string \<Rightarrow> pyval \<Rightarrow> SubscriptionState \<Rightarrow> SubscriptionState" where
  "append_update max_updates timestamp node_id value st =
     (if unchanged st node_id value then st
      else (let u = make_update st node_id value timestamp;
                st1 = st\<lparr>ss_last_values_by_node_id :=
                           dict_set node_id (normalize_opcua_value value) (ss_last_values_by_node_id st),
                         ss_sequence_number := ss_sequence_number st + 1\<rparr>;
                st2 = drop_oldest max_updates st1
            in st2\<lparr>ss_updates := ss_updates st2 @ [u], ss_update_event := True\<rparr>))"

section \<open>Acknowledging and collecting\<close>

text \<open>The acknowledgement of \<open>sync\<close>: \<open>-1\<close> clears, a number in range discards what it covers.\<close>

definition acknowledge :: "int option \<Rightarrow> SubscriptionState \<Rightarrow> SubscriptionState" where
  "acknowledge ack st =
     (case ack of
        None \<Rightarrow> st
      | Some a \<Rightarrow>
          if a = -1 then st\<lparr>ss_updates := []\<rparr>
          else if 0 \<le> a \<and> a \<le> ss_sequence_number st
               then st\<lparr>ss_updates := filter (\<lambda>u. su_sequence_number u > a) (ss_updates st)\<rparr>
               else st)"

definition updates_after :: "SubscriptionState \<Rightarrow> int \<Rightarrow> SubscriptionUpdate list" where
  "updates_after st after = filter (\<lambda>u. su_sequence_number u > after) (ss_updates st)"

text \<open>The last section of \<open>sync\<close>: report the queue and the dropped range, and forget the range.\<close>

definition collect_result :: "SubscriptionState \<Rightarrow> SubscriptionSyncResult \<times> SubscriptionState" where
  "collect_result st =
     (\<lparr>sr_updates = ss_updates st,
       sr_queue_overflow = (ss_dropped_from_sequence st \<noteq> None),
       sr_dropped_from_sequence = ss_dropped_from_sequence st,
       sr_dropped_to_sequence = ss_dropped_to_sequence st,
       sr_stream_active = False\<rparr>,
      st\<lparr>ss_dropped_from_sequence := None, ss_dropped_to_sequence := None\<rparr>)"

section \<open>Invariant\<close>

text \<open>The number before the oldest queued update: everything up to it has left the queue.\<close>

definition queue_floor :: "SubscriptionState \<Rightarrow> int" where
  "queue_floor st = ss_sequence_number st - int (length (ss_updates st))"

definition queue_inv :: "nat \<Rightarrow> SubscriptionState \<Rightarrow> bool" where
  "queue_inv max_updates st \<longleftrightarrow>
     1 \<le> max_updates \<and> length (ss_updates st) \<le> max_updates
     \<and> 0 \<le> queue_floor st
     \<and> map su_sequence_number (ss_updates st) = [queue_floor st + 1 .. ss_sequence_number st]
     \<and> (case (ss_dropped_from_sequence st, ss_dropped_to_sequence st) of
          (None, None) \<Rightarrow> True
        | (Some f, Some t) \<Rightarrow> 1 \<le> f \<and> f \<le> t \<and> t \<le> queue_floor st
        | _ \<Rightarrow> False)"

lemma queue_inv_new: "1 \<le> n \<Longrightarrow> queue_inv n (new_subscription_state sid c d now)"
  by (simp add: queue_inv_def new_subscription_state_def queue_floor_def)

lemma upto_tl: "i \<le> j \<Longrightarrow> [i .. j] = i # [i + 1 .. j]"
  by (rule upto_rec1)

lemma filter_upto_gt: "a \<le> b \<Longrightarrow> filter (\<lambda>n. n > c) [a + 1 .. b] = [max a c + 1 .. b :: int]"
proof (induction "nat (b - a)" arbitrary: a)
  case 0
  then have "a = b" by simp
  then show ?case by simp
next
  case (Suc n)
  then have "a + 1 \<le> b" "n = nat (b - (a + 1))" by auto
  with Suc.hyps(1) [of "a + 1"] show ?case
    by (auto simp: upto_tl [of "a + 1"] max_def split: if_splits)
qed

lemma filter_seq_after:
  assumes "map su_sequence_number us = [a + 1 .. b]" "a \<le> b"
  shows "map su_sequence_number (filter (\<lambda>u. su_sequence_number u > c) us) = [max a c + 1 .. b]"
  using assms filter_upto_gt [of a b c] filter_map [of "\<lambda>n. n > c" su_sequence_number us]
  by (simp add: comp_def)

lemma append_update_skip [simp]: "unchanged st n v \<Longrightarrow> append_update m ts n v st = st"
  by (simp add: append_update_def)

lemma append_update_fields:
  assumes "\<not> unchanged st n v"
  shows "ss_sequence_number (append_update m ts n v st) = ss_sequence_number st + 1"
    and "ss_update_event (append_update m ts n v st)"
    and "dict_get (ss_last_values_by_node_id (append_update m ts n v st)) n = Some (normalize_opcua_value v)"
  using assms by (auto simp: append_update_def drop_oldest_def Let_def split: list.splits)

lemma append_update_updates:
  assumes "\<not> unchanged st n v" "1 \<le> m"
  shows "ss_updates (append_update m ts n v st) =
    (if length (ss_updates st) < m then ss_updates st else tl (ss_updates st)) @ [make_update st n v ts]"
  using assms by (auto simp: append_update_def drop_oldest_def Let_def split: list.splits)

lemma append_update_frame [simp]:
  "ss_subscription_id (append_update m ts n v st) = ss_subscription_id st"
  "ss_client_id (append_update m ts n v st) = ss_client_id st"
  "ss_monitored_objects (append_update m ts n v st) = ss_monitored_objects st"
  "ss_monitored_node_ids (append_update m ts n v st) = ss_monitored_node_ids st"
  "ss_node_to_element_id (append_update m ts n v st) = ss_node_to_element_id st"
  "ss_mode (append_update m ts n v st) = ss_mode st"
  "ss_stream_connected (append_update m ts n v st) = ss_stream_connected st"
  "ss_active_stream_generation (append_update m ts n v st) = ss_active_stream_generation st"
  "ss_last_activity_monotonic (append_update m ts n v st) = ss_last_activity_monotonic st"
  by (auto simp: append_update_def drop_oldest_def Let_def split: list.splits)

lemma upto_snoc: "i \<le> j + 1 \<Longrightarrow> [i .. j] @ [j + 1] = [i .. j + 1]"
  using upto_rec2 [of i "j + 1"] by simp

lemma append_update_inv:
  assumes "queue_inv m st"
  shows "queue_inv m (append_update m ts n v st)"
proof (cases "unchanged st n v")
  case True
  with assms show ?thesis by simp
next
  case False
  note inv = assms [unfolded queue_inv_def queue_floor_def]
  show ?thesis
  proof (cases "length (ss_updates st) < m")
    case True
    with False inv show ?thesis
      by (auto simp: queue_inv_def queue_floor_def append_update_def drop_oldest_def make_update_def
          Let_def upto_snoc split: option.splits)
  next
    case full: False
    with inv obtain d rest where us: "ss_updates st = d # rest"
      by (cases "ss_updates st") auto
    let ?s = "ss_sequence_number st"
    let ?a = "?s - int (length rest)"
    have "su_sequence_number d # map su_sequence_number rest = [?a .. ?s]"
      using inv us by simp
    moreover have "[?a .. ?s] = ?a # [?a + 1 .. ?s]"
      by (rule upto_tl) simp
    ultimately have d: "su_sequence_number d = ?a" "map su_sequence_number rest = [?a + 1 .. ?s]"
      by auto
    have e: "[?a + 1 .. ?s] @ [?s + 1] = [?a + 1 .. ?s + 1]"
      by (rule upto_snoc) simp
    from full False inv us d e show ?thesis
      by (auto simp: queue_inv_def queue_floor_def append_update_def drop_oldest_def make_update_def
          Let_def add.commute split: option.splits)
  qed
qed

lemma queue_inv_floor: "queue_inv m st \<Longrightarrow> 0 \<le> queue_floor st \<and> queue_floor st \<le> ss_sequence_number st"
  by (auto simp: queue_inv_def queue_floor_def)

lemma acknowledge_frame [simp]:
  "ss_sequence_number (acknowledge ack st) = ss_sequence_number st"
  "ss_dropped_from_sequence (acknowledge ack st) = ss_dropped_from_sequence st"
  "ss_dropped_to_sequence (acknowledge ack st) = ss_dropped_to_sequence st"
  "ss_subscription_id (acknowledge ack st) = ss_subscription_id st"
  "ss_client_id (acknowledge ack st) = ss_client_id st"
  "ss_monitored_node_ids (acknowledge ack st) = ss_monitored_node_ids st"
  "ss_monitored_objects (acknowledge ack st) = ss_monitored_objects st"
  "ss_stream_connected (acknowledge ack st) = ss_stream_connected st"
  "ss_mode (acknowledge ack st) = ss_mode st"
  by (auto simp: acknowledge_def split: option.splits)

lemma acknowledge_floor:
  assumes "queue_inv m st"
  shows "queue_floor (acknowledge ack st) =
    (case ack of None \<Rightarrow> queue_floor st
     | Some a \<Rightarrow> if a = -1 then ss_sequence_number st
                else if 0 \<le> a \<and> a \<le> ss_sequence_number st then max (queue_floor st) a else queue_floor st)"
proof -
  have l: "int (length (filter (\<lambda>u. su_sequence_number u > a) (ss_updates st))) =
      ss_sequence_number st - max (queue_floor st) a" if "a \<le> ss_sequence_number st" for a
  proof -
    have "map su_sequence_number (ss_updates st) = [queue_floor st + 1 .. ss_sequence_number st]"
      using assms by (simp add: queue_inv_def)
    from filter_seq_after [OF this, of a] queue_inv_floor [OF assms]
    have "length (map su_sequence_number (filter (\<lambda>u. su_sequence_number u > a) (ss_updates st))) =
        length [max (queue_floor st) a + 1 .. ss_sequence_number st]"
      by simp
    with that queue_inv_floor [OF assms] show ?thesis by simp
  qed
  show ?thesis
    by (auto simp: acknowledge_def queue_floor_def l [unfolded queue_floor_def] split: option.splits)
qed

lemma acknowledge_inv:
  assumes "queue_inv m st"
  shows "queue_inv m (acknowledge ack st)"
proof -
  have len: "length (ss_updates (acknowledge ack st)) \<le> length (ss_updates st)"
    by (auto simp: acknowledge_def split: option.splits)
  have fl: "queue_floor st \<le> queue_floor (acknowledge ack st)"
    using acknowledge_floor [OF assms, of ack] queue_inv_floor [OF assms]
    by (auto split: option.splits if_splits)
  have ms: "map su_sequence_number (ss_updates (acknowledge ack st)) =
      [queue_floor (acknowledge ack st) + 1 .. ss_sequence_number st]"
    using acknowledge_floor [OF assms, of ack] assms queue_inv_floor [OF assms]
      filter_seq_after [of "ss_updates st" "queue_floor st" "ss_sequence_number st"]
    by (auto simp: acknowledge_def queue_inv_def split: option.splits if_splits)
  show ?thesis
    using assms len fl ms unfolding queue_inv_def
    by (auto split: option.splits)
qed

lemma collect_result_inv: "queue_inv m st \<Longrightarrow> queue_inv m (snd (collect_result st))"
  by (simp add: queue_inv_def collect_result_def queue_floor_def)

section \<open>The contract towards producers\<close>

text \<open>The last \<open>k\<close> elements of a list: what a queue bounded by \<open>k\<close> keeps.\<close>

definition lastn :: "nat \<Rightarrow> 'a list \<Rightarrow> 'a list" where
  "lastn k xs = drop (length xs - k) xs"

lemma lastn_snoc:
  "1 \<le> k \<Longrightarrow> length xs \<le> k \<Longrightarrow> lastn k (xs @ [x]) = (if length xs < k then xs else tl xs) @ [x]"
  by (cases xs) (auto simp: lastn_def)

lemma lastn_append_lastn: "lastn k (lastn k xs @ ys) = lastn k (xs @ ys)"
  by (cases "k \<le> length xs") (auto simp: lastn_def add.commute)

lemma lastn_idle: "length xs \<le> k \<Longrightarrow> lastn k xs = xs"
  by (simp add: lastn_def)

lemma map_lastn: "map f (lastn k xs) = lastn k (map f xs)"
  by (simp add: lastn_def drop_map)

text \<open>The entries a run of events makes, in order: a stale event makes none.\<close>

primrec log_entries ::
  "('e \<Rightarrow> 's \<Rightarrow> 's) \<Rightarrow> ('e \<Rightarrow> 's \<Rightarrow> bool) \<Rightarrow> ('e \<Rightarrow> 's \<Rightarrow> 'i) \<Rightarrow> 'e list \<Rightarrow> 's \<Rightarrow> 'i list" where
  "log_entries push fresh entry [] s = []"
| "log_entries push fresh entry (e # es) s =
     (if fresh e s then [entry e s] else []) @ log_entries push fresh entry es (push e s)"

primrec run_log :: "('e \<Rightarrow> 's \<Rightarrow> 's) \<Rightarrow> 'e list \<Rightarrow> 's \<Rightarrow> 's" where
  "run_log push [] s = s"
| "run_log push (e # es) s = run_log push es (push e s)"

locale bounded_log =
  fixes push :: "'e \<Rightarrow> 's \<Rightarrow> 's"
    and items :: "'s \<Rightarrow> 'i list"
    and fresh :: "'e \<Rightarrow> 's \<Rightarrow> bool"
    and entry :: "'e \<Rightarrow> 's \<Rightarrow> 'i"
    and invar :: "'s \<Rightarrow> bool"
    and cap :: nat
  assumes cap_pos: "1 \<le> cap"
    and stale: "invar s \<Longrightarrow> \<not> fresh e s \<Longrightarrow> push e s = s"
    and items_push: "invar s \<Longrightarrow> fresh e s \<Longrightarrow>
      items (push e s) = (if length (items s) < cap then items s else tl (items s)) @ [entry e s]"
    and invar_push: "invar s \<Longrightarrow> invar (push e s)"
    and items_cap: "invar s \<Longrightarrow> length (items s) \<le> cap"
begin

lemma items_push_lastn: "invar s \<Longrightarrow> fresh e s \<Longrightarrow> items (push e s) = lastn cap (items s @ [entry e s])"
  using items_push [of s e] lastn_snoc [OF cap_pos items_cap, of s "entry e s"] by simp

lemma run_invar: "invar s \<Longrightarrow> invar (run_log push es s)"
  by (induction es arbitrary: s) (auto simp: invar_push)

lemma run_items:
  "invar s \<Longrightarrow> items (run_log push es s) = lastn cap (items s @ log_entries push fresh entry es s)"
proof (induction es arbitrary: s)
  case Nil
  then show ?case by (simp add: lastn_idle items_cap)
next
  case (Cons e es)
  show ?case
  proof (cases "fresh e s")
    case True
    with Cons show ?thesis
      by (simp add: invar_push items_push_lastn lastn_append_lastn)
  next
    case False
    with Cons show ?thesis by (simp add: stale)
  qed
qed

lemma run_bounded: "invar s \<Longrightarrow> length (items (run_log push es s)) \<le> cap"
  by (simp add: items_cap run_invar)

end

text \<open>The subscription state provides the contract, with the bound that \<open>__init__\<close> clamps to one or more.\<close>

type_synonym data_event = "string \<times> pyval \<times> string"

definition push_event :: "nat \<Rightarrow> data_event \<Rightarrow> SubscriptionState \<Rightarrow> SubscriptionState" where
  "push_event k e st = (case e of (n, v, ts) \<Rightarrow> append_update (max 1 k) ts n v st)"

definition event_fresh :: "data_event \<Rightarrow> SubscriptionState \<Rightarrow> bool" where
  "event_fresh e st = (case e of (n, v, ts) \<Rightarrow> \<not> unchanged st n v)"

definition event_update :: "data_event \<Rightarrow> SubscriptionState \<Rightarrow> SubscriptionUpdate" where
  "event_update e st = (case e of (n, v, ts) \<Rightarrow> make_update st n v ts)"

interpretation sq: bounded_log "push_event k" ss_updates event_fresh event_update "queue_inv (max 1 k)" "max 1 k"
  for k :: nat
proof unfold_locales
  fix s e
  assume i: "queue_inv (max 1 k) s"
  show "queue_inv (max 1 k) (push_event k e s)"
    using i by (auto simp: push_event_def append_update_inv split: prod.splits)
  show "length (ss_updates s) \<le> max 1 k"
    using i by (simp add: queue_inv_def)
  show "push_event k e s = s" if "\<not> event_fresh e s"
    using that by (auto simp: push_event_def event_fresh_def split: prod.splits)
  show "ss_updates (push_event k e s) =
      (if length (ss_updates s) < max 1 k then ss_updates s else tl (ss_updates s)) @ [event_update e s]"
    if "event_fresh e s"
    using that append_update_updates [of s _ _ "max 1 k"]
    by (auto simp: push_event_def event_fresh_def event_update_def split: prod.splits)
qed simp

subsection \<open>The change history\<close>

text \<open>
  What a producer's events mean, without any queue: the events whose canonical value differs
  from the last one of the same node.
\<close>

primrec change_log :: "(string \<Rightarrow> pyval option) \<Rightarrow> data_event list \<Rightarrow> (string \<times> pyval) list" where
  "change_log seen [] = []"
| "change_log seen (e # es) =
     (let n = fst e; w = normalize_opcua_value (fst (snd e)) in
      if (case seen n of None \<Rightarrow> False | Some c \<Rightarrow> py_eq c w) then change_log seen es
      else (n, w) # change_log (seen(n \<mapsto> w)) es)"

lemma last_values_append_update:
  "map_of (ss_last_values_by_node_id (append_update m ts n v st)) =
     (if unchanged st n v then map_of (ss_last_values_by_node_id st)
      else (map_of (ss_last_values_by_node_id st))(n \<mapsto> normalize_opcua_value v))"
  by (auto simp: append_update_def drop_oldest_def Let_def fun_eq_iff split: list.splits)

lemma change_log_step:
  "change_log (map_of (ss_last_values_by_node_id st)) (e # es) =
     (if event_fresh e st then [(su_node_id (event_update e st), su_value (event_update e st))] else [])
     @ change_log (map_of (ss_last_values_by_node_id (push_event k e st))) es"
  "ss_sequence_number (push_event k e st) = ss_sequence_number st + (if event_fresh e st then 1 else 0)"
proof -
  obtain n v ts where e: "e = (n, v, ts)" by (cases e)
  have m: "map_of (ss_last_values_by_node_id (push_event k e st)) =
     (if unchanged st n v then map_of (ss_last_values_by_node_id st)
      else (map_of (ss_last_values_by_node_id st))(n \<mapsto> normalize_opcua_value v))"
    by (simp add: e push_event_def last_values_append_update)
  show "change_log (map_of (ss_last_values_by_node_id st)) (e # es) =
     (if event_fresh e st then [(su_node_id (event_update e st), su_value (event_update e st))] else [])
     @ change_log (map_of (ss_last_values_by_node_id (push_event k e st))) es"
    unfolding m
    by (simp add: e unchanged_def event_fresh_def event_update_def make_update_def Let_def split: option.splits)
  show "ss_sequence_number (push_event k e st) = ss_sequence_number st + (if event_fresh e st then 1 else 0)"
    using append_update_fields(1) [of st n v] by (simp add: e push_event_def event_fresh_def)
qed

lemma entries_change_log:
  "map (\<lambda>u. (su_node_id u, su_value u)) (log_entries (push_event k) event_fresh event_update es st) =
     change_log (map_of (ss_last_values_by_node_id st)) es"
  by (induction es arbitrary: st) (simp_all add: change_log_step(1) [of _ _ _ k] del: change_log.simps(2))

lemma run_sequence_number:
  "ss_sequence_number (run_log (push_event k) es st) =
     ss_sequence_number st + int (length (change_log (map_of (ss_last_values_by_node_id st)) es))"
  by (induction es arbitrary: st)
    (simp_all add: change_log_step(1) [of _ _ _ k] change_log_step(2) del: change_log.simps(2))

section \<open>A client that acknowledges what it received\<close>

text \<open>
  \<open>consumer m st a\<close>: \<open>st\<close> is reached from a new subscription by updates and by syncs of a
  client that always acknowledges the highest number it received, and \<open>a\<close> is that number.
\<close>

definition received :: "int \<Rightarrow> SubscriptionUpdate list \<Rightarrow> int" where
  "received a us = (if us = [] then a else su_sequence_number (last us))"

inductive consumer :: "nat \<Rightarrow> SubscriptionState \<Rightarrow> int \<Rightarrow> bool" for m :: nat where
  subscribed: "consumer m (new_subscription_state sid c d now) 0"
| changed: "consumer m st a \<Longrightarrow> consumer m (append_update m ts n v st) a"
| synced: "consumer m st a \<Longrightarrow> collect_result (acknowledge (Some a) st) = (r, st') \<Longrightarrow>
     consumer m st' (received a (sr_updates r))"

definition consumer_inv :: "nat \<Rightarrow> SubscriptionState \<Rightarrow> int \<Rightarrow> bool" where
  "consumer_inv m st a \<longleftrightarrow> queue_inv m st \<and> 0 \<le> a \<and> a \<le> ss_sequence_number st
     \<and> (case (ss_dropped_from_sequence st, ss_dropped_to_sequence st) of
          (None, None) \<Rightarrow> queue_floor st \<le> a
        | (Some f, Some t) \<Rightarrow> f \<le> a + 1 \<and> t = queue_floor st \<and> t < ss_sequence_number st
        | _ \<Rightarrow> False)"

lemma received_queue:
  "queue_inv m st \<Longrightarrow> a \<le> ss_sequence_number st \<Longrightarrow>
     received a (ss_updates st) = (if ss_updates st = [] then a else ss_sequence_number st)"
proof -
  assume i: "queue_inv m st"
  have "su_sequence_number (last (ss_updates st)) = ss_sequence_number st" if ne: "ss_updates st \<noteq> []"
  proof -
    have ms: "map su_sequence_number (ss_updates st) = [queue_floor st + 1 .. ss_sequence_number st]"
      using i by (simp add: queue_inv_def)
    then have "last (map su_sequence_number (ss_updates st)) = ss_sequence_number st"
      using ne by (metis map_is_Nil_conv last_snoc upto_rec2 upto_empty not_le_imp_less)
    with ne show ?thesis by (simp add: last_map)
  qed
  then show ?thesis by (simp add: received_def)
qed

lemma append_update_floor:
  assumes "queue_inv m st" "\<not> unchanged st n v"
  shows "queue_floor (append_update m ts n v st) =
      (if length (ss_updates st) < m then queue_floor st else queue_floor st + 1)"
    and "length (ss_updates st) < m \<Longrightarrow>
      ss_dropped_from_sequence (append_update m ts n v st) = ss_dropped_from_sequence st
      \<and> ss_dropped_to_sequence (append_update m ts n v st) = ss_dropped_to_sequence st"
    and "\<not> length (ss_updates st) < m \<Longrightarrow>
      ss_dropped_from_sequence (append_update m ts n v st) =
        (case ss_dropped_from_sequence st of None \<Rightarrow> Some (queue_floor st + 1) | Some f \<Rightarrow> Some f)
      \<and> ss_dropped_to_sequence (append_update m ts n v st) = Some (queue_floor st + 1)"
proof -
  have m: "1 \<le> m" "length (ss_updates st) \<le> m" using assms(1) by (auto simp: queue_inv_def)
  show "queue_floor (append_update m ts n v st) =
      (if length (ss_updates st) < m then queue_floor st else queue_floor st + 1)"
    using m append_update_updates [OF assms(2) m(1)] append_update_fields(1) [OF assms(2)]
    by (auto simp: queue_floor_def of_nat_diff)
  show "length (ss_updates st) < m \<Longrightarrow>
      ss_dropped_from_sequence (append_update m ts n v st) = ss_dropped_from_sequence st
      \<and> ss_dropped_to_sequence (append_update m ts n v st) = ss_dropped_to_sequence st"
    using assms(2) by (simp add: append_update_def drop_oldest_def Let_def)
  assume full: "\<not> length (ss_updates st) < m"
  with m obtain d rest where us: "ss_updates st = d # rest" by (cases "ss_updates st") auto
  have "map su_sequence_number (ss_updates st) = [queue_floor st + 1 .. ss_sequence_number st]"
    using assms(1) by (simp add: queue_inv_def)
  then have "su_sequence_number d = queue_floor st + 1"
    using us upto_tl [of "queue_floor st + 1" "ss_sequence_number st"]
    by (auto simp: queue_floor_def)
  then show "ss_dropped_from_sequence (append_update m ts n v st) =
        (case ss_dropped_from_sequence st of None \<Rightarrow> Some (queue_floor st + 1) | Some f \<Rightarrow> Some f)
      \<and> ss_dropped_to_sequence (append_update m ts n v st) = Some (queue_floor st + 1)"
    using full assms(2) us by (auto simp: append_update_def drop_oldest_def Let_def split: option.splits)
qed

lemma consumer_inv_append:
  assumes "consumer_inv m st a"
  shows "consumer_inv m (append_update m ts n v st) a"
proof (cases "unchanged st n v")
  case True
  with assms show ?thesis by simp
next
  case False
  have q: "queue_inv m st" using assms by (simp add: consumer_inv_def)
  note f = append_update_floor [OF q False, of ts] append_update_fields(1) [OF False, of m ts]
    append_update_inv [OF q, of ts n v]
  have full: "\<not> length (ss_updates st) < m \<Longrightarrow> queue_floor st + 1 \<le> ss_sequence_number st"
    using q by (simp add: queue_floor_def queue_inv_def)
  from assms full show ?thesis
    by (cases "length (ss_updates st) < m") (auto simp: consumer_inv_def f split: option.splits)
qed

lemma consumer_inv_sync:
  assumes "consumer_inv m st a" "collect_result (acknowledge (Some a) st) = (r, st')"
  shows "consumer_inv m st' (received a (sr_updates r))"
proof -
  let ?s = "acknowledge (Some a) st"
  have q: "queue_inv m st" and a: "0 \<le> a" "a \<le> ss_sequence_number st"
    using assms(1) by (auto simp: consumer_inv_def)
  have q': "queue_inv m ?s" by (rule acknowledge_inv [OF q])
  have seq: "ss_sequence_number ?s = ss_sequence_number st"
    by (simp add: acknowledge_def)
  have fl: "queue_floor ?s = max (queue_floor st) a"
    using acknowledge_floor [OF q, of "Some a"] a by simp
  have r: "sr_updates r = ss_updates ?s" and st': "st' = snd (collect_result ?s)"
    using assms(2) by (auto simp: collect_result_def)
  have "queue_inv m st'" unfolding st' by (rule collect_result_inv [OF q'])
  moreover have "queue_floor st' = queue_floor ?s" "ss_sequence_number st' = ss_sequence_number st"
    "ss_dropped_from_sequence st' = None" "ss_dropped_to_sequence st' = None"
    by (simp_all add: st' collect_result_def queue_floor_def seq)
  moreover have "received a (ss_updates ?s) = (if ss_updates ?s = [] then a else ss_sequence_number st)"
    using received_queue [OF q', of a] a seq by simp
  moreover have "ss_updates ?s = [] \<Longrightarrow> queue_floor ?s = ss_sequence_number st"
    using seq by (simp add: queue_floor_def)
  ultimately show ?thesis
    using a fl queue_inv_floor [OF q] assms(1)
    by (auto simp: consumer_inv_def r max_def split: if_splits option.splits)
qed

lemma consumer_invariant: "consumer m st a \<Longrightarrow> 1 \<le> m \<Longrightarrow> consumer_inv m st a"
proof (induction rule: consumer.induct)
  case (subscribed sid c d now)
  then show ?case
    using queue_inv_new [of m sid c d now]
    by (simp add: consumer_inv_def) (simp add: new_subscription_state_def queue_floor_def)
next
  case (changed st a ts n v)
  then show ?case by (simp add: consumer_inv_append)
next
  case (synced st a r st')
  then show ?case by (simp add: consumer_inv_sync)
qed

section \<open>Properties\<close>

text \<open>
  C4. The queue refines the change history: after any run of data changes, the queue holds the
  last entries, up to its bound, of what it held before followed by the history of changed
  values, in order and with nothing else, and the sequence number has advanced by the length
  of that history.
\<close>

theorem queue_refines_change_history:
  assumes "queue_inv (max 1 k) st"
  shows "map (\<lambda>u. (su_node_id u, su_value u)) (ss_updates (run_log (push_event k) es st)) =
      lastn (max 1 k) (map (\<lambda>u. (su_node_id u, su_value u)) (ss_updates st) @
        change_log (map_of (ss_last_values_by_node_id st)) es)
    \<and> ss_sequence_number (run_log (push_event k) es st) =
      ss_sequence_number st + int (length (change_log (map_of (ss_last_values_by_node_id st)) es))"
  using sq.run_items [OF assms, of es]
  by (simp add: map_lastn entries_change_log run_sequence_number)

theorem queue_refines_change_history_witness:
  "queue_inv (max 1 2) (new_subscription_state ''s'' None None 0)
   \<and> map (\<lambda>u. (su_node_id u, su_value u))
       (ss_updates (run_log (push_event 2)
          [(''n'', PInt 1, []), (''n'', PInt 1, []), (''m'', PNone, []), (''n'', PInt 2, [])]
          (new_subscription_state ''s'' None None 0)))
     = [(''m'', PNone), (''n'', PInt 2)]"
proof -
  let ?s = "new_subscription_state ''s'' None None 0"
  have q: "queue_inv (max 1 2) ?s" by (rule queue_inv_new) simp
  have l: "ss_last_values_by_node_id ?s = []" "ss_updates ?s = []"
    by (simp_all add: new_subscription_state_def)
  show ?thesis
    using q queue_refines_change_history [OF q,
        of "[(''n'', PInt 1, []), (''n'', PInt 1, []), (''m'', PNone, []), (''n'', PInt 2, [])]"]
    by (simp add: l lastn_def Let_def)
qed

text \<open>
  C3. No update is lost silently: when a client syncs and acknowledges the highest number it has
  received, every later number up to the current one is either in the answer or inside the
  reported dropped range, the answer is a gap-free increasing block of new numbers that ends
  at the current one, and an overflow is reported whenever some number is missing.
\<close>

theorem sync_reports_every_update:
  assumes "consumer m st a" "1 \<le> m" "collect_result (acknowledge (Some a) st) = (r, st')"
  shows "map su_sequence_number (sr_updates r) = [max a (queue_floor st) + 1 .. ss_sequence_number st]
    \<and> (\<forall>n. a < n \<and> n \<le> ss_sequence_number st \<longrightarrow>
         n \<in> su_sequence_number ` set (sr_updates r) \<or>
         sr_queue_overflow r \<and> (\<exists>f t. sr_dropped_from_sequence r = Some f
           \<and> sr_dropped_to_sequence r = Some t \<and> f \<le> n \<and> n \<le> t))"
proof -
  have i: "consumer_inv m st a" by (rule consumer_invariant [OF assms(1,2)])
  then have q: "queue_inv m st" and a: "0 \<le> a" "a \<le> ss_sequence_number st"
    by (auto simp: consumer_inv_def)
  let ?s = "acknowledge (Some a) st"
  have "queue_inv m ?s" by (rule acknowledge_inv [OF q])
  moreover have "queue_floor ?s = max (queue_floor st) a"
    using acknowledge_floor [OF q, of "Some a"] a by simp
  ultimately have ms: "map su_sequence_number (sr_updates r) =
      [max a (queue_floor st) + 1 .. ss_sequence_number st]"
    using assms(3) by (auto simp: queue_inv_def collect_result_def max.commute)
  have im: "su_sequence_number ` set (sr_updates r) = {max a (queue_floor st) + 1 .. ss_sequence_number st}"
    using arg_cong [OF ms, of set] by simp
  have d: "sr_dropped_from_sequence r = ss_dropped_from_sequence st"
    "sr_dropped_to_sequence r = ss_dropped_to_sequence st"
    "sr_queue_overflow r = (ss_dropped_from_sequence st \<noteq> None)"
    using assms(3) by (auto simp: collect_result_def)
  show ?thesis
    using i ms im d by (auto simp: consumer_inv_def split: option.splits)
qed

theorem sync_reports_every_update_witness:
  "consumer 1 (append_update 1 [] ''n'' (PInt 2) (append_update 1 [] ''n'' (PInt 1)
      (new_subscription_state ''s'' None None 0))) 0
   \<and> map su_sequence_number (sr_updates (fst (collect_result (acknowledge (Some 0)
      (append_update 1 [] ''n'' (PInt 2) (append_update 1 [] ''n'' (PInt 1)
        (new_subscription_state ''s'' None None 0))))))) = [2]"
proof -
  let ?s = "append_update 1 [] ''n'' (PInt 2) (append_update 1 [] ''n'' (PInt 1)
      (new_subscription_state ''s'' None None 0))"
  have c: "consumer 1 ?s 0"
    by (intro consumer.changed consumer.subscribed)
  have "queue_floor ?s = 1" "ss_sequence_number ?s = 2"
    by (simp_all add: append_update_def unchanged_def drop_oldest_def new_subscription_state_def
        queue_floor_def Let_def)
  then show ?thesis
    using c sync_reports_every_update [OF c, of "fst (collect_result (acknowledge (Some 0) ?s))"
        "snd (collect_result (acknowledge (Some 0) ?s))"]
    by simp
qed

end
