(* ===== verification/Monitors.thy ===== *)
theory Monitors
  imports Queue
begin

text \<open>
  The shared node monitors of \<open>i3x_server/infrastructure/subscriptions/service.py\<close>: one
  reference-counted \<open>_NodeMonitor\<close> per OPC UA node, packed into \<open>_ManagedBin\<close>s (one native OPC
  UA subscription each) or left to the polling loop. The subscription handlers see them through
  the locale \<open>node_registry\<close>.

  The OPC UA client, the clocks and \<open>uuid4\<close> are parameters: a record of functions whose first
  argument is the number of external calls made so far, so that every call may answer
  differently. A call that may raise answers an option or a flag. \<open>sv_ua_log\<close> records the
  requests that change the state of the OPC UA server.
\<close>

section \<open>Configuration and environment\<close>

datatype refresh_mode = Hybrid | Strict | Adaptive

record config =
  c_interval_seconds :: real
  c_max_updates :: nat
  c_ttl_seconds :: int
  c_seed_initial_values :: bool
  c_refresh_mode :: refresh_mode
  c_refresh_keepalives :: int
  c_refresh_max_seconds :: real
  c_max_concurrent_native_admissions :: int
  c_native_backoff_seconds :: real
  c_queue_maxsize :: nat

text \<open>The clamping of \<open>SubscriptionService.__init__\<close>.\<close>

definition refresh_mode_of :: "string \<Rightarrow> refresh_mode" where
  "refresh_mode_of s =
     (let t = py_lower (py_strip s) in
      if t = ''strict'' then Strict else if t = ''adaptive'' then Adaptive else Hybrid)"

definition make_config ::
  "real \<Rightarrow> int \<Rightarrow> int \<Rightarrow> bool \<Rightarrow> string \<Rightarrow> int \<Rightarrow> real \<Rightarrow> int \<Rightarrow> real \<Rightarrow> config" where
  "make_config interval max_updates ttl seed refresh keepalives refresh_max admissions backoff =
     \<lparr>c_interval_seconds = max (1 / 10) interval,
      c_max_updates = nat (max 1 max_updates),
      c_ttl_seconds = max 1 ttl,
      c_seed_initial_values = seed,
      c_refresh_mode = refresh_mode_of refresh,
      c_refresh_keepalives = max 1 keepalives,
      c_refresh_max_seconds = max (1 / 10) refresh_max,
      c_max_concurrent_native_admissions = max 1 admissions,
      c_native_backoff_seconds = max (1 / 10) backoff,
      c_queue_maxsize = nat (max 1000 (max 1 max_updates))\<rparr>"

record OpcUaSubscriptionCapabilities =
  sc_max_monitored_items_per_call :: "int option"
  sc_max_subscriptions :: "int option"
  sc_max_monitored_items :: "int option"
  sc_max_subscriptions_per_session :: "int option"
  sc_max_monitored_items_per_subscription :: "int option"

text \<open>What \<open>subscribe_data_changes\<close> answers: an exception, a list of handles or one handle.\<close>

datatype subscribe_answer = SubscribeRaises | SubscribeList "pyval list" | SubscribeOne pyval

text \<open>
  A UA subscription object is its identity and its attributes (a \<open>PData\<close> value). Reading the
  capabilities never raises: the client falls back to unknown limits.
\<close>

record ua_subscription =
  us_id :: nat
  us_attrs :: pyval

record env = config +
  e_loop :: nat
  e_loop_closed :: "nat \<Rightarrow> nat \<Rightarrow> bool"
  e_clock :: "nat \<Rightarrow> real"
  e_utcnow :: "nat \<Rightarrow> string"
  e_uuid :: "nat \<Rightarrow> string"
  e_read_values :: "nat \<Rightarrow> string list \<Rightarrow> pyval list option"
  e_capabilities :: "nat \<Rightarrow> OpcUaSubscriptionCapabilities"
  e_create_subscription :: "nat \<Rightarrow> real \<Rightarrow> pyval option"
  e_subscribe :: "nat \<Rightarrow> nat \<Rightarrow> string \<Rightarrow> subscribe_answer"
  e_unsubscribe_ok :: "nat \<Rightarrow> nat \<Rightarrow> int \<Rightarrow> bool"
  e_delete_ok :: "nat \<Rightarrow> nat \<Rightarrow> bool"
  e_item_handles :: "nat \<Rightarrow> nat \<Rightarrow> string list \<Rightarrow> (string, int) dict option"

section \<open>State\<close>

record NodeMonitor =
  nm_node_id :: string
  nm_mode :: mode
  nm_subscriber_ids :: "string list"
  nm_bin_id :: "string option"
  nm_native_refresh_interval_seconds :: "real option"
  nm_uid :: nat

record ManagedBin =
  mb_bin_id :: string
  mb_ua_subscription :: ua_subscription
  mb_capacity :: int
  mb_node_handles :: "(string, int) dict"
  mb_native_refresh_interval_seconds :: "real option"

datatype ua_call =
    UaCreate nat
  | UaDelete nat
  | UaSubscribe nat string
  | UaUnsubscribe nat int

datatype task = CleanupTask | DatachangeTask | NodeDatachangeTask | SharedPollingTask

datatype callback =
    EnsureTasks
  | EnqueueNode string pyval
  | Enqueue string string pyval "int option"

text \<open>
  The attributes of \<open>SubscriptionService\<close>. A monitor object's identity is \<open>nm_uid\<close>; the locks
  and semaphores have no field: a handler's locked sections are separate definitions.
\<close>

record service =
  sv_subscriptions :: "(string, SubscriptionState) dict"
  sv_node_monitors :: "(string, NodeMonitor) dict"
  sv_bins :: "(string, ManagedBin) dict"
  sv_native_backoff_until :: real
  sv_tasks :: "task list"
  sv_datachange_queue :: "(string \<times> string \<times> pyval \<times> int option) list"
  sv_node_datachange_queue :: "(string \<times> pyval) list"
  sv_dropped_datachange_events :: nat
  sv_event_loop :: "nat option"
  sv_pending_calls :: "callback list"
  sv_shutdown :: bool
  sv_reconnect_listener :: bool
  sv_tick :: nat
  sv_next_uid :: nat
  sv_ua_log :: "ua_call list"

definition new_service :: service where
  "new_service =
     \<lparr>sv_subscriptions = [], sv_node_monitors = [], sv_bins = [], sv_native_backoff_until = 0,
      sv_tasks = [], sv_datachange_queue = [], sv_node_datachange_queue = [],
      sv_dropped_datachange_events = 0, sv_event_loop = None, sv_pending_calls = [],
      sv_shutdown = False, sv_reconnect_listener = True, sv_tick = 0, sv_next_uid = 0,
      sv_ua_log = []\<rparr>"

section \<open>Clock and identifiers\<close>

definition tick :: "service \<Rightarrow> service" where
  "tick sv = sv\<lparr>sv_tick := sv_tick sv + 1\<rparr>"

definition remember_event_loop :: "env \<Rightarrow> service \<Rightarrow> service" where
  "remember_event_loop E sv =
     (case sv_event_loop sv of
        None \<Rightarrow> sv\<lparr>sv_event_loop := Some (e_loop E)\<rparr>
      | Some l \<Rightarrow> if e_loop_closed E (sv_tick sv) l then sv\<lparr>sv_event_loop := Some (e_loop E)\<rparr> else sv)"

definition now_monotonic :: "env \<Rightarrow> service \<Rightarrow> real \<times> service" where
  "now_monotonic E sv = (e_clock E (sv_tick sv), tick (remember_event_loop E sv))"

definition ua_log :: "ua_call \<Rightarrow> service \<Rightarrow> service" where
  "ua_log c sv = sv\<lparr>sv_ua_log := sv_ua_log sv @ [c]\<rparr>"

text \<open>\<open>delete_subscription\<close> and \<open>unsubscribe_data_changes\<close>: the flag is false when the call raises.\<close>

definition ua_delete :: "env \<Rightarrow> ua_subscription \<Rightarrow> service \<Rightarrow> bool \<times> service" where
  "ua_delete E ua sv = (e_delete_ok E (sv_tick sv) (us_id ua), ua_log (UaDelete (us_id ua)) (tick sv))"

definition ua_unsubscribe :: "env \<Rightarrow> ua_subscription \<Rightarrow> int \<Rightarrow> service \<Rightarrow> bool \<times> service" where
  "ua_unsubscribe E ua h sv =
     (e_unsubscribe_ok E (sv_tick sv) (us_id ua) h, ua_log (UaUnsubscribe (us_id ua) h) (tick sv))"

section \<open>Reading handles and revised parameters\<close>

definition min_positive :: "int option list \<Rightarrow> int option" where
  "min_positive values =
     (let positive = [v. Some v \<leftarrow> values, v > 0]
      in case positive of [] \<Rightarrow> None | x # xs \<Rightarrow> Some (foldl min x xs))"

text \<open>\<open>int(value)\<close>; \<open>None\<close> when it raises \<open>TypeError\<close> or \<open>ValueError\<close>.\<close>

definition py_trunc :: "real \<Rightarrow> int" where
  "py_trunc r = (if 0 \<le> r then \<lfloor>r\<rfloor> else \<lceil>r\<rceil>)"

fun py_int :: "pyval \<Rightarrow> int option" where
  "py_int (PBool b) = Some (if b then 1 else 0)"
| "py_int (PInt i) = Some i"
| "py_int (PFloat r) = Some (py_trunc r)"
| "py_int (PStr s) = py_int_of_string s"
| "py_int _ = None"

text \<open>\<open>getattr(v, name, None)\<close>.\<close>

fun py_getattr :: "pyval \<Rightarrow> string \<Rightarrow> pyval" where
  "py_getattr (PData c fs) name = dict_get_def fs name PNone"
| "py_getattr (PArgument fs r d) name =
     (if name = ''ValueRank'' then PInt r else if name = ''ArrayDimensions'' then d
      else dict_get_def fs name PNone)"
| "py_getattr _ name = PNone"

definition to_client_handle :: "pyval \<Rightarrow> int option" where
  "to_client_handle v =
     (case v of
        PBool _ \<Rightarrow> None
      | PInt i \<Rightarrow> Some i
      | PNone \<Rightarrow> None
      | _ \<Rightarrow> (case py_int v of
               Some i \<Rightarrow> Some i
             | None \<Rightarrow> (case py_getattr v ''Value'' of PNone \<Rightarrow> None | w \<Rightarrow> py_int w)))"

fun read_attr_chain :: "pyval \<Rightarrow> string list \<Rightarrow> pyval" where
  "read_attr_chain v [] = v"
| "read_attr_chain v (n # ns) = (if v = PNone then PNone else read_attr_chain (py_getattr v n) ns)"

text \<open>Truth value, and \<open>a or b or ...\<close> over a list: the first true value, else the last.\<close>

fun py_truthy :: "pyval \<Rightarrow> bool" where
  "py_truthy PNone = False"
| "py_truthy (PBool b) = b"
| "py_truthy (PInt i) = (i \<noteq> 0)"
| "py_truthy (PFloat r) = (r \<noteq> 0)"
| "py_truthy (PStr s) = (s \<noteq> [])"
| "py_truthy (PList xs) = (xs \<noteq> [])"
| "py_truthy (PTuple xs) = (xs \<noteq> [])"
| "py_truthy (PDict d) = (d \<noteq> [])"
| "py_truthy _ = True"

fun py_or :: "pyval list \<Rightarrow> pyval" where
  "py_or [] = PNone"
| "py_or [v] = v"
| "py_or (v # w # vs) = (if py_truthy v then v else py_or (w # vs))"

definition positive_int_or_none :: "pyval \<Rightarrow> int option" where
  "positive_int_or_none v =
     (case v of
        PBool _ \<Rightarrow> None
      | PNone \<Rightarrow> None
      | _ \<Rightarrow> (case py_int v of None \<Rightarrow> None | Some i \<Rightarrow> if i \<le> 0 then None else Some i))"

text \<open>
  \<open>float(value)\<close> as a number, NaN, an infinity (with its sign), or nothing when it raises.
  A string is white space around, a sign, and either a name of NaN or infinity or a decimal
  number with an optional fraction and exponent and single underscores between digits.
\<close>

datatype pyfloat = FloatRaises | FloatNan | FloatInf bool | Float real

definition digit_part :: "string \<Rightarrow> bool" where
  "digit_part s = list_all (\<lambda>p. p \<noteq> [] \<and> list_all py_isdecimal p) (split_on CHR ''_'' s)"

definition digits_of :: "string \<Rightarrow> string" where
  "digits_of s = filter (\<lambda>c. c \<noteq> CHR ''_'') s"

definition signed_part :: "string \<Rightarrow> bool \<times> string" where
  "signed_part s = (startswith s ''-'', if startswith s ''-'' \<or> startswith s ''+'' then drop 1 s else s)"

definition py_float_of_string :: "string \<Rightarrow> pyfloat" where
  "py_float_of_string s =
     (let (neg, u) = signed_part (py_lower (py_strip s));
          (m, e) = partition_at CHR ''e'' u;
          (a, b) = partition_at CHR ''.'' m;
          frac = (case b of None \<Rightarrow> [] | Some f \<Rightarrow> f);
          (eneg, ex) = (case e of None \<Rightarrow> (False, ''0'') | Some x \<Rightarrow> signed_part x)
      in if u = ''nan'' then FloatNan
         else if u = ''inf'' \<or> u = ''infinity'' then FloatInf neg
         else if (a = [] \<and> frac = []) \<or> (a \<noteq> [] \<and> \<not> digit_part a)
                 \<or> (frac \<noteq> [] \<and> \<not> digit_part frac) \<or> \<not> digit_part ex
         then FloatRaises
         else (let v = (of_nat (dec_val (digits_of a @ digits_of frac)) :: real) / 10 ^ length (digits_of frac);
                   w = (if eneg then v / 10 ^ dec_val (digits_of ex) else v * 10 ^ dec_val (digits_of ex))
               in Float (if neg then - w else w)))"

fun py_float :: "pyval \<Rightarrow> pyfloat" where
  "py_float (PBool b) = Float (if b then 1 else 0)"
| "py_float (PInt i) = Float (of_int i)"
| "py_float (PFloat r) = Float r"
| "py_float PNan = FloatNan"
| "py_float (PStr s) = py_float_of_string s"
| "py_float _ = FloatRaises"

definition positive_float_or_none :: "pyval \<Rightarrow> pyfloat option" where
  "positive_float_or_none v =
     (case v of
        PBool _ \<Rightarrow> None
      | PNone \<Rightarrow> None
      | _ \<Rightarrow> (case py_float v of
               FloatRaises \<Rightarrow> None
             | FloatNan \<Rightarrow> Some FloatNan
             | FloatInf neg \<Rightarrow> if neg then None else Some (FloatInf False)
             | Float r \<Rightarrow> if r \<le> 0 then None else Some (Float r)))"

definition extract_revised_subscription_parameters :: "pyval \<Rightarrow> pyfloat option \<times> int option" where
  "extract_revised_subscription_parameters ua =
     (positive_float_or_none
        (py_or [read_attr_chain ua [''RevisedPublishingInterval''],
                read_attr_chain ua [''revised_publishing_interval''],
                read_attr_chain ua [''data'', ''RevisedPublishingInterval''],
                read_attr_chain ua [''result'', ''RevisedPublishingInterval''],
                read_attr_chain ua [''parameters'', ''RevisedPublishingInterval'']]),
      positive_int_or_none
        (py_or [read_attr_chain ua [''RevisedMaxKeepAliveCount''],
                read_attr_chain ua [''revised_max_keepalive_count''],
                read_attr_chain ua [''data'', ''RevisedMaxKeepAliveCount''],
                read_attr_chain ua [''result'', ''RevisedMaxKeepAliveCount''],
                read_attr_chain ua [''parameters'', ''RevisedMaxKeepAliveCount'']]))"

text \<open>With a NaN or infinite product \<open>min(max_seconds, product)\<close> is its first argument.\<close>

definition compute_native_refresh_interval_seconds :: "env \<Rightarrow> ua_subscription \<Rightarrow> real" where
  "compute_native_refresh_interval_seconds E ua =
     (case extract_revised_subscription_parameters (us_attrs ua) of
        (Some (Float p), Some k) \<Rightarrow>
          max (1 / 10) (min (c_refresh_max_seconds E)
            ((p / 1000) * of_int k * of_int (c_refresh_keepalives E)))
      | (Some _, Some k) \<Rightarrow> max (1 / 10) (c_refresh_max_seconds E)
      | _ \<Rightarrow> max (1 / 10) (min (c_refresh_max_seconds E)
               (c_interval_seconds E * of_int (c_refresh_keepalives E))))"

section \<open>Native bins\<close>

definition total_monitored :: "service \<Rightarrow> int" where
  "total_monitored sv = (\<Sum>b \<leftarrow> dict_values (sv_bins sv). int (length (mb_node_handles b)))"

definition can_open_new_bin :: "OpcUaSubscriptionCapabilities \<Rightarrow> service \<Rightarrow> bool" where
  "can_open_new_bin caps sv =
     (let bin_count = int (length (sv_bins sv)) in
      (case sc_max_subscriptions caps of Some m \<Rightarrow> bin_count + 1 \<le> m | None \<Rightarrow> True)
      \<and> (case sc_max_subscriptions_per_session caps of Some m \<Rightarrow> bin_count + 1 \<le> m | None \<Rightarrow> True)
      \<and> (case sc_max_monitored_items caps of Some m \<Rightarrow> total_monitored sv + 1 \<le> m | None \<Rightarrow> True))"

definition DEFAULT_BIN_CAPACITY :: int where
  "DEFAULT_BIN_CAPACITY = 1000"

text \<open>
  A call that may raise returns \<open>None\<close> for the exception. \<open>subscribe_single_node\<close> returns the
  client handle, \<open>Some None\<close> when the answer has none.
\<close>

definition subscribe_single_node ::
  "env \<Rightarrow> ua_subscription \<Rightarrow> string \<Rightarrow> service \<Rightarrow> int option option \<times> service" where
  "subscribe_single_node E ua node_id sv =
     (case e_subscribe E (sv_tick sv) (us_id ua) node_id of
        SubscribeRaises \<Rightarrow> (None, tick sv)
      | SubscribeList hs \<Rightarrow>
          (Some (to_client_handle (case hs of [] \<Rightarrow> PNone | h # _ \<Rightarrow> h)),
           ua_log (UaSubscribe (us_id ua) node_id) (tick sv))
      | SubscribeOne h \<Rightarrow>
          (Some (to_client_handle h), ua_log (UaSubscribe (us_id ua) node_id) (tick sv)))"

text \<open>Whether the monitor object a task holds is still the registered one.\<close>

definition live_monitor :: "NodeMonitor \<Rightarrow> service \<Rightarrow> NodeMonitor option" where
  "live_monitor mon sv =
     (case dict_get (sv_node_monitors sv) (nm_node_id mon) of
        None \<Rightarrow> None
      | Some live \<Rightarrow> if nm_uid live = nm_uid mon then Some live else None)"

definition set_monitor :: "NodeMonitor \<Rightarrow> service \<Rightarrow> service" where
  "set_monitor m sv = sv\<lparr>sv_node_monitors := dict_set (nm_node_id m) m (sv_node_monitors sv)\<rparr>"

definition set_bin :: "ManagedBin \<Rightarrow> service \<Rightarrow> service" where
  "set_bin b sv = sv\<lparr>sv_bins := dict_set (mb_bin_id b) b (sv_bins sv)\<rparr>"

text \<open>The last locked section of \<open>_open_new_bin\<close>.\<close>

definition open_new_bin_commit ::
  "env \<Rightarrow> NodeMonitor \<Rightarrow> string \<Rightarrow> ua_subscription \<Rightarrow> int \<Rightarrow> int \<Rightarrow> service \<Rightarrow> bool option \<times> service" where
  "open_new_bin_commit E mon bin_id ua capacity handle sv =
     (case live_monitor mon sv of
        None \<Rightarrow> (let (ok, sv1) = ua_delete E ua sv in (if ok then Some False else None, sv1))
      | Some live \<Rightarrow>
          (let r = Some (compute_native_refresh_interval_seconds E ua);
               b = \<lparr>mb_bin_id = bin_id, mb_ua_subscription = ua, mb_capacity = capacity,
                    mb_node_handles = [(nm_node_id mon, handle)],
                    mb_native_refresh_interval_seconds = r\<rparr>
           in (Some True,
               set_monitor (live\<lparr>nm_bin_id := Some bin_id, nm_mode := Native,
                                 nm_native_refresh_interval_seconds := r\<rparr>) (set_bin b sv))))"

definition bin_name :: "env \<Rightarrow> nat \<Rightarrow> string" where
  "bin_name E t = ''bin-'' @ e_uuid E t"

definition open_new_bin :: "env \<Rightarrow> NodeMonitor \<Rightarrow> int \<Rightarrow> service \<Rightarrow> bool option \<times> service" where
  "open_new_bin E mon capacity sv =
     (let bin_id = bin_name E (sv_tick sv); sv1 = tick sv in
      case e_create_subscription E (sv_tick sv1) (c_interval_seconds E * 1000) of
        None \<Rightarrow> (None, tick sv1)
      | Some attrs \<Rightarrow>
          (let ua = \<lparr>us_id = sv_tick sv1, us_attrs = attrs\<rparr>;
               (h, sv2) = subscribe_single_node E ua (nm_node_id mon)
                            (ua_log (UaCreate (us_id ua)) (tick sv1))
           in case h of
                None \<Rightarrow> (None, sv2)
              | Some None \<Rightarrow> (Some False, snd (ua_delete E ua sv2))
              | Some (Some handle) \<Rightarrow> open_new_bin_commit E mon bin_id ua capacity handle sv2))"

definition add_node_to_bin_commit ::
  "env \<Rightarrow> NodeMonitor \<Rightarrow> ManagedBin \<Rightarrow> int \<Rightarrow> service \<Rightarrow> bool option \<times> service" where
  "add_node_to_bin_commit E mon target handle sv =
     (case (live_monitor mon sv, dict_get (sv_bins sv) (mb_bin_id target)) of
        (Some live, Some b) \<Rightarrow>
          (Some True,
           set_monitor (live\<lparr>nm_bin_id := Some (mb_bin_id b), nm_mode := Native,
               nm_native_refresh_interval_seconds := mb_native_refresh_interval_seconds b\<rparr>)
             (set_bin (b\<lparr>mb_node_handles := dict_set (nm_node_id mon) handle (mb_node_handles b)\<rparr>) sv))
      | _ \<Rightarrow> (Some False, snd (ua_unsubscribe E (mb_ua_subscription target) handle sv)))"

definition add_node_to_bin :: "env \<Rightarrow> NodeMonitor \<Rightarrow> ManagedBin \<Rightarrow> service \<Rightarrow> bool option \<times> service" where
  "add_node_to_bin E mon target sv =
     (let (h, sv1) = subscribe_single_node E (mb_ua_subscription target) (nm_node_id mon) sv in
      case h of
        None \<Rightarrow> (None, sv1)
      | Some None \<Rightarrow> (Some False, sv1)
      | Some (Some handle) \<Rightarrow> add_node_to_bin_commit E mon target handle sv1)"

definition spare_bin :: "service \<Rightarrow> ManagedBin option" where
  "spare_bin sv = find (\<lambda>b. int (length (mb_node_handles b)) < mb_capacity b) (dict_values (sv_bins sv))"

definition acquire_native_bin_slot ::
  "env \<Rightarrow> NodeMonitor \<Rightarrow> OpcUaSubscriptionCapabilities \<Rightarrow> service \<Rightarrow> bool option \<times> service" where
  "acquire_native_bin_slot E mon caps sv =
     (let capacity = (case min_positive [sc_max_monitored_items_per_subscription caps] of
                        Some c \<Rightarrow> c | None \<Rightarrow> DEFAULT_BIN_CAPACITY) in
      if (case sc_max_monitored_items caps of Some m \<Rightarrow> total_monitored sv + 1 > m | None \<Rightarrow> False)
      then (Some False, sv)
      else (case spare_bin sv of
              Some target \<Rightarrow> add_node_to_bin E mon target sv
            | None \<Rightarrow> if \<not> can_open_new_bin caps sv then (Some False, sv)
                      else open_new_bin E mon capacity sv))"

section \<open>Starting and stopping a monitor\<close>

definition start_polling_node_monitor :: "NodeMonitor \<Rightarrow> service \<Rightarrow> service" where
  "start_polling_node_monitor mon sv =
     (case live_monitor mon sv of
        None \<Rightarrow> sv
      | Some live \<Rightarrow> set_monitor (live\<lparr>nm_mode := Polling, nm_bin_id := None,
                       nm_native_refresh_interval_seconds := None\<rparr>) sv)"

definition start_node_monitor_runtime :: "env \<Rightarrow> NodeMonitor \<Rightarrow> service \<Rightarrow> service" where
  "start_node_monitor_runtime E mon sv =
     (let (now, sv1) = now_monotonic E sv in
      if now < sv_native_backoff_until sv1 then start_polling_node_monitor mon sv1
      else (let (acquired, sv2) = acquire_native_bin_slot E mon (e_capabilities E (sv_tick sv1)) (tick sv1)
            in case acquired of
                 Some True \<Rightarrow> sv2
               | Some False \<Rightarrow> start_polling_node_monitor mon sv2
               | None \<Rightarrow>
                   (let (now', sv3) = now_monotonic E sv2
                    in start_polling_node_monitor mon
                         (sv3\<lparr>sv_native_backoff_until := now' + c_native_backoff_seconds E\<rparr>))))"

text \<open>
  The argument is the monitor as it was when it left the registry; its own fields are reset on
  an object nothing else refers to.
\<close>

definition stop_node_monitor_runtime :: "env \<Rightarrow> NodeMonitor \<Rightarrow> service \<Rightarrow> service" where
  "stop_node_monitor_runtime E mon sv =
     (case nm_bin_id mon of
        None \<Rightarrow> sv
      | Some bin_id \<Rightarrow>
          (case dict_get (sv_bins sv) bin_id of
             None \<Rightarrow> sv
           | Some target \<Rightarrow>
               (let handle = dict_get (mb_node_handles target) (nm_node_id mon);
                    rest = dict_del (nm_node_id mon) (mb_node_handles target)
                in if rest = [] then
                     snd (ua_delete E (mb_ua_subscription target)
                            (sv\<lparr>sv_bins := dict_del bin_id (sv_bins sv)\<rparr>))
                   else
                     (let sv1 = sv\<lparr>sv_bins := dict_set bin_id (target\<lparr>mb_node_handles := rest\<rparr>) (sv_bins sv)\<rparr>
                      in case handle of
                           None \<Rightarrow> sv1
                         | Some h \<Rightarrow> snd (ua_unsubscribe E (mb_ua_subscription target) h sv1)))))"

definition acquire_node_monitor :: "env \<Rightarrow> string \<Rightarrow> string \<Rightarrow> service \<Rightarrow> service" where
  "acquire_node_monitor E node_id subscription_id sv =
     (case dict_get (sv_node_monitors sv) node_id of
        Some m \<Rightarrow> set_monitor (m\<lparr>nm_subscriber_ids := set_add subscription_id (nm_subscriber_ids m)\<rparr>) sv
      | None \<Rightarrow>
          (let m = \<lparr>nm_node_id = node_id, nm_mode = Idle, nm_subscriber_ids = [subscription_id],
                    nm_bin_id = None, nm_native_refresh_interval_seconds = None,
                    nm_uid = sv_next_uid sv\<rparr>
           in start_node_monitor_runtime E m (set_monitor m (sv\<lparr>sv_next_uid := sv_next_uid sv + 1\<rparr>))))"

definition release_node_monitor :: "env \<Rightarrow> string \<Rightarrow> string \<Rightarrow> service \<Rightarrow> service" where
  "release_node_monitor E node_id subscription_id sv =
     (case dict_get (sv_node_monitors sv) node_id of
        None \<Rightarrow> sv
      | Some m \<Rightarrow>
          (let m' = m\<lparr>nm_subscriber_ids := set_discard subscription_id (nm_subscriber_ids m)\<rparr> in
           if nm_subscriber_ids m' = [] then
             stop_node_monitor_runtime E m'
               (sv\<lparr>sv_node_monitors := dict_del node_id (sv_node_monitors sv)\<rparr>)
           else set_monitor m' sv))"

end
