(* ===== verification/Registry.thy ===== *)
theory Registry
  imports Monitors
begin

text \<open>
  The contract of the shared node monitors. \<open>node_registry\<close> is what a subscription handler
  relies on: acquiring and releasing a node changes the watchers of that node and nothing else
  of them, keeps the subscriptions, and keeps the registry consistent. The model's
  \<open>acquire_node_monitor\<close> and \<open>release_node_monitor\<close> interpret it.
\<close>

named_theorems frame_simps \<open>what an operation leaves unchanged\<close>

section \<open>Frames\<close>

lemma tick_frame [frame_simps, simp]:
  "sv_subscriptions (tick sv) = sv_subscriptions sv"
  "sv_node_monitors (tick sv) = sv_node_monitors sv"
  "sv_bins (tick sv) = sv_bins sv"
  "sv_tick (tick sv) = Suc (sv_tick sv)"
  "sv_native_backoff_until (tick sv) = sv_native_backoff_until sv"
  "sv_ua_log (tick sv) = sv_ua_log sv"
  "sv_next_uid (tick sv) = sv_next_uid sv"
  "sv_shutdown (tick sv) = sv_shutdown sv"
  by (simp_all add: tick_def)

lemma remember_frame [frame_simps, simp]:
  "sv_subscriptions (remember_event_loop E sv) = sv_subscriptions sv"
  "sv_node_monitors (remember_event_loop E sv) = sv_node_monitors sv"
  "sv_bins (remember_event_loop E sv) = sv_bins sv"
  "sv_tick (remember_event_loop E sv) = sv_tick sv"
  "sv_native_backoff_until (remember_event_loop E sv) = sv_native_backoff_until sv"
  "sv_ua_log (remember_event_loop E sv) = sv_ua_log sv"
  "sv_next_uid (remember_event_loop E sv) = sv_next_uid sv"
  "sv_shutdown (remember_event_loop E sv) = sv_shutdown sv"
  by (simp_all add: remember_event_loop_def split: option.splits)

lemma ua_log_frame [frame_simps, simp]:
  "sv_subscriptions (ua_log c sv) = sv_subscriptions sv"
  "sv_node_monitors (ua_log c sv) = sv_node_monitors sv"
  "sv_bins (ua_log c sv) = sv_bins sv"
  "sv_tick (ua_log c sv) = sv_tick sv"
  "sv_native_backoff_until (ua_log c sv) = sv_native_backoff_until sv"
  "sv_ua_log (ua_log c sv) = sv_ua_log sv @ [c]"
  "sv_next_uid (ua_log c sv) = sv_next_uid sv"
  "sv_shutdown (ua_log c sv) = sv_shutdown sv"
  by (simp_all add: ua_log_def)

lemma set_monitor_frame [frame_simps, simp]:
  "sv_subscriptions (set_monitor m sv) = sv_subscriptions sv"
  "sv_node_monitors (set_monitor m sv) = dict_set (nm_node_id m) m (sv_node_monitors sv)"
  "sv_bins (set_monitor m sv) = sv_bins sv"
  "sv_tick (set_monitor m sv) = sv_tick sv"
  "sv_native_backoff_until (set_monitor m sv) = sv_native_backoff_until sv"
  "sv_ua_log (set_monitor m sv) = sv_ua_log sv"
  "sv_next_uid (set_monitor m sv) = sv_next_uid sv"
  "sv_shutdown (set_monitor m sv) = sv_shutdown sv"
  by (simp_all add: set_monitor_def)

lemma set_bin_frame [frame_simps, simp]:
  "sv_subscriptions (set_bin b sv) = sv_subscriptions sv"
  "sv_node_monitors (set_bin b sv) = sv_node_monitors sv"
  "sv_bins (set_bin b sv) = dict_set (mb_bin_id b) b (sv_bins sv)"
  "sv_tick (set_bin b sv) = sv_tick sv"
  "sv_native_backoff_until (set_bin b sv) = sv_native_backoff_until sv"
  "sv_ua_log (set_bin b sv) = sv_ua_log sv"
  "sv_next_uid (set_bin b sv) = sv_next_uid sv"
  "sv_shutdown (set_bin b sv) = sv_shutdown sv"
  by (simp_all add: set_bin_def)

lemma fst_now_monotonic [simp]: "fst (now_monotonic E sv) = e_clock E (sv_tick sv)"
  and snd_now_monotonic [simp]: "snd (now_monotonic E sv) = tick (remember_event_loop E sv)"
  by (simp_all add: now_monotonic_def)

section \<open>Consistency\<close>

text \<open>
  A monitor is native exactly when it is in a bin; a bin holds exactly the nodes whose monitor
  names it, at least one and at most its capacity; bin ids come from earlier \<open>uuid4\<close> calls.
\<close>

definition monitor_ok :: "string \<Rightarrow> NodeMonitor \<Rightarrow> bool" where
  "monitor_ok n m \<longleftrightarrow> nm_node_id m = n \<and> nm_subscriber_ids m \<noteq> [] \<and> distinct (nm_subscriber_ids m)
     \<and> (nm_mode m = Native \<longleftrightarrow> nm_bin_id m \<noteq> None)"

definition bin_ok :: "env \<Rightarrow> nat \<Rightarrow> string \<Rightarrow> ManagedBin \<Rightarrow> bool" where
  "bin_ok E t i b \<longleftrightarrow> mb_bin_id b = i \<and> dict_ok (mb_node_handles b) \<and> mb_node_handles b \<noteq> []
     \<and> int (length (mb_node_handles b)) \<le> mb_capacity b \<and> (\<exists>k < t. i = bin_name E k)"

definition in_bin :: "service \<Rightarrow> string \<Rightarrow> string \<Rightarrow> bool" where
  "in_bin sv i n \<longleftrightarrow> (case dict_get (sv_bins sv) i of
     None \<Rightarrow> False | Some b \<Rightarrow> n \<in> fst ` set (mb_node_handles b))"

definition names_bin :: "service \<Rightarrow> string \<Rightarrow> string \<Rightarrow> bool" where
  "names_bin sv i n \<longleftrightarrow> (case dict_get (sv_node_monitors sv) n of
     None \<Rightarrow> False | Some m \<Rightarrow> nm_bin_id m = Some i)"

definition registry_inv :: "env \<Rightarrow> service \<Rightarrow> bool" where
  "registry_inv E sv \<longleftrightarrow> inj (e_uuid E) \<and> dict_ok (sv_node_monitors sv) \<and> dict_ok (sv_bins sv)
     \<and> (\<forall>n m. dict_get (sv_node_monitors sv) n = Some m \<longrightarrow> monitor_ok n m)
     \<and> (\<forall>i b. dict_get (sv_bins sv) i = Some b \<longrightarrow> bin_ok E (sv_tick sv) i b)
     \<and> (\<forall>i n. in_bin sv i n \<longleftrightarrow> names_bin sv i n)"

definition watchers :: "service \<Rightarrow> string \<Rightarrow> string set" where
  "watchers sv n = (case dict_get (sv_node_monitors sv) n of
     None \<Rightarrow> {} | Some m \<Rightarrow> set (nm_subscriber_ids m))"

lemma registry_inv_new: "inj (e_uuid E) \<Longrightarrow> registry_inv E new_service"
  by (simp add: registry_inv_def new_service_def in_bin_def names_bin_def)

lemma bin_ok_mono: "bin_ok E t i b \<Longrightarrow> t \<le> t' \<Longrightarrow> bin_ok E t' i b"
  unfolding bin_ok_def by (meson less_le_trans)

lemma registry_invD:
  assumes "registry_inv E sv"
  shows "inj (e_uuid E)" "dict_ok (sv_node_monitors sv)" "dict_ok (sv_bins sv)"
    "dict_get (sv_node_monitors sv) n = Some m \<Longrightarrow> monitor_ok n m"
    "dict_get (sv_bins sv) i = Some b \<Longrightarrow> bin_ok E (sv_tick sv) i b"
    "in_bin sv i n \<longleftrightarrow> names_bin sv i n"
  using assms unfolding registry_inv_def by blast+

text \<open>An operation that only advances the clock or the log keeps everything.\<close>

lemma registry_inv_cong:
  assumes "registry_inv E sv" "sv_node_monitors sv' = sv_node_monitors sv" "sv_bins sv' = sv_bins sv"
    "sv_tick sv \<le> sv_tick sv'"
  shows "registry_inv E sv'"
  using assms bin_ok_mono unfolding registry_inv_def in_bin_def names_bin_def by (metis (no_types, lifting))

lemma watchers_cong: "sv_node_monitors sv' = sv_node_monitors sv \<Longrightarrow> watchers sv' = watchers sv"
  by (simp add: watchers_def fun_eq_iff)

lemma bin_name_inj: "inj (e_uuid E) \<Longrightarrow> bin_name E s = bin_name E t \<Longrightarrow> s = t"
  by (auto simp: bin_name_def inj_def)

lemma registry_fresh_bin:
  assumes "registry_inv E sv" "sv_tick sv \<le> t"
  shows "dict_get (sv_bins sv) (bin_name E t) = None"
proof (rule ccontr)
  assume "dict_get (sv_bins sv) (bin_name E t) \<noteq> None"
  then obtain b where "dict_get (sv_bins sv) (bin_name E t) = Some b" by auto
  then obtain k where "k < sv_tick sv" "bin_name E t = bin_name E k"
    using registry_invD(5) [OF assms(1)] unfolding bin_ok_def by blast
  with assms(2) bin_name_inj [OF registry_invD(1) [OF assms(1)], of t k] show False by simp
qed

text \<open>Replacing one monitor by one with the same subscribers, when the bins agree with it.\<close>

lemma registry_set_monitor:
  assumes inv: "inj (e_uuid E)" "dict_ok (sv_node_monitors sv)" "dict_ok (sv_bins sv)"
    "\<And>n' m'. dict_get (sv_node_monitors sv) n' = Some m' \<Longrightarrow> n' \<noteq> n \<Longrightarrow> monitor_ok n' m'"
    "\<And>i b. dict_get (sv_bins sv) i = Some b \<Longrightarrow> bin_ok E (sv_tick sv) i b"
    "\<And>i n'. n' \<noteq> n \<Longrightarrow> in_bin sv i n' \<longleftrightarrow> names_bin sv i n'"
    and m: "monitor_ok n m" "\<And>i. in_bin sv i n \<longleftrightarrow> nm_bin_id m = Some i"
  shows "registry_inv E (set_monitor m sv)"
  using assms by (auto simp: registry_inv_def monitor_ok_def in_bin_def names_bin_def)

lemma watchers_set_monitor:
  "watchers (set_monitor m sv) n = (if n = nm_node_id m then set (nm_subscriber_ids m) else watchers sv n)"
  by (simp add: watchers_def)


section \<open>Packing a node into a bin\<close>

lemma in_bin_set_bin:
  "in_bin (set_bin b sv) i n \<longleftrightarrow>
     (if i = mb_bin_id b then n \<in> fst ` set (mb_node_handles b) else in_bin sv i n)"
  by (simp add: in_bin_def)

lemma names_bin_set_bin [simp]: "names_bin (set_bin b sv) = names_bin sv"
  by (simp add: names_bin_def fun_eq_iff)

lemma registry_pack:
  assumes inv: "registry_inv E sv" and live: "dict_get (sv_node_monitors sv) n = Some live"
    "nm_bin_id live = None" and b: "bin_ok E (sv_tick sv) (mb_bin_id b) b"
    and keys: "fst ` set (mb_node_handles b) = insert n {n'. in_bin sv (mb_bin_id b) n'}"
  shows "registry_inv E (set_monitor (live\<lparr>nm_bin_id := Some (mb_bin_id b), nm_mode := Native,
      nm_native_refresh_interval_seconds := r\<rparr>) (set_bin b sv))"
proof (rule registry_set_monitor [where n = n])
  have lok: "monitor_ok n live" by (rule registry_invD(4) [OF inv live(1)])
  have none: "\<not> in_bin sv i n" for i
    using registry_invD(6) [OF inv, of i n] live by (simp add: names_bin_def)
  show "inj (e_uuid E)" "dict_ok (sv_node_monitors (set_bin b sv))" "dict_ok (sv_bins (set_bin b sv))"
    using registry_invD(1,2,3) [OF inv] by simp_all
  show "monitor_ok n' m'" if "dict_get (sv_node_monitors (set_bin b sv)) n' = Some m'" for n' m'
    using that registry_invD(4) [OF inv] by simp
  show "bin_ok E (sv_tick (set_bin b sv)) i x" if "dict_get (sv_bins (set_bin b sv)) i = Some x" for i x
    using that b registry_invD(5) [OF inv, of i x] by (simp split: if_splits)
  show "in_bin (set_bin b sv) i n' \<longleftrightarrow> names_bin (set_bin b sv) i n'" if "n' \<noteq> n" for i n'
    using that keys registry_invD(6) [OF inv, of i n'] by (cases "i = mb_bin_id b") (simp_all add: in_bin_set_bin)
  show "monitor_ok n (live\<lparr>nm_bin_id := Some (mb_bin_id b), nm_mode := Native,
      nm_native_refresh_interval_seconds := r\<rparr>)"
    using lok by (simp add: monitor_ok_def)
  show "in_bin (set_bin b sv) i n \<longleftrightarrow> nm_bin_id (live\<lparr>nm_bin_id := Some (mb_bin_id b), nm_mode := Native,
      nm_native_refresh_interval_seconds := r\<rparr>) = Some i" for i
    using none keys by (auto simp: in_bin_set_bin)
qed

section \<open>Starting a monitor\<close>

text \<open>
  The effect every step of the admission has: consistency is kept, subscribers and
  subscriptions are untouched, and no other monitor changes.
\<close>

definition admission_step :: "env \<Rightarrow> string \<Rightarrow> service \<Rightarrow> service \<Rightarrow> bool" where
  "admission_step E n sv sv' \<longleftrightarrow> registry_inv E sv' \<and> watchers sv' = watchers sv
     \<and> sv_subscriptions sv' = sv_subscriptions sv \<and> sv_tick sv \<le> sv_tick sv'
     \<and> sv_shutdown sv' = sv_shutdown sv \<and> sv_next_uid sv' = sv_next_uid sv
     \<and> (\<forall>n'. n' \<noteq> n \<longrightarrow> dict_get (sv_node_monitors sv') n' = dict_get (sv_node_monitors sv) n')
     \<and> (dict_get (sv_node_monitors sv) n = None \<longleftrightarrow> dict_get (sv_node_monitors sv') n = None)"

lemma admission_refl: "registry_inv E sv \<Longrightarrow> admission_step E n sv sv"
  by (simp add: admission_step_def)

lemma admission_trans:
  "admission_step E n a b \<Longrightarrow> admission_step E n b c \<Longrightarrow> admission_step E n a c"
  by (auto simp: admission_step_def)

lemma admission_cong:
  assumes "registry_inv E sv" "sv_node_monitors sv' = sv_node_monitors sv" "sv_bins sv' = sv_bins sv"
    "sv_tick sv \<le> sv_tick sv'" "sv_subscriptions sv' = sv_subscriptions sv"
    "sv_shutdown sv' = sv_shutdown sv" "sv_next_uid sv' = sv_next_uid sv"
  shows "admission_step E n sv sv'"
  using assms registry_inv_cong [OF assms(1-4)] watchers_cong [OF assms(2)]
  by (simp add: admission_step_def)

lemma admission_set_monitor:
  assumes "registry_inv E (set_monitor m sv')" "dict_get (sv_node_monitors sv') n = Some live"
    "sv_node_monitors sv' = sv_node_monitors sv"
    "nm_node_id m = n" "nm_subscriber_ids m = nm_subscriber_ids live"
    "sv_tick sv' = sv_tick sv" "sv_subscriptions sv' = sv_subscriptions sv"
    "sv_shutdown sv' = sv_shutdown sv" "sv_next_uid sv' = sv_next_uid sv"
  shows "admission_step E n sv (set_monitor m sv')"
  using assms by (auto simp: admission_step_def watchers_def fun_eq_iff)

lemma live_monitor_SomeD:
  "live_monitor mon sv = Some live \<Longrightarrow> dict_get (sv_node_monitors sv) (nm_node_id mon) = Some live"
  by (auto simp: live_monitor_def split: option.splits if_splits)

lemma live_monitor_cong:
  "sv_node_monitors sv' = sv_node_monitors sv \<Longrightarrow> live_monitor mon sv' = live_monitor mon sv"
  by (simp add: live_monitor_def)

lemma start_polling_step:
  assumes inv: "registry_inv E sv" and free: "\<And>i. \<not> in_bin sv i (nm_node_id mon)"
  shows "admission_step E (nm_node_id mon) sv (start_polling_node_monitor mon sv)"
proof (cases "live_monitor mon sv")
  case None
  then show ?thesis using inv by (simp add: start_polling_node_monitor_def admission_refl)
next
  case (Some live)
  let ?n = "nm_node_id mon"
  let ?m = "live\<lparr>nm_mode := Polling, nm_bin_id := None, nm_native_refresh_interval_seconds := None\<rparr>"
  have l: "dict_get (sv_node_monitors sv) ?n = Some live" by (rule live_monitor_SomeD [OF Some])
  have ok: "monitor_ok ?n live" by (rule registry_invD(4) [OF inv l])
  have "registry_inv E (set_monitor ?m sv)"
    by (rule registry_set_monitor [where n = ?n])
      (use registry_invD [OF inv] ok free in \<open>simp_all add: monitor_ok_def\<close>)
  then have "admission_step E ?n sv (set_monitor ?m sv)"
    by (rule admission_set_monitor [OF _ l refl]) (use ok in \<open>simp_all add: monitor_ok_def\<close>)
  then show ?thesis by (simp add: start_polling_node_monitor_def Some)
qed

lemma subscribe_single_node_frame [frame_simps, simp]:
  "sv_subscriptions (snd (subscribe_single_node E ua n sv)) = sv_subscriptions sv"
  "sv_node_monitors (snd (subscribe_single_node E ua n sv)) = sv_node_monitors sv"
  "sv_bins (snd (subscribe_single_node E ua n sv)) = sv_bins sv"
  "sv_tick (snd (subscribe_single_node E ua n sv)) = Suc (sv_tick sv)"
  "sv_shutdown (snd (subscribe_single_node E ua n sv)) = sv_shutdown sv"
  "sv_next_uid (snd (subscribe_single_node E ua n sv)) = sv_next_uid sv"
  by (simp_all add: subscribe_single_node_def split: subscribe_answer.splits)

lemma ua_delete_frame [frame_simps, simp]:
  "sv_subscriptions (snd (ua_delete E ua sv)) = sv_subscriptions sv"
  "sv_node_monitors (snd (ua_delete E ua sv)) = sv_node_monitors sv"
  "sv_bins (snd (ua_delete E ua sv)) = sv_bins sv"
  "sv_tick (snd (ua_delete E ua sv)) = Suc (sv_tick sv)"
  "sv_shutdown (snd (ua_delete E ua sv)) = sv_shutdown sv"
  "sv_next_uid (snd (ua_delete E ua sv)) = sv_next_uid sv"
  "sv_ua_log (snd (ua_delete E ua sv)) = sv_ua_log sv @ [UaDelete (us_id ua)]"
  by (simp_all add: ua_delete_def)

lemma ua_unsubscribe_frame [frame_simps, simp]:
  "sv_subscriptions (snd (ua_unsubscribe E ua h sv)) = sv_subscriptions sv"
  "sv_node_monitors (snd (ua_unsubscribe E ua h sv)) = sv_node_monitors sv"
  "sv_bins (snd (ua_unsubscribe E ua h sv)) = sv_bins sv"
  "sv_tick (snd (ua_unsubscribe E ua h sv)) = Suc (sv_tick sv)"
  "sv_shutdown (snd (ua_unsubscribe E ua h sv)) = sv_shutdown sv"
  "sv_next_uid (snd (ua_unsubscribe E ua h sv)) = sv_next_uid sv"
  "sv_ua_log (snd (ua_unsubscribe E ua h sv)) = sv_ua_log sv @ [UaUnsubscribe (us_id ua) h]"
  by (simp_all add: ua_unsubscribe_def)

text \<open>The monitor being started: registered, and in no bin yet.\<close>

definition starting :: "NodeMonitor \<Rightarrow> service \<Rightarrow> bool" where
  "starting mon sv \<longleftrightarrow> (case live_monitor mon sv of None \<Rightarrow> False | Some m \<Rightarrow> nm_bin_id m = None)"

lemma starting_cong: "sv_node_monitors sv' = sv_node_monitors sv \<Longrightarrow> starting mon sv' = starting mon sv"
  by (simp add: starting_def live_monitor_cong [of sv' sv])

lemma startingE:
  assumes "starting mon sv"
  obtains live where "live_monitor mon sv = Some live" "nm_bin_id live = None"
    "dict_get (sv_node_monitors sv) (nm_node_id mon) = Some live"
  using assms live_monitor_SomeD [of mon sv] by (auto simp: starting_def split: option.splits)

lemma starting_free: "registry_inv E sv \<Longrightarrow> starting mon sv \<Longrightarrow> \<not> in_bin sv i (nm_node_id mon)"
  by (erule startingE) (simp add: registry_invD(6) names_bin_def)

text \<open>
  An admission attempt: on success the monitor is native and its bin is \<open>Some i\<close>; otherwise
  it is still free.
\<close>

definition admission :: "env \<Rightarrow> NodeMonitor \<Rightarrow> service \<Rightarrow> bool option \<times> service \<Rightarrow> bool" where
  "admission E mon sv r \<longleftrightarrow> admission_step E (nm_node_id mon) sv (snd r)
     \<and> (if fst r = Some True
        then (\<exists>m. dict_get (sv_node_monitors (snd r)) (nm_node_id mon) = Some m \<and> nm_mode m = Native)
        else sv_node_monitors (snd r) = sv_node_monitors sv \<and> sv_bins (snd r) = sv_bins sv)"

lemma admission_failed:
  assumes "registry_inv E sv" "sv_node_monitors sv' = sv_node_monitors sv" "sv_bins sv' = sv_bins sv"
    "sv_tick sv \<le> sv_tick sv'" "sv_subscriptions sv' = sv_subscriptions sv"
    "sv_shutdown sv' = sv_shutdown sv" "sv_next_uid sv' = sv_next_uid sv" "a \<noteq> Some True"
  shows "admission E mon sv (a, sv')"
  using admission_cong [OF assms(1-7)] assms by (simp add: admission_def)

lemma open_new_bin_commit_admission:
  assumes inv: "registry_inv E sv" and st: "starting mon sv" and c: "1 \<le> capacity"
    and fresh: "dict_get (sv_bins sv) (bin_name E k) = None" "k < sv_tick sv"
  shows "admission E mon sv (open_new_bin_commit E mon (bin_name E k) ua capacity h sv)"
proof -
  let ?n = "nm_node_id mon"
  let ?r = "Some (compute_native_refresh_interval_seconds E ua)"
  let ?b = "\<lparr>mb_bin_id = bin_name E k, mb_ua_subscription = ua, mb_capacity = capacity,
      mb_node_handles = [(?n, h)], mb_native_refresh_interval_seconds = ?r\<rparr>"
  from st obtain live where l: "live_monitor mon sv = Some live" "nm_bin_id live = None"
    "dict_get (sv_node_monitors sv) ?n = Some live" by (rule startingE)
  have ok: "monitor_ok ?n live" by (rule registry_invD(4) [OF inv l(3)])
  have "bin_ok E (sv_tick sv) (mb_bin_id ?b) ?b"
    using c fresh(2) by (auto simp: bin_ok_def)
  then have "registry_inv E (set_monitor (live\<lparr>nm_bin_id := Some (mb_bin_id ?b), nm_mode := Native,
      nm_native_refresh_interval_seconds := ?r\<rparr>) (set_bin ?b sv))"
    by (rule registry_pack [OF inv l(3,2)]) (simp add: in_bin_def fresh(1))
  then have "admission_step E ?n sv (set_monitor (live\<lparr>nm_bin_id := Some (mb_bin_id ?b), nm_mode := Native,
      nm_native_refresh_interval_seconds := ?r\<rparr>) (set_bin ?b sv))"
    by (rule admission_set_monitor [where live = live]) (use ok l in \<open>simp_all add: monitor_ok_def\<close>)
  then show ?thesis
    using ok by (simp add: admission_def open_new_bin_commit_def l(1) Let_def monitor_ok_def)
qed

lemma open_new_bin_admission:
  assumes inv: "registry_inv E sv" and st: "starting mon sv" and c: "1 \<le> capacity"
  shows "admission E mon sv (open_new_bin E mon capacity sv)"
proof (cases "e_create_subscription E (sv_tick (tick sv)) (c_interval_seconds E * 1000)")
  case None
  then show ?thesis
    using inv by (simp add: open_new_bin_def Let_def) (rule admission_failed, simp_all)
next
  case (Some attrs)
  define ua where "ua = \<lparr>us_id = sv_tick (tick sv), us_attrs = attrs\<rparr>"
  define r where "r = subscribe_single_node E ua (nm_node_id mon) (ua_log (UaCreate (us_id ua)) (tick (tick sv)))"
  have o: "open_new_bin E mon capacity sv =
     (case fst r of None \<Rightarrow> (None, snd r) | Some None \<Rightarrow> (Some False, snd (ua_delete E ua (snd r)))
      | Some (Some h) \<Rightarrow> open_new_bin_commit E mon (bin_name E (sv_tick sv)) ua capacity h (snd r))"
    using Some unfolding open_new_bin_def r_def ua_def by (simp add: Let_def case_prod_beta cong: option.case_cong)
  have f: "sv_node_monitors (snd r) = sv_node_monitors sv" "sv_bins (snd r) = sv_bins sv"
    "sv_subscriptions (snd r) = sv_subscriptions sv" "sv_shutdown (snd r) = sv_shutdown sv"
    "sv_next_uid (snd r) = sv_next_uid sv" "sv_tick (snd r) = sv_tick sv + 3"
    by (simp_all add: r_def)
  have inv': "registry_inv E (snd r)" by (rule registry_inv_cong [OF inv]) (simp_all add: f)
  have step: "admission_step E (nm_node_id mon) sv (snd r)" by (rule admission_cong [OF inv]) (simp_all add: f)
  have "admission E mon (snd r) (open_new_bin_commit E mon (bin_name E (sv_tick sv)) ua capacity h (snd r))" for h
    by (rule open_new_bin_commit_admission [OF inv' _ c])
      (use st f registry_fresh_bin [OF inv] in \<open>simp_all add: starting_cong [of "snd r" sv]\<close>)
  then have commit: "admission E mon sv (open_new_bin_commit E mon (bin_name E (sv_tick sv)) ua capacity h (snd r))" for h
    using admission_trans [OF step] f by (auto simp: admission_def)
  have del: "admission E mon sv (Some False, snd (ua_delete E ua (snd r)))"
    by (rule admission_failed [OF inv]) (simp_all add: f)
  have raised: "admission E mon sv (None, snd r)"
    by (rule admission_failed [OF inv]) (simp_all add: f)
  show ?thesis
    using commit del raised by (simp add: o split: option.splits)
qed

lemma add_node_to_bin_admission:
  assumes inv: "registry_inv E sv" and st: "starting mon sv"
    and target: "dict_get (sv_bins sv) (mb_bin_id target) = Some target"
    "int (length (mb_node_handles target)) < mb_capacity target"
  shows "admission E mon sv (add_node_to_bin E mon target sv)"
proof -
  let ?n = "nm_node_id mon"
  define r where "r = subscribe_single_node E (mb_ua_subscription target) ?n sv"
  have a: "add_node_to_bin E mon target sv =
     (case fst r of None \<Rightarrow> (None, snd r) | Some None \<Rightarrow> (Some False, snd r)
      | Some (Some h) \<Rightarrow> add_node_to_bin_commit E mon target h (snd r))"
    unfolding add_node_to_bin_def r_def by (simp add: case_prod_beta)
  have f: "sv_node_monitors (snd r) = sv_node_monitors sv" "sv_bins (snd r) = sv_bins sv"
    "sv_subscriptions (snd r) = sv_subscriptions sv" "sv_shutdown (snd r) = sv_shutdown sv"
    "sv_next_uid (snd r) = sv_next_uid sv" "sv_tick (snd r) = Suc (sv_tick sv)"
    by (simp_all add: r_def)
  have inv': "registry_inv E (snd r)" by (rule registry_inv_cong [OF inv]) (simp_all add: f)
  from st obtain live where l: "live_monitor mon sv = Some live" "nm_bin_id live = None"
    "dict_get (sv_node_monitors sv) ?n = Some live" by (rule startingE)
  have ok: "monitor_ok ?n live" by (rule registry_invD(4) [OF inv l(3)])
  have tok: "bin_ok E (sv_tick (snd r)) (mb_bin_id target) target"
    by (rule registry_invD(5) [OF inv']) (simp add: f target(1))
  have "?n \<notin> fst ` set (mb_node_handles target)"
    using starting_free [OF inv st, of "mb_bin_id target"] by (simp add: in_bin_def target(1))
  then have grow: "length (dict_set ?n h (mb_node_handles target)) = Suc (length (mb_node_handles target))" for h
    by (simp add: dict_set_new)
  have commit: "admission E mon sv (add_node_to_bin_commit E mon target h (snd r))" for h
  proof -
    let ?b = "target\<lparr>mb_node_handles := dict_set ?n h (mb_node_handles target)\<rparr>"
    let ?m = "live\<lparr>nm_bin_id := Some (mb_bin_id ?b), nm_mode := Native,
      nm_native_refresh_interval_seconds := mb_native_refresh_interval_seconds target\<rparr>"
    have "bin_ok E (sv_tick (snd r)) (mb_bin_id ?b) ?b"
      using tok target(2) grow [of h] by (auto simp: bin_ok_def simp flip: length_greater_0_conv)
    then have "registry_inv E (set_monitor ?m (set_bin ?b (snd r)))"
      by (rule registry_pack [OF inv' _ l(2), rotated 1])
        (use l f in \<open>simp_all add: in_bin_def target(1)\<close>)
    then have "admission_step E ?n (snd r) (set_monitor ?m (set_bin ?b (snd r)))"
      by (rule admission_set_monitor [where live = live]) (use ok l f in \<open>simp_all add: monitor_ok_def\<close>)
    moreover have "admission_step E ?n sv (snd r)" by (rule admission_cong [OF inv]) (simp_all add: f)
    ultimately show ?thesis
      using ok l(1) live_monitor_cong [of "snd r" sv mon] admission_trans
      by (auto simp: admission_def add_node_to_bin_commit_def f target(1) monitor_ok_def)
  qed
  have "admission E mon sv (x, snd r)" if "x \<noteq> Some True" for x
    by (rule admission_failed [OF inv]) (simp_all add: f that)
  with commit show ?thesis by (simp add: a split: option.splits)
qed

lemma min_positive_pos: "min_positive [c] = Some x \<Longrightarrow> 1 \<le> x"
  by (cases c) (auto simp: min_positive_def split: if_splits)

lemma spare_bin_SomeD:
  assumes "registry_inv E sv" "spare_bin sv = Some target"
  shows "dict_get (sv_bins sv) (mb_bin_id target) = Some target"
    "int (length (mb_node_handles target)) < mb_capacity target"
proof -
  from assms(2) have t: "target \<in> set (dict_values (sv_bins sv))"
    "int (length (mb_node_handles target)) < mb_capacity target"
    by (auto simp: spare_bin_def find_Some_iff intro!: imageI nth_mem)
  then obtain i where i: "(i, target) \<in> set (sv_bins sv)" by auto
  then have g: "dict_get (sv_bins sv) i = Some target"
    using registry_invD(3) [OF assms(1)] by simp
  with registry_invD(5) [OF assms(1) g] show "dict_get (sv_bins sv) (mb_bin_id target) = Some target"
    by (simp add: bin_ok_def)
  show "int (length (mb_node_handles target)) < mb_capacity target" by (rule t(2))
qed

lemma acquire_native_bin_slot_admission:
  assumes inv: "registry_inv E sv" and st: "starting mon sv"
  shows "admission E mon sv (acquire_native_bin_slot E mon caps sv)"
proof -
  have no: "admission E mon sv (Some False, sv)"
    by (rule admission_failed [OF inv]) simp_all
  have cap: "1 \<le> (case min_positive [sc_max_monitored_items_per_subscription caps] of
      Some c \<Rightarrow> c | None \<Rightarrow> DEFAULT_BIN_CAPACITY)"
    using min_positive_pos by (auto simp: DEFAULT_BIN_CAPACITY_def split: option.splits)
  show ?thesis
    unfolding acquire_native_bin_slot_def Let_def
    using no open_new_bin_admission [OF inv st cap]
      add_node_to_bin_admission [OF inv st spare_bin_SomeD [OF inv]]
    by (auto split: option.splits)
qed

text \<open>A started monitor is native or polling, never idle.\<close>

lemma start_node_monitor_runtime_step:
  assumes inv: "registry_inv E sv" and st: "starting mon sv"
  shows "admission_step E (nm_node_id mon) sv (start_node_monitor_runtime E mon sv)"
    and "\<exists>m. dict_get (sv_node_monitors (start_node_monitor_runtime E mon sv)) (nm_node_id mon) = Some m
      \<and> nm_mode m \<noteq> Idle"
proof -
  let ?n = "nm_node_id mon"
  let ?s1 = "tick (remember_event_loop E sv)"
  define r where "r = acquire_native_bin_slot E mon (e_capabilities E (sv_tick ?s1)) (tick ?s1)"
  define s3 where "s3 = (tick (remember_event_loop E (snd r)))
      \<lparr>sv_native_backoff_until := e_clock E (sv_tick (snd r)) + c_native_backoff_seconds E\<rparr>"
  have s: "start_node_monitor_runtime E mon sv =
     (if e_clock E (sv_tick sv) < sv_native_backoff_until sv then start_polling_node_monitor mon ?s1
      else (case fst r of Some True \<Rightarrow> snd r | Some False \<Rightarrow> start_polling_node_monitor mon (snd r)
            | None \<Rightarrow> start_polling_node_monitor mon s3))"
    unfolding start_node_monitor_runtime_def r_def s3_def
    by (simp add: now_monotonic_def Let_def case_prod_beta cong: option.case_cong bool.case_cong)
  have inv1: "registry_inv E ?s1" by (rule registry_inv_cong [OF inv]) simp_all
  have inv2: "registry_inv E (tick ?s1)" by (rule registry_inv_cong [OF inv]) simp_all
  have st2: "starting mon (tick ?s1)" "starting mon ?s1"
    using st starting_cong [of "tick ?s1" sv] starting_cong [of ?s1 sv] by simp_all
  have adm: "admission E mon (tick ?s1) r"
    unfolding r_def by (rule acquire_native_bin_slot_admission [OF inv2 st2(1)])
  have to1: "admission_step E ?n sv ?s1" "admission_step E ?n sv (tick ?s1)"
    by (rule admission_cong [OF inv]; simp)+
  with adm have tor: "admission_step E ?n sv (snd r)"
    using admission_trans by (auto simp: admission_def)
  have polled: "admission_step E ?n sv (start_polling_node_monitor mon x)
      \<and> (\<exists>m. dict_get (sv_node_monitors (start_polling_node_monitor mon x)) ?n = Some m \<and> nm_mode m \<noteq> Idle)"
    if x: "admission_step E ?n sv x" "starting mon x" for x
  proof -
    have ix: "registry_inv E x" using x(1) by (simp add: admission_step_def)
    have "admission_step E ?n x (start_polling_node_monitor mon x)"
      by (rule start_polling_step [OF ix]) (rule starting_free [OF ix x(2)])
    moreover from x(2) obtain live where "live_monitor mon x = Some live"
      "dict_get (sv_node_monitors x) ?n = Some live" by (rule startingE)
    then have "\<exists>m. dict_get (sv_node_monitors (start_polling_node_monitor mon x)) ?n = Some m \<and> nm_mode m \<noteq> Idle"
      using registry_invD(4) [OF ix] by (simp add: start_polling_node_monitor_def monitor_ok_def)
    ultimately show ?thesis using admission_trans [OF x(1)] by blast
  qed
  have failed: "starting mon (snd r) \<and> starting mon s3 \<and> admission_step E ?n sv s3" if "fst r \<noteq> Some True"
  proof -
    have fr: "sv_node_monitors (snd r) = sv_node_monitors sv" "sv_bins (snd r) = sv_bins sv"
      using adm that by (simp_all add: admission_def)
    have "admission_step E ?n (snd r) s3"
      by (rule admission_cong) (use tor in \<open>simp_all add: s3_def admission_step_def\<close>)
    with tor have "admission_step E ?n sv s3" by (rule admission_trans)
    then show ?thesis
      using st fr starting_cong [of "snd r" sv] starting_cong [of s3 sv] by (simp add: s3_def)
  qed
  have "admission_step E ?n sv (start_node_monitor_runtime E mon sv) \<and>
    (\<exists>m. dict_get (sv_node_monitors (start_node_monitor_runtime E mon sv)) ?n = Some m \<and> nm_mode m \<noteq> Idle)"
    using polled [OF to1(1) st2(2)] polled [OF tor] polled [of s3] failed tor adm
    by (auto simp: s admission_def split: option.splits bool.splits)
  then show "admission_step E ?n sv (start_node_monitor_runtime E mon sv)"
    "\<exists>m. dict_get (sv_node_monitors (start_node_monitor_runtime E mon sv)) ?n = Some m \<and> nm_mode m \<noteq> Idle"
    by blast+
qed


section \<open>Acquiring and releasing\<close>

text \<open>
  The effect of an operation on the registry as its clients see it. A node that is watched
  before and after keeps its mode and interval, and a registry without idle monitors stays so.
\<close>

definition node_status :: "service \<Rightarrow> string \<Rightarrow> mode \<times> real option" where
  "node_status sv n = (case dict_get (sv_node_monitors sv) n of
     None \<Rightarrow> (Idle, None) | Some m \<Rightarrow> (nm_mode m, nm_native_refresh_interval_seconds m))"

definition all_started :: "service \<Rightarrow> bool" where
  "all_started sv \<longleftrightarrow> (\<forall>n m. dict_get (sv_node_monitors sv) n = Some m \<longrightarrow> nm_mode m \<noteq> Idle)"

definition registry_effect :: "env \<Rightarrow> (string \<Rightarrow> string set) \<Rightarrow> service \<Rightarrow> service \<Rightarrow> bool" where
  "registry_effect E w sv sv' \<longleftrightarrow> registry_inv E sv' \<and> watchers sv' = w
     \<and> sv_subscriptions sv' = sv_subscriptions sv \<and> sv_tick sv \<le> sv_tick sv'
     \<and> sv_shutdown sv' = sv_shutdown sv
     \<and> (\<forall>n. watchers sv n \<noteq> {} \<and> w n \<noteq> {} \<longrightarrow> node_status sv' n = node_status sv n)
     \<and> (all_started sv \<longrightarrow> all_started sv')"

lemma watchers_None: "dict_get (sv_node_monitors sv) n = None \<Longrightarrow> watchers sv n = {}"
  by (simp add: watchers_def)

lemma acquire_node_monitor_effect:
  assumes inv: "registry_inv E sv"
  shows "registry_effect E ((watchers sv)(n := insert s (watchers sv n))) sv (acquire_node_monitor E n s sv)"
proof (cases "dict_get (sv_node_monitors sv) n")
  case (Some m)
  let ?m = "m\<lparr>nm_subscriber_ids := set_add s (nm_subscriber_ids m)\<rparr>"
  have ok: "monitor_ok n m" by (rule registry_invD(4) [OF inv Some])
  have "registry_inv E (set_monitor ?m sv)"
  proof (rule registry_set_monitor [where n = n])
    show "monitor_ok n ?m" using ok by (auto simp: monitor_ok_def set_add_def)
    show "in_bin sv i n \<longleftrightarrow> nm_bin_id ?m = Some i" for i
      using registry_invD(6) [OF inv, of i n] Some by (simp add: names_bin_def)
  qed (use registry_invD [OF inv] in simp_all)
  moreover have "watchers (set_monitor ?m sv) = (watchers sv)(n := insert s (watchers sv n))"
    using ok Some by (auto simp: watchers_def fun_eq_iff monitor_ok_def)
  moreover have "node_status (set_monitor ?m sv) = node_status sv" "all_started (set_monitor ?m sv) = all_started sv"
    using ok Some by (auto simp: node_status_def all_started_def fun_eq_iff monitor_ok_def)
  ultimately show ?thesis
    by (simp add: acquire_node_monitor_def Some registry_effect_def)
next
  case None
  define m where "m = \<lparr>nm_node_id = n, nm_mode = Idle, nm_subscriber_ids = [s], nm_bin_id = None,
      nm_native_refresh_interval_seconds = None, nm_uid = sv_next_uid sv\<rparr>"
  define sv1 where "sv1 = set_monitor m (sv\<lparr>sv_next_uid := sv_next_uid sv + 1\<rparr>)"
  have n: "nm_node_id m = n" by (simp add: m_def)
  have "registry_inv E sv1" unfolding sv1_def
  proof (rule registry_set_monitor [where n = n])
    show "monitor_ok n m" by (simp add: monitor_ok_def m_def)
    show "in_bin (sv\<lparr>sv_next_uid := sv_next_uid sv + 1\<rparr>) i n \<longleftrightarrow> nm_bin_id m = Some i" for i
      using registry_invD(6) [OF inv, of i n] None by (simp add: names_bin_def m_def in_bin_def)
    show "in_bin (sv\<lparr>sv_next_uid := sv_next_uid sv + 1\<rparr>) i n' \<longleftrightarrow>
        names_bin (sv\<lparr>sv_next_uid := sv_next_uid sv + 1\<rparr>) i n'" for i n'
      using registry_invD(6) [OF inv, of i n'] by (simp add: names_bin_def in_bin_def)
  qed (use registry_invD [OF inv] in simp_all)
  moreover have "starting m sv1"
    by (simp add: starting_def live_monitor_def sv1_def n) (simp add: m_def)
  ultimately have step: "admission_step E n sv1 (start_node_monitor_runtime E m sv1)"
    and run: "\<exists>x. dict_get (sv_node_monitors (start_node_monitor_runtime E m sv1)) n = Some x \<and> nm_mode x \<noteq> Idle"
    using start_node_monitor_runtime_step [of E sv1 m] n by simp_all
  have others: "dict_get (sv_node_monitors (start_node_monitor_runtime E m sv1)) n' =
      dict_get (sv_node_monitors sv) n'" if "n' \<noteq> n" for n'
    using step that by (simp add: admission_step_def) (simp add: sv1_def n)
  have "node_status (start_node_monitor_runtime E m sv1) n' = node_status sv n'" if "watchers sv n' \<noteq> {}" for n'
  proof -
    have "n' \<noteq> n" using that watchers_None [OF None] by auto
    then show ?thesis by (simp add: node_status_def others)
  qed
  moreover have "all_started (start_node_monitor_runtime E m sv1)" if "all_started sv"
    unfolding all_started_def
  proof (intro allI impI)
    fix n' x assume x: "dict_get (sv_node_monitors (start_node_monitor_runtime E m sv1)) n' = Some x"
    show "nm_mode x \<noteq> Idle"
      using run x others [of n'] that by (cases "n' = n") (auto simp: all_started_def)
  qed
  moreover note step
  moreover have "watchers sv1 = (watchers sv)(n := insert s (watchers sv n))"
    using None by (auto simp: watchers_def fun_eq_iff sv1_def n) (simp_all add: m_def)
  moreover have "acquire_node_monitor E n s sv = start_node_monitor_runtime E m sv1"
    by (simp add: acquire_node_monitor_def None m_def sv1_def Let_def)
  ultimately show ?thesis
    unfolding admission_step_def registry_effect_def by (simp add: sv1_def)
qed

lemma stop_frame [frame_simps, simp]:
  "sv_subscriptions (stop_node_monitor_runtime E m sv) = sv_subscriptions sv"
  "sv_node_monitors (stop_node_monitor_runtime E m sv) = sv_node_monitors sv"
  "sv_shutdown (stop_node_monitor_runtime E m sv) = sv_shutdown sv"
  "sv_tick sv \<le> sv_tick (stop_node_monitor_runtime E m sv)"
  by (simp_all add: stop_node_monitor_runtime_def Let_def split: option.splits)

text \<open>Stopping takes the node out of its bin and reclaims a bin it empties.\<close>

lemma stop_bins:
  assumes "nm_bin_id m = Some i" "dict_get (sv_bins sv) i = Some b"
  shows "sv_bins (stop_node_monitor_runtime E m sv) =
    (let rest = dict_del (nm_node_id m) (mb_node_handles b) in
     if rest = [] then dict_del i (sv_bins sv)
     else dict_set i (b\<lparr>mb_node_handles := rest\<rparr>) (sv_bins sv))"
  using assms by (simp add: stop_node_monitor_runtime_def Let_def split: option.splits)

lemma release_last_registry:
  assumes inv: "registry_inv E sv" and m: "dict_get (sv_node_monitors sv) n = Some m"
    and m': "nm_bin_id m' = nm_bin_id m" "nm_node_id m' = n"
  shows "registry_inv E (stop_node_monitor_runtime E m' (sv\<lparr>sv_node_monitors := dict_del n (sv_node_monitors sv)\<rparr>))"
proof -
  define sv0 where "sv0 = sv\<lparr>sv_node_monitors := dict_del n (sv_node_monitors sv)\<rparr>"
  define sv1 where "sv1 = stop_node_monitor_runtime E m' sv0"
  have f: "sv_bins sv0 = sv_bins sv" "sv_node_monitors sv0 = dict_del n (sv_node_monitors sv)"
    "sv_tick sv0 = sv_tick sv"
    by (simp_all add: sv0_def)
  have mons: "sv_node_monitors sv1 = dict_del n (sv_node_monitors sv)" and t: "sv_tick sv \<le> sv_tick sv1"
    using f stop_frame(4) [of sv0 E m'] by (simp_all add: sv1_def)
  have names: "names_bin sv1 i n' \<longleftrightarrow> n' \<noteq> n \<and> in_bin sv i n'" for i n'
    by (simp add: registry_invD(6) [OF inv] names_bin_def mons)
  have monok: "monitor_ok n' x" if "dict_get (sv_node_monitors sv1) n' = Some x" for n' x
    using that registry_invD(4) [OF inv] by (simp add: mons split: if_splits)
  have "dict_ok (sv_bins sv1) \<and> (\<forall>i b. dict_get (sv_bins sv1) i = Some b \<longrightarrow> bin_ok E (sv_tick sv) i b)
      \<and> (\<forall>i n'. in_bin sv1 i n' \<longleftrightarrow> n' \<noteq> n \<and> in_bin sv i n')"
  proof (cases "nm_bin_id m")
    case None
    then have "sv_bins sv1 = sv_bins sv"
      using f m' by (simp add: sv1_def stop_node_monitor_runtime_def)
    moreover have "\<not> in_bin sv i n" for i
      using registry_invD(6) [OF inv, of i n] m None by (simp add: names_bin_def)
    ultimately show ?thesis
      using registry_invD(3,5) [OF inv] by (auto simp: in_bin_def)
  next
    case (Some j)
    have "in_bin sv j n"
      using registry_invD(6) [OF inv, of j n] m Some by (simp add: names_bin_def)
    then obtain b where b: "dict_get (sv_bins sv) j = Some b"
      by (auto simp: in_bin_def split: option.splits)
    have bok: "bin_ok E (sv_tick sv) j b" by (rule registry_invD(5) [OF inv b])
    let ?rest = "dict_del n (mb_node_handles b)"
    have bins: "sv_bins sv1 = (if ?rest = [] then dict_del j (sv_bins sv)
        else dict_set j (b\<lparr>mb_node_handles := ?rest\<rparr>) (sv_bins sv))"
      using stop_bins [of m' j sv0 b E] Some m' f b by (simp add: sv1_def Let_def)
    have keys: "fst ` set ?rest = fst ` set (mb_node_handles b) - {n}"
      by (auto simp: set_delete image_iff)
    have restok: "?rest \<noteq> [] \<Longrightarrow> bin_ok E (sv_tick sv) j (b\<lparr>mb_node_handles := ?rest\<rparr>)"
      using bok length_delete_le [of n "mb_node_handles b"] by (auto simp: bin_ok_def)
    have only: "in_bin sv i n \<Longrightarrow> i = j" for i
      using registry_invD(6) [OF inv, of i n] m Some by (simp add: names_bin_def)
    have "dict_ok (sv_bins sv1)" using registry_invD(3) [OF inv] by (simp add: bins)
    moreover have "bin_ok E (sv_tick sv) i x" if "dict_get (sv_bins sv1) i = Some x" for i x
      using that restok registry_invD(5) [OF inv, of i x] by (auto simp: bins split: if_splits)
    moreover have "in_bin sv1 i n' \<longleftrightarrow> n' \<noteq> n \<and> in_bin sv i n'" for i n'
    proof (cases "i = j")
      case True
      have "?rest = [] \<Longrightarrow> fst ` set (mb_node_handles b) \<subseteq> {n}" using keys by auto
      with True b keys show ?thesis by (auto simp: in_bin_def bins)
    next
      case False
      with only show ?thesis by (auto simp: in_bin_def bins)
    qed
    ultimately show ?thesis by blast
  qed
  then have "registry_inv E sv1"
    unfolding registry_inv_def
    using registry_invD(1,2) [OF inv] monok names t bin_ok_mono [of E "sv_tick sv" _ _ "sv_tick sv1"]
    by (simp add: mons)
  then show ?thesis by (simp add: sv1_def sv0_def)
qed

lemma release_node_monitor_effect:
  assumes inv: "registry_inv E sv"
  shows "registry_effect E ((watchers sv)(n := watchers sv n - {s})) sv (release_node_monitor E n s sv)"
proof (cases "dict_get (sv_node_monitors sv) n")
  case None
  then have "(watchers sv)(n := watchers sv n - {s}) = watchers sv"
    by (auto simp: watchers_def fun_eq_iff)
  with None inv show ?thesis by (simp add: release_node_monitor_def registry_effect_def)
next
  case (Some m)
  let ?m = "m\<lparr>nm_subscriber_ids := set_discard s (nm_subscriber_ids m)\<rparr>"
  have ok: "monitor_ok n m" by (rule registry_invD(4) [OF inv Some])
  show ?thesis
  proof (cases "nm_subscriber_ids ?m = []")
    case True
    let ?sv0 = "sv\<lparr>sv_node_monitors := dict_del n (sv_node_monitors sv)\<rparr>"
    have "set (nm_subscriber_ids m) - {s} = {}"
      using True set_set_discard [of s "nm_subscriber_ids m"] by simp
    then have "watchers (stop_node_monitor_runtime E ?m ?sv0) = (watchers sv)(n := watchers sv n - {s})"
      using Some by (auto simp: watchers_def fun_eq_iff)
    moreover have "registry_inv E (stop_node_monitor_runtime E ?m ?sv0)"
      by (rule release_last_registry [OF inv Some]) (use ok in \<open>simp_all add: monitor_ok_def\<close>)
    moreover have "node_status (stop_node_monitor_runtime E ?m ?sv0) n' = node_status sv n'"
      if "((watchers sv)(n := watchers sv n - {s})) n' \<noteq> {}" for n'
      using that Some \<open>set (nm_subscriber_ids m) - {s} = {}\<close>
      by (auto simp: node_status_def watchers_def split: if_splits)
    moreover have "all_started sv \<Longrightarrow> all_started (stop_node_monitor_runtime E ?m ?sv0)"
      by (simp add: all_started_def)
    ultimately show ?thesis
      using Some True stop_frame(4) [of ?sv0 E ?m]
      by (simp add: release_node_monitor_def registry_effect_def)
  next
    case False
    have "registry_inv E (set_monitor ?m sv)"
    proof (rule registry_set_monitor [where n = n])
      show "monitor_ok n ?m" using ok False by (simp add: monitor_ok_def)
      show "in_bin sv i n \<longleftrightarrow> nm_bin_id ?m = Some i" for i
        using registry_invD(6) [OF inv, of i n] Some by (simp add: names_bin_def)
    qed (use registry_invD [OF inv] in simp_all)
    moreover have "watchers (set_monitor ?m sv) = (watchers sv)(n := watchers sv n - {s})"
      using ok Some by (auto simp: watchers_def fun_eq_iff monitor_ok_def)
    moreover have "node_status (set_monitor ?m sv) = node_status sv" "all_started (set_monitor ?m sv) = all_started sv"
      using ok Some by (auto simp: node_status_def all_started_def fun_eq_iff monitor_ok_def)
    ultimately show ?thesis
      using Some False by (simp add: release_node_monitor_def registry_effect_def)
  qed
qed

section \<open>The interface of the registry\<close>

text \<open>
  \<open>watch\<close> is the set of watchers of a node, \<open>subs\<close> the part of the state the handlers own,
  \<open>time\<close> the number of external calls made.
\<close>

locale node_registry =
  fixes acquire release :: "'n \<Rightarrow> 'w \<Rightarrow> 's \<Rightarrow> 's"
    and watch :: "'s \<Rightarrow> 'n \<Rightarrow> 'w set"
    and inv :: "'s \<Rightarrow> bool"
    and frame :: "'s \<Rightarrow> 'f"
    and time :: "'s \<Rightarrow> nat"
    and status :: "'s \<Rightarrow> 'n \<Rightarrow> 'm"
    and started :: "'s \<Rightarrow> bool"
  assumes acquire_inv: "inv s \<Longrightarrow> inv (acquire n w s)"
    and acquire_watch: "inv s \<Longrightarrow> watch (acquire n w s) = (watch s)(n := insert w (watch s n))"
    and acquire_frame: "inv s \<Longrightarrow> frame (acquire n w s) = frame s"
    and acquire_time: "inv s \<Longrightarrow> time s \<le> time (acquire n w s)"
    and acquire_status: "inv s \<Longrightarrow> watch s n' \<noteq> {} \<Longrightarrow> watch (acquire n w s) n' \<noteq> {} \<Longrightarrow>
      status (acquire n w s) n' = status s n'"
    and acquire_started: "inv s \<Longrightarrow> started s \<Longrightarrow> started (acquire n w s)"
    and release_inv: "inv s \<Longrightarrow> inv (release n w s)"
    and release_watch: "inv s \<Longrightarrow> watch (release n w s) = (watch s)(n := watch s n - {w})"
    and release_frame: "inv s \<Longrightarrow> frame (release n w s) = frame s"
    and release_time: "inv s \<Longrightarrow> time s \<le> time (release n w s)"
    and release_status: "inv s \<Longrightarrow> watch s n' \<noteq> {} \<Longrightarrow> watch (release n w s) n' \<noteq> {} \<Longrightarrow>
      status (release n w s) n' = status s n'"
    and release_started: "inv s \<Longrightarrow> started s \<Longrightarrow> started (release n w s)"
begin

definition release_each :: "'n list \<Rightarrow> 'w \<Rightarrow> 's \<Rightarrow> 's" where
  "release_each ns w s = foldl (\<lambda>s n. release n w s) s ns"

definition acquire_each :: "'n list \<Rightarrow> 'w \<Rightarrow> 's \<Rightarrow> 's" where
  "acquire_each ns w s = foldl (\<lambda>s n. acquire n w s) s ns"

lemma release_each:
  "inv s \<Longrightarrow> inv (release_each ns w s) \<and> frame (release_each ns w s) = frame s
     \<and> time s \<le> time (release_each ns w s) \<and> (started s \<longrightarrow> started (release_each ns w s))
     \<and> watch (release_each ns w s) = (\<lambda>n. if n \<in> set ns then watch s n - {w} else watch s n)"
  unfolding release_each_def
proof (induction ns arbitrary: s)
  case (Cons n ns)
  from Cons.IH [of "release n w s"] Cons.prems release_time [of s n w] show ?case
    by (auto simp: release_inv release_watch release_frame release_started fun_eq_iff)
qed simp

lemma acquire_each:
  "inv s \<Longrightarrow> inv (acquire_each ns w s) \<and> frame (acquire_each ns w s) = frame s
     \<and> time s \<le> time (acquire_each ns w s) \<and> (started s \<longrightarrow> started (acquire_each ns w s))
     \<and> watch (acquire_each ns w s) = (\<lambda>n. if n \<in> set ns then insert w (watch s n) else watch s n)"
  unfolding acquire_each_def
proof (induction ns arbitrary: s)
  case (Cons n ns)
  from Cons.IH [of "acquire n w s"] Cons.prems acquire_time [of s n w] show ?case
    by (auto simp: acquire_inv acquire_watch acquire_frame acquire_started fun_eq_iff)
qed simp

lemma release_each_status:
  "inv s \<Longrightarrow> watch (release_each ns w s) n \<noteq> {} \<Longrightarrow> status (release_each ns w s) n = status s n"
proof (induction ns arbitrary: s)
  case (Cons m ns)
  let ?s = "release m w s"
  have e: "release_each (m # ns) w s = release_each ns w ?s" by (simp add: release_each_def)
  have i: "inv ?s" by (rule release_inv [OF Cons.prems(1)])
  have "watch ?s n \<noteq> {}" using Cons.prems(2) release_each [OF i, of ns w] by (auto simp: e split: if_splits)
  moreover have "watch s n \<noteq> {}" using \<open>watch ?s n \<noteq> {}\<close> Cons.prems(1) by (auto simp: release_watch split: if_splits)
  ultimately show ?case
    using Cons.IH [OF i] Cons.prems release_status [of s n m w] by (simp add: e)
qed (simp add: release_each_def)

lemma acquire_each_status:
  "inv s \<Longrightarrow> watch s n \<noteq> {} \<Longrightarrow> status (acquire_each ns w s) n = status s n"
proof (induction ns arbitrary: s)
  case (Cons m ns)
  let ?s = "acquire m w s"
  have e: "acquire_each (m # ns) w s = acquire_each ns w ?s" by (simp add: acquire_each_def)
  have i: "inv ?s" by (rule acquire_inv [OF Cons.prems(1)])
  have "watch ?s n \<noteq> {}" using Cons.prems by (simp add: acquire_watch)
  then show ?case
    using Cons.IH [OF i] Cons.prems acquire_status [of s n m w] by (simp add: e)
qed (simp add: acquire_each_def)

text \<open>Reconciling: release what was dropped, acquire what is new; then \<open>w\<close> watches exactly the new nodes.\<close>

lemma reconcile:
  assumes "inv s" "\<And>n. w \<in> watch s n \<longleftrightarrow> n \<in> set old"
  shows "watch (acquire_each (set_diff new old) w (release_each (set_diff old new) w s)) =
    (\<lambda>n. if n \<in> set new then insert w (watch s n) else watch s n - {w})"
proof -
  let ?s = "release_each (set_diff old new) w s"
  have "inv ?s" "watch ?s = (\<lambda>n. if n \<in> set (set_diff old new) then watch s n - {w} else watch s n)"
    using release_each [OF assms(1)] by blast+
  then show ?thesis
    using acquire_each [of ?s "set_diff new old" w] assms(2) by (auto simp: fun_eq_iff)
qed

end

interpretation reg: node_registry "acquire_node_monitor E" "release_node_monitor E" watchers
  "registry_inv E" "\<lambda>sv. (sv_subscriptions sv, sv_shutdown sv)" sv_tick node_status all_started for E
  using acquire_node_monitor_effect release_node_monitor_effect
  by unfold_locales (auto simp: registry_effect_def)

end
