(* ===== verification/NodeIds.thy ===== *)
theory NodeIds
  imports Prelude
begin

text \<open>
  NodeId and namespace handling, \<open>i3x_server/domain/utils.py\<close> (and its copy at the head of
  \<open>i3x_server/api/v1/object_helpers.py\<close>): the indexed form \<open>ns=N;k=id\<close>, the expanded form
  \<open>nsu=URI;k=id\<close>, their canonical lookup key, and namespace URIs. Regular expressions are
  written out as string functions; \<open>UUID\<close> is the parser of Python's \<open>uuid\<close> module. The
  interpreter's configurable limit on the length of digit strings is not modelled.
\<close>

section \<open>Namespaces\<close>

record OpcUaNamespaceInfo =
  ni_uri :: string
  ni_display_name :: string
  ni_namespace_version :: "string option"
  ni_server_uri :: "string option"

definition normalize_namespace_uri :: "string \<Rightarrow> string" where
  "normalize_namespace_uri uri = py_lower (py_rstrip_char (CHR ''/'') (py_strip uri))"

definition canonical_namespace_uri :: "string \<Rightarrow> OpcUaNamespaceInfo list \<Rightarrow> string" where
  "canonical_namespace_uri uri infos =
     (case find (\<lambda>item. normalize_namespace_uri (ni_uri item) = normalize_namespace_uri uri) infos of
        Some item \<Rightarrow> ni_uri item
      | None \<Rightarrow> uri)"

text \<open>\<open>re.search(r"ns=(\d+)", s)\<close>: the digits after the first \<open>ns=\<close> that has some.\<close>

fun search_ns_digits :: "string \<Rightarrow> string option" where
  "search_ns_digits [] = None"
| "search_ns_digits (c # cs) =
     (let ds = takeWhile py_isdecimal (drop 2 cs) in
      if startswith (c # cs) ''ns='' \<and> ds \<noteq> [] then Some ds else search_ns_digits cs)"

definition namespace_uri_for_node_id :: "string \<Rightarrow> OpcUaNamespaceInfo list \<Rightarrow> string" where
  "namespace_uri_for_node_id node_id infos =
     (let i = (case search_ns_digits node_id of Some ds \<Rightarrow> dec_val ds | None \<Rightarrow> 0) in
      if i < length infos then ni_uri (infos ! i) else [])"

section \<open>Regular expressions of the NodeId syntax\<close>

text \<open>
  \<open>(.*)$\<close> from the current position: a dot does not match a newline, and \<open>$\<close> also matches
  before one newline at the very end.
\<close>

definition dot_tail :: "string \<Rightarrow> string option" where
  "dot_tail s = (case partition_at (CHR 0x0A) s of
       (a, None) \<Rightarrow> Some a
     | (a, Some r) \<Rightarrow> if r = [] then Some a else None)"

text \<open>\<open>([isgb])=(.*)$\<close>.\<close>

definition match_identifier :: "string \<Rightarrow> (char \<times> string) option" where
  "match_identifier s = (case s of
       k # e # r \<Rightarrow>
         if k \<in> set ''isgb'' \<and> e = CHR ''='' then map_option (\<lambda>a. (k, a)) (dot_tail r) else None
     | _ \<Rightarrow> None)"

text \<open>The optional prefix \<open>(?:ns=(\d+);)?\<close>: its digits, and what follows it.\<close>

definition ns_prefix :: "string \<Rightarrow> string option \<times> string" where
  "ns_prefix s =
     (let r = drop 3 s; d = takeWhile py_isdecimal r; t = dropWhile py_isdecimal r in
      if startswith s ''ns='' \<and> d \<noteq> [] \<and> t \<noteq> [] \<and> hd t = CHR '';''
      then (Some d, tl t) else (None, s))"

definition ns_index :: "string option \<Rightarrow> nat" where
  "ns_index d = (case d of Some ds \<Rightarrow> dec_val ds | None \<Rightarrow> 0)"

definition expanded_node_id :: "string \<Rightarrow> OpcUaNamespaceInfo list \<Rightarrow> string" where
  "expanded_node_id node_id infos =
     (if startswith node_id ''nsu='' then node_id
      else (let (d, t) = ns_prefix node_id in
        case match_identifier t of
          None \<Rightarrow> node_id
        | Some (k, a) \<Rightarrow>
            if a = [] then node_id
            else if ns_index d = 0 then ''nsu=http://opcfoundation.org/UA/;'' @ [k, CHR ''=''] @ a
            else if \<not> ns_index d < length infos then node_id
            else if ni_uri (infos ! ns_index d) = [] then node_id
            else ''nsu='' @ ni_uri (infos ! ns_index d) @ '';'' @ [k, CHR ''=''] @ a))"

section \<open>GUID identifiers\<close>

definition hexval :: "char \<Rightarrow> nat option" where
  "hexval c = (let n = (of_char c :: nat) in
     if 48 \<le> n \<and> n \<le> 57 then Some (n - 48)
     else if 97 \<le> n \<and> n \<le> 102 then Some (n - 87)
     else if 65 \<le> n \<and> n \<le> 70 then Some (n - 55) else None)"

text \<open>Hexadecimal digits with single underscores between them, as \<open>int(s, 16)\<close> reads them.\<close>

fun hex_scan :: "bool \<Rightarrow> nat \<Rightarrow> string \<Rightarrow> nat option" where
  "hex_scan after_digit n [] = (if after_digit then Some n else None)"
| "hex_scan after_digit n (c # cs) =
     (if c = CHR ''_'' then (if after_digit then hex_scan False n cs else None)
      else (case hexval c of None \<Rightarrow> None | Some d \<Rightarrow> hex_scan True (n * 16 + d) cs))"

definition py_int16_space :: "char \<Rightarrow> bool" where
  "py_int16_space c = (let n = (of_char c :: nat) in (9 \<le> n \<and> n \<le> 13) \<or> n = 32 \<or> n = 133 \<or> n = 160)"

definition py_int16 :: "string \<Rightarrow> int option" where
  "py_int16 s =
     (let t = strip_if py_int16_space s;
          neg = startswith t ''-'';
          u = (if neg \<or> startswith t ''+'' then tl t else t);
          pre = startswith u ''0x'' \<or> startswith u ''0X'';
          v = (if pre then drop 2 u else u);
          w = (if pre \<and> startswith v ''_'' then tl v else v)
      in map_option (\<lambda>n. if neg then - int n else int n) (hex_scan False 0 w))"

text \<open>\<open>s.replace(p, "")\<close> for a non-empty \<open>p\<close>.\<close>

function remove_sub :: "string \<Rightarrow> string \<Rightarrow> string" where
  "remove_sub p [] = []"
| "remove_sub p (c # cs) =
     (if p \<noteq> [] \<and> startswith (c # cs) p then remove_sub p (drop (length p) (c # cs))
      else c # remove_sub p cs)"
  by pat_completeness auto
termination
  by (relation "measure (\<lambda>(p, s). length s)") (auto simp: neq_Nil_conv)

definition is_brace :: "char \<Rightarrow> bool" where
  "is_brace c = (c = CHR ''{'' \<or> c = CHR ''}'')"

definition uuid_int :: "string \<Rightarrow> nat option" where
  "uuid_int s =
     (let h = remove_sub ''-'' (strip_if is_brace (remove_sub ''uuid:'' (remove_sub ''urn:'' s))) in
      if length h \<noteq> 32 then None
      else (case py_int16 h of None \<Rightarrow> None
            | Some n \<Rightarrow> if 0 \<le> n \<and> n < 2 ^ 128 then Some (nat n) else None))"

definition hex_char :: "nat \<Rightarrow> char" where
  "hex_char d = ''0123456789abcdef'' ! d"

text \<open>The \<open>k\<close> low hexadecimal digits of \<open>n\<close>, most significant first.\<close>

primrec hex_digits :: "nat \<Rightarrow> nat \<Rightarrow> string" where
  "hex_digits 0 n = []"
| "hex_digits (Suc k) n = hex_digits k (n div 16) @ [hex_char (n mod 16)]"

definition uuid_str :: "nat \<Rightarrow> string" where
  "uuid_str n = (let h = hex_digits 32 n in
     take 8 h @ ''-'' @ take 4 (drop 8 h) @ ''-'' @ take 4 (drop 12 h) @ ''-''
     @ take 4 (drop 16 h) @ ''-'' @ drop 20 h)"

section \<open>Canonical lookup keys\<close>

definition normalize_node_identifier :: "char \<Rightarrow> string \<Rightarrow> string option result" where
  "normalize_node_identifier kind ident =
     (if kind = CHR ''i'' then
        (if ident = [] \<or> \<not> list_all py_isdigit ident then Inr None
         else rbind (py_int_of_digits ident)
                (\<lambda>n. Inr (if n \<le> 0xFFFFFFFF then Some (nat_digits n) else None)))
      else if kind = CHR ''g'' then Inr (map_option uuid_str (uuid_int (strip_if is_brace ident)))
      else Inr (Some ident))"

text \<open>The key of an indexed NodeId: expanded when the namespace index has a URI.\<close>

definition indexed_key :: "(nat \<Rightarrow> string option) \<Rightarrow> nat \<Rightarrow> char \<Rightarrow> string \<Rightarrow> string" where
  "indexed_key uri_by_index idx k i =
     (let uri = (if idx = 0 then Some ''http://opcfoundation.org/UA/'' else uri_by_index idx)
      in if uri \<noteq> None \<and> uri \<noteq> Some []
         then ''nsu='' @ the uri @ '';'' @ [k, CHR ''=''] @ i
         else ''ns='' @ nat_digits idx @ '';'' @ [k, CHR ''=''] @ i)"

definition canonical_node_id :: "string \<Rightarrow> (nat \<Rightarrow> string option) \<Rightarrow> string option result" where
  "canonical_node_id node_id uri_by_index =
     (let normalized = py_strip node_id in
      if startswith normalized ''nsu='' then
        (case partition_at (CHR '';'') (drop 4 normalized) of
           (u, None) \<Rightarrow> Inr None
         | (u, Some t) \<Rightarrow>
             (if u = [] then Inr None
              else (case match_identifier t of
                 None \<Rightarrow> Inr None
               | Some (k, ident) \<Rightarrow>
                   rbind (normalize_node_identifier k ident)
                     (\<lambda>r. Inr (map_option (\<lambda>i. ''nsu='' @ u @ '';'' @ [k, CHR ''=''] @ i) r)))))
      else (let (d, t) = ns_prefix normalized in
        case match_identifier t of
          None \<Rightarrow> Inr None
        | Some (k, ident) \<Rightarrow>
            rbind (normalize_node_identifier k ident)
              (\<lambda>r. Inr (map_option (indexed_key uri_by_index (ns_index d) k) r))))"

definition namespace_uri_from_expanded_node_id :: "string \<Rightarrow> string option" where
  "namespace_uri_from_expanded_node_id node_id =
     (if startswith node_id ''nsu='' then
        (case partition_at (CHR '';'') (drop 4 node_id) of
           (u, Some _) \<Rightarrow> if u = [] then None else Some u
         | (u, None) \<Rightarrow> None)
      else None)"

text \<open>
  The three case-insensitive patterns \<open>nsu=[^;]+;i=0\<close>, \<open>ns=\d+;i=0\<close> and \<open>i=0\<close>, on the
  stripped string (so no newline is left before \<open>$\<close>).
\<close>

definition is_null_opcua_type_node_id :: "string \<Rightarrow> bool" where
  "is_null_opcua_type_node_id node_id =
     (let s = py_lower (py_strip node_id) in
      (startswith s ''nsu='' \<and>
         (case partition_at (CHR '';'') (drop 4 s) of
            (u, Some r) \<Rightarrow> u \<noteq> [] \<and> r = ''i=0'' | (u, None) \<Rightarrow> False))
      \<or> (let (d, t) = ns_prefix s in d \<noteq> None \<and> t = ''i=0'')
      \<or> s = ''i=0'')"

definition namespace_infos_by_uri :: "OpcUaNamespaceInfo list \<Rightarrow> (string, OpcUaNamespaceInfo) dict" where
  "namespace_infos_by_uri infos = dict_of_list (map (\<lambda>item. (ni_uri item, item)) infos)"

text \<open>
  The index that \<open>ModelBuilder.build\<close> makes of the namespace infos: position to URI, for the
  non-empty URIs.
\<close>

definition namespace_uri_by_index :: "OpcUaNamespaceInfo list \<Rightarrow> nat \<Rightarrow> string option" where
  "namespace_uri_by_index infos i =
     (if i < length infos \<and> ni_uri (infos ! i) \<noteq> [] then Some (ni_uri (infos ! i)) else None)"

section \<open>Facts about the syntax\<close>

definition rstrip_space :: "string \<Rightarrow> string" where
  "rstrip_space s = rev (dropWhile py_isspace (rev s))"

lemma rstrip_space_newline [simp]: "rstrip_space (s @ [CHR 0x0A]) = rstrip_space s"
  by (simp add: rstrip_space_def py_isspace_def)

lemma rstrip_space_subset: "set (rstrip_space s) \<subseteq> set s"
  by (auto simp: rstrip_space_def dest!: set_dropWhileD)

lemma rstrip_space_ends: "rstrip_space s = [] \<or> \<not> py_isspace (last (rstrip_space s))"
  using hd_dropWhile [of py_isspace "rev s"] by (auto simp: rstrip_space_def last_rev)

lemma rstrip_space_fix: "s = [] \<or> \<not> py_isspace (last s) \<Longrightarrow> rstrip_space s = s"
  by (cases s rule: rev_cases) (auto simp: rstrip_space_def)

lemma py_strip_keep_front:
  assumes "\<not> py_isspace c" and "\<not> py_isspace e"
  shows "py_strip ((c # p) @ e # r) = (c # p) @ e # rstrip_space r"
  using assms by (simp add: py_strip_def strip_if_def rstrip_space_def dropWhile_append)

lemma strip_if_none: "(\<And>c. c \<in> set s \<Longrightarrow> \<not> p c) \<Longrightarrow> strip_if p s = s"
  by (rule strip_if_fix) (cases s, auto)

lemma not_space_syntax [simp]:
  "\<not> py_isspace (CHR ''n'')" "\<not> py_isspace (CHR ''='')"
  "k \<in> set ''isgb'' \<Longrightarrow> \<not> py_isspace k"
  by (auto simp: py_isspace_def)

lemma isdecimal_not_space: "py_isdecimal c \<Longrightarrow> \<not> py_isspace c"
  by (auto simp: py_isdecimal_def py_isspace_def Let_def)

lemma isdecimal_isdigit: "py_isdecimal c \<Longrightarrow> py_isdigit c"
  by (simp add: py_isdigit_def)

lemma isdecimal_not_newline: "py_isdecimal c \<Longrightarrow> c \<noteq> CHR 0x0A"
  by (auto simp: py_isdecimal_def)

lemma ns_prefix_Some:
  "ns_prefix s = (Some d, t) \<Longrightarrow>
     s = ''ns='' @ d @ '';'' @ t \<and> d \<noteq> [] \<and> list_all py_isdecimal d"
proof -
  assume a: "ns_prefix s = (Some d, t)"
  let ?r = "drop 3 s"
  have c: "startswith s ''ns=''" "d = takeWhile py_isdecimal ?r" "d \<noteq> []"
    "dropWhile py_isdecimal ?r \<noteq> []" "hd (dropWhile py_isdecimal ?r) = CHR '';''"
    "t = tl (dropWhile py_isdecimal ?r)"
    using a by (auto simp: ns_prefix_def Let_def split: if_splits)
  from c(4-6) have "dropWhile py_isdecimal ?r = '';'' @ t"
    by (cases "dropWhile py_isdecimal ?r") auto
  with c(2) have "?r = d @ '';'' @ t"
    by (metis takeWhile_dropWhile_id)
  moreover from c(1) have "s = ''ns='' @ ?r"
    by (auto simp: startswith_iff)
  ultimately show ?thesis
    using c(2,3) by (auto simp: list_all_iff dest: set_takeWhileD)
qed

lemma ns_prefix_None: "ns_prefix s = (None, t) \<Longrightarrow> t = s"
  by (auto simp: ns_prefix_def Let_def split: if_splits)

lemma ns_prefix_append [simp]:
  assumes "d \<noteq> []" "list_all py_isdecimal d"
  shows "ns_prefix (''ns='' @ d @ '';'' @ t) = (Some d, t)"
proof -
  have "takeWhile py_isdecimal (d @ '';'' @ t) = d" "dropWhile py_isdecimal (d @ '';'' @ t) = '';'' @ t"
    using assms(2) by (auto simp: list_all_iff takeWhile_append dropWhile_append py_isdecimal_def)
  moreover have "\<not> py_isdecimal (CHR '';'')"
    by (simp add: py_isdecimal_def)
  ultimately show ?thesis
    using assms(1) by (simp add: ns_prefix_def Let_def)
qed

lemma ns_prefix_other [simp]: "c \<noteq> CHR ''n'' \<Longrightarrow> ns_prefix (c # s) = (None, c # s)"
  by (simp add: ns_prefix_def)

lemma match_identifier_Some:
  "match_identifier t = Some (k, a) \<Longrightarrow>
     k \<in> set ''isgb'' \<and> CHR 0x0A \<notin> set a
     \<and> (t = k # CHR ''='' # a \<or> t = k # CHR ''='' # a @ [CHR 0x0A])"
  by (auto simp: match_identifier_def dot_tail_def dest!: partition_at_parts
      split: list.splits if_splits option.splits prod.splits)

lemma match_identifier_intro [simp]:
  "k \<in> set ''isgb'' \<Longrightarrow> CHR 0x0A \<notin> set a \<Longrightarrow> match_identifier (k # CHR ''='' # a) = Some (k, a)"
  by (auto simp: match_identifier_def dot_tail_def)

section \<open>GUIDs: printing and parsing are inverse\<close>

definition hex_chars :: "char list" where
  "hex_chars = ''0123456789abcdef''"

lemma hex_char_facts: "\<forall>d \<in> set [0..<16]. hexval (hex_char d) = Some d \<and> hex_char d \<in> set hex_chars"
  by code_simp

lemma hexval_hex_char: "d < 16 \<Longrightarrow> hexval (hex_char d) = Some d"
  and hex_char_in: "d < 16 \<Longrightarrow> hex_char d \<in> set hex_chars"
  using hex_char_facts by simp_all

lemma set_hex_digits: "set (hex_digits k n) \<subseteq> set hex_chars"
  by (induction k arbitrary: n) (auto simp: hex_char_in)

lemma length_hex_digits [simp]: "length (hex_digits k n) = k"
  by (induction k arbitrary: n) auto

lemma hex_scan_hex_digits:
  "hex_scan b m (hex_digits k n @ r) = hex_scan (b \<or> 0 < k) (m * 16 ^ k + n mod 16 ^ k) r"
proof (induction k arbitrary: n r)
  case 0
  then show ?case by simp
next
  case (Suc k)
  have us: "hex_char (n mod 16) \<noteq> CHR ''_''"
    using hex_char_in [of "n mod 16"] by (auto simp: hex_chars_def)
  have "n mod (16 * 16 ^ k) = 16 * (n div 16 mod 16 ^ k) + n mod 16"
    by (rule mod_mult2_eq)
  with Suc us show ?case
    by (simp add: hexval_hex_char algebra_simps)
qed

lemma remove_sub_absent: "c \<in> set p \<Longrightarrow> c \<notin> set s \<Longrightarrow> remove_sub p s = s"
proof (induction p s rule: remove_sub.induct)
  case (2 p x xs)
  then have "\<not> startswith (x # xs) p"
    by (metis UnCI set_append startswith_iff)
  with 2 show ?case by auto
qed simp

lemma remove_sub_single: "remove_sub [c] s = filter (\<lambda>x. x \<noteq> c) s"
  by (induction "[c]" s rule: remove_sub.induct) auto

lemma set_uuid_str: "set (uuid_str n) \<subseteq> insert (CHR ''-'') (set hex_chars)"
  using set_hex_digits [of 32 n]
  by (auto simp: uuid_str_def Let_def dest!: in_set_takeD in_set_dropD)

lemma uuid_str_not_Nil [simp]: "uuid_str n \<noteq> []"
  by (simp add: uuid_str_def Let_def)

lemma filter_uuid_str: "filter (\<lambda>x. x \<noteq> CHR ''-'') (uuid_str n) = hex_digits 32 n"
proof -
  let ?h = "hex_digits 32 n"
  have no: "CHR ''-'' \<notin> set ?h"
    using set_hex_digits [of 32 n] by (auto simp: hex_chars_def)
  have f: "filter (\<lambda>x. x \<noteq> CHR ''-'') t = t" if "set t \<subseteq> set ?h" for t
    using that no by (auto simp: filter_id_conv)
  have d: "take 4 (drop (a :: nat) ?h) @ drop (a + 4) ?h = drop a ?h" for a
    using append_take_drop_id [of 4 "drop a ?h"] by (simp add: add.commute)
  have "filter (\<lambda>x. x \<noteq> CHR ''-'') (uuid_str n) =
    take 8 ?h @ take 4 (drop 8 ?h) @ take 4 (drop 12 ?h) @ take 4 (drop 16 ?h) @ drop 20 ?h"
    by (simp add: uuid_str_def Let_def f set_take_subset set_drop_subset
        subset_trans [OF set_take_subset set_drop_subset])
  also have "\<dots> = ?h"
    using d [of 8] d [of 12] d [of 16] by simp
  finally show ?thesis .
qed

lemma py_int16_hex_digits: "0 < k \<Longrightarrow> py_int16 (hex_digits k n) = Some (int (n mod 16 ^ k))"
proof -
  assume k: "0 < k"
  let ?h = "hex_digits k n"
  have sub: "set ?h \<subseteq> set hex_chars" by (rule set_hex_digits)
  have s: "strip_if py_int16_space ?h = ?h"
    using sub by (intro strip_if_none) (auto simp: hex_chars_def py_int16_space_def)
  have no: "\<not> startswith ?h p" if "c \<in> set p" "c \<notin> set hex_chars" for p c
    using sub that by (auto simp: startswith_iff)
  have n: "\<not> startswith ?h ''-''" "\<not> startswith ?h ''+''" "\<not> startswith ?h ''0x''" "\<not> startswith ?h ''0X''"
    using no [of "CHR ''-''"] no [of "CHR ''+''"] no [of "CHR ''x''"] no [of "CHR ''X''"]
    by (simp_all add: hex_chars_def)
  have "hex_scan False 0 ?h = Some (n mod 16 ^ k)"
    using hex_scan_hex_digits [of False 0 k n "[]"] k by simp
  with s n show ?thesis
    by (simp add: py_int16_def Let_def)
qed

lemma uuid_int_uuid_str:
  assumes "n < 2 ^ 128"
  shows "uuid_int (uuid_str n) = Some n"
proof -
  have c: "CHR '':'' \<notin> set (uuid_str n)" "\<And>c. c \<in> set (uuid_str n) \<Longrightarrow> \<not> is_brace c"
    using set_uuid_str [of n] by (auto simp: hex_chars_def is_brace_def)
  have "remove_sub ''uuid:'' (remove_sub ''urn:'' (uuid_str n)) = uuid_str n"
    using c(1) by (simp add: remove_sub_absent [of "CHR '':''"])
  moreover have "(16 :: nat) ^ 32 = 2 ^ 128" by simp
  ultimately show ?thesis
    using assms
    by (simp add: uuid_int_def strip_if_none [OF c(2)] remove_sub_single filter_uuid_str
        py_int16_hex_digits Let_def)
qed

lemma uuid_int_bound: "uuid_int s = Some n \<Longrightarrow> n < 2 ^ 128"
  by (auto simp: uuid_int_def Let_def nat_less_iff split: if_splits option.splits)

section \<open>Normalisation of identifiers\<close>

lemma nat_digits_chars: "c \<in> set (nat_digits n) \<Longrightarrow> py_isdecimal c"
  using nat_digits_isdecimal [of n] by (simp add: list_all_iff)

lemma normalize_node_identifier_idem:
  "normalize_node_identifier k a = Inr (Some b) \<Longrightarrow> normalize_node_identifier k b = Inr (Some b)"
proof -
  assume n: "normalize_node_identifier k a = Inr (Some b)"
  have d: "nat_digits m = [] \<longleftrightarrow> False" "list_all py_isdigit (nat_digits m)"
    "py_int_of_digits (nat_digits m) = Inr m" for m
    using nat_digits_isdecimal [of m]
    by (auto simp: py_int_of_digits_def list_all_iff isdecimal_isdigit)
  have u: "strip_if is_brace (uuid_str m) = uuid_str m" for m
    using set_uuid_str [of m] by (intro strip_if_none) (auto simp: hex_chars_def is_brace_def)
  show ?thesis
    using n by (auto simp: normalize_node_identifier_def d u rbind_Inr_iff uuid_int_uuid_str
        dest: uuid_int_bound split: if_splits)
qed

lemma normalize_node_identifier_shape:
  assumes "normalize_node_identifier k a = Inr (Some b)" and "CHR 0x0A \<notin> set a"
    and "a = [] \<or> \<not> py_isspace (last a)"
  shows "CHR 0x0A \<notin> set b \<and> (b = [] \<or> \<not> py_isspace (last b))"
proof -
  have d: "CHR 0x0A \<notin> set (nat_digits m) \<and> \<not> py_isspace (last (nat_digits m))" for m
    using nat_digits_chars [of _ m] last_in_set [of "nat_digits m"]
    by (auto simp: isdecimal_not_space dest: isdecimal_not_newline)
  have u: "CHR 0x0A \<notin> set (uuid_str m) \<and> \<not> py_isspace (last (uuid_str m))" for m
  proof -
    have "\<not> py_isspace c \<and> c \<noteq> CHR 0x0A" if "c \<in> insert (CHR ''-'') (set hex_chars)" for c
      using that by (auto simp: hex_chars_def py_isspace_def)
    with set_uuid_str [of m] last_in_set [OF uuid_str_not_Nil, of m] show ?thesis by blast
  qed
  show ?thesis
    using assms by (auto simp: normalize_node_identifier_def d u rbind_Inr_iff split: if_splits)
qed

section \<open>Canonical keys\<close>

lemma canonical_expanded_form:
  assumes "u \<noteq> []" "CHR '';'' \<notin> set u" "k \<in> set ''isgb''" "CHR 0x0A \<notin> set a"
  shows "canonical_node_id (''nsu='' @ u @ '';'' @ [k, CHR ''=''] @ a) m =
    rbind (normalize_node_identifier k (rstrip_space a))
      (\<lambda>r. Inr (map_option (\<lambda>i. ''nsu='' @ u @ '';'' @ [k, CHR ''=''] @ i) r))"
proof -
  have nl: "CHR 0x0A \<notin> set (rstrip_space a)"
    using assms(4) rstrip_space_subset [of a] by auto
  have st: "py_strip (''nsu='' @ u @ '';'' @ [k, CHR ''=''] @ a) = ''nsu='' @ u @ '';'' @ [k, CHR ''=''] @ rstrip_space a"
    using py_strip_keep_front [of "CHR ''n''" "CHR ''=''" "''su='' @ u @ '';'' @ [k]" a] by simp
  show ?thesis
    unfolding canonical_node_id_def st using assms nl by simp
qed

lemma canonical_indexed_form:
  assumes "d \<noteq> []" "list_all py_isdecimal d" "k \<in> set ''isgb''" "CHR 0x0A \<notin> set a"
  shows "canonical_node_id (''ns='' @ d @ '';'' @ [k, CHR ''=''] @ a) m =
    rbind (normalize_node_identifier k (rstrip_space a))
      (\<lambda>r. Inr (map_option (indexed_key m (dec_val d) k) r))"
proof -
  have nl: "CHR 0x0A \<notin> set (rstrip_space a)"
    using assms(4) rstrip_space_subset [of a] by auto
  let ?s = "''ns='' @ d @ '';'' @ [k, CHR ''=''] @ rstrip_space a"
  have st: "py_strip (''ns='' @ d @ '';'' @ [k, CHR ''=''] @ a) = ?s"
    using py_strip_keep_front [of "CHR ''n''" "CHR ''=''" "''s='' @ d @ '';'' @ [k]" a] by simp
  have "ns_prefix ?s = (Some d, k # CHR ''='' # rstrip_space a)"
    using ns_prefix_append [OF assms(1,2), of "k # CHR ''='' # rstrip_space a"] by simp
  then show ?thesis
    unfolding canonical_node_id_def st using assms(3) nl by (simp add: ns_index_def)
qed

lemma canonical_short_form:
  assumes "k \<in> set ''isgb''" "CHR 0x0A \<notin> set a"
  shows "canonical_node_id (k # CHR ''='' # a) m =
    rbind (normalize_node_identifier k (rstrip_space a))
      (\<lambda>r. Inr (map_option (indexed_key m 0 k) r))"
proof -
  have nl: "CHR 0x0A \<notin> set (rstrip_space a)"
    using assms(2) rstrip_space_subset [of a] by auto
  have k: "k \<noteq> CHR ''n''" using assms(1) by auto
  have st: "py_strip (k # CHR ''='' # a) = k # CHR ''='' # rstrip_space a"
    using py_strip_keep_front [of k "CHR ''=''" "[]" a] assms(1) by simp
  show ?thesis
    unfolding canonical_node_id_def st using assms nl k by (simp add: ns_index_def)
qed

lemma py_strip_twice: "canonical_node_id (py_strip s) m = canonical_node_id s m"
  by (simp add: canonical_node_id_def)

text \<open>A string that has a canonical key has, once stripped, one of three shapes.\<close>

lemma canonical_cases:
  assumes "canonical_node_id s m = Inr (Some c)"
  obtains (expanded) u k a where "py_strip s = ''nsu='' @ u @ '';'' @ [k, CHR ''=''] @ a" "u \<noteq> []"
      "CHR '';'' \<notin> set u" "k \<in> set ''isgb''" "CHR 0x0A \<notin> set a"
    | (indexed) d k a where "py_strip s = ''ns='' @ d @ '';'' @ [k, CHR ''=''] @ a" "d \<noteq> []"
      "list_all py_isdecimal d" "k \<in> set ''isgb''" "CHR 0x0A \<notin> set a"
    | (short) k a where "py_strip s = k # CHR ''='' # a" "k \<in> set ''isgb''" "CHR 0x0A \<notin> set a"
proof -
  let ?n = "py_strip s"
  have nonl: "?n \<noteq> t @ [CHR 0x0A]" for t
  proof
    assume "?n = t @ [CHR 0x0A]"
    with strip_if_ends [of py_isspace s] show False
      by (auto simp: py_strip_def py_isspace_def)
  qed
  show thesis
  proof (cases "startswith ?n ''nsu=''")
    case True
    then obtain r where r: "?n = ''nsu='' @ r" by (auto simp: startswith_iff)
    with assms obtain u t k a where p: "partition_at (CHR '';'') r = (u, Some t)" "u \<noteq> []"
      "match_identifier t = Some (k, a)"
      by (auto simp: canonical_node_id_def split: if_splits prod.splits option.splits)
    from p(1) have "r = u @ '';'' @ t" "CHR '';'' \<notin> set u"
      by (auto dest: partition_at_parts)
    with r p(2) match_identifier_Some [OF p(3)] nonl show thesis
      by (metis expanded append_Cons append_Nil append_assoc)
  next
    case False
    obtain d t where dt: "ns_prefix ?n = (d, t)" by fastforce
    with False assms obtain k a where m: "match_identifier t = Some (k, a)"
      by (auto simp: canonical_node_id_def split: if_splits prod.splits option.splits)
    show thesis
    proof (cases d)
      case None
      with dt have "t = ?n" using ns_prefix_None by simp
      with match_identifier_Some [OF m] nonl show thesis
        by (metis short append_Cons)
    next
      case (Some ds)
      from ns_prefix_Some [OF dt [unfolded Some]]
      have "?n = ''ns='' @ ds @ '';'' @ t" "ds \<noteq> []" "list_all py_isdecimal ds" by auto
      with match_identifier_Some [OF m] nonl show thesis
        by (metis indexed append_Cons append_Nil append_assoc)
    qed
  qed
qed

lemma indexed_key_stable:
  assumes "\<forall>i u. m i = Some u \<longrightarrow> CHR '';'' \<notin> set u" and "k \<in> set ''isgb''"
    and b: "normalize_node_identifier k b = Inr (Some b)" "CHR 0x0A \<notin> set b"
      "b = [] \<or> \<not> py_isspace (last b)"
  shows "canonical_node_id (indexed_key m idx k b) m = Inr (Some (indexed_key m idx k b))"
proof -
  let ?u = "if idx = 0 then Some ''http://opcfoundation.org/UA/'' else m idx"
  have r: "rstrip_space b = b" using b(3) by (rule rstrip_space_fix)
  show ?thesis
  proof (cases "?u \<noteq> None \<and> ?u \<noteq> Some []")
    case True
    then obtain u where u: "?u = Some u" "u \<noteq> []" by auto
    with assms(1) have "CHR '';'' \<notin> set u" by (auto split: if_splits)
    with u have "canonical_node_id (''nsu='' @ u @ '';'' @ [k, CHR ''=''] @ b) m =
        Inr (Some (''nsu='' @ u @ '';'' @ [k, CHR ''=''] @ b))"
      using canonical_expanded_form [OF u(2) _ assms(2) b(2)] b(1) r by simp
    moreover have "indexed_key m idx k b = ''nsu='' @ u @ '';'' @ [k, CHR ''=''] @ b"
      using u by (simp add: indexed_key_def)
    ultimately show ?thesis by simp
  next
    case False
    then have k: "indexed_key m idx k b = ''ns='' @ nat_digits idx @ '';'' @ [k, CHR ''=''] @ b"
      by (auto simp: indexed_key_def Let_def)
    then show ?thesis
      using canonical_indexed_form [OF nat_digits_not_Nil nat_digits_isdecimal assms(2) b(2)] b(1) r
      by simp
  qed
qed

lemma canonical_step:
  assumes "normalize_node_identifier k (rstrip_space a) = Inr (Some b)" "CHR 0x0A \<notin> set a"
  shows "normalize_node_identifier k b = Inr (Some b)" "CHR 0x0A \<notin> set b"
    "b = [] \<or> \<not> py_isspace (last b)"
  using normalize_node_identifier_idem [OF assms(1)]
    normalize_node_identifier_shape [OF assms(1)] rstrip_space_ends [of a] assms(2)
    rstrip_space_subset [of a]
  by auto

section \<open>Properties\<close>

text \<open>
  The canonical key of a NodeId is a fixed point: computing the key of a key gives the
  same key, for numeric, string, GUID and opaque identifiers, in indexed, expanded and short
  form, as long as no namespace URI contains a semicolon.
\<close>

theorem canonical_node_id_idempotent:
  assumes "canonical_node_id s m = Inr (Some c)"
    and uris: "\<forall>i u. m i = Some u \<longrightarrow> CHR '';'' \<notin> set u"
  shows "canonical_node_id c m = Inr (Some c)"
proof -
  have c: "canonical_node_id (py_strip s) m = Inr (Some c)"
    using assms(1) by (simp add: py_strip_twice)
  show ?thesis
    using assms(1)
  proof (cases rule: canonical_cases)
    case (expanded u k a)
    from canonical_expanded_form [OF expanded(2-5), of m] c
    obtain b where b: "normalize_node_identifier k (rstrip_space a) = Inr (Some b)"
      "c = ''nsu='' @ u @ '';'' @ [k, CHR ''=''] @ b"
      unfolding expanded(1) by (auto dest!: rbind_map_SomeD dest: rbind_map_SomeD [OF sym])
    note n = canonical_step [OF b(1) expanded(5)]
    then show ?thesis
      using canonical_expanded_form [OF expanded(2-4) n(2)] b(2) rstrip_space_fix [OF n(3)] by simp
  next
    case (indexed d k a)
    from canonical_indexed_form [OF indexed(2-5), of m] c
    obtain b where b: "normalize_node_identifier k (rstrip_space a) = Inr (Some b)"
      "c = indexed_key m (dec_val d) k b"
      unfolding indexed(1) by (auto dest!: rbind_map_SomeD dest: rbind_map_SomeD [OF sym])
    then show ?thesis
      using indexed_key_stable [OF uris indexed(4) canonical_step [OF b(1) indexed(5)]] by blast
  next
    case (short k a)
    from canonical_short_form [OF short(2,3), of m] c
    obtain b where b: "normalize_node_identifier k (rstrip_space a) = Inr (Some b)"
      "c = indexed_key m 0 k b"
      unfolding short(1) by (auto dest!: rbind_map_SomeD dest: rbind_map_SomeD [OF sym])
    then show ?thesis
      using indexed_key_stable [OF uris short(2) canonical_step [OF b(1) short(3)]] by blast
  qed
qed

theorem canonical_node_id_idempotent_witness:
  "canonical_node_id '' ns=2;i=0085 '' (\<lambda>i. if i = 2 then Some ''urn:x'' else None) = Inr (Some ''nsu=urn:x;i=85'')
   \<and> canonical_node_id ''nsu=urn:x;i=85'' (\<lambda>i. if i = 2 then Some ''urn:x'' else None) = Inr (Some ''nsu=urn:x;i=85'')"
proof -
  let ?m = "\<lambda>i :: nat. if i = 2 then Some ''urn:x'' else None"
  have c: "canonical_node_id '' ns=2;i=0085 '' ?m = Inr (Some ''nsu=urn:x;i=85'')"
    by (simp add: canonical_node_id_def ns_prefix_def ns_index_def match_identifier_def dot_tail_def
        normalize_node_identifier_def indexed_key_def py_int_of_digits_def str_defs nat_digits.simps)
  have "\<forall>i u. ?m i = Some u \<longrightarrow> CHR '';'' \<notin> set u"
    by (auto split: if_splits)
  from canonical_node_id_idempotent [OF c this] c show ?thesis by blast
qed

text \<open>
  Expanding an indexed NodeId does not change its canonical key: the indexed and the
  expanded spelling of a node meet at the same lookup key, with the index that the model
  builder derives from the namespace table.
\<close>

theorem canonical_of_expanded_node_id:
  assumes "\<And>info. info \<in> set infos \<Longrightarrow> CHR '';'' \<notin> set (ni_uri info)"
  shows "canonical_node_id (expanded_node_id s infos) (namespace_uri_by_index infos) =
         canonical_node_id s (namespace_uri_by_index infos)"
proof (cases "expanded_node_id s infos = s")
  case True
  then show ?thesis by simp
next
  case False
  let ?m = "namespace_uri_by_index infos"
  obtain d t where dt: "ns_prefix s = (d, t)" by fastforce
  let ?i = "ns_index d"
  let ?u = "if ?i = 0 then ''http://opcfoundation.org/UA/'' else ni_uri (infos ! ?i)"
  from False dt obtain k a where m: "match_identifier t = Some (k, a)" "a \<noteq> []"
    "?i = 0 \<or> ?i < length infos \<and> ni_uri (infos ! ?i) \<noteq> []"
    and e: "expanded_node_id s infos = ''nsu='' @ ?u @ '';'' @ [k, CHR ''=''] @ a"
    by (auto simp: expanded_node_id_def split: if_splits option.splits)
  note t = match_identifier_Some [OF m(1)]
  from m(3) assms have u: "?u \<noteq> []" "CHR '';'' \<notin> set ?u" by auto
  have key: "indexed_key ?m ?i k = (\<lambda>i. ''nsu='' @ ?u @ '';'' @ [k, CHR ''=''] @ i)"
    using m(3) by (auto simp: indexed_key_def namespace_uri_by_index_def fun_eq_iff)
  have "canonical_node_id s ?m = rbind (normalize_node_identifier k (rstrip_space a))
      (\<lambda>r. Inr (map_option (indexed_key ?m ?i k) r))"
  proof (cases d)
    case None
    with dt have "s = t" by (metis ns_prefix_None)
    moreover have "canonical_node_id (k # CHR ''='' # a @ [CHR 0x0A]) ?m = canonical_node_id (k # CHR ''='' # a) ?m"
      using py_strip_keep_front [of k "CHR ''=''" "[]"] t by (simp add: canonical_node_id_def)
    ultimately show ?thesis
      using canonical_short_form [of k a ?m] t None by (auto simp: ns_index_def)
  next
    case (Some ds)
    from ns_prefix_Some [OF dt [unfolded Some]]
    have s: "s = ''ns='' @ ds @ '';'' @ t" "ds \<noteq> []" "list_all py_isdecimal ds" by auto
    have "canonical_node_id (''ns='' @ ds @ '';'' @ [k, CHR ''=''] @ a @ [CHR 0x0A]) ?m =
        canonical_node_id (''ns='' @ ds @ '';'' @ [k, CHR ''=''] @ a) ?m"
      using py_strip_keep_front [of "CHR ''n''" "CHR ''=''" "''s='' @ ds @ '';'' @ [k]"]
      by (simp add: canonical_node_id_def)
    then show ?thesis
      using canonical_indexed_form [OF s(2,3), of k a ?m] t s(1) Some by (auto simp: ns_index_def)
  qed
  then show ?thesis
    using canonical_expanded_form [OF u conjunct1 [OF t], of a ?m] t e key by simp
qed

theorem canonical_of_expanded_node_id_witness:
  "canonical_node_id (expanded_node_id ''ns=1;s=Pump''
       [\<lparr>ni_uri = ''a'', ni_display_name = [], ni_namespace_version = None, ni_server_uri = None\<rparr>,
        \<lparr>ni_uri = ''urn:plant'', ni_display_name = [], ni_namespace_version = None, ni_server_uri = None\<rparr>])
     (namespace_uri_by_index
       [\<lparr>ni_uri = ''a'', ni_display_name = [], ni_namespace_version = None, ni_server_uri = None\<rparr>,
        \<lparr>ni_uri = ''urn:plant'', ni_display_name = [], ni_namespace_version = None, ni_server_uri = None\<rparr>])
   = Inr (Some ''nsu=urn:plant;s=Pump'')"
proof -
  let ?infos = "[\<lparr>ni_uri = ''a'', ni_display_name = [], ni_namespace_version = None, ni_server_uri = None\<rparr>,
        \<lparr>ni_uri = ''urn:plant'', ni_display_name = [], ni_namespace_version = None, ni_server_uri = None\<rparr>]"
  have "CHR '';'' \<notin> set (ni_uri info)" if "info \<in> set ?infos" for info
    using that by auto
  then have "canonical_node_id (expanded_node_id ''ns=1;s=Pump'' ?infos) (namespace_uri_by_index ?infos) =
      canonical_node_id ''ns=1;s=Pump'' (namespace_uri_by_index ?infos)"
    by (rule canonical_of_expanded_node_id)
  moreover have "canonical_node_id ''ns=1;s=Pump'' (namespace_uri_by_index ?infos) = Inr (Some ''nsu=urn:plant;s=Pump'')"
    by (simp add: canonical_node_id_def ns_prefix_def ns_index_def match_identifier_def dot_tail_def
        normalize_node_identifier_def indexed_key_def namespace_uri_by_index_def str_defs)
  ultimately show ?thesis by simp
qed

text \<open>
  The functions named as total lookups of a canonical key can raise: a numeric identifier
  that consists of a superscript digit passes \<open>str.isdigit\<close> and makes \<open>int\<close> raise
  \<open>ValueError\<close>, for every namespace index, although the other malformed identifiers give None.
\<close>

theorem canonical_node_id_raises_on_superscript:
  "canonical_node_id (''i='' @ [CHR 0xB2]) m = Inl (ValueError ''invalid literal for int()'')"
  using canonical_short_form [of "CHR ''i''" "[CHR 0xB2]" m]
  by (simp add: rstrip_space_def py_isspace_def normalize_node_identifier_def py_isdigit_def
      py_isdecimal_def py_int_of_digits_def)

end
