(* ===== verification/Model.thy ===== *)
theory Model
  imports Values NodeIds
begin

text \<open>
  The data of the address-space model: \<open>ModelNode\<close> (\<open>i3x_server/schemas/i3x.py\<close>),
  \<open>BuildResult\<close> (\<open>i3x_server/schemas/state.py\<close>) and the browse results they are built
  from (\<open>i3x_server/domain/ports/opcua.py\<close>). The timing fields and the two caches that
  \<open>BuildResult\<close> excludes from comparison are left out.
\<close>

datatype NodeKind = Asset | Property | Action | EventSource

datatype SemanticRole = RoleAsset | RoleGroup | RoleComponent | RoleDatapoint | RoleProperty | RoleUnknown

datatype MappingConfidence = High | Medium | Low

record ModelNode =
  mn_id :: string
  mn_name :: string
  mn_kind :: NodeKind
  mn_type :: "string option"
  mn_children :: "string list"
  mn_source_node_id :: string
  mn_source_type_id :: "string option"
  mn_parent_id :: "string option"
  mn_is_composition :: bool
  mn_semantic_role :: SemanticRole
  mn_mapping_confidence :: MappingConfidence
  mn_relationships :: "(string, string list) dict"
  mn_metadata :: "(string, pyval) dict"

record BuildResult =
  br_nodes_by_id :: "(string, ModelNode) dict"
  br_root_ids :: "string list"
  br_children_by_id :: "(string, string list) dict"
  br_instances_by_type_id :: "(string, string list) dict"
  br_property_to_node :: "(string, string) dict"
  br_action_to_method :: "(string, string \<times> string) dict"
  br_parent_by_id :: "(string, string) dict"
  br_node_id_by_name :: "(string, string) dict"
  br_node_id_by_type :: "(string, string) dict"
  br_hierarchy_children_by_id :: "(string, string list) dict"
  br_composition_children_by_id :: "(string, string list) dict"
  br_graph_related_by_id :: "(string, (string \<times> string) list) dict"
  br_relationships_by_id :: "(string, (string, string list) dict) dict"
  br_hierarchy_parent_by_id :: "(string, string) dict"
  br_composition_parent_by_id :: "(string, string) dict"
  br_graph_relationship_names :: "string list"
  br_graph_relationship_namespace_by_id :: "(string, string) dict"
  br_graph_relationship_display_name_by_id :: "(string, string) dict"
  br_semantic_role_by_id :: "(string, SemanticRole) dict"
  br_mapping_confidence_by_id :: "(string, MappingConfidence) dict"
  br_parent_id_by_id :: "(string, string option) dict"
  br_applied_profile_ids_by_id :: "(string, string list) dict"
  br_namespace_uri_by_id :: "(string, string option) dict"
  br_element_id_by_node_id :: "(string, string) dict"
  br_element_id_by_expanded_node_id :: "(string, string) dict"
  br_namespace_uri_by_index :: "(nat, string) dict"

record OpcUaReferenceInfo =
  ri_target_node_id :: string
  ri_reference_type_id :: string
  ri_reference_browse_name :: string

record OpcUaNodeInfo =
  oi_node_id :: string
  oi_parent_node_id :: "string option"
  oi_browse_name :: string
  oi_display_name :: string
  oi_node_class :: string
  oi_data_type :: "string option"
  oi_type_definition_id :: "string option"
  oi_event_notifier :: bool
  oi_outgoing_references :: "OpcUaReferenceInfo list"
  oi_description :: "string option"
  oi_access_level :: "nat option"
  oi_user_access_level :: "nat option"
  oi_executable :: "bool option"
  oi_user_executable :: "bool option"

record OpcUaTypeDefinitionInfo =
  ti_node_id :: string
  ti_browse_name :: string
  ti_namespace_uri :: "string option"

definition kind_name :: "NodeKind \<Rightarrow> string" where
  "kind_name k = (case k of Asset \<Rightarrow> ''asset'' | Property \<Rightarrow> ''property''
     | Action \<Rightarrow> ''action'' | EventSource \<Rightarrow> ''eventSource'')"

text \<open>Children of a node in the browse tree, \<open>children_by_id.get(id, [])\<close>.\<close>

definition children_of :: "BuildResult \<Rightarrow> string \<Rightarrow> string list" where
  "children_of m i = dict_get_def (br_children_by_id m) i []"

abbreviation node_of :: "BuildResult \<Rightarrow> string \<Rightarrow> ModelNode option" where
  "node_of m i \<equiv> dict_get (br_nodes_by_id m) i"

text \<open>
  The browse tree has no cycle below the nodes that exist: a rank that grows from parent to
  child. Traversals without a visited set rely on it.
\<close>

definition tree_rank :: "BuildResult \<Rightarrow> (string \<Rightarrow> nat) \<Rightarrow> bool" where
  "tree_rank m h \<longleftrightarrow> (\<forall>i. \<forall>c \<in> set (children_of m i). h c < h i)"

text \<open>Every key of \<open>nodes_by_id\<close> is the id of its node.\<close>

definition ids_ok :: "BuildResult \<Rightarrow> bool" where
  "ids_ok m \<longleftrightarrow> (\<forall>(k, n) \<in> set (br_nodes_by_id m). mn_id n = k)"

lemma ids_okD: "ids_ok m \<Longrightarrow> node_of m i = Some n \<Longrightarrow> mn_id n = i"
  unfolding ids_ok_def by (auto dest: map_of_SomeD)

end
