(* ===== verification/Resolve.thy ===== *)
theory Resolve
  imports Model "HOL-Library.Multiset"
begin

text \<open>
  From registered elements to monitored nodes: \<open>_resolve_monitored_node_ids\<close> and
  \<open>_collect_property_source_mappings\<close> of
  \<open>i3x_server/infrastructure/subscriptions/service.py\<close>. The breadth-first loop has no visited
  set, so it is a partial function: \<open>None\<close> means that it does not return. It always returns
  with a depth limit, and without one when the children form no cycle.
\<close>

partial_function (option) collect_loop ::
  "BuildResult \<Rightarrow> int \<Rightarrow> (string \<times> int) list \<Rightarrow> (string, string) dict \<Rightarrow> (string, string) dict option" where
  "collect_loop m depth_limit queue result =
     (case queue of
        [] \<Rightarrow> Some result
      | (i, depth) # rest \<Rightarrow>
          (case node_of m i of
             None \<Rightarrow> collect_loop m depth_limit rest result
           | Some n \<Rightarrow>
               if mn_kind n = Property
               then collect_loop m depth_limit rest (dict_set (mn_source_node_id n) (mn_id n) result)
               else if depth_limit \<noteq> 0 \<and> depth \<ge> depth_limit
               then collect_loop m depth_limit rest result
               else collect_loop m depth_limit
                      (rest @ map (\<lambda>c. (c, depth + 1)) (children_of m (mn_id n))) result))"

declare collect_loop.simps [code]

definition collect_property_source_mappings ::
  "BuildResult \<Rightarrow> ModelNode \<Rightarrow> int \<Rightarrow> (string, string) dict option" where
  "collect_property_source_mappings m start max_depth =
     (if mn_kind start = Property then Some [(mn_source_node_id start, mn_id start)]
      else collect_loop m (max 0 max_depth) [(mn_id start, 0)] [])"

definition source_index :: "BuildResult \<Rightarrow> (string, ModelNode) dict" where
  "source_index m = dict_of_list (map (\<lambda>n. (mn_source_node_id n, n)) (dict_values (br_nodes_by_id m)))"

definition find_monitored :: "BuildResult \<Rightarrow> string \<Rightarrow> ModelNode option" where
  "find_monitored m element_id =
     (case node_of m element_id of Some n \<Rightarrow> Some n | None \<Rightarrow> dict_get (source_index m) element_id)"

definition lower_keys :: "(string, 'v) dict \<Rightarrow> (string, 'v) dict" where
  "lower_keys d = dict_of_list (map (\<lambda>(k, v). (py_lower k, v)) d)"

fun resolve_loop ::
  "BuildResult \<Rightarrow> (string \<times> int) list \<Rightarrow> string list \<Rightarrow> (string, string) dict
   \<Rightarrow> (string list \<times> (string, string) dict) option" where
  "resolve_loop m [] node_ids n2e = Some (node_ids, n2e)"
| "resolve_loop m ((e, max_depth) # objs) node_ids n2e =
     (case find_monitored m e of
        None \<Rightarrow> resolve_loop m objs (set_add e node_ids) (dict_set (py_lower e) e (dict_set e e n2e))
      | Some n \<Rightarrow>
          (case collect_property_source_mappings m n max_depth of
             None \<Rightarrow> None
           | Some mp \<Rightarrow>
               resolve_loop m objs (set_union node_ids (dict_keys mp))
                 (dict_merge (dict_merge n2e mp) (lower_keys mp))))"

definition resolve_monitored_node_ids ::
  "(string, int) dict \<Rightarrow> BuildResult \<Rightarrow> (string list \<times> (string, string) dict) option" where
  "resolve_monitored_node_ids monitored_objects m = resolve_loop m monitored_objects [] []"

section \<open>What the traversal visits\<close>

text \<open>One expansion of a queue entry, as the loop body pushes it.\<close>

inductive expands :: "BuildResult \<Rightarrow> int \<Rightarrow> string \<times> int \<Rightarrow> string \<times> int \<Rightarrow> bool"
  for m :: BuildResult and dl :: int where
  expand: "node_of m i = Some n \<Longrightarrow> mn_kind n \<noteq> Property \<Longrightarrow> \<not> (dl \<noteq> 0 \<and> d \<ge> dl) \<Longrightarrow>
     c \<in> set (children_of m (mn_id n)) \<Longrightarrow> expands m dl (i, d) (c, d + 1)"

inductive_cases expandsE: "expands m dl x y"

text \<open>The properties found at or below a queue entry: source node id and element id.\<close>

definition found_below :: "BuildResult \<Rightarrow> int \<Rightarrow> string \<times> int \<Rightarrow> (string \<times> string) set" where
  "found_below m dl x =
     {(mn_source_node_id n, mn_id n) | n i d.
        (expands m dl)\<^sup>*\<^sup>* x (i, d) \<and> node_of m i = Some n \<and> mn_kind n = Property}"

lemma found_below_leaf:
  assumes "\<And>y. \<not> expands m dl x y"
  shows "found_below m dl x =
    {(mn_source_node_id n, mn_id n) | n. node_of m (fst x) = Some n \<and> mn_kind n = Property}"
proof -
  have "(expands m dl)\<^sup>*\<^sup>* x y \<longleftrightarrow> y = x" for y
    using assms by (auto elim: converse_rtranclpE)
  then show ?thesis by (cases x) (auto simp: found_below_def)
qed

lemma found_below_node:
  assumes "node_of m i = Some n" "mn_kind n \<noteq> Property" "\<not> (dl \<noteq> 0 \<and> d \<ge> dl)"
  shows "found_below m dl (i, d) = (\<Union>c \<in> set (children_of m (mn_id n)). found_below m dl (c, d + 1))"
proof -
  have e: "expands m dl (i, d) y \<longleftrightarrow> (\<exists>c \<in> set (children_of m (mn_id n)). y = (c, d + 1))" for y
    using assms by (auto elim: expandsE intro: expand)
  have "(expands m dl)\<^sup>*\<^sup>* (i, d) y \<longleftrightarrow>
      y = (i, d) \<or> (\<exists>c \<in> set (children_of m (mn_id n)). (expands m dl)\<^sup>*\<^sup>* (c, d + 1) y)" for y
    using e by (metis converse_rtranclpE converse_rtranclp_into_rtranclp rtranclp.rtrancl_refl)
  with assms(1,2) show ?thesis
    by (auto simp: found_below_def)
qed

text \<open>A rank that decreases along expansions bounds the loop, whatever the queue holds.\<close>

definition loop_rank :: "BuildResult \<Rightarrow> int \<Rightarrow> (string \<times> int \<Rightarrow> nat) \<Rightarrow> bool" where
  "loop_rank m dl rk \<longleftrightarrow> (\<forall>x y. expands m dl x y \<longrightarrow> rk y < rk x)"

lemma loop_rank_limited: "0 < dl \<Longrightarrow> loop_rank m dl (\<lambda>(i, d). nat (dl - d))"
  by (auto simp: loop_rank_def elim!: expandsE)

lemma loop_rank_tree:
  assumes "ids_ok m" "tree_rank m h"
  shows "loop_rank m dl (\<lambda>(i, d). h i)"
proof -
  have "h c < h i" if "node_of m i = Some n" "c \<in> set (children_of m (mn_id n))" for i n c
    using that assms ids_okD [of m i n] by (auto simp: tree_rank_def)
  then show ?thesis by (auto simp: loop_rank_def elim!: expandsE)
qed

lemma rank_pop: "(mset (map rk q), mset (map rk (x # q))) \<in> mult less_than"
  by (simp add: mult_def subset_implies_mult [unfolded mult_def])

lemma rank_expand:
  assumes "\<And>y. y \<in> set ys \<Longrightarrow> rk y < (rk x :: nat)"
  shows "(mset (map rk (q @ ys)), mset (map rk (x # q))) \<in> mult less_than"
proof -
  have "(mset (map rk q) + mset (map rk ys), mset (map rk q) + {#rk x#}) \<in> mult less_than"
    by (rule one_step_implies_mult) (use assms in auto)
  then show ?thesis by simp
qed

lemma set_dict_set:
  "dict_ok r \<Longrightarrow> set (dict_set k v r) = insert (k, v) {p \<in> set r. fst p \<noteq> k}"
  by (induction r) (auto simp: image_iff)

text \<open>
  Total correctness of the loop: it returns, the keys are those it had and those found below
  the queue, and every entry is an old one or a found one.
\<close>

lemma collect_loop_correct:
  assumes rank: "loop_rank m dl rk"
  shows "\<exists>res. collect_loop m dl q r = Some res
    \<and> fst ` set res = fst ` set r \<union> fst ` (\<Union>x \<in> set q. found_below m dl x)
    \<and> set res \<subseteq> set r \<union> (\<Union>x \<in> set q. found_below m dl x)"
proof -
  have wf: "wf (inv_image (mult less_than) (\<lambda>q. mset (map rk q)))"
    by (intro wf_inv_image wf_mult) simp
  show ?thesis
  proof (induction q arbitrary: r rule: wf_induct_rule [OF wf])
    case (1 q)
    note IH = "1.IH" [unfolded in_inv_image]
    show ?case
    proof (cases q)
      case Nil
      then show ?thesis by (simp add: collect_loop.simps)
    next
      case (Cons x rest)
      obtain i d where x: "x = (i, d)" by (cases x)
      have pop: "(mset (map rk rest), mset (map rk q)) \<in> mult less_than"
        unfolding Cons by (rule rank_pop)
      have skip: "?thesis" if "found_below m dl x = {}"
        "collect_loop m dl q r = collect_loop m dl rest r"
        using IH [OF pop, of r] that Cons by simp
      show ?thesis
      proof (cases "node_of m i")
        case None
        then have "\<not> expands m dl x y" for y by (auto simp: x elim!: expandsE)
        with None show ?thesis
          by (intro skip) (auto simp: found_below_leaf x Cons collect_loop.simps [of m dl "(i, d) # rest"])
      next
        case (Some n)
        consider (leaf) "mn_kind n = Property" | (limited) "mn_kind n \<noteq> Property" "dl \<noteq> 0 \<and> d \<ge> dl"
          | (inner) "mn_kind n \<noteq> Property" "\<not> (dl \<noteq> 0 \<and> d \<ge> dl)" by blast
        then show ?thesis
        proof cases
          case leaf
          then have "\<not> expands m dl x y" for y using Some by (auto simp: x elim!: expandsE)
          with Some leaf have fb: "found_below m dl x = {(mn_source_node_id n, mn_id n)}"
            by (auto simp: found_below_leaf x)
          let ?r = "dict_set (mn_source_node_id n) (mn_id n) r"
          have "collect_loop m dl q r = collect_loop m dl rest ?r"
            using Some leaf by (simp add: Cons x collect_loop.simps [of m dl "(i, d) # rest"])
          moreover have "set ?r \<subseteq> set r \<union> found_below m dl x" "fst ` set ?r = fst ` set r \<union> fst ` found_below m dl x"
            using set_update_subset [of "mn_source_node_id n" "mn_id n" r] by (auto simp: fb)
          ultimately show ?thesis
            using IH [OF pop, of ?r] unfolding Cons by (auto simp: image_Un) blast
        next
          case limited
          then have "\<not> expands m dl x y" for y using Some by (auto simp: x elim!: expandsE)
          with Some limited show ?thesis
            by (intro skip) (auto simp: found_below_leaf x Cons collect_loop.simps [of m dl "(i, d) # rest"])
        next
          case inner
          let ?ys = "map (\<lambda>c. (c, d + 1)) (children_of m (mn_id n))"
          have "expands m dl x y" if "y \<in> set ?ys" for y
            using that Some inner by (auto simp: x intro!: expand)
          with rank have "rk y < rk x" if "y \<in> set ?ys" for y
            using that unfolding loop_rank_def by blast
          then have "(mset (map rk (rest @ ?ys)), mset (map rk q)) \<in> mult less_than"
            unfolding Cons by (rule rank_expand)
          note IH' = IH [OF this, of r]
          have "collect_loop m dl q r = collect_loop m dl (rest @ ?ys) r"
            using Some inner by (auto simp: Cons x collect_loop.simps [of m dl "(i, d) # rest"])
          moreover have "(\<Union>y \<in> set (rest @ ?ys). found_below m dl y) = (\<Union>y \<in> set q. found_below m dl y)"
            using found_below_node [OF Some inner] by (auto simp: Cons x)
          ultimately show ?thesis using IH' by simp
        qed
      qed
    qed
  qed
qed

lemma collect_property_source_mappings_correct:
  assumes "0 < max_depth \<or> ids_ok m \<and> tree_rank m h"
    and "node_of m i = Some n" "mn_id n = i"
  shows "\<exists>res. collect_property_source_mappings m n max_depth = Some res
    \<and> fst ` set res = fst ` found_below m (max 0 max_depth) (i, 0)
    \<and> set res \<subseteq> found_below m (max 0 max_depth) (i, 0)"
proof (cases "mn_kind n = Property")
  case True
  then have "\<not> expands m (max 0 max_depth) (i, 0) y" for y
    using assms(2) by (auto elim!: expandsE)
  with True assms(2,3) have "found_below m (max 0 max_depth) (i, 0) = {(mn_source_node_id n, i)}"
    by (auto simp: found_below_leaf)
  with True assms(3) show ?thesis
    by (simp add: collect_property_source_mappings_def)
next
  case False
  have "\<exists>rk. loop_rank m (max 0 max_depth) rk"
    using assms(1) loop_rank_limited [of max_depth m] loop_rank_tree [of m h] by (auto simp: max_def)
  then obtain rk where "loop_rank m (max 0 max_depth) rk" ..
  from collect_loop_correct [OF this, of "[(i, 0)]" "[]"] False assms(3) show ?thesis
    by (simp add: collect_property_source_mappings_def)
qed

text \<open>Registered elements, all known to the model or with a limit, always resolve.\<close>

lemma find_monitored_in_model:
  "find_monitored m e = Some n \<Longrightarrow> \<exists>k. (k, n) \<in> set (br_nodes_by_id m)"
  unfolding find_monitored_def source_index_def
  by (fastforce simp: dict_get_of_list dest: map_of_SomeD split: option.splits)

lemma find_monitored_node:
  assumes "ids_ok m" "dict_ok (br_nodes_by_id m)" "find_monitored m e = Some n"
  shows "node_of m (mn_id n) = Some n"
proof -
  obtain k where k: "(k, n) \<in> set (br_nodes_by_id m)"
    using find_monitored_in_model [OF assms(3)] ..
  with assms(1) have "mn_id n = k" by (auto simp: ids_ok_def)
  with k assms(2) show ?thesis by simp
qed

definition monitored_sources :: "BuildResult \<Rightarrow> string \<times> int \<Rightarrow> string set" where
  "monitored_sources m obj =
     (case find_monitored m (fst obj) of
        None \<Rightarrow> {fst obj}
      | Some n \<Rightarrow> fst ` found_below m (max 0 (snd obj)) (mn_id n, 0))"

lemma resolve_loop_correct:
  assumes "ids_ok m" "dict_ok (br_nodes_by_id m)" "tree_rank m h"
  shows "\<exists>ns n2e'. resolve_loop m objs acc n2e = Some (ns, n2e')
    \<and> set ns = set acc \<union> (\<Union>obj \<in> set objs. monitored_sources m obj)
    \<and> (distinct acc \<longrightarrow> distinct ns)
    \<and> (fst ` set n2e \<supseteq> set acc \<longrightarrow> fst ` set n2e' \<supseteq> set ns)"
proof (induction objs arbitrary: acc n2e)
  case Nil
  then show ?case by simp
next
  case (Cons obj objs)
  obtain e d where obj: "obj = (e, d)" by (cases obj)
  show ?case
  proof (cases "find_monitored m e")
    case None
    with Cons.IH [of "set_add e acc" "dict_set (py_lower e) e (dict_set e e n2e)"] show ?thesis
      by (auto simp: obj monitored_sources_def)
  next
    case (Some n)
    have "node_of m (mn_id n) = Some n"
      by (rule find_monitored_node [OF assms(1,2) Some])
    from collect_property_source_mappings_correct [OF disjI2 [OF conjI [OF assms(1,3)]] this refl, of d]
    obtain mp where mp: "collect_property_source_mappings m n d = Some mp"
      "fst ` set mp = fst ` found_below m (max 0 d) (mn_id n, 0)" by blast
    let ?n2e = "dict_merge (dict_merge n2e mp) (lower_keys mp)"
    have keys: "set acc \<subseteq> fst ` set n2e \<Longrightarrow> set (set_union acc (dict_keys mp)) \<subseteq> fst ` set ?n2e"
      by (auto simp: set_keys_merge)
    have "monitored_sources m obj = fst ` set mp"
      using Some mp(2) by (simp add: obj monitored_sources_def)
    moreover have "resolve_loop m (obj # objs) acc n2e = resolve_loop m objs (set_union acc (dict_keys mp)) ?n2e"
      using Some mp(1) by (simp add: obj)
    moreover obtain ns n2e' where r: "resolve_loop m objs (set_union acc (dict_keys mp)) ?n2e = Some (ns, n2e')"
      "set ns = set (set_union acc (dict_keys mp)) \<union> (\<Union>obj \<in> set objs. monitored_sources m obj)"
      "distinct (set_union acc (dict_keys mp)) \<longrightarrow> distinct ns"
      "set (set_union acc (dict_keys mp)) \<subseteq> fst ` set ?n2e \<longrightarrow> set ns \<subseteq> fst ` set n2e'"
      using Cons.IH [of "set_union acc (dict_keys mp)" ?n2e] by blast
    ultimately show ?thesis
      using keys by (intro exI [of _ ns] exI [of _ n2e']) auto
  qed
qed

section \<open>Properties\<close>

text \<open>
  C6. Registration resolves: on a model whose browse tree has no cycle, the nodes monitored for a
  set of registered elements are exactly the source nodes of the properties at or below the
  known elements within their depth limits, together with the unknown element ids themselves;
  the computation always returns, without duplicates, and every monitored node has an element
  to report under.
\<close>

theorem resolve_monitored_node_ids_correct:
  assumes "ids_ok m" "dict_ok (br_nodes_by_id m)" "tree_rank m h"
  shows "\<exists>ns n2e. resolve_monitored_node_ids objs m = Some (ns, n2e)
    \<and> set ns = (\<Union>obj \<in> set objs. monitored_sources m obj)
    \<and> distinct ns \<and> set ns \<subseteq> fst ` set n2e"
  unfolding resolve_monitored_node_ids_def
  using resolve_loop_correct [OF assms, of objs "[]" "[]"] by auto

text \<open>A two-level model: an asset with one property.\<close>

definition sample_node :: "string \<Rightarrow> NodeKind \<Rightarrow> string \<Rightarrow> ModelNode" where
  "sample_node i k src =
     \<lparr>mn_id = i, mn_name = i, mn_kind = k, mn_type = None, mn_children = [], mn_source_node_id = src,
      mn_source_type_id = None, mn_parent_id = None, mn_is_composition = False,
      mn_semantic_role = RoleUnknown, mn_mapping_confidence = Medium, mn_relationships = [],
      mn_metadata = []\<rparr>"

definition sample_model :: "(string, ModelNode) dict \<Rightarrow> (string, string list) dict \<Rightarrow> BuildResult" where
  "sample_model nodes children =
     \<lparr>br_nodes_by_id = nodes, br_root_ids = [], br_children_by_id = children,
      br_instances_by_type_id = [], br_property_to_node = [], br_action_to_method = [],
      br_parent_by_id = [], br_node_id_by_name = [], br_node_id_by_type = [],
      br_hierarchy_children_by_id = [], br_composition_children_by_id = [],
      br_graph_related_by_id = [], br_relationships_by_id = [], br_hierarchy_parent_by_id = [],
      br_composition_parent_by_id = [], br_graph_relationship_names = [],
      br_graph_relationship_namespace_by_id = [], br_graph_relationship_display_name_by_id = [],
      br_semantic_role_by_id = [], br_mapping_confidence_by_id = [], br_parent_id_by_id = [],
      br_applied_profile_ids_by_id = [], br_namespace_uri_by_id = [], br_element_id_by_node_id = [],
      br_element_id_by_expanded_node_id = [], br_namespace_uri_by_index = []\<rparr>"

definition pump_model :: BuildResult where
  "pump_model = sample_model
     [(''a'', sample_node ''a'' Asset ''ns=1;i=1''), (''p'', sample_node ''p'' Property ''ns=1;i=2'')]
     [(''a'', [''p''])]"

lemma pump_model_ok:
  "ids_ok pump_model" "dict_ok (br_nodes_by_id pump_model)"
  "tree_rank pump_model (\<lambda>i. if i = ''a'' then 1 else 0)"
  by (auto simp: pump_model_def sample_model_def sample_node_def ids_ok_def tree_rank_def
      children_of_def dict_get_def_def)

theorem resolve_monitored_node_ids_correct_witness:
  "\<exists>ns n2e. resolve_monitored_node_ids [(''a'', 0)] pump_model = Some (ns, n2e)
    \<and> set ns = (\<Union>obj \<in> set [(''a'', 0)]. monitored_sources pump_model obj)
    \<and> distinct ns \<and> set ns \<subseteq> fst ` set n2e"
  by (rule resolve_monitored_node_ids_correct [OF pump_model_ok])

end
