(* ===== verification/Subscriptions.thy ===== *)
theory Subscriptions
  imports Registry Resolve
begin

text \<open>
  The operations of \<open>SubscriptionService\<close>,
  \<open>i3x_server/infrastructure/subscriptions/service.py\<close>. A handler that releases the lock
  between its sections is the composition of the definitions of its sections, in order;
  \<open>register_items\<close> and \<open>unregister_items\<close> may not return when the model has a cycle of
  children, and then are \<open>None\<close>.
\<close>

section \<open>Lookups and background tasks\<close>

text \<open>The guard \<open>state is None or (client_id is not None and state.client_id != client_id)\<close>.\<close>

definition scoped :: "string option \<Rightarrow> string \<Rightarrow> service \<Rightarrow> SubscriptionState option" where
  "scoped client_id subscription_id sv =
     (case dict_get (sv_subscriptions sv) subscription_id of
        None \<Rightarrow> None
      | Some st \<Rightarrow> if client_id \<noteq> None \<and> ss_client_id st \<noteq> client_id then None else Some st)"

definition upd_sub :: "string \<Rightarrow> (SubscriptionState \<Rightarrow> SubscriptionState) \<Rightarrow> service \<Rightarrow> service" where
  "upd_sub sid f sv =
     (case dict_get (sv_subscriptions sv) sid of
        None \<Rightarrow> sv
      | Some st \<Rightarrow> sv\<lparr>sv_subscriptions := dict_set sid (f st) (sv_subscriptions sv)\<rparr>)"

definition touch :: "env \<Rightarrow> string \<Rightarrow> service \<Rightarrow> service" where
  "touch E sid sv =
     (let (now, sv1) = now_monotonic E sv
      in upd_sub sid (\<lambda>st. st\<lparr>ss_last_activity_monotonic := now\<rparr>) sv1)"

definition ensure_cleanup_task :: "service \<Rightarrow> service" where
  "ensure_cleanup_task sv =
     sv\<lparr>sv_tasks := set_add SharedPollingTask (set_add NodeDatachangeTask
          (set_add DatachangeTask (set_add CleanupTask (sv_tasks sv))))\<rparr>"

section \<open>Scheduling data changes\<close>

text \<open>
  \<open>_enqueue_datachange\<close> and \<open>_enqueue_node_datachange\<close>: a full queue loses its oldest entry.
  The bound is at least 1000, so the entry always fits afterwards.
\<close>

definition enqueue_bounded :: "nat \<Rightarrow> 'a \<Rightarrow> 'a list \<Rightarrow> 'a list \<times> nat" where
  "enqueue_bounded maxsize x q =
     (let (q1, d1) = (if maxsize \<le> length q then (case q of [] \<Rightarrow> (q, 0) | _ # r \<Rightarrow> (r, 1)) else (q, 0))
      in if maxsize \<le> length q1 then (q1, d1 + 1) else (q1 @ [x], d1))"

definition enqueue_datachange ::
  "env \<Rightarrow> string \<Rightarrow> string \<Rightarrow> pyval \<Rightarrow> int option \<Rightarrow> service \<Rightarrow> service" where
  "enqueue_datachange E sid node_id v h sv =
     (let (q, d) = enqueue_bounded (c_queue_maxsize E) (sid, node_id, v, h) (sv_datachange_queue sv)
      in sv\<lparr>sv_datachange_queue := q,
            sv_dropped_datachange_events := sv_dropped_datachange_events sv + d\<rparr>)"

definition enqueue_node_datachange :: "env \<Rightarrow> string \<Rightarrow> pyval \<Rightarrow> service \<Rightarrow> service" where
  "enqueue_node_datachange E node_id v sv =
     (let (q, d) = enqueue_bounded (c_queue_maxsize E) (node_id, v) (sv_node_datachange_queue sv)
      in sv\<lparr>sv_node_datachange_queue := q,
            sv_dropped_datachange_events := sv_dropped_datachange_events sv + d\<rparr>)"

text \<open>
  Where a callback goes: onto the running loop when it is the service's loop (or the service has
  none yet), through \<open>call_soon_threadsafe\<close> when it comes from elsewhere, nowhere when there
  is no loop at all.
\<close>

definition target_loop :: "env \<Rightarrow> service \<Rightarrow> nat option" where
  "target_loop E sv =
     (case sv_event_loop sv of
        None \<Rightarrow> None
      | Some l \<Rightarrow> if e_loop_closed E (sv_tick sv) l then None else Some l)"

definition schedule_node_datachange :: "env \<Rightarrow> nat option \<Rightarrow> string \<Rightarrow> pyval \<Rightarrow> service \<Rightarrow> service" where
  "schedule_node_datachange E current_loop node_id v sv =
     (case (target_loop E sv, current_loop) of
        (None, Some l) \<Rightarrow>
          enqueue_node_datachange E node_id v (ensure_cleanup_task (sv\<lparr>sv_event_loop := Some l\<rparr>))
      | (None, None) \<Rightarrow> sv
      | (Some t, c) \<Rightarrow>
          if c = Some t then enqueue_node_datachange E node_id v (ensure_cleanup_task sv)
          else sv\<lparr>sv_pending_calls := sv_pending_calls sv @ [EnsureTasks, EnqueueNode node_id v]\<rparr>)"

definition schedule_datachange ::
  "env \<Rightarrow> nat option \<Rightarrow> string \<Rightarrow> string \<Rightarrow> pyval \<Rightarrow> int option \<Rightarrow> service \<Rightarrow> service" where
  "schedule_datachange E current_loop sid node_id v h sv =
     (case (target_loop E sv, current_loop) of
        (None, Some l) \<Rightarrow>
          enqueue_datachange E sid node_id v h (ensure_cleanup_task (sv\<lparr>sv_event_loop := Some l\<rparr>))
      | (None, None) \<Rightarrow> sv
      | (Some t, c) \<Rightarrow>
          if c = Some t then enqueue_datachange E sid node_id v h (ensure_cleanup_task sv)
          else sv\<lparr>sv_pending_calls := sv_pending_calls sv @ [EnsureTasks, Enqueue sid node_id v h]\<rparr>)"

text \<open>
  The two notification handlers. The node is its rendered id, or \<open>None\<close> when rendering raises;
  then \<open>_DataChangeHandler\<close> falls back on \<open>str(node)\<close> and \<open>_NodeDataChangeHandler\<close> drops the
  change. \<open>raw\<close> is the \<open>ClientHandle\<close> of the monitored item, if the notification has one.
\<close>

definition datachange_notification ::
  "env \<Rightarrow> nat option \<Rightarrow> string \<Rightarrow> string option \<Rightarrow> string \<Rightarrow> pyval \<Rightarrow> pyval option \<Rightarrow> service \<Rightarrow> service" where
  "datachange_notification E current_loop sid node node_str v raw sv =
     schedule_datachange E current_loop sid (case node of Some n \<Rightarrow> n | None \<Rightarrow> node_str) v
       (case raw of None \<Rightarrow> None | Some r \<Rightarrow> to_client_handle r) sv"

definition node_datachange_notification ::
  "env \<Rightarrow> nat option \<Rightarrow> string option \<Rightarrow> pyval \<Rightarrow> service \<Rightarrow> service" where
  "node_datachange_notification E current_loop node v sv =
     (case node of None \<Rightarrow> sv | Some n \<Rightarrow> schedule_node_datachange E current_loop n v sv)"

text \<open>The event loop runs the callbacks given to \<open>call_soon_threadsafe\<close> in order.\<close>

definition run_callback :: "env \<Rightarrow> service \<Rightarrow> service" where
  "run_callback E sv =
     (case sv_pending_calls sv of
        [] \<Rightarrow> sv
      | c # cs \<Rightarrow>
          (let sv1 = sv\<lparr>sv_pending_calls := cs\<rparr> in
           case c of
             EnsureTasks \<Rightarrow> ensure_cleanup_task sv1
           | EnqueueNode n v \<Rightarrow> enqueue_node_datachange E n v sv1
           | Enqueue s n v h \<Rightarrow> enqueue_datachange E s n v h sv1))"

section \<open>Delivering data changes\<close>

text \<open>The node an incoming change is booked on, \<open>None\<close> when \<open>handle_datachange\<close> ignores it.\<close>

definition resolved_node :: "SubscriptionState \<Rightarrow> string \<Rightarrow> int option \<Rightarrow> string option" where
  "resolved_node st node_id client_handle =
     (let r = (case client_handle of
                 None \<Rightarrow> node_id
               | Some h \<Rightarrow> dict_get_def (ss_handle_to_node_id st) h node_id);
          mapped = (case dict_get (ss_node_to_element_id st) r of
                      Some e \<Rightarrow> Some e
                    | None \<Rightarrow> dict_get (ss_node_to_element_id st) (py_lower r))
      in if r \<in> set (ss_monitored_node_ids st) then Some r
         else if mapped = None \<and> ss_monitored_node_ids st = [] then None
         else if length (ss_monitored_node_ids st) = 1 then Some (hd (ss_monitored_node_ids st))
         else if mapped = None then None else Some r)"

definition handle_datachange ::
  "env \<Rightarrow> string \<Rightarrow> string \<Rightarrow> pyval \<Rightarrow> int option \<Rightarrow> service \<Rightarrow> service" where
  "handle_datachange E sid node_id v client_handle sv =
     (case dict_get (sv_subscriptions sv) sid of
        None \<Rightarrow> sv
      | Some st \<Rightarrow>
          (case resolved_node st node_id client_handle of
             None \<Rightarrow> sv
           | Some r \<Rightarrow>
               upd_sub sid (\<lambda>st. (append_update (c_max_updates E) (e_utcnow E (sv_tick sv)) r v st)
                                   \<lparr>ss_native_timeout_count := 0\<rparr>) (tick sv)))"

definition fanout_node_value :: "env \<Rightarrow> string \<Rightarrow> pyval \<Rightarrow> service \<Rightarrow> service" where
  "fanout_node_value E node_id v sv =
     (let subscriber_ids = (case dict_get (sv_node_monitors sv) node_id of
                              None \<Rightarrow> [] | Some m \<Rightarrow> nm_subscriber_ids m)
      in foldl (\<lambda>sv sid. handle_datachange E sid node_id v None sv) sv subscriber_ids)"

text \<open>One turn of \<open>_datachange_loop\<close>, of \<open>_node_datachange_loop\<close> and of \<open>_shared_polling_loop\<close>.\<close>

definition datachange_loop_turn :: "env \<Rightarrow> service \<Rightarrow> service" where
  "datachange_loop_turn E sv =
     (case sv_datachange_queue sv of
        [] \<Rightarrow> sv
      | (sid, n, v, h) # q \<Rightarrow> handle_datachange E sid n v h (sv\<lparr>sv_datachange_queue := q\<rparr>))"

definition node_datachange_loop_turn :: "env \<Rightarrow> service \<Rightarrow> service" where
  "node_datachange_loop_turn E sv =
     (case sv_node_datachange_queue sv of
        [] \<Rightarrow> sv
      | (n, v) # q \<Rightarrow> fanout_node_value E n v (sv\<lparr>sv_node_datachange_queue := q\<rparr>))"

definition polling_node_ids :: "service \<Rightarrow> string list" where
  "polling_node_ids sv = sort (map fst (filter (\<lambda>(n, m). nm_mode m = Polling) (sv_node_monitors sv)))"

definition shared_polling_turn :: "env \<Rightarrow> service \<Rightarrow> service" where
  "shared_polling_turn E sv =
     (let node_ids = polling_node_ids sv in
      if node_ids = [] then sv
      else (case e_read_values E (sv_tick sv) node_ids of
              None \<Rightarrow> tick sv
            | Some values \<Rightarrow>
                foldl (\<lambda>sv (n, v). fanout_node_value E n v sv) (tick sv) (zip node_ids values)))"

text \<open>\<open>_refresh_changed_values\<close>: choose the nodes, read them, book what is still monitored.\<close>

definition refresh_apply :: "env \<Rightarrow> string \<Rightarrow> (string \<times> pyval) list \<Rightarrow> service \<Rightarrow> service" where
  "refresh_apply E sid pairs sv =
     (case dict_get (sv_subscriptions sv) sid of
        None \<Rightarrow> sv
      | Some st \<Rightarrow>
          touch E sid (foldl (\<lambda>sv (n, v).
              if n \<in> set (ss_monitored_node_ids st)
              then upd_sub sid (append_update (c_max_updates E) (e_utcnow E (sv_tick sv)) n v) (tick sv)
              else sv) sv pairs))"

definition refresh_changed_values :: "env \<Rightarrow> string \<Rightarrow> service \<Rightarrow> service" where
  "refresh_changed_values E sid sv =
     (case dict_get (sv_subscriptions sv) sid of
        None \<Rightarrow> sv
      | Some st \<Rightarrow>
          if ss_mode st = Idle \<or> ss_monitored_node_ids st = [] then sv
          else (let node_ids = sort (ss_monitored_node_ids st) in
                case e_read_values E (sv_tick sv) node_ids of
                  None \<Rightarrow> tick sv
                | Some values \<Rightarrow> refresh_apply E sid (zip node_ids values) (tick sv)))"

definition seed_initial_updates :: "env \<Rightarrow> string \<Rightarrow> service \<Rightarrow> service" where
  "seed_initial_updates E sid sv = (if c_seed_initial_values E then refresh_changed_values E sid sv else sv)"

section \<open>Mode and monitored nodes\<close>

text \<open>The mode and interval \<open>_update_subscription_mode\<close> computes from the monitors.\<close>

definition derived_mode :: "service \<Rightarrow> string list \<Rightarrow> mode \<times> real option" where
  "derived_mode sv node_ids =
     (if node_ids = [] then (Idle, None)
      else if list_all (\<lambda>n. fst (node_status sv n) = Native) node_ids
      then (Native,
            (case [r. n \<leftarrow> node_ids, Some r \<leftarrow> [snd (node_status sv n)]] of
               [] \<Rightarrow> None | x # xs \<Rightarrow> Some (foldl min x xs)))
      else (Polling, None))"

definition update_subscription_mode :: "string \<Rightarrow> service \<Rightarrow> service" where
  "update_subscription_mode sid sv =
     upd_sub sid (\<lambda>st. let (md, r) = derived_mode sv (ss_monitored_node_ids st)
                       in st\<lparr>ss_mode := md, ss_native_refresh_interval_seconds := r\<rparr>) sv"

definition apply_monitored_node_diff ::
  "env \<Rightarrow> string \<Rightarrow> string list \<Rightarrow> string list \<Rightarrow> service \<Rightarrow> service" where
  "apply_monitored_node_diff E sid previous_node_ids new_node_ids sv =
     (let removed = set_diff previous_node_ids new_node_ids;
          added = set_diff new_node_ids previous_node_ids;
          sv1 = foldl (\<lambda>sv n. release_node_monitor E n sid sv) sv removed;
          sv2 = foldl (\<lambda>sv n. acquire_node_monitor E n sid sv) sv1 added
      in seed_initial_updates E sid (update_subscription_mode sid sv2))"

text \<open>The state object stays visible only as long as it is registered.\<close>

definition release_all_nodes :: "env \<Rightarrow> SubscriptionState \<Rightarrow> service \<Rightarrow> service" where
  "release_all_nodes E st sv =
     upd_sub (ss_subscription_id st)
       (\<lambda>st. st\<lparr>ss_mode := Idle, ss_native_refresh_interval_seconds := None\<rparr>)
       (foldl (\<lambda>sv n. release_node_monitor E n (ss_subscription_id st) sv) sv (ss_monitored_node_ids st))"

section \<open>Client operations\<close>

record SubscriptionDetail =
  sd_subscription_id :: string
  sd_client_id :: "string option"
  sd_display_name :: "string option"
  sd_monitored_objects :: "(string \<times> int) list"
  sd_mode :: mode

definition to_detail :: "SubscriptionState \<Rightarrow> SubscriptionDetail" where
  "to_detail st =
     \<lparr>sd_subscription_id = ss_subscription_id st, sd_client_id = ss_client_id st,
      sd_display_name = ss_display_name st, sd_monitored_objects = ss_monitored_objects st,
      sd_mode = ss_mode st\<rparr>"

record SubscriptionDeleteResult =
  dr_success :: bool
  dr_subscription_id :: string
  dr_error :: "(int \<times> string) option"

definition sub_name :: "env \<Rightarrow> nat \<Rightarrow> string" where
  "sub_name E t = ''sub-'' @ e_uuid E t"

definition create_subscription ::
  "env \<Rightarrow> string option \<Rightarrow> string option \<Rightarrow> service \<Rightarrow> SubscriptionDetail \<times> service" where
  "create_subscription E client_id display_name sv =
     (let sv0 = ensure_cleanup_task sv;
          sid = sub_name E (sv_tick sv0);
          (now, sv1) = now_monotonic E (tick sv0);
          st = new_subscription_state sid client_id display_name now
      in (to_detail st, sv1\<lparr>sv_subscriptions := dict_set sid st (sv_subscriptions sv1)\<rparr>))"

definition list_subscriptions ::
  "string option \<Rightarrow> string list option \<Rightarrow> service \<Rightarrow> SubscriptionDetail list" where
  "list_subscriptions client_id subscription_ids sv =
     (let values = filter (\<lambda>st. client_id = None \<or> ss_client_id st = client_id)
                     (dict_values (sv_subscriptions sv));
          values = (case subscription_ids of
                      None \<Rightarrow> values
                    | Some ids \<Rightarrow> filter (\<lambda>st. ss_subscription_id st \<in> set ids) values)
      in map to_detail values)"

definition get_subscription :: "string \<Rightarrow> service \<Rightarrow> SubscriptionDetail option" where
  "get_subscription sid sv = map_option to_detail (dict_get (sv_subscriptions sv) sid)"

text \<open>The locked loop of \<open>delete_subscriptions\<close>: results, removed states and remaining service.\<close>

fun delete_loop ::
  "string option \<Rightarrow> string list \<Rightarrow> service
   \<Rightarrow> SubscriptionDeleteResult list \<times> SubscriptionState list \<times> service" where
  "delete_loop client_id [] sv = ([], [], sv)"
| "delete_loop client_id (sid # ids) sv =
     (case scoped client_id sid sv of
        None \<Rightarrow>
          (let (rs, removed, sv') = delete_loop client_id ids sv
           in (\<lparr>dr_success = False, dr_subscription_id = sid,
                dr_error = Some (404, ''Subscription not found'')\<rparr> # rs, removed, sv'))
      | Some st \<Rightarrow>
          (let (rs, removed, sv') =
                 delete_loop client_id ids (sv\<lparr>sv_subscriptions := dict_del sid (sv_subscriptions sv)\<rparr>)
           in (\<lparr>dr_success = True, dr_subscription_id = sid, dr_error = None\<rparr> # rs,
               st\<lparr>ss_update_event := True\<rparr> # removed, sv')))"

definition delete_subscriptions ::
  "env \<Rightarrow> string option \<Rightarrow> string list \<Rightarrow> service \<Rightarrow> SubscriptionDeleteResult list \<times> service" where
  "delete_subscriptions E client_id subscription_ids sv =
     (let (rs, removed, sv1) = delete_loop client_id subscription_ids sv
      in (rs, foldl (\<lambda>sv st. release_all_nodes E st sv) sv1 removed))"

text \<open>
  The locked section of \<open>register_items\<close> and \<open>unregister_items\<close> after the objects are resolved:
  new maps, stale last values forgotten, activity noted.
\<close>

definition register_commit ::
  "env \<Rightarrow> string \<Rightarrow> (string, int) dict \<Rightarrow> string list \<Rightarrow> (string, string) dict \<Rightarrow> service \<Rightarrow> service" where
  "register_commit E sid objects node_ids n2e sv =
     touch E sid (upd_sub sid (\<lambda>st. st\<lparr>ss_monitored_objects := objects,
         ss_monitored_node_ids := node_ids, ss_node_to_element_id := n2e,
         ss_last_values_by_node_id :=
           filter (\<lambda>(n, v). n \<in> set node_ids) (ss_last_values_by_node_id st)\<rparr>) sv)"

definition register_objects :: "string list \<Rightarrow> int \<Rightarrow> (string, int) dict \<Rightarrow> (string, int) dict" where
  "register_objects element_ids max_depth d = foldl (\<lambda>d e. dict_set e max_depth d) d element_ids"

definition unregister_objects :: "string list \<Rightarrow> (string, int) dict \<Rightarrow> (string, int) dict" where
  "unregister_objects element_ids d = foldl (\<lambda>d e. dict_del e d) d element_ids"

definition register_items ::
  "env \<Rightarrow> string option \<Rightarrow> string \<Rightarrow> string list \<Rightarrow> int \<Rightarrow> BuildResult \<Rightarrow> service \<Rightarrow> (bool \<times> service) option" where
  "register_items E client_id sid element_ids max_depth model sv =
     (let sv0 = ensure_cleanup_task sv in
      case scoped client_id sid sv0 of
        None \<Rightarrow> Some (False, sv0)
      | Some st \<Rightarrow>
          (let objects = register_objects element_ids max_depth (ss_monitored_objects st) in
           case resolve_monitored_node_ids objects model of
             None \<Rightarrow> None
           | Some (node_ids, n2e) \<Rightarrow>
               Some (True, apply_monitored_node_diff E sid (ss_monitored_node_ids st) node_ids
                             (register_commit E sid objects node_ids n2e sv0))))"

definition unregister_items ::
  "env \<Rightarrow> string option \<Rightarrow> string \<Rightarrow> string list \<Rightarrow> BuildResult \<Rightarrow> service \<Rightarrow> (bool \<times> service) option" where
  "unregister_items E client_id sid element_ids model sv =
     (let sv0 = ensure_cleanup_task sv in
      case scoped client_id sid sv0 of
        None \<Rightarrow> Some (False, sv0)
      | Some st \<Rightarrow>
          (let objects = unregister_objects element_ids (ss_monitored_objects st) in
           case resolve_monitored_node_ids objects model of
             None \<Rightarrow> None
           | Some (node_ids, n2e) \<Rightarrow>
               Some (True, apply_monitored_node_diff E sid (ss_monitored_node_ids st) node_ids
                             (register_commit E sid objects node_ids n2e sv0))))"

section \<open>Sync\<close>

definition sync_begin :: "env \<Rightarrow> string \<Rightarrow> int option \<Rightarrow> service \<Rightarrow> bool \<times> service" where
  "sync_begin E sid ack sv =
     (let sv1 = upd_sub sid (acknowledge ack) sv in
      (case dict_get (sv_subscriptions sv1) sid of
         None \<Rightarrow> False
       | Some st \<Rightarrow> ack = None \<and> ss_updates st = [] \<and> ss_monitored_node_ids st \<noteq> [],
       touch E sid sv1))"

definition sync_collect ::
  "env \<Rightarrow> string option \<Rightarrow> string \<Rightarrow> service \<Rightarrow> SubscriptionSyncResult option \<times> service" where
  "sync_collect E client_id sid sv =
     (case scoped client_id sid sv of
        None \<Rightarrow> (None, sv)
      | Some st \<Rightarrow> (Some (fst (collect_result st)), touch E sid (upd_sub sid (\<lambda>st. snd (collect_result st)) sv)))"

definition sync ::
  "env \<Rightarrow> string option \<Rightarrow> string \<Rightarrow> int option \<Rightarrow> bool \<Rightarrow> service
   \<Rightarrow> SubscriptionSyncResult option \<times> service" where
  "sync E client_id sid ack allow_when_stream_active sv =
     (let sv0 = ensure_cleanup_task sv in
      case scoped client_id sid sv0 of
        None \<Rightarrow> (None, sv0)
      | Some st \<Rightarrow>
          if ss_stream_connected st \<and> \<not> allow_when_stream_active
          then (Some \<lparr>sr_updates = [], sr_queue_overflow = False, sr_dropped_from_sequence = None,
                      sr_dropped_to_sequence = None, sr_stream_active = True\<rparr>, sv0)
          else (let (should_refresh, sv1) = sync_begin E sid ack sv0;
                    sv2 = (if should_refresh then refresh_changed_values E sid sv1 else sv1)
                in sync_collect E client_id sid sv2))"

section \<open>Streams\<close>

definition activate_stream ::
  "env \<Rightarrow> string option \<Rightarrow> string \<Rightarrow> service \<Rightarrow> int option \<times> service" where
  "activate_stream E client_id sid sv =
     (let sv0 = ensure_cleanup_task sv in
      case scoped client_id sid sv0 of
        None \<Rightarrow> (None, sv0)
      | Some st \<Rightarrow>
          (Some (ss_active_stream_generation st + 1),
           upd_sub sid (\<lambda>st. st\<lparr>ss_update_event := True\<rparr>)
             (touch E sid (upd_sub sid (\<lambda>st. st\<lparr>
                ss_active_stream_generation := ss_active_stream_generation st + 1,
                ss_stream_connected := True\<rparr>) sv0))))"

definition deactivate_stream :: "env \<Rightarrow> string \<Rightarrow> int \<Rightarrow> service \<Rightarrow> service" where
  "deactivate_stream E sid generation sv =
     (case dict_get (sv_subscriptions sv) sid of
        None \<Rightarrow> sv
      | Some st \<Rightarrow>
          if ss_active_stream_generation st = generation
          then touch E sid (upd_sub sid (\<lambda>st. st\<lparr>ss_stream_connected := False\<rparr>) sv)
          else sv)"

definition has_active_stream :: "string option \<Rightarrow> string \<Rightarrow> service \<Rightarrow> bool option" where
  "has_active_stream client_id sid sv = map_option ss_stream_connected (scoped client_id sid sv)"

definition is_stream_active :: "string \<Rightarrow> int \<Rightarrow> service \<Rightarrow> bool" where
  "is_stream_active sid generation sv =
     (case dict_get (sv_subscriptions sv) sid of
        None \<Rightarrow> False | Some st \<Rightarrow> ss_active_stream_generation st = generation)"

definition service_updates_after :: "string \<Rightarrow> int \<Rightarrow> service \<Rightarrow> SubscriptionUpdate list option" where
  "service_updates_after sid after sv =
     map_option (\<lambda>st. updates_after st after) (dict_get (sv_subscriptions sv) sid)"

subsection \<open>Waiting\<close>

text \<open>
  \<open>wait_for_updates\<close> blocks between its first section and the rest, so it is two definitions:
  what the first section decides, and what happens once the wait is over. The service may have
  changed arbitrarily in between. \<open>WaitPending r t\<close> keeps \<open>should_refresh_after_timeout\<close> and
  \<open>refresh_timeout_threshold\<close>.
\<close>

datatype wait_state = WaitGone | WaitReady "SubscriptionUpdate list" | WaitPending bool int

datatype wakeup = Timeout | Woken

definition refresh_threshold :: "env \<Rightarrow> SubscriptionState \<Rightarrow> int \<Rightarrow> int" where
  "refresh_threshold E st timeout_seconds =
     (let interval = (case ss_native_refresh_interval_seconds st of
                        Some r \<Rightarrow> if r = 0 then c_interval_seconds E else r
                      | None \<Rightarrow> c_interval_seconds E)
      in max 1 \<lceil>interval / max (1 / 1000) (of_int timeout_seconds)\<rceil>)"

definition wait_begin ::
  "env \<Rightarrow> string option \<Rightarrow> string \<Rightarrow> int \<Rightarrow> int \<Rightarrow> service \<Rightarrow> wait_state \<times> service" where
  "wait_begin E client_id sid after timeout_seconds sv =
     (let sv0 = ensure_cleanup_task sv in
      case scoped client_id sid sv0 of
        None \<Rightarrow> (WaitGone, sv0)
      | Some st \<Rightarrow>
          (let sv1 = touch E sid sv0; current = updates_after st after in
           if current \<noteq> [] then
             (WaitReady current, upd_sub sid (\<lambda>st. st\<lparr>ss_native_timeout_count := 0\<rparr>) sv1)
           else
             (let should_refresh = (ss_mode st = Native \<and> ss_monitored_node_ids st \<noteq> []
                                    \<and> c_refresh_mode E \<noteq> Strict);
                  threshold = (if should_refresh \<and> c_refresh_mode E = Adaptive
                               then refresh_threshold E st timeout_seconds else 1)
              in (WaitPending should_refresh threshold,
                  upd_sub sid (\<lambda>st. st\<lparr>ss_update_event := False\<rparr>) sv1))))"

text \<open>The count of a timeout, and whether it triggers the refresh.\<close>

definition count_timeout :: "env \<Rightarrow> bool \<Rightarrow> int \<Rightarrow> SubscriptionState \<Rightarrow> bool \<times> SubscriptionState" where
  "count_timeout E should_refresh threshold st =
     (if \<not> should_refresh then (False, st)
      else (let n = ss_native_timeout_count st + 1;
                fire = (if c_refresh_mode E = Adaptive then int n \<ge> threshold else True)
            in (fire, st\<lparr>ss_native_timeout_count := (if fire then 0 else n)\<rparr>)))"

definition wait_result ::
  "env \<Rightarrow> string option \<Rightarrow> string \<Rightarrow> int \<Rightarrow> service \<Rightarrow> SubscriptionUpdate list option \<times> service" where
  "wait_result E client_id sid after sv =
     (case scoped client_id sid sv of
        None \<Rightarrow> (None, sv)
      | Some st \<Rightarrow> (Some (updates_after st after), touch E sid sv))"

definition wait_finish ::
  "env \<Rightarrow> string option \<Rightarrow> string \<Rightarrow> int \<Rightarrow> bool \<Rightarrow> int \<Rightarrow> wakeup \<Rightarrow> service
   \<Rightarrow> SubscriptionUpdate list option \<times> service" where
  "wait_finish E client_id sid after should_refresh threshold w sv =
     (if sv_shutdown sv then (None, sv)
      else case scoped client_id sid sv of
        None \<Rightarrow> (None, sv)
      | Some st \<Rightarrow>
          (case w of
             Timeout \<Rightarrow>
               (let (fire, st1) = count_timeout E should_refresh threshold st;
                    sv1 = upd_sub sid (\<lambda>_. st1) sv;
                    sv2 = (if fire then refresh_changed_values E sid sv1 else sv1)
                in wait_result E client_id sid after sv2)
           | Woken \<Rightarrow>
               wait_result E client_id sid after (upd_sub sid (\<lambda>st. st\<lparr>ss_native_timeout_count := 0\<rparr>) sv)))"

section \<open>Expiry, reconnect and shutdown\<close>

definition stale_ids :: "env \<Rightarrow> real \<Rightarrow> service \<Rightarrow> string list" where
  "stale_ids E now sv = map ss_subscription_id
     (filter (\<lambda>st. now - ss_last_activity_monotonic st \<ge> of_int (c_ttl_seconds E)) (dict_values (sv_subscriptions sv)))"

fun expire_loop :: "string list \<Rightarrow> service \<Rightarrow> SubscriptionState list \<times> service" where
  "expire_loop [] sv = ([], sv)"
| "expire_loop (sid # ids) sv =
     (case dict_get (sv_subscriptions sv) sid of
        None \<Rightarrow> expire_loop ids sv
      | Some st \<Rightarrow>
          (let (removed, sv') = expire_loop ids (sv\<lparr>sv_subscriptions := dict_del sid (sv_subscriptions sv)\<rparr>)
           in (st\<lparr>ss_update_event := True\<rparr> # removed, sv')))"

definition expire_subscriptions :: "env \<Rightarrow> service \<Rightarrow> service" where
  "expire_subscriptions E sv =
     (let (now, sv1) = now_monotonic E sv;
          (removed, sv2) = expire_loop (stale_ids E now sv1) sv1
      in foldl (\<lambda>sv st. release_all_nodes E st sv) sv2 removed)"

text \<open>
  \<open>_handle_client_reconnect\<close>: the section that compares every bin with what the client still
  monitors, then the deletions, the re-admissions and the modes.
\<close>

fun mark_lost :: "string \<Rightarrow> string list \<Rightarrow> service \<Rightarrow> string list \<times> service" where
  "mark_lost bin_id [] sv = ([], sv)"
| "mark_lost bin_id (n # ns) sv =
     (case dict_get (sv_node_monitors sv) n of
        None \<Rightarrow> mark_lost bin_id ns sv
      | Some m \<Rightarrow>
          if nm_bin_id m = Some bin_id then
            (let (lost, sv') = mark_lost bin_id ns (set_monitor (m\<lparr>nm_bin_id := None, nm_mode := Idle\<rparr>) sv)
             in (n # lost, sv'))
          else mark_lost bin_id ns sv)"

definition resync_bin ::
  "env \<Rightarrow> string \<Rightarrow> ManagedBin \<Rightarrow> service \<Rightarrow> ManagedBin list \<times> string list \<times> service" where
  "resync_bin E bin_id b sv =
     (let node_ids = dict_keys (mb_node_handles b);
          handles = e_item_handles E (sv_tick sv) (us_id (mb_ua_subscription b)) node_ids;
          missing = (case handles of
                       None \<Rightarrow> node_ids
                     | Some h \<Rightarrow> filter (\<lambda>n. n \<notin> set (dict_keys h)) node_ids);
          (dead, sv1) = (case handles of
             Some (kv # h) \<Rightarrow>
               ([], (tick sv)\<lparr>sv_bins := dict_set bin_id (b\<lparr>mb_node_handles := kv # h\<rparr>) (sv_bins sv)\<rparr>)
           | _ \<Rightarrow> ([b], (tick sv)\<lparr>sv_bins := dict_del bin_id (sv_bins sv)\<rparr>));
          (lost, sv2) = mark_lost bin_id missing sv1
      in (dead, lost, sv2))"

fun resync_bins ::
  "env \<Rightarrow> (string \<times> ManagedBin) list \<Rightarrow> service \<Rightarrow> ManagedBin list \<times> string list \<times> service" where
  "resync_bins E [] sv = ([], [], sv)"
| "resync_bins E ((i, b) # bs) sv =
     (let (dead, lost, sv1) = resync_bin E i b sv;
          (dead', lost', sv2) = resync_bins E bs sv1
      in (dead @ dead', lost @ lost', sv2))"

definition readmit :: "env \<Rightarrow> string \<Rightarrow> service \<Rightarrow> service" where
  "readmit E n sv =
     (case dict_get (sv_node_monitors sv) n of
        None \<Rightarrow> sv
      | Some m \<Rightarrow> if nm_mode m \<noteq> Idle then sv else start_node_monitor_runtime E m sv)"

definition handle_client_reconnect :: "env \<Rightarrow> service \<Rightarrow> service" where
  "handle_client_reconnect E sv =
     (let (dead, lost, sv1) = resync_bins E (sv_bins sv) sv;
          sv2 = foldl (\<lambda>sv b. snd (ua_delete E (mb_ua_subscription b) sv)) sv1 dead;
          sv3 = foldl (\<lambda>sv n. readmit E n sv) sv2 (sort lost)
      in foldl (\<lambda>sv sid. update_subscription_mode sid sv) sv3 (dict_keys (sv_subscriptions sv3)))"

definition wake_all :: "service \<Rightarrow> service" where
  "wake_all sv = sv\<lparr>sv_subscriptions :=
     map (\<lambda>(k, st). (k, st\<lparr>ss_update_event := True\<rparr>)) (sv_subscriptions sv)\<rparr>"

definition initiate_shutdown :: "service \<Rightarrow> service" where
  "initiate_shutdown sv = wake_all (sv\<lparr>sv_shutdown := True\<rparr>)"

definition close_service :: "env \<Rightarrow> service \<Rightarrow> service" where
  "close_service E sv =
     (let sv1 = foldl (\<lambda>sv st. release_all_nodes E st
                   (upd_sub (ss_subscription_id st) (\<lambda>st. st\<lparr>ss_update_event := True\<rparr>) sv))
                 (sv\<lparr>sv_shutdown := True\<rparr>) (dict_values (sv_subscriptions sv))
      in sv1\<lparr>sv_subscriptions := [], sv_tasks := [], sv_reconnect_listener := False\<rparr>)"

end
