(* ===== verification/ServiceInv.thy ===== *)
theory ServiceInv
  imports Subscriptions
begin

text \<open>
  The invariant of \<open>SubscriptionService\<close> between handlers, and that every handler keeps it:
  node monitors are reference counted exactly, none is idle, every queue is a bounded gap-free
  block of sequence numbers, and the mode of a subscription is the one its monitors give it.
\<close>

section \<open>The invariant\<close>

text \<open>
  What the theorems assume of the environment: \<open>uuid4\<close> never repeats, the queue bound is what
  \<open>__init__\<close> makes of it, and \<open>get_monitored_item_handles\<close> answers about the nodes it was asked
  for.
\<close>

definition env_ok :: "env \<Rightarrow> bool" where
  "env_ok E \<longleftrightarrow> inj (e_uuid E) \<and> 1 \<le> c_max_updates E
     \<and> (\<forall>t u ns h. e_item_handles E t u ns = Some h \<longrightarrow> dict_ok h \<and> fst ` set h \<subseteq> set ns)"

definition sub_ok :: "env \<Rightarrow> nat \<Rightarrow> string \<Rightarrow> SubscriptionState \<Rightarrow> bool" where
  "sub_ok E t sid st \<longleftrightarrow> ss_subscription_id st = sid \<and> queue_inv (c_max_updates E) st
     \<and> distinct (ss_monitored_node_ids st) \<and> (\<exists>k < t. sid = sub_name E k)"

definition mode_ok :: "service \<Rightarrow> SubscriptionState \<Rightarrow> bool" where
  "mode_ok sv st \<longleftrightarrow>
     (ss_mode st, ss_native_refresh_interval_seconds st) = derived_mode sv (ss_monitored_node_ids st)"

definition monitoring :: "service \<Rightarrow> string \<Rightarrow> string set" where
  "monitoring sv n = {sid. \<exists>st. dict_get (sv_subscriptions sv) sid = Some st \<and> n \<in> set (ss_monitored_node_ids st)}"

text \<open>Everything but the modes and the reference counts.\<close>

definition service_core :: "env \<Rightarrow> service \<Rightarrow> bool" where
  "service_core E sv \<longleftrightarrow> env_ok E \<and> registry_inv E sv \<and> dict_ok (sv_subscriptions sv)
     \<and> (\<forall>sid st. dict_get (sv_subscriptions sv) sid = Some st \<longrightarrow> sub_ok E (sv_tick sv) sid st)"

text \<open>
  The invariant while the nodes of the removed subscriptions \<open>R\<close> are still to be released, and
  the invariant between handlers.
\<close>

definition pending_watch :: "SubscriptionState list \<Rightarrow> string \<Rightarrow> string set" where
  "pending_watch R n = {ss_subscription_id st |st. st \<in> set R \<and> n \<in> set (ss_monitored_node_ids st)}"

lemma pending_watch_simps [simp]:
  "pending_watch [] n = {}"
  "pending_watch (st # R) n =
     (if n \<in> set (ss_monitored_node_ids st) then {ss_subscription_id st} else {}) \<union> pending_watch R n"
  by (auto simp: pending_watch_def)

definition service_inv_pending :: "env \<Rightarrow> SubscriptionState list \<Rightarrow> service \<Rightarrow> bool" where
  "service_inv_pending E R sv \<longleftrightarrow> service_core E sv \<and> all_started sv
     \<and> (\<forall>sid st. dict_get (sv_subscriptions sv) sid = Some st \<longrightarrow> mode_ok sv st)
     \<and> (\<forall>n. watchers sv n = monitoring sv n \<union> pending_watch R n)
     \<and> distinct (map ss_subscription_id R)
     \<and> (\<forall>st \<in> set R. dict_get (sv_subscriptions sv) (ss_subscription_id st) = None)"

definition service_inv :: "env \<Rightarrow> service \<Rightarrow> bool" where
  "service_inv E sv \<longleftrightarrow> service_inv_pending E [] sv"

lemma service_inv_iff:
  "service_inv E sv \<longleftrightarrow> service_core E sv \<and> all_started sv
     \<and> (\<forall>sid st. dict_get (sv_subscriptions sv) sid = Some st \<longrightarrow> mode_ok sv st)
     \<and> (\<forall>n. watchers sv n = monitoring sv n)"
  by (simp add: service_inv_def service_inv_pending_def)

lemma service_coreD:
  assumes "service_core E sv"
  shows "env_ok E" "registry_inv E sv" "dict_ok (sv_subscriptions sv)"
    "dict_get (sv_subscriptions sv) sid = Some st \<Longrightarrow> sub_ok E (sv_tick sv) sid st"
  using assms unfolding service_core_def by blast+

lemma service_invD:
  assumes "service_inv E sv"
  shows "service_core E sv" "all_started sv"
    "dict_get (sv_subscriptions sv) sid = Some st \<Longrightarrow> mode_ok sv st"
    "watchers sv n = monitoring sv n"
  using assms unfolding service_inv_iff by blast+

lemma sub_ok_mono: "sub_ok E t sid st \<Longrightarrow> t \<le> t' \<Longrightarrow> sub_ok E t' sid st"
  unfolding sub_ok_def by (meson less_le_trans)

lemma service_inv_new: "env_ok E \<Longrightarrow> service_inv E new_service"
  by (simp add: service_inv_iff service_core_def registry_inv_new env_ok_def all_started_def watchers_def
      monitoring_def) (simp add: new_service_def)

section \<open>Steps that leave the registry alone\<close>

lemma node_status_cong: "sv_node_monitors sv' = sv_node_monitors sv \<Longrightarrow> node_status sv' = node_status sv"
  by (simp add: node_status_def fun_eq_iff)

lemma derived_mode_cong:
  "(\<And>n. n \<in> set ns \<Longrightarrow> node_status sv' n = node_status sv n) \<Longrightarrow> derived_mode sv' ns = derived_mode sv ns"
  by (simp add: derived_mode_def list_all_iff cong: map_cong)

lemma mode_ok_cong: "sv_node_monitors sv' = sv_node_monitors sv \<Longrightarrow> mode_ok sv' st = mode_ok sv st"
  using derived_mode_cong [of "ss_monitored_node_ids st" sv' sv] node_status_cong [of sv' sv]
  by (simp add: mode_ok_def)

text \<open>A change of one subscription that leaves its identity, its nodes and its mode alone.\<close>

definition same_sub :: "env \<Rightarrow> SubscriptionState \<Rightarrow> SubscriptionState \<Rightarrow> bool" where
  "same_sub E st st' \<longleftrightarrow> ss_subscription_id st' = ss_subscription_id st
     \<and> ss_monitored_node_ids st' = ss_monitored_node_ids st \<and> ss_mode st' = ss_mode st
     \<and> ss_native_refresh_interval_seconds st' = ss_native_refresh_interval_seconds st
     \<and> ss_client_id st' = ss_client_id st
     \<and> (queue_inv (c_max_updates E) st \<longrightarrow> queue_inv (c_max_updates E) st')"

lemma same_sub_refl: "same_sub E st st"
  by (simp add: same_sub_def)

lemma same_sub_trans: "same_sub E a b \<Longrightarrow> same_sub E b c \<Longrightarrow> same_sub E a c"
  by (simp add: same_sub_def)

text \<open>A step that changes subscriptions only in this way and keeps the registry.\<close>

definition quiet_step :: "env \<Rightarrow> service \<Rightarrow> service \<Rightarrow> bool" where
  "quiet_step E sv sv' \<longleftrightarrow> sv_node_monitors sv' = sv_node_monitors sv \<and> sv_bins sv' = sv_bins sv
     \<and> sv_tick sv \<le> sv_tick sv' \<and> (dict_ok (sv_subscriptions sv) \<longrightarrow> dict_ok (sv_subscriptions sv'))
     \<and> (\<forall>sid. rel_option (same_sub E)
          (dict_get (sv_subscriptions sv) sid) (dict_get (sv_subscriptions sv') sid))"

lemma rel_option_same_refl: "rel_option (same_sub E) x x"
  by (cases x) (simp_all add: same_sub_refl)

lemma rel_option_same_trans:
  "rel_option (same_sub E) x y \<Longrightarrow> rel_option (same_sub E) y z \<Longrightarrow> rel_option (same_sub E) x z"
  by (cases x; cases y; cases z) (auto intro: same_sub_trans)

lemma quiet_step_refl: "quiet_step E sv sv"
  by (simp add: quiet_step_def rel_option_same_refl)

lemma quiet_step_trans: "quiet_step E a b \<Longrightarrow> quiet_step E b c \<Longrightarrow> quiet_step E a c"
  unfolding quiet_step_def by (metis (no_types) le_trans rel_option_same_trans)

lemma quiet_step_frame:
  assumes "sv_subscriptions sv' = sv_subscriptions sv" "sv_node_monitors sv' = sv_node_monitors sv"
    "sv_bins sv' = sv_bins sv" "sv_tick sv \<le> sv_tick sv'"
  shows "quiet_step E sv sv'"
  using assms by (simp add: quiet_step_def rel_option_same_refl)

lemma quiet_upd_sub: "(\<And>st. same_sub E st (f st)) \<Longrightarrow> quiet_step E sv (upd_sub sid f sv)"
  by (auto simp: quiet_step_def upd_sub_def rel_option_same_refl split: option.splits)

lemma quiet_step_foldl:
  "(\<And>x sv. x \<in> set xs \<Longrightarrow> quiet_step E sv (g sv x)) \<Longrightarrow> quiet_step E sv (foldl g sv xs)"
proof (induction xs arbitrary: sv)
  case (Cons x xs)
  then show ?case using quiet_step_trans [of E sv "g sv x"] by simp
qed (simp add: quiet_step_refl)

lemma quiet_step_get:
  assumes "quiet_step E sv sv'" "dict_get (sv_subscriptions sv') sid = Some st'"
  obtains st where "dict_get (sv_subscriptions sv) sid = Some st" "same_sub E st st'"
proof -
  have "rel_option (same_sub E) (dict_get (sv_subscriptions sv) sid) (Some st')"
    using assms unfolding quiet_step_def by metis
  then show thesis using that by (cases "dict_get (sv_subscriptions sv) sid") auto
qed

lemma quiet_step_put:
  assumes "quiet_step E sv sv'" "dict_get (sv_subscriptions sv) sid = Some st"
  obtains st' where "dict_get (sv_subscriptions sv') sid = Some st'" "same_sub E st st'"
proof -
  have "rel_option (same_sub E) (Some st) (dict_get (sv_subscriptions sv') sid)"
    using assms unfolding quiet_step_def by metis
  then show thesis using that by (cases "dict_get (sv_subscriptions sv') sid") auto
qed

lemma quiet_step_monitoring:
  assumes "quiet_step E sv sv'"
  shows "monitoring sv' n = monitoring sv n"
proof -
  have "sid \<in> monitoring sv n" if "sid \<in> monitoring sv' n" for sid
    using that assms by (auto simp: monitoring_def same_sub_def elim: quiet_step_get)
  moreover have "sid \<in> monitoring sv' n" if "sid \<in> monitoring sv n" for sid
    using that assms by (auto simp: monitoring_def same_sub_def elim: quiet_step_put)
  ultimately show ?thesis by blast
qed

lemma quiet_step_core:
  assumes q: "quiet_step E sv sv'" and c: "service_core E sv"
  shows "service_core E sv'"
proof -
  have f: "sv_node_monitors sv' = sv_node_monitors sv" "sv_bins sv' = sv_bins sv" "sv_tick sv \<le> sv_tick sv'"
    "dict_ok (sv_subscriptions sv')"
    using q service_coreD(3) [OF c] by (simp_all add: quiet_step_def)
  have "sub_ok E (sv_tick sv') sid st'" if s: "dict_get (sv_subscriptions sv') sid = Some st'" for sid st'
  proof -
    from quiet_step_get [OF q s] obtain st where
      st: "dict_get (sv_subscriptions sv) sid = Some st" "same_sub E st st'" .
    have "sub_ok E (sv_tick sv') sid st" using sub_ok_mono [OF service_coreD(4) [OF c st(1)] f(3)] .
    with st(2) show ?thesis by (simp add: sub_ok_def same_sub_def)
  qed
  then show ?thesis
    using service_coreD(1) [OF c] registry_inv_cong [OF service_coreD(2) [OF c] f(1-3)] f(4)
    unfolding service_core_def by blast
qed

lemma quiet_step_inv:
  assumes q: "quiet_step E sv sv'" and i: "service_inv E sv"
  shows "service_inv E sv'"
proof -
  have f: "sv_node_monitors sv' = sv_node_monitors sv" using q by (simp add: quiet_step_def)
  have "mode_ok sv' st'" if s: "dict_get (sv_subscriptions sv') sid = Some st'" for sid st'
  proof -
    from quiet_step_get [OF q s] obtain st where
      st: "dict_get (sv_subscriptions sv) sid = Some st" "same_sub E st st'" .
    from service_invD(3) [OF i st(1)] st(2) mode_ok_cong [OF f, of st] show ?thesis
      by (simp add: mode_ok_def same_sub_def)
  qed
  moreover have "all_started sv'" using service_invD(2) [OF i] f by (simp add: all_started_def)
  moreover have "watchers sv' n = monitoring sv' n" for n
    using service_invD(4) [OF i, of n] watchers_cong [OF f] quiet_step_monitoring [OF q] by simp
  ultimately show ?thesis
    using quiet_step_core [OF q service_invD(1) [OF i]] unfolding service_inv_iff by blast
qed

section \<open>The quiet operations\<close>

lemma ensure_frame [frame_simps, simp]:
  "sv_subscriptions (ensure_cleanup_task sv) = sv_subscriptions sv"
  "sv_node_monitors (ensure_cleanup_task sv) = sv_node_monitors sv"
  "sv_bins (ensure_cleanup_task sv) = sv_bins sv"
  "sv_tick (ensure_cleanup_task sv) = sv_tick sv"
  "sv_shutdown (ensure_cleanup_task sv) = sv_shutdown sv"
  by (simp_all add: ensure_cleanup_task_def)

lemma upd_sub_frame [frame_simps, simp]:
  "sv_node_monitors (upd_sub sid f sv) = sv_node_monitors sv"
  "sv_bins (upd_sub sid f sv) = sv_bins sv"
  "sv_tick (upd_sub sid f sv) = sv_tick sv"
  "sv_shutdown (upd_sub sid f sv) = sv_shutdown sv"
  "dict_get (sv_subscriptions (upd_sub sid f sv)) sid' =
     (if sid' = sid then map_option f (dict_get (sv_subscriptions sv) sid)
      else dict_get (sv_subscriptions sv) sid')"
  by (auto simp: upd_sub_def split: option.splits)

lemma upd_sub_None: "dict_get (sv_subscriptions sv) sid = None \<Longrightarrow> upd_sub sid f sv = sv"
  by (simp add: upd_sub_def)

lemma quiet_tick: "quiet_step E sv (tick sv)"
  by (rule quiet_step_frame) simp_all

lemma quiet_ensure: "quiet_step E sv (ensure_cleanup_task sv)"
  by (rule quiet_step_frame) simp_all

lemma same_sub_queue:
  "queue_inv m st \<Longrightarrow> ss_updates st' = ss_updates st \<Longrightarrow> ss_sequence_number st' = ss_sequence_number st \<Longrightarrow>
     ss_dropped_from_sequence st' = ss_dropped_from_sequence st \<Longrightarrow>
     ss_dropped_to_sequence st' = ss_dropped_to_sequence st \<Longrightarrow> queue_inv m st'"
  unfolding queue_inv_def queue_floor_def by (simp cong: option.case_cong)

lemma interval_frame [frame_simps, simp]:
  "ss_native_refresh_interval_seconds (append_update m ts n v st) = ss_native_refresh_interval_seconds st"
  "ss_native_refresh_interval_seconds (acknowledge a st) = ss_native_refresh_interval_seconds st"
  by (simp_all add: append_update_def drop_oldest_def acknowledge_def Let_def split: list.splits option.splits)

lemma same_sub_fields:
  "same_sub E st (st\<lparr>ss_last_activity_monotonic := x\<rparr>)"
  "same_sub E st (st\<lparr>ss_update_event := b\<rparr>)"
  "same_sub E st (st\<lparr>ss_native_timeout_count := k\<rparr>)"
  "same_sub E st (st\<lparr>ss_stream_connected := b\<rparr>)"
  "same_sub E st (st\<lparr>ss_active_stream_generation := g, ss_stream_connected := b\<rparr>)"
  by (auto simp: same_sub_def elim: same_sub_queue)

lemma same_sub_append: "same_sub E st (append_update (c_max_updates E) ts n v st)"
  using append_update_frame [of "c_max_updates E" ts n v st] append_update_inv [of "c_max_updates E" st]
  by (simp add: same_sub_def)

lemma same_sub_acknowledge: "same_sub E st (acknowledge a st)"
  using acknowledge_frame [of a st] acknowledge_inv [of "c_max_updates E" st a] by (simp add: same_sub_def)

lemma same_sub_collect: "same_sub E st (snd (collect_result st))"
  using collect_result_inv [of "c_max_updates E" st] by (simp add: same_sub_def) (simp add: collect_result_def)

lemma quiet_touch: "quiet_step E sv (touch E sid sv)"
proof -
  have "quiet_step E sv (tick (remember_event_loop E sv))" by (rule quiet_step_frame) simp_all
  then show ?thesis
    unfolding touch_def now_monotonic_def Let_def case_prod_conv
    by (rule quiet_step_trans) (rule quiet_upd_sub, rule same_sub_fields)
qed

lemma quiet_handle_datachange: "quiet_step E sv (handle_datachange E sid n v h sv)"
proof -
  have "quiet_step E sv (upd_sub sid (\<lambda>st. (append_update (c_max_updates E) ts r v st)
      \<lparr>ss_native_timeout_count := 0\<rparr>) (tick sv))" for ts r
    by (rule quiet_step_trans [OF quiet_tick], rule quiet_upd_sub, rule same_sub_trans [OF same_sub_append])
      (rule same_sub_fields)
  then show ?thesis
    by (simp add: handle_datachange_def quiet_step_refl split: option.splits)
qed

lemma quiet_fanout: "quiet_step E sv (fanout_node_value E n v sv)"
  unfolding fanout_node_value_def Let_def by (rule quiet_step_foldl) (rule quiet_handle_datachange)

lemma quiet_enqueue: "quiet_step E sv (enqueue_datachange E sid n v h sv)"
  "quiet_step E sv (enqueue_node_datachange E n v sv)"
  by (rule quiet_step_frame; simp add: enqueue_datachange_def enqueue_node_datachange_def case_prod_beta Let_def)+

lemma quiet_schedule: "quiet_step E sv (schedule_datachange E l sid n v h sv)"
  "quiet_step E sv (schedule_node_datachange E l n v sv)"
proof -
  have e: "quiet_step E sv (ensure_cleanup_task (sv\<lparr>sv_event_loop := x\<rparr>))" for x
    by (rule quiet_step_frame) simp_all
  have p: "quiet_step E sv (sv\<lparr>sv_pending_calls := x\<rparr>)" for x by (rule quiet_step_frame) simp_all
  note q = quiet_step_refl p quiet_step_trans [OF e quiet_enqueue(1)] quiet_step_trans [OF e quiet_enqueue(2)]
    quiet_step_trans [OF quiet_ensure quiet_enqueue(1)] quiet_step_trans [OF quiet_ensure quiet_enqueue(2)]
  show "quiet_step E sv (schedule_datachange E l sid n v h sv)"
    using q by (simp add: schedule_datachange_def split: option.splits)
  show "quiet_step E sv (schedule_node_datachange E l n v sv)"
    using q by (simp add: schedule_node_datachange_def split: option.splits)
qed

lemma quiet_run_callback: "quiet_step E sv (run_callback E sv)"
proof -
  have p: "quiet_step E sv (sv\<lparr>sv_pending_calls := x\<rparr>)" for x by (rule quiet_step_frame) simp_all
  show ?thesis
    using quiet_step_refl quiet_step_trans [OF p quiet_ensure] quiet_step_trans [OF p quiet_enqueue(1)]
      quiet_step_trans [OF p quiet_enqueue(2)]
    by (auto simp: run_callback_def Let_def split: list.splits callback.splits)
qed

lemma quiet_turns: "quiet_step E sv (datachange_loop_turn E sv)"
  "quiet_step E sv (node_datachange_loop_turn E sv)"
  "quiet_step E sv (shared_polling_turn E sv)"
proof -
  have p: "quiet_step E sv (sv\<lparr>sv_datachange_queue := x\<rparr>)" "quiet_step E sv (sv\<lparr>sv_node_datachange_queue := y\<rparr>)"
    for x y by (rule quiet_step_frame; simp)+
  show "quiet_step E sv (datachange_loop_turn E sv)"
    using quiet_step_refl quiet_step_trans [OF p(1) quiet_handle_datachange]
    by (auto simp: datachange_loop_turn_def split: list.splits)
  show "quiet_step E sv (node_datachange_loop_turn E sv)"
    using quiet_step_refl quiet_step_trans [OF p(2) quiet_fanout]
    by (auto simp: node_datachange_loop_turn_def split: list.splits)
  have "quiet_step E sv (foldl (\<lambda>sv (n, v). fanout_node_value E n v sv) (tick sv) xs)" for xs
    by (rule quiet_step_trans [OF quiet_tick], rule quiet_step_foldl) (simp add: case_prod_beta quiet_fanout)
  then show "quiet_step E sv (shared_polling_turn E sv)"
    using quiet_step_refl quiet_tick
    by (simp add: shared_polling_turn_def Let_def split: option.splits)
qed

lemma quiet_refresh_apply: "quiet_step E sv (refresh_apply E sid pairs sv)"
proof -
  have "quiet_step E sv (upd_sub sid (append_update (c_max_updates E) ts n v) (tick sv))" for sv ts n v
    by (rule quiet_step_trans [OF quiet_tick], rule quiet_upd_sub, rule same_sub_append)
  then have "quiet_step E sv (foldl (\<lambda>sv (n, v). if n \<in> A then upd_sub sid
      (append_update (c_max_updates E) (e_utcnow E (sv_tick sv)) n v) (tick sv) else sv) sv pairs)" for A
    by (intro quiet_step_foldl) (simp add: case_prod_beta quiet_step_refl)
  then show ?thesis
    using quiet_step_refl quiet_step_trans [OF _ quiet_touch]
    by (simp add: refresh_apply_def split: option.splits)
qed

lemma quiet_refresh: "quiet_step E sv (refresh_changed_values E sid sv)"
  using quiet_step_refl quiet_tick quiet_step_trans [OF quiet_tick quiet_refresh_apply]
  by (simp add: refresh_changed_values_def Let_def split: option.splits)

lemma quiet_seed: "quiet_step E sv (seed_initial_updates E sid sv)"
  by (simp add: seed_initial_updates_def quiet_refresh quiet_step_refl)

lemma quiet_sync: "quiet_step E sv (snd (sync E c sid ack allow sv))"
proof -
  have collect: "quiet_step E x (snd (sync_collect E c sid x))" for x
    using quiet_step_refl quiet_step_trans [OF quiet_upd_sub [OF same_sub_collect] quiet_touch]
    by (simp add: sync_collect_def split: option.splits)
  have start: "quiet_step E x (snd (sync_begin E sid ack x))" for x
    using quiet_step_trans [OF quiet_upd_sub [OF same_sub_acknowledge] quiet_touch]
    by (simp add: sync_begin_def Let_def)
  let ?s1 = "snd (sync_begin E sid ack (ensure_cleanup_task sv))"
  have 1: "quiet_step E sv ?s1" by (rule quiet_step_trans [OF quiet_ensure start])
  have 2: "quiet_step E sv (snd (sync_collect E c sid ?s1))" by (rule quiet_step_trans [OF 1 collect])
  have 3: "quiet_step E sv (snd (sync_collect E c sid (refresh_changed_values E sid ?s1)))"
    by (rule quiet_step_trans [OF quiet_step_trans [OF 1 quiet_refresh] collect])
  show ?thesis
    using 2 3 quiet_ensure by (simp add: sync_def Let_def case_prod_beta split: option.splits)
qed

lemma quiet_activate: "quiet_step E sv (snd (activate_stream E c sid sv))"
proof -
  have "quiet_step E x (upd_sub sid (\<lambda>st. st\<lparr>ss_update_event := True\<rparr>) (touch E sid
      (upd_sub sid (\<lambda>st. st\<lparr>ss_active_stream_generation := ss_active_stream_generation st + 1,
         ss_stream_connected := True\<rparr>) x)))" for x
    by (rule quiet_step_trans [OF quiet_step_trans [OF quiet_upd_sub quiet_touch] quiet_upd_sub])
      (rule same_sub_fields)+
  then show ?thesis
    using quiet_ensure quiet_step_trans [OF quiet_ensure]
    by (simp add: activate_stream_def Let_def split: option.splits)
qed

lemma quiet_deactivate: "quiet_step E sv (deactivate_stream E sid g sv)"
  using quiet_step_refl quiet_step_trans [OF quiet_upd_sub [OF same_sub_fields(4)] quiet_touch]
  by (simp add: deactivate_stream_def split: option.splits)

lemma quiet_wait_begin: "quiet_step E sv (snd (wait_begin E c sid after t sv))"
  using quiet_ensure quiet_step_trans [OF quiet_step_trans [OF quiet_ensure quiet_touch] quiet_upd_sub [OF same_sub_fields(2)]]
    quiet_step_trans [OF quiet_step_trans [OF quiet_ensure quiet_touch] quiet_upd_sub [OF same_sub_fields(3)]]
  by (simp add: wait_begin_def Let_def split: option.splits)

lemma same_sub_count: "same_sub E st (snd (count_timeout E r t st))"
  by (simp add: count_timeout_def Let_def same_sub_refl same_sub_fields)

lemma quiet_wait_finish: "quiet_step E sv (snd (wait_finish E c sid after r t w sv))"
proof -
  have res: "quiet_step E x (snd (wait_result E c sid after x))" for x
    by (simp add: wait_result_def quiet_step_refl quiet_touch split: option.splits)
  have cnt: "quiet_step E sv (upd_sub sid (\<lambda>_. snd (count_timeout E r t st)) sv)"
    if "scoped c sid sv = Some st" for st
  proof -
    have "dict_get (sv_subscriptions sv) sid = Some st"
      using that by (auto simp: scoped_def split: option.splits if_splits)
    then have e: "upd_sub sid (\<lambda>_. snd (count_timeout E r t st)) sv = upd_sub sid (\<lambda>st. snd (count_timeout E r t st)) sv"
      by (simp add: upd_sub_def)
    show ?thesis unfolding e by (rule quiet_upd_sub) (rule same_sub_count)
  qed
  have woken: "quiet_step E sv (snd (wait_result E c sid after
      (upd_sub sid (\<lambda>st. st\<lparr>ss_native_timeout_count := 0\<rparr>) sv)))"
    by (rule quiet_step_trans [OF quiet_upd_sub [OF same_sub_fields(3)] res])
  show ?thesis
  proof (cases "sv_shutdown sv \<or> scoped c sid sv = None")
    case True
    then show ?thesis by (auto simp: wait_finish_def quiet_step_refl)
  next
    case False
    then obtain st where st: "scoped c sid sv = Some st" by auto
    note q = cnt [OF st]
    have "quiet_step E sv (snd (wait_finish E c sid after r t Timeout sv))"
      using False st quiet_step_trans [OF q res] quiet_step_trans [OF quiet_step_trans [OF q quiet_refresh] res]
      by (simp add: wait_finish_def case_prod_beta Let_def)
    with False st woken show ?thesis by (cases w) (simp_all add: wait_finish_def)
  qed
qed

lemma quiet_shutdown: "quiet_step E sv (initiate_shutdown sv)"
proof -
  have f: "map fst (map (\<lambda>(k, st). (k, g st)) d) = map fst d"
    for g :: "SubscriptionState \<Rightarrow> SubscriptionState" and d :: "(string, SubscriptionState) dict"
    by (induction d) auto
  have "rel_option (same_sub E) x (map_option (\<lambda>st. st\<lparr>ss_update_event := True\<rparr>) x)" for x
    by (cases x) (simp_all add: same_sub_fields)
  then show ?thesis
    unfolding quiet_step_def initiate_shutdown_def wake_all_def
    by (simp add: map_of_map f del: map_map)
qed

section \<open>Releasing removed subscriptions\<close>

lemma pendingD:
  assumes "service_inv_pending E R sv"
  shows "service_core E sv" "all_started sv"
    "dict_get (sv_subscriptions sv) sid = Some st \<Longrightarrow> mode_ok sv st"
    "watchers sv n = monitoring sv n \<union> pending_watch R n"
    "distinct (map ss_subscription_id R)"
    "st \<in> set R \<Longrightarrow> dict_get (sv_subscriptions sv) (ss_subscription_id st) = None"
  using assms unfolding service_inv_pending_def by blast+

lemma monitoring_memI:
  "dict_get (sv_subscriptions sv) sid = Some st \<Longrightarrow> n \<in> set (ss_monitored_node_ids st) \<Longrightarrow> sid \<in> monitoring sv n"
  by (auto simp: monitoring_def)

lemma monitoring_cong: "sv_subscriptions sv' = sv_subscriptions sv \<Longrightarrow> monitoring sv' = monitoring sv"
  by (simp add: monitoring_def fun_eq_iff)

lemma core_registry_cong:
  assumes "service_core E sv" "registry_inv E sv'" "sv_subscriptions sv' = sv_subscriptions sv"
    "sv_tick sv \<le> sv_tick sv'"
  shows "service_core E sv'"
  using assms sub_ok_mono unfolding service_core_def by metis

lemma mode_ok_status:
  "mode_ok sv st \<Longrightarrow> (\<And>n. n \<in> set (ss_monitored_node_ids st) \<Longrightarrow> node_status sv' n = node_status sv n) \<Longrightarrow>
     mode_ok sv' st"
  using derived_mode_cong [of "ss_monitored_node_ids st" sv' sv] by (simp add: mode_ok_def)

lemma release_all_nodes_pending:
  assumes p: "service_inv_pending E (st # R) sv"
  shows "service_inv_pending E R (release_all_nodes E st sv)"
proof -
  let ?id = "ss_subscription_id st"
  define sv1 where "sv1 = foldl (\<lambda>sv n. release_node_monitor E n ?id sv) sv (ss_monitored_node_ids st)"
  have inv: "registry_inv E sv" using service_coreD(2) [OF pendingD(1) [OF p]] .
  have sv1: "sv1 = reg.release_each E (ss_monitored_node_ids st) ?id sv"
    by (simp add: sv1_def reg.release_each_def)
  note rel = reg.release_each [OF inv, of "ss_monitored_node_ids st" ?id, folded sv1]
  have subs: "sv_subscriptions sv1 = sv_subscriptions sv" and t: "sv_tick sv \<le> sv_tick sv1"
    and inv1: "registry_inv E sv1" and run: "all_started sv1"
    using rel pendingD(2) [OF p] by auto
  have w1: "watchers sv1 n = (if n \<in> set (ss_monitored_node_ids st) then watchers sv n - {?id} else watchers sv n)" for n
    using rel by metis
  have gone: "dict_get (sv_subscriptions sv) ?id = None" by (rule pendingD(6) [OF p]) simp
  have other: "st' \<in> set R \<Longrightarrow> ss_subscription_id st' \<noteq> ?id" for st'
    using pendingD(5) [OF p] by (force simp: image_iff)
  have notmon: "?id \<notin> monitoring sv n" for n using gone by (simp add: monitoring_def)
  have notpend: "?id \<notin> pending_watch R n" for n using other by (fastforce simp: pending_watch_def)
  have w: "watchers sv1 n = monitoring sv1 n \<union> pending_watch R n" for n
    using pendingD(4) [OF p, of n] notmon [of n] notpend [of n]
    by (cases "n \<in> set (ss_monitored_node_ids st)") (simp_all add: w1 monitoring_cong [OF subs])
  have "mode_ok sv1 st'" if st': "dict_get (sv_subscriptions sv1) sid = Some st'" for sid st'
  proof (rule mode_ok_status)
    show "mode_ok sv st'" by (rule pendingD(3) [OF p]) (use st' subs in simp)
    fix n assume n: "n \<in> set (ss_monitored_node_ids st')"
    have "sid \<in> watchers sv1 n" using w [of n] monitoring_memI [OF st' n] by blast
    then show "node_status sv1 n = node_status sv n"
      unfolding sv1 using reg.release_each_status [OF inv] by (auto simp: sv1)
  qed
  moreover have "service_core E sv1" by (rule core_registry_cong [OF pendingD(1) [OF p] inv1 subs t])
  moreover have "release_all_nodes E st sv = sv1"
    using gone subs by (simp add: release_all_nodes_def upd_sub_None sv1_def [symmetric])
  ultimately show ?thesis
    using run w pendingD(5,6) [OF p] subs unfolding service_inv_pending_def by simp
qed

lemma release_pending_all:
  "service_inv_pending E R sv \<Longrightarrow> service_inv E (foldl (\<lambda>sv st. release_all_nodes E st sv) sv R)"
  by (induction R arbitrary: sv) (simp_all add: service_inv_def release_all_nodes_pending)

lemma pending_remove:
  assumes p: "service_inv_pending E R sv" and st: "dict_get (sv_subscriptions sv) sid = Some st"
  shows "service_inv_pending E (st\<lparr>ss_update_event := True\<rparr> # R)
    (sv\<lparr>sv_subscriptions := dict_del sid (sv_subscriptions sv)\<rparr>)"
proof -
  let ?sv = "sv\<lparr>sv_subscriptions := dict_del sid (sv_subscriptions sv)\<rparr>"
  have id: "ss_subscription_id st = sid"
    using service_coreD(4) [OF pendingD(1) [OF p] st] by (simp add: sub_ok_def)
  have frame: "sv_node_monitors ?sv = sv_node_monitors sv" "sv_bins ?sv = sv_bins sv" by simp_all
  have "registry_inv E ?sv"
    by (rule registry_inv_cong [OF service_coreD(2) [OF pendingD(1) [OF p]] frame]) simp
  then have core: "service_core E ?sv"
    using pendingD(1) [OF p] by (simp add: service_core_def)
  have mon: "monitoring sv n = monitoring ?sv n \<union> (if n \<in> set (ss_monitored_node_ids st) then {sid} else {})" for n
    using st by (auto simp: monitoring_def split: if_splits)
  have "watchers ?sv n = monitoring ?sv n \<union> pending_watch (st\<lparr>ss_update_event := True\<rparr> # R) n" for n
    using pendingD(4) [OF p, of n] mon [of n] watchers_cong [OF frame(1)] id by (simp add: Un_assoc)
  moreover have "sid \<notin> ss_subscription_id ` set R" using pendingD(6) [OF p] st by force
  moreover have "mode_ok ?sv st'" if "dict_get (sv_subscriptions ?sv) sid' = Some st'" for sid' st'
    using that pendingD(3) [OF p, of sid' st'] mode_ok_cong [OF frame(1)] by (simp split: if_splits)
  ultimately show ?thesis
    using core pendingD(2,5,6) [OF p] id
    by (simp add: service_inv_pending_def all_started_def)
qed

lemma pending_set:
  "service_inv_pending E R sv \<Longrightarrow> set R' = set R \<Longrightarrow> distinct (map ss_subscription_id R') \<Longrightarrow>
     service_inv_pending E R' sv"
  by (simp add: service_inv_pending_def pending_watch_def)

lemma scoped_SomeD: "scoped c sid sv = Some st \<Longrightarrow> dict_get (sv_subscriptions sv) sid = Some st"
  by (auto simp: scoped_def split: option.splits if_splits)

lemma delete_loop_pending:
  "service_inv_pending E R sv \<Longrightarrow>
     service_inv_pending E (fst (snd (delete_loop c ids sv)) @ R) (snd (snd (delete_loop c ids sv)))"
proof (induction ids arbitrary: R sv)
  case (Cons sid ids)
  show ?case
  proof (cases "scoped c sid sv")
    case None
    then show ?thesis using Cons by (simp add: case_prod_beta)
  next
    case (Some st)
    let ?st = "st\<lparr>ss_update_event := True\<rparr>"
    let ?sv = "sv\<lparr>sv_subscriptions := dict_del sid (sv_subscriptions sv)\<rparr>"
    let ?d = "delete_loop c ids ?sv"
    have "service_inv_pending E (fst (snd ?d) @ (?st # R)) (snd (snd ?d))"
      by (rule Cons.IH [OF pending_remove [OF Cons.prems scoped_SomeD [OF Some]]])
    from pending_set [OF this, of "?st # fst (snd ?d) @ R"] pendingD(5) [OF this]
    show ?thesis using Some by (simp add: case_prod_beta)
  qed
qed simp

lemma expire_loop_pending:
  "service_inv_pending E R sv \<Longrightarrow>
     service_inv_pending E (fst (expire_loop ids sv) @ R) (snd (expire_loop ids sv))"
proof (induction ids arbitrary: R sv)
  case (Cons sid ids)
  show ?case
  proof (cases "dict_get (sv_subscriptions sv) sid")
    case None
    then show ?thesis using Cons by (simp add: case_prod_beta)
  next
    case (Some st)
    let ?st = "st\<lparr>ss_update_event := True\<rparr>"
    let ?sv = "sv\<lparr>sv_subscriptions := dict_del sid (sv_subscriptions sv)\<rparr>"
    let ?d = "expire_loop ids ?sv"
    have "service_inv_pending E (fst ?d @ (?st # R)) (snd ?d)"
      by (rule Cons.IH [OF pending_remove [OF Cons.prems Some]])
    from pending_set [OF this, of "?st # fst ?d @ R"] pendingD(5) [OF this]
    show ?thesis using Some by (simp add: case_prod_beta)
  qed
qed simp

lemma delete_subscriptions_inv:
  "service_inv E sv \<Longrightarrow> service_inv E (snd (delete_subscriptions E c ids sv))"
  using delete_loop_pending [of E "[]" sv c ids] release_pending_all
  by (simp add: delete_subscriptions_def case_prod_beta service_inv_def)

lemma expire_subscriptions_inv:
  assumes "service_inv E sv"
  shows "service_inv E (expire_subscriptions E sv)"
proof -
  let ?s = "tick (remember_event_loop E sv)"
  have "quiet_step E sv ?s" by (rule quiet_step_frame) simp_all
  then have "service_inv_pending E [] ?s" using quiet_step_inv assms service_inv_def by metis
  from expire_loop_pending [OF this] release_pending_all show ?thesis
    by (simp add: expire_subscriptions_def now_monotonic_def case_prod_beta Let_def)
qed

section \<open>Registering\<close>

lemma sub_name_inj: "env_ok E \<Longrightarrow> sub_name E s = sub_name E t \<Longrightarrow> s = t"
  by (auto simp: sub_name_def env_ok_def inj_def)

lemma fresh_subscription:
  assumes "service_core E sv" "sv_tick sv \<le> t"
  shows "dict_get (sv_subscriptions sv) (sub_name E t) = None"
proof (rule ccontr)
  assume "dict_get (sv_subscriptions sv) (sub_name E t) \<noteq> None"
  then obtain st where "dict_get (sv_subscriptions sv) (sub_name E t) = Some st" by auto
  then obtain k where "k < sv_tick sv" "sub_name E t = sub_name E k"
    using service_coreD(4) [OF assms(1)] unfolding sub_ok_def by blast
  with assms(2) sub_name_inj [OF service_coreD(1) [OF assms(1)], of t k] show False by simp
qed

lemma create_subscription_inv:
  assumes inv: "service_inv E sv"
  shows "service_inv E (snd (create_subscription E c d sv))"
proof -
  define s1 where "s1 = tick (remember_event_loop E (tick (ensure_cleanup_task sv)))"
  define sid where "sid = sub_name E (sv_tick sv)"
  define st where "st = new_subscription_state sid c d (e_clock E (Suc (sv_tick sv)))"
  define s2 where "s2 = s1\<lparr>sv_subscriptions := dict_set sid st (sv_subscriptions s1)\<rparr>"
  have e: "snd (create_subscription E c d sv) = s2"
    by (simp add: create_subscription_def s1_def s2_def st_def sid_def now_monotonic_def Let_def)
  have q: "quiet_step E sv s1" unfolding s1_def by (rule quiet_step_frame) simp_all
  have i1: "service_inv E s1" by (rule quiet_step_inv [OF q inv])
  note c1 = service_invD(1) [OF i1]
  have t: "sv_tick s1 = sv_tick sv + 2" by (simp add: s1_def)
  have fresh: "dict_get (sv_subscriptions s1) sid = None"
    using fresh_subscription [OF service_invD(1) [OF inv], of "sv_tick sv"] by (simp add: s1_def sid_def)
  have f2: "sv_node_monitors s2 = sv_node_monitors s1" "sv_bins s2 = sv_bins s1" "sv_tick s2 = sv_tick s1"
    by (simp_all add: s2_def)
  have st: "sub_ok E (sv_tick s2) sid st" "mode_ok s2 st" "ss_monitored_node_ids st = []"
    using service_coreD(1) [OF c1] queue_inv_new [of "c_max_updates E" sid c d]
    by (auto simp: sub_ok_def mode_ok_def derived_mode_def f2 t env_ok_def st_def sid_def
        new_subscription_state_def intro!: exI [of _ "sv_tick sv"])
  have get: "dict_get (sv_subscriptions s2) x = (if x = sid then Some st else dict_get (sv_subscriptions s1) x)" for x
    by (simp add: s2_def)
  have "sub_ok E (sv_tick s2) x y" if "dict_get (sv_subscriptions s2) x = Some y" for x y
    using that service_coreD(4) [OF c1, of x y] st(1) f2(3) by (auto simp: get split: if_splits)
  moreover have "mode_ok s2 y" if "dict_get (sv_subscriptions s2) x = Some y" for x y
    using that service_invD(3) [OF i1, of x y] st(2) mode_ok_cong [OF f2(1)] by (auto simp: get split: if_splits)
  moreover have "registry_inv E s2" by (rule registry_inv_cong [OF service_coreD(2) [OF c1]]) (simp_all add: f2)
  moreover have "watchers s2 n = monitoring s2 n" for n
    using service_invD(4) [OF i1, of n] st(3) fresh watchers_cong [OF f2(1)]
    by (auto simp: monitoring_def get)
  moreover have "dict_ok (sv_subscriptions s2)" using service_coreD(3) [OF c1] by (simp add: s2_def)
  ultimately have "service_inv E s2"
    using service_coreD(1) [OF c1] service_invD(2) [OF i1] f2(1)
    unfolding service_inv_iff service_core_def all_started_def by auto
  then show ?thesis by (simp add: e)
qed

text \<open>
  The reconciliation of one subscription with the registry: before it, the registry still
  counts the previous nodes of the subscription.
\<close>

definition registering :: "env \<Rightarrow> string \<Rightarrow> string list \<Rightarrow> string list \<Rightarrow> service \<Rightarrow> bool" where
  "registering E sid old new sv \<longleftrightarrow> service_core E sv \<and> all_started sv
     \<and> (\<forall>s st. dict_get (sv_subscriptions sv) s = Some st \<and> s \<noteq> sid \<longrightarrow> mode_ok sv st)
     \<and> (\<exists>st. dict_get (sv_subscriptions sv) sid = Some st \<and> set (ss_monitored_node_ids st) = set new)
     \<and> (\<forall>n. watchers sv n = monitoring sv n - {sid} \<union> (if n \<in> set old then {sid} else {}))"

text \<open>The invariant but for the modes of the subscriptions in \<open>X\<close>.\<close>

definition service_inv_except :: "env \<Rightarrow> string set \<Rightarrow> service \<Rightarrow> bool" where
  "service_inv_except E X sv \<longleftrightarrow> service_core E sv \<and> all_started sv
     \<and> (\<forall>s st. dict_get (sv_subscriptions sv) s = Some st \<and> s \<notin> X \<longrightarrow> mode_ok sv st)
     \<and> (\<forall>n. watchers sv n = monitoring sv n)"

lemma service_inv_except_empty: "service_inv_except E {} sv = service_inv E sv"
  by (simp add: service_inv_except_def service_inv_iff)

lemma update_mode_except:
  assumes inv: "service_inv_except E (insert sid X) sv"
  shows "service_inv_except E X (update_subscription_mode sid sv)"
proof -
  have c: "service_core E sv" and a: "all_started sv" and w: "\<And>n. watchers sv n = monitoring sv n"
    and m: "\<And>s st. dict_get (sv_subscriptions sv) s = Some st \<Longrightarrow> s \<noteq> sid \<Longrightarrow> s \<notin> X \<Longrightarrow> mode_ok sv st"
    using inv unfolding service_inv_except_def by blast+
  let ?s = "update_subscription_mode sid sv"
  have f: "sv_node_monitors ?s = sv_node_monitors sv" "sv_bins ?s = sv_bins sv" "sv_tick ?s = sv_tick sv"
    by (simp_all add: update_subscription_mode_def)
  have get: "dict_get (sv_subscriptions ?s) x = (if x = sid then map_option (\<lambda>st.
      st\<lparr>ss_mode := fst (derived_mode sv (ss_monitored_node_ids st)),
         ss_native_refresh_interval_seconds := snd (derived_mode sv (ss_monitored_node_ids st))\<rparr>)
      (dict_get (sv_subscriptions sv) sid) else dict_get (sv_subscriptions sv) x)" for x
    by (simp add: update_subscription_mode_def case_prod_beta Let_def)
  have "mode_ok ?s st" if "dict_get (sv_subscriptions ?s) x = Some st" "x \<notin> X" for x st
  proof (cases "x = sid")
    case True
    with that have "mode_ok sv st" by (auto simp: get mode_ok_def)
    then show ?thesis using mode_ok_cong [OF f(1), of st] by simp
  next
    case False
    with that m [of x st] show ?thesis using mode_ok_cong [OF f(1), of st] by (simp add: get)
  qed
  moreover have "sub_ok E (sv_tick ?s) x st" if "dict_get (sv_subscriptions ?s) x = Some st" for x st
  proof (cases "x = sid")
    case True
    with that obtain y where y: "dict_get (sv_subscriptions sv) sid = Some y" "st =
        y\<lparr>ss_mode := fst (derived_mode sv (ss_monitored_node_ids y)),
          ss_native_refresh_interval_seconds := snd (derived_mode sv (ss_monitored_node_ids y))\<rparr>"
      by (auto simp: get)
    from service_coreD(4) [OF c y(1)] True show ?thesis
      by (simp add: y(2) sub_ok_def f queue_inv_def queue_floor_def cong: option.case_cong)
  next
    case False
    with that service_coreD(4) [OF c, of x st] show ?thesis by (simp add: get f)
  qed
  moreover have "registry_inv E ?s" by (rule registry_inv_cong [OF service_coreD(2) [OF c]]) (simp_all add: f)
  moreover have "dict_ok (sv_subscriptions ?s)"
    using service_coreD(3) [OF c] by (simp add: update_subscription_mode_def upd_sub_def split: option.splits)
  moreover have "monitoring ?s n = monitoring sv n" for n by (auto simp: monitoring_def get split: if_splits)
  ultimately show ?thesis
    using service_coreD(1) [OF c] a w watchers_cong [OF f(1)] f(1)
    unfolding service_inv_except_def service_core_def all_started_def by auto
qed

lemma apply_diff_inv:
  assumes r: "registering E sid old new sv"
  shows "service_inv E (apply_monitored_node_diff E sid old new sv)"
proof -
  let ?add = "set_diff new old" and ?rem = "set_diff old new"
  define s1 where "s1 = reg.release_each E ?rem sid sv"
  define s2 where "s2 = reg.acquire_each E ?add sid s1"
  have d: "apply_monitored_node_diff E sid old new sv =
      seed_initial_updates E sid (update_subscription_mode sid s2)"
    by (simp add: apply_monitored_node_diff_def s1_def s2_def reg.release_each_def reg.acquire_each_def Let_def)
  have c: "service_core E sv" and a: "all_started sv" using r by (simp_all add: registering_def)
  have inv: "registry_inv E sv" by (rule service_coreD(2) [OF c])
  have w: "watchers sv n = monitoring sv n - {sid} \<union> (if n \<in> set old then {sid} else {})" for n
    using r by (simp add: registering_def)
  note rel = reg.release_each [OF inv, of ?rem sid, folded s1_def]
  have inv1: "registry_inv E s1" using rel by blast
  note acq = reg.acquire_each [OF inv1, of ?add sid, folded s2_def]
  have subs: "sv_subscriptions s2 = sv_subscriptions sv" and t: "sv_tick sv \<le> sv_tick s2"
    and inv2: "registry_inv E s2" and a2: "all_started s2"
    using rel acq a by auto
  have "\<And>n. sid \<in> watchers sv n \<longleftrightarrow> n \<in> set old" using w by auto
  then have w2: "watchers s2 = (\<lambda>n. if n \<in> set new then insert sid (watchers sv n) else watchers sv n - {sid})"
    unfolding s1_def s2_def by (rule reg.reconcile [OF inv])
  obtain st where st: "dict_get (sv_subscriptions sv) sid = Some st" "set (ss_monitored_node_ids st) = set new"
    using r by (auto simp: registering_def)
  have "sid \<in> monitoring sv n \<longleftrightarrow> n \<in> set new" for n using st by (simp add: monitoring_def)
  then have w': "watchers s2 n = monitoring s2 n" for n
    by (auto simp: w2 w monitoring_cong [OF subs])
  have "mode_ok s2 y" if y: "dict_get (sv_subscriptions s2) x = Some y" "x \<noteq> sid" for x y
  proof (rule mode_ok_status)
    have y': "dict_get (sv_subscriptions sv) x = Some y" using y subs by simp
    then show "mode_ok sv y" using r y(2) by (auto simp: registering_def)
    fix n assume n: "n \<in> set (ss_monitored_node_ids y)"
    have x: "x \<in> watchers sv n" using w [of n] monitoring_memI [OF y' n] y(2) by simp
    have "watchers s1 n = (if n \<in> set ?rem then watchers sv n - {sid} else watchers sv n)"
      using rel by metis
    with x y(2) have x1: "watchers s1 n \<noteq> {}" by auto
    have "node_status s2 n = node_status s1 n"
      unfolding s2_def by (rule reg.acquire_each_status [OF inv1 x1])
    also have "\<dots> = node_status sv n"
      unfolding s1_def by (rule reg.release_each_status [OF inv]) (use x1 s1_def in simp)
    finally show "node_status s2 n = node_status sv n" .
  qed
  then have "service_inv_except E {sid} s2"
    using core_registry_cong [OF c inv2 subs t] a2 w' unfolding service_inv_except_def by blast
  then have "service_inv E (update_subscription_mode sid s2)"
    using update_mode_except service_inv_except_empty by blast
  then show ?thesis unfolding d by (rule quiet_step_inv [OF quiet_seed])
qed

lemma resolve_loop_distinct:
  "resolve_loop m objs ns d = Some (ns', d') \<Longrightarrow> distinct ns \<Longrightarrow> distinct ns'"
  by (induction m objs ns d rule: resolve_loop.induct) (auto split: option.splits)

lemma register_commit_registering:
  assumes inv: "service_inv E sv" and st: "dict_get (sv_subscriptions sv) sid = Some st"
    and d: "distinct new"
  shows "registering E sid (ss_monitored_node_ids st) new (register_commit E sid objs new n2e sv)"
proof -
  define f :: "SubscriptionState \<Rightarrow> SubscriptionState" where "f = (\<lambda>st. st\<lparr>ss_monitored_objects := objs, ss_monitored_node_ids := new,
      ss_node_to_element_id := n2e, ss_last_values_by_node_id :=
        filter (\<lambda>(n, v). n \<in> set new) (ss_last_values_by_node_id st)\<rparr>)"
  define s1 where "s1 = upd_sub sid f sv"
  have r: "register_commit E sid objs new n2e sv = touch E sid s1"
    by (simp add: register_commit_def s1_def f_def)
  have get1: "dict_get (sv_subscriptions s1) x = (if x = sid then Some (f st) else dict_get (sv_subscriptions sv) x)" for x
    using st by (simp add: s1_def)
  have f1: "sv_node_monitors s1 = sv_node_monitors sv" "sv_bins s1 = sv_bins sv" "sv_tick s1 = sv_tick sv"
    by (simp_all add: s1_def)
  note c = service_invD(1) [OF inv]
  have fst: "sub_ok E (sv_tick sv) sid (f st)"
    using service_coreD(4) [OF c st] d
    by (simp add: f_def sub_ok_def queue_inv_def queue_floor_def cong: option.case_cong)
  have "registry_inv E s1" by (rule registry_inv_cong [OF service_coreD(2) [OF c]]) (simp_all add: f1)
  moreover have "sub_ok E (sv_tick s1) x y" if "dict_get (sv_subscriptions s1) x = Some y" for x y
    using that fst service_coreD(4) [OF c, of x y] f1(3) by (auto simp: get1 split: if_splits)
  moreover have "dict_ok (sv_subscriptions s1)"
    using service_coreD(3) [OF c] st by (simp add: s1_def upd_sub_def)
  ultimately have c1: "service_core E s1" using service_coreD(1) [OF c] unfolding service_core_def by blast
  let ?s = "touch E sid s1"
  have q: "quiet_step E s1 ?s" by (rule quiet_touch)
  have m: "sv_node_monitors ?s = sv_node_monitors sv" using q f1 by (simp add: quiet_step_def)
  have "mode_ok ?s y'" if y': "dict_get (sv_subscriptions ?s) x = Some y'" "x \<noteq> sid" for x y'
  proof -
    obtain y where y: "dict_get (sv_subscriptions s1) x = Some y" "same_sub E y y'"
      by (rule quiet_step_get [OF q y'(1)])
    have "mode_ok sv y" using service_invD(3) [OF inv] y(1) y'(2) by (simp add: get1)
    with y(2) have "mode_ok sv y'" by (simp add: mode_ok_def same_sub_def)
    then show ?thesis using mode_ok_cong [OF m, of y'] by simp
  qed
  moreover have "\<exists>z. dict_get (sv_subscriptions ?s) sid = Some z \<and> set (ss_monitored_node_ids z) = set new"
  proof -
    obtain z where "dict_get (sv_subscriptions ?s) sid = Some z" "same_sub E (f st) z"
      by (rule quiet_step_put [OF q, of sid "f st"]) (simp_all add: get1)
    then show ?thesis by (simp add: same_sub_def f_def)
  qed
  moreover have "watchers ?s n = monitoring ?s n - {sid} \<union> (if n \<in> set (ss_monitored_node_ids st) then {sid} else {})" for n
  proof -
    have "monitoring s1 n - {sid} = monitoring sv n - {sid}" by (auto simp: monitoring_def get1)
    moreover have "sid \<in> monitoring sv n \<longleftrightarrow> n \<in> set (ss_monitored_node_ids st)" using st by (simp add: monitoring_def)
    ultimately show ?thesis
      using service_invD(4) [OF inv, of n] watchers_cong [OF m] quiet_step_monitoring [OF q, of n] by auto
  qed
  moreover have "all_started ?s" using service_invD(2) [OF inv] m by (simp add: all_started_def)
  ultimately show ?thesis
    using quiet_step_core [OF q c1] unfolding r registering_def by blast
qed

lemma register_items_inv:
  assumes "service_inv E sv" "register_items E c sid ids depth m sv = Some (ok, sv')"
  shows "service_inv E sv'"
proof -
  have i: "service_inv E (ensure_cleanup_task sv)" by (rule quiet_step_inv [OF quiet_ensure assms(1)])
  show ?thesis
    using assms(2) i register_commit_registering [OF i scoped_SomeD, THEN apply_diff_inv]
      resolve_loop_distinct
    by (auto simp: register_items_def resolve_monitored_node_ids_def Let_def split: option.splits)
qed

lemma unregister_items_inv:
  assumes "service_inv E sv" "unregister_items E c sid ids m sv = Some (ok, sv')"
  shows "service_inv E sv'"
proof -
  have i: "service_inv E (ensure_cleanup_task sv)" by (rule quiet_step_inv [OF quiet_ensure assms(1)])
  show ?thesis
    using assms(2) i register_commit_registering [OF i scoped_SomeD, THEN apply_diff_inv]
      resolve_loop_distinct
    by (auto simp: unregister_items_def resolve_monitored_node_ids_def Let_def split: option.splits)
qed

end
