(* ===== verification/Lifecycle.thy ===== *)
theory Lifecycle
  imports ServiceInv
begin

text \<open>
  Reconnect and shutdown keep the invariant too, so it holds in every state the service can
  reach by its operations, in any order; and the properties of the service that follow.
\<close>

section \<open>Reconnect\<close>

definition lost_monitor :: "string \<Rightarrow> string list \<Rightarrow> string \<Rightarrow> NodeMonitor \<Rightarrow> NodeMonitor" where
  "lost_monitor i ns n m =
     (if n \<in> set ns \<and> nm_bin_id m = Some i then m\<lparr>nm_bin_id := None, nm_mode := Idle\<rparr> else m)"

lemma mark_lost_both:
  assumes "\<And>n m. dict_get (sv_node_monitors sv) n = Some m \<Longrightarrow> nm_node_id m = n" "distinct ns"
  shows "fst (mark_lost i ns sv) = filter (names_bin sv i) ns \<and>
    dict_get (sv_node_monitors (snd (mark_lost i ns sv))) n =
      map_option (lost_monitor i ns n) (dict_get (sv_node_monitors sv) n)"
  using assms
proof (induction ns arbitrary: sv)
  case Nil
  show ?case by (cases "dict_get (sv_node_monitors sv) n") (simp_all add: lost_monitor_def)
next
  case (Cons k ns)
  let ?goal = "\<lambda>sv ns. fst (mark_lost i ns sv) = filter (names_bin sv i) ns \<and>
    dict_get (sv_node_monitors (snd (mark_lost i ns sv))) n =
      map_option (lost_monitor i ns n) (dict_get (sv_node_monitors sv) n)"
  show ?case
  proof (cases "names_bin sv i k")
    case True
    then obtain m where m: "dict_get (sv_node_monitors sv) k = Some m" "nm_bin_id m = Some i"
      by (auto simp: names_bin_def split: option.splits)
    have id: "nm_node_id m = k" by (rule Cons.prems(1) [OF m(1)])
    let ?s = "set_monitor (m\<lparr>nm_bin_id := None, nm_mode := Idle\<rparr>) sv"
    have names: "names_bin ?s i x = names_bin sv i x" if "x \<noteq> k" for x
      using that id by (simp add: names_bin_def)
    have get: "dict_get (sv_node_monitors ?s) x =
        (if x = k then Some (m\<lparr>nm_bin_id := None, nm_mode := Idle\<rparr>) else dict_get (sv_node_monitors sv) x)" for x
      using id by simp
    have keys: "nm_node_id y = x" if "dict_get (sv_node_monitors ?s) x = Some y" for x y
      using that Cons.prems(1) [of x y] id by (cases "x = k") (simp_all only: get, auto)
    have IH: "?goal ?s ns" by (rule Cons.IH, erule keys) (use Cons.prems(2) in simp)
    have "filter (names_bin ?s i) ns = filter (names_bin sv i) ns"
    proof (rule filter_cong [OF refl])
      fix x assume "x \<in> set ns"
      with Cons.prems(2) have "x \<noteq> k" by auto
      then show "names_bin ?s i x = names_bin sv i x" by (rule names)
    qed
    with IH True m Cons.prems(2) show ?thesis
      by (cases "dict_get (sv_node_monitors sv) n") (auto simp: case_prod_beta get lost_monitor_def id)
  next
    case False
    then have skip: "mark_lost i (k # ns) sv = mark_lost i ns sv"
      by (auto simp: names_bin_def split: option.splits)
    have IH: "?goal sv ns" by (rule Cons.IH, erule Cons.prems(1)) (use Cons.prems(2) in simp)
    have no: "nm_bin_id m \<noteq> Some i" if "dict_get (sv_node_monitors sv) k = Some m" for m
      using False that by (simp add: names_bin_def)
    show ?thesis
      using IH False no unfolding skip
      by (cases "dict_get (sv_node_monitors sv) n") (auto simp: lost_monitor_def)
  qed
qed

lemmas mark_lost_spec = mark_lost_both [THEN conjunct1] mark_lost_both [THEN conjunct2]

lemma mark_lost_frame [frame_simps, simp]:
  "sv_subscriptions (snd (mark_lost i ns sv)) = sv_subscriptions sv"
  "sv_bins (snd (mark_lost i ns sv)) = sv_bins sv"
  "sv_tick (snd (mark_lost i ns sv)) = sv_tick sv"
  "dict_ok (sv_node_monitors sv) \<Longrightarrow> dict_ok (sv_node_monitors (snd (mark_lost i ns sv)))"
  by (induction i ns sv rule: mark_lost.induct) (auto simp: case_prod_beta split: option.splits)

text \<open>The nodes whose monitor is idle: nothing watches their value.\<close>

definition idle_nodes :: "service \<Rightarrow> string set" where
  "idle_nodes sv = {n. \<exists>m. dict_get (sv_node_monitors sv) n = Some m \<and> nm_mode m = Idle}"

lemma idle_nodes_empty: "idle_nodes sv = {} \<longleftrightarrow> all_started sv"
  by (auto simp: idle_nodes_def all_started_def)

text \<open>What a step of the reconnect keeps: consistency, watchers, subscriptions.\<close>

definition resync_step :: "env \<Rightarrow> service \<Rightarrow> service \<Rightarrow> bool" where
  "resync_step E sv sv' \<longleftrightarrow> registry_inv E sv' \<and> watchers sv' = watchers sv
     \<and> sv_subscriptions sv' = sv_subscriptions sv \<and> sv_tick sv \<le> sv_tick sv'"

lemma resync_step_trans: "resync_step E a b \<Longrightarrow> resync_step E b c \<Longrightarrow> resync_step E a c"
  by (auto simp: resync_step_def)

lemma resync_bin_spec:
  assumes inv: "registry_inv E sv" and env: "env_ok E" and b: "dict_get (sv_bins sv) i = Some b"
    and r: "resync_bin E i b sv = (dead, lost, sv')"
  shows "resync_step E sv sv'" "idle_nodes sv' \<subseteq> idle_nodes sv \<union> set lost"
    "i' \<noteq> i \<Longrightarrow> dict_get (sv_bins sv') i' = dict_get (sv_bins sv) i'"
proof -
  let ?ns = "dict_keys (mb_node_handles b)"
  define h where "h = e_item_handles E (sv_tick sv) (us_id (mb_ua_subscription b)) ?ns"
  define kept where "kept = (case h of None \<Rightarrow> [] | Some d \<Rightarrow> d)"
  define missing where "missing = filter (\<lambda>n. n \<notin> set (dict_keys kept)) ?ns"
  define bins where "bins = (if kept = [] then dict_del i (sv_bins sv)
      else dict_set i (b\<lparr>mb_node_handles := kept\<rparr>) (sv_bins sv))"
  define s1 where "s1 = (tick sv)\<lparr>sv_bins := bins\<rparr>"
  have sv': "sv' = snd (mark_lost i missing s1)" and lost: "lost = fst (mark_lost i missing s1)"
    using r unfolding resync_bin_def Let_def h_def [symmetric] s1_def bins_def missing_def kept_def
    by (auto simp: case_prod_beta split: option.splits list.splits)
  have bok: "bin_ok E (sv_tick sv) i b" by (rule registry_invD(5) [OF inv b])
  have kept: "dict_ok kept" "fst ` set kept \<subseteq> fst ` set (mb_node_handles b)"
  proof -
    have "dict_ok d \<and> fst ` set d \<subseteq> set ?ns" if "h = Some d" for d
      using env that unfolding env_ok_def h_def by blast
    then show "dict_ok kept" "fst ` set kept \<subseteq> fst ` set (mb_node_handles b)"
      by (auto simp: kept_def split: option.splits)
  qed
  have s1: "sv_node_monitors s1 = sv_node_monitors sv" "sv_bins s1 = bins" "sv_tick s1 = Suc (sv_tick sv)"
    "sv_subscriptions s1 = sv_subscriptions sv"
    by (simp_all add: s1_def)
  have keys: "nm_node_id m = n" if "dict_get (sv_node_monitors s1) n = Some m" for n m
    using that registry_invD(4) [OF inv, of n m] by (simp add: s1 monitor_ok_def)
  have dm: "distinct missing" using bok by (simp add: missing_def bin_ok_def)
  have lostset: "set lost = {n. n \<in> set missing \<and> names_bin sv i n}"
  proof -
    have "lost = filter (names_bin s1 i) missing"
      unfolding lost by (rule mark_lost_spec(1), erule keys, rule dm)
    then show ?thesis by (auto simp: names_bin_def s1)
  qed
  have get: "dict_get (sv_node_monitors sv') n = map_option (lost_monitor i missing n) (dict_get (sv_node_monitors sv) n)" for n
  proof -
    have "dict_get (sv_node_monitors sv') n = map_option (lost_monitor i missing n) (dict_get (sv_node_monitors s1) n)"
      unfolding sv' by (rule mark_lost_spec(2), erule keys, rule dm)
    then show ?thesis by (simp add: s1)
  qed
  have bins': "sv_bins sv' = bins" "sv_tick sv' = Suc (sv_tick sv)" by (simp_all add: sv' s1)
  have mok: "monitor_ok n m" if "dict_get (sv_node_monitors sv') n = Some m" for n m
    using that registry_invD(4) [OF inv, of n] unfolding get by (auto simp: monitor_ok_def lost_monitor_def split: if_splits)
  have binok: "bin_ok E (sv_tick sv') j x" if "dict_get (sv_bins sv') j = Some x" for j x
  proof (cases "j = i")
    case True
    with that have x: "x = b\<lparr>mb_node_handles := kept\<rparr>" "kept \<noteq> []"
      by (auto simp: bins' bins_def split: if_splits)
    have "length kept \<le> length (mb_node_handles b)"
      using kept bok card_mono [OF _ kept(2)]
      by (simp add: bin_ok_def distinct_card [of "map fst kept", simplified]
          distinct_card [of "map fst (mb_node_handles b)", simplified])
    moreover have "bin_ok E (sv_tick sv') i b" using bin_ok_mono [OF bok] by (simp add: bins')
    ultimately show ?thesis using x(2) kept(1) unfolding x(1) True bin_ok_def by simp
  next
    case False
    with that have "dict_get (sv_bins sv) j = Some x" by (simp add: bins' bins_def split: if_splits)
    from bin_ok_mono [OF registry_invD(5) [OF inv this]] show ?thesis by (simp add: bins')
  qed
  have in': "in_bin sv' j n \<longleftrightarrow> names_bin sv' j n" for j n
  proof -
    have old: "in_bin sv j n \<longleftrightarrow> names_bin sv j n" by (rule registry_invD(6) [OF inv])
    have "names_bin sv' j n \<longleftrightarrow> names_bin sv j n \<and> \<not> (n \<in> set missing \<and> j = i)"
      by (auto simp: names_bin_def get lost_monitor_def split: option.splits)
    moreover have "in_bin sv' j n \<longleftrightarrow> in_bin sv j n \<and> \<not> (n \<in> set missing \<and> j = i)"
      using kept(2) by (auto simp: in_bin_def bins' bins_def missing_def b split: if_splits)
    ultimately show ?thesis using old by blast
  qed
  have "dict_ok (sv_bins sv')" using registry_invD(3) [OF inv] by (simp add: bins' bins_def)
  moreover have "dict_ok (sv_node_monitors sv')"
    using registry_invD(2) [OF inv] by (simp add: sv' s1)
  ultimately have "registry_inv E sv'"
    using registry_invD(1) [OF inv] mok binok in' unfolding registry_inv_def by blast
  moreover have "watchers sv' = watchers sv"
    by (auto simp: watchers_def get lost_monitor_def fun_eq_iff split: option.splits)
  ultimately show "resync_step E sv sv'"
    by (simp add: resync_step_def bins') (simp add: sv' s1)
  show "idle_nodes sv' \<subseteq> idle_nodes sv \<union> set lost"
    by (auto simp: idle_nodes_def lostset get names_bin_def lost_monitor_def split: if_splits)
  show "dict_get (sv_bins sv') i' = dict_get (sv_bins sv) i'" if "i' \<noteq> i"
    using that by (simp add: bins' bins_def)
qed

lemma resync_bins_spec:
  assumes "registry_inv E sv" "env_ok E" "distinct (map fst bs)"
    "\<And>i b. (i, b) \<in> set bs \<Longrightarrow> dict_get (sv_bins sv) i = Some b"
    "resync_bins E bs sv = (dead, lost, sv')"
  shows "resync_step E sv sv' \<and> idle_nodes sv' \<subseteq> idle_nodes sv \<union> set lost"
  using assms
proof (induction bs arbitrary: sv sv' dead lost)
  case Nil
  then show ?case by (auto simp: resync_step_def)
next
  case (Cons ib bs)
  obtain i b where ib: "ib = (i, b)" by (cases ib)
  obtain d1 l1 s1 where r1: "resync_bin E i b sv = (d1, l1, s1)" by (cases "resync_bin E i b sv") auto
  obtain d2 l2 s2 where r2: "resync_bins E bs s1 = (d2, l2, s2)" by (cases "resync_bins E bs s1") auto
  have "dict_get (sv_bins sv) i = Some b" using Cons.prems(4) [of i b] by (simp add: ib)
  note one = resync_bin_spec [OF Cons.prems(1,2) this r1]
  have "dict_get (sv_bins s1) j = Some c" if "(j, c) \<in> set bs" for j c
    using that one(3) [of j] Cons.prems(3,4) by (force simp: ib)
  then have "resync_step E s1 s2 \<and> idle_nodes s2 \<subseteq> idle_nodes s1 \<union> set l2"
    using Cons.IH [OF _ Cons.prems(2) _ _ r2] one(1) Cons.prems(3) by (simp add: resync_step_def)
  moreover have "sv' = s2" "lost = l1 @ l2" using Cons.prems(5) by (simp_all add: ib r1 r2)
  ultimately show ?case using one(1,2) resync_step_trans by auto
qed

text \<open>Re-admitting a lost node starts its monitor again.\<close>

lemma readmit_spec:
  assumes inv: "registry_inv E sv"
  shows "resync_step E sv (readmit E n sv)" "idle_nodes (readmit E n sv) = idle_nodes sv - {n}"
proof -
  have "resync_step E sv (readmit E n sv) \<and> idle_nodes (readmit E n sv) = idle_nodes sv - {n}"
  proof (cases "n \<in> idle_nodes sv")
    case False
    then have "readmit E n sv = sv" by (auto simp: readmit_def idle_nodes_def split: option.splits)
    with False inv show ?thesis by (simp add: resync_step_def)
  next
    case True
    then obtain m where m: "dict_get (sv_node_monitors sv) n = Some m" "nm_mode m = Idle"
      by (auto simp: idle_nodes_def)
    have ok: "monitor_ok n m" by (rule registry_invD(4) [OF inv m(1)])
    then have id: "nm_node_id m = n" and "nm_bin_id m = None" using m(2) by (auto simp: monitor_ok_def)
    then have st: "starting m sv" using m(1) by (simp add: starting_def live_monitor_def)
    let ?s = "start_node_monitor_runtime E m sv"
    have r: "readmit E n sv = ?s" using m by (simp add: readmit_def)
    have step: "admission_step E n sv ?s" and run: "n \<notin> idle_nodes ?s"
      using start_node_monitor_runtime_step [OF inv st] by (auto simp: id idle_nodes_def)
    have other: "dict_get (sv_node_monitors ?s) n' = dict_get (sv_node_monitors sv) n'" if "n' \<noteq> n" for n'
      using step that by (simp add: admission_step_def)
    have "x \<in> idle_nodes ?s \<longleftrightarrow> x \<in> idle_nodes sv - {n}" for x
      using run other [of x] by (cases "x = n") (simp_all add: idle_nodes_def)
    with step show ?thesis unfolding r by (auto simp: resync_step_def admission_step_def)
  qed
  then show "resync_step E sv (readmit E n sv)" "idle_nodes (readmit E n sv) = idle_nodes sv - {n}"
    by blast+
qed

lemma readmit_all_spec:
  "registry_inv E sv \<Longrightarrow> resync_step E sv (foldl (\<lambda>sv n. readmit E n sv) sv ns) \<and>
     idle_nodes (foldl (\<lambda>sv n. readmit E n sv) sv ns) = idle_nodes sv - set ns"
proof (induction ns arbitrary: sv)
  case Nil
  then show ?case by (simp add: resync_step_def)
next
  case (Cons n ns)
  note one = readmit_spec [OF Cons.prems, of n]
  have "registry_inv E (readmit E n sv)" using one(1) by (simp add: resync_step_def)
  from Cons.IH [OF this] one resync_step_trans [OF one(1)] show ?case by auto
qed

lemma delete_bins_spec:
  "registry_inv E sv \<Longrightarrow> resync_step E sv (foldl (\<lambda>sv b. snd (ua_delete E (mb_ua_subscription b) sv)) sv bs) \<and>
     sv_node_monitors (foldl (\<lambda>sv b. snd (ua_delete E (mb_ua_subscription b) sv)) sv bs) = sv_node_monitors sv"
proof (induction bs arbitrary: sv)
  case Nil
  then show ?case by (simp add: resync_step_def)
next
  case (Cons b bs)
  let ?s = "snd (ua_delete E (mb_ua_subscription b) sv)"
  have "registry_inv E ?s" by (rule registry_inv_cong [OF Cons.prems]) simp_all
  moreover from this have "resync_step E sv ?s"
    using watchers_cong [of ?s sv] by (simp add: resync_step_def)
  ultimately show ?case using Cons.IH [of ?s] resync_step_trans [of E sv ?s] by simp
qed

lemma update_modes_all:
  "service_inv_except E (set ks \<union> X) sv \<Longrightarrow>
     service_inv_except E X (foldl (\<lambda>sv sid. update_subscription_mode sid sv) sv ks)"
proof (induction ks arbitrary: sv)
  case (Cons k ks)
  then have "service_inv_except E (insert k (set ks \<union> X)) sv" by simp
  from Cons.IH [OF update_mode_except [OF this]] show ?case by simp
qed simp

lemma handle_client_reconnect_inv:
  assumes inv: "service_inv E sv"
  shows "service_inv E (handle_client_reconnect E sv)"
proof -
  obtain dead lost s1 where r: "resync_bins E (sv_bins sv) sv = (dead, lost, s1)"
    by (cases "resync_bins E (sv_bins sv) sv") auto
  define s2 where "s2 = foldl (\<lambda>sv b. snd (ua_delete E (mb_ua_subscription b) sv)) s1 dead"
  define s3 where "s3 = foldl (\<lambda>sv n. readmit E n sv) s2 (sort lost)"
  note c = service_invD(1) [OF inv]
  have 1: "resync_step E sv s1" "idle_nodes s1 \<subseteq> idle_nodes sv \<union> set lost"
    using resync_bins_spec [OF service_coreD(2,1) [OF c] _ _ r] registry_invD(3) [OF service_coreD(2) [OF c]]
    by auto
  then have i1: "registry_inv E s1" by (simp add: resync_step_def)
  have 2: "resync_step E s1 s2" "idle_nodes s2 = idle_nodes s1"
    using delete_bins_spec [OF i1, of dead] by (simp_all add: s2_def idle_nodes_def)
  then have i2: "registry_inv E s2" by (simp add: resync_step_def)
  have 3: "resync_step E s2 s3" "idle_nodes s3 = idle_nodes s2 - set lost"
    using readmit_all_spec [OF i2, of "sort lost"] by (simp_all add: s3_def)
  have s3: "resync_step E sv s3" by (rule resync_step_trans [OF resync_step_trans [OF 1(1) 2(1)] 3(1)])
  have "idle_nodes sv = {}" using service_invD(2) [OF inv] by (simp add: idle_nodes_empty)
  then have "idle_nodes s3 = {}" using 1(2) 2(2) 3(2) by auto
  then have run: "all_started s3" by (simp add: idle_nodes_empty)
  have subs: "sv_subscriptions s3 = sv_subscriptions sv" "watchers s3 = watchers sv"
    using s3 by (simp_all add: resync_step_def)
  have "service_core E s3"
    by (rule core_registry_cong [OF c]) (use s3 in \<open>simp_all add: resync_step_def\<close>)
  moreover have "watchers s3 n = monitoring s3 n" for n
    using service_invD(4) [OF inv] subs monitoring_cong [OF subs(1)] by simp
  moreover have "s \<in> set (dict_keys (sv_subscriptions s3))" if "dict_get (sv_subscriptions s3) s = Some st" for s st
    using map_of_SomeD [OF that] by force
  ultimately have "service_inv_except E (set (dict_keys (sv_subscriptions s3)) \<union> {}) s3"
    using run unfolding service_inv_except_def by blast
  then have "service_inv E (foldl (\<lambda>sv sid. update_subscription_mode sid sv) s3 (dict_keys (sv_subscriptions s3)))"
    using update_modes_all service_inv_except_empty by blast
  then show ?thesis by (simp add: handle_client_reconnect_def r s2_def s3_def Let_def)
qed

section \<open>Shutdown\<close>

lemma registry_empty:
  assumes "registry_inv E sv" "\<And>n. watchers sv n = {}"
  shows "sv_node_monitors sv = []" "sv_bins sv = []"
proof -
  have none: "dict_get (sv_node_monitors sv) n = None" for n
  proof (rule ccontr)
    assume "dict_get (sv_node_monitors sv) n \<noteq> None"
    then obtain m where m: "dict_get (sv_node_monitors sv) n = Some m" by auto
    with assms(2) [of n] registry_invD(4) [OF assms(1) m] show False by (simp add: watchers_def monitor_ok_def)
  qed
  then show "sv_node_monitors sv = []" by (metis map_of_eq_empty_iff ext)
  have "dict_get (sv_bins sv) i = None" for i
  proof (rule ccontr)
    assume "dict_get (sv_bins sv) i \<noteq> None"
    then obtain b where b: "dict_get (sv_bins sv) i = Some b" by auto
    then obtain n where "in_bin sv i n"
      using registry_invD(5) [OF assms(1) b] by (cases "mb_node_handles b") (auto simp: bin_ok_def in_bin_def)
    then show False using registry_invD(6) [OF assms(1)] none by (simp add: names_bin_def)
  qed
  then show "sv_bins sv = []" by (metis map_of_eq_empty_iff ext)
qed

lemma close_loop:
  assumes "registry_inv E sv"
  shows "registry_inv E (foldl (\<lambda>sv st. release_all_nodes E st
        (upd_sub (ss_subscription_id st) (\<lambda>st. st\<lparr>ss_update_event := True\<rparr>) sv)) sv L)
    \<and> watchers (foldl (\<lambda>sv st. release_all_nodes E st
        (upd_sub (ss_subscription_id st) (\<lambda>st. st\<lparr>ss_update_event := True\<rparr>) sv)) sv L) n =
      watchers sv n - pending_watch L n"
  using assms
proof (induction L arbitrary: sv)
  case (Cons st L)
  let ?id = "ss_subscription_id st"
  let ?u = "upd_sub ?id (\<lambda>st. st\<lparr>ss_update_event := True\<rparr>) sv"
  let ?r = "reg.release_each E (ss_monitored_node_ids st) ?id ?u"
  have iu: "registry_inv E ?u" by (rule registry_inv_cong [OF Cons.prems]) simp_all
  note rel = reg.release_each [OF iu, of "ss_monitored_node_ids st" ?id]
  have e: "release_all_nodes E st ?u =
      upd_sub ?id (\<lambda>st. st\<lparr>ss_mode := Idle, ss_native_refresh_interval_seconds := None\<rparr>) ?r"
    by (simp add: release_all_nodes_def reg.release_each_def)
  have ir: "registry_inv E (release_all_nodes E st ?u)"
    unfolding e by (rule registry_inv_cong [of E ?r]) (use rel in simp_all)
  have "watchers (release_all_nodes E st ?u) n =
      (if n \<in> set (ss_monitored_node_ids st) then watchers sv n - {?id} else watchers sv n)"
    using rel watchers_cong [of "release_all_nodes E st ?u" ?r] watchers_cong [of ?u sv] by (simp add: e)
  then show ?case using Cons.IH [OF ir] by auto
qed simp

lemma close_service_empty:
  assumes inv: "service_inv E sv"
  shows "sv_subscriptions (close_service E sv) = []" "sv_node_monitors (close_service E sv) = []"
    "sv_bins (close_service E sv) = []" "service_inv E (close_service E sv)"
proof -
  let ?L = "dict_values (sv_subscriptions sv)"
  let ?f = "\<lambda>sv st. release_all_nodes E st (upd_sub (ss_subscription_id st) (\<lambda>st. st\<lparr>ss_update_event := True\<rparr>) sv)"
  let ?s0 = "sv\<lparr>sv_shutdown := True\<rparr>"
  let ?s1 = "foldl ?f ?s0 ?L"
  note c = service_invD(1) [OF inv]
  have i0: "registry_inv E ?s0" by (rule registry_inv_cong [OF service_coreD(2) [OF c]]) simp_all
  note loop = close_loop [OF i0, of ?L]
  have "watchers sv n \<subseteq> pending_watch ?L n" for n
  proof
    fix sid assume "sid \<in> watchers sv n"
    then obtain st where st: "dict_get (sv_subscriptions sv) sid = Some st" "n \<in> set (ss_monitored_node_ids st)"
      by (auto simp: service_invD(4) [OF inv] monitoring_def)
    have "st \<in> set ?L" using map_of_SomeD [OF st(1)] by force
    moreover have "ss_subscription_id st = sid" using service_coreD(4) [OF c st(1)] by (simp add: sub_ok_def)
    ultimately show "sid \<in> pending_watch ?L n" using st(2) by (auto simp: pending_watch_def)
  qed
  then have "watchers ?s1 n = {}" for n
    using loop [of n] watchers_cong [of ?s0 sv] by auto
  then have e: "sv_node_monitors ?s1 = []" "sv_bins ?s1 = []"
    using registry_empty loop by blast+
  then show f: "sv_subscriptions (close_service E sv) = []" "sv_node_monitors (close_service E sv) = []"
    "sv_bins (close_service E sv) = []"
    by (simp_all add: close_service_def Let_def)
  have "registry_inv E (close_service E sv)"
    using registry_invD(1) [OF service_coreD(2) [OF c]] f
    by (simp add: registry_inv_def in_bin_def names_bin_def)
  then show "service_inv E (close_service E sv)"
    using service_coreD(1) [OF c] f
    by (simp add: service_inv_iff service_core_def all_started_def watchers_def monitoring_def)
qed

section \<open>Reachable states\<close>

text \<open>Every operation of the service, in any order and with any arguments.\<close>

inductive reachable :: "env \<Rightarrow> service \<Rightarrow> bool" for E :: env where
  start: "reachable E new_service"
| create: "reachable E sv \<Longrightarrow> reachable E (snd (create_subscription E c d sv))"
| delete: "reachable E sv \<Longrightarrow> reachable E (snd (delete_subscriptions E c ids sv))"
| register: "reachable E sv \<Longrightarrow> register_items E c sid ids depth m sv = Some (ok, sv') \<Longrightarrow> reachable E sv'"
| unregister: "reachable E sv \<Longrightarrow> unregister_items E c sid ids m sv = Some (ok, sv') \<Longrightarrow> reachable E sv'"
| sync: "reachable E sv \<Longrightarrow> reachable E (snd (sync E c sid ack allow sv))"
| activate: "reachable E sv \<Longrightarrow> reachable E (snd (activate_stream E c sid sv))"
| deactivate: "reachable E sv \<Longrightarrow> reachable E (deactivate_stream E sid g sv)"
| wait: "reachable E sv \<Longrightarrow> reachable E (snd (wait_begin E c sid after t sv))"
| wake: "reachable E sv \<Longrightarrow> reachable E (snd (wait_finish E c sid after r t' w sv))"
| notify: "reachable E sv \<Longrightarrow> reachable E (datachange_notification E l sid node str v raw sv)"
| notify_node: "reachable E sv \<Longrightarrow> reachable E (node_datachange_notification E l node v sv)"
| callback: "reachable E sv \<Longrightarrow> reachable E (run_callback E sv)"
| datachange: "reachable E sv \<Longrightarrow> reachable E (datachange_loop_turn E sv)"
| node_datachange: "reachable E sv \<Longrightarrow> reachable E (node_datachange_loop_turn E sv)"
| poll: "reachable E sv \<Longrightarrow> reachable E (shared_polling_turn E sv)"
| expire: "reachable E sv \<Longrightarrow> reachable E (expire_subscriptions E sv)"
| reconnect: "reachable E sv \<Longrightarrow> reachable E (handle_client_reconnect E sv)"
| shutdown: "reachable E sv \<Longrightarrow> reachable E (initiate_shutdown sv)"
| close: "reachable E sv \<Longrightarrow> reachable E (close_service E sv)"

lemma reachable_inv:
  assumes "reachable E sv" "env_ok E"
  shows "service_inv E sv"
  using assms(1)
proof (induction rule: reachable.induct)
  case start
  then show ?case by (rule service_inv_new [OF assms(2)])
next
  case (create sv c d)
  then show ?case by (simp add: create_subscription_inv)
next
  case (delete sv c ids)
  then show ?case by (simp add: delete_subscriptions_inv)
next
  case (register sv c sid ids depth m ok sv')
  then show ?case by (blast intro: register_items_inv)
next
  case (unregister sv c sid ids m ok sv')
  then show ?case by (blast intro: unregister_items_inv)
next
  case (sync sv c sid ack allow)
  then show ?case by (blast intro: quiet_step_inv quiet_sync)
next
  case (activate sv c sid)
  then show ?case by (blast intro: quiet_step_inv quiet_activate)
next
  case (deactivate sv sid g)
  then show ?case by (blast intro: quiet_step_inv quiet_deactivate)
next
  case (wait sv c sid after t)
  then show ?case by (blast intro: quiet_step_inv quiet_wait_begin)
next
  case (wake sv c sid after r t' w)
  then show ?case by (blast intro: quiet_step_inv quiet_wait_finish)
next
  case (notify sv l sid node str v raw)
  then show ?case unfolding datachange_notification_def by (blast intro: quiet_step_inv quiet_schedule)
next
  case (notify_node sv l node v)
  then show ?case
    by (cases node) (simp_all add: node_datachange_notification_def quiet_step_inv [OF quiet_schedule(2)])
next
  case (callback sv)
  then show ?case by (blast intro: quiet_step_inv quiet_run_callback)
next
  case (datachange sv)
  then show ?case by (blast intro: quiet_step_inv quiet_turns)
next
  case (node_datachange sv)
  then show ?case by (blast intro: quiet_step_inv quiet_turns)
next
  case (poll sv)
  then show ?case by (blast intro: quiet_step_inv quiet_turns)
next
  case (expire sv)
  then show ?case by (simp add: expire_subscriptions_inv)
next
  case (reconnect sv)
  then show ?case by (simp add: handle_client_reconnect_inv)
next
  case (shutdown sv)
  then show ?case by (blast intro: quiet_step_inv quiet_shutdown)
next
  case (close sv)
  then show ?case by (simp add: close_service_empty(4))
qed

end
