(* ===== verification/Lookup.thy ===== *)
theory Lookup
  imports Model
begin

text \<open>
  Looking elements up in a built model and describing them,
  \<open>i3x_server/api/v1/object_helpers.py\<close>: element lookup by id, name, type or source node, the
  parent and children of a node, its relationships, and the identifier tokens of object types.
  The \<open>isinstance\<close> tests of the source are the types of the model here.
\<close>

section \<open>Finding an element\<close>

text \<open>The final scan: the first node whose name, type or source node id is the element id.\<close>

definition scan_matches :: "string \<Rightarrow> ModelNode \<Rightarrow> bool" where
  "scan_matches e n = (mn_name n = e \<or> mn_type n = Some e \<or> mn_source_node_id n = e
     \<or> py_lower (mn_source_node_id n) = py_lower e)"

definition indexed_node :: "BuildResult \<Rightarrow> (string, string) dict \<Rightarrow> string \<Rightarrow> ModelNode option" where
  "indexed_node m index e =
     (case dict_get index e of None \<Rightarrow> None | Some i \<Rightarrow> node_of m i)"

definition find_model_node :: "BuildResult \<Rightarrow> string \<Rightarrow> ModelNode option" where
  "find_model_node m e =
     (case node_of m e of
        Some n \<Rightarrow> Some n
      | None \<Rightarrow>
          (case indexed_node m (br_node_id_by_name m) e of
             Some n \<Rightarrow> Some n
           | None \<Rightarrow>
               (case indexed_node m (br_node_id_by_type m) e of
                  Some n \<Rightarrow> Some n
                | None \<Rightarrow> find (scan_matches e) (dict_values (br_nodes_by_id m)))))"

section \<open>Parents and children\<close>

text \<open>\<open>index.setdefault(child_id, parent_id)\<close> over all children lists.\<close>

definition add_children :: "(string, string list) dict \<Rightarrow> (string, string) dict \<Rightarrow> (string, string) dict" where
  "add_children children index =
     foldl (\<lambda>ix (p, cs). foldl (\<lambda>ix c. dict_setdefault c p ix) ix cs) index children"

definition compute_reverse_parent_index :: "BuildResult \<Rightarrow> (string, string) dict" where
  "compute_reverse_parent_index m =
     add_children (br_children_by_id m) (add_children (br_hierarchy_children_by_id m) [])"

text \<open>
  The model carries a cached index with a fingerprint of the sizes of the two dictionaries; the
  cache is explicit here.
\<close>

type_synonym reverse_cache = "((nat \<times> nat) \<times> (string, string) dict) option"

definition fingerprint :: "BuildResult \<Rightarrow> nat \<times> nat" where
  "fingerprint m = (length (br_hierarchy_children_by_id m), length (br_children_by_id m))"

definition reverse_parent_index :: "BuildResult \<Rightarrow> reverse_cache \<Rightarrow> (string, string) dict \<times> reverse_cache" where
  "reverse_parent_index m cache =
     (case cache of
        Some (f, ix) \<Rightarrow>
          if f = fingerprint m then (ix, cache)
          else (let ix = compute_reverse_parent_index m in (ix, Some (fingerprint m, ix)))
      | None \<Rightarrow> (let ix = compute_reverse_parent_index m in (ix, Some (fingerprint m, ix))))"

definition parent_id_for_node :: "BuildResult \<Rightarrow> string \<Rightarrow> string option" where
  "parent_id_for_node m i =
     (if i \<in> set (br_root_ids m) then None
      else case dict_get (br_hierarchy_parent_by_id m) i of
        Some p \<Rightarrow> Some p
      | None \<Rightarrow>
          (if (case node_of m i of Some n \<Rightarrow> mn_kind n \<in> {Asset, EventSource} | None \<Rightarrow> False) then None
           else case dict_get (br_parent_by_id m) i of
             Some p \<Rightarrow> Some p
           | None \<Rightarrow> dict_get (fst (reverse_parent_index m None)) i))"

definition is_property :: "BuildResult \<Rightarrow> string \<Rightarrow> bool" where
  "is_property m i = (case node_of m i of Some n \<Rightarrow> mn_kind n = Property | None \<Rightarrow> False)"

definition hierarchy_children_for_node :: "BuildResult \<Rightarrow> ModelNode \<Rightarrow> string list" where
  "hierarchy_children_for_node m n =
     (case dict_get (br_hierarchy_children_by_id m) (mn_id n) of
        Some cs \<Rightarrow> cs
      | None \<Rightarrow> filter (\<lambda>c. node_of m c \<noteq> None \<and> \<not> is_property m c) (children_of m (mn_id n)))"

definition composition_children_for_node :: "BuildResult \<Rightarrow> ModelNode \<Rightarrow> string list" where
  "composition_children_for_node m n =
     (case dict_get (br_composition_children_by_id m) (mn_id n) of
        Some cs \<Rightarrow> cs
      | None \<Rightarrow> filter (is_property m) (children_of m (mn_id n)))"

definition relationships_for_node :: "BuildResult \<Rightarrow> ModelNode \<Rightarrow> (string, string list) dict" where
  "relationships_for_node m n =
     (let normalized = filter (\<lambda>(k, ts). ts \<noteq> []) (dict_get_def (br_relationships_by_id m) (mn_id n) []) in
      if normalized \<noteq> [] then normalized
      else (case parent_id_for_node m (mn_id n) of None \<Rightarrow> [] | Some p \<Rightarrow> [(''HasParent'', [p])])
           @ (if hierarchy_children_for_node m n = [] then [] else [(''HasChildren'', hierarchy_children_for_node m n)])
           @ (if composition_children_for_node m n = [] then [] else [(''HasComponent'', composition_children_for_node m n)]))"

section \<open>Relationship types\<close>

record RelationshipType =
  rt_element_id :: string
  rt_display_name :: string
  rt_namespace_uri :: string
  rt_relationship_id :: string
  rt_reverse_of :: string

definition I3X_NAMESPACE :: string where
  "I3X_NAMESPACE = ''https://cesmii.org/i3x''"

definition standard_relationship :: "string \<Rightarrow> string \<Rightarrow> RelationshipType" where
  "standard_relationship name rev_name =
     \<lparr>rt_element_id = name, rt_display_name = name, rt_namespace_uri = I3X_NAMESPACE,
      rt_relationship_id = name, rt_reverse_of = rev_name\<rparr>"

definition relationship_type_to_parent :: "ModelNode \<Rightarrow> RelationshipType" where
  "relationship_type_to_parent n =
     (if mn_kind n = Property then standard_relationship ''ComponentOf'' ''HasComponent''
      else standard_relationship ''HasParent'' ''HasChildren'')"

definition relationship_type_for_name :: "string \<Rightarrow> ModelNode \<Rightarrow> RelationshipType" where
  "relationship_type_for_name name n =
     (if name = ''HasChildren'' then standard_relationship ''HasChildren'' ''HasParent''
      else if name = ''HasParent'' then relationship_type_to_parent n
      else if name = ''HasComponent'' then standard_relationship ''HasComponent'' ''ComponentOf''
      else if name = ''ComponentOf'' then standard_relationship ''ComponentOf'' ''HasComponent''
      else standard_relationship name [])"

text \<open>
  The relationship types a model offers (\<open>application/services/model_query.py\<close>): the four
  standard ones, then each graph relationship with its inverse, in sorted order. A missing
  namespace of a graph name is a \<open>KeyError\<close>.
\<close>

definition standard_types :: "RelationshipType list" where
  "standard_types =
     [standard_relationship ''HasParent'' ''HasChildren'', standard_relationship ''HasChildren'' ''HasParent'',
      standard_relationship ''HasComponent'' ''ComponentOf'', standard_relationship ''ComponentOf'' ''HasComponent'']"

definition inverse_name :: "string \<Rightarrow> string" where
  "inverse_name name = ''inverseOf_'' @ name"

definition graph_types :: "BuildResult \<Rightarrow> string \<Rightarrow> RelationshipType list result" where
  "graph_types m name =
     (case dict_get (br_graph_relationship_namespace_by_id m) name of
        None \<Rightarrow> Inl (KeyError name)
      | Some uri \<Rightarrow>
          (let dn = dict_get_def (br_graph_relationship_display_name_by_id m) name name in
           Inr [\<lparr>rt_element_id = name, rt_display_name = dn, rt_namespace_uri = uri,
                 rt_relationship_id = name, rt_reverse_of = inverse_name name\<rparr>,
                \<lparr>rt_element_id = inverse_name name, rt_display_name = inverse_name dn,
                 rt_namespace_uri = uri, rt_relationship_id = inverse_name name,
                 rt_reverse_of = name\<rparr>]))"

definition relationship_type_items :: "BuildResult option \<Rightarrow> RelationshipType list result" where
  "relationship_type_items model =
     (case model of
        None \<Rightarrow> Inr standard_types
      | Some m \<Rightarrow>
          rbind (rmap (graph_types m)
                   (filter (\<lambda>name. name \<notin> rt_element_id ` set standard_types)
                      (sort (br_graph_relationship_names m))))
            (\<lambda>gs. Inr (standard_types @ concat gs)))"

definition get_relationship_types :: "BuildResult \<Rightarrow> string option \<Rightarrow> RelationshipType list result" where
  "get_relationship_types m namespace_uri =
     rbind (relationship_type_items (Some m)) (\<lambda>items. Inr
       (case namespace_uri of None \<Rightarrow> items | Some u \<Rightarrow> filter (\<lambda>t. rt_namespace_uri t = u) items))"

section \<open>Identifier tokens\<close>

text \<open>\<open>re.sub(r"[^a-z0-9]+", "-", s)\<close>: every run of other characters becomes one dash.\<close>

fun dash_runs :: "(char \<Rightarrow> bool) \<Rightarrow> bool \<Rightarrow> string \<Rightarrow> string" where
  "dash_runs keep in_run [] = []"
| "dash_runs keep in_run (c # cs) =
     (if keep c then c # dash_runs keep False cs
      else if in_run then dash_runs keep True cs else CHR ''-'' # dash_runs keep True cs)"

definition lower_alnum :: "char \<Rightarrow> bool" where
  "lower_alnum c = (c \<in> set ''abcdefghijklmnopqrstuvwxyz0123456789'')"

definition is_dash :: "char \<Rightarrow> bool" where
  "is_dash c = (c = CHR ''-'')"

definition to_urn_token :: "string \<Rightarrow> string" where
  "to_urn_token v =
     (let t = strip_if is_dash (dash_runs lower_alnum False (py_lower v)) in
      if t = [] then ''unknown'' else t)"

definition server_uri_for_namespace_infos :: "OpcUaNamespaceInfo list \<Rightarrow> string" where
  "server_uri_for_namespace_infos infos =
     (case find (\<lambda>i. case ni_server_uri i of Some u \<Rightarrow> py_strip u \<noteq> [] | None \<Rightarrow> False) infos of
        Some i \<Rightarrow> py_strip (the (ni_server_uri i))
      | None \<Rightarrow> ''unknown-server'')"

definition namespace_version_for_uri :: "string \<Rightarrow> OpcUaNamespaceInfo list \<Rightarrow> string" where
  "namespace_version_for_uri uri infos =
     (case find (\<lambda>i. normalize_namespace_uri (ni_uri i) = normalize_namespace_uri uri) infos of
        None \<Rightarrow> ''unknown-version''
      | Some i \<Rightarrow> (case ni_namespace_version i of
            Some v \<Rightarrow> if py_strip v \<noteq> [] then py_strip v else ''unknown-version''
          | None \<Rightarrow> ''unknown-version''))"

definition server_uri_token :: "string \<Rightarrow> string" where
  "server_uri_token uri =
     (let s = py_strip uri in
      to_urn_token (if startswith (py_lower s) ''urn:'' then drop 4 s else s))"

text \<open>\<open>s.split(";", 1)[-1]\<close>.\<close>

definition after_semicolon :: "string \<Rightarrow> string" where
  "after_semicolon s = (case partition_at CHR '';'' s of (_, Some t) \<Rightarrow> t | (_, None) \<Rightarrow> s)"

definition type_urn :: "string \<Rightarrow> string \<Rightarrow> string \<Rightarrow> string \<Rightarrow> string \<Rightarrow> string" where
  "type_urn namespace_uri name node_id server_uri version =
     join_with '':'' [''urn'', server_uri_token server_uri, ''objecttype'', to_urn_token namespace_uri,
       ''v-'' @ to_urn_token version, to_urn_token name, to_urn_token (after_semicolon node_id)]"

definition object_type_element_id :: "string \<Rightarrow> string \<Rightarrow> string \<Rightarrow> string \<Rightarrow> string \<Rightarrow> string" where
  "object_type_element_id node_id browse_name namespace_uri server_uri namespace_version =
     type_urn namespace_uri browse_name node_id server_uri namespace_version"

definition virtual_object_type_element_id :: "string \<Rightarrow> string \<Rightarrow> string \<Rightarrow> string \<Rightarrow> string \<Rightarrow> string" where
  "virtual_object_type_element_id namespace_uri display_name source_type_id server_uri namespace_version =
     type_urn namespace_uri display_name source_type_id server_uri namespace_version"

definition unknown_type_element_id :: "OpcUaNamespaceInfo list \<Rightarrow> string" where
  "unknown_type_element_id infos =
     (let uri = (case infos of [] \<Rightarrow> ''https://cesmii.org/i3x/unknown''
                 | i # _ \<Rightarrow> canonical_namespace_uri (ni_uri i) infos)
      in virtual_object_type_element_id uri ''UnknownType'' ''nsu=http://opcfoundation.org/UA/;i=0''
           (server_uri_for_namespace_infos infos) (namespace_version_for_uri uri infos))"

section \<open>Object instances\<close>

text \<open>\<open>^(?:ns=\d+;)?[isgb]=.+$\<close>, ignoring case, or an expanded id.\<close>

definition is_opcua_node_id :: "string \<Rightarrow> bool" where
  "is_opcua_node_id v =
     (startswith v ''nsu='' \<or>
      (case match_identifier (snd (ns_prefix (py_lower v))) of Some (k, a) \<Rightarrow> a \<noteq> [] | None \<Rightarrow> False))"

definition resolve_type_namespace_uri :: "string \<Rightarrow> string \<Rightarrow> OpcUaNamespaceInfo list \<Rightarrow> string option" where
  "resolve_type_namespace_uri type_element_id source_type_id_expanded infos =
     (let u1 = namespace_uri_from_expanded_node_id type_element_id;
          u2 = (if u1 = None \<and> is_opcua_node_id type_element_id
                   \<and> namespace_uri_for_node_id type_element_id infos \<noteq> []
                then Some (namespace_uri_for_node_id type_element_id infos) else u1);
          u3 = (if u2 = None then namespace_uri_from_expanded_node_id source_type_id_expanded else u2)
      in map_option (\<lambda>u. canonical_namespace_uri u infos) u3)"

definition resolved_type_element_id_for_node ::
  "ModelNode \<Rightarrow> OpcUaNamespaceInfo list \<Rightarrow> (string, string) dict \<Rightarrow> (string, string) dict \<Rightarrow> string" where
  "resolved_type_element_id_for_node n infos by_node_id by_source_type =
     (if mn_kind n = Property then
        (let raw = (case mn_type n of Some t \<Rightarrow> if t = [] then ''unknown-type'' else t | None \<Rightarrow> ''unknown-type'');
             t = expanded_node_id raw infos
         in if is_null_opcua_type_node_id t then unknown_type_element_id infos
            else dict_get_def by_source_type (py_lower t) t)
      else (case mn_source_type_id n of
          None \<Rightarrow> unknown_type_element_id infos
        | Some s \<Rightarrow>
            (if s = [] then unknown_type_element_id infos
             else (let x = expanded_node_id s infos in
                   if is_null_opcua_type_node_id x then unknown_type_element_id infos
                   else case dict_get by_node_id s of
                     Some r \<Rightarrow> r
                   | None \<Rightarrow> dict_get_def by_source_type (py_lower x) x))))"

text \<open>\<open>HasParent\<close> is reported as one id, the other relationships as lists.\<close>

datatype relation_targets = OneTarget string | Targets "string list"

record ObjectInstanceMetadata =
  om_type_namespace_uri :: "string option"
  om_source_type_id :: string
  om_description :: string
  om_composition_parent_id :: "string option"
  om_relationships :: "(string \<times> relation_targets) list"

definition build_object_instance_metadata ::
  "BuildResult \<Rightarrow> ModelNode \<Rightarrow> string option \<Rightarrow> string \<Rightarrow> ObjectInstanceMetadata" where
  "build_object_instance_metadata m n type_namespace_uri source_type_id_expanded =
     \<lparr>om_type_namespace_uri = type_namespace_uri,
      om_source_type_id = source_type_id_expanded,
      om_description =
        (case dict_get (mn_metadata n) ''description'' of
           Some (PStr d) \<Rightarrow> if py_strip d \<noteq> [] then d else ''Derived from model node '' @ mn_name n
         | _ \<Rightarrow> ''Derived from model node '' @ mn_name n),
      om_composition_parent_id = dict_get (br_composition_parent_by_id m) (mn_id n),
      om_relationships =
        map (\<lambda>(k, ts). (k, if k = ''HasParent'' then OneTarget (hd ts) else Targets ts))
          (relationships_for_node m n)\<rparr>"

record ObjectInstanceResponse =
  ob_element_id :: string
  ob_display_name :: string
  ob_type_element_id :: string
  ob_parent_id :: "string option"
  ob_is_composition :: bool
  ob_is_extended :: bool
  ob_metadata :: "ObjectInstanceMetadata option"

definition to_object_instance ::
  "BuildResult \<Rightarrow> ModelNode \<Rightarrow> bool \<Rightarrow> OpcUaNamespaceInfo list \<Rightarrow> (string, string) dict
   \<Rightarrow> (string, string) dict \<Rightarrow> ObjectInstanceResponse" where
  "to_object_instance m n include_metadata infos by_node_id by_source_type =
     (let source_type_id = (case mn_source_type_id n of Some s \<Rightarrow> if s = [] then mn_source_node_id n else s
                            | None \<Rightarrow> mn_source_node_id n);
          x = expanded_node_id source_type_id infos;
          t = resolved_type_element_id_for_node n infos by_node_id by_source_type;
          u = resolve_type_namespace_uri t x infos
      in \<lparr>ob_element_id = mn_id n, ob_display_name = mn_name n, ob_type_element_id = t,
          ob_parent_id = parent_id_for_node m (mn_id n),
          ob_is_composition = (composition_children_for_node m n \<noteq> []),
          ob_is_extended = False,
          ob_metadata = (if include_metadata then Some (build_object_instance_metadata m n u x) else None)\<rparr>)"

definition object_type_related_instances ::
  "BuildResult \<Rightarrow> string \<Rightarrow> OpcUaNamespaceInfo list \<Rightarrow> (string, string) dict \<Rightarrow> (string, string) dict
   \<Rightarrow> ObjectInstanceResponse list" where
  "object_type_related_instances m type_node_id infos by_node_id by_source_type =
     [to_object_instance m n True infos by_node_id by_source_type.
        i \<leftarrow> dict_get_def (br_instances_by_type_id m) type_node_id [], Some n \<leftarrow> [node_of m i]]"

text \<open>The related objects of a node, with the name of the relationship each comes from.\<close>

definition build_related_objects_for_node ::
  "BuildResult \<Rightarrow> ModelNode \<Rightarrow> string option \<Rightarrow> bool \<Rightarrow> OpcUaNamespaceInfo list \<Rightarrow> (string, string) dict
   \<Rightarrow> (string, string) dict \<Rightarrow> (string \<times> ObjectInstanceResponse) list" where
  "build_related_objects_for_node m n type_filter include_metadata infos by_node_id by_source_type =
     [(rt_display_name (relationship_type_for_name name n),
       to_object_instance m x include_metadata infos by_node_id by_source_type).
        (name, ts) \<leftarrow> filter (\<lambda>(name, ts). type_filter = None
             \<or> Some (rt_element_id (relationship_type_for_name name n)) = type_filter)
             (relationships_for_node m n),
        t \<leftarrow> ts, Some x \<leftarrow> [node_of m t]]"

section \<open>Facts about lookups\<close>

lemma indexed_node_SomeD:
  "indexed_node m ix e = Some n \<Longrightarrow> \<exists>i. dict_get ix e = Some i \<and> node_of m i = Some n"
  by (simp add: indexed_node_def split: option.splits)

text \<open>The name and type indexes name the nodes they point to.\<close>

definition index_sound :: "BuildResult \<Rightarrow> bool" where
  "index_sound m \<longleftrightarrow>
     (\<forall>(e, i) \<in> set (br_node_id_by_name m). \<forall>n. node_of m i = Some n \<longrightarrow> mn_name n = e)
     \<and> (\<forall>(e, i) \<in> set (br_node_id_by_type m). \<forall>n. node_of m i = Some n \<longrightarrow> mn_type n = Some e)"

text \<open>
  Element lookup is sound and complete: with sound indexes a lookup that succeeds returns a
  node of the model that has the element id as its id, name, type or source node id, an exact
  id always wins, and a lookup fails only when no node of the model matches in any way.
\<close>

theorem find_model_node_sound_complete:
  assumes "ids_ok m" "index_sound m"
  shows "(\<forall>n. find_model_node m e = Some n \<longrightarrow>
        n \<in> set (dict_values (br_nodes_by_id m)) \<and> (mn_id n = e \<or> scan_matches e n))
    \<and> (\<forall>n. node_of m e = Some n \<longrightarrow> find_model_node m e = Some n)
    \<and> (find_model_node m e = None \<longleftrightarrow>
        (\<forall>n \<in> set (dict_values (br_nodes_by_id m)). mn_id n \<noteq> e \<and> \<not> scan_matches e n))"
proof -
  have mem: "n \<in> set (dict_values (br_nodes_by_id m))" if "node_of m i = Some n" for i n
    using map_of_SomeD [OF that] by force
  have name: "scan_matches e n" if h: "indexed_node m (br_node_id_by_name m) e = Some n" for n
  proof -
    obtain i where "(e, i) \<in> set (br_node_id_by_name m)" "node_of m i = Some n"
      using indexed_node_SomeD [OF h] map_of_SomeD by metis
    with assms(2) show ?thesis unfolding index_sound_def scan_matches_def by blast
  qed
  have type: "scan_matches e n" if h: "indexed_node m (br_node_id_by_type m) e = Some n" for n
  proof -
    obtain i where "(e, i) \<in> set (br_node_id_by_type m)" "node_of m i = Some n"
      using indexed_node_SomeD [OF h] map_of_SomeD by metis
    with assms(2) show ?thesis unfolding index_sound_def scan_matches_def by blast
  qed
  have sound: "n \<in> set (dict_values (br_nodes_by_id m)) \<and> (mn_id n = e \<or> scan_matches e n)"
    if "find_model_node m e = Some n" for n
    using that ids_okD [OF assms(1)] name type mem
    by (auto simp: find_model_node_def find_Some_iff dest!: indexed_node_SomeD split: option.splits)
  have "find_model_node m e \<noteq> None" if n: "n \<in> set (dict_values (br_nodes_by_id m))" "mn_id n = e \<or> scan_matches e n" for n
  proof (cases "node_of m e")
    case None
    have "mn_id n \<noteq> e"
    proof
      assume "mn_id n = e"
      moreover obtain k where "(k, n) \<in> set (br_nodes_by_id m)" using n(1) by auto
      ultimately have "e \<in> fst ` set (br_nodes_by_id m)" using assms(1) by (force simp: ids_ok_def)
      with None show False by (simp add: map_of_eq_None_iff)
    qed
    with n have "find (scan_matches e) (dict_values (br_nodes_by_id m)) \<noteq> None"
      by (metis find_None_iff)
    then show ?thesis by (auto simp: find_model_node_def split: option.splits)
  qed (simp add: find_model_node_def)
  then have complete: "\<forall>n \<in> set (dict_values (br_nodes_by_id m)). mn_id n \<noteq> e \<and> \<not> scan_matches e n"
    if "find_model_node m e = None"
    using that by blast
  have none: "find_model_node m e = None"
    if "\<forall>n \<in> set (dict_values (br_nodes_by_id m)). mn_id n \<noteq> e \<and> \<not> scan_matches e n"
  proof (rule ccontr)
    assume "find_model_node m e \<noteq> None"
    then obtain n where "find_model_node m e = Some n" by auto
    with sound that show False by blast
  qed
  have exact: "find_model_node m e = Some n" if "node_of m e = Some n" for n
    using that by (simp add: find_model_node_def)
  show ?thesis
    by (intro conjI allI impI iffI; (rule sound [THEN conjunct1] | rule sound [THEN conjunct2] | rule exact
        | rule complete | rule none); assumption)
qed

definition lookup_model :: BuildResult where
  "lookup_model =
     (let n = \<lparr>mn_id = ''property-1'', mn_name = ''Speed'', mn_kind = Property, mn_type = Some ''i=11'',
               mn_children = [], mn_source_node_id = ''ns=1;s=Speed'', mn_source_type_id = None,
               mn_parent_id = None, mn_is_composition = False, mn_semantic_role = RoleUnknown,
               mn_mapping_confidence = Medium, mn_relationships = [], mn_metadata = []\<rparr>
      in \<lparr>br_nodes_by_id = [(''property-1'', n)], br_root_ids = [], br_children_by_id = [],
      br_instances_by_type_id = [], br_property_to_node = [], br_action_to_method = [],
      br_parent_by_id = [], br_node_id_by_name = [(''Speed'', ''property-1'')], br_node_id_by_type = [],
      br_hierarchy_children_by_id = [], br_composition_children_by_id = [],
      br_graph_related_by_id = [], br_relationships_by_id = [], br_hierarchy_parent_by_id = [],
      br_composition_parent_by_id = [], br_graph_relationship_names = [''Controls''],
      br_graph_relationship_namespace_by_id = [(''Controls'', ''urn:x'')],
      br_graph_relationship_display_name_by_id = [],
      br_semantic_role_by_id = [], br_mapping_confidence_by_id = [], br_parent_id_by_id = [],
      br_applied_profile_ids_by_id = [], br_namespace_uri_by_id = [], br_element_id_by_node_id = [],
      br_element_id_by_expanded_node_id = [], br_namespace_uri_by_index = []\<rparr>)"

theorem find_model_node_sound_complete_witness:
  "find_model_node lookup_model ''NS=1;S=SPEED'' \<noteq> None \<and> find_model_node lookup_model ''speed'' = None"
proof -
  have ok: "ids_ok lookup_model" "index_sound lookup_model"
    by (simp_all add: lookup_model_def ids_ok_def index_sound_def Let_def)
  have "\<exists>n \<in> set (dict_values (br_nodes_by_id lookup_model)). scan_matches ''NS=1;S=SPEED'' n"
    "\<forall>n \<in> set (dict_values (br_nodes_by_id lookup_model)). mn_id n \<noteq> ''speed'' \<and> \<not> scan_matches ''speed'' n"
    by code_simp+
  then show ?thesis using find_model_node_sound_complete [OF ok] by blast
qed

text \<open>Setting a default over a list of children.\<close>

lemma setdefault_each:
  "dict_get (foldl (\<lambda>ix c. dict_setdefault c p ix) ix cs) c =
     (case dict_get ix c of Some q \<Rightarrow> Some q | None \<Rightarrow> if c \<in> set cs then Some p else None)"
  by (induction cs arbitrary: ix) (auto simp: dict_get_setdefault dict_get_def_def split: option.splits)

lemma add_children_get:
  "dict_get (add_children children ix) c =
     (case dict_get ix c of Some q \<Rightarrow> Some q
      | None \<Rightarrow> map_option fst (find (\<lambda>(p, cs). c \<in> set cs) children))"
  unfolding add_children_def
  by (induction children arbitrary: ix) (auto simp: setdefault_each split: option.splits)

lemma compute_reverse_get:
  "dict_get (compute_reverse_parent_index m) c =
     (case find (\<lambda>(p, cs). c \<in> set cs) (br_hierarchy_children_by_id m) of
        Some (p, _) \<Rightarrow> Some p
      | None \<Rightarrow> map_option fst (find (\<lambda>(p, cs). c \<in> set cs) (br_children_by_id m)))"
  by (auto simp: compute_reverse_parent_index_def add_children_get split: option.splits)

text \<open>
  The reverse parent index answers for every child, with the first parent that lists it, the
  hierarchy before the browse tree, and keeping it in the model's cache changes no answer: a
  second lookup on the same model returns the same index and cache.
\<close>

theorem reverse_parent_index_correct:
  "(dict_get (fst (reverse_parent_index m None)) c = None \<longleftrightarrow>
      (\<forall>(p, cs) \<in> set (br_hierarchy_children_by_id m) \<union> set (br_children_by_id m). c \<notin> set cs))
    \<and> (\<forall>p. dict_get (fst (reverse_parent_index m None)) c = Some p \<longrightarrow>
        (\<exists>cs. c \<in> set cs \<and> ((p, cs) \<in> set (br_hierarchy_children_by_id m) \<or> (p, cs) \<in> set (br_children_by_id m))))
    \<and> reverse_parent_index m (snd (reverse_parent_index m None)) = reverse_parent_index m None"
proof -
  have "dict_get (compute_reverse_parent_index m) c = None \<longleftrightarrow>
      (\<forall>(p, cs) \<in> set (br_hierarchy_children_by_id m) \<union> set (br_children_by_id m). c \<notin> set cs)"
    by (auto simp: compute_reverse_get find_None_iff split: option.splits)
      (auto simp: find_Some_iff set_conv_nth case_prod_beta)
  moreover have "\<exists>cs. c \<in> set cs \<and> ((p, cs) \<in> set (br_hierarchy_children_by_id m) \<or> (p, cs) \<in> set (br_children_by_id m))"
    if "dict_get (compute_reverse_parent_index m) c = Some p" for p
    using that by (auto simp: compute_reverse_get find_Some_iff split: option.splits)
      (metis nth_mem)+
  ultimately show ?thesis
    by (auto simp: reverse_parent_index_def Let_def)
qed

theorem reverse_parent_index_correct_witness:
  "dict_get (fst (reverse_parent_index (lookup_model\<lparr>br_children_by_id := [(''a'', [''b''])]\<rparr>) None)) ''b'' \<noteq> None"
  using reverse_parent_index_correct [of "lookup_model\<lparr>br_children_by_id := [(''a'', [''b''])]\<rparr>" "''b''"]
  by simp

section \<open>Relationship types come in pairs\<close>

lemma standard_types_paired:
  "\<forall>t \<in> set standard_types. \<exists>t' \<in> set standard_types. rt_element_id t' = rt_reverse_of t
     \<and> rt_reverse_of t' = rt_element_id t \<and> rt_namespace_uri t' = rt_namespace_uri t"
  by code_simp

text \<open>
  Every relationship type a model offers has its reverse in the same list: the reverse
  exists under the announced element id, points back, and has the same namespace; so clients can
  always walk a relationship in both directions. The list fails only when a graph relationship
  has no namespace.
\<close>

theorem relationship_types_are_paired:
  assumes "relationship_type_items (Some m) = Inr items" "t \<in> set items"
  shows "\<exists>t' \<in> set items. rt_element_id t' = rt_reverse_of t \<and> rt_reverse_of t' = rt_element_id t
    \<and> rt_namespace_uri t' = rt_namespace_uri t"
proof -
  obtain gs where gs: "items = standard_types @ concat gs"
    "rmap (graph_types m) (filter (\<lambda>name. name \<notin> rt_element_id ` set standard_types)
      (sort (br_graph_relationship_names m))) = Inr gs"
    using assms(1) by (auto simp: relationship_type_items_def rbind_Inr_iff)
  show ?thesis
  proof (cases "t \<in> set standard_types")
    case True
    then obtain t' where "t' \<in> set standard_types" "rt_element_id t' = rt_reverse_of t"
      "rt_reverse_of t' = rt_element_id t" "rt_namespace_uri t' = rt_namespace_uri t"
      using standard_types_paired by blast
    moreover from this(1) have "t' \<in> set items" by (simp add: gs(1))
    ultimately show ?thesis by blast
  next
    case False
    then obtain g where g: "g \<in> set gs" "t \<in> set g" using assms(2) by (auto simp: gs(1))
    then obtain name where "graph_types m name = Inr g"
      using rmap_mem [OF gs(2)] by blast
    then have "\<exists>a b. g = [a, b] \<and> rt_element_id a = rt_reverse_of b \<and> rt_element_id b = rt_reverse_of a
        \<and> rt_namespace_uri a = rt_namespace_uri b"
      by (auto simp: graph_types_def Let_def split: option.splits)
    then obtain a b where ab: "g = [a, b]" "rt_element_id a = rt_reverse_of b" "rt_element_id b = rt_reverse_of a"
      "rt_namespace_uri a = rt_namespace_uri b"
      by blast
    have sub: "set g \<subseteq> set items" using g(1) by (auto simp: gs(1))
    from g(2) ab(1) have "t = a \<or> t = b" by simp
    then have "\<exists>t' \<in> set g. rt_element_id t' = rt_reverse_of t \<and> rt_reverse_of t' = rt_element_id t
        \<and> rt_namespace_uri t' = rt_namespace_uri t"
      using ab by auto
    with sub show ?thesis by blast
  qed
qed

theorem relationship_types_are_paired_witness:
  "\<exists>items t t'. relationship_type_items (Some lookup_model) = Inr items \<and> t \<in> set items
    \<and> rt_element_id t = ''Controls'' \<and> t' \<in> set items \<and> rt_element_id t' = ''inverseOf_Controls''
    \<and> rt_reverse_of t' = ''Controls''"
proof -
  have g: "graph_types lookup_model ''Controls'' = Inr
      [\<lparr>rt_element_id = ''Controls'', rt_display_name = ''Controls'', rt_namespace_uri = ''urn:x'',
        rt_relationship_id = ''Controls'', rt_reverse_of = inverse_name ''Controls''\<rparr>,
       \<lparr>rt_element_id = inverse_name ''Controls'', rt_display_name = inverse_name ''Controls'',
        rt_namespace_uri = ''urn:x'', rt_relationship_id = inverse_name ''Controls'',
        rt_reverse_of = ''Controls''\<rparr>]"
    by (simp add: graph_types_def lookup_model_def dict_get_def_def Let_def)
  have s: "sort (br_graph_relationship_names lookup_model) = [''Controls'']"
    by (simp add: lookup_model_def Let_def)
  have c: "''Controls'' \<notin> rt_element_id ` set standard_types"
    by (simp add: standard_types_def standard_relationship_def)
  obtain items where i: "relationship_type_items (Some lookup_model) = Inr items"
    "\<lparr>rt_element_id = ''Controls'', rt_display_name = ''Controls'', rt_namespace_uri = ''urn:x'',
        rt_relationship_id = ''Controls'', rt_reverse_of = inverse_name ''Controls''\<rparr> \<in> set items"
    using c by (simp add: relationship_type_items_def s g)
  from relationship_types_are_paired [OF i] i show ?thesis
    by (auto simp: inverse_name_def)
qed

section \<open>Tokens\<close>

text \<open>Only kept characters and single dashes; \<open>b\<close> is true after a dash.\<close>

fun single_dashes :: "bool \<Rightarrow> string \<Rightarrow> bool" where
  "single_dashes b [] = True"
| "single_dashes b (c # cs) =
     ((lower_alnum c \<and> single_dashes False cs) \<or> (is_dash c \<and> \<not> b \<and> single_dashes True cs))"

lemma dash_not_alnum: "is_dash c \<Longrightarrow> \<not> lower_alnum c"
  by (simp add: is_dash_def lower_alnum_def)

lemma single_dashes_runs: "single_dashes b (dash_runs lower_alnum b s)"
  by (induction lower_alnum b s rule: dash_runs.induct) (auto simp: is_dash_def)

lemma dash_runs_fix: "single_dashes b s \<Longrightarrow> dash_runs lower_alnum b s = s"
  by (induction b s rule: single_dashes.induct) (auto simp: is_dash_def dash_not_alnum)

lemma single_dashes_weaken: "single_dashes True s \<Longrightarrow> single_dashes b s"
  by (cases s) auto

lemma single_dashes_suffix: "single_dashes b (s @ t) \<Longrightarrow> single_dashes False t"
proof (induction s arbitrary: b)
  case Nil
  then show ?case by (cases b) (auto intro: single_dashes_weaken)
qed auto

lemma single_dashes_prefix: "single_dashes b (s @ t) \<Longrightarrow> single_dashes b s"
  by (induction b s rule: single_dashes.induct) auto

lemma strip_if_factor: "\<exists>a b. s = a @ strip_if p s @ b"
proof -
  let ?t = "dropWhile p s"
  have "s = takeWhile p s @ ?t" by simp
  moreover have "?t = rev (dropWhile p (rev ?t)) @ rev (takeWhile p (rev ?t))"
    by (metis rev_append rev_rev_ident takeWhile_dropWhile_id)
  ultimately show ?thesis unfolding strip_if_def by metis
qed

lemma single_dashes_strip: "single_dashes False s \<Longrightarrow> single_dashes False (strip_if is_dash s)"
  using strip_if_factor [of s is_dash] by (metis single_dashes_prefix single_dashes_suffix)

lemma lower_alnum_lower: "single_dashes b s \<Longrightarrow> py_lower s = s"
proof (induction b s rule: single_dashes.induct)
  case (2 b c cs)
  have "lower_alnum c \<Longrightarrow> py_lower_char c = c" "is_dash c \<Longrightarrow> py_lower_char c = c"
    by (auto simp: lower_alnum_def is_dash_def py_lower_char_def Let_def)
  with 2 show ?case by (auto simp: py_lower_def)
qed (simp add: py_lower_def)

lemma single_dashes_token: "single_dashes False (to_urn_token v)"
  using single_dashes_strip [OF single_dashes_runs [of False "py_lower v"]]
  by (simp add: to_urn_token_def Let_def lower_alnum_def)

text \<open>
  URN tokens are canonical: a token is never empty, consists of lower-case letters, digits
  and single inner dashes (so never of the separator of the URN), and making a token of a token
  changes nothing.
\<close>

theorem to_urn_token_canonical:
  "to_urn_token v \<noteq> [] \<and> (\<forall>c \<in> set (to_urn_token v). lower_alnum c \<or> c = CHR ''-'')
    \<and> hd (to_urn_token v) \<noteq> CHR ''-'' \<and> last (to_urn_token v) \<noteq> CHR ''-''
    \<and> to_urn_token (to_urn_token v) = to_urn_token v"
proof -
  let ?t = "to_urn_token v"
  have s: "single_dashes False ?t" by (rule single_dashes_token)
  have ne: "?t \<noteq> []" by (simp add: to_urn_token_def Let_def)
  have chars: "single_dashes b u \<Longrightarrow> \<forall>c \<in> set u. lower_alnum c \<or> is_dash c" for b u
    by (induction b u rule: single_dashes.induct) auto
  have ends: "\<not> is_dash (hd ?t) \<and> \<not> is_dash (last ?t)"
    using strip_if_ends [of is_dash "dash_runs lower_alnum False (py_lower v)"]
    by (auto simp: to_urn_token_def Let_def is_dash_def)
  have "strip_if is_dash ?t = ?t" by (rule strip_if_fix) (use ends in simp)
  then have "to_urn_token ?t = ?t"
    using ne by (simp add: to_urn_token_def [of ?t] lower_alnum_lower [OF s] dash_runs_fix [OF s] Let_def)
  with ne ends chars [OF s] show ?thesis by (simp add: is_dash_def)
qed

theorem to_urn_token_canonical_witness:
  "to_urn_token ''Pump #1'' = ''pump-1'' \<and> to_urn_token ''pump-1'' = ''pump-1''"
proof -
  have "to_urn_token ''Pump #1'' = ''pump-1''" by code_simp
  with to_urn_token_canonical [of "''Pump #1''"] show ?thesis by simp
qed

end
