(* ===== verification/SubscriptionApp.thy ===== *)
theory SubscriptionApp
  imports Lifecycle Lookup
begin

text \<open>
  The subscription API above the service: \<open>SubscriptionAppService\<close>
  (\<open>i3x_server/application/services/subscription.py\<close>), its DTO mappers
  (\<open>subscription_mapper.py\<close>) and the subscription routes
  (\<open>i3x_server/api/v1/subscription_routes.py\<close>, \<open>common_helpers.py\<close>). Errors are the
  \<open>HTTPException\<close>s of \<open>i3x_http_error\<close>; JSON encoding and logging are left out, and so is
  the title text of an error detail.
\<close>

section \<open>DTOs\<close>

record CreateSubscriptionDto =
  cs_subscription_id :: string
  cs_client_id :: string
  cs_display_name :: "string option"

record RegisterMonitoredItemsDto =
  rm_subscription_id :: string
  rm_monitored_items :: "string list"
  rm_registered :: nat

record PendingUpdatesDto =
  pu_updates :: "SubscriptionUpdate list"
  pu_queue_overflow :: bool
  pu_dropped_from_sequence :: "int option"
  pu_dropped_to_sequence :: "int option"

record PublicUpdate =
  pb_sequence_number :: int
  pb_element_id :: string
  pb_value :: pyval
  pb_quality :: string
  pb_timestamp :: string

definition map_create_subscription ::
  "SubscriptionDetail \<Rightarrow> string \<Rightarrow> string option \<Rightarrow> CreateSubscriptionDto" where
  "map_create_subscription created client_id display_name =
     \<lparr>cs_subscription_id = sd_subscription_id created, cs_client_id = client_id,
      cs_display_name = display_name\<rparr>"

definition map_register_monitored_items :: "string \<Rightarrow> string list \<Rightarrow> RegisterMonitoredItemsDto" where
  "map_register_monitored_items sid element_ids =
     \<lparr>rm_subscription_id = sid, rm_monitored_items = element_ids, rm_registered = length element_ids\<rparr>"

definition map_pending_updates :: "SubscriptionSyncResult \<Rightarrow> PendingUpdatesDto" where
  "map_pending_updates r =
     \<lparr>pu_updates = sr_updates r, pu_queue_overflow = sr_queue_overflow r,
      pu_dropped_from_sequence = sr_dropped_from_sequence r,
      pu_dropped_to_sequence = sr_dropped_to_sequence r\<rparr>"

definition map_public_subscription_update ::
  "(string \<Rightarrow> string) \<Rightarrow> (pyval \<Rightarrow> pyval) \<Rightarrow> SubscriptionUpdate \<Rightarrow> PublicUpdate" where
  "map_public_subscription_update map_element_id map_value u =
     \<lparr>pb_sequence_number = su_sequence_number u, pb_element_id = map_element_id (su_element_id u),
      pb_value = map_value (su_value u), pb_quality = su_quality u, pb_timestamp = su_timestamp u\<rparr>"

definition map_public_subscription_updates ::
  "(string \<Rightarrow> string) \<Rightarrow> (pyval \<Rightarrow> pyval) \<Rightarrow> SubscriptionUpdate list \<Rightarrow> PublicUpdate list" where
  "map_public_subscription_updates f g us = map (map_public_subscription_update f g) us"

text \<open>A batch is the number of its last update and the updates; no batch without updates.\<close>

definition map_public_sync_batches ::
  "(string \<Rightarrow> string) \<Rightarrow> (pyval \<Rightarrow> pyval) \<Rightarrow> SubscriptionSyncResult \<Rightarrow> (int \<times> PublicUpdate list) list" where
  "map_public_sync_batches f g r =
     (if sr_updates r = [] then []
      else [(su_sequence_number (last (sr_updates r)), map_public_subscription_updates f g (sr_updates r))])"

definition map_delete_subscriptions :: "SubscriptionDeleteResult list \<Rightarrow> nat \<Rightarrow> nat \<times> nat" where
  "map_delete_subscriptions rs requested = (length (filter dr_success rs), requested)"

text \<open>
  A bulk item: the outcome for one id, with a result or an error. \<open>bulk_response\<close> copies the
  error of a failed item into its response detail; the response succeeds when every item does.
\<close>

record 'r BulkResultItem =
  bi_success :: bool
  bi_element_id :: string
  bi_subscription_id :: "string option"
  bi_result :: "'r option"
  bi_error :: "(int \<times> string) option"
  bi_response_detail :: "(int \<times> string) option"

definition subscription_bulk_success :: "string \<Rightarrow> string \<Rightarrow> 'r option \<Rightarrow> 'r BulkResultItem" where
  "subscription_bulk_success e sid r =
     \<lparr>bi_success = True, bi_element_id = e, bi_subscription_id = Some sid, bi_result = r,
      bi_error = None, bi_response_detail = None\<rparr>"

definition subscription_bulk_error :: "string \<Rightarrow> string \<Rightarrow> (int \<times> string) option \<Rightarrow> 'r BulkResultItem" where
  "subscription_bulk_error e sid err =
     \<lparr>bi_success = False, bi_element_id = e, bi_subscription_id = Some sid, bi_result = None,
      bi_error = err, bi_response_detail = None\<rparr>"

definition map_delete_subscription_items :: "SubscriptionDeleteResult list \<Rightarrow> unit BulkResultItem list" where
  "map_delete_subscription_items rs =
     map (\<lambda>r. if dr_success r
              then subscription_bulk_success (dr_subscription_id r) (dr_subscription_id r) None
              else subscription_bulk_error (dr_subscription_id r) (dr_subscription_id r) (dr_error r)) rs"

definition map_subscription_detail :: "(string \<Rightarrow> string) \<Rightarrow> SubscriptionDetail \<Rightarrow> SubscriptionDetail" where
  "map_subscription_detail f d =
     d\<lparr>sd_monitored_objects := map (\<lambda>(e, depth). (f e, depth)) (sd_monitored_objects d)\<rparr>"

definition map_list_subscriptions ::
  "(string \<Rightarrow> string) \<Rightarrow> SubscriptionDetail list \<Rightarrow> SubscriptionDetail list" where
  "map_list_subscriptions f ds = map (map_subscription_detail f) ds"

definition map_subscription_detail_bulk_items ::
  "SubscriptionDetail list \<Rightarrow> string list option \<Rightarrow> (string \<Rightarrow> string)
   \<Rightarrow> SubscriptionDetail BulkResultItem list" where
  "map_subscription_detail_bulk_items subscriptions requested_ids f =
     (let details = map (map_subscription_detail f) subscriptions;
          by_id = dict_of_list (map (\<lambda>d. (sd_subscription_id d, d)) details)
      in case requested_ids of
           None \<Rightarrow> map (\<lambda>d. subscription_bulk_success (sd_subscription_id d) (sd_subscription_id d) (Some d)) details
         | Some ids \<Rightarrow> map (\<lambda>sid. case dict_get by_id sid of
               None \<Rightarrow> subscription_bulk_error sid sid (Some (404, ''Subscription not found: '' @ sid))
             | Some d \<Rightarrow> subscription_bulk_success sid sid (Some d)) ids)"

definition bulk_response :: "'r BulkResultItem list \<Rightarrow> bool \<times> 'r BulkResultItem list" where
  "bulk_response items =
     (list_all bi_success items,
      map (\<lambda>i. if bi_success i \<or> bi_response_detail i \<noteq> None then i
               else i\<lparr>bi_response_detail := Some
                 (case bi_error i of Some e \<Rightarrow> e | None \<Rightarrow> (500, ''Request failed''))\<rparr>) items)"

section \<open>JSON-safe values\<close>

text \<open>
  \<open>_to_json_safe_value\<close>: data classes and tuples become dictionaries and lists, an extension
  object (with a type id and a body) its two parts, and the \<open>Encoding\<close> fields are left out.
  Dates, byte strings and objects of unknown classes have no counterpart among the values.
\<close>

definition filtered_field :: "string \<Rightarrow> bool" where
  "filtered_field name = (py_lower (py_strip name) = ''encoding'')"

lemma size_normalize: "size (normalize_opcua_value v) \<le> size v"
proof (induction v rule: normalize_opcua_value.induct)
  case (1 v)
  show ?case
  proof (cases v)
    case (PList xs)
    with 1 show ?thesis by (auto intro!: size_list_pointwise)
  next
    case (PTuple xs)
    with 1 show ?thesis by (auto intro!: size_list_pointwise)
  next
    case (PDict kvs)
    with 1 show ?thesis by (auto intro!: size_list_pointwise)
  next
    case (PData c kvs)
    with 1 show ?thesis by (auto intro!: size_list_pointwise)
  qed simp_all
qed

text \<open>The fields of a data class instance; the order within the dictionary is immaterial.\<close>

fun init_fields :: "pyval \<Rightarrow> (string \<times> pyval) list" where
  "init_fields (PArgument fs rank dims) = fs @ [(''ValueRank'', PInt rank), (''ArrayDimensions'', dims)]"
| "init_fields (PData c fs) = fs"
| "init_fields _ = []"

lemma size_init_fields: "(k, x) \<in> set (init_fields v) \<Longrightarrow> size x < size v"
  by (cases v) (auto simp: less_Suc_eq_le dest: size_snd_mem)

lemma size_normal_field: "(k, x) \<in> set (init_fields (normalize_opcua_value v)) \<Longrightarrow> size x < size v"
  using size_init_fields size_normalize by (rule less_le_trans)

lemma size_init_get: "dict_get (init_fields v) k = Some x \<Longrightarrow> size x < size v"
  by (rule size_init_fields, rule map_of_SomeD)

function to_json_safe_value :: "pyval \<Rightarrow> pyval" where
  "to_json_safe_value v =
     (case v of
        PData c fs \<Rightarrow>
          (case (dict_get (init_fields v) ''TypeId'', dict_get (init_fields v) ''Body'') of
             (Some t, Some body) \<Rightarrow>
               (if body = PNone then PNone
                else PDict [(''TypeId'', to_json_safe_value t), (''Body'', to_json_safe_value body)])
           | _ \<Rightarrow> PDict (map (\<lambda>(k, x). (k, to_json_safe_value x))
                    (filter (\<lambda>(k, x). \<not> filtered_field k) (init_fields (normalize_opcua_value v)))))
      | PArgument fs rank dims \<Rightarrow>
          PDict (map (\<lambda>(k, x). (k, to_json_safe_value x))
                    (filter (\<lambda>(k, x). \<not> filtered_field k) (init_fields (normalize_opcua_value v))))
      | PList xs \<Rightarrow> PList (map to_json_safe_value xs)
      | PTuple xs \<Rightarrow> PList (map to_json_safe_value xs)
      | PDict kvs \<Rightarrow> PDict (map (\<lambda>(k, x). (k, to_json_safe_value x)) kvs)
      | _ \<Rightarrow> v)"
  by pat_completeness auto
termination
  by (relation "measure size")
    (auto dest: size_init_get [OF sym] size_init_get size_normal_field size_snd_mem simp: less_Suc_eq_le
      intro: size_list_estimation' simp del: init_fields.simps normalize_opcua_value_simps)

declare to_json_safe_value.simps [simp del]


lemma to_json_safe_leaf [simp]:
  "to_json_safe_value PNone = PNone"
  "to_json_safe_value (PBool b) = PBool b"
  "to_json_safe_value (PInt i) = PInt i"
  "to_json_safe_value (PFloat x) = PFloat x"
  "to_json_safe_value PNan = PNan"
  "to_json_safe_value (PStr t) = PStr t"
  "to_json_safe_value (PList xs) = PList (map to_json_safe_value xs)"
  "to_json_safe_value (PTuple xs) = PList (map to_json_safe_value xs)"
  "to_json_safe_value (PDict kvs) = PDict (map (\<lambda>(k, x). (k, to_json_safe_value x)) kvs)"
  by (subst to_json_safe_value.simps, simp)+




end
