(* ===== verification/SubscriptionApi.thy ===== *)
theory SubscriptionApi
  imports SubscriptionApp
begin

text \<open>
  The operations of \<open>SubscriptionAppService\<close> (\<open>i3x_server/application/services/subscription.py\<close>)
  and the subscription routes on top of it (\<open>i3x_server/api/v1/subscription_routes.py\<close>,
  \<open>common_helpers.py\<close>). An operation returns the response or the exception, and the service.
  A server-sent event stream is a machine of its own (\<open>stream_turn\<close>, \<open>stream_wake\<close>,
  \<open>stream_abandon\<close>): between two of its steps the service may run any other handler.
\<close>

section \<open>The application service\<close>

text \<open>\<open>not client_id or not client_id.strip()\<close>.\<close>

definition blank_client :: "string option \<Rightarrow> bool" where
  "blank_client c = (case c of None \<Rightarrow> True | Some s \<Rightarrow> py_strip s = [])"

definition wrap_error :: "string \<Rightarrow> 'a result \<Rightarrow> 'a result" where
  "wrap_error message r =
     (case r of
        Inr x \<Rightarrow> Inr x
      | Inl (HTTPException code m) \<Rightarrow> Inl (HTTPException code m)
      | Inl _ \<Rightarrow> Inl (HTTPException 502 message))"

text \<open>\<open>f"'{endpoint}' requires a non-empty clientId"\<close>.\<close>

definition client_required :: "string \<Rightarrow> 'a result" where
  "client_required endpoint =
     Inl (HTTPException 400 (CHR 0x27 # endpoint @ CHR 0x27 # '' requires a non-empty clientId''))"

lemma wrap_error_simps [simp]:
  "wrap_error m (Inr x) = Inr x"
  "wrap_error m (Inl (HTTPException c t)) = Inl (HTTPException c t)"
  by (simp_all add: wrap_error_def)

abbreviation not_found :: "'a result" where
  "not_found \<equiv> Inl (HTTPException 404 ''Subscription not found'')"

definition app_create_subscription ::
  "env \<Rightarrow> string \<Rightarrow> string option \<Rightarrow> service \<Rightarrow> CreateSubscriptionDto result \<times> service" where
  "app_create_subscription E client_id display_name sv =
     (let (created, sv') = create_subscription E (Some client_id) display_name sv
      in (wrap_error ''Failed to create subscription'' (Inr (map_create_subscription created client_id display_name)), sv'))"

text \<open>
  \<open>has_request\<close> tells whether the service was built for a request. The outer \<open>option\<close> is that of
  \<open>register_items\<close>: resolving the elements does not return on a cyclic browse tree.
\<close>

definition effective_max_depth :: "int option \<Rightarrow> int" where
  "effective_max_depth d = (case d of None \<Rightarrow> 0 | Some n \<Rightarrow> max 0 n)"

definition app_register_items ::
  "env \<Rightarrow> bool \<Rightarrow> BuildResult \<Rightarrow> string \<Rightarrow> string option \<Rightarrow> string list \<Rightarrow> int option \<Rightarrow> service
   \<Rightarrow> (RegisterMonitoredItemsDto result \<times> service) option" where
  "app_register_items E has_request model sid client_id element_ids max_depth sv =
     (if blank_client client_id \<and> has_request
      then Some (client_required ''/subscriptions/items'', sv)
      else map_option
        (\<lambda>(registered, sv'). (wrap_error ''Failed to register monitored items''
            (if registered then Inr (map_register_monitored_items sid element_ids) else not_found), sv'))
        (register_items E client_id sid element_ids (effective_max_depth max_depth) model sv))"

definition app_unregister_items ::
  "env \<Rightarrow> bool \<Rightarrow> BuildResult \<Rightarrow> string \<Rightarrow> string option \<Rightarrow> string list \<Rightarrow> service
   \<Rightarrow> (RegisterMonitoredItemsDto result \<times> service) option" where
  "app_unregister_items E has_request model sid client_id element_ids sv =
     (if blank_client client_id \<and> has_request
      then Some (client_required ''/subscriptions/unregister'', sv)
      else map_option
        (\<lambda>(found, sv'). (wrap_error ''Failed to unregister monitored items''
            (if found then Inr (map_register_monitored_items sid element_ids) else not_found), sv'))
        (unregister_items E client_id sid element_ids model sv))"

definition get_pending_updates ::
  "env \<Rightarrow> string \<Rightarrow> string option \<Rightarrow> int option \<Rightarrow> service \<Rightarrow> PendingUpdatesDto result \<times> service" where
  "get_pending_updates E sid client_id ack sv =
     (if blank_client client_id
      then (client_required ''/subscriptions/sync'', sv)
      else case sync E client_id sid ack False sv of
        (None, sv') \<Rightarrow> (not_found, sv')
      | (Some r, sv') \<Rightarrow>
          (wrap_error ''Failed to retrieve subscription updates''
             (if sr_stream_active r then Inl (HTTPException 400 ''Subscription stream is active'')
              else Inr (map_pending_updates r)), sv'))"

definition app_delete_subscriptions ::
  "env \<Rightarrow> string list \<Rightarrow> string option \<Rightarrow> service \<Rightarrow> (nat \<times> nat) result \<times> service" where
  "app_delete_subscriptions E ids client_id sv =
     (let (rs, sv') = delete_subscriptions E client_id ids sv
      in (wrap_error ''Failed to delete subscriptions'' (Inr (map_delete_subscriptions rs (length ids))), sv'))"

definition app_delete_items ::
  "env \<Rightarrow> string list \<Rightarrow> string option \<Rightarrow> service \<Rightarrow> unit BulkResultItem list result \<times> service" where
  "app_delete_items E ids client_id sv =
     (let (rs, sv') = delete_subscriptions E client_id ids sv
      in (wrap_error ''Failed to delete subscriptions'' (Inr (map_delete_subscription_items rs)), sv'))"

definition app_list_subscriptions ::
  "string option \<Rightarrow> string list option \<Rightarrow> service \<Rightarrow> SubscriptionDetail list result" where
  "app_list_subscriptions client_id ids sv =
     wrap_error ''Failed to list subscriptions''
       (Inr (map_list_subscriptions (\<lambda>e. e) (list_subscriptions client_id ids sv)))"

definition app_list_items ::
  "string option \<Rightarrow> string list option \<Rightarrow> service \<Rightarrow> SubscriptionDetail BulkResultItem list result" where
  "app_list_items client_id ids sv =
     wrap_error ''Failed to list subscriptions''
       (Inr (map_subscription_detail_bulk_items (list_subscriptions client_id ids sv) ids (\<lambda>e. e)))"

section \<open>Streams\<close>

record StreamSessionDto =
  sn_client_id :: string
  sn_subscription_id :: string
  sn_stream_generation :: int
  sn_scope_relaxed :: bool
  sn_acknowledged :: SubscriptionSyncResult

text \<open>
  The activation of \<open>begin_stream_session\<close>: in the client's scope first, and in any scope when
  the client does not own the subscription.
\<close>

definition activate_relaxed ::
  "env \<Rightarrow> string \<Rightarrow> string \<Rightarrow> service \<Rightarrow> (int \<times> bool) option \<times> service" where
  "activate_relaxed E client sid sv =
     (case activate_stream E (Some client) sid sv of
        (Some g, sv1) \<Rightarrow> (Some (g, False), sv1)
      | (None, sv1) \<Rightarrow>
          (case activate_stream E None sid sv1 of
             (Some g, sv2) \<Rightarrow> (Some (g, True), sv2)
           | (None, sv2) \<Rightarrow> (None, sv2)))"

definition begin_stream_session ::
  "env \<Rightarrow> string \<Rightarrow> string option \<Rightarrow> int option \<Rightarrow> service \<Rightarrow> StreamSessionDto result \<times> service" where
  "begin_stream_session E sid client_id ack sv =
     (if blank_client client_id
      then (client_required ''/subscriptions/stream'', sv)
      else let client = py_strip (the client_id) in
        case activate_relaxed E client sid sv of
          (None, sv1) \<Rightarrow> (not_found, sv1)
        | (Some (g, relaxed), sv1) \<Rightarrow>
            (case sync E (if relaxed then None else Some client) sid ack True sv1 of
               (None, sv2) \<Rightarrow> (not_found, sv2)
             | (Some r, sv2) \<Rightarrow>
                 (Inr \<lparr>sn_client_id = client, sn_subscription_id = sid, sn_stream_generation = g,
                       sn_scope_relaxed = relaxed, sn_acknowledged = r\<rparr>, sv2)))"

text \<open>
  \<open>iter_stream_events\<close>. The generator is at the head of its loop, suspended in
  \<open>wait_for_updates\<close> (with the two local values of the wait), or finished. Its events are kept
  in the order they were yielded. Leaving it by any way runs the \<open>finally\<close> clause, which
  deactivates the stream.
\<close>

datatype stream_event = Connected | Keepalive | Close | Updates "SubscriptionUpdate list"

datatype stream_pc = Looping | Waiting bool int | Finished

record stream =
  sm_pc :: stream_pc
  sm_last_sequence :: int
  sm_events :: "stream_event list"

definition last_number :: "SubscriptionUpdate list \<Rightarrow> int" where
  "last_number us = su_sequence_number (last us)"

definition stream_open :: "SubscriptionUpdate list \<Rightarrow> int option \<Rightarrow> stream" where
  "stream_open acknowledged ack =
     (let last_sequence = (case ack of None \<Rightarrow> 0 | Some a \<Rightarrow> a) in
      if acknowledged \<noteq> []
      then \<lparr>sm_pc = Looping, sm_last_sequence = last_number acknowledged,
            sm_events = [Connected, Updates acknowledged]\<rparr>
      else \<lparr>sm_pc = Looping, sm_last_sequence = last_sequence, sm_events = [Connected]\<rparr>)"

definition stream_close :: "env \<Rightarrow> string \<Rightarrow> int \<Rightarrow> stream \<Rightarrow> service \<Rightarrow> stream \<times> service" where
  "stream_close E sid g sm sv =
     (sm\<lparr>sm_pc := Finished, sm_events := sm_events sm @ [Close]\<rparr>, deactivate_stream E sid g sv)"

definition stream_deliver ::
  "env \<Rightarrow> string \<Rightarrow> int \<Rightarrow> SubscriptionUpdate list option \<Rightarrow> stream \<Rightarrow> service \<Rightarrow> stream \<times> service" where
  "stream_deliver E sid g updates sm sv =
     (case updates of
        None \<Rightarrow> stream_close E sid g sm sv
      | Some us \<Rightarrow>
          if us = [] then (sm\<lparr>sm_pc := Looping, sm_events := sm_events sm @ [Keepalive]\<rparr>, sv)
          else (sm\<lparr>sm_pc := Looping, sm_last_sequence := last_number us,
                   sm_events := sm_events sm @ [Updates us]\<rparr>, sv))"

definition stream_turn ::
  "env \<Rightarrow> string \<Rightarrow> string \<Rightarrow> int \<Rightarrow> int \<Rightarrow> stream \<Rightarrow> service \<Rightarrow> stream \<times> service" where
  "stream_turn E client sid g timeout_seconds sm sv =
     (if \<not> is_stream_active sid g sv then stream_close E sid g sm sv
      else case wait_begin E (Some client) sid (sm_last_sequence sm) timeout_seconds sv of
        (WaitGone, sv1) \<Rightarrow> stream_deliver E sid g None sm sv1
      | (WaitReady us, sv1) \<Rightarrow> stream_deliver E sid g (Some us) sm sv1
      | (WaitPending r t, sv1) \<Rightarrow> (sm\<lparr>sm_pc := Waiting r t\<rparr>, sv1))"

definition stream_wake ::
  "env \<Rightarrow> string \<Rightarrow> string \<Rightarrow> int \<Rightarrow> wakeup \<Rightarrow> stream \<Rightarrow> service \<Rightarrow> stream \<times> service" where
  "stream_wake E client sid g w sm sv =
     (case sm_pc sm of
        Waiting r t \<Rightarrow>
          (let (updates, sv1) = wait_finish E (Some client) sid (sm_last_sequence sm) r t w sv
           in stream_deliver E sid g updates sm sv1)
      | _ \<Rightarrow> (sm, sv))"

text \<open>The client goes away: the generator is closed at its suspension point.\<close>

definition stream_abandon :: "env \<Rightarrow> string \<Rightarrow> int \<Rightarrow> stream \<Rightarrow> service \<Rightarrow> stream \<times> service" where
  "stream_abandon E sid g sm sv = (sm\<lparr>sm_pc := Finished\<rparr>, deactivate_stream E sid g sv)"

section \<open>Routes\<close>

definition fetch_namespace_infos :: "OpcUaNamespaceInfo list result \<Rightarrow> OpcUaNamespaceInfo list" where
  "fetch_namespace_infos r = (case r of Inl _ \<Rightarrow> [] | Inr infos \<Rightarrow> infos)"

definition require_client_id :: "string option \<Rightarrow> string \<Rightarrow> string result" where
  "require_client_id client_id endpoint =
     (let normalized = py_strip (case client_id of None \<Rightarrow> [] | Some c \<Rightarrow> c) in
      if normalized \<noteq> [] then Inr normalized
      else client_required endpoint)"

definition bulk_result_success :: "string \<Rightarrow> 'r option \<Rightarrow> 'r BulkResultItem" where
  "bulk_result_success e r =
     \<lparr>bi_success = True, bi_element_id = e, bi_subscription_id = None, bi_result = r,
      bi_error = None, bi_response_detail = None\<rparr>"

definition bulk_result_error :: "string \<Rightarrow> string \<Rightarrow> int \<Rightarrow> 'r BulkResultItem" where
  "bulk_result_error e message code =
     \<lparr>bi_success = False, bi_element_id = e, bi_subscription_id = None, bi_result = None,
      bi_error = Some (code, message), bi_response_detail = None\<rparr>"

text \<open>\<open>_map_lookup_bulk_result_items\<close>: one item per requested id, 404 for an id without a match.\<close>

definition map_lookup_bulk_result_items ::
  "string list \<Rightarrow> (string, 'r) dict \<Rightarrow> string \<Rightarrow> 'r BulkResultItem list" where
  "map_lookup_bulk_result_items element_ids indexed_items not_found_message =
     map (\<lambda>e. case dict_get indexed_items e of
            None \<Rightarrow> bulk_result_error e not_found_message 404
          | Some r \<Rightarrow> bulk_result_success e (Some r)) element_ids"

fun validate_loop :: "(string \<times> ModelNode option) list \<Rightarrow> string list \<times> unit BulkResultItem list" where
  "validate_loop [] = ([], [])"
| "validate_loop ((e, None) # rest) =
     (let (known, rs) = validate_loop rest
      in (known, bulk_result_error e (''Element not found: '' @ e) 404 # rs))"
| "validate_loop ((e, Some n) # rest) =
     (let (known, rs) = validate_loop rest in (e # known, bulk_result_success e None # rs))"

definition resolve_model_nodes :: "BuildResult \<Rightarrow> string list \<Rightarrow> (string \<times> ModelNode option) list" where
  "resolve_model_nodes model ids = map (\<lambda>e. (e, find_model_node model e)) ids"

definition validate_subscription_element_ids ::
  "BuildResult \<Rightarrow> string list \<Rightarrow> string list \<times> unit BulkResultItem list" where
  "validate_subscription_element_ids model ids = validate_loop (resolve_model_nodes model ids)"

definition create_route ::
  "env \<Rightarrow> string \<Rightarrow> string option \<Rightarrow> service \<Rightarrow> CreateSubscriptionDto result \<times> service" where
  "create_route E client_id display_name sv = app_create_subscription E client_id display_name sv"

definition register_route ::
  "env \<Rightarrow> bool \<Rightarrow> BuildResult \<Rightarrow> string \<Rightarrow> string option \<Rightarrow> string list \<Rightarrow> int option \<Rightarrow> service
   \<Rightarrow> ((bool \<times> unit BulkResultItem list) result \<times> service) option" where
  "register_route E has_request model sid client_id element_ids max_depth sv =
     (let (known, rs) = validate_subscription_element_ids model element_ids in
      map_option (\<lambda>(r, sv'). (rbind r (\<lambda>_. Inr (bulk_response rs)), sv'))
        (app_register_items E has_request model sid client_id known max_depth sv))"

definition unregister_route ::
  "env \<Rightarrow> bool \<Rightarrow> BuildResult \<Rightarrow> string \<Rightarrow> string option \<Rightarrow> string list \<Rightarrow> service
   \<Rightarrow> ((bool \<times> unit BulkResultItem list) result \<times> service) option" where
  "unregister_route E has_request model sid client_id element_ids sv =
     (let (known, rs) = validate_subscription_element_ids model element_ids in
      map_option (\<lambda>(r, sv'). (rbind r (\<lambda>_. Inr (bulk_response rs)), sv'))
        (app_unregister_items E has_request model sid client_id known sv))"

text \<open>A response of the sync route: status, batches, and the dropped range of a partial one.\<close>

record SyncResponse =
  sy_status :: int
  sy_batches :: "(int \<times> PublicUpdate list) list"
  sy_dropped :: "(int option \<times> int option) option"

definition sync_route ::
  "env \<Rightarrow> OpcUaNamespaceInfo list \<Rightarrow> string \<Rightarrow> string option \<Rightarrow> int option \<Rightarrow> service
   \<Rightarrow> SyncResponse result \<times> service" where
  "sync_route E infos sid client_id ack sv =
     (let (r, sv') = get_pending_updates E sid client_id ack sv in
      (rbind r (\<lambda>synced.
         let us = map_public_subscription_updates (\<lambda>e. expanded_node_id e infos) to_json_safe_value
                    (pu_updates synced);
             batches = (if us = [] then [] else [(pb_sequence_number (last us), us)])
         in Inr (if pu_queue_overflow synced
                 then \<lparr>sy_status = 206, sy_batches = batches,
                       sy_dropped = Some (pu_dropped_from_sequence synced, pu_dropped_to_sequence synced)\<rparr>
                 else \<lparr>sy_status = 200, sy_batches = batches, sy_dropped = None\<rparr>)), sv'))"

text \<open>The frame of an event: the comments, the close event, or the public updates of a data event.\<close>

datatype sse_frame = Comment string | CloseFrame | DataFrame "PublicUpdate list"

definition sse_frame_of :: "OpcUaNamespaceInfo list \<Rightarrow> stream_event \<Rightarrow> sse_frame" where
  "sse_frame_of infos ev =
     (case ev of
        Connected \<Rightarrow> Comment ''connected''
      | Keepalive \<Rightarrow> Comment ''keepalive''
      | Close \<Rightarrow> CloseFrame
      | Updates us \<Rightarrow> DataFrame (map_public_subscription_updates (\<lambda>e. expanded_node_id e infos) to_json_safe_value us))"

definition stream_route ::
  "env \<Rightarrow> string \<Rightarrow> string option \<Rightarrow> service \<Rightarrow> (StreamSessionDto \<times> stream) result \<times> service" where
  "stream_route E sid client_id sv =
     (let (r, sv') = begin_stream_session E sid client_id None sv
      in (rbind r (\<lambda>sn. Inr (sn, stream_open (sr_updates (sn_acknowledged sn)) None)), sv'))"

definition delete_route ::
  "env \<Rightarrow> string option \<Rightarrow> string list \<Rightarrow> service
   \<Rightarrow> (bool \<times> unit BulkResultItem list) result \<times> service" where
  "delete_route E client_id ids sv =
     (case require_client_id client_id ''/subscriptions/delete'' of
        Inl e \<Rightarrow> (Inl e, sv)
      | Inr c \<Rightarrow>
          (let (r, sv') = app_delete_items E ids (Some c) sv
           in (rbind r (\<lambda>items. Inr (bulk_response items)), sv')))"

definition expand_bulk_item :: "OpcUaNamespaceInfo list \<Rightarrow> SubscriptionDetail BulkResultItem \<Rightarrow> SubscriptionDetail BulkResultItem" where
  "expand_bulk_item infos i =
     i\<lparr>bi_result := map_option (map_subscription_detail (\<lambda>e. expanded_node_id e infos)) (bi_result i)\<rparr>"

definition list_route ::
  "OpcUaNamespaceInfo list \<Rightarrow> string option \<Rightarrow> string list option \<Rightarrow> service
   \<Rightarrow> (bool \<times> SubscriptionDetail BulkResultItem list) result" where
  "list_route infos client_id ids sv =
     rbind (require_client_id client_id ''/subscriptions/list'') (\<lambda>c.
       rbind (app_list_items (Some c) (case ids of None \<Rightarrow> None | Some [] \<Rightarrow> None | Some l \<Rightarrow> Some l) sv)
         (\<lambda>items. Inr (bulk_response (map (expand_bulk_item infos) items))))"

end
