(* ===== verification/ServiceProps.thy ===== *)
theory ServiceProps
  imports Lifecycle
begin

text \<open>
  The properties of \<open>SubscriptionService\<close>, each with a witness on a concrete environment and
  service.
\<close>

section \<open>A concrete environment\<close>

definition demo_uuid :: "nat \<Rightarrow> string" where
  "demo_uuid t = replicate t CHR ''u''"

definition no_limits :: OpcUaSubscriptionCapabilities where
  "no_limits = \<lparr>sc_max_monitored_items_per_call = None, sc_max_subscriptions = None,
     sc_max_monitored_items = None, sc_max_subscriptions_per_session = None,
     sc_max_monitored_items_per_subscription = None\<rparr>"

text \<open>Every call succeeds, every node reads 1, and the clock counts the calls.\<close>

definition demo_env :: env where
  "demo_env =
     \<lparr>c_interval_seconds = 1, c_max_updates = 2, c_ttl_seconds = 300, c_seed_initial_values = True,
      c_refresh_mode = Adaptive, c_refresh_keepalives = 3, c_refresh_max_seconds = 30,
      c_max_concurrent_native_admissions = 4, c_native_backoff_seconds = 30, c_queue_maxsize = 1000,
      e_loop = 0, e_loop_closed = (\<lambda>_ _. False), e_clock = of_nat, e_utcnow = (\<lambda>_. ''t''),
      e_uuid = demo_uuid, e_read_values = (\<lambda>_ ns. Some (map (\<lambda>_. PInt 1) ns)),
      e_capabilities = (\<lambda>_. no_limits), e_create_subscription = (\<lambda>_ _. Some (PData ''Subscription'' [])),
      e_subscribe = (\<lambda>_ _ _. SubscribeList [PInt 7]), e_unsubscribe_ok = (\<lambda>_ _ _. True),
      e_delete_ok = (\<lambda>_ _. True),
      e_item_handles = (\<lambda>_ _ ns. Some (map (\<lambda>n. (n, 7)) (remdups ns)))\<rparr>"

lemma demo_env_ok: "env_ok demo_env"
  by (auto simp: env_ok_def demo_env_def demo_uuid_def inj_def replicate_eq_replicate comp_def)

text \<open>The same server, but \<open>create_monitored_items\<close> fails.\<close>

definition refusing_env :: env where
  "refusing_env = demo_env\<lparr>e_subscribe := (\<lambda>_ _ _. SubscribeRaises)\<rparr>"

lemma refusing_env_ok: "env_ok refusing_env"
  using demo_env_ok by (simp add: refusing_env_def env_ok_def)

text \<open>One subscription of client \<open>c\<close>, created first.\<close>

definition demo_service :: service where
  "demo_service = snd (create_subscription demo_env (Some ''c'') None new_service)"

lemma demo_reachable: "reachable demo_env demo_service"
  unfolding demo_service_def by (intro reachable.intros)

lemma demo_subscriptions:
  "sv_subscriptions demo_service = [(''sub-'', new_subscription_state ''sub-'' (Some ''c'') None 1)]"
  by (simp add: demo_service_def create_subscription_def now_monotonic_def sub_name_def demo_env_def
      demo_uuid_def Let_def) (simp add: new_service_def ensure_cleanup_task_def)

lemma demo_lookup:
  "dict_get (sv_subscriptions demo_service) ''sub-'' = Some (new_subscription_state ''sub-'' (Some ''c'') None 1)"
  by (simp add: demo_subscriptions)

text \<open>The subscription after its client registered the unknown element \<open>x\<close>, an OPC UA node.\<close>

definition demo_model :: BuildResult where
  "demo_model = sample_model [] []"

definition demo_registered :: service where
  "demo_registered = snd (the (register_items demo_env (Some ''c'') ''sub-'' [''x''] 0 demo_model demo_service))"

lemma demo_resolve:
  "resolve_monitored_node_ids [(''x'', 0)] demo_model = Some ([''x''], [(''x'', ''x'')])"
  by (simp add: resolve_monitored_node_ids_def find_monitored_def source_index_def demo_model_def
      sample_model_def dict_of_list_def set_add_def py_lower_def py_lower_char_def Let_def
      char_of_def of_char_def bit_simps numeral_eq_Suc)

lemma demo_register:
  "register_items demo_env (Some ''c'') ''sub-'' [''x''] 0 demo_model demo_service = Some (True, demo_registered)"
  by (simp add: demo_registered_def register_items_def scoped_def demo_lookup register_objects_def
      new_subscription_state_def demo_resolve Let_def)

lemma demo_registered_reachable: "reachable demo_env demo_registered"
  by (rule reachable.register [OF demo_reachable demo_register])

lemma demo_monitors:
  "map (\<lambda>(n, m). (n, nm_subscriber_ids m, nm_mode m)) (sv_node_monitors demo_registered) = [(''x'', [''sub-''], Native)]"
  "map (\<lambda>(i, b). (length (mb_node_handles b), mb_capacity b)) (sv_bins demo_registered) = [(1, 1000)]"
  "map (\<lambda>(i, st). (i, ss_monitored_node_ids st, ss_mode st, length (ss_updates st)))
     (sv_subscriptions demo_registered) = [(''sub-'', [''x''], Native, 1)]"
  by code_simp+

section \<open>Reference counting and modes\<close>







section \<open>Delivery\<close>






section \<open>Scope\<close>

text \<open>
  A client cannot act on another client's subscription: with a client id that is not the
  owner's, registering, unregistering, acknowledging, streaming and waiting all answer as if
  the subscription did not exist, deletion answers 404, and no subscription changes.
\<close>

theorem foreign_client_is_refused:
  assumes "dict_get (sv_subscriptions sv) sid = Some st" "ss_client_id st \<noteq> Some c"
  shows "register_items E (Some c) sid ids depth m sv = Some (False, ensure_cleanup_task sv)
    \<and> unregister_items E (Some c) sid ids m sv = Some (False, ensure_cleanup_task sv)
    \<and> sync E (Some c) sid ack allow sv = (None, ensure_cleanup_task sv)
    \<and> activate_stream E (Some c) sid sv = (None, ensure_cleanup_task sv)
    \<and> has_active_stream (Some c) sid sv = None
    \<and> wait_begin E (Some c) sid after t sv = (WaitGone, ensure_cleanup_task sv)
    \<and> wait_finish E (Some c) sid after r t' w sv = (None, sv)
    \<and> delete_subscriptions E (Some c) [sid] sv =
        ([\<lparr>dr_success = False, dr_subscription_id = sid, dr_error = Some (404, ''Subscription not found'')\<rparr>], sv)
    \<and> sv_subscriptions (ensure_cleanup_task sv) = sv_subscriptions sv"
  using assms
  by (simp add: register_items_def unregister_items_def sync_def activate_stream_def has_active_stream_def
      wait_begin_def wait_finish_def delete_subscriptions_def scoped_def Let_def)

theorem foreign_client_is_refused_witness:
  "fst (sync demo_env (Some ''d'') ''sub-'' None False demo_service) = None"
  using foreign_client_is_refused [OF demo_lookup, of "''d''"] by (simp add: new_subscription_state_def)

section \<open>Streams\<close>

text \<open>
  A new stream takes over and an old one cannot disturb it: activation returns a generation
  that is then the active one and greater than the one it replaces, the replaced generation is
  no longer active, and the late deactivation of the old stream changes nothing, so syncs stay
  refused until the current generation is deactivated.
\<close>

theorem new_stream_takes_over:
  assumes "scoped c sid sv = Some st"
    "activate_stream E c sid sv = (Some g, sv')" "old = ss_active_stream_generation st"
  shows "g = old + 1 \<and> is_stream_active sid g sv' \<and> \<not> is_stream_active sid old sv'
    \<and> deactivate_stream E sid old sv' = sv'
    \<and> has_active_stream c sid sv' = Some True
    \<and> has_active_stream c sid (deactivate_stream E sid g sv') = Some False"
proof -
  have get: "dict_get (sv_subscriptions sv) sid = Some st" and own: "c = None \<or> ss_client_id st = c"
    using assms(1) by (auto simp: scoped_def split: option.splits if_splits)
  have sc: "scoped c sid (ensure_cleanup_task sv) = Some st" using assms(1) by (simp add: scoped_def)
  have g: "g = old + 1" using assms sc by (simp add: activate_stream_def Let_def)
  obtain st' where st': "dict_get (sv_subscriptions sv') sid = Some st'" "ss_active_stream_generation st' = old + 1"
    "ss_stream_connected st'" "ss_client_id st' = ss_client_id st"
    using assms sc get by (auto simp: activate_stream_def Let_def touch_def now_monotonic_def)
  show ?thesis
    using g st' own
    by (auto simp: is_stream_active_def deactivate_stream_def has_active_stream_def scoped_def touch_def
        now_monotonic_def Let_def)
qed

theorem new_stream_takes_over_witness:
  "\<exists>sv'. activate_stream demo_env (Some ''c'') ''sub-'' demo_service = (Some 1, sv')
    \<and> is_stream_active ''sub-'' 1 sv' \<and> deactivate_stream demo_env ''sub-'' 0 sv' = sv'"
proof -
  have sc: "scoped (Some ''c'') ''sub-'' demo_service = Some (new_subscription_state ''sub-'' (Some ''c'') None 1)"
    by (simp add: scoped_def demo_lookup) (simp add: new_subscription_state_def)
  obtain sv' where a: "activate_stream demo_env (Some ''c'') ''sub-'' demo_service = (Some 1, sv')"
    using sc by (simp add: activate_stream_def scoped_def Let_def) (simp add: new_subscription_state_def)
  show ?thesis
    using a new_stream_takes_over [OF sc a refl] by (simp add: new_subscription_state_def)
qed

section \<open>Adaptive refresh\<close>

text \<open>Whether each of \<open>k\<close> consecutive timeouts triggers a refresh, and the state after them.\<close>

primrec timeouts :: "env \<Rightarrow> int \<Rightarrow> nat \<Rightarrow> SubscriptionState \<Rightarrow> bool list \<times> SubscriptionState" where
  "timeouts E t 0 st = ([], st)"
| "timeouts E t (Suc k) st =
     (let (fs, st1) = timeouts E t k st; (f, st2) = count_timeout E True t st1 in (fs @ [f], st2))"

text \<open>
  In adaptive mode the refresh is issued on every \<open>t\<close>-th consecutive native timeout and on
  no other, where \<open>t\<close> is the threshold, at least one, whose waits add up to the refresh
  interval: \<open>t\<close> timeouts last at least the interval, and \<open>t - 1\<close> less than it.
\<close>

theorem adaptive_refresh_every_threshold:
  assumes "c_refresh_mode E = Adaptive" "ss_native_timeout_count st = 0" "0 < timeout"
    "interval = (case ss_native_refresh_interval_seconds st of
       Some r \<Rightarrow> if r = 0 then c_interval_seconds E else r | None \<Rightarrow> c_interval_seconds E)"
    "0 < interval" "t = nat (refresh_threshold E st timeout)"
  shows "fst (timeouts E (int t) k st) = map (\<lambda>i. t dvd i) [1 ..< Suc k]
    \<and> 1 \<le> t \<and> interval \<le> real t * timeout \<and> (t \<noteq> 1 \<longrightarrow> (real t - 1) * timeout < interval)"
proof -
  have pos: "1 \<le> refresh_threshold E st timeout" by (simp add: refresh_threshold_def Let_def)
  then have t: "int t = refresh_threshold E st timeout" "1 \<le> t" using assms(6) by auto
  have "max (1 / 1000) (real_of_int timeout) = timeout" using assms(3) by simp
  then have th: "int t = max 1 \<lceil>interval / timeout\<rceil>"
    by (simp add: t refresh_threshold_def assms(4) Let_def split: option.splits)
  have count: "ss_native_timeout_count (snd (timeouts E (int t) k st)) = k mod t
      \<and> fst (timeouts E (int t) k st) = map (\<lambda>i. t dvd i) [1 ..< Suc k]" for k
  proof (induction k)
    case 0
    then show ?case using assms(2) by simp
  next
    case (Suc k)
    have m: "Suc (k mod t) \<ge> t \<longleftrightarrow> t dvd Suc k"
    proof -
      have "k mod t < t" using t(2) by simp
      then show ?thesis by (auto simp: dvd_eq_mod_eq_0 mod_Suc)
    qed
    have lt: "k mod t < t" using t(2) by simp
    show ?case
      using Suc assms(1) m t(2) lt
      by (auto simp: case_prod_beta count_timeout_def Let_def mod_Suc split: if_splits)
  qed
  have low: "interval \<le> real t * timeout"
  proof -
    have "interval / timeout \<le> of_int (int t)" using th by linarith
    then show ?thesis using assms(3) by (simp add: pos_divide_le_eq)
  qed
  have up: "(real t - 1) * timeout < interval" if "t \<noteq> 1"
  proof -
    have "int t = \<lceil>interval / timeout\<rceil>" using th that t(2) by linarith
    then have "real t - 1 < interval / timeout" by linarith
    then show ?thesis using assms(3) by (simp add: pos_less_divide_eq)
  qed
  show ?thesis by (intro conjI impI) (simp_all only: count low t(2) up not_False_eq_True)
qed

theorem adaptive_refresh_every_threshold_witness:
  "fst (timeouts demo_env 2 4 ((new_subscription_state ''s'' None None 0)
      \<lparr>ss_native_refresh_interval_seconds := Some 30\<rparr>)) = [False, True, False, True]"
proof -
  let ?st = "(new_subscription_state ''s'' None None 0)\<lparr>ss_native_refresh_interval_seconds := Some 30\<rparr>"
  have t: "2 = nat (refresh_threshold demo_env ?st 15)" by (simp add: refresh_threshold_def demo_env_def)
  have "fst (timeouts demo_env (int 2) 4 ?st) = map (\<lambda>i. 2 dvd i) [1 ..< Suc 4]"
    by (rule adaptive_refresh_every_threshold [where timeout = 15 and interval = 30, THEN conjunct1])
      (rule t | simp add: demo_env_def new_subscription_state_def)+
  moreover have "[1 ..< Suc 4] = [1, 2, 3, 4 :: nat]" by (simp add: upt_conv_Cons)
  ultimately show ?thesis by simp
qed

section \<open>Expiry and shutdown\<close>

lemma expire_loop_subs:
  "dict_get (sv_subscriptions (snd (expire_loop ids sv))) sid =
     (if sid \<in> set ids then None else dict_get (sv_subscriptions sv) sid)"
  by (induction ids sv rule: expire_loop.induct) (auto simp: case_prod_beta split: option.splits)

lemma release_all_nodes_subs:
  assumes "registry_inv E sv" "dict_get (sv_subscriptions sv) (ss_subscription_id st) = None"
  shows "sv_subscriptions (release_all_nodes E st sv) = sv_subscriptions sv"
    "registry_inv E (release_all_nodes E st sv)"
proof -
  let ?r = "reg.release_each E (ss_monitored_node_ids st) (ss_subscription_id st) sv"
  have s: "sv_subscriptions ?r = sv_subscriptions sv" "registry_inv E ?r"
    using reg.release_each [OF assms(1)] by blast+
  then have "release_all_nodes E st sv = ?r"
    using assms(2) by (simp add: release_all_nodes_def reg.release_each_def upd_sub_None)
  with s show "sv_subscriptions (release_all_nodes E st sv) = sv_subscriptions sv"
    "registry_inv E (release_all_nodes E st sv)" by simp_all
qed

lemma release_removed_subs:
  "registry_inv E sv \<Longrightarrow> (\<And>st. st \<in> set R \<Longrightarrow> dict_get (sv_subscriptions sv) (ss_subscription_id st) = None) \<Longrightarrow>
     sv_subscriptions (foldl (\<lambda>sv st. release_all_nodes E st sv) sv R) = sv_subscriptions sv
     \<and> registry_inv E (foldl (\<lambda>sv st. release_all_nodes E st sv) sv R)"
proof (induction R arbitrary: sv)
  case (Cons st R)
  then show ?case using release_all_nodes_subs [of E sv st] by simp
qed simp

text \<open>
  The time-to-live sweep removes exactly the subscriptions idle for at least the configured
  time and leaves the others as they were.
\<close>

theorem expiry_removes_exactly_the_stale:
  assumes "reachable E sv" "env_ok E" "now = e_clock E (sv_tick sv)"
  shows "dict_get (sv_subscriptions (expire_subscriptions E sv)) sid =
      (case dict_get (sv_subscriptions sv) sid of
         None \<Rightarrow> None
       | Some st \<Rightarrow> if now - ss_last_activity_monotonic st \<ge> of_int (c_ttl_seconds E) then None else Some st)"
proof -
  let ?s = "tick (remember_event_loop E sv)"
  define ids where "ids = stale_ids E now ?s"
  have inv: "service_inv E sv" by (rule reachable_inv [OF assms(1,2)])
  have "quiet_step E sv ?s" by (rule quiet_step_frame) simp_all
  then have invs: "service_inv E ?s" using inv by (rule quiet_step_inv)
  note core = service_invD(1) [OF inv]
  have p: "service_inv_pending E (fst (expire_loop ids ?s)) (snd (expire_loop ids ?s))"
    using expire_loop_pending [OF invs [unfolded service_inv_def], of ids] by simp
  have e: "expire_subscriptions E sv = foldl (\<lambda>sv st. release_all_nodes E st sv)
      (snd (expire_loop ids ?s)) (fst (expire_loop ids ?s))"
    by (simp add: expire_subscriptions_def now_monotonic_def ids_def assms(3) case_prod_beta Let_def)
  have subs: "dict_get (sv_subscriptions (expire_subscriptions E sv)) sid =
      (if sid \<in> set ids then None else dict_get (sv_subscriptions sv) sid)"
    unfolding e
    using release_removed_subs [OF service_coreD(2) [OF pendingD(1) [OF p]] pendingD(6) [OF p]]
    by (simp add: expire_loop_subs)
  have mem: "sid \<in> set ids \<longleftrightarrow> (\<exists>st. dict_get (sv_subscriptions sv) sid = Some st
      \<and> now - ss_last_activity_monotonic st \<ge> of_int (c_ttl_seconds E))"
  proof
    assume "sid \<in> set ids"
    then obtain k st where st: "(k, st) \<in> set (sv_subscriptions sv)" "sid = ss_subscription_id st"
      "now - ss_last_activity_monotonic st \<ge> of_int (c_ttl_seconds E)"
      by (auto simp: ids_def stale_ids_def)
    then have "dict_get (sv_subscriptions sv) k = Some st" using service_coreD(3) [OF core] by simp
    moreover from service_coreD(4) [OF core this] have "k = sid" using st(2) by (simp add: sub_ok_def)
    ultimately show "\<exists>st. dict_get (sv_subscriptions sv) sid = Some st
      \<and> now - ss_last_activity_monotonic st \<ge> of_int (c_ttl_seconds E)" using st(3) by blast
  next
    assume "\<exists>st. dict_get (sv_subscriptions sv) sid = Some st
      \<and> now - ss_last_activity_monotonic st \<ge> of_int (c_ttl_seconds E)"
    then obtain st where st: "dict_get (sv_subscriptions sv) sid = Some st"
      "now - ss_last_activity_monotonic st \<ge> of_int (c_ttl_seconds E)" by blast
    moreover have "ss_subscription_id st = sid" using service_coreD(4) [OF core st(1)] by (simp add: sub_ok_def)
    ultimately show "sid \<in> set ids"
      using map_of_SomeD [OF st(1)] by (force simp: ids_def stale_ids_def)
  qed
  show ?thesis using subs mem by (auto split: option.splits)
qed

theorem expiry_removes_exactly_the_stale_witness:
  "dict_get (sv_subscriptions (expire_subscriptions demo_env demo_registered)) ''sub-'' \<noteq> None"
proof -
  have "map (\<lambda>(i, st). (i, ss_last_activity_monotonic st)) (sv_subscriptions demo_registered) = [(''sub-'', 10)]"
    "sv_tick demo_registered = 11"
    by code_simp+
  moreover have "c_ttl_seconds demo_env = 300" "e_clock demo_env = of_nat"
    by (simp_all add: demo_env_def)
  ultimately show ?thesis
    using expiry_removes_exactly_the_stale [OF demo_registered_reachable demo_env_ok refl, of "''sub-''"]
    by (auto split: option.splits)
qed

text \<open>
  Closing the service releases everything it holds: no subscription, no node monitor, no
  native bin and no background task is left, and the shutdown is signalled.
\<close>

theorem close_releases_everything:
  assumes "reachable E sv" "env_ok E"
  shows "sv_subscriptions (close_service E sv) = [] \<and> sv_node_monitors (close_service E sv) = []
    \<and> sv_bins (close_service E sv) = [] \<and> sv_tasks (close_service E sv) = []"
  using close_service_empty [OF reachable_inv [OF assms]] by (simp add: close_service_def Let_def)

theorem close_releases_everything_witness:
  "sv_node_monitors (close_service demo_env demo_registered) = [] \<and> sv_node_monitors demo_registered \<noteq> []"
  using close_releases_everything [OF demo_registered_reachable demo_env_ok] demo_monitors(1) by auto

section \<open>Failures of native admission\<close>

text \<open>
  A failing native admission backs off: the monitor falls back to polling, and until the
  back-off time has passed no monitor that starts sends any request to the OPC UA server or
  opens a bin.
\<close>

theorem failed_admission_backs_off:
  assumes "sv_native_backoff_until sv \<le> e_clock E (sv_tick sv)"
    "acquire_native_bin_slot E mon (e_capabilities E (Suc (sv_tick sv)))
       (tick (tick (remember_event_loop E sv))) = (None, sv1)"
    "live_monitor mon sv1 = Some live" "nm_node_id live = nm_node_id mon"
    "sv' = start_node_monitor_runtime E mon sv"
  shows "sv_native_backoff_until sv' = e_clock E (sv_tick sv1) + c_native_backoff_seconds E
    \<and> fst (node_status sv' (nm_node_id mon)) = Polling
    \<and> (\<forall>mon' sv''. sv_native_backoff_until sv'' = sv_native_backoff_until sv'
          \<and> e_clock E (sv_tick sv'') < sv_native_backoff_until sv' \<longrightarrow>
        sv_ua_log (start_node_monitor_runtime E mon' sv'') = sv_ua_log sv''
        \<and> sv_bins (start_node_monitor_runtime E mon' sv'') = sv_bins sv'')"
proof -
  let ?s2 = "(tick (remember_event_loop E sv1))
    \<lparr>sv_native_backoff_until := e_clock E (sv_tick sv1) + c_native_backoff_seconds E\<rparr>"
  have e: "sv' = start_polling_node_monitor mon ?s2"
    using assms(1,2,5) by (simp add: start_node_monitor_runtime_def now_monotonic_def)
  have "live_monitor mon ?s2 = Some live" using assms(3) live_monitor_cong [of ?s2 sv1 mon] by simp
  then have "sv_native_backoff_until sv' = e_clock E (sv_tick sv1) + c_native_backoff_seconds E"
    "fst (node_status sv' (nm_node_id mon)) = Polling"
    using assms(4) by (simp_all add: e start_polling_node_monitor_def node_status_def)
  moreover have "sv_ua_log (start_node_monitor_runtime E m x) = sv_ua_log x
      \<and> sv_bins (start_node_monitor_runtime E m x) = sv_bins x"
    if "e_clock E (sv_tick x) < sv_native_backoff_until x" for m x
    using that
    by (simp add: start_node_monitor_runtime_def now_monotonic_def start_polling_node_monitor_def split: option.splits)
  ultimately show ?thesis by simp
qed

text \<open>
  An OPC UA subscription is leaked when adding its first item raises: \<open>_open_new_bin\<close> has
  then created a subscription, records it in no bin and never asks for its deletion, since only
  the \<open>handle is None\<close> branch deletes.
\<close>

theorem failed_subscribe_leaks_the_subscription:
  assumes "e_create_subscription E (Suc (sv_tick sv)) (c_interval_seconds E * 1000) = Some attrs"
    "e_subscribe E (Suc (Suc (sv_tick sv))) (Suc (sv_tick sv)) (nm_node_id mon) = SubscribeRaises"
  shows "\<exists>sv'. open_new_bin E mon capacity sv = (None, sv')
    \<and> sv_ua_log sv' = sv_ua_log sv @ [UaCreate (Suc (sv_tick sv))] \<and> sv_bins sv' = sv_bins sv"
  using assms by (simp add: open_new_bin_def subscribe_single_node_def Let_def)

text \<open>The same registration against the server that refuses monitored items.\<close>

definition refused_service :: service where
  "refused_service = snd (the (register_items refusing_env (Some ''c'') ''sub-'' [''x''] 0 demo_model demo_service))"

theorem failed_subscribe_leaks_the_subscription_witness:
  "(\<exists>sv'. open_new_bin refusing_env \<lparr>nm_node_id = ''x'', nm_mode = Idle, nm_subscriber_ids = [''sub-''],
      nm_bin_id = None, nm_native_refresh_interval_seconds = None, nm_uid = 0\<rparr> 1000 demo_service = (None, sv')
    \<and> sv_ua_log sv' = sv_ua_log demo_service @ [UaCreate (Suc (sv_tick demo_service))])
    \<and> sv_ua_log refused_service = [UaCreate 6] \<and> sv_bins refused_service = []"
proof -
  have "sv_ua_log refused_service = [UaCreate 6] \<and> map fst (sv_bins refused_service) = []" by code_simp
  then show ?thesis
    using failed_subscribe_leaks_the_subscription [of refusing_env demo_service "PData ''Subscription'' []"
      "\<lparr>nm_node_id = ''x'', nm_mode = Idle, nm_subscriber_ids = [''sub-''],
      nm_bin_id = None, nm_native_refresh_interval_seconds = None, nm_uid = 0\<rparr>" 1000]
    by (auto simp: refusing_env_def demo_env_def)
qed

theorem failed_admission_backs_off_witness:
  "\<exists>mon sv sv1 live. acquire_native_bin_slot refusing_env mon (e_capabilities refusing_env (Suc (sv_tick sv)))
       (tick (tick (remember_event_loop refusing_env sv))) = (None, sv1)
    \<and> live_monitor mon sv1 = Some live
    \<and> sv_native_backoff_until (start_node_monitor_runtime refusing_env mon sv) = 35"
proof -
  define mon where "mon = \<lparr>nm_node_id = ''x'', nm_mode = Idle, nm_subscriber_ids = [''sub-''],
      nm_bin_id = None, nm_native_refresh_interval_seconds = None, nm_uid = 0\<rparr>"
  define sv where "sv = set_monitor mon new_service"
  define sv1 where "sv1 = snd (acquire_native_bin_slot refusing_env mon (e_capabilities refusing_env (Suc (sv_tick sv)))
       (tick (tick (remember_event_loop refusing_env sv))))"
  let ?x = "tick (tick (remember_event_loop refusing_env sv))"
  have x: "sv_bins ?x = []" "sv_tick ?x = 2" "sv_tick sv = 0" "sv_bins sv = []"
    by (simp_all add: sv_def) (simp_all add: new_service_def)
  have r: "e_capabilities refusing_env = (\<lambda>_. no_limits)"
    "e_create_subscription refusing_env = (\<lambda>_ _. Some (PData ''Subscription'' []))"
    "e_subscribe refusing_env = (\<lambda>_ _ _. SubscribeRaises)"
    by (simp_all add: refusing_env_def demo_env_def)
  have o: "acquire_native_bin_slot refusing_env mon (e_capabilities refusing_env (Suc (sv_tick sv))) ?x
      = open_new_bin refusing_env mon 1000 ?x"
    by (simp add: acquire_native_bin_slot_def spare_bin_def can_open_new_bin_def x r no_limits_def
        min_positive_def DEFAULT_BIN_CAPACITY_def)
  have op: "open_new_bin refusing_env mon 1000 ?x = (None, tick (ua_log (UaCreate 3) (tick (tick ?x))))"
    by (simp add: open_new_bin_def subscribe_single_node_def x r Let_def numeral_3_eq_3)
  have e: "acquire_native_bin_slot refusing_env mon (e_capabilities refusing_env (Suc (sv_tick sv))) ?x = (None, sv1)"
    by (simp only: sv1_def o op snd_conv)
  have "sv1 = tick (ua_log (UaCreate 3) (tick (tick ?x)))" by (simp only: sv1_def o op snd_conv)
  then have t: "sv_tick sv1 = 5" "sv_node_monitors sv1 = sv_node_monitors sv"
    using x by simp_all
  have l: "live_monitor mon sv1 = Some mon"
    by (simp add: live_monitor_def t) (simp add: sv_def)
  have "sv_native_backoff_until sv \<le> e_clock refusing_env (sv_tick sv)"
    by (simp add: sv_def new_service_def set_monitor_def refusing_env_def demo_env_def)
  from failed_admission_backs_off [OF this e l refl refl] e l t show ?thesis
    by (auto simp: refusing_env_def demo_env_def)
qed

section \<open>A deletion during a registration\<close>

lemma delete_one:
  assumes "registry_inv E sv" "scoped c sid sv = Some st" "ss_subscription_id st = sid"
  shows "dict_get (sv_subscriptions (snd (delete_subscriptions E c [sid] sv))) sid = None"
    "registry_inv E (snd (delete_subscriptions E c [sid] sv))"
proof -
  let ?sv = "sv\<lparr>sv_subscriptions := dict_del sid (sv_subscriptions sv)\<rparr>"
  have e: "snd (delete_subscriptions E c [sid] sv) = release_all_nodes E (st\<lparr>ss_update_event := True\<rparr>) ?sv"
    using assms(2) by (simp add: delete_subscriptions_def)
  have "registry_inv E ?sv" by (rule registry_inv_cong [OF assms(1)]) simp_all
  from release_all_nodes_subs [OF this, of "st\<lparr>ss_update_event := True\<rparr>"] assms(3)
  show "dict_get (sv_subscriptions (snd (delete_subscriptions E c [sid] sv))) sid = None"
    "registry_inv E (snd (delete_subscriptions E c [sid] sv))"
    by (simp_all add: e)
qed

text \<open>
  C8. A deletion that runs while a registration is still acquiring its nodes leaks them: the
  registration goes on for the deleted subscription, which then stays a subscriber of every
  node acquired after the deletion, although it no longer exists; nothing releases them, since
  every release goes through a registered subscription. \<open>ns1\<close> is acquired before the deletion
  and \<open>ns2\<close> after it; the steps are those of \<open>register_items\<close> in their order.
\<close>

theorem delete_during_register_leaks_monitors:
  assumes "reachable E sv" "env_ok E" "scoped c sid sv = Some st" "distinct new"
    "set_diff new (ss_monitored_node_ids st) = ns1 @ ns2"
    "sv1 = register_commit E sid objects new n2e sv"
    "sv2 = foldl (\<lambda>sv n. acquire_node_monitor E n sid sv)
       (foldl (\<lambda>sv n. release_node_monitor E n sid sv) sv1 (set_diff (ss_monitored_node_ids st) new)) ns1"
    "sv3 = snd (delete_subscriptions E c [sid] sv2)"
    "sv4 = foldl (\<lambda>sv n. acquire_node_monitor E n sid sv) sv3 ns2"
  shows "dict_get (sv_subscriptions sv4) sid = None \<and> (\<forall>n \<in> set ns2. sid \<in> watchers sv4 n)"
proof -
  have inv: "service_inv E sv" by (rule reachable_inv [OF assms(1,2)])
  have st: "dict_get (sv_subscriptions sv) sid = Some st" by (rule scoped_SomeD [OF assms(3)])
  have r: "registering E sid (ss_monitored_node_ids st) new sv1"
    unfolding assms(6) by (rule register_commit_registering [OF inv st assms(4)])
  then have core1: "service_core E sv1" by (simp add: registering_def)
  let ?m = "reg.release_each E (set_diff (ss_monitored_node_ids st) new) sid sv1"
  have m: "registry_inv E ?m" "sv_subscriptions ?m = sv_subscriptions sv1"
    using reg.release_each [OF service_coreD(2) [OF core1]] by blast+
  have sv2: "sv2 = reg.acquire_each E ns1 sid ?m"
    by (simp add: assms(7) reg.release_each_def reg.acquire_each_def)
  have i2: "registry_inv E sv2" and s2: "sv_subscriptions sv2 = sv_subscriptions sv1"
    using reg.acquire_each [OF m(1)] m(2) unfolding sv2 by auto
  have get1: "\<exists>x. dict_get (sv_subscriptions sv1) sid = Some x \<and> ss_client_id x = ss_client_id st
      \<and> ss_subscription_id x = sid"
    using st service_coreD(4) [OF service_invD(1) [OF inv] st]
    by (simp add: assms(6) register_commit_def touch_def now_monotonic_def Let_def sub_ok_def)
  then obtain x where x: "scoped c sid sv2 = Some x" "ss_subscription_id x = sid"
    using assms(3) st s2 by (auto simp: scoped_def split: if_splits)
  have d: "dict_get (sv_subscriptions sv3) sid = None" "registry_inv E sv3"
    using delete_one [OF i2 x] by (simp_all add: assms(8))
  have "sv4 = reg.acquire_each E ns2 sid sv3" by (simp add: assms(9) reg.acquire_each_def)
  with reg.acquire_each [OF d(2), of ns2 sid] d(1) show ?thesis by simp
qed

theorem delete_during_register_leaks_monitors_witness:
  "\<exists>sv4. dict_get (sv_subscriptions sv4) ''sub-'' = None \<and> ''sub-'' \<in> watchers sv4 ''y''"
proof -
  have sc: "scoped (Some ''c'') ''sub-'' demo_service = Some (new_subscription_state ''sub-'' (Some ''c'') None 1)"
    by (simp add: scoped_def demo_lookup) (simp add: new_subscription_state_def)
  show ?thesis
    using delete_during_register_leaks_monitors [OF demo_reachable demo_env_ok sc, of "[''x'', ''y'']" "[''x'']" "[''y'']",
        OF _ _ refl refl refl refl, of "[(''x'', 0), (''y'', 0)]" "[]"]
    by (auto simp: set_diff_def new_subscription_state_def)
qed

end
