(* ===== verification/SubscriptionProps.thy ===== *)
theory SubscriptionProps
  imports SubscriptionApi ServiceProps
begin

text \<open>
  Properties of the subscription API: what the routes answer on every branch, that a stream
  delivers in order, and how streams and polling interact.
\<close>

section \<open>Streams deliver in order\<close>

text \<open>
  The streams of a subscription as the gateway runs them: opened by the route, then one step at
  a time, each in an arbitrary reachable state of the service.
\<close>

inductive stream_run :: "env \<Rightarrow> string \<Rightarrow> string \<Rightarrow> int \<Rightarrow> int \<Rightarrow> stream \<Rightarrow> bool"
  for E :: env and client sid :: string and g timeout :: int where
  opened: "reachable E sv \<Longrightarrow> stream_route E sid c sv = (Inr (sn, sm), sv') \<Longrightarrow> stream_run E client sid g timeout sm"
| turn: "stream_run E client sid g timeout sm \<Longrightarrow> sm_pc sm = Looping \<Longrightarrow> reachable E sv
    \<Longrightarrow> stream_run E client sid g timeout (fst (stream_turn E client sid g timeout sm sv))"
| wake: "stream_run E client sid g timeout sm \<Longrightarrow> sm_pc sm = Waiting r t \<Longrightarrow> reachable E sv
    \<Longrightarrow> stream_run E client sid g timeout (fst (stream_wake E client sid g w sm sv))"
| abandon: "stream_run E client sid g timeout sm \<Longrightarrow> sm_pc sm \<noteq> Finished \<Longrightarrow> reachable E sv
    \<Longrightarrow> stream_run E client sid g timeout (fst (stream_abandon E sid g sm sv))"

definition delivered :: "stream_event list \<Rightarrow> SubscriptionUpdate list" where
  "delivered es = concat (map (\<lambda>e. case e of Updates us \<Rightarrow> us | _ \<Rightarrow> []) es)"

lemma delivered_simps [simp]:
  "delivered [] = []" "delivered (es @ fs) = delivered es @ delivered fs"
  "delivered [Connected] = []" "delivered [Keepalive] = []" "delivered [Close] = []"
  "delivered [Updates us] = us" "delivered (Connected # es) = delivered es"
  by (simp_all add: delivered_def)

text \<open>A batch: a non-empty block of consecutive numbers.\<close>

definition batch :: "SubscriptionUpdate list \<Rightarrow> bool" where
  "batch us \<longleftrightarrow> us \<noteq> [] \<and> map su_sequence_number us = [su_sequence_number (hd us) .. last_number us]"

definition stream_ok :: "stream \<Rightarrow> bool" where
  "stream_ok sm \<longleftrightarrow>
     (\<exists>es. sm_events sm = Connected # es \<and> Connected \<notin> set es
        \<and> (if sm_pc sm = Finished then Close \<notin> set (butlast es) else Close \<notin> set es))
     \<and> sorted_wrt (<) (map su_sequence_number (delivered (sm_events sm)))
     \<and> (\<forall>us. Updates us \<in> set (sm_events sm) \<longrightarrow> batch us)
     \<and> 0 \<le> sm_last_sequence sm
     \<and> (\<forall>u \<in> set (delivered (sm_events sm)). su_sequence_number u \<le> sm_last_sequence sm)"

text \<open>What a wait or a sync hands out is a block of the queue it leaves behind.\<close>

lemma touch_updates:
  assumes "dict_get (sv_subscriptions (touch E sid sv)) sid = Some st'"
  shows "\<exists>st. dict_get (sv_subscriptions sv) sid = Some st
    \<and> st' = st\<lparr>ss_last_activity_monotonic := ss_last_activity_monotonic st'\<rparr>"
  using assms by (auto simp: touch_def now_monotonic_def upd_sub_def Let_def split: option.splits if_splits)

lemma wait_result_block:
  assumes "wait_result E c sid after sv = (Some us, sv')"
  shows "\<exists>st. dict_get (sv_subscriptions sv') sid = Some st \<and> us = updates_after st after"
  using assms
  by (auto simp: wait_result_def scoped_def touch_def now_monotonic_def upd_sub_def updates_after_def Let_def
      split: option.splits if_splits)

lemma wait_finish_block:
  assumes "wait_finish E c sid after r t w sv = (Some us, sv')"
  shows "\<exists>st. dict_get (sv_subscriptions sv') sid = Some st \<and> us = updates_after st after"
  using assms wait_result_block
  by (fastforce simp: wait_finish_def Let_def split: option.splits if_splits wakeup.splits prod.splits)

lemma wait_begin_block:
  assumes "wait_begin E c sid after t sv = (WaitReady us, sv')"
  shows "\<exists>st. dict_get (sv_subscriptions sv') sid = Some st \<and> us = updates_after st after \<and> us \<noteq> []"
  using assms
  by (auto simp: wait_begin_def scoped_def touch_def now_monotonic_def upd_sub_def updates_after_def Let_def
      split: option.splits if_splits)

lemma sync_block:
  assumes "sync E c sid ack True sv = (Some r, sv')"
  shows "\<exists>st. dict_get (sv_subscriptions sv') sid = Some st \<and> sr_updates r = ss_updates st
    \<and> ss_dropped_from_sequence st = None \<and> ss_dropped_to_sequence st = None \<and> \<not> sr_stream_active r"
proof -
  have "\<exists>sv1. sync_collect E c sid sv1 = (Some r, sv')"
    using assms by (auto simp: sync_def Let_def case_prod_beta split: option.splits)
  then show ?thesis
    by (auto simp: sync_collect_def collect_result_def scoped_def touch_def now_monotonic_def upd_sub_def Let_def
        split: option.splits if_splits)
qed

lemma upto_batch:
  assumes "map su_sequence_number us = [a .. b]" "us \<noteq> []"
  shows "batch us" "su_sequence_number (hd us) = a" "last_number us = b"
proof -
  have ab: "a \<le> b" using assms by (metis map_is_Nil_conv upto_Nil linorder_not_le)
  have "su_sequence_number (hd us) = hd [a .. b]" by (metis assms hd_map)
  with ab show h: "su_sequence_number (hd us) = a" by (simp add: upto_tl)
  have "last_number us = last [a .. b]" unfolding last_number_def by (metis assms last_map)
  with ab show l: "last_number us = b" by (simp add: upto_rec2)
  from h l assms show "batch us" by (simp add: batch_def)
qed

text \<open>The interface between the queue and a stream.\<close>

lemma queue_block:
  assumes "reachable E sv" "env_ok E" "dict_get (sv_subscriptions sv) sid = Some st" "0 \<le> after"
    "updates_after st after \<noteq> []"
  shows "batch (updates_after st after)" "after < su_sequence_number (hd (updates_after st after))"
proof -
  have q: "queue_inv (c_max_updates E) st"
    using service_coreD(4) [OF service_invD(1) [OF reachable_inv [OF assms(1,2)]] assms(3)] by (simp add: sub_ok_def)
  have "map su_sequence_number (updates_after st after) = [max (queue_floor st) after + 1 .. ss_sequence_number st]"
    unfolding updates_after_def
    by (rule filter_seq_after) (use q queue_inv_floor [OF q] in \<open>simp_all add: queue_inv_def\<close>)
  from upto_batch [OF this assms(5)]
  show "batch (updates_after st after)" "after < su_sequence_number (hd (updates_after st after))" by simp_all
qed

lemma batch_bounds:
  assumes "batch us" "u \<in> set us"
  shows "su_sequence_number (hd us) \<le> su_sequence_number u" "su_sequence_number u \<le> last_number us"
proof -
  have "su_sequence_number u \<in> set (map su_sequence_number us)" using assms(2) by simp
  also have "map su_sequence_number us = [su_sequence_number (hd us) .. last_number us]"
    using assms(1) by (simp add: batch_def)
  finally show "su_sequence_number (hd us) \<le> su_sequence_number u" "su_sequence_number u \<le> last_number us"
    by simp_all
qed

lemma batch_sorted: "batch us \<Longrightarrow> sorted_wrt (<) (map su_sequence_number us)"
  by (metis batch_def sorted_wrt_upto)

lemma stream_events_cases:
  assumes "stream_ok sm"
  obtains es where "sm_events sm = Connected # es" "Connected \<notin> set es"
    "if sm_pc sm = Finished then Close \<notin> set (butlast es) else Close \<notin> set es"
  using assms unfolding stream_ok_def by blast

lemma stream_ok_deliver:
  assumes ok: "stream_ok sm" "sm_pc sm \<noteq> Finished"
    and new: "\<And>us. updates = Some us \<Longrightarrow> us \<noteq> [] \<Longrightarrow> batch us \<and> sm_last_sequence sm < su_sequence_number (hd us)"
  shows "stream_ok (fst (stream_deliver E sid g updates sm sv))"
proof -
  obtain es where es: "sm_events sm = Connected # es" "Connected \<notin> set es" "Close \<notin> set es"
    using ok(2) by (rule_tac stream_events_cases [OF ok(1)]) simp
  have srt: "sorted_wrt (<) (map su_sequence_number (delivered es))"
    and le: "u \<in> set (delivered es) \<Longrightarrow> su_sequence_number u \<le> sm_last_sequence sm"
    and b: "Updates us \<in> set es \<Longrightarrow> batch us" and nn: "0 \<le> sm_last_sequence sm" for u us
    using ok(1) unfolding stream_ok_def es(1) by auto
  show ?thesis
  proof (cases updates)
    case None
    with es srt le b nn show ?thesis
      by (auto simp: stream_deliver_def stream_close_def stream_ok_def butlast_append)
  next
    case (Some us)
    show ?thesis
    proof (cases "us = []")
      case True
      with Some es srt le b nn show ?thesis by (auto simp: stream_deliver_def stream_ok_def)
    next
      case False
      from new [OF Some False] have n: "batch us" "sm_last_sequence sm < su_sequence_number (hd us)" by auto
      have lt: "su_sequence_number u < su_sequence_number v" if "u \<in> set (delivered es)" "v \<in> set us" for u v
        using le [OF that(1)] n(2) batch_bounds(1) [OF n(1) that(2)] by linarith
      have up: "su_sequence_number u \<le> last_number us" if "u \<in> set (delivered es) \<union> set us" for u
        using that lt [of u "last us"] batch_bounds(2) [OF n(1)] False by (auto simp: last_number_def intro: less_imp_le)
      have "0 \<le> last_number us" using nn n batch_bounds(1) [OF n(1), of "last us"] False by (simp add: last_number_def)
      with Some False es srt b n(1) lt up batch_sorted [OF n(1)] show ?thesis
        by (auto simp: stream_deliver_def stream_ok_def sorted_wrt_append)
    qed
  qed
qed

lemma stream_ok_pc:
  "stream_ok sm \<Longrightarrow> sm_pc sm \<noteq> Finished \<Longrightarrow> stream_ok (sm\<lparr>sm_pc := p\<rparr>)"
  unfolding stream_ok_def by (auto dest: in_set_butlastD)

text \<open>The two halves of a session that was opened.\<close>

lemma begin_sessionE:
  assumes "begin_stream_session E sid c ack sv = (Inr sn, sv')"
  obtains sv1 where
    "activate_relaxed E (py_strip (the c)) sid sv = (Some (sn_stream_generation sn, sn_scope_relaxed sn), sv1)"
    "sync E (if sn_scope_relaxed sn then None else Some (py_strip (the c))) sid ack True sv1 = (Some (sn_acknowledged sn), sv')"
    "sn_client_id sn = py_strip (the c)"
  using assms
  by (auto simp: begin_stream_session_def client_required_def Let_def split: if_splits prod.splits option.splits)

lemma activate_relaxed_steps:
  assumes "activate_relaxed E client sid sv = (r, sv')"
  shows "quiet_step E sv sv'" "reachable E sv \<Longrightarrow> reachable E sv'"
proof -
  let ?a = "snd (activate_stream E (Some client) sid sv)"
  have c: "sv' = ?a \<or> sv' = snd (activate_stream E None sid ?a)"
    using assms by (auto simp: activate_relaxed_def split: prod.splits option.splits)
  then show "quiet_step E sv sv'" using quiet_activate quiet_step_trans by metis
  show "reachable E sv \<Longrightarrow> reachable E sv'" using c reachable.activate by metis
qed

lemma stream_routeE:
  assumes "stream_route E sid c sv = (Inr (sn, sm), sv')"
  obtains "begin_stream_session E sid c None sv = (Inr sn, sv')" "sm = stream_open (sr_updates (sn_acknowledged sn)) None"
  using assms by (auto simp: stream_route_def case_prod_beta rbind_Inr_iff prod_eq_iff)

lemma opened_cases: "\<not> isl (fst p) \<Longrightarrow> \<exists>x y s. p = (Inr (x, y), s)"
  by (cases p; cases "fst p") auto

lemma stream_ok_opened:
  assumes "reachable E sv" "env_ok E" "stream_route E sid c sv = (Inr (sn, sm), sv')"
  shows "stream_ok sm"
proof -
  let ?us = "sr_updates (sn_acknowledged sn)"
  have b: "begin_stream_session E sid c None sv = (Inr sn, sv')" and sm: "sm = stream_open ?us None"
    using stream_routeE [OF assms(3)] by auto
  obtain c' r sv1 where sy: "sync E c' sid None True sv1 = (Some r, sv')" "sn_acknowledged sn = r"
      "reachable E sv1"
    using begin_sessionE [OF b] activate_relaxed_steps(2) [OF _ assms(1)] by metis
  from sync_block [OF sy(1)] obtain st where st: "dict_get (sv_subscriptions sv') sid = Some st"
    "sr_updates r = ss_updates st" by auto
  have "reachable E sv'" using reachable.sync [OF sy(3), of c' sid None True] sy(1) by simp
  then have q: "queue_inv (c_max_updates E) st"
    using service_coreD(4) [OF service_invD(1) [OF reachable_inv] st(1)] assms(2) by (simp add: sub_ok_def)
  have u: "?us = ss_updates st" using sy(2) st(2) by simp
  show ?thesis
  proof (cases "?us = []")
    case True
    then show ?thesis by (simp add: sm stream_open_def stream_ok_def)
  next
    case False
    have "map su_sequence_number ?us = [queue_floor st + 1 .. ss_sequence_number st]"
      using q u by (simp add: queue_inv_def)
    from upto_batch [OF this False] queue_inv_floor [OF q]
    have b: "batch ?us" "0 \<le> last_number ?us" by simp_all
    with False batch_sorted [OF b(1)] batch_bounds(2) [OF b(1)] show ?thesis
      by (auto simp: sm stream_open_def stream_ok_def Let_def delivered_def)
  qed
qed

lemma stream_ok_turn:
  assumes "stream_ok sm" "sm_pc sm \<noteq> Finished" "reachable E sv" "env_ok E"
  shows "stream_ok (fst (stream_turn E client sid g timeout sm sv))"
proof (cases "is_stream_active sid g sv")
  case False
  then show ?thesis
    using stream_ok_deliver [OF assms(1,2), of None] by (simp add: stream_turn_def stream_deliver_def)
next
  case True
  obtain ws sv1 where wb: "wait_begin E (Some client) sid (sm_last_sequence sm) timeout sv = (ws, sv1)" by fastforce
  have r: "reachable E sv1" using reachable.wait [OF assms(3)] wb by (metis snd_conv)
  have nn: "0 \<le> sm_last_sequence sm" using assms(1) by (simp add: stream_ok_def)
  show ?thesis
  proof (cases ws)
    case WaitGone
    with True wb show ?thesis
      using stream_ok_deliver [OF assms(1,2), of None] by (simp add: stream_turn_def)
  next
    case (WaitPending x y)
    with True wb show ?thesis using stream_ok_pc [OF assms(1,2)] by (simp add: stream_turn_def)
  next
    case (WaitReady us)
    from wait_begin_block [OF wb [unfolded WaitReady]] obtain st where
      st: "dict_get (sv_subscriptions sv1) sid = Some st" "us = updates_after st (sm_last_sequence sm)" by auto
    have "stream_ok (fst (stream_deliver E sid g (Some us) sm sv1))"
      by (rule stream_ok_deliver [OF assms(1,2)]) (use queue_block [OF r assms(4) st(1) nn] st(2) in auto)
    with True wb WaitReady show ?thesis by (simp add: stream_turn_def)
  qed
qed

lemma stream_ok_wake:
  assumes "stream_ok sm" "sm_pc sm = Waiting r t" "reachable E sv" "env_ok E"
  shows "stream_ok (fst (stream_wake E client sid g w sm sv))"
proof -
  obtain up sv1 where wf: "wait_finish E (Some client) sid (sm_last_sequence sm) r t w sv = (up, sv1)" by fastforce
  have r: "reachable E sv1" using reachable.wake [OF assms(3)] wf by (metis snd_conv)
  have nn: "0 \<le> sm_last_sequence sm" using assms(1) by (simp add: stream_ok_def)
  have "batch us \<and> sm_last_sequence sm < su_sequence_number (hd us)" if h: "up = Some us" "us \<noteq> []" for us
  proof -
    from wait_finish_block [OF wf [unfolded h(1)]] obtain st where
      "dict_get (sv_subscriptions sv1) sid = Some st" "us = updates_after st (sm_last_sequence sm)" by auto
    with queue_block [OF r assms(4) _ nn] h(2) show ?thesis by auto
  qed
  then have "stream_ok (fst (stream_deliver E sid g up sm sv1))"
    using stream_ok_deliver [OF assms(1)] assms(2) by simp
  with wf assms(2) show ?thesis by (simp add: stream_wake_def)
qed

lemma stream_run_ok:
  assumes "stream_run E client sid g timeout sm" "env_ok E"
  shows "stream_ok sm"
  using assms(1)
proof (induction rule: stream_run.induct)
  case (opened sv c sn sm sv')
  then show ?case using stream_ok_opened assms(2) by blast
next
  case (turn sm sv)
  then show ?case using stream_ok_turn assms(2) by simp
next
  case (wake sm r t sv w)
  then show ?case using stream_ok_wake assms(2) by simp
next
  case (abandon sm sv)
  then show ?case using stream_ok_pc by (simp add: stream_abandon_def)
qed

text \<open>
  C9. A stream delivers every update at most once and in order: whatever the service does between
  the steps of the stream, the sequence numbers of all delivered updates strictly increase, each
  data event is a non-empty block of consecutive numbers, the stream starts with its connected
  comment and nothing follows a close event.
\<close>

theorem stream_delivers_in_order:
  assumes "stream_run E client sid g timeout sm" "env_ok E"
  shows "sorted_wrt (<) (map su_sequence_number (delivered (sm_events sm)))
    \<and> (\<forall>us. Updates us \<in> set (sm_events sm) \<longrightarrow>
      us \<noteq> [] \<and> map su_sequence_number us = [su_sequence_number (hd us) .. su_sequence_number (last us)])
    \<and> hd (sm_events sm) = Connected \<and> Close \<notin> set (butlast (sm_events sm))
    \<and> (Close \<in> set (sm_events sm) \<longrightarrow> sm_pc sm = Finished)"
  using stream_run_ok [OF assms] unfolding stream_ok_def
  by (auto simp: batch_def last_number_def split: if_splits dest: in_set_butlastD)

text \<open>The client of the demonstration service opens a stream and the stream takes a turn.\<close>

definition demo_session :: "(StreamSessionDto \<times> stream) result \<times> service" where
  "demo_session = stream_route demo_env ''sub-'' (Some ''c'') demo_registered"

definition demo_stream :: stream where
  "demo_stream = (case fst demo_session of Inr (sn, sm) \<Rightarrow> sm | Inl e \<Rightarrow> stream_open [] None)"

lemma demo_stream_open: "\<exists>sn sv'. stream_route demo_env ''sub-'' (Some ''c'') demo_registered = (Inr (sn, demo_stream), sv')"
proof -
  have "\<not> isl (fst demo_session)" by code_simp
  from opened_cases [OF this] obtain sn sm sv' where e: "demo_session = (Inr (sn, sm), sv')" by blast
  have "demo_stream = sm" by (simp add: demo_stream_def e)
  with e show ?thesis unfolding demo_session_def by blast
qed

lemma demo_stream_run: "stream_run demo_env ''c'' ''sub-'' 1 2 demo_stream"
  using demo_stream_open stream_run.opened [OF demo_registered_reachable] by blast

theorem stream_delivers_in_order_witness:
  "map su_sequence_number (delivered (sm_events demo_stream)) = [1]
    \<and> sorted_wrt (<) (map su_sequence_number (delivered (sm_events demo_stream)))
    \<and> hd (sm_events demo_stream) = Connected"
proof -
  have "map su_sequence_number (delivered (sm_events demo_stream)) = [1]" by code_simp
  with stream_delivers_in_order [OF demo_stream_run demo_env_ok] show ?thesis by blast
qed

section \<open>Streams and polling\<close>

text \<open>What a refresh leaves alone: owner, stream generation and stream state.\<close>

definition stream_key :: "SubscriptionState \<Rightarrow> string option \<times> int \<times> bool" where
  "stream_key st = (ss_client_id st, ss_active_stream_generation st, ss_stream_connected st)"

abbreviation key_of :: "string \<Rightarrow> service \<Rightarrow> (string option \<times> int \<times> bool) option" where
  "key_of sid sv \<equiv> map_option stream_key (dict_get (sv_subscriptions sv) sid)"

lemma stream_key_frame [simp]:
  "stream_key (st\<lparr>ss_last_activity_monotonic := x\<rparr>) = stream_key st"
  "stream_key (append_update m ts n v st) = stream_key st"
  "stream_key (acknowledge ack st) = stream_key st"
  "stream_key (snd (collect_result st)) = stream_key st"
  by (simp_all add: stream_key_def acknowledge_def collect_result_def split: option.splits)

lemma key_upd_sub: "(\<And>st. stream_key (f st) = stream_key st) \<Longrightarrow> key_of k (upd_sub sid f sv) = key_of k sv"
  by (simp add: option.map_comp comp_def)

lemma key_touch [simp]: "key_of k (touch E sid sv) = key_of k sv"
  by (simp add: touch_def now_monotonic_def Let_def option.map_comp comp_def)

lemma key_foldl: "(\<And>x sv. x \<in> set xs \<Longrightarrow> key_of k (f sv x) = key_of k sv) \<Longrightarrow> key_of k (foldl f sv xs) = key_of k sv"
  by (induction xs arbitrary: sv) auto

lemma key_refresh: "key_of k (refresh_changed_values E sid sv) = key_of k sv"
proof -
  have "key_of k (refresh_apply E sid pairs sv) = key_of k sv" for pairs sv
    unfolding refresh_apply_def
    by (auto split: option.split simp: option.map_comp comp_def intro!: key_foldl)
  then show ?thesis
    by (simp add: refresh_changed_values_def Let_def split: option.splits)
qed

lemma key_sync: "key_of k (snd (sync E c sid ack True sv)) = key_of k sv"
proof -
  have b: "key_of k (snd (sync_begin E sid ack sv)) = key_of k sv" for sv
    by (simp add: sync_begin_def Let_def option.map_comp comp_def)
  have c: "key_of k (snd (sync_collect E c sid sv)) = key_of k sv" for sv
    by (simp add: sync_collect_def option.map_comp comp_def split: option.split)
  show ?thesis
    by (auto simp: sync_def Let_def case_prod_beta b c key_refresh split: option.splits)
qed

text \<open>The state of a subscription after an activation by any client, and after a stream session began.\<close>

lemma activate_key:
  assumes "activate_stream E c sid sv = (Some g, sv')"
  shows "\<exists>st. scoped c sid sv = Some st \<and> g = ss_active_stream_generation st + 1
    \<and> key_of sid sv' = Some (ss_client_id st, g, True)"
  using assms
  by (auto simp: activate_stream_def Let_def touch_def now_monotonic_def scoped_def stream_key_def
      split: option.splits if_splits)

lemma activate_None: "activate_stream E c sid sv = (None, sv') \<longleftrightarrow>
    scoped c sid (ensure_cleanup_task sv) = None \<and> sv' = ensure_cleanup_task sv"
  by (auto simp: activate_stream_def Let_def split: option.splits)

lemma begin_session_key:
  assumes "begin_stream_session E sid c ack sv = (Inr sn, sv')"
  shows "\<exists>owner st. key_of sid sv' = Some (owner, sn_stream_generation sn, True)
    \<and> dict_get (sv_subscriptions sv') sid = Some st \<and> sr_updates (sn_acknowledged sn) = ss_updates st
    \<and> ss_dropped_from_sequence st = None \<and> ss_dropped_to_sequence st = None
    \<and> sn_client_id sn = py_strip (the c) \<and> (sn_scope_relaxed sn \<longleftrightarrow> owner \<noteq> Some (sn_client_id sn))"
proof -
  let ?c = "py_strip (the c)"
  obtain sv1 where ar: "activate_relaxed E ?c sid sv = (Some (sn_stream_generation sn, sn_scope_relaxed sn), sv1)"
    "sync E (if sn_scope_relaxed sn then None else Some ?c) sid ack True sv1 = (Some (sn_acknowledged sn), sv')"
    "sn_client_id sn = ?c"
    using begin_sessionE [OF assms] .
  obtain st where st: "dict_get (sv_subscriptions sv') sid = Some st" "sr_updates (sn_acknowledged sn) = ss_updates st"
    "ss_dropped_from_sequence st = None" "ss_dropped_to_sequence st = None"
    using sync_block [OF ar(2)] by blast
  have k: "key_of sid sv' = key_of sid sv1" using key_sync ar(2) by (metis snd_conv)
  have "\<exists>owner. key_of sid sv1 = Some (owner, sn_stream_generation sn, True)
      \<and> (sn_scope_relaxed sn \<longleftrightarrow> owner \<noteq> Some ?c)"
  proof (cases "sn_scope_relaxed sn")
    case False
    then have "activate_stream E (Some ?c) sid sv = (Some (sn_stream_generation sn), sv1)"
      using ar(1) by (auto simp: activate_relaxed_def split: prod.splits option.splits)
    from activate_key [OF this] False show ?thesis by (auto simp: scoped_def split: option.splits if_splits)
  next
    case True
    then obtain sv0 where a: "activate_stream E (Some ?c) sid sv = (None, sv0)"
      "activate_stream E None sid sv0 = (Some (sn_stream_generation sn), sv1)"
      using ar(1) by (auto simp: activate_relaxed_def split: prod.splits option.splits)
    from activate_key [OF a(2)] a(1) True show ?thesis
      by (auto simp: activate_None scoped_def split: option.splits if_splits)
  qed
  then obtain owner where o: "key_of sid sv' = Some (owner, sn_stream_generation sn, True)"
    "sn_scope_relaxed sn \<longleftrightarrow> owner \<noteq> Some (sn_client_id sn)"
    unfolding k ar(3) by auto
  show ?thesis by (intro exI [of _ owner] exI [of _ st] conjI o st ar(3))
qed

text \<open>
  Opening a stream forgets that updates were lost: once a session begins, the dropped range
  of the subscription is gone whether or not there was one, no event of the stream mentions it, and
  the next collection by polling reports no overflow. The sync endpoint promises status 206 when
  updates were dropped since the last sync.
\<close>

theorem stream_start_forgets_losses:
  assumes "stream_route E sid c sv = (Inr (sn, sm), sv')"
  shows "\<exists>st. dict_get (sv_subscriptions sv') sid = Some st
    \<and> \<not> sr_queue_overflow (fst (collect_result st)) \<and> sr_dropped_from_sequence (fst (collect_result st)) = None
    \<and> sm_events sm = Connected # (if ss_updates st = [] then [] else [Updates (ss_updates st)])"
proof -
  have b: "begin_stream_session E sid c None sv = (Inr sn, sv')" and sm: "sm = stream_open (sr_updates (sn_acknowledged sn)) None"
    using stream_routeE [OF assms] by auto
  from begin_session_key [OF b] sm show ?thesis
    by (auto simp: collect_result_def stream_open_def Let_def)
qed

text \<open>A queue of one: the demonstration service after two updates were dropped.\<close>

definition lossy_service :: service where
  "lossy_service = upd_sub ''sub-'' (\<lambda>st. append_update 1 ''t'' ''x'' (PInt 3) (append_update 1 ''t'' ''x'' (PInt 2)
     st)) demo_registered"

theorem stream_start_forgets_losses_witness:
  "map_option ss_dropped_from_sequence (dict_get (sv_subscriptions lossy_service) ''sub-'') = Some (Some 1)
    \<and> (\<exists>sn sm sv' st. stream_route demo_env ''sub-'' (Some ''c'') lossy_service = (Inr (sn, sm), sv')
        \<and> dict_get (sv_subscriptions sv') ''sub-'' = Some st \<and> \<not> sr_queue_overflow (fst (collect_result st)))"
proof -
  have d: "map_option ss_dropped_from_sequence (dict_get (sv_subscriptions lossy_service) ''sub-'') = Some (Some 1)"
    by code_simp
  have "\<not> isl (fst (stream_route demo_env ''sub-'' (Some ''c'') lossy_service))" by code_simp
  from opened_cases [OF this] obtain sn sm sv' where
    e: "stream_route demo_env ''sub-'' (Some ''c'') lossy_service = (Inr (sn, sm), sv')" by blast
  from stream_start_forgets_losses [OF e] d e show ?thesis by blast
qed

text \<open>
  A stream opened under the relaxed scope is of no use: any client may open a stream on
  another client's subscription, which hands it the owner's queued updates and takes the stream
  away from the owner, but its first turn closes it, because the wait still checks the owner.
\<close>

theorem relaxed_stream_closes_at_once:
  assumes "dict_get (sv_subscriptions sv) sid = Some st" "ss_client_id st = Some owner"
    "py_strip c \<noteq> []" "py_strip c \<noteq> owner" "stream_route E sid (Some c) sv = (Inr (sn, sm), sv')"
  shows "sn_scope_relaxed sn \<and> is_stream_active sid (sn_stream_generation sn) sv'
    \<and> sm_events (fst (stream_turn E (sn_client_id sn) sid (sn_stream_generation sn) t sm sv')) = sm_events sm @ [Close]
    \<and> has_active_stream (Some owner) sid (snd (stream_turn E (sn_client_id sn) sid (sn_stream_generation sn) t sm sv'))
        = Some False"
proof -
  have b: "begin_stream_session E sid (Some c) None sv = (Inr sn, sv')"
    using stream_routeE [OF assms(5)] by auto
  obtain o' st' where k: "key_of sid sv' = Some (o', sn_stream_generation sn, True)"
    "sn_client_id sn = py_strip c" "sn_scope_relaxed sn \<longleftrightarrow> o' \<noteq> Some (py_strip c)"
    "dict_get (sv_subscriptions sv') sid = Some st'"
    using begin_session_key [OF b] by auto
  obtain sv1 where ar: "activate_relaxed E (py_strip (the (Some c))) sid sv
        = (Some (sn_stream_generation sn, sn_scope_relaxed sn), sv1)"
    "sync E (if sn_scope_relaxed sn then None else Some (py_strip (the (Some c)))) sid None True sv1
        = (Some (sn_acknowledged sn), sv')"
    by (rule begin_sessionE [OF b])
  have "quiet_step E sv1 sv'" using quiet_sync ar(2) by (metis snd_conv)
  with activate_relaxed_steps(1) [OF ar(1)] have "quiet_step E sv sv'" by (rule quiet_step_trans)
  then have o: "o' = Some owner"
    using quiet_step_get [of E sv sv' sid st'] assms(1,2) k(1,4) by (auto simp: stream_key_def same_sub_def)
  let ?g = "sn_stream_generation sn" and ?w = "ensure_cleanup_task sv'"
  have st': "ss_client_id st' = Some owner" "ss_active_stream_generation st' = ?g"
    using k(1,4) o by (auto simp: stream_key_def)
  have act: "is_stream_active sid ?g sv'" by (simp add: is_stream_active_def k(4) st'(2))
  have gone: "wait_begin E (Some (py_strip c)) sid l t sv' = (WaitGone, ?w)" for l
    using assms(4) by (simp add: wait_begin_def scoped_def k(4) st'(1) Let_def)
  have off: "has_active_stream (Some owner) sid (deactivate_stream E sid ?g ?w) = Some False"
    by (simp add: has_active_stream_def deactivate_stream_def scoped_def touch_def now_monotonic_def k(4) st' Let_def)
  have "sn_scope_relaxed sn" using k(3) o assms(4) by simp
  with act gone off show ?thesis
    by (simp add: stream_turn_def k(2) stream_deliver_def stream_close_def)
qed

theorem relaxed_stream_closes_at_once_witness:
  "\<exists>sn sm sv'. stream_route demo_env ''sub-'' (Some ''intruder'') demo_registered = (Inr (sn, sm), sv')
    \<and> sn_scope_relaxed sn
    \<and> sm_events (fst (stream_turn demo_env (sn_client_id sn) ''sub-'' (sn_stream_generation sn) 2 sm sv'))
        = sm_events sm @ [Close]"
proof -
  have "\<not> isl (fst (stream_route demo_env ''sub-'' (Some ''intruder'') demo_registered))" by code_simp
  from opened_cases [OF this] obtain sn sm sv' where
    e: "stream_route demo_env ''sub-'' (Some ''intruder'') demo_registered = (Inr (sn, sm), sv')" by blast
  have "map_option ss_client_id (dict_get (sv_subscriptions demo_registered) ''sub-'') = Some (Some ''c'')"
    and s: "py_strip ''intruder'' = ''intruder''" by code_simp+
  then obtain st where "dict_get (sv_subscriptions demo_registered) ''sub-'' = Some st" "ss_client_id st = Some ''c''"
    by auto
  from relaxed_stream_closes_at_once [OF this _ _ e, of 2] s e show ?thesis by auto
qed

text \<open>
  A new stream ends the one before it: once a newer generation is active, the next turn of the
  replaced stream closes it without changing the service, and a stream that was waiting closes
  on the turn after it wakes up.
\<close>

theorem replaced_stream_closes:
  assumes "activate_stream E c sid sv = (Some g', sv')" "g < g'"
  shows "stream_turn E client sid g t sm sv' = (sm\<lparr>sm_pc := Finished, sm_events := sm_events sm @ [Close]\<rparr>, sv')"
proof -
  obtain st where st: "dict_get (sv_subscriptions sv') sid = Some st" "ss_active_stream_generation st = g'"
    using activate_key [OF assms(1)] by (auto simp: stream_key_def)
  with assms(2) show ?thesis
    by (simp add: stream_turn_def is_stream_active_def stream_close_def deactivate_stream_def)
qed

theorem replaced_stream_closes_witness:
  "\<exists>sv'. activate_stream demo_env (Some ''c'') ''sub-'' (snd demo_session) = (Some 2, sv')
    \<and> sm_events (fst (stream_turn demo_env ''c'' ''sub-'' 1 2 demo_stream sv')) = sm_events demo_stream @ [Close]"
proof -
  have "fst (activate_stream demo_env (Some ''c'') ''sub-'' (snd demo_session)) = Some 2" by code_simp
  then obtain sv' where e: "activate_stream demo_env (Some ''c'') ''sub-'' (snd demo_session) = (Some 2, sv')"
    by (metis prod.collapse)
  from replaced_stream_closes [OF e, of 1] e show ?thesis by simp
qed

section \<open>The sync route\<close>




section \<open>Registration and deletion routes\<close>

lemma validate_loop_spec:
  "validate_loop xs = (map fst (filter (\<lambda>(e, n). n \<noteq> None) xs),
     map (\<lambda>(e, n). if n = None then bulk_result_error e (''Element not found: '' @ e) 404
                   else bulk_result_success e None) xs)"
  by (induction xs rule: validate_loop.induct) auto

text \<open>
  The register route answers for every requested id: 400 without a client id and 404 outside the
  client's scope, both leaving every subscription as it was; otherwise one item per requested id,
  in order, that succeeds exactly when the id names an element of the model and carries a 404 if
  not, and the response as a whole succeeds exactly when every id was found.
\<close>

theorem register_route_answers:
  assumes "register_route E True m sid c ids depth sv = Some (r, sv')"
  shows "if blank_client c \<or> scoped c sid sv = None
      then \<exists>msg. r = Inl (HTTPException (if blank_client c then 400 else 404) msg)
        \<and> sv_subscriptions sv' = sv_subscriptions sv
      else \<exists>items. r = Inr (list_all (\<lambda>e. find_model_node m e \<noteq> None) ids, items)
        \<and> map bi_element_id items = ids
        \<and> map bi_success items = map (\<lambda>e. find_model_node m e \<noteq> None) ids
        \<and> list_all (\<lambda>i. bi_success i = (bi_response_detail i = None)
             \<and> (\<not> bi_success i \<longrightarrow> map_option fst (bi_response_detail i) = Some 404)) items"
proof -
  define rs :: "unit BulkResultItem list" where
    "rs = map (\<lambda>e. if find_model_node m e = None then bulk_result_error e (''Element not found: '' @ e) 404
                   else bulk_result_success e None) ids"
  define known where "known = filter (\<lambda>e. find_model_node m e \<noteq> None) ids"
  have v: "validate_subscription_element_ids m ids = (known, rs)"
    unfolding validate_subscription_element_ids_def validate_loop_spec resolve_model_nodes_def known_def rs_def
    by (simp add: filter_map comp_def)
  define items where "items = snd (bulk_response rs)"
  have items: "map bi_element_id items = ids" "map bi_success items = map (\<lambda>e. find_model_node m e \<noteq> None) ids"
    "list_all (\<lambda>i. bi_success i = (bi_response_detail i = None)
       \<and> (\<not> bi_success i \<longrightarrow> map_option fst (bi_response_detail i) = Some 404)) items"
    by (auto simp: items_def bulk_response_def rs_def bulk_result_error_def bulk_result_success_def list_all_iff
        intro: map_idI)
  have ok: "fst (bulk_response rs) = list_all (\<lambda>e. find_model_node m e \<noteq> None) ids"
    by (simp add: bulk_response_def rs_def bulk_result_error_def bulk_result_success_def list.pred_map comp_def
        if_distrib [of bi_success] cong: if_cong)
  show ?thesis
  proof (cases "blank_client c")
    case True
    with assms v show ?thesis by (auto simp: register_route_def app_register_items_def client_required_def)
  next
    case False
    obtain registered where reg: "register_items E c sid known (effective_max_depth depth) m sv = Some (registered, sv')"
      "r = (if registered then Inr (bulk_response rs) else not_found)"
      using assms v False by (auto simp: register_route_def app_register_items_def split: if_splits)
    have sc: "scoped c sid (ensure_cleanup_task sv) = scoped c sid sv" by (simp add: scoped_def)
    show ?thesis
    proof (cases "scoped c sid sv")
      case None
      with reg False show ?thesis by (auto simp: register_items_def sc Let_def)
    next
      case (Some st)
      with reg have "r = Inr (bulk_response rs)"
        by (auto simp: register_items_def sc Let_def split: option.splits)
      then have "r = Inr (list_all (\<lambda>e. find_model_node m e \<noteq> None) ids, items)"
        using ok by (simp add: items_def prod_eq_iff)
      with False Some items show ?thesis by auto
    qed
  qed
qed

theorem register_route_answers_witness:
  "\<exists>items sv'. register_route demo_env True demo_model ''sub-'' (Some ''c'') [''nowhere''] None demo_service
      = Some (Inr (False, items), sv') \<and> map bi_element_id items = [''nowhere'']"
proof -
  have "register_route demo_env True demo_model ''sub-'' (Some ''c'') [''nowhere''] None demo_service \<noteq> None"
    by code_simp
  then obtain r sv' where e: "register_route demo_env True demo_model ''sub-'' (Some ''c'') [''nowhere''] None demo_service
      = Some (r, sv')" by auto
  have "\<not> blank_client (Some ''c'')" "scoped (Some ''c'') ''sub-'' demo_service \<noteq> None"
    "find_model_node demo_model ''nowhere'' = None" by code_simp+
  with register_route_answers [OF e] e show ?thesis by auto
qed

text \<open>
  The client id is not normalised alike: creating stores it as sent, deleting and listing strip
  it first. A client whose id has surrounding white space creates a subscription it can register
  with and read, but it can neither delete nor list it.
\<close>

theorem padded_client_cannot_delete:
  assumes "reachable E sv" "env_ok E"
    "create_route E c name sv = (Inr dto, sv1)" "py_strip c \<noteq> c" "py_strip c \<noteq> []"
  shows "scoped (Some c) (cs_subscription_id dto) sv1 \<noteq> None
    \<and> (\<exists>items. delete_route E (Some c) [cs_subscription_id dto] sv1 = (Inr (False, items), sv1))
    \<and> (\<exists>items. list_route infos (Some c) (Some [cs_subscription_id dto]) sv1 = Inr (False, items))"
proof -
  let ?sid = "cs_subscription_id dto"
  have sv1: "sv1 = snd (create_subscription E (Some c) name sv)"
    using assms(3) by (simp add: create_route_def app_create_subscription_def Let_def case_prod_beta prod_eq_iff)
  have core: "service_core E sv1"
    unfolding sv1 by (intro service_invD(1) [OF reachable_inv] reachable.create assms(1,2))
  obtain st where st: "dict_get (sv_subscriptions sv1) ?sid = Some st" "ss_client_id st = Some c"
    using assms(3)
    by (auto simp: create_route_def app_create_subscription_def create_subscription_def map_create_subscription_def
        to_detail_def new_subscription_state_def Let_def case_prod_beta)
  have none: "scoped (Some (py_strip c)) ?sid sv1 = None"
    using st assms(4) by (simp add: scoped_def)
  have del: "\<exists>items. delete_route E (Some c) [?sid] sv1 = (Inr (False, items), sv1)"
    using assms(5) none
    by (simp add: delete_route_def require_client_id_def app_delete_items_def delete_subscriptions_def
        map_delete_subscription_items_def bulk_response_def subscription_bulk_error_def)
  have False if h: "x \<in> set (dict_values (sv_subscriptions sv1))" "ss_client_id x = Some (py_strip c)"
    "ss_subscription_id x = ?sid" for x
  proof -
    obtain k where "dict_get (sv_subscriptions sv1) k = Some x"
      using h(1) service_coreD(3) [OF core] by auto
    moreover from service_coreD(4) [OF core this] h(3) have "k = ?sid" by (simp add: sub_ok_def)
    ultimately show False using st h(2) assms(4) by simp
  qed
  then have "list_subscriptions (Some (py_strip c)) (Some [?sid]) sv1 = []"
    unfolding list_subscriptions_def Let_def by (auto simp: filter_empty_conv)
  then have "\<exists>items. list_route infos (Some c) (Some [?sid]) sv1 = Inr (False, items)"
    using assms(5)
    by (simp add: list_route_def require_client_id_def app_list_items_def map_subscription_detail_bulk_items_def
        dict_of_list_def bulk_response_def subscription_bulk_error_def expand_bulk_item_def)
  with st del show ?thesis by (simp add: scoped_def)
qed

theorem padded_client_cannot_delete_witness:
  "\<exists>dto sv1 items. create_route demo_env '' c'' None new_service = (Inr dto, sv1)
    \<and> delete_route demo_env (Some '' c'') [cs_subscription_id dto] sv1 = (Inr (False, items), sv1)"
proof -
  obtain dto sv1 where e: "create_route demo_env '' c'' None new_service = (Inr dto, sv1)"
    by (simp add: create_route_def app_create_subscription_def Let_def case_prod_beta)
  have "py_strip '' c'' = ''c''" by code_simp
  with padded_client_cannot_delete [OF reachable.start demo_env_ok e, of "[]"] e show ?thesis by auto
qed

end
