(* ===== verification/Profiles.thy ===== *)
theory Profiles
  imports Model
begin

text \<open>
  Semantic profiles (\<open>i3x_server/model/semantic_profiles.py\<close>) and the classification of OPC UA
  references and nodes (\<open>i3x_server/model/mapper.py\<close>). Token sets are lists; only membership
  is used of them.
\<close>

section \<open>Tokens\<close>

text \<open>\<open>_normalize_token\<close>: the alphanumeric characters of the part after the last colon, slash and semicolon.\<close>

definition normalize_token :: "string option \<Rightarrow> string" where
  "normalize_token v =
     (case v of
        None \<Rightarrow> []
      | Some s \<Rightarrow> filter py_isalnum
          (after_last CHR '';'' (after_last CHR ''/'' (after_last CHR '':'' (py_lower (py_strip s))))))"

abbreviation token :: "string \<Rightarrow> string" where
  "token s \<equiv> normalize_token (Some s)"

definition hits :: "string list \<Rightarrow> string list \<Rightarrow> bool" where
  "hits tokens names = list_ex (\<lambda>t. t \<in> set names) tokens"

lemma hits_iff: "hits ts ns \<longleftrightarrow> set ts \<inter> set ns \<noteq> {}"
  by (auto simp: hits_def list_ex_iff)

section \<open>Profiles\<close>

datatype ReferenceClass = Hierarchy | Composition | Graph | TypeMeta | Ignored

record ProfileOverride =
  po_type_name :: string
  po_semantic_role :: "SemanticRole option"
  po_force_hierarchy :: bool
  po_force_composition :: bool
  po_confidence :: "MappingConfidence option"

definition make_override ::
  "string \<Rightarrow> SemanticRole option \<Rightarrow> bool \<Rightarrow> bool \<Rightarrow> MappingConfidence option \<Rightarrow> ProfileOverride result" where
  "make_override t r h c conf =
     (if h \<and> c then Inl (ValueError ''A profile override cannot force both hierarchy and composition'')
      else Inr \<lparr>po_type_name = t, po_semantic_role = r, po_force_hierarchy = h, po_force_composition = c,
                po_confidence = conf\<rparr>)"

record SemanticProfile =
  sp_profile_id :: string
  sp_priority :: int
  sp_namespace_uri_fragment :: string
  sp_known_types :: "string list"
  sp_hierarchy_references :: "string list"
  sp_composition_references :: "string list"
  sp_graph_references :: "string list"
  sp_overrides :: "ProfileOverride list"

definition type_matches :: "SemanticProfile \<Rightarrow> OpcUaTypeDefinitionInfo \<Rightarrow> bool" where
  "type_matches p t =
     (\<not> (sp_namespace_uri_fragment p \<noteq> [] \<and>
           (case ti_namespace_uri t of
              None \<Rightarrow> True
            | Some u \<Rightarrow> u = [] \<or> \<not> is_substring (py_lower (sp_namespace_uri_fragment p)) (py_lower u)))
      \<and> \<not> (sp_known_types p \<noteq> [] \<and> token (ti_browse_name t) \<notin> set (map token (sp_known_types p))))"

definition matches_node :: "SemanticProfile \<Rightarrow> OpcUaTypeDefinitionInfo list \<Rightarrow> bool" where
  "matches_node p types =
     (if sp_namespace_uri_fragment p = [] \<and> sp_known_types p = [] then True
      else list_ex (type_matches p) types)"

definition GENERIC_PROFILE :: SemanticProfile where
  "GENERIC_PROFILE =
     \<lparr>sp_profile_id = ''generic'', sp_priority = 10, sp_namespace_uri_fragment = [], sp_known_types = [],
      sp_hierarchy_references = [''Organizes'', ''HasChild'', ''HierarchicalReferences''],
      sp_composition_references = [''HasComponent'', ''HasOrderedComponent'', ''HasProperty'', ''PropertyOf''],
      sp_graph_references = [''NonHierarchicalReferences'', ''GeneratesEvent'', ''HasEventSource''],
      sp_overrides = []\<rparr>"

definition MACHINERY_PROFILE :: SemanticProfile where
  "MACHINERY_PROFILE =
     \<lparr>sp_profile_id = ''machinery'', sp_priority = 100,
      sp_namespace_uri_fragment = ''http://opcfoundation.org/UA/Machinery'',
      sp_known_types = [''FunctionalGroupType'', ''DataItemType''],
      sp_hierarchy_references = [''Organizes''],
      sp_composition_references = [''HasProperty'', ''DataItemType''],
      sp_graph_references = [''FlowsTo''],
      sp_overrides =
        [\<lparr>po_type_name = ''FunctionalGroupType'', po_semantic_role = Some RoleGroup, po_force_hierarchy = True,
          po_force_composition = False, po_confidence = Some High\<rparr>,
         \<lparr>po_type_name = ''DataItemType'', po_semantic_role = Some RoleDatapoint, po_force_hierarchy = False,
          po_force_composition = True, po_confidence = Some High\<rparr>]\<rparr>"

definition load_default_profiles :: "SemanticProfile list" where
  "load_default_profiles = [MACHINERY_PROFILE, GENERIC_PROFILE]"

text \<open>\<open>resolve_namespace_uri\<close>: by the index of the NodeId, 0 when it has none.\<close>

definition resolve_namespace_uri :: "string \<Rightarrow> (nat, string) dict \<Rightarrow> string option" where
  "resolve_namespace_uri node_id uris =
     (let prefix = fst (partition_at CHR '';'' node_id) in
      if uris = [] then None
      else if startswith prefix ''ns='' then
        (case py_int_of_string (drop 3 prefix) of
           None \<Rightarrow> None
         | Some i \<Rightarrow> if i < 0 then None else dict_get uris (nat i))
      else if list_ex (startswith prefix) [''i='', ''s='', ''g='', ''b=''] then dict_get uris 0
      else None)"

text \<open>An empty tuple of profiles counts as none given; the sort is stable and by falling priority.\<close>

definition active_profiles_for_node ::
  "OpcUaTypeDefinitionInfo list \<Rightarrow> SemanticProfile list option \<Rightarrow> SemanticProfile list" where
  "active_profiles_for_node types available =
     (let profiles = (case available of None \<Rightarrow> load_default_profiles
                      | Some ps \<Rightarrow> if ps = [] then load_default_profiles else ps)
      in sort_key (\<lambda>p. - sp_priority p) (filter (\<lambda>p. matches_node p types) profiles))"

definition profile_ids :: "SemanticProfile list \<Rightarrow> string list" where
  "profile_ids = map sp_profile_id"

abbreviation used_profiles :: "SemanticProfile list option \<Rightarrow> SemanticProfile list" where
  "used_profiles active \<equiv> (case active of None \<Rightarrow> load_default_profiles | Some ps \<Rightarrow> ps)"

text \<open>The tokens a node is known by, and the overrides of all profiles in order that match one.\<close>

definition type_tokens :: "OpcUaNodeInfo \<Rightarrow> OpcUaTypeDefinitionInfo list \<Rightarrow> string list" where
  "type_tokens n types =
     [normalize_token (oi_type_definition_id n), token (oi_browse_name n), token (oi_node_id n)]
     @ map (\<lambda>t. token (ti_browse_name t)) types"

definition matching_overrides :: "string list \<Rightarrow> SemanticProfile list \<Rightarrow> ProfileOverride list" where
  "matching_overrides tokens ps =
     filter (\<lambda>ov. token (po_type_name ov) \<in> set tokens) (concat (map sp_overrides ps))"

definition resolve_semantic_role ::
  "OpcUaNodeInfo \<Rightarrow> SemanticProfile list option \<Rightarrow> ReferenceClass option \<Rightarrow> OpcUaTypeDefinitionInfo list
   \<Rightarrow> SemanticRole" where
  "resolve_semantic_role n active relationship_class types =
     (case find (\<lambda>ov. po_semantic_role ov \<noteq> None)
             (matching_overrides (type_tokens n types) (used_profiles active)) of
        Some ov \<Rightarrow> the (po_semantic_role ov)
      | None \<Rightarrow>
          if oi_event_notifier n then RoleGroup
          else if oi_node_class n = ''Variable'' then RoleDatapoint
          else if oi_node_class n = ''Method'' then RoleComponent
          else if relationship_class = Some Composition then RoleProperty
          else RoleAsset)"

definition resolve_mapping_confidence ::
  "OpcUaNodeInfo \<Rightarrow> SemanticProfile list option \<Rightarrow> ReferenceClass option \<Rightarrow> bool \<Rightarrow> MappingConfidence" where
  "resolve_mapping_confidence n active relationship_class has_profile_override =
     (if has_profile_override then High
      else if (case active of None \<Rightarrow> False | Some ps \<Rightarrow> profile_ids ps \<noteq> [''generic'']) then High
      else if oi_node_class n = ''Variable'' then Medium
      else if relationship_class = Some Graph then High
      else if relationship_class = Some Composition then Medium
      else Medium)"

definition has_profile_override_for_node ::
  "OpcUaNodeInfo \<Rightarrow> SemanticProfile list option \<Rightarrow> OpcUaTypeDefinitionInfo list \<Rightarrow> bool" where
  "has_profile_override_for_node n active types =
     (matching_overrides (type_tokens n types) (used_profiles active) \<noteq> [])"

text \<open>
  The first forcing override: profiles in order, within a profile the names from the most
  specific type on, within a name the overrides in order.
\<close>

definition forced_of :: "ProfileOverride \<Rightarrow> ReferenceClass option" where
  "forced_of ov = (if po_force_hierarchy ov then Some Hierarchy
                   else if po_force_composition ov then Some Composition else None)"

definition forced_relationship_class_for_node ::
  "OpcUaNodeInfo \<Rightarrow> SemanticProfile list option \<Rightarrow> OpcUaTypeDefinitionInfo list \<Rightarrow> ReferenceClass option" where
  "forced_relationship_class_for_node n active types =
     (let type_names = map (\<lambda>t. token (ti_browse_name t)) types
            @ [normalize_token (oi_type_definition_id n), token (oi_browse_name n), token (oi_node_id n)]
      in case [c. p \<leftarrow> used_profiles active, type_name \<leftarrow> type_names, ov \<leftarrow> sp_overrides p,
               token (po_type_name ov) = type_name, Some c \<leftarrow> [forced_of ov]] of
           [] \<Rightarrow> None | c # _ \<Rightarrow> Some c)"

definition reference_classification_overrides ::
  "SemanticProfile list option \<Rightarrow> (string, ReferenceClass) dict" where
  "reference_classification_overrides active =
     dict_of_list (concat (map (\<lambda>p.
        map (\<lambda>name. (token name, Hierarchy)) (sp_hierarchy_references p)
        @ map (\<lambda>name. (token name, Composition)) (sp_composition_references p)
        @ map (\<lambda>name. (token name, Graph)) (sp_graph_references p)) (used_profiles active)))"

section \<open>Classification of references\<close>

definition HIERARCHY_NAMES :: "string list" where
  "HIERARCHY_NAMES = [''organizes'', ''haschild'', ''hierarchicalreferences'']"

definition COMPOSITION_NAMES :: "string list" where
  "COMPOSITION_NAMES = [''hascomponent'', ''hasorderedcomponent'', ''hasproperty'', ''propertyof'']"

definition TYPE_META_NAMES :: "string list" where
  "TYPE_META_NAMES = [''hastypedefinition'', ''hassubtype'']"

definition GRAPH_NAMES :: "string list" where
  "GRAPH_NAMES = [''nonhierarchicalreferences'']"

definition HIERARCHY_NODE_IDS :: "string list" where "HIERARCHY_NODE_IDS = [''i35'', ''i33'']"
definition COMPOSITION_NODE_IDS :: "string list" where "COMPOSITION_NODE_IDS = [''i47'', ''i48'', ''i46'']"
definition TYPE_META_NODE_IDS :: "string list" where "TYPE_META_NODE_IDS = [''i40'', ''i45'']"
definition GRAPH_NODE_IDS :: "string list" where "GRAPH_NODE_IDS = [''i31'', ''i32'']"

definition classify_hierarchical_family :: "string list \<Rightarrow> string option \<Rightarrow> ReferenceClass" where
  "classify_hierarchical_family tokens target_class =
     (if hits tokens [''hasproperty'', ''propertyof'', ''i46''] then Composition
      else if hits tokens [''hascomponent'', ''hasorderedcomponent'', ''i47'', ''i48''] then
        (case target_class of
           Some c \<Rightarrow> if c \<noteq> ''Variable'' then Hierarchy else Composition
         | None \<Rightarrow> Composition)
      else Hierarchy)"

fun class_from_profile_rules ::
  "string list \<Rightarrow> SemanticProfile list \<Rightarrow> string option \<Rightarrow> ReferenceClass option" where
  "class_from_profile_rules tokens [] target_class = None"
| "class_from_profile_rules tokens (p # ps) target_class =
     (if hits tokens (map token (sp_graph_references p)) then Some Graph
      else if hits tokens (map token (sp_hierarchy_references p)) \<or> hits tokens (map token (sp_composition_references p))
      then Some (classify_hierarchical_family tokens target_class)
      else class_from_profile_rules tokens ps target_class)"

text \<open>The tokens of the lineage of a reference type: its id, its browse name and those of its supertypes.\<close>

definition lineage_tokens :: "string option \<Rightarrow> string option \<Rightarrow> string list option \<Rightarrow> string list" where
  "lineage_tokens type_id browse_name supertypes =
     filter (\<lambda>t. t \<noteq> [])
       ([normalize_token type_id, normalize_token browse_name]
        @ (case supertypes of None \<Rightarrow> [] | Some ns \<Rightarrow> map token ns))"

definition nonhierarchical_root :: "string list \<Rightarrow> bool" where
  "nonhierarchical_root tokens = hits tokens (GRAPH_NAMES @ [''i32''])"

definition hierarchical_root :: "string list \<Rightarrow> bool" where
  "hierarchical_root tokens = hits tokens (HIERARCHY_NAMES @ [''i33''])"

definition classify_opcua_reference ::
  "string option \<Rightarrow> string option \<Rightarrow> string list option \<Rightarrow> string option \<Rightarrow> ReferenceClass" where
  "classify_opcua_reference type_id browse_name supertypes target_class =
     (let tokens = lineage_tokens type_id browse_name supertypes in
      if hits tokens TYPE_META_NAMES then TypeMeta
      else if hits tokens TYPE_META_NODE_IDS then TypeMeta
      else if nonhierarchical_root tokens then Graph
      else if hierarchical_root tokens then classify_hierarchical_family tokens target_class
      else if hits tokens TYPE_META_NAMES then TypeMeta
      else if hits tokens COMPOSITION_NAMES then classify_hierarchical_family tokens target_class
      else if hits tokens COMPOSITION_NODE_IDS then classify_hierarchical_family tokens target_class
      else if hits tokens HIERARCHY_NAMES then Hierarchy
      else if hits tokens HIERARCHY_NODE_IDS then Hierarchy
      else if hits tokens GRAPH_NAMES then Graph
      else if hits tokens GRAPH_NODE_IDS then Graph
      else Graph)"

definition class_confidence :: "ReferenceClass \<Rightarrow> ReferenceClass \<times> MappingConfidence" where
  "class_confidence c = (c, if c = Composition then Medium else High)"

definition classify_opcua_reference_with_confidence ::
  "string option \<Rightarrow> string option \<Rightarrow> string list option \<Rightarrow> string option \<Rightarrow> SemanticProfile list option
   \<Rightarrow> ReferenceClass \<times> MappingConfidence" where
  "classify_opcua_reference_with_confidence type_id browse_name supertypes target_class profiles =
     (let tokens = lineage_tokens type_id browse_name supertypes;
          plain = classify_opcua_reference type_id browse_name supertypes target_class
      in if nonhierarchical_root tokens \<and> hierarchical_root tokens then class_confidence plain
         else case class_from_profile_rules tokens (case profiles of None \<Rightarrow> [] | Some ps \<Rightarrow> ps) target_class of
           Some c \<Rightarrow> class_confidence c
         | None \<Rightarrow> class_confidence plain)"

section \<open>Mapping of nodes\<close>

definition CLASS_TO_KIND :: "(string, NodeKind) dict" where
  "CLASS_TO_KIND = [(''Object'', Asset), (''Variable'', Property), (''Method'', Action)]"

definition infer_kind :: "OpcUaNodeInfo \<Rightarrow> NodeKind" where
  "infer_kind n = (if oi_event_notifier n then EventSource else dict_get_def CLASS_TO_KIND (oi_node_class n) Asset)"

text \<open>The digest stands for the first 16 hexadecimal digits of SHA-1.\<close>

definition stable_i3x_id :: "(string \<Rightarrow> string) \<Rightarrow> string \<Rightarrow> NodeKind \<Rightarrow> string" where
  "stable_i3x_id digest node_id kind = kind_name kind @ ''-'' @ digest node_id"

definition map_type :: "OpcUaNodeInfo \<Rightarrow> NodeKind \<Rightarrow> string option" where
  "map_type n kind = (if kind = Property then oi_data_type n else None)"

definition map_node ::
  "(string \<Rightarrow> string) \<Rightarrow> OpcUaNodeInfo \<Rightarrow> string list \<Rightarrow> string option \<Rightarrow> string option \<Rightarrow> bool \<Rightarrow> SemanticRole
   \<Rightarrow> MappingConfidence \<Rightarrow> (string, string list) dict \<Rightarrow> (string, pyval) dict \<Rightarrow> ModelNode" where
  "map_node digest n children element_id parent_id is_composition role confidence relationships metadata =
     (let kind = infer_kind n in
      \<lparr>mn_id = (case element_id of Some e \<Rightarrow> if e \<noteq> [] then e else stable_i3x_id digest (oi_node_id n) kind
                | None \<Rightarrow> stable_i3x_id digest (oi_node_id n) kind),
       mn_name = (if oi_display_name n \<noteq> [] then oi_display_name n else oi_browse_name n),
       mn_kind = kind, mn_type = map_type n kind, mn_children = children,
       mn_source_node_id = oi_node_id n, mn_source_type_id = oi_type_definition_id n,
       mn_parent_id = parent_id, mn_is_composition = is_composition, mn_semantic_role = role,
       mn_mapping_confidence = confidence, mn_relationships = relationships, mn_metadata = metadata\<rparr>)"

end
