(* ===== verification/Builder.thy ===== *)
theory Builder
  imports Profiles "HOL-Library.Product_Lexorder"
begin

text \<open>
  The model builder, \<open>ModelBuilder.build\<close> in \<open>i3x_server/model/builder.py\<close>, in its stages: what the
  client resolves (\<open>sources\<close>), the classified references (\<open>edges\<close>), the chosen parents
  (\<open>planes\<close>), the names of graph relationships, the relationship table, the nodes and the
  indexes. The client calls are a record of their results; the build raises what browsing, an
  unresolvable reference namespace, an ambiguous relationship id or \<open>canonical_node_id\<close> raise.
\<close>

section \<open>What the client resolves\<close>

text \<open>
  A resolver the client does not have is \<open>None\<close>; a resolver call that raises answers \<open>None\<close>.
  \<open>bw_digest\<close> stands for the first 16 digits of \<open>hashlib.sha1(...).hexdigest()\<close>.
\<close>

record browse_env =
  bw_digest :: "string \<Rightarrow> string"
  bw_browse_tree :: "OpcUaNodeInfo list result"
  bw_namespace_infos :: "OpcUaNamespaceInfo list result option"
  bw_supertypes :: "(string \<Rightarrow> string list option) option"
  bw_hierarchies :: "(string list \<Rightarrow> (string, OpcUaTypeDefinitionInfo list) dict option) option"
  bw_hierarchy :: "(string \<Rightarrow> OpcUaTypeDefinitionInfo list option) option"

record sources =
  so_digest :: "string \<Rightarrow> string"
  so_nodes :: "(string, OpcUaNodeInfo) dict"
  so_children :: "(string, string list) dict"
  so_infos :: "OpcUaNamespaceInfo list"
  so_uris :: "(nat, string) dict"
  so_supertypes :: "(string, string list) dict"
  so_types :: "(string, OpcUaTypeDefinitionInfo list) dict"

definition kind_for_node :: "OpcUaNodeInfo \<Rightarrow> NodeKind" where
  "kind_for_node n =
     (if oi_event_notifier n then EventSource
      else if oi_node_class n = ''Variable'' then Property
      else if oi_node_class n = ''Method'' then Action
      else Asset)"

definition hierarchy_relationship_priority :: "string \<Rightarrow> nat" where
  "hierarchy_relationship_priority name =
     (let normalized = py_strip (py_lower name) in
      if normalized = ''organizes'' then 0
      else if normalized = ''hascomponent'' then 1
      else if normalized = ''hasorderedcomponent'' then 2
      else 99)"

definition indexed_uris :: "OpcUaNamespaceInfo list \<Rightarrow> (nat, string) dict" where
  "indexed_uris infos = filter (\<lambda>(i, u). u \<noteq> []) (enumerate 0 (map ni_uri infos))"

definition child_sources_by_parent :: "OpcUaNodeInfo list \<Rightarrow> (string, string list) dict" where
  "child_sources_by_parent nodes =
     foldl (\<lambda>d n. case oi_parent_node_id n of None \<Rightarrow> d | Some p \<Rightarrow> dict_append p (oi_node_id n) d) [] nodes"

definition reference_supertypes :: "browse_env \<Rightarrow> OpcUaNodeInfo list \<Rightarrow> (string, string list) dict" where
  "reference_supertypes W nodes =
     (case bw_supertypes W of
        None \<Rightarrow> []
      | Some f \<Rightarrow>
          [(t, names). t \<leftarrow> remdups [ri_reference_type_id r. n \<leftarrow> nodes, r \<leftarrow> oi_outgoing_references n,
                                        ri_reference_type_id r \<noteq> []],
                       Some names \<leftarrow> [f t]])"

definition with_namespace :: "(nat, string) dict \<Rightarrow> OpcUaTypeDefinitionInfo \<Rightarrow> OpcUaTypeDefinitionInfo" where
  "with_namespace uris t =
     t\<lparr>ti_namespace_uri :=
        (case ti_namespace_uri t of
           Some u \<Rightarrow> if u \<noteq> [] then Some u else resolve_namespace_uri (ti_node_id t) uris
         | None \<Rightarrow> resolve_namespace_uri (ti_node_id t) uris)\<rparr>"

text \<open>
  The hierarchies of the instance types: in one batch when the client can, one by one when it
  cannot or the batch failed. A type the batch does not answer for is left out.
\<close>

definition type_hierarchies ::
  "browse_env \<Rightarrow> (nat, string) dict \<Rightarrow> OpcUaNodeInfo list \<Rightarrow> (string, OpcUaTypeDefinitionInfo list) dict" where
  "type_hierarchies W uris nodes =
     (let ids = remdups [t. n \<leftarrow> nodes, Some t \<leftarrow> [oi_type_definition_id n], t \<noteq> []];
          resolved = (case bw_hierarchies W of None \<Rightarrow> None | Some f \<Rightarrow> f (sort ids))
      in [(t, map (with_namespace uris) h). t \<leftarrow> ids,
            Some h \<leftarrow> [case resolved of
                          Some d \<Rightarrow> dict_get d t
                        | None \<Rightarrow> (case bw_hierarchy W of None \<Rightarrow> None | Some f \<Rightarrow> f t)]])"

definition resolve_sources :: "browse_env \<Rightarrow> OpcUaNodeInfo list \<Rightarrow> sources" where
  "resolve_sources W nodes =
     (let infos = (case bw_namespace_infos W of Some (Inr infos) \<Rightarrow> infos | _ \<Rightarrow> []);
          uris = indexed_uris infos
      in \<lparr>so_digest = bw_digest W,
          so_nodes = dict_of_list (map (\<lambda>n. (oi_node_id n, n)) nodes),
          so_children = child_sources_by_parent nodes,
          so_infos = infos, so_uris = uris,
          so_supertypes = reference_supertypes W nodes,
          so_types = type_hierarchies W uris nodes\<rparr>)"

text \<open>
  Lookups by source id. Every source id the stages look up is a key of \<open>so_nodes\<close>: parents,
  children and reference targets are browsed nodes.
\<close>

definition types_of :: "sources \<Rightarrow> OpcUaNodeInfo \<Rightarrow> OpcUaTypeDefinitionInfo list" where
  "types_of S n = dict_get_def (so_types S) (case oi_type_definition_id n of None \<Rightarrow> [] | Some t \<Rightarrow> t) []"

definition profiles_of :: "sources \<Rightarrow> OpcUaNodeInfo \<Rightarrow> SemanticProfile list" where
  "profiles_of S n = active_profiles_for_node (types_of S n) None"

definition identity_of :: "sources \<Rightarrow> OpcUaNodeInfo \<Rightarrow> string" where
  "identity_of S n = expanded_node_id (oi_node_id n) (so_infos S)"

definition element_id :: "sources \<Rightarrow> OpcUaNodeInfo \<Rightarrow> string" where
  "element_id S n = stable_i3x_id (so_digest S) (identity_of S n) (kind_for_node n)"

definition mapped_id :: "sources \<Rightarrow> string \<Rightarrow> string" where
  "mapped_id S s = (case dict_get (so_nodes S) s of None \<Rightarrow> [] | Some n \<Rightarrow> element_id S n)"

definition child_ids :: "sources \<Rightarrow> string \<Rightarrow> string list" where
  "child_ids S s = map (mapped_id S) (dict_get_def (so_children S) s [])"

section \<open>References\<close>

text \<open>The outgoing references to browsed nodes, or the browse children when there are none.\<close>

definition reference_entries ::
  "sources \<Rightarrow> string \<Rightarrow> OpcUaNodeInfo \<Rightarrow> (string \<times> string option \<times> string) list" where
  "reference_entries S s n =
     (if oi_outgoing_references n \<noteq> [] then
        [(ri_target_node_id r, Some (ri_reference_type_id r), ri_reference_browse_name r).
           r \<leftarrow> oi_outgoing_references n, dict_get (so_nodes S) (ri_target_node_id r) \<noteq> None]
      else
        [(c, None, if oi_node_class cn = ''Variable'' then ''HasProperty'' else ''Organizes'').
           c \<leftarrow> dict_get_def (so_children S) s [], Some cn \<leftarrow> [dict_get (so_nodes S) c]])"

type_synonym candidate = "nat \<times> string \<times> string"

record edges =
  ed_hierarchy :: "(string, candidate list) dict"
  ed_composition :: "(string, candidate list) dict"
  ed_graph :: "(string, (string \<times> string \<times> string) list) dict"
  ed_namespaces :: "(string, string list) dict"

definition no_edges :: edges where
  "no_edges = \<lparr>ed_hierarchy = [], ed_composition = [], ed_graph = [], ed_namespaces = []\<rparr>"

definition I3X_RELATIONS :: string where
  "I3X_RELATIONS = ''https://cesmii.org/i3x''"

text \<open>\<open>repr\<close> of a string that needs no escapes.\<close>

definition quoted :: "string \<Rightarrow> string" where
  "quoted s = [CHR 0x27] @ s @ [CHR 0x27]"

definition add_namespace :: "string \<Rightarrow> string \<Rightarrow> (string, string list) dict \<Rightarrow> (string, string list) dict" where
  "add_namespace name uri d = dict_set name (set_add uri (dict_get_def d name [])) d"

definition register_graph_relationship ::
  "sources \<Rightarrow> string \<Rightarrow> string option \<Rightarrow> (string, string list) dict \<Rightarrow> (string \<times> (string, string list) dict) result" where
  "register_graph_relationship S name type_id d =
     (case type_id of
        None \<Rightarrow> Inr (I3X_RELATIONS, add_namespace name I3X_RELATIONS d)
      | Some t \<Rightarrow>
          (case namespace_uri_from_expanded_node_id (expanded_node_id t (so_infos S)) of
             None \<Rightarrow> Inl (ValueError (''Cannot resolve namespace for reference type '' @ quoted t))
           | Some u \<Rightarrow> Inr (u, add_namespace name u d)))"

definition relationship_class_of ::
  "sources \<Rightarrow> OpcUaNodeInfo \<Rightarrow> OpcUaNodeInfo \<Rightarrow> string option \<Rightarrow> string \<Rightarrow> ReferenceClass" where
  "relationship_class_of S n cn type_id browse_name =
     (let supers = (case type_id of None \<Rightarrow> None | Some t \<Rightarrow> dict_get (so_supertypes S) t);
          cls = fst (classify_opcua_reference_with_confidence type_id (Some browse_name) supers
                       (Some (oi_node_class cn)) (Some (profiles_of S n)))
      in case forced_relationship_class_for_node cn (Some (profiles_of S cn)) (types_of S cn) of
           Some forced \<Rightarrow> forced
         | None \<Rightarrow> cls)"

definition relationship_name_of :: "OpcUaNodeInfo \<Rightarrow> string \<Rightarrow> string" where
  "relationship_name_of cn browse_name =
     (if browse_name \<noteq> [] then browse_name
      else if oi_node_class cn = ''Variable'' then ''HasProperty'' else ''Organizes'')"

definition edge_step ::
  "sources \<Rightarrow> string \<Rightarrow> OpcUaNodeInfo \<Rightarrow> edges \<times> (string \<times> string option) list
   \<Rightarrow> string \<times> string option \<times> string \<Rightarrow> (edges \<times> (string \<times> string option) list) result" where
  "edge_step S s n st entry =
     (let (ed, seen) = st; (target, type_id, browse_name) = entry in
      if (target, type_id) \<in> set seen then Inr (ed, seen)
      else case dict_get (so_nodes S) target of
        None \<Rightarrow> Inl (KeyError target)
      | Some cn \<Rightarrow>
          (let seen' = (target, type_id) # seen;
               child_id = element_id S cn;
               name = relationship_name_of cn browse_name;
               cand = (hierarchy_relationship_priority name, s, name)
           in case relationship_class_of S n cn type_id browse_name of
                Hierarchy \<Rightarrow> Inr (ed\<lparr>ed_hierarchy := dict_append child_id cand (ed_hierarchy ed)\<rparr>, seen')
              | Composition \<Rightarrow> Inr (ed\<lparr>ed_composition := dict_append child_id cand (ed_composition ed)\<rparr>, seen')
              | _ \<Rightarrow>
                  rbind (register_graph_relationship S name type_id (ed_namespaces ed))
                    (\<lambda>(u, d). Inr (ed\<lparr>ed_namespaces := d,
                                      ed_graph := dict_append s (name, u, child_id) (ed_graph ed)\<rparr>, seen'))))"

definition edges_of_source :: "sources \<Rightarrow> edges \<Rightarrow> string \<times> OpcUaNodeInfo \<Rightarrow> edges result" where
  "edges_of_source S ed sn =
     rbind (rfold (edge_step S (fst sn) (snd sn)) (ed, []) (reference_entries S (fst sn) (snd sn)))
       (\<lambda>(ed', seen). Inr ed')"

definition collect_edges :: "sources \<Rightarrow> edges result" where
  "collect_edges S = rfold (edges_of_source S) no_edges (so_nodes S)"

section \<open>Parents\<close>

record planes =
  pl_hierarchy_parent :: "(string, string) dict"
  pl_composition_parent :: "(string, string) dict"
  pl_parent_source :: "(string, string) dict"
  pl_hierarchy_children :: "(string, string list) dict"
  pl_composition_children :: "(string, string list) dict"
  pl_graph :: "(string, (string \<times> string \<times> string) list) dict"
  pl_namespaces :: "(string, string list) dict"

definition initial_planes :: "sources \<Rightarrow> edges \<Rightarrow> planes" where
  "initial_planes S ed =
     \<lparr>pl_hierarchy_parent = [], pl_composition_parent = [], pl_parent_source = [],
      pl_hierarchy_children = dict_of_list (map (\<lambda>(s, n). (mapped_id S s, [])) (so_nodes S)),
      pl_composition_children = dict_of_list (map (\<lambda>(s, n). (mapped_id S s, [])) (so_nodes S)),
      pl_graph = dict_of_list (map (\<lambda>(s, n). (mapped_id S s, dict_get_def (ed_graph ed) s [])) (so_nodes S)),
      pl_namespaces = ed_namespaces ed\<rparr>"

text \<open>The least candidate by priority, source and name.\<close>

definition best_candidate :: "candidate list \<Rightarrow> candidate" where
  "best_candidate cs = hd (sort cs)"

definition losing_candidates :: "candidate list \<Rightarrow> candidate list" where
  "losing_candidates cs =
     (case best_candidate cs of (prio, parent, name) \<Rightarrow>
        filter (\<lambda>(p, s, nm). \<not> (s = parent \<and> p = prio)) cs)"

definition choose_hierarchy_parent :: "sources \<Rightarrow> planes \<Rightarrow> string \<times> candidate list \<Rightarrow> planes" where
  "choose_hierarchy_parent S pl entry =
     (let (child, cs) = entry;
          parent = fst (snd (best_candidate cs));
          others = losing_candidates cs
      in pl\<lparr>pl_hierarchy_parent := dict_set child (mapped_id S parent) (pl_hierarchy_parent pl),
            pl_parent_source := dict_set child parent (pl_parent_source pl),
            pl_hierarchy_children := dict_append (mapped_id S parent) child (pl_hierarchy_children pl),
            pl_graph := foldl (\<lambda>g (p, s, nm). dict_append child (''OrganizedBy'', I3X_RELATIONS, mapped_id S s) g)
                          (pl_graph pl) others,
            pl_namespaces := foldl (\<lambda>d c. add_namespace ''OrganizedBy'' I3X_RELATIONS d) (pl_namespaces pl) others\<rparr>)"

definition choose_composition_parent :: "sources \<Rightarrow> planes \<Rightarrow> string \<times> candidate list \<Rightarrow> planes" where
  "choose_composition_parent S pl entry =
     (let (child, cs) = entry; parent = fst (snd (best_candidate cs))
      in pl\<lparr>pl_composition_parent := dict_set child (mapped_id S parent) (pl_composition_parent pl),
            pl_composition_children := dict_append (mapped_id S parent) child (pl_composition_children pl),
            pl_parent_source := dict_set child (dict_get_def (pl_parent_source pl) child parent) (pl_parent_source pl)\<rparr>)"

definition choose_parents :: "sources \<Rightarrow> edges \<Rightarrow> planes" where
  "choose_parents S ed =
     foldl (choose_composition_parent S)
       (foldl (choose_hierarchy_parent S) (initial_planes S ed) (ed_hierarchy ed)) (ed_composition ed)"

section \<open>Graph relationships\<close>

record relation_ids =
  gr_ids :: "(string \<times> string, string) dict"
  gr_namespaces :: "(string, string) dict"
  gr_display_names :: "(string, string) dict"

definition must_qualify :: "string \<Rightarrow> string list \<Rightarrow> bool" where
  "must_qualify name uris =
     (1 < length uris \<or> name \<in> {''HasParent'', ''HasChildren'', ''HasComponent'', ''ComponentOf''}
      \<or> startswith name ''inverseOf_'' \<or> CHR '':'' \<in> set name)"

definition relation_id_step :: "string \<Rightarrow> bool \<Rightarrow> relation_ids \<Rightarrow> string \<Rightarrow> relation_ids result" where
  "relation_id_step name qualify g uri =
     (let i = (if qualify then uri @ '':'' @ name else name) in
      if dict_get (gr_namespaces g) i \<noteq> None
      then Inl (ValueError (''Expanded qualified relationship ID '' @ quoted i @ '' is ambiguous''))
      else Inr (g\<lparr>gr_ids := dict_set (name, uri) i (gr_ids g),
                  gr_namespaces := dict_set i uri (gr_namespaces g),
                  gr_display_names := dict_set i name (gr_display_names g)\<rparr>))"

definition relation_ids_of :: "(string, string list) dict \<Rightarrow> relation_ids result" where
  "relation_ids_of namespaces =
     rfold (\<lambda>g (name, uris). rfold (relation_id_step name (must_qualify name uris)) g (sort uris))
       \<lparr>gr_ids = [], gr_namespaces = [], gr_display_names = []\<rparr>
       (sort_key fst namespaces)"

definition graph_related :: "relation_ids \<Rightarrow> planes \<Rightarrow> (string, (string \<times> string) list) dict" where
  "graph_related g pl =
     map (\<lambda>(i, entries). (i, map (\<lambda>(name, uri, target). (dict_get_def (gr_ids g) (name, uri) [], target)) entries))
       (pl_graph pl)"

section \<open>Relationships\<close>

type_synonym relation_table = "(string, (string, string list) dict) dict"

definition append_relationship :: "relation_table \<Rightarrow> string \<times> string \<times> string \<Rightarrow> relation_table" where
  "append_relationship R edge =
     (let (s, name, t) = edge; by_name = dict_get_def R s []; targets = dict_get_def by_name name []
      in dict_set s (dict_set name (if t \<in> set targets then targets else targets @ [t]) by_name) R)"

definition paired_edges :: "string \<Rightarrow> string \<Rightarrow> (string, string list) dict \<Rightarrow> (string \<times> string \<times> string) list" where
  "paired_edges down up children =
     [e. (p, cs) \<leftarrow> children, c \<leftarrow> cs, e \<leftarrow> [(p, down, c), (c, up, p)]]"

definition graph_edges :: "(string, (string \<times> string) list) dict \<Rightarrow> (string \<times> string \<times> string) list" where
  "graph_edges related =
     [e. (s, rs) \<leftarrow> related, (name, t) \<leftarrow> rs, e \<leftarrow> [(s, name, t), (t, ''inverseOf_'' @ name, s)]]"

definition relationship_table ::
  "sources \<Rightarrow> planes \<Rightarrow> (string, (string \<times> string) list) dict \<Rightarrow> relation_table" where
  "relationship_table S pl related =
     foldl append_relationship (dict_of_list (map (\<lambda>(s, n). (mapped_id S s, [])) (so_nodes S)))
       (paired_edges ''HasChildren'' ''HasParent'' (pl_hierarchy_children pl)
        @ paired_edges ''HasComponent'' ''ComponentOf'' (pl_composition_children pl)
        @ graph_edges related)"

section \<open>Nodes and indexes\<close>

text \<open>The metadata of a node; bit 1 of the user access level is the write permission.\<close>

definition opt_entry :: "string \<Rightarrow> ('a \<Rightarrow> pyval) \<Rightarrow> 'a option \<Rightarrow> (string \<times> pyval) list" where
  "opt_entry k f v = (case v of None \<Rightarrow> [] | Some x \<Rightarrow> [(k, f x)])"

definition str_or_none :: "string option \<Rightarrow> pyval" where
  "str_or_none v = (case v of None \<Rightarrow> PNone | Some s \<Rightarrow> PStr s)"

definition node_metadata :: "sources \<Rightarrow> OpcUaNodeInfo \<Rightarrow> (string, pyval) dict" where
  "node_metadata S n =
     [(''uaNodeId'', PStr (oi_node_id n)), (''expandedNodeId'', PStr (identity_of S n)),
      (''uaTypeNodeId'', str_or_none (oi_type_definition_id n)),
      (''namespaceUri'', str_or_none (resolve_namespace_uri (oi_node_id n) (so_uris S))),
      (''appliedProfileIds'', PList (map PStr (profile_ids (profiles_of S n))))]
     @ opt_entry ''description'' PStr (oi_description n)
     @ opt_entry ''accessLevel'' (\<lambda>a. PInt (int a)) (oi_access_level n)
     @ opt_entry ''userAccessLevel'' (\<lambda>a. PInt (int a)) (oi_user_access_level n)
     @ opt_entry ''writable'' (\<lambda>a. PBool (odd (a div 2))) (oi_user_access_level n)
     @ opt_entry ''executable'' PBool (oi_executable n)
     @ opt_entry ''userExecutable'' PBool (oi_user_executable n)"

definition selected_parent :: "sources \<Rightarrow> planes \<Rightarrow> string \<Rightarrow> string option" where
  "selected_parent S pl i =
     (case dict_get (pl_hierarchy_parent pl) i of
        Some p \<Rightarrow> Some p
      | None \<Rightarrow> map_option (mapped_id S) (dict_get (pl_parent_source pl) i))"

definition build_node ::
  "sources \<Rightarrow> planes \<Rightarrow> (string, (string \<times> string) list) dict \<Rightarrow> relation_table
   \<Rightarrow> string \<times> OpcUaNodeInfo \<Rightarrow> ModelNode" where
  "build_node S pl related R sn =
     (let (s, n) = sn; i = element_id S n; active = Some (profiles_of S n); types = types_of S n;
          composed = (dict_get_def (pl_composition_children pl) i [] \<noteq> []);
          confidence_class =
            (if composed then Some Composition
             else if dict_get_def (pl_hierarchy_children pl) i [] \<noteq> [] then Some Hierarchy
             else if dict_get_def related i [] \<noteq> [] then Some Graph else None)
      in map_node (so_digest S) n (child_ids S s) (Some i) (selected_parent S pl i) composed
           (resolve_semantic_role n active (if composed then Some Composition else None) types)
           (resolve_mapping_confidence n active confidence_class (has_profile_override_for_node n active types))
           (dict_get_def R i []) (node_metadata S n))"

definition name_index :: "ModelNode list \<Rightarrow> (string, string) dict" where
  "name_index ms = foldl (\<lambda>d m. dict_setdefault (mn_name m) (mn_id m) d) [] ms"

definition type_index :: "ModelNode list \<Rightarrow> (string, string) dict" where
  "type_index ms =
     foldl (\<lambda>d m. case mn_type m of
        Some t \<Rightarrow> if t \<noteq> [] then dict_setdefault t (mn_id m) d else d
      | None \<Rightarrow> d) [] ms"

definition instance_index :: "ModelNode list \<Rightarrow> (string, string list) dict" where
  "instance_index ms =
     foldl (\<lambda>d m. case mn_source_type_id m of
        Some t \<Rightarrow> if mn_kind m \<in> {Asset, EventSource} then dict_append t (mn_id m) d else d
      | None \<Rightarrow> d) [] ms"

definition property_index :: "ModelNode list \<Rightarrow> (string, string) dict" where
  "property_index ms = dict_of_list (map (\<lambda>m. (mn_id m, mn_source_node_id m)) (filter (\<lambda>m. mn_kind m = Property) ms))"

definition action_index :: "(OpcUaNodeInfo \<times> ModelNode) list \<Rightarrow> (string, string \<times> string) dict" where
  "action_index nms =
     dict_of_list [(mn_id m, (p, oi_node_id n)). (n, m) \<leftarrow> nms, mn_kind m = Action, Some p \<leftarrow> [oi_parent_node_id n]]"

text \<open>The two element id indexes; an expanded canonical key goes to the second one.\<close>

definition add_element_keys ::
  "(nat, string) dict \<Rightarrow> (string, string) dict \<times> (string, string) dict \<Rightarrow> ModelNode
   \<Rightarrow> ((string, string) dict \<times> (string, string) dict) result" where
  "add_element_keys uris ix m =
     (let (by_node, by_expanded) = ix in
      rbind (case dict_get (mn_metadata m) ''uaNodeId'' of
          Some (PStr u) \<Rightarrow>
            if u = [] then Inr (by_node, by_expanded)
            else rbind (canonical_node_id u (dict_get uris)) (\<lambda>c.
              let by_node1 = dict_setdefault u (mn_id m) by_node in
              Inr (case c of
                None \<Rightarrow> (by_node1, by_expanded)
              | Some k \<Rightarrow> if startswith k ''nsu='' then (by_node1, dict_setdefault k (mn_id m) by_expanded)
                          else (dict_setdefault k (mn_id m) by_node1, by_expanded)))
        | _ \<Rightarrow> Inr (by_node, by_expanded))
        (\<lambda>(by_node2, by_expanded2).
          case dict_get (mn_metadata m) ''expandedNodeId'' of
            Some (PStr x) \<Rightarrow>
              if x = [] then Inr (by_node2, by_expanded2)
              else rbind (canonical_node_id x (dict_get uris)) (\<lambda>c.
                let by_expanded3 = dict_setdefault x (mn_id m) by_expanded2 in
                Inr (by_node2, case c of None \<Rightarrow> by_expanded3 | Some k \<Rightarrow> dict_setdefault k (mn_id m) by_expanded3))
          | _ \<Rightarrow> Inr (by_node2, by_expanded2)))"

definition element_indexes ::
  "(nat, string) dict \<Rightarrow> ModelNode list \<Rightarrow> ((string, string) dict \<times> (string, string) dict) result" where
  "element_indexes uris ms = rfold (add_element_keys uris) ([], []) ms"

definition assemble ::
  "sources \<Rightarrow> planes \<Rightarrow> relation_ids \<Rightarrow> BuildResult result" where
  "assemble S pl g =
     (let related = graph_related g pl;
          R = relationship_table S pl related;
          nms = map (\<lambda>sn. (snd sn, build_node S pl related R sn)) (so_nodes S);
          ms = map snd nms;
          nodes = dict_of_list (map (\<lambda>m. (mn_id m, m)) ms)
      in rbind (element_indexes (so_uris S) (dict_values nodes)) (\<lambda>(by_node, by_expanded). Inr
       \<lparr>br_nodes_by_id = nodes,
        br_root_ids = map mn_id (filter (\<lambda>m. mn_parent_id m = None) ms),
        br_children_by_id = map (\<lambda>(i, m). (i, mn_children m)) nodes,
        br_instances_by_type_id = instance_index ms,
        br_property_to_node = property_index ms,
        br_action_to_method = action_index nms,
        br_parent_by_id = pl_hierarchy_parent pl,
        br_node_id_by_name = name_index ms,
        br_node_id_by_type = type_index ms,
        br_hierarchy_children_by_id = pl_hierarchy_children pl,
        br_composition_children_by_id = pl_composition_children pl,
        br_graph_related_by_id = related,
        br_relationships_by_id = dict_merge R (map (\<lambda>m. (mn_id m, mn_relationships m)) ms),
        br_hierarchy_parent_by_id = pl_hierarchy_parent pl,
        br_composition_parent_by_id = pl_composition_parent pl,
        br_graph_relationship_names = dict_keys (gr_namespaces g),
        br_graph_relationship_namespace_by_id = gr_namespaces g,
        br_graph_relationship_display_name_by_id = gr_display_names g,
        br_semantic_role_by_id = dict_of_list (map (\<lambda>m. (mn_id m, mn_semantic_role m)) ms),
        br_mapping_confidence_by_id = dict_of_list (map (\<lambda>m. (mn_id m, mn_mapping_confidence m)) ms),
        br_parent_id_by_id = map (\<lambda>(i, m). (i, selected_parent S pl i)) nodes,
        br_applied_profile_ids_by_id =
          dict_of_list (map (\<lambda>(n, m). (mn_id m, profile_ids (profiles_of S n))) nms),
        br_namespace_uri_by_id =
          dict_of_list (map (\<lambda>(n, m). (mn_id m, resolve_namespace_uri (oi_node_id n) (so_uris S))) nms),
        br_element_id_by_node_id = by_node,
        br_element_id_by_expanded_node_id = by_expanded,
        br_namespace_uri_by_index = so_uris S\<rparr>))"

definition build_from_sources :: "sources \<Rightarrow> BuildResult result" where
  "build_from_sources S =
     rbind (collect_edges S) (\<lambda>ed.
       let pl = choose_parents S ed in
       rbind (relation_ids_of (pl_namespaces pl)) (\<lambda>g. assemble S pl g))"

definition build :: "browse_env \<Rightarrow> BuildResult result" where
  "build W = rbind (bw_browse_tree W) (\<lambda>nodes. build_from_sources (resolve_sources W nodes))"

end
