(* ===== verification/BuilderProps.thy ===== *)
theory BuilderProps
  imports Builder Lookup Resolve
begin

text \<open>
  Properties of the built model: its relationships can be followed both ways, its planes have
  unique parents, and its indexes meet what element lookup and the resolution of monitored
  elements rely on.
\<close>

section \<open>Relationship tables\<close>

text \<open>The targets of a relationship, and a table as a set of edges.\<close>

definition targets_of :: "relation_table \<Rightarrow> string \<Rightarrow> string \<Rightarrow> string list" where
  "targets_of R s name = dict_get_def (dict_get_def R s []) name []"

definition edge_set :: "relation_table \<Rightarrow> (string \<times> string \<times> string) set" where
  "edge_set R = {(s, name, t). t \<in> set (targets_of R s name)}"

lemma dict_get_def_mem: "x \<in> set (dict_get_def d k []) \<Longrightarrow> \<exists>v. (k, v) \<in> set d \<and> x \<in> set v"
  by (cases "dict_get d k") (auto simp: dict_get_def_def dest: map_of_SomeD)

lemma targets_append:
  "targets_of (append_relationship R (s, n, t)) s' n' =
     (if s' = s \<and> n' = n then (if t \<in> set (targets_of R s n) then targets_of R s n else targets_of R s n @ [t])
      else targets_of R s' n')"
  by (simp add: targets_of_def append_relationship_def Let_def)

lemma edge_set_append: "edge_set (append_relationship R e) = insert e (edge_set R)"
  by (cases e) (auto simp: edge_set_def targets_append split: if_splits)

lemma edge_set_foldl: "edge_set (foldl append_relationship R es) = edge_set R \<union> set es"
  by (induction es arbitrary: R) (auto simp: edge_set_append)

lemma dict_of_list_const: "dict_get (dict_of_list (map (\<lambda>(s, n). (f s, c)) xs)) k = Some v \<Longrightarrow> v = c"
  by (auto simp: dict_get_of_list dest!: map_of_SomeD)

lemma edge_set_initial: "edge_set (dict_of_list (map (\<lambda>(s, n). (f s, [])) xs)) = {}"
  by (auto simp: edge_set_def targets_of_def dict_get_def_def dict_get_of_list dest!: map_of_SomeD split: option.splits)

lemma edge_set_table:
  "edge_set (relationship_table S pl related) =
     set (paired_edges ''HasChildren'' ''HasParent'' (pl_hierarchy_children pl))
     \<union> set (paired_edges ''HasComponent'' ''ComponentOf'' (pl_composition_children pl))
     \<union> set (graph_edges related)"
  unfolding relationship_table_def edge_set_foldl edge_set_initial by auto

lemma dict_merge_same:
  "(\<And>k. dict_get_def R k [] = F k) \<Longrightarrow> (\<And>k v. (k, v) \<in> set kvs \<Longrightarrow> v = F k)
    \<Longrightarrow> dict_get_def (dict_merge R kvs) s [] = F s"
proof (induction kvs arbitrary: R)
  case (Cons kv kvs)
  have "snd kv = F (fst kv)" by (rule Cons.prems(2)) simp
  then show ?case
    using Cons.prems by (simp, intro Cons.IH) auto
qed simp

lemma targets_of_merge:
  assumes "\<And>m. m \<in> set ms \<Longrightarrow> mn_relationships m = dict_get_def R (mn_id m) []"
  shows "targets_of (dict_merge R (map (\<lambda>m. (mn_id m, mn_relationships m)) ms)) s name = targets_of R s name"
  unfolding targets_of_def
  by (subst dict_merge_same [where F = "\<lambda>k. dict_get_def R k []"]) (use assms in auto)

lemma set_dict_merge: "set (dict_merge d kvs) \<subseteq> set d \<union> set kvs"
proof (induction kvs arbitrary: d)
  case (Cons kv kvs)
  have "set (dict_merge (AList.update (fst kv) (snd kv) d) kvs) \<subseteq> insert kv (set d) \<union> set kvs"
    using Cons.IH [of "AList.update (fst kv) (snd kv) d"] set_update_subset [of "fst kv" "snd kv" d] by auto
  then show ?case by simp
qed simp

lemma set_dict_of_list: "set (dict_of_list kvs) \<subseteq> set kvs"
  using set_dict_merge [of "[]" kvs] by (simp add: dict_of_list_def)

section \<open>Names of graph relationships\<close>

text \<open>Every name used in an edge has its namespace on record.\<close>

definition names_known :: "(string, string list) dict \<Rightarrow> (string, (string \<times> string \<times> string) list) dict \<Rightarrow> bool" where
  "names_known ns g \<longleftrightarrow> (\<forall>i es name u t. (i, es) \<in> set g \<longrightarrow> (name, u, t) \<in> set es \<longrightarrow> u \<in> set (dict_get_def ns name []))"

lemma names_knownD: "names_known ns g \<Longrightarrow> (i, es) \<in> set g \<Longrightarrow> (name, u, t) \<in> set es
    \<Longrightarrow> u \<in> set (dict_get_def ns name [])"
  unfolding names_known_def by blast

lemma add_namespace_get: "dict_get_def (add_namespace name u d) k [] =
    (if k = name then set_add u (dict_get_def d name []) else dict_get_def d k [])"
  by (simp add: add_namespace_def dict_get_def_def)

lemma names_known_mono:
  "names_known ns g \<Longrightarrow> (\<And>k. set (dict_get_def ns k []) \<subseteq> set (dict_get_def ns' k [])) \<Longrightarrow> names_known ns' g"
  unfolding names_known_def by blast

lemma set_dict_append: "(i, es) \<in> set (dict_append k x d) \<Longrightarrow> (i, es) \<in> set d \<or> (i = k \<and> es = dict_get_def d k [] @ [x])"
  unfolding dict_append_def using set_update_subset by fastforce

lemma names_known_append:
  assumes "names_known ns g" "u \<in> set (dict_get_def ns name [])"
  shows "names_known ns (dict_append k (name, u, t) g)"
  unfolding names_known_def
proof (intro allI impI)
  fix i es nm v t' assume h: "(i, es) \<in> set (dict_append k (name, u, t) g)" "(nm, v, t') \<in> set es"
  have old: "(nm, v, t') \<in> set (dict_get_def g k []) \<Longrightarrow> v \<in> set (dict_get_def ns nm [])"
    using names_knownD [OF assms(1)] dict_get_def_mem [of "(nm, v, t')" g k] by metis
  show "v \<in> set (dict_get_def ns nm [])"
    using set_dict_append [OF h(1)] h(2) old assms(2) names_knownD [OF assms(1), of i es nm v t'] by auto
qed

lemma register_known:
  assumes "register_graph_relationship S name tid ns = Inr (u, ns')"
  shows "u \<in> set (dict_get_def ns' name [])" "set (dict_get_def ns k []) \<subseteq> set (dict_get_def ns' k [])"
  using assms by (auto simp: register_graph_relationship_def add_namespace_get split: option.splits)

lemma register_append_known:
  assumes "names_known ns g" "register_graph_relationship S name tid ns = Inr (u, ns')"
  shows "names_known ns' (dict_append k (name, u, t) g)"
  by (intro names_known_append names_known_mono [OF assms(1)] register_known [OF assms(2)])

lemma edge_step_known:
  assumes "edge_step S s n (ed, seen) e = Inr (ed', seen')" "names_known (ed_namespaces ed) (ed_graph ed)"
  shows "names_known (ed_namespaces ed') (ed_graph ed')"
  using assms register_append_known [OF assms(2)]
  by (auto simp: edge_step_def Let_def rbind_Inr_iff split: if_splits option.splits ReferenceClass.splits prod.splits)

lemma collect_edges_known:
  assumes "collect_edges S = Inr ed"
  shows "names_known (ed_namespaces ed) (ed_graph ed)"
proof (rule rfold_invariant [OF assms [unfolded collect_edges_def]])
  show "names_known (ed_namespaces no_edges) (ed_graph no_edges)"
    by (simp add: names_known_def no_edges_def)
next
  fix ed :: edges and sn ed'
  assume known: "names_known (ed_namespaces ed) (ed_graph ed)" and "edges_of_source S ed sn = Inr ed'"
  then obtain seen where r: "rfold (edge_step S (fst sn) (snd sn)) (ed, []) (reference_entries S (fst sn) (snd sn)) = Inr (ed', seen)"
    by (auto simp: edges_of_source_def rbind_Inr_iff)
  have "case (ed', seen) of (ed, s) \<Rightarrow> names_known (ed_namespaces ed) (ed_graph ed)"
    by (rule rfold_invariant [OF r]) (use known edge_step_known in \<open>auto split: prod.splits\<close>)
  then show "names_known (ed_namespaces ed') (ed_graph ed')" by simp
qed

lemma initial_planes_known:
  assumes "names_known (ed_namespaces ed) (ed_graph ed)"
  shows "names_known (pl_namespaces (initial_planes S ed)) (pl_graph (initial_planes S ed))"
  unfolding names_known_def
proof (intro allI impI)
  fix i es name u t
  assume "(i, es) \<in> set (pl_graph (initial_planes S ed))" "(name, u, t) \<in> set es"
  then obtain s where "(name, u, t) \<in> set (dict_get_def (ed_graph ed) s [])"
    by (auto simp: initial_planes_def dest!: subsetD [OF set_dict_of_list])
  with assms show "u \<in> set (dict_get_def (pl_namespaces (initial_planes S ed)) name [])"
    using dict_get_def_mem [of "(name, u, t)" "ed_graph ed" s] unfolding names_known_def initial_planes_def by fastforce
qed

lemma add_namespaces_get:
  "set (dict_get_def (foldl (\<lambda>d c. add_namespace name u d) ns cs) k []) =
     set (dict_get_def ns k []) \<union> (if k = name \<and> cs \<noteq> [] then {u} else {})"
  by (induction cs arbitrary: ns) (auto simp: add_namespace_get)

lemma organized_by_known:
  fixes cs :: "candidate list"
  assumes "names_known ns g" "cs \<noteq> [] \<Longrightarrow> I3X_RELATIONS \<in> set (dict_get_def ns ''OrganizedBy'' [])"
  shows "names_known ns (foldl (\<lambda>g (p, s, nm). dict_append child (''OrganizedBy'', I3X_RELATIONS, f s) g) g cs)"
proof (rule foldl_invariant [where P = "names_known ns"])
  show "names_known ns g" by (rule assms(1))
next
  fix g :: "(string, (string \<times> string \<times> string) list) dict" and c :: candidate
  assume g: "names_known ns g" "c \<in> set cs"
  then have "I3X_RELATIONS \<in> set (dict_get_def ns ''OrganizedBy'' [])" using assms(2) by fastforce
  then show "names_known ns ((\<lambda>(p, s, nm). dict_append child (''OrganizedBy'', I3X_RELATIONS, f s) g) c)"
    using names_known_append [OF g(1)] by (simp add: case_prod_beta)
qed

lemma choose_parents_known:
  assumes "names_known (ed_namespaces ed) (ed_graph ed)"
  shows "names_known (pl_namespaces (choose_parents S ed)) (pl_graph (choose_parents S ed))"
proof -
  have h: "names_known (pl_namespaces (choose_hierarchy_parent S pl e)) (pl_graph (choose_hierarchy_parent S pl e))"
    if known: "names_known (pl_namespaces pl) (pl_graph pl)" for pl e
  proof -
    let ?ns = "foldl (\<lambda>d c. add_namespace ''OrganizedBy'' I3X_RELATIONS d) (pl_namespaces pl) (losing_candidates (snd e))"
    have "names_known ?ns (pl_graph pl)"
      by (rule names_known_mono [OF known]) (simp add: add_namespaces_get)
    from organized_by_known [OF this, of "losing_candidates (snd e)" "fst e" "mapped_id S"] show ?thesis
      by (simp add: choose_hierarchy_parent_def case_prod_beta add_namespaces_get Let_def)
  qed
  have c: "pl_namespaces (choose_composition_parent S pl e) = pl_namespaces pl"
    "pl_graph (choose_composition_parent S pl e) = pl_graph pl" for pl e
    by (simp_all add: choose_composition_parent_def case_prod_beta Let_def)
  show ?thesis
    unfolding choose_parents_def
    by (rule foldl_invariant, rule foldl_invariant, rule initial_planes_known [OF assms]) (simp_all add: h c)
qed

section \<open>Relationship ids\<close>

definition standard_names :: "string set" where
  "standard_names = {''HasParent'', ''HasChildren'', ''HasComponent'', ''ComponentOf''}"

definition has_relation_id :: "string \<Rightarrow> relation_ids \<Rightarrow> string \<Rightarrow> bool" where
  "has_relation_id name g u \<longleftrightarrow> (\<exists>i. dict_get (gr_ids g) (name, u) = Some i \<and> dict_get (gr_namespaces g) i \<noteq> None)"

definition fresh_ids :: "relation_ids \<Rightarrow> bool" where
  "fresh_ids g \<longleftrightarrow> (\<forall>i. dict_get (gr_namespaces g) i \<noteq> None \<longrightarrow> i \<notin> standard_names)"

lemma colon_not_standard: "CHR '':'' \<in> set s \<Longrightarrow> s \<notin> standard_names"
  by (auto simp: standard_names_def)

lemma relation_id_step_has:
  assumes "relation_id_step name q g u = Inr g'"
  shows "has_relation_id name g' u" "has_relation_id k g v \<Longrightarrow> has_relation_id k g' v"
  using assms by (auto simp: relation_id_step_def has_relation_id_def Let_def split: if_splits)

lemma relation_ids_has:
  assumes "relation_ids_of ns = Inr g" "(name, uris) \<in> set ns" "u \<in> set uris"
  shows "has_relation_id name g u"
proof -
  let ?f = "\<lambda>g (name, uris). rfold (relation_id_step name (must_qualify name uris)) g (sort uris)"
  have inner: "has_relation_id (fst e) g' v" if h: "?f g e = Inr g'" "v \<in> set (snd e)" for g e g' v
  proof -
    have "rfold (relation_id_step (fst e) (must_qualify (fst e) (snd e))) g (sort (snd e)) = Inr g'"
      using h(1) by (simp add: case_prod_beta)
    then show ?thesis
      by (rule rfold_all [where Q = "\<lambda>v g. has_relation_id (fst e) g v"])
        (use h(2) in \<open>simp_all add: relation_id_step_has\<close>)
  qed
  have keep: "has_relation_id k g' v" if "?f g e = Inr g'" "has_relation_id k g v" for g e g' k v
    using that by (auto simp: case_prod_beta intro: rfold_invariant [where P = "\<lambda>g. has_relation_id k g v"]
        relation_id_step_has(2))
  have "\<forall>v \<in> set (snd (name, uris)). has_relation_id (fst (name, uris)) g v"
    by (rule rfold_all [OF assms(1) [unfolded relation_ids_of_def],
          where Q = "\<lambda>e g. \<forall>v \<in> set (snd e). has_relation_id (fst e) g v"])
      (use assms(2) inner keep in auto)
  with assms(3) show ?thesis by simp
qed

lemma relation_ids_fresh:
  assumes "relation_ids_of ns = Inr g"
  shows "fresh_ids g"
proof (rule rfold_invariant [OF assms [unfolded relation_ids_of_def]])
  show "fresh_ids \<lparr>gr_ids = [], gr_namespaces = [], gr_display_names = []\<rparr>" by (simp add: fresh_ids_def)
next
  fix g e g'
  assume "fresh_ids g" "(case e of (name, uris) \<Rightarrow> rfold (relation_id_step name (must_qualify name uris)) g (sort uris)) = Inr g'"
  moreover have "fresh_ids g'" if h: "relation_id_step (fst e) (must_qualify (fst e) (snd e)) g u = Inr g'" "fresh_ids g"
    for g g' u
  proof -
    have "(if must_qualify (fst e) (snd e) then u @ '':'' @ fst e else fst e) \<notin> standard_names"
      by (simp add: colon_not_standard) (simp add: must_qualify_def standard_names_def)
    with h show ?thesis by (auto simp: relation_id_step_def fresh_ids_def Let_def split: if_splits)
  qed
  ultimately show "fresh_ids g'"
    by (auto simp: case_prod_beta intro: rfold_invariant [where P = fresh_ids])
qed

section \<open>The stages of a build\<close>

lemma buildE:
  assumes "build W = Inr m"
  obtains nodes S ed g where "bw_browse_tree W = Inr nodes" "S = resolve_sources W nodes" "collect_edges S = Inr ed"
    "relation_ids_of (pl_namespaces (choose_parents S ed)) = Inr g" "assemble S (choose_parents S ed) g = Inr m"
  using assms by (auto simp: build_def build_from_sources_def rbind_Inr_iff Let_def)

definition built_nodes :: "sources \<Rightarrow> planes \<Rightarrow> relation_ids \<Rightarrow> ModelNode list" where
  "built_nodes S pl g =
     map (build_node S pl (graph_related g pl) (relationship_table S pl (graph_related g pl))) (so_nodes S)"

lemma assemble_fields:
  assumes "assemble S pl g = Inr m"
  defines "ms \<equiv> built_nodes S pl g" and "R \<equiv> relationship_table S pl (graph_related g pl)"
  shows "br_nodes_by_id m = dict_of_list (map (\<lambda>x. (mn_id x, x)) ms)"
    "br_root_ids m = map mn_id (filter (\<lambda>x. mn_parent_id x = None) ms)"
    "br_children_by_id m = map (\<lambda>(i, x). (i, mn_children x)) (br_nodes_by_id m)"
    "br_relationships_by_id m = dict_merge R (map (\<lambda>x. (mn_id x, mn_relationships x)) ms)"
    "br_hierarchy_parent_by_id m = pl_hierarchy_parent pl" "br_parent_by_id m = pl_hierarchy_parent pl"
    "br_composition_parent_by_id m = pl_composition_parent pl"
    "br_hierarchy_children_by_id m = pl_hierarchy_children pl"
    "br_composition_children_by_id m = pl_composition_children pl"
    "br_graph_relationship_names m = dict_keys (gr_namespaces g)"
    "br_graph_relationship_namespace_by_id m = gr_namespaces g"
    "br_node_id_by_name m = name_index ms" "br_node_id_by_type m = type_index ms"
    "br_property_to_node m = property_index ms"
  using assms(1)
  by (auto simp: assemble_def ms_def R_def built_nodes_def rbind_Inr_iff Let_def comp_def)

lemma build_node_fields [simp]:
  "mn_id (build_node S pl related R (s, n)) =
     (if element_id S n \<noteq> [] then element_id S n else stable_i3x_id (so_digest S) (oi_node_id n) (infer_kind n))"
  "mn_relationships (build_node S pl related R (s, n)) = dict_get_def R (element_id S n) []"
  "mn_children (build_node S pl related R (s, n)) = child_ids S s"
  "mn_parent_id (build_node S pl related R (s, n)) = selected_parent S pl (element_id S n)"
  "mn_source_node_id (build_node S pl related R (s, n)) = oi_node_id n"
  "mn_kind (build_node S pl related R (s, n)) = infer_kind n"
  by (simp_all add: build_node_def map_node_def Let_def)

lemma element_id_not_Nil [simp]: "element_id S n \<noteq> []"
  by (simp add: element_id_def stable_i3x_id_def)

lemma infer_kind_eq: "infer_kind n = kind_for_node n"
  by (simp add: infer_kind_def kind_for_node_def dict_get_def_def CLASS_TO_KIND_def)

lemma mem_graph_edges:
  "e \<in> set (graph_edges related) \<longleftrightarrow> (\<exists>x rs n y. (x, rs) \<in> set related \<and> (n, y) \<in> set rs
     \<and> (e = (x, n, y) \<or> e = (y, inverse_name n, x)))"
  unfolding graph_edges_def inverse_name_def set_concat set_map UN_iff image_image bex_simps
  by (simp add: case_prod_beta Bex_def)

lemma mem_graph_related:
  "(x, rs) \<in> set (graph_related g pl) \<longleftrightarrow> (\<exists>entries. (x, entries) \<in> set (pl_graph pl)
     \<and> rs = map (\<lambda>(name, uri, target). (dict_get_def (gr_ids g) (name, uri) [], target)) entries)"
  unfolding graph_related_def by force

lemma graph_edges_cases:
  assumes "e \<in> set (graph_edges (graph_related g pl))"
    "names_known (pl_namespaces pl) (pl_graph pl)" "relation_ids_of (pl_namespaces pl) = Inr g"
  obtains i x y where "dict_get (gr_namespaces g) i \<noteq> None" "e = (x, i, y) \<or> e = (y, inverse_name i, x)"
    "(x, i, y) \<in> set (graph_edges (graph_related g pl))" "(y, inverse_name i, x) \<in> set (graph_edges (graph_related g pl))"
proof -
  obtain x rs n y where e: "(x, rs) \<in> set (graph_related g pl)" "(n, y) \<in> set rs"
    "e = (x, n, y) \<or> e = (y, inverse_name n, x)"
    using assms(1) unfolding mem_graph_edges by blast
  obtain entries nm u where en: "(x, entries) \<in> set (pl_graph pl)" "(nm, u, y) \<in> set entries"
    "n = dict_get_def (gr_ids g) (nm, u) []"
    using e(1,2) unfolding mem_graph_related by auto
  obtain uris where "(nm, uris) \<in> set (pl_namespaces pl)" "u \<in> set uris"
    using dict_get_def_mem [OF names_knownD [OF assms(2) en(1,2)]] by blast
  from relation_ids_has [OF assms(3) this] en(3) have "dict_get (gr_namespaces g) n \<noteq> None"
    by (auto simp: has_relation_id_def dict_get_def_def)
  then show thesis by (rule that) (use e mem_graph_edges in blast)+
qed

text \<open>The types of the graph relationships, each with its inverse.\<close>

definition graph_pair :: "BuildResult \<Rightarrow> string \<Rightarrow> RelationshipType list" where
  "graph_pair m name = (case graph_types m name of Inl e \<Rightarrow> [] | Inr ts \<Rightarrow> ts)"

lemma relationship_items_built:
  assumes "set (br_graph_relationship_names m) = fst ` set (br_graph_relationship_namespace_by_id m)"
    "set (br_graph_relationship_names m) \<inter> standard_names = {}"
  shows "relationship_type_items (Some m) =
    Inr (standard_types @ concat (map (graph_pair m) (sort (br_graph_relationship_names m))))"
proof -
  have st: "rt_element_id ` set standard_types = standard_names"
    by (auto simp: standard_types_def standard_relationship_def standard_names_def)
  have f: "filter (\<lambda>name. name \<notin> rt_element_id ` set standard_types) (sort (br_graph_relationship_names m)) =
      sort (br_graph_relationship_names m)"
    unfolding st by (rule filter_True) (use assms(2) in auto)
  have "graph_types m name = Inr (graph_pair m name)" if h: "name \<in> set (sort (br_graph_relationship_names m))" for name
  proof -
    have "name \<in> fst ` set (br_graph_relationship_namespace_by_id m)" using h assms(1) by simp
    then have "dict_get (br_graph_relationship_namespace_by_id m) name \<noteq> None" by (simp add: map_of_eq_None_iff)
    then show ?thesis by (auto simp: graph_pair_def graph_types_def Let_def)
  qed
  then have "rmap (graph_types m) (sort (br_graph_relationship_names m)) =
      Inr (map (graph_pair m) (sort (br_graph_relationship_names m)))" by (rule rmap_total)
  then show ?thesis by (simp add: relationship_type_items_def f)
qed

text \<open>
  C21. Every edge of a built model can be followed back: whenever the builder succeeds, the list of
  relationship types is available without error, and for every edge from one element to another it
  contains the type of the edge together with its reverse, under which the target points back to the
  source. This holds for hierarchy, composition and graph relationships alike.
\<close>

theorem built_relationships_navigable:
  assumes "build W = Inr m"
  shows "\<exists>items. relationship_type_items (Some m) = Inr items
    \<and> (\<forall>s name t. t \<in> set (targets_of (br_relationships_by_id m) s name) \<longrightarrow>
        (\<exists>ty \<in> set items. rt_element_id ty = name
           \<and> s \<in> set (targets_of (br_relationships_by_id m) t (rt_reverse_of ty))))"
proof -
  obtain nodes S ed g where b: "collect_edges S = Inr ed"
    "relation_ids_of (pl_namespaces (choose_parents S ed)) = Inr g" "assemble S (choose_parents S ed) g = Inr m"
    using buildE [OF assms] by metis
  let ?pl = "choose_parents S ed"
  let ?R = "relationship_table S ?pl (graph_related g ?pl)"
  note known = choose_parents_known [OF collect_edges_known [OF b(1)], of S]
  note fields = assemble_fields [OF b(3)]
  have tg: "targets_of (br_relationships_by_id m) s name = targets_of ?R s name" for s name
    unfolding fields(4) by (rule targets_of_merge) (auto simp: built_nodes_def)
  have fresh: "dict_get (gr_namespaces g) i \<noteq> None \<Longrightarrow> i \<notin> standard_names" for i
    using relation_ids_fresh [OF b(2)] by (simp add: fresh_ids_def)
  have items: "relationship_type_items (Some m) =
      Inr (standard_types @ concat (map (graph_pair m) (sort (br_graph_relationship_names m))))"
    by (rule relationship_items_built)
      (use fresh in \<open>auto simp: fields map_of_eq_None_iff disjoint_iff\<close>)
  let ?items = "standard_types @ concat (map (graph_pair m) (sort (br_graph_relationship_names m)))"
  have std: "\<exists>ty \<in> set ?items. rt_element_id ty = n \<and> rt_reverse_of ty = r" if "(n, r) \<in> {(''HasParent'', ''HasChildren''),
      (''HasChildren'', ''HasParent''), (''HasComponent'', ''ComponentOf''), (''ComponentOf'', ''HasComponent'')}" for n r
    using that by (elim insertE emptyE) (simp_all add: standard_types_def standard_relationship_def)
  have gr: "\<exists>ty \<in> set ?items. rt_element_id ty = n \<and> rt_reverse_of ty = r"
    if h: "dict_get (gr_namespaces g) i \<noteq> None" "(n, r) = (i, inverse_name i) \<or> (n, r) = (inverse_name i, i)" for i n r
  proof -
    have "i \<in> set (br_graph_relationship_names m)" using h(1) by (auto simp: fields map_of_eq_None_iff)
    moreover have "\<exists>ty \<in> set (graph_pair m i). rt_element_id ty = n \<and> rt_reverse_of ty = r"
      using h by (auto simp: graph_pair_def graph_types_def Let_def fields)
    ultimately show ?thesis by auto
  qed
  have "\<exists>ty \<in> set ?items. rt_element_id ty = name \<and> s \<in> set (targets_of ?R t (rt_reverse_of ty))"
    if e: "t \<in> set (targets_of ?R s name)" for s name t
  proof -
    have mem: "(x, n, y) \<in> edge_set ?R \<longleftrightarrow> y \<in> set (targets_of ?R x n)" for x n y by (simp add: edge_set_def)
    have backE: "\<exists>ty \<in> set ?items. rt_element_id ty = name \<and> s \<in> set (targets_of ?R t (rt_reverse_of ty))"
      if "\<exists>ty \<in> set ?items. rt_element_id ty = name \<and> rt_reverse_of ty = r" and "(t, r, s) \<in> edge_set ?R" for r
      using that unfolding mem by blast
    from e have "(s, name, t) \<in> edge_set ?R" by (simp add: mem)
    then consider (h) p c where "(p, ''HasChildren'', c) \<in> edge_set ?R" "(c, ''HasParent'', p) \<in> edge_set ?R"
        "(s, name, t) = (p, ''HasChildren'', c) \<or> (s, name, t) = (c, ''HasParent'', p)"
      | (c) p c where "(p, ''HasComponent'', c) \<in> edge_set ?R" "(c, ''ComponentOf'', p) \<in> edge_set ?R"
        "(s, name, t) = (p, ''HasComponent'', c) \<or> (s, name, t) = (c, ''ComponentOf'', p)"
      | (g) "(s, name, t) \<in> set (graph_edges (graph_related g ?pl))"
      unfolding edge_set_table by (fastforce simp: paired_edges_def)
    then show ?thesis
    proof cases
      case h
      show ?thesis using h(3)
      proof
        assume "(s, name, t) = (p, ''HasChildren'', c)"
        with h backE [of "''HasParent''"] std [of "''HasChildren''" "''HasParent''"] show ?thesis by simp
      next
        assume "(s, name, t) = (c, ''HasParent'', p)"
        with h backE [of "''HasChildren''"] std [of "''HasParent''" "''HasChildren''"] show ?thesis by simp
      qed
    next
      case c
      show ?thesis using c(3)
      proof
        assume "(s, name, t) = (p, ''HasComponent'', c)"
        with c backE [of "''ComponentOf''"] std [of "''HasComponent''" "''ComponentOf''"] show ?thesis by simp
      next
        assume "(s, name, t) = (c, ''ComponentOf'', p)"
        with c backE [of "''HasComponent''"] std [of "''ComponentOf''" "''HasComponent''"] show ?thesis by simp
      qed
    next
      case g
      obtain i x y where i: "dict_get (gr_namespaces g) i \<noteq> None"
        "(s, name, t) = (x, i, y) \<or> (s, name, t) = (y, inverse_name i, x)"
        "(x, i, y) \<in> edge_set ?R" "(y, inverse_name i, x) \<in> edge_set ?R"
        using graph_edges_cases [OF g known b(2)] unfolding edge_set_table by (metis UnI2)
      show ?thesis using i(2)
      proof
        assume "(s, name, t) = (x, i, y)"
        with i(4) backE [of "inverse_name i"] gr [OF i(1), of i "inverse_name i"] show ?thesis by simp
      next
        assume "(s, name, t) = (y, inverse_name i, x)"
        with i(3) backE [of i] gr [OF i(1), of "inverse_name i" i] show ?thesis by simp
      qed
    qed
  qed
  then show ?thesis unfolding items tg by blast
qed

section \<open>Unique parents\<close>

text \<open>A parent table and a children table that say the same.\<close>

definition inverse_planes :: "(string, string) dict \<Rightarrow> (string, string list) dict \<Rightarrow> bool" where
  "inverse_planes parent children \<longleftrightarrow>
     (\<forall>c p. dict_get parent c = Some p \<longleftrightarrow> c \<in> set (dict_get_def children p []))"

lemma inverse_planes_set:
  assumes "inverse_planes P C" "dict_get P c = None"
  shows "inverse_planes (dict_set c p P) (dict_append p c C)"
  using assms by (auto simp: inverse_planes_def dict_get_def_append) (metis option.simps(3))

lemma inverse_planes_initial:
  "inverse_planes [] (dict_of_list (map (\<lambda>(s, n). (f s, [])) xs))"
proof -
  have "dict_get_def (dict_of_list (map (\<lambda>(s, n). (f s, [] :: string list)) xs)) p [] = []" for p
    by (auto simp: dict_get_def_def dest: dict_of_list_const split: option.split)
  then show ?thesis by (simp add: inverse_planes_def)
qed

lemma choose_hierarchy_fields [simp]:
  "pl_hierarchy_parent (choose_hierarchy_parent S pl (c, cs)) =
     dict_set c (mapped_id S (fst (snd (best_candidate cs)))) (pl_hierarchy_parent pl)"
  "pl_hierarchy_children (choose_hierarchy_parent S pl (c, cs)) =
     dict_append (mapped_id S (fst (snd (best_candidate cs)))) c (pl_hierarchy_children pl)"
  "pl_composition_parent (choose_hierarchy_parent S pl (c, cs)) = pl_composition_parent pl"
  "pl_composition_children (choose_hierarchy_parent S pl (c, cs)) = pl_composition_children pl"
  by (simp_all add: choose_hierarchy_parent_def Let_def)

lemma choose_composition_fields [simp]:
  "pl_composition_parent (choose_composition_parent S pl (c, cs)) =
     dict_set c (mapped_id S (fst (snd (best_candidate cs)))) (pl_composition_parent pl)"
  "pl_composition_children (choose_composition_parent S pl (c, cs)) =
     dict_append (mapped_id S (fst (snd (best_candidate cs)))) c (pl_composition_children pl)"
  "pl_hierarchy_parent (choose_composition_parent S pl (c, cs)) = pl_hierarchy_parent pl"
  "pl_hierarchy_children (choose_composition_parent S pl (c, cs)) = pl_hierarchy_children pl"
  by (simp_all add: choose_composition_parent_def Let_def)

text \<open>The parent chosen among candidates.\<close>

definition chosen :: "sources \<Rightarrow> (string, candidate list) dict \<Rightarrow> string \<Rightarrow> string option" where
  "chosen S es c = map_option (\<lambda>cs. mapped_id S (fst (snd (best_candidate cs)))) (dict_get es c)"

text \<open>
  What both planes have in common: choosing the parent of a child enters the pair into the two
  tables of the plane.
\<close>

locale parent_plane =
  fixes pick :: "sources \<Rightarrow> planes \<Rightarrow> string \<times> candidate list \<Rightarrow> planes"
    and parent :: "planes \<Rightarrow> (string, string) dict"
    and children :: "planes \<Rightarrow> (string, string list) dict"
  assumes parent_pick: "parent (pick S pl (c, cs)) = dict_set c (mapped_id S (fst (snd (best_candidate cs)))) (parent pl)"
    and children_pick: "children (pick S pl (c, cs)) =
          dict_append (mapped_id S (fst (snd (best_candidate cs)))) c (children pl)"
begin

lemma fold_parent:
  "dict_ok es \<Longrightarrow> dict_get (parent (foldl (pick S) pl es)) c =
     (case chosen S es c of Some p \<Rightarrow> Some p | None \<Rightarrow> dict_get (parent pl) c)"
proof (induction es arbitrary: pl)
  case (Cons e es)
  then have "dict_get es (fst e) = None" by (auto simp: map_of_eq_None_iff)
  with Cons show ?case
    by (cases e) (auto simp: chosen_def parent_pick split: option.split)
qed (simp add: chosen_def)

lemma fold_inverse:
  "dict_ok es \<Longrightarrow> inverse_planes (parent pl) (children pl) \<Longrightarrow> \<forall>c \<in> fst ` set es. dict_get (parent pl) c = None
    \<Longrightarrow> inverse_planes (parent (foldl (pick S) pl es)) (children (foldl (pick S) pl es))"
proof (induction es arbitrary: pl)
  case (Cons e es)
  then have "inverse_planes (parent (pick S pl e)) (children (pick S pl e))"
    by (cases e) (simp add: parent_pick children_pick inverse_planes_set)
  moreover have "\<forall>c \<in> fst ` set es. dict_get (parent (pick S pl e)) c = None"
    using Cons.prems by (cases e) (auto simp: parent_pick)
  ultimately show ?case using Cons.IH Cons.prems(1) by simp
qed simp

end

interpretation hierarchy_plane: parent_plane choose_hierarchy_parent pl_hierarchy_parent pl_hierarchy_children
  by unfold_locales simp_all

interpretation composition_plane: parent_plane choose_composition_parent pl_composition_parent pl_composition_children
  by unfold_locales simp_all

lemma fold_hierarchy_keeps:
  "pl_composition_parent (foldl (choose_hierarchy_parent S) pl es) = pl_composition_parent pl"
  "pl_composition_children (foldl (choose_hierarchy_parent S) pl es) = pl_composition_children pl"
  by (induction es arbitrary: pl) auto

lemma fold_composition_keeps:
  "pl_hierarchy_parent (foldl (choose_composition_parent S) pl es) = pl_hierarchy_parent pl"
  "pl_hierarchy_children (foldl (choose_composition_parent S) pl es) = pl_hierarchy_children pl"
  by (induction es arbitrary: pl) auto

lemma initial_planes_inverse:
  "inverse_planes (pl_hierarchy_parent (initial_planes S ed)) (pl_hierarchy_children (initial_planes S ed))"
  "inverse_planes (pl_composition_parent (initial_planes S ed)) (pl_composition_children (initial_planes S ed))"
  "pl_hierarchy_parent (initial_planes S ed) = []" "pl_composition_parent (initial_planes S ed) = []"
  by (simp_all add: initial_planes_def inverse_planes_initial)

lemma choose_parents_ok:
  assumes "dict_ok (ed_hierarchy ed)" "dict_ok (ed_composition ed)"
  shows "inverse_planes (pl_hierarchy_parent (choose_parents S ed)) (pl_hierarchy_children (choose_parents S ed))"
    "inverse_planes (pl_composition_parent (choose_parents S ed)) (pl_composition_children (choose_parents S ed))"
    "dict_get (pl_hierarchy_parent (choose_parents S ed)) c = chosen S (ed_hierarchy ed) c"
    "dict_get (pl_composition_parent (choose_parents S ed)) c = chosen S (ed_composition ed) c"
proof -
  let ?h = "foldl (choose_hierarchy_parent S) (initial_planes S ed) (ed_hierarchy ed)"
  note keeps = fold_hierarchy_keeps fold_composition_keeps initial_planes_inverse(3,4)
  have "inverse_planes (pl_composition_parent ?h) (pl_composition_children ?h)"
    unfolding fold_hierarchy_keeps by (rule initial_planes_inverse(2))
  then show "inverse_planes (pl_composition_parent (choose_parents S ed)) (pl_composition_children (choose_parents S ed))"
    unfolding choose_parents_def
    by (rule composition_plane.fold_inverse [OF assms(2)]) (simp add: keeps)
  show "inverse_planes (pl_hierarchy_parent (choose_parents S ed)) (pl_hierarchy_children (choose_parents S ed))"
    unfolding choose_parents_def fold_composition_keeps
    by (rule hierarchy_plane.fold_inverse [OF assms(1) initial_planes_inverse(1)]) (simp add: keeps)
qed (simp_all add: choose_parents_def fold_hierarchy_keeps fold_composition_keeps initial_planes_inverse
      hierarchy_plane.fold_parent [OF assms(1)] composition_plane.fold_parent [OF assms(2)] split: option.splits)

text \<open>The candidates are collected without duplicate children.\<close>

definition edges_ok :: "edges \<Rightarrow> bool" where
  "edges_ok ed \<longleftrightarrow> dict_ok (ed_hierarchy ed) \<and> dict_ok (ed_composition ed)
     \<and> (\<forall>(c, cs) \<in> set (ed_hierarchy ed) \<union> set (ed_composition ed). cs \<noteq> [])"

lemma edges_ok_append:
  assumes "edges_ok ed"
  shows "edges_ok (ed\<lparr>ed_hierarchy := dict_append c x (ed_hierarchy ed)\<rparr>)"
    "edges_ok (ed\<lparr>ed_composition := dict_append c x (ed_composition ed)\<rparr>)"
    "edges_ok (ed\<lparr>ed_namespaces := d, ed_graph := g\<rparr>)"
  using assms by (auto simp: edges_ok_def dict_ok_append dest!: set_dict_append)

lemma edge_step_ok:
  assumes "edge_step S s n (ed, seen) e = Inr (ed', seen')" "edges_ok ed"
  shows "edges_ok ed'"
  using assms edges_ok_append [OF assms(2)]
  by (auto simp: edge_step_def Let_def rbind_Inr_iff split: if_splits option.splits ReferenceClass.splits prod.splits)

lemma collect_edges_invariant:
  assumes "collect_edges S = Inr ed" "P no_edges"
    and step: "\<And>s n ed seen e ed' seen'. (s, n) \<in> set (so_nodes S) \<Longrightarrow> e \<in> set (reference_entries S s n)
      \<Longrightarrow> edge_step S s n (ed, seen) e = Inr (ed', seen') \<Longrightarrow> P ed \<Longrightarrow> P ed'"
  shows "P ed"
proof (rule rfold_invariant [OF assms(1) [unfolded collect_edges_def], of P, OF assms(2)])
  fix ed :: edges and sn ed'
  assume h: "P ed" "sn \<in> set (so_nodes S)" "edges_of_source S ed sn = Inr ed'"
  then obtain seen where r: "rfold (edge_step S (fst sn) (snd sn)) (ed, []) (reference_entries S (fst sn) (snd sn)) = Inr (ed', seen)"
    by (auto simp: edges_of_source_def rbind_Inr_iff)
  have "P (fst (ed', seen))"
    by (rule rfold_invariant [OF r, of "P \<circ> fst", simplified comp_def])
      (use h step [of "fst sn" "snd sn"] in \<open>auto simp: comp_def\<close>)
  then show "P ed'" by simp
qed

lemma collect_edges_ok: "collect_edges S = Inr ed \<Longrightarrow> edges_ok ed"
  by (erule collect_edges_invariant [where P = edges_ok]) (simp add: edges_ok_def no_edges_def, rule edge_step_ok)

lemma best_candidate_Min:
  assumes "cs \<noteq> []"
  shows "best_candidate cs = Min (set cs)"
proof -
  obtain x xs where x: "sort cs = x # xs" using assms by (cases "sort cs") (auto dest: arg_cong [of _ _ length])
  have "set cs = set (x # xs)" using x by (metis set_sort)
  moreover have "sorted (x # xs)" using x by (metis sorted_sort)
  ultimately have "Min (set cs) = x" by (intro Min_eqI) auto
  then show ?thesis by (simp add: best_candidate_def x)
qed

text \<open>
  The parent of an element is chosen by the documented priority: it is the source of the least
  candidate by priority, source node and name, whatever the order in which the references were
  browsed, in the hierarchy plane and in the composition plane.
\<close>

theorem chosen_parent_is_least:
  assumes "collect_edges S = Inr ed"
  shows "(\<forall>c. dict_get (pl_hierarchy_parent (choose_parents S ed)) c =
          map_option (\<lambda>cs. mapped_id S (fst (snd (Min (set cs))))) (dict_get (ed_hierarchy ed) c))
    \<and> (\<forall>c. dict_get (pl_composition_parent (choose_parents S ed)) c =
          map_option (\<lambda>cs. mapped_id S (fst (snd (Min (set cs))))) (dict_get (ed_composition ed) c))"
proof -
  have ok: "edges_ok ed" by (rule collect_edges_ok [OF assms])
  then have d: "dict_ok (ed_hierarchy ed)" "dict_ok (ed_composition ed)" by (simp_all add: edges_ok_def)
  have "chosen S es c = map_option (\<lambda>cs. mapped_id S (fst (snd (Min (set cs))))) (dict_get es c)"
    if "es = ed_hierarchy ed \<or> es = ed_composition ed" for es c
    unfolding chosen_def using ok that
    by (intro option.map_cong0 arg_cong [where f = "\<lambda>x. mapped_id S (fst (snd x))"] best_candidate_Min)
      (auto simp: edges_ok_def dest: map_of_SomeD)
  with choose_parents_ok(3,4) [OF d, of S] show ?thesis by simp
qed

lemma table_targets:
  assumes "names_known (pl_namespaces pl) (pl_graph pl)" "relation_ids_of (pl_namespaces pl) = Inr g"
    "inverse_planes (pl_hierarchy_parent pl) (pl_hierarchy_children pl)"
    "inverse_planes (pl_composition_parent pl) (pl_composition_children pl)" "dict_ok (pl_hierarchy_children pl)"
    "dict_ok (pl_composition_children pl)"
  shows "set (targets_of (relationship_table S pl (graph_related g pl)) c ''HasParent'') = set_option (dict_get (pl_hierarchy_parent pl) c)"
    "set (targets_of (relationship_table S pl (graph_related g pl)) c ''ComponentOf'') = set_option (dict_get (pl_composition_parent pl) c)"
proof -
  have graph: "(x, n, y) \<notin> set (graph_edges (graph_related g pl))" if "n \<in> standard_names" for x n y
  proof
    assume "(x, n, y) \<in> set (graph_edges (graph_related g pl))"
    then obtain i where "dict_get (gr_namespaces g) i \<noteq> None" "n = i \<or> n = inverse_name i"
      using graph_edges_cases [OF _ assms(1,2)] by (metis prod.inject)
    with relation_ids_fresh [OF assms(2)] that show False
      by (auto simp: fresh_ids_def standard_names_def inverse_name_def)
  qed
  have pairs: "(c, up, p) \<in> set (paired_edges down up cs) \<longleftrightarrow> dict_get par c = Some p"
    if "inverse_planes par cs" "dict_ok cs" "up \<noteq> down" for par cs up down p
  proof -
    have "(c, up, p) \<in> set (paired_edges down up cs) \<longleftrightarrow> (\<exists>xs. (p, xs) \<in> set cs \<and> c \<in> set xs)"
      using that(3) by (force simp: paired_edges_def)
    also have "\<dots> \<longleftrightarrow> c \<in> set (dict_get_def cs p [])"
      using that(2) by (auto simp: dict_get_def_def split: option.splits)
    finally show ?thesis using that(1) by (simp add: inverse_planes_def)
  qed
  have other: "(c, r, p) \<notin> set (paired_edges down up cs)" if "r \<noteq> down" "r \<noteq> up" for r p down up cs
    using that by (auto simp: paired_edges_def)
  have mem: "y \<in> set (targets_of (relationship_table S pl (graph_related g pl)) c r) \<longleftrightarrow>
      (c, r, y) \<in> edge_set (relationship_table S pl (graph_related g pl))" for y r
    by (simp add: edge_set_def)
  show "set (targets_of (relationship_table S pl (graph_related g pl)) c ''HasParent'') = set_option (dict_get (pl_hierarchy_parent pl) c)"
    unfolding set_eq_iff mem edge_set_table
    using pairs [OF assms(3,5), of "''HasParent''" "''HasChildren''"] other [of "''HasParent''" "''HasComponent''" "''ComponentOf''"] graph [of "''HasParent''"]
    by (simp add: standard_names_def elem_set)
  show "set (targets_of (relationship_table S pl (graph_related g pl)) c ''ComponentOf'') = set_option (dict_get (pl_composition_parent pl) c)"
    unfolding set_eq_iff mem edge_set_table
    using pairs [OF assms(4,6), of "''ComponentOf''" "''HasComponent''"] other [of "''ComponentOf''" "''HasChildren''" "''HasParent''"] graph [of "''ComponentOf''"]
    by (simp add: standard_names_def elem_set)
qed

lemma choose_parents_dict_ok:
  "dict_ok (pl_hierarchy_children (choose_parents S ed))" "dict_ok (pl_composition_children (choose_parents S ed))"
proof -
  let ?ok = "\<lambda>pl. dict_ok (pl_hierarchy_children pl) \<and> dict_ok (pl_composition_children pl)"
  have "?ok (choose_parents S ed)"
    unfolding choose_parents_def
    by (rule foldl_invariant, rule foldl_invariant)
      (auto simp: initial_planes_def dict_ok_of_list dict_ok_append)
  then show "dict_ok (pl_hierarchy_children (choose_parents S ed))" "dict_ok (pl_composition_children (choose_parents S ed))"
    by simp_all
qed

text \<open>
  C23. Every element of a built model has at most one hierarchical parent and at most one owner, and
  the parts of the model agree on it: the parent table is the inverse of the children table, in the
  hierarchy plane and in the composition plane, and the relationships of an element name exactly
  that parent under HasParent and exactly that owner under ComponentOf.
\<close>

theorem built_parents_unique:
  assumes "build W = Inr m"
  shows "(\<forall>c p. dict_get (br_hierarchy_parent_by_id m) c = Some p \<longleftrightarrow> c \<in> set (dict_get_def (br_hierarchy_children_by_id m) p []))
    \<and> (\<forall>c p. dict_get (br_composition_parent_by_id m) c = Some p \<longleftrightarrow> c \<in> set (dict_get_def (br_composition_children_by_id m) p []))
    \<and> (\<forall>c. set (targets_of (br_relationships_by_id m) c ''HasParent'') = set_option (dict_get (br_hierarchy_parent_by_id m) c))
    \<and> (\<forall>c. set (targets_of (br_relationships_by_id m) c ''ComponentOf'') = set_option (dict_get (br_composition_parent_by_id m) c))"
proof -
  obtain nodes S ed g where b: "collect_edges S = Inr ed"
    "relation_ids_of (pl_namespaces (choose_parents S ed)) = Inr g" "assemble S (choose_parents S ed) g = Inr m"
    using buildE [OF assms] by metis
  note fields = assemble_fields [OF b(3)]
  have tg: "targets_of (br_relationships_by_id m) s name =
      targets_of (relationship_table S (choose_parents S ed) (graph_related g (choose_parents S ed))) s name" for s name
    unfolding fields(4) by (rule targets_of_merge) (auto simp: built_nodes_def)
  have "dict_ok (ed_hierarchy ed)" "dict_ok (ed_composition ed)"
    using collect_edges_ok [OF b(1)] by (simp_all add: edges_ok_def)
  note inv = choose_parents_ok(1,2) [OF this, of S]
  note t = table_targets [OF choose_parents_known [OF collect_edges_known [OF b(1)], of S] b(2) inv choose_parents_dict_ok]
  show ?thesis unfolding tg fields(5,7-9) t using inv by (simp add: inverse_planes_def)
qed

end
