(* ===== verification/BuilderIndex.thy ===== *)
theory BuilderIndex
  imports BuilderProps
begin

text \<open>
  The indexes of a built model: when different browsed nodes get different element ids (the ids are
  truncated hashes, so this is a hypothesis), every node is stored under its id, element lookup
  finds exactly the nodes of the model, and on an acyclic browse tree the resolution of monitored
  elements always returns. The last part says which exceptions can leave a build.
\<close>

section \<open>The browsed nodes\<close>

lemma resolve_sources_nodes: "so_nodes (resolve_sources W nodes) = dict_of_list (map (\<lambda>n. (oi_node_id n, n)) nodes)"
  by (simp add: resolve_sources_def Let_def)

lemma resolve_sources_children: "so_children (resolve_sources W nodes) = child_sources_by_parent nodes"
  by (simp add: resolve_sources_def Let_def)

definition sources_ok :: "sources \<Rightarrow> bool" where
  "sources_ok S \<longleftrightarrow> dict_ok (so_nodes S) \<and> (\<forall>(s, n) \<in> set (so_nodes S). oi_node_id n = s)"

lemma resolve_sources_ok: "sources_ok (resolve_sources W nodes)"
  by (auto simp: sources_ok_def resolve_sources_nodes dict_ok_of_list dest!: subsetD [OF set_dict_of_list])

lemma child_sources_mem:
  "c \<in> set (dict_get_def (child_sources_by_parent nodes) p []) \<longleftrightarrow>
     (\<exists>n \<in> set nodes. oi_parent_node_id n = Some p \<and> oi_node_id n = c)"
proof -
  have "c \<in> set (dict_get_def (foldl (\<lambda>d n. case oi_parent_node_id n of None \<Rightarrow> d
        | Some p \<Rightarrow> dict_append p (oi_node_id n) d) d nodes) p []) \<longleftrightarrow>
      c \<in> set (dict_get_def d p []) \<or> (\<exists>n \<in> set nodes. oi_parent_node_id n = Some p \<and> oi_node_id n = c)" for d
    by (induction nodes arbitrary: d) (auto simp: dict_get_def_append split: option.splits)
  from this [of "[]"] show ?thesis by (simp add: child_sources_by_parent_def dict_get_def_def)
qed

text \<open>Different browsed nodes have different element ids.\<close>

definition ids_distinct :: "sources \<Rightarrow> bool" where
  "ids_distinct S \<longleftrightarrow> distinct (map (\<lambda>(s, n). element_id S n) (so_nodes S))"

lemma mapped_id_node: "sources_ok S \<Longrightarrow> (s, n) \<in> set (so_nodes S) \<Longrightarrow> mapped_id S s = element_id S n"
  by (simp add: mapped_id_def sources_ok_def)

lemma ids_distinctD:
  "ids_distinct S \<Longrightarrow> (s, n) \<in> set (so_nodes S) \<Longrightarrow> (t, k) \<in> set (so_nodes S) \<Longrightarrow> element_id S n = element_id S k
    \<Longrightarrow> s = t \<and> n = k"
  unfolding ids_distinct_def distinct_map inj_on_def by fastforce

section \<open>Nodes by id\<close>

abbreviation built :: "sources \<Rightarrow> planes \<Rightarrow> relation_ids \<Rightarrow> string \<times> OpcUaNodeInfo \<Rightarrow> ModelNode" where
  "built S pl g \<equiv> build_node S pl (graph_related g pl) (relationship_table S pl (graph_related g pl))"

lemma mn_id_built [simp]: "mn_id (built S pl g sn) = element_id S (snd sn)"
  by (cases sn) simp

lemma nodes_by_id:
  "assemble S pl g = Inr m \<Longrightarrow> br_nodes_by_id m = dict_of_list (map (\<lambda>x. (element_id S (snd x), built S pl g x)) (so_nodes S))"
  by (simp add: assemble_fields(1) built_nodes_def comp_def)

lemma dict_ok_nodes: "assemble S pl g = Inr m \<Longrightarrow> dict_ok (br_nodes_by_id m)"
  by (simp add: nodes_by_id dict_ok_of_list)

lemma ids_ok_nodes: "assemble S pl g = Inr m \<Longrightarrow> ids_ok m"
  by (auto simp: ids_ok_def nodes_by_id dest!: subsetD [OF set_dict_of_list])

lemma node_of_built:
  assumes "assemble S pl g = Inr m" "node_of m i = Some x"
  obtains s n where "(s, n) \<in> set (so_nodes S)" "x = built S pl g (s, n)" "i = element_id S n"
  using assms by (auto simp: nodes_by_id dict_get_of_list dest!: map_of_SomeD)

lemma node_of_element:
  assumes "assemble S pl g = Inr m" "ids_distinct S" "(s, n) \<in> set (so_nodes S)"
  shows "node_of m (element_id S n) = Some (built S pl g (s, n))"
proof -
  let ?kvs = "map (\<lambda>x. (element_id S (snd x), built S pl g x)) (so_nodes S)"
  have "map fst ?kvs = map (\<lambda>(s, n). element_id S n) (so_nodes S)" by auto
  then have "distinct (map fst (rev ?kvs))" using assms(2) by (metis distinct_rev ids_distinct_def rev_map)
  moreover have "(element_id S n, built S pl g (s, n)) \<in> set (rev ?kvs)" using assms(3) by force
  ultimately have "dict_get (rev ?kvs) (element_id S n) = Some (built S pl g (s, n))"
    by (rule map_of_is_SomeI)
  then show ?thesis by (simp add: nodes_by_id [OF assms(1)] dict_get_of_list)
qed

lemma children_of_built:
  "assemble S pl g = Inr m \<Longrightarrow> children_of m i = (case node_of m i of None \<Rightarrow> [] | Some x \<Rightarrow> mn_children x)"
  by (simp add: children_of_def assemble_fields(3) dict_get_def_def map_of_map split: option.split)

lemma values_built:
  "assemble S pl g = Inr m \<Longrightarrow> ids_distinct S \<Longrightarrow> set (dict_values (br_nodes_by_id m)) = built S pl g ` set (so_nodes S)"
proof (intro equalityI subsetI)
  fix x assume a: "assemble S pl g = Inr m" "ids_distinct S" "x \<in> built S pl g ` set (so_nodes S)"
  then obtain s n where "(s, n) \<in> set (so_nodes S)" "x = built S pl g (s, n)" by auto
  with node_of_element [OF a(1,2)] show "x \<in> set (dict_values (br_nodes_by_id m))"
    by (force dest: map_of_SomeD)
qed (auto simp: nodes_by_id dest!: subsetD [OF set_dict_of_list])

section \<open>The name and type indexes\<close>

lemma set_setdefault: "set (dict_setdefault k v d) \<subseteq> insert (k, v) (set d)"
  by (auto simp: dict_setdefault_def split: option.split)

lemma name_index_mem: "(e, i) \<in> set (name_index ms) \<Longrightarrow> \<exists>x \<in> set ms. mn_name x = e \<and> mn_id x = i"
proof -
  let ?P = "\<lambda>d. set d \<subseteq> (\<lambda>x. (mn_name x, mn_id x)) ` set ms"
  have "?P (name_index ms)"
    unfolding name_index_def
  proof (rule foldl_invariant [where P = ?P])
    fix d x assume "?P d" "x \<in> set ms"
    then show "?P (dict_setdefault (mn_name x) (mn_id x) d)"
      using set_setdefault [of "mn_name x" "mn_id x" d] by auto
  qed simp
  then show "(e, i) \<in> set (name_index ms) \<Longrightarrow> ?thesis" by auto
qed

lemma type_index_mem: "(e, i) \<in> set (type_index ms) \<Longrightarrow> \<exists>x \<in> set ms. mn_type x = Some e \<and> mn_id x = i"
proof -
  let ?P = "\<lambda>d. set d \<subseteq> {(t, mn_id x) | t x. x \<in> set ms \<and> mn_type x = Some t}"
  have "?P (type_index ms)"
    unfolding type_index_def
  proof (rule foldl_invariant [where P = ?P])
    fix d x assume h: "?P d" "x \<in> set ms"
    show "?P (case mn_type x of None \<Rightarrow> d | Some t \<Rightarrow> if t \<noteq> [] then dict_setdefault t (mn_id x) d else d)"
    proof (cases "mn_type x")
      case (Some t)
      then show ?thesis using h set_setdefault [of t "mn_id x" d] by auto
    qed (use h in simp)
  qed simp
  then show "(e, i) \<in> set (type_index ms) \<Longrightarrow> ?thesis" by auto
qed

lemma index_sound_built:
  assumes "assemble S pl g = Inr m" "ids_distinct S"
  shows "index_sound m"
proof -
  have same: "x = y" if h: "x \<in> set (built_nodes S pl g)" "node_of m (mn_id x) = Some y" for x y
  proof -
    obtain s n where "x = built S pl g (s, n)" "(s, n) \<in> set (so_nodes S)" using h(1) by (auto simp: built_nodes_def)
    with h(2) node_of_element [OF assms] show ?thesis by simp
  qed
  have "mn_name y = e" if "(e, i) \<in> set (br_node_id_by_name m)" "node_of m i = Some y" for e i y
    using that same name_index_mem [of e i] unfolding assemble_fields(12) [OF assms(1)] by blast
  moreover have "mn_type y = Some e" if "(e, i) \<in> set (br_node_id_by_type m)" "node_of m i = Some y" for e i y
    using that same type_index_mem [of e i] unfolding assemble_fields(13) [OF assms(1)] by blast
  ultimately show ?thesis unfolding index_sound_def by auto
qed

section \<open>Ranks of an acyclic browse tree\<close>

lemma finite_acyclic_rank:
  assumes "finite r" "acyclic r"
  shows "\<exists>h :: 'a \<Rightarrow> nat. \<forall>(x, y) \<in> r. h x < h y"
proof -
  have "card {z. (z, x) \<in> r\<^sup>+} < card {z. (z, y) \<in> r\<^sup>+}" if "(x, y) \<in> r" for x y
  proof (rule psubset_card_mono)
    have "finite (r\<^sup>+)" using assms(1) by (simp add: finite_trancl)
    then have "finite (fst ` r\<^sup>+)" by (rule finite_imageI)
    then show "finite {z. (z, y) \<in> r\<^sup>+}" by (rule rev_finite_subset) force
    have "(x, x) \<notin> r\<^sup>+" using assms(2) by (simp add: acyclic_def)
    then show "{z. (z, x) \<in> r\<^sup>+} \<subset> {z. (z, y) \<in> r\<^sup>+}"
      using that by (auto intro: trancl_into_trancl)
  qed
  then show ?thesis by (intro exI [of _ "\<lambda>x. card {z. (z, x) \<in> r\<^sup>+}"]) auto
qed

text \<open>The browse tree: a node and its browse parent.\<close>

definition browse_parents :: "OpcUaNodeInfo list \<Rightarrow> (string \<times> string) set" where
  "browse_parents nodes = {(oi_node_id n, p) | n p. n \<in> set nodes \<and> oi_parent_node_id n = Some p}"

lemma finite_browse_parents: "finite (browse_parents nodes)"
proof -
  have "browse_parents nodes \<subseteq> (\<lambda>n. (oi_node_id n, the (oi_parent_node_id n))) ` set nodes"
    by (force simp: browse_parents_def)
  then show ?thesis by (rule finite_subset) simp
qed

lemma tree_rank_built:
  assumes "S = resolve_sources W nodes" "assemble S pl g = Inr m" "ids_distinct S" "acyclic (browse_parents nodes)"
  shows "\<exists>h. tree_rank m h"
proof -
  obtain r :: "string \<Rightarrow> nat" where r: "\<forall>(x, y) \<in> browse_parents nodes. r x < r y"
    using finite_acyclic_rank [OF finite_browse_parents assms(4)] by blast
  have ok: "sources_ok S" unfolding assms(1) by (rule resolve_sources_ok)
  let ?src = "\<lambda>i. SOME s. \<exists>n. (s, n) \<in> set (so_nodes S) \<and> element_id S n = i"
  have src: "?src (element_id S n) = s" if "(s, n) \<in> set (so_nodes S)" for s n
  proof (rule some_equality)
    show "\<exists>k. (s, k) \<in> set (so_nodes S) \<and> element_id S k = element_id S n" using that by blast
  qed (use ids_distinctD [OF assms(3)] that in blast)
  have "r (?src c) < r (?src i)" if c: "c \<in> set (children_of m i)" for i c
  proof -
    obtain x where x: "node_of m i = Some x" "c \<in> set (mn_children x)"
      using c unfolding children_of_built [OF assms(2)] by (cases "node_of m i") simp_all
    obtain s n where n: "(s, n) \<in> set (so_nodes S)" "x = built S pl g (s, n)" "i = element_id S n"
      by (rule node_of_built [OF assms(2) x(1)])
    from x(2) n(2) obtain cs where cs: "cs \<in> set (dict_get_def (so_children S) s [])" "c = mapped_id S cs"
      by (auto simp: child_ids_def)
    then have "(cs, s) \<in> browse_parents nodes"
      unfolding assms(1) resolve_sources_children child_sources_mem by (auto simp: browse_parents_def)
    then have less: "r cs < r s" using r by auto
    have "cs \<in> fst ` set (so_nodes S)"
      using cs(1) unfolding assms(1) resolve_sources_children child_sources_mem resolve_sources_nodes
      by (force simp: dict_of_list_def set_keys_merge)
    then obtain k where k: "(cs, k) \<in> set (so_nodes S)" by auto
    from mapped_id_node [OF ok k] cs(2) have "c = element_id S k" by simp
    with src [OF k] src [OF n(1)] n(3) less show ?thesis by simp
  qed
  then show ?thesis unfolding tree_rank_def by (intro exI [of _ "\<lambda>i. r (?src i)"]) blast
qed

section \<open>Properties\<close>

text \<open>
  C24. Lookup on a built model is exact: when different browsed nodes have different element ids,
  every browsed node is found under its element id, as the node that was built from it; a lookup
  under any other string finds a node with that name, data type or source node id; and it fails
  only when no browsed node has it as its element id, name, data type or source node id.
\<close>

theorem built_lookup_exact:
  assumes "bw_browse_tree W = Inr nodes" "build W = Inr m" "ids_distinct (resolve_sources W nodes)"
  shows "(\<forall>s n. (s, n) \<in> set (so_nodes (resolve_sources W nodes)) \<longrightarrow>
        (\<exists>x. find_model_node m (element_id (resolve_sources W nodes) n) = Some x \<and> mn_source_node_id x = s
            \<and> mn_kind x = kind_for_node n \<and> mn_children x = child_ids (resolve_sources W nodes) s))
    \<and> (find_model_node m e = None \<longleftrightarrow>
        (\<forall>(s, n) \<in> set (so_nodes (resolve_sources W nodes)).
            element_id (resolve_sources W nodes) n \<noteq> e \<and> e \<noteq> (if oi_display_name n \<noteq> [] then oi_display_name n else oi_browse_name n)
            \<and> map_type n (kind_for_node n) \<noteq> Some e \<and> py_lower s \<noteq> py_lower e))"
proof -
  obtain pl g where a: "assemble (resolve_sources W nodes) pl g = Inr m"
    using buildE [OF assms(2)] assms(1) by (metis sum.inject(2))
  let ?S = "resolve_sources W nodes"
  note L = find_model_node_sound_complete [OF ids_ok_nodes [OF a] index_sound_built [OF a assms(3)], of e]
  have found: "find_model_node m (element_id ?S n) = Some (built ?S pl g (s, n))" if "(s, n) \<in> set (so_nodes ?S)" for s n
    using find_model_node_sound_complete [OF ids_ok_nodes [OF a] index_sound_built [OF a assms(3)]]
      node_of_element [OF a assms(3) that] by blast
  have src: "oi_node_id n = s" if "(s, n) \<in> set (so_nodes ?S)" for s n
    using resolve_sources_ok [of W nodes] that by (auto simp: sources_ok_def)
  have matches: "scan_matches e (built ?S pl g (s, n)) \<longleftrightarrow>
      e = (if oi_display_name n \<noteq> [] then oi_display_name n else oi_browse_name n)
      \<or> map_type n (kind_for_node n) = Some e \<or> py_lower s = py_lower e" if "(s, n) \<in> set (so_nodes ?S)" for s n
    using src [OF that]
    by (auto simp: scan_matches_def build_node_def map_node_def Let_def infer_kind_eq)
  have "find_model_node m e = None \<longleftrightarrow>
      (\<forall>sn \<in> set (so_nodes ?S). element_id ?S (snd sn) \<noteq> e \<and> \<not> scan_matches e (built ?S pl g sn))"
    using L unfolding values_built [OF a assms(3)] by simp
  also have "\<dots> \<longleftrightarrow> (\<forall>(s, n) \<in> set (so_nodes ?S). element_id ?S n \<noteq> e
      \<and> e \<noteq> (if oi_display_name n \<noteq> [] then oi_display_name n else oi_browse_name n)
      \<and> map_type n (kind_for_node n) \<noteq> Some e \<and> py_lower s \<noteq> py_lower e)"
  proof (intro ball_cong refl)
    fix sn assume sn: "sn \<in> set (so_nodes ?S)"
    obtain s n where [simp]: "sn = (s, n)" by (cases sn)
    have "scan_matches e (built ?S pl g sn) \<longleftrightarrow>
      e = (if oi_display_name n \<noteq> [] then oi_display_name n else oi_browse_name n)
      \<or> map_type n (kind_for_node n) = Some e \<or> py_lower s = py_lower e" using matches sn by simp
    then show "(element_id ?S (snd sn) \<noteq> e \<and> \<not> scan_matches e (built ?S pl g sn)) =
        (case sn of (s, n) \<Rightarrow> element_id ?S n \<noteq> e
          \<and> e \<noteq> (if oi_display_name n \<noteq> [] then oi_display_name n else oi_browse_name n)
          \<and> map_type n (kind_for_node n) \<noteq> Some e \<and> py_lower s \<noteq> py_lower e)" unfolding \<open>sn = (s, n)\<close> split snd_conv by blast
  qed
  finally show ?thesis using found src by (simp add: infer_kind_eq)
qed

text \<open>
  Monitoring on a built model terminates: when the browse tree has no cycle and different nodes
  have different element ids, resolving any set of registered elements, without a depth limit as
  well, returns, with exactly the source nodes below the elements and an element to report each
  under; and a property element resolves to its own source node alone.
\<close>

theorem built_resolution_terminates:
  assumes "bw_browse_tree W = Inr nodes" "build W = Inr m" "ids_distinct (resolve_sources W nodes)"
    "acyclic (browse_parents nodes)"
  shows "(\<exists>ns n2e. resolve_monitored_node_ids objs m = Some (ns, n2e)
        \<and> set ns = (\<Union>obj \<in> set objs. monitored_sources m obj) \<and> distinct ns \<and> set ns \<subseteq> fst ` set n2e)
    \<and> (\<forall>s n d. (s, n) \<in> set (so_nodes (resolve_sources W nodes)) \<longrightarrow> kind_for_node n = Property \<longrightarrow>
        monitored_sources m (element_id (resolve_sources W nodes) n, d) = {s})"
proof -
  obtain pl g where a: "assemble (resolve_sources W nodes) pl g = Inr m"
    using buildE [OF assms(2)] assms(1) by (metis sum.inject(2))
  let ?S = "resolve_sources W nodes"
  obtain h where h: "tree_rank m h" using tree_rank_built [OF refl a assms(3,4)] by blast
  have "monitored_sources m (element_id ?S n, d) = {s}" if n: "(s, n) \<in> set (so_nodes ?S)" "kind_for_node n = Property" for s n d
  proof -
    note at = node_of_element [OF a assms(3) n(1)]
    have kind: "mn_kind (built ?S pl g (s, n)) = Property" using n(2) by (simp add: infer_kind_eq)
    then have "\<not> expands m (max 0 d) (element_id ?S n, 0) y" for y using at by (auto elim!: expandsE)
    then have "found_below m (max 0 d) (element_id ?S n, 0) = {(oi_node_id n, element_id ?S n)}"
      using at kind by (simp add: found_below_leaf)
    moreover have "oi_node_id n = s" using resolve_sources_ok [of W nodes] n(1) by (auto simp: sources_ok_def)
    ultimately show ?thesis using at by (simp add: monitored_sources_def find_monitored_def)
  qed
  moreover have "\<exists>ns n2e. resolve_monitored_node_ids objs m = Some (ns, n2e)
        \<and> set ns = (\<Union>obj \<in> set objs. monitored_sources m obj) \<and> distinct ns \<and> set ns \<subseteq> fst ` set n2e"
    using resolve_loop_correct [OF ids_ok_nodes [OF a] dict_ok_nodes [OF a] h, of objs "[]" "[]"]
    by (auto simp: resolve_monitored_node_ids_def)
  ultimately show ?thesis by blast
qed

section \<open>Exceptions of a build\<close>

definition int_error :: exn where
  "int_error = ValueError ''invalid literal for int()''"

lemma canonical_node_id_error: "canonical_node_id s u = Inl e \<Longrightarrow> e = int_error"
  by (auto simp: canonical_node_id_def normalize_node_identifier_def py_int_of_digits_def int_error_def Let_def
      split: if_splits prod.splits option.splits dest!: rbind_error)

lemma add_element_keys_error: "add_element_keys uris ix x = Inl e \<Longrightarrow> e = int_error"
  by (auto simp: add_element_keys_def Let_def split: if_splits prod.splits option.splits pyval.splits
      dest!: rbind_error canonical_node_id_error)

lemma edge_step_error:
  assumes "edge_step S s n st x = Inl e" "x \<in> set (reference_entries S s n)"
  shows "\<exists>r \<in> set (oi_outgoing_references n). e = ValueError (''Cannot resolve namespace for reference type '' @ quoted (ri_reference_type_id r))
    \<and> namespace_uri_from_expanded_node_id (expanded_node_id (ri_reference_type_id r) (so_infos S)) = None"
proof -
  obtain target tid name where x: "x = (target, tid, name)" by (cases x)
  have known: "dict_get (so_nodes S) target \<noteq> None"
    using assms(2) by (cases "dict_get (so_nodes S) target") (auto simp: x reference_entries_def split: if_splits)
  have type: "\<exists>r \<in> set (oi_outgoing_references n). ri_reference_type_id r = t" if "tid = Some t" for t
    using assms(2) that by (auto simp: x reference_entries_def split: if_splits)
  from assms(1) known show ?thesis
    by (auto simp: edge_step_def x register_graph_relationship_def Let_def
        split: if_splits prod.splits option.splits ReferenceClass.splits dest!: rbind_error type)
qed

lemma collect_edges_error:
  assumes "collect_edges S = Inl e"
  shows "\<exists>(s, n) \<in> set (so_nodes S). \<exists>r \<in> set (oi_outgoing_references n).
      e = ValueError (''Cannot resolve namespace for reference type '' @ quoted (ri_reference_type_id r))
      \<and> namespace_uri_from_expanded_node_id (expanded_node_id (ri_reference_type_id r) (so_infos S)) = None"
proof -
  obtain ed s n where sn: "(s, n) \<in> set (so_nodes S)" "edges_of_source S ed (s, n) = Inl e"
    using rfold_error [OF assms [unfolded collect_edges_def]] by auto
  then have "rfold (edge_step S s n) (ed, []) (reference_entries S s n) = Inl e"
    by (auto simp: edges_of_source_def dest!: rbind_error)
  from rfold_error [OF this] sn(1) edge_step_error show ?thesis by fast
qed

lemma relation_ids_error:
  assumes "relation_ids_of ns = Inl e"
  shows "\<exists>i. e = ValueError (''Expanded qualified relationship ID '' @ quoted i @ '' is ambiguous'')"
  using assms
  by (auto simp: relation_ids_of_def relation_id_step_def Let_def split: if_splits prod.splits dest!: rfold_error)

lemma assemble_error: "assemble S pl g = Inl e \<Longrightarrow> e = int_error"
  by (auto simp: assemble_def element_indexes_def Let_def dest!: rbind_error rfold_error add_element_keys_error)

text \<open>
  What can fail a build: only the browse itself (its exception is passed on), a graph reference
  whose type has no namespace, two graph relationships with the same qualified id, or a numeric
  NodeId that is not a number; an internal lookup never fails, and failures while namespaces,
  reference types or type definitions are resolved never fail a build.
\<close>

theorem build_failures:
  assumes "build W = Inl e"
  shows "bw_browse_tree W = Inl e
    \<or> (\<exists>nodes n r. bw_browse_tree W = Inr nodes \<and> n \<in> set nodes \<and> r \<in> set (oi_outgoing_references n)
         \<and> namespace_uri_from_expanded_node_id (expanded_node_id (ri_reference_type_id r) (so_infos (resolve_sources W nodes))) = None
         \<and> e = ValueError (''Cannot resolve namespace for reference type '' @ quoted (ri_reference_type_id r)))
    \<or> (\<exists>i. e = ValueError (''Expanded qualified relationship ID '' @ quoted i @ '' is ambiguous''))
    \<or> e = ValueError ''invalid literal for int()''"
proof (cases "bw_browse_tree W")
  case (Inl e')
  with assms show ?thesis by (simp add: build_def)
next
  case (Inr nodes)
  let ?S = "resolve_sources W nodes"
  have n: "n \<in> set nodes" if "(s, n) \<in> set (so_nodes ?S)" for s n
    using that by (auto simp: resolve_sources_nodes dest!: subsetD [OF set_dict_of_list])
  from assms Inr have "build_from_sources ?S = Inl e" by (simp add: build_def)
  then consider "collect_edges ?S = Inl e"
    | ed where "relation_ids_of (pl_namespaces (choose_parents ?S ed)) = Inl e"
    | pl g where "assemble ?S pl g = Inl e"
    by (auto simp: build_from_sources_def Let_def dest!: rbind_error)
  then show ?thesis
  proof cases
    case 1
    from collect_edges_error [OF this] n Inr show ?thesis by blast
  next
    case 2
    from relation_ids_error [OF this] show ?thesis by blast
  next
    case 3
    from assemble_error [OF this] show ?thesis by (simp add: int_error_def)
  qed
qed

section \<open>Witnesses\<close>

text \<open>A pump with one variable: two browsed nodes without references, so the browse tree is used.\<close>

definition opc_node :: "string \<Rightarrow> string option \<Rightarrow> string \<Rightarrow> string \<Rightarrow> OpcUaNodeInfo" where
  "opc_node i p name cls =
     \<lparr>oi_node_id = i, oi_parent_node_id = p, oi_browse_name = name, oi_display_name = name, oi_node_class = cls,
      oi_data_type = None, oi_type_definition_id = None, oi_event_notifier = False, oi_outgoing_references = [],
      oi_description = None, oi_access_level = None, oi_user_access_level = None, oi_executable = None,
      oi_user_executable = None\<rparr>"

definition pump :: OpcUaNodeInfo where "pump = opc_node ''ns=1;i=1'' None ''Pump'' ''Object''"
definition speed :: OpcUaNodeInfo where "speed = opc_node ''ns=1;i=2'' (Some ''ns=1;i=1'') ''Speed'' ''Variable''"

definition plant_infos :: "OpcUaNamespaceInfo list" where
  "plant_infos =
     [\<lparr>ni_uri = ''http://opcfoundation.org/UA/'', ni_display_name = ''UA'', ni_namespace_version = None, ni_server_uri = None\<rparr>,
      \<lparr>ni_uri = ''urn:x'', ni_display_name = ''x'', ni_namespace_version = None, ni_server_uri = None\<rparr>]"

definition plant_env :: browse_env where
  "plant_env =
     \<lparr>bw_digest = (\<lambda>s. s), bw_browse_tree = Inr [pump, speed],
      bw_namespace_infos = Some (Inr plant_infos),
      bw_supertypes = None, bw_hierarchies = None, bw_hierarchy = None\<rparr>"

definition plant_sources :: sources where
  "plant_sources =
     \<lparr>so_digest = (\<lambda>s. s), so_nodes = [(''ns=1;i=1'', pump), (''ns=1;i=2'', speed)], so_children = [(''ns=1;i=1'', [''ns=1;i=2''])],
      so_infos = plant_infos,
      so_uris = [(0, ''http://opcfoundation.org/UA/''), (1, ''urn:x'')], so_supertypes = [], so_types = []\<rparr>"

lemma plant_sources_eq: "resolve_sources plant_env [pump, speed] = plant_sources"
  by (simp add: resolve_sources_def plant_env_def plant_sources_def plant_infos_def pump_def speed_def opc_node_def indexed_uris_def
     child_sources_by_parent_def reference_supertypes_def type_hierarchies_def dict_append_def dict_get_def_def dict_of_list_def Let_def)

lemma plant_ids: "element_id plant_sources pump = ''asset-nsu=urn:x;i=1''"
  "element_id plant_sources speed = ''property-nsu=urn:x;i=2''"
  by code_simp+

lemma plant_class: "relationship_class_of plant_sources pump speed None ''HasProperty'' = Composition"
  by code_simp

lemma plant_entries: "reference_entries plant_sources ''ns=1;i=1'' pump = [(''ns=1;i=2'', None, ''HasProperty'')]"
  "reference_entries plant_sources ''ns=1;i=2'' speed = []"
  by (simp_all add: reference_entries_def plant_sources_def pump_def speed_def opc_node_def dict_get_def_def)

lemma plant_nodes: "so_nodes plant_sources = [(''ns=1;i=1'', pump), (''ns=1;i=2'', speed)]" by (simp add: plant_sources_def)

lemma plant_edges: "collect_edges plant_sources =
   Inr (no_edges\<lparr>ed_composition := [(''property-nsu=urn:x;i=2'', [(hierarchy_relationship_priority ''HasProperty'', ''ns=1;i=1'', ''HasProperty'')])]\<rparr>)"
  unfolding collect_edges_def plant_nodes
    by (simp add: edges_of_source_def plant_entries edge_step_def plant_nodes plant_ids plant_class relationship_name_of_def dict_append_def dict_get_def_def no_edges_def Let_def)


definition plant_planes :: planes where
  "plant_planes = choose_parents plant_sources (no_edges\<lparr>ed_composition := [(''property-nsu=urn:x;i=2'', [(hierarchy_relationship_priority ''HasProperty'', ''ns=1;i=1'', ''HasProperty'')])]\<rparr>)"

lemma plant_planes: "pl_namespaces plant_planes = []"
  "pl_composition_children plant_planes = [(''asset-nsu=urn:x;i=1'', [''property-nsu=urn:x;i=2'']), (''property-nsu=urn:x;i=2'', [])]"
  "pl_hierarchy_children plant_planes = [(''asset-nsu=urn:x;i=1'', []), (''property-nsu=urn:x;i=2'', [])]"
  by (simp_all add: plant_planes_def choose_parents_def choose_composition_parent_def initial_planes_def no_edges_def best_candidate_def
    mapped_id_def plant_nodes plant_ids dict_of_list_def dict_append_def dict_get_def_def Let_def)

lemma metadata_keys [simp]:
  "dict_get (mn_metadata (built S pl g (s, n))) ''uaNodeId'' = Some (PStr (oi_node_id n))"
  "dict_get (mn_metadata (built S pl g (s, n))) ''expandedNodeId'' = Some (PStr (identity_of S n))"
  by (simp_all add: build_node_def map_node_def node_metadata_def Let_def)

lemma assemble_total:
  assumes "\<And>s n. (s, n) \<in> set (so_nodes S) \<Longrightarrow> \<exists>c. canonical_node_id (oi_node_id n) (dict_get (so_uris S)) = Inr c"
    "\<And>s n. (s, n) \<in> set (so_nodes S) \<Longrightarrow> \<exists>c. canonical_node_id (identity_of S n) (dict_get (so_uris S)) = Inr c"
  shows "\<exists>m. assemble S pl g = Inr m"
proof -
  have "\<exists>r. add_element_keys (so_uris S) ix (built S pl g (s, n)) = Inr r" if "(s, n) \<in> set (so_nodes S)" for ix s n
  proof -
    have "\<nexists>e. add_element_keys (so_uris S) ix (built S pl g (s, n)) = Inl e"
      using assms [OF that] by (auto simp: add_element_keys_def Let_def split: if_splits prod.splits dest!: rbind_error)
    then show ?thesis by (cases "add_element_keys (so_uris S) ix (built S pl g (s, n))") simp_all
  qed
  then have "\<exists>r. element_indexes (so_uris S) (dict_values (dict_of_list (map (\<lambda>x. (mn_id x, x)) (map (built S pl g) (so_nodes S))))) = Inr r"
    unfolding element_indexes_def by (intro rfold_total) (auto dest!: subsetD [OF set_dict_of_list])
  then show ?thesis
    by (auto simp: assemble_def Let_def comp_def)
qed

lemma plant_canonical:
  "canonical_node_id ''ns=1;i=1'' (dict_get (so_uris plant_sources)) = Inr (Some ''nsu=urn:x;i=1'')"
  "canonical_node_id ''ns=1;i=2'' (dict_get (so_uris plant_sources)) = Inr (Some ''nsu=urn:x;i=2'')"
  "canonical_node_id ''nsu=urn:x;i=1'' (dict_get (so_uris plant_sources)) = Inr (Some ''nsu=urn:x;i=1'')"
  "canonical_node_id ''nsu=urn:x;i=2'' (dict_get (so_uris plant_sources)) = Inr (Some ''nsu=urn:x;i=2'')"
  by (simp_all add: plant_sources_def canonical_node_id_def ns_prefix_def ns_index_def match_identifier_def dot_tail_def
        normalize_node_identifier_def indexed_key_def py_int_of_digits_def str_defs nat_digits.simps Let_def)

lemma plant_identity: "identity_of plant_sources pump = ''nsu=urn:x;i=1''" "identity_of plant_sources speed = ''nsu=urn:x;i=2''"
  by code_simp+

lemma plant_build: "\<exists>m. build plant_env = Inr m
    \<and> br_composition_children_by_id m = [(''asset-nsu=urn:x;i=1'', [''property-nsu=urn:x;i=2'']), (''property-nsu=urn:x;i=2'', [])]
    \<and> ''property-nsu=urn:x;i=2'' \<in> set (targets_of (br_relationships_by_id m) ''asset-nsu=urn:x;i=1'' ''HasComponent'')"
proof -
  have g: "relation_ids_of (pl_namespaces plant_planes) = Inr \<lparr>gr_ids = [], gr_namespaces = [], gr_display_names = []\<rparr>"
    by (simp add: plant_planes relation_ids_of_def)
  have "\<exists>m. assemble plant_sources plant_planes \<lparr>gr_ids = [], gr_namespaces = [], gr_display_names = []\<rparr> = Inr m"
    by (rule assemble_total) (auto simp: plant_nodes pump_def speed_def opc_node_def
        plant_canonical plant_identity [unfolded pump_def speed_def opc_node_def])
  then obtain m where m: "assemble plant_sources plant_planes \<lparr>gr_ids = [], gr_namespaces = [], gr_display_names = []\<rparr> = Inr m" ..
  have "bw_browse_tree plant_env = Inr [pump, speed]" by (simp add: plant_env_def)
  then have "build plant_env = Inr m"
    using m g by (simp add: build_def build_from_sources_def plant_sources_eq plant_edges plant_planes_def)
  moreover have "(''asset-nsu=urn:x;i=1'', ''HasComponent'', ''property-nsu=urn:x;i=2'') \<in> edge_set (relationship_table plant_sources plant_planes related)" for related
    by (simp add: edge_set_table plant_planes paired_edges_def)
  then have "''property-nsu=urn:x;i=2'' \<in> set (targets_of (br_relationships_by_id m) ''asset-nsu=urn:x;i=1'' ''HasComponent'')"
    unfolding assemble_fields(4) [OF m] by (subst targets_of_merge) (auto simp: edge_set_def built_nodes_def)
  ultimately show ?thesis using assemble_fields(9) [OF m] by (simp add: plant_planes)
qed

lemma plant_tree: "bw_browse_tree plant_env = Inr [pump, speed]" "ids_distinct plant_sources" "acyclic (browse_parents [pump, speed])"
proof -
  show "bw_browse_tree plant_env = Inr [pump, speed]" by (simp add: plant_env_def)
  show "ids_distinct plant_sources" by (simp add: ids_distinct_def plant_nodes plant_ids)
  have "browse_parents [pump, speed] \<subseteq> {(''ns=1;i=2'', ''ns=1;i=1'')}"
    by (auto simp: browse_parents_def pump_def speed_def opc_node_def)
  then show "acyclic (browse_parents [pump, speed])" by (rule acyclic_subset [rotated]) (auto simp: acyclic_def elim: tranclE)
qed

theorem built_relationships_navigable_witness:
  "\<exists>m items ty. build plant_env = Inr m \<and> relationship_type_items (Some m) = Inr items \<and> ty \<in> set items
    \<and> ''property-nsu=urn:x;i=2'' \<in> set (targets_of (br_relationships_by_id m) ''asset-nsu=urn:x;i=1'' ''HasComponent'')
    \<and> rt_element_id ty = ''HasComponent''
    \<and> ''asset-nsu=urn:x;i=1'' \<in> set (targets_of (br_relationships_by_id m) ''property-nsu=urn:x;i=2'' (rt_reverse_of ty))"
proof -
  obtain m where m: "build plant_env = Inr m" "''property-nsu=urn:x;i=2'' \<in> set (targets_of (br_relationships_by_id m) ''asset-nsu=urn:x;i=1'' ''HasComponent'')"
    using plant_build by blast
  from built_relationships_navigable [OF m(1)] m show ?thesis by blast
qed

theorem built_parents_unique_witness:
  "\<exists>m. build plant_env = Inr m
    \<and> dict_get (br_composition_parent_by_id m) ''property-nsu=urn:x;i=2'' = Some ''asset-nsu=urn:x;i=1''
    \<and> set (targets_of (br_relationships_by_id m) ''property-nsu=urn:x;i=2'' ''ComponentOf'') = {''asset-nsu=urn:x;i=1''}"
proof -
  obtain m where m: "build plant_env = Inr m" "br_composition_children_by_id m = [(''asset-nsu=urn:x;i=1'', [''property-nsu=urn:x;i=2'']), (''property-nsu=urn:x;i=2'', [])]"
    using plant_build by blast
  note P = built_parents_unique [OF m(1)]
  have "''property-nsu=urn:x;i=2'' \<in> set (dict_get_def (br_composition_children_by_id m) ''asset-nsu=urn:x;i=1'' [])"
    by (simp add: m(2) dict_get_def_def)
  with P have c: "dict_get (br_composition_parent_by_id m) ''property-nsu=urn:x;i=2'' = Some ''asset-nsu=urn:x;i=1''" by blast
  from P have "set (targets_of (br_relationships_by_id m) ''property-nsu=urn:x;i=2'' ''ComponentOf'') =
      set_option (dict_get (br_composition_parent_by_id m) ''property-nsu=urn:x;i=2'')" by blast
  then have "set (targets_of (br_relationships_by_id m) ''property-nsu=urn:x;i=2'' ''ComponentOf'') = {''asset-nsu=urn:x;i=1''}"
    by (simp add: c)
  with m(1) c show ?thesis by blast
qed

theorem chosen_parent_is_least_witness:
  "\<exists>ed. collect_edges plant_sources = Inr ed
    \<and> dict_get (pl_composition_parent (choose_parents plant_sources ed)) ''property-nsu=urn:x;i=2'' = Some ''asset-nsu=urn:x;i=1''"
  using chosen_parent_is_least [OF plant_edges] by (simp add: plant_edges no_edges_def mapped_id_def plant_nodes plant_ids)

theorem built_lookup_exact_witness:
  "\<exists>m. build plant_env = Inr m \<and> find_model_node m ''property-nsu=urn:x;i=2'' \<noteq> None
    \<and> find_model_node m ''NS=1;I=2'' \<noteq> None \<and> find_model_node m ''speed'' = None"
proof -
  obtain m where m: "build plant_env = Inr m" using plant_build by blast
  have d: "ids_distinct (resolve_sources plant_env [pump, speed])" by (simp add: plant_sources_eq plant_tree(2))
  note L = built_lookup_exact [OF plant_tree(1) m d, unfolded plant_sources_eq]
  have fields: "kind_for_node pump = Asset" "kind_for_node speed = Property" "map_type pump Asset = None" "map_type speed Property = None"
    "oi_display_name pump = ''Pump''" "oi_display_name speed = ''Speed''"
    by (simp_all add: pump_def speed_def opc_node_def kind_for_node_def map_type_def)
  have lower: "py_lower ''NS=1;I=2'' = ''ns=1;i=2''" "py_lower ''ns=1;i=2'' = ''ns=1;i=2''" "py_lower ''ns=1;i=1'' = ''ns=1;i=1''"
    "py_lower ''speed'' = ''speed''"
    by code_simp+
  have "find_model_node m ''property-nsu=urn:x;i=2'' \<noteq> None" using L [of "[]"] by (auto simp: plant_nodes plant_ids)
  moreover have "find_model_node m ''NS=1;I=2'' \<noteq> None" using L [of "''NS=1;I=2''"] by (simp add: plant_nodes lower)
  moreover have "find_model_node m ''speed'' = None"
    using L [of "''speed''"] by (simp add: plant_nodes plant_ids fields lower)
  ultimately show ?thesis using m by blast
qed

theorem built_resolution_terminates_witness:
  "\<exists>m. build plant_env = Inr m \<and> resolve_monitored_node_ids [(''asset-nsu=urn:x;i=1'', 0)] m \<noteq> None
    \<and> monitored_sources m (''property-nsu=urn:x;i=2'', 0) = {''ns=1;i=2''}"
proof -
  obtain m where m: "build plant_env = Inr m" using plant_build by blast
  have d: "ids_distinct (resolve_sources plant_env [pump, speed])" by (simp add: plant_sources_eq plant_tree(2))
  note T = built_resolution_terminates [OF plant_tree(1) m d plant_tree(3), unfolded plant_sources_eq]
  have "kind_for_node speed = Property" by (simp add: speed_def opc_node_def kind_for_node_def)
  then have "monitored_sources m (''property-nsu=urn:x;i=2'', 0) = {''ns=1;i=2''}"
    using T [of "[]"] by (auto simp: plant_nodes plant_ids)
  moreover have "resolve_monitored_node_ids [(''asset-nsu=urn:x;i=1'', 0)] m \<noteq> None"
    using T [of "[(''asset-nsu=urn:x;i=1'', 0)]"] by (metis option.distinct(1))
  ultimately show ?thesis using m by blast
qed

theorem build_failures_witness:
  "build (plant_env\<lparr>bw_browse_tree := Inl (OtherError ''connection lost'')\<rparr>) = Inl (OtherError ''connection lost'')
    \<and> bw_browse_tree (plant_env\<lparr>bw_browse_tree := Inl (OtherError ''connection lost'')\<rparr>) = Inl (OtherError ''connection lost'')"
proof -
  have "build (plant_env\<lparr>bw_browse_tree := Inl (OtherError ''connection lost'')\<rparr>) = Inl (OtherError ''connection lost'')"
    by (simp add: build_def)
  with build_failures [OF this] show ?thesis by simp
qed

end
