(* ===== verification/BuilderEdges.thy ===== *)
theory BuilderEdges
  imports BuilderIndex
begin

text \<open>
  From browsed references to relationships: no reference between browsed nodes is lost on the way
  through the stages of the build, except compositions of an element that already has an owner.
\<close>

section \<open>Collected edges\<close>







section \<open>Graph entries\<close>










section \<open>Properties\<close>



end
