(* ===== verification/ProfileProps.thy ===== *)
theory ProfileProps
  imports Profiles
begin

text \<open>
  Properties of the classification of references: with the generic profile it is the documented
  mapping (\<open>docs/OPCUA_I3X_MAPPING_PROFILE.md\<close>, "OPC UA to i3X Relationship Mapping") on every
  lineage with a known root, and where the code departs from that document.
\<close>

section \<open>The documented classification\<close>



lemma generic_tokens:
  "map token (sp_graph_references GENERIC_PROFILE) = [''nonhierarchicalreferences'', ''generatesevent'', ''haseventsource'']"
  "map token (sp_hierarchy_references GENERIC_PROFILE) = [''organizes'', ''haschild'', ''hierarchicalreferences'']"
  "map token (sp_composition_references GENERIC_PROFILE) = [''hascomponent'', ''hasorderedcomponent'', ''hasproperty'', ''propertyof'']"
  by code_simp+

lemma hits_simps [simp]: "hits ts [] = False" "hits ts (n # ns) = (n \<in> set ts \<or> hits ts ns)"
  by (auto simp: hits_iff)





section \<open>Departures from the document\<close>

lemma takeWhile_absent: "c \<notin> set s \<Longrightarrow> takeWhile (\<lambda>x. x \<noteq> c) s = s"
  by (induction s) auto

lemma after_last_absent: "c \<notin> set s \<Longrightarrow> after_last c s = s"
  by (simp add: after_last_def takeWhile_absent)

lemma after_last_append: "c \<notin> set b \<Longrightarrow> after_last c (a @ c # b) = b"
proof -
  assume "c \<notin> set b"
  then have "takeWhile (\<lambda>x. x \<noteq> c) (rev b @ c # rev a) = rev b"
    by (subst takeWhile_append2) (auto simp: takeWhile_absent)
  then show ?thesis by (simp add: after_last_def)
qed

lemma token_indexed:
  assumes "list_all py_isdecimal d" "list_all py_isdecimal i" "i \<noteq> []"
  shows "token (''ns='' @ d @ '';i='' @ i) = CHR ''i'' # i"
proof -
  let ?s = "''ns='' @ d @ '';i='' @ i"
  have dec: "py_lower_char c = c" "\<not> py_isspace c" "py_isalnum c" "c \<noteq> CHR '';''" "c \<noteq> CHR ''/''" "c \<noteq> CHR '':''"
    if "py_isdecimal c" for c
    using that by (auto simp: py_isdecimal_def py_lower_char_def py_isspace_def py_isalnum_def Let_def)
  have mem: "c \<in> set ?s \<Longrightarrow> py_isdecimal c \<or> c \<in> set ''ns=;i''" for c
    using assms by (auto simp: list_all_iff)
  have lower: "py_lower_char c = c" if "c \<in> set ''ns=;i''" for c
    using that by (auto simp: py_lower_char_def)
  have absent: "c \<notin> set ?s" if "c = CHR ''/'' \<or> c = CHR '':''" for c
  proof -
    have "\<not> py_isdecimal c" using dec(5,6) [of c] that by blast
    with mem [of c] that show ?thesis by auto
  qed
  have "\<not> py_isspace (hd ?s)" by (simp add: py_isspace_def)
  moreover have "\<not> py_isspace (last ?s)"
    using assms(2,3) dec(2) by (simp add: list_all_iff)
  ultimately have "py_strip ?s = ?s" unfolding py_strip_def by (intro strip_if_fix) auto
  moreover have "py_lower ?s = ?s"
    unfolding py_lower_def by (rule map_idI) (use mem lower dec(1) in blast)
  moreover have "after_last CHR '';'' ?s = ''i='' @ i"
    using after_last_append [of "CHR '';''" "''i='' @ i" "''ns='' @ d"] assms(2) dec(4) by (auto simp: list_all_iff)
  moreover have "filter py_isalnum i = i" using assms(2) dec(3) by (simp add: list_all_iff)
  moreover have "py_isalnum CHR ''i''" "\<not> py_isalnum CHR ''=''" by (simp_all add: py_isalnum_def)
  ultimately show ?thesis using absent by (simp add: normalize_token_def after_last_absent)
qed

text \<open>
  The namespace of a reference type is ignored: a vendor reference type below Organizes is mapped
  to Composition, instead of the Hierarchy the document gives to it, as soon as its numeric
  identifier happens to be 46, in whatever namespace; with any other identifier that the code has
  no rule for it is Hierarchy.
\<close>

theorem vendor_reference_mistaken_for_has_property:
  assumes "list_all py_isdecimal d"
  shows "classify_opcua_reference_with_confidence (Some (''ns='' @ d @ '';i=46'')) (Some ''Feeds'')
      (Some [''Organizes'', ''HierarchicalReferences'']) target_class (Some [GENERIC_PROFILE]) = (Composition, Medium)
    \<and> classify_opcua_reference_with_confidence (Some (''ns='' @ d @ '';i=4001'')) (Some ''Feeds'')
      (Some [''Organizes'', ''HierarchicalReferences'']) target_class (Some [GENERIC_PROFILE]) = (Hierarchy, High)"
proof -
  have t: "token (''ns='' @ d @ '';i=46'') = ''i46''" "token (''ns='' @ d @ '';i=4001'') = ''i4001''"
    using token_indexed [OF assms, of "''46''"] token_indexed [OF assms, of "''4001''"]
    by (simp_all add: py_isdecimal_def)
  have n: "token ''Feeds'' = ''feeds''" "token ''Organizes'' = ''organizes''" "token ''HierarchicalReferences'' = ''hierarchicalreferences''"
    by code_simp+
  have "lineage_tokens (Some (''ns='' @ d @ '';i=46'')) (Some ''Feeds'') (Some [''Organizes'', ''HierarchicalReferences'']) =
      [''i46'', ''feeds'', ''organizes'', ''hierarchicalreferences'']"
    "lineage_tokens (Some (''ns='' @ d @ '';i=4001'')) (Some ''Feeds'') (Some [''Organizes'', ''HierarchicalReferences'']) =
      [''i4001'', ''feeds'', ''organizes'', ''hierarchicalreferences'']"
    unfolding lineage_tokens_def t n by (simp_all add: n)
  then show ?thesis
    by (simp add: classify_opcua_reference_with_confidence_def generic_tokens class_confidence_def
        nonhierarchical_root_def GRAPH_NAMES_def classify_hierarchical_family_def Let_def)
qed

theorem vendor_reference_mistaken_for_has_property_witness:
  "classify_opcua_reference_with_confidence (Some ''ns=5;i=46'') (Some ''Feeds'')
      (Some [''Organizes'', ''HierarchicalReferences'']) (Some ''Object'') (Some [GENERIC_PROFILE]) = (Composition, Medium)"
  using vendor_reference_mistaken_for_has_property [of "''5''" "Some ''Object''"] by (simp add: py_isdecimal_def)

text \<open>
  HasSubtype is type metadata only when no profile is active: with the default generic profile,
  which is always active in a build, a HasSubtype reference with its lineage resolved becomes a
  hierarchical relationship, and HasTypeDefinition a graph relationship.
\<close>

theorem type_metadata_becomes_relationship:
  "classify_opcua_reference (Some ''i=45'') (Some ''HasSubtype'') (Some [''HasChild'', ''HierarchicalReferences'']) target_class = TypeMeta
    \<and> classify_opcua_reference (Some ''i=40'') (Some ''HasTypeDefinition'') (Some [''NonHierarchicalReferences'']) target_class = TypeMeta
    \<and> fst (classify_opcua_reference_with_confidence (Some ''i=45'') (Some ''HasSubtype'')
        (Some [''HasChild'', ''HierarchicalReferences'']) target_class (Some [GENERIC_PROFILE])) = Hierarchy
    \<and> fst (classify_opcua_reference_with_confidence (Some ''i=40'') (Some ''HasTypeDefinition'')
        (Some [''NonHierarchicalReferences'']) target_class (Some [GENERIC_PROFILE])) = Graph"
proof -
  have l: "lineage_tokens (Some ''i=45'') (Some ''HasSubtype'') (Some [''HasChild'', ''HierarchicalReferences'']) =
      [''i45'', ''hassubtype'', ''haschild'', ''hierarchicalreferences'']"
    "lineage_tokens (Some ''i=40'') (Some ''HasTypeDefinition'') (Some [''NonHierarchicalReferences'']) =
      [''i40'', ''hastypedefinition'', ''nonhierarchicalreferences'']"
    by code_simp+
  show ?thesis
    by (simp add: classify_opcua_reference_def classify_opcua_reference_with_confidence_def l generic_tokens
        class_confidence_def TYPE_META_NAMES_def nonhierarchical_root_def hierarchical_root_def HIERARCHY_NAMES_def GRAPH_NAMES_def
        classify_hierarchical_family_def Let_def)
qed

end
