(* ===== verification/ModelAccess.thy ===== *)
theory ModelAccess
  imports Model "HOL-Library.Product_Lexorder"
begin

text \<open>
  The cached model access tools of the MCP server, \<open>i3x_server/mcp/model_access.py\<close>: the index over
  a model (\<open>_ModelAccessIndex\<close> in \<open>i3x_server/schemas/state.py\<close>), browse paths, instances of types,
  children, composition properties and searches, each answered in pages.

  The JSON schema validation of the arguments is the library's: the arguments arrive with their
  types here, optional ones as the defaults the code fills in. A Python set of ids is a
  duplicate-free list. The index is cached on the model object, so it is a state of its own here.
\<close>

section \<open>Case folding and order\<close>

text \<open>\<open>str.casefold\<close> on the range: lower case, and the sharp s as two letters.\<close>

definition py_casefold :: "string \<Rightarrow> string" where
  "py_casefold s = concat (map (\<lambda>c. if c = CHR 0xDF then ''ss'' else [py_lower_char c]) s)"

text \<open>\<open>model.nodes_by_id[i].name\<close>; it is only asked for ids of the model.\<close>

definition name_of :: "BuildResult \<Rightarrow> string \<Rightarrow> string" where
  "name_of m i = (case node_of m i of None \<Rightarrow> [] | Some n \<Rightarrow> mn_name n)"

definition sorted_ids :: "BuildResult \<Rightarrow> string list \<Rightarrow> string list" where
  "sorted_ids m ids = sort_key (\<lambda>i. (py_casefold (name_of m i), i)) (remdups ids)"

definition known :: "BuildResult \<Rightarrow> string \<Rightarrow> bool" where
  "known m i = (node_of m i \<noteq> None)"

text \<open>\<open>a or b\<close> on optional strings: the empty string is false.\<close>

definition or_else :: "string option \<Rightarrow> string option \<Rightarrow> string option" where
  "or_else a b = (case a of None \<Rightarrow> b | Some s \<Rightarrow> if s \<noteq> [] then Some s else b)"

section \<open>The index\<close>

datatype plane = PlaneHierarchy | PlaneComposition | PlaneGraph

record access_index =
  ai_revision :: string
  ai_ordered_ids :: "string list"
  ai_namespaces :: "(string, string list) dict"
  ai_roles :: "(SemanticRole, string list) dict"
  ai_name_grams :: "(string, string list) dict"
  ai_children_by_plane :: "(plane, (string, string list) dict) dict"
  ai_path_children :: "(string option, (string, string list) dict) dict option"
  ai_type_context_token :: "nat option"
  ai_direct_instances :: "(string, string list) dict"
  ai_subtype_instances :: "(string, string list) dict"

text \<open>The substrings of length three.\<close>

fun grams :: "string \<Rightarrow> string list" where
  "grams (a # b # c # r) = [a, b, c] # grams (b # c # r)"
| "grams _ = []"

definition namespace_of :: "BuildResult \<Rightarrow> string \<Rightarrow> string option" where
  "namespace_of m i =
     (let meta = (case node_of m i of None \<Rightarrow> None
                  | Some n \<Rightarrow> (case dict_get (mn_metadata n) ''namespaceUri'' of Some (PStr u) \<Rightarrow> Some u | _ \<Rightarrow> None))
      in case dict_get (br_namespace_uri_by_id m) i of
           Some (Some u) \<Rightarrow> if u \<noteq> [] then Some u else meta
         | _ \<Rightarrow> meta)"

definition role_of :: "BuildResult \<Rightarrow> string \<Rightarrow> SemanticRole" where
  "role_of m i =
     dict_get_def (br_semantic_role_by_id m) i
       (case node_of m i of None \<Rightarrow> RoleUnknown | Some n \<Rightarrow> mn_semantic_role n)"

text \<open>\<open>d.setdefault(k, set()).add(x)\<close>.\<close>

definition dict_add :: "'k \<Rightarrow> 'x \<Rightarrow> ('k, 'x list) dict \<Rightarrow> ('k, 'x list) dict" where
  "dict_add k x d = dict_set k (set_add x (dict_get_def d k [])) d"

definition index_step :: "BuildResult \<Rightarrow> access_index \<Rightarrow> string \<Rightarrow> access_index" where
  "index_step m ix i =
     ix\<lparr>ai_namespaces := (case namespace_of m i of None \<Rightarrow> ai_namespaces ix
                          | Some u \<Rightarrow> dict_append u i (ai_namespaces ix)),
        ai_roles := dict_append (role_of m i) i (ai_roles ix),
        ai_name_grams := foldl (\<lambda>d g. dict_add g i d) (ai_name_grams ix) (remdups (grams (py_casefold (name_of m i))))\<rparr>"

definition sorted_children :: "BuildResult \<Rightarrow> (string, string list) dict \<Rightarrow> (string, string list) dict" where
  "sorted_children m d = map (\<lambda>(parent, children). (parent, sorted_ids m (filter (known m) children))) d"

definition build_index :: "BuildResult \<Rightarrow> string \<Rightarrow> access_index" where
  "build_index m revision =
     (let ordered = sorted_ids m (dict_keys (br_nodes_by_id m));
          ix = foldl (index_step m)
            \<lparr>ai_revision = revision, ai_ordered_ids = ordered, ai_namespaces = [], ai_roles = [], ai_name_grams = [],
             ai_children_by_plane = [], ai_path_children = None, ai_type_context_token = None,
             ai_direct_instances = [], ai_subtype_instances = []\<rparr> ordered
      in ix\<lparr>ai_children_by_plane :=
              [(PlaneHierarchy, sorted_children m (br_hierarchy_children_by_id m)),
               (PlaneComposition, sorted_children m (br_composition_children_by_id m)),
               (PlaneGraph, sorted_children m (map (\<lambda>(p, es). (p, map snd es)) (br_graph_related_by_id m)))]\<rparr>)"

definition index_of :: "BuildResult \<Rightarrow> string \<Rightarrow> access_index option \<Rightarrow> access_index" where
  "index_of m revision cache =
     (case cache of
        Some ix \<Rightarrow> if ai_revision ix = revision then ix else build_index m revision
      | None \<Rightarrow> build_index m revision)"

section \<open>Browse paths\<close>

definition require_element :: "BuildResult \<Rightarrow> string \<Rightarrow> unit result" where
  "require_element m i =
     (if known m i then Inr () else Inl (HTTPException 404 (''Model element not found: '' @ i)))"

definition canonical_parent :: "BuildResult \<Rightarrow> string \<Rightarrow> string option" where
  "canonical_parent m i =
     or_else (dict_get (br_hierarchy_parent_by_id m) i)
       (or_else (case dict_get (br_parent_id_by_id m) i of None \<Rightarrow> None | Some p \<Rightarrow> p)
         (or_else (dict_get (br_composition_parent_by_id m) i)
           (case node_of m i of None \<Rightarrow> None | Some n \<Rightarrow> mn_parent_id n)))"

definition chain_error :: exn where
  "chain_error = HTTPException 500 ''Canonical parent chain contains a cycle or missing element''"

text \<open>
  The walk up from an element, until the root or a validated element: an element seen on the way
  or missing in the model is an error. The walk ends because every step visits a new node.
\<close>

function chain_walk ::
  "BuildResult \<Rightarrow> (string \<Rightarrow> string option) \<Rightarrow> string list \<Rightarrow> string list \<Rightarrow> string option \<Rightarrow> string list result" where
  "chain_walk m parent validated chain current =
     (case current of
        None \<Rightarrow> Inr chain
      | Some i \<Rightarrow>
          if i \<in> set validated then Inr chain
          else if \<not> known m i \<or> i \<in> set chain then Inl chain_error
          else chain_walk m parent validated (chain @ [i]) (parent i))"
  by pat_completeness auto

termination chain_walk
proof (relation "measure (\<lambda>(m, parent, validated, chain, current).
    length (filter (\<lambda>k. k \<notin> set chain) (dict_keys (br_nodes_by_id m))))")
qed (auto simp: known_def unmarked_keys_less [simplified])

declare chain_walk.simps [simp del]

definition validate_parent_chains :: "BuildResult \<Rightarrow> (string, string option) dict \<Rightarrow> unit result" where
  "validate_parent_chains m parents =
     rbind (rfold (\<lambda>validated i.
              rbind (chain_walk m (\<lambda>k. dict_get_def parents k None) validated [] (Some i))
                (\<lambda>chain. Inr (set_union validated chain)))
            [] (dict_keys (br_nodes_by_id m)))
       (\<lambda>validated. Inr ())"

text \<open>The names from the root down. (No caller passes known prefixes.)\<close>

definition segments_of :: "BuildResult \<Rightarrow> string \<Rightarrow> string list result" where
  "segments_of m i =
     rbind (chain_walk m (canonical_parent m) [] [] (Some i)) (\<lambda>chain. Inr (map (name_of m) (rev chain)))"

definition add_path_child ::
  "BuildResult \<Rightarrow> (string option, (string, string list) dict) dict \<Rightarrow> string
   \<Rightarrow> (string option, (string, string list) dict) dict" where
  "add_path_child m d i =
     (let p = canonical_parent m i in dict_set p (dict_append (name_of m i) i (dict_get_def d p [])) d)"

definition path_children ::
  "BuildResult \<Rightarrow> access_index \<Rightarrow> (string option, (string, string list) dict) dict result" where
  "path_children m ix =
     (case ai_path_children ix of
        Some d \<Rightarrow> Inr d
      | None \<Rightarrow>
          rbind (validate_parent_chains m (dict_of_list (map (\<lambda>i. (i, canonical_parent m i)) (ai_ordered_ids ix))))
            (\<lambda>u. Inr (foldl (add_path_child m) [] (ai_ordered_ids ix))))"

text \<open>One segment narrows the candidates; the loop stops at a segment without match.\<close>

definition path_step ::
  "(string option, (string, string list) dict) dict \<Rightarrow> string option list \<Rightarrow> string \<Rightarrow> string list" where
  "path_step pc parents segment = concat (map (\<lambda>p. dict_get_def (dict_get_def pc p []) segment []) parents)"

fun path_matches ::
  "(string option, (string, string list) dict) dict \<Rightarrow> string option list \<Rightarrow> string list \<Rightarrow> string list
   \<Rightarrow> string list" where
  "path_matches pc parents matches [] = matches"
| "path_matches pc parents matches (s # ss) =
     (let found = path_step pc parents s in
      if found = [] then [] else path_matches pc (map Some found) found ss)"

section \<open>Pages\<close>

record page =
  pg_total :: nat
  pg_returned :: nat
  pg_offset :: nat
  pg_next_offset :: "nat option"
  pg_items :: "(string \<times> string) list"

definition page_of :: "BuildResult \<Rightarrow> string list \<Rightarrow> nat \<Rightarrow> nat \<Rightarrow> page" where
  "page_of m ordered offset limit =
     (let ids = take limit (drop offset ordered) in
      \<lparr>pg_total = length ordered, pg_returned = length ids, pg_offset = offset,
       pg_next_offset = (if offset + length ids < length ordered then Some (offset + length ids) else None),
       pg_items = map (\<lambda>i. (i, name_of m i)) ids\<rparr>)"

section \<open>Instances of types\<close>

record type_context =
  tc_token :: nat
  tc_revision :: string
  tc_namespace_infos :: "OpcUaNamespaceInfo list"
  tc_object_types :: "(string \<times> string option) list"
  tc_items :: "(string \<times> string) list"
  tc_element_ids_by_node_id :: "(string, string) dict"
  tc_source_type_to_element_id :: "(string, string) dict"

text \<open>
  \<open>tc_token\<close> stands for the identity of the context object. An object type is its node id and its
  parent, an item its element id and its source type id.
\<close>

definition type_aliases :: "type_context \<Rightarrow> (string, string) dict" where
  "type_aliases ctx =
     dict_merge (dict_merge (dict_merge (dict_of_list (map (\<lambda>(e, s). (e, e)) (tc_items ctx)))
       (map (\<lambda>(e, s). (s, e)) (tc_items ctx))) (tc_element_ids_by_node_id ctx)) (tc_source_type_to_element_id ctx)"

definition resolve_type_id :: "type_context \<Rightarrow> string \<Rightarrow> string option" where
  "resolve_type_id ctx source =
     (let aliases = type_aliases ctx in
      case or_else (dict_get aliases source) (dict_get aliases (py_lower source)) of
        Some t \<Rightarrow> Some t
      | None \<Rightarrow>
          (let x = expanded_node_id source (tc_namespace_infos ctx)
           in or_else (dict_get aliases x) (dict_get aliases (py_lower x))))"

definition type_parents :: "type_context \<Rightarrow> (string, string) dict" where
  "type_parents ctx =
     foldl (\<lambda>d (node_id, parent).
        case (resolve_type_id ctx node_id,
              case parent of None \<Rightarrow> None | Some p \<Rightarrow> if p = [] then None else resolve_type_id ctx p) of
          (Some c, Some p) \<Rightarrow> dict_set c p d
        | _ \<Rightarrow> d) [] (tc_object_types ctx)"

definition is_instance :: "BuildResult \<Rightarrow> string \<Rightarrow> bool" where
  "is_instance m i = (case node_of m i of None \<Rightarrow> False | Some n \<Rightarrow> mn_kind n \<in> {Asset, EventSource})"

definition instances_from_index ::
  "BuildResult \<Rightarrow> type_context \<Rightarrow> (string, string list) dict \<Rightarrow> (string, string list) dict" where
  "instances_from_index m ctx direct =
     foldl (\<lambda>d (source, instances).
        case resolve_type_id ctx source of
          None \<Rightarrow> d
        | Some t \<Rightarrow> (case dict_get d t of None \<Rightarrow> d
            | Some ids \<Rightarrow> dict_set t (set_union ids (filter (is_instance m) instances)) d))
       direct (br_instances_by_type_id m)"

definition node_type_id :: "type_context \<Rightarrow> ModelNode \<Rightarrow> string option" where
  "node_type_id ctx n =
     or_else (resolve_type_id ctx (case mn_source_type_id n of None \<Rightarrow> [] | Some s \<Rightarrow> s))
       (resolve_type_id ctx (case mn_type n of None \<Rightarrow> [] | Some t \<Rightarrow> t))"

definition instances_from_nodes ::
  "BuildResult \<Rightarrow> type_context \<Rightarrow> (string, string list) dict \<Rightarrow> (string, string list) dict" where
  "instances_from_nodes m ctx direct =
     foldl (\<lambda>d n.
        if mn_kind n \<notin> {Asset, EventSource} then d
        else case node_type_id ctx n of
          None \<Rightarrow> d
        | Some t \<Rightarrow> (case dict_get d t of None \<Rightarrow> d | Some ids \<Rightarrow> dict_set t (set_add (mn_id n) ids) d))
       direct (dict_values (br_nodes_by_id m))"

definition direct_instances :: "BuildResult \<Rightarrow> type_context \<Rightarrow> (string, string list) dict" where
  "direct_instances m ctx =
     instances_from_nodes m ctx (instances_from_index m ctx (dict_of_list (map (\<lambda>(e, s). (e, [])) (tc_items ctx))))"

text \<open>The ancestors of a type; a type met again is a cycle.\<close>

function type_ancestors ::
  "(string, string) dict \<Rightarrow> string list \<Rightarrow> string option \<Rightarrow> string list result" where
  "type_ancestors parents visited current =
     (case current of
        None \<Rightarrow> Inr []
      | Some p \<Rightarrow>
          if p \<in> set visited then Inl (HTTPException 500 ''Object type hierarchy contains a cycle'')
          else rbind (type_ancestors parents (visited @ [p]) (dict_get parents p)) (\<lambda>ps. Inr (p # ps)))"
  by pat_completeness auto

termination type_ancestors
proof (relation "measure (\<lambda>(parents, visited, current). (case current of None \<Rightarrow> 0
    | Some _ \<Rightarrow> Suc (length (filter (\<lambda>k. k \<notin> set visited) (dict_keys parents)))))", goal_cases)
  case (2 parents visited current p)
  then show ?case
    by (cases "dict_get parents p") (use unmarked_keys_less [of parents p visited] in auto)
qed simp

declare type_ancestors.simps [simp del]

definition subtype_step ::
  "(string, string) dict \<Rightarrow> (string, string list) dict \<Rightarrow> string \<times> string list \<Rightarrow> (string, string list) dict result" where
  "subtype_step parents expanded entry =
     (let (t, ids) = entry in
      rbind (type_ancestors parents [t] (dict_get parents t)) (\<lambda>ps. Inr
        (foldl (\<lambda>d p. dict_set p (set_union (dict_get_def d p []) ids) d) expanded ps)))"

text \<open>The two type indexes; a cycle in the type hierarchy leaves the index as it was.\<close>

definition type_indexes :: "BuildResult \<Rightarrow> access_index \<Rightarrow> type_context \<Rightarrow> access_index result" where
  "type_indexes m ix ctx =
     (if ai_type_context_token ix = Some (tc_token ctx) then Inr ix
      else (let direct = direct_instances m ctx in
        rbind (rfold (subtype_step (type_parents ctx)) direct direct) (\<lambda>expanded. Inr
          (ix\<lparr>ai_direct_instances := map (\<lambda>(t, ids). (t, sorted_ids m ids)) direct,
              ai_subtype_instances := map (\<lambda>(t, ids). (t, sorted_ids m ids)) expanded,
              ai_type_context_token := Some (tc_token ctx)\<rparr>))))"

section \<open>Composition properties\<close>

text \<open>
  The stack of pending ids below a root; an id visited before or unknown to the model is dropped.
  The loop ends: a step visits a new node or shortens the stack.
\<close>

function composition_loop ::
  "BuildResult \<Rightarrow> string list \<Rightarrow> string list \<Rightarrow> string list \<Rightarrow> string list" where
  "composition_loop m pending visited props =
     (if pending = [] then props
      else (let i = last pending; rest = butlast pending in
        if i \<in> set visited \<or> \<not> known m i then composition_loop m rest visited props
        else composition_loop m (rest @ dict_get_def (br_composition_children_by_id m) i []) (i # visited)
               (if (case node_of m i of Some n \<Rightarrow> mn_kind n = Property | None \<Rightarrow> False)
                then set_add i props else props)))"
  by pat_completeness auto

termination composition_loop
proof (relation "measures [\<lambda>(m, pending, visited, props).
      length (filter (\<lambda>k. k \<notin> set visited) (dict_keys (br_nodes_by_id m))), \<lambda>(m, pending, visited, props). length pending]",
    goal_cases)
  case (2 m pending visited props)
  then show ?case by simp
next
  case (3 m pending visited props i rest)
  then show ?case using unmarked_keys_less [of "br_nodes_by_id m" i visited] by (simp add: known_def)
qed simp

declare composition_loop.simps [simp del]

definition composition_properties :: "BuildResult \<Rightarrow> string \<Rightarrow> string list" where
  "composition_properties m start =
     composition_loop m (dict_get_def (br_composition_children_by_id m) start []) [start] []"

section \<open>The tools\<close>

text \<open>The arguments of the tools; \<open>offset\<close> and \<open>limit\<close> come last.\<close>

datatype access_call =
    GetBrowsePath string
  | ResolvePath string
  | ResolveSegments "string list"
  | GetInstancesOfType string "string option" bool nat nat
  | GetChildren string plane nat nat
  | GetCompositionProperties "string list" nat nat
  | FindElementsByName string nat nat
  | FindElementsByNamespace string nat nat
  | FindElementsByRole SemanticRole nat nat

datatype access_result =
    BrowsePath string "string list"
  | PathFound string string NodeKind
  | PathNotFound
  | PageResult page
  | TypePage page string
  | PropertyPages "(string \<times> page) list"

text \<open>\<open>validate_model_access_arguments\<close>: what the code checks itself.\<close>

definition check_arguments :: "access_call \<Rightarrow> unit result" where
  "check_arguments call =
     (case call of
        ResolvePath p \<Rightarrow>
          if list_ex (\<lambda>s. py_strip s = []) (split_on CHR ''/'' p)
          then Inl (HTTPException 400 ''path must contain non-empty slash-separated segments'') else Inr ()
      | _ \<Rightarrow> Inr ())"

definition resolve_segments ::
  "BuildResult \<Rightarrow> access_index \<Rightarrow> string list \<Rightarrow> access_result result \<times> access_index" where
  "resolve_segments m ix segments =
     (case path_children m ix of
        Inl e \<Rightarrow> (Inl e, ix)
      | Inr pc \<Rightarrow>
          ((case path_matches pc [None] [] segments of
              [] \<Rightarrow> Inr PathNotFound
            | [i] \<Rightarrow>
                (case node_of m i of
                   None \<Rightarrow> Inl (KeyError i)
                 | Some n \<Rightarrow> Inr (PathFound (mn_id n) (mn_name n) (mn_kind n)))
            | _ \<Rightarrow> Inl (HTTPException 409 ''Browse path matches multiple elements; use an elementId'')),
           ix\<lparr>ai_path_children := Some pc\<rparr>))"

definition instances_of_type ::
  "BuildResult \<Rightarrow> access_index \<Rightarrow> type_context option \<Rightarrow> string \<Rightarrow> string option \<Rightarrow> bool \<Rightarrow> nat \<Rightarrow> nat
   \<Rightarrow> access_result result \<times> access_index" where
  "instances_of_type m ix context type_id requested subtypes offset limit =
     (case context of
        None \<Rightarrow> (Inl (HTTPException 503 ''Revision-matched cached object type context is unavailable''), ix)
      | Some ctx \<Rightarrow>
          if offset > 0 \<and> requested = None
          then (Inl (HTTPException 400 ''typeContextRevision is required when offset is greater than 0''), ix)
          else if requested \<noteq> None \<and> requested \<noteq> Some (tc_revision ctx)
          then (Inl (HTTPException 409 ''Object type context changed; restart pagination from offset 0''), ix)
          else case type_indexes m ix ctx of
            Inl e \<Rightarrow> (Inl e, ix)
          | Inr ix' \<Rightarrow>
              (if dict_get (ai_direct_instances ix') type_id = None
               then Inl (HTTPException 404 (''Object type not found: '' @ type_id))
               else case dict_get (if subtypes then ai_subtype_instances ix' else ai_direct_instances ix') type_id of
                 None \<Rightarrow> Inl (KeyError type_id)
               | Some ids \<Rightarrow> Inr (TypePage (page_of m ids offset limit) (tc_revision ctx)), ix'))"

definition check_root :: "BuildResult \<Rightarrow> string \<Rightarrow> unit result" where
  "check_root m start =
     rbind (require_element m start) (\<lambda>u.
       if (case node_of m start of Some n \<Rightarrow> mn_kind n = Property | None \<Rightarrow> False)
       then Inl (HTTPException 400 ''elementIds must identify objects, not properties'') else Inr ())"

definition find_by_name :: "BuildResult \<Rightarrow> access_index \<Rightarrow> string \<Rightarrow> string list" where
  "find_by_name m ix query =
     (let text = py_casefold query;
          candidates = (case remdups (grams text) of
              [] \<Rightarrow> ai_ordered_ids ix
            | g # gs \<Rightarrow> filter (\<lambda>i. list_all (\<lambda>h. i \<in> set (dict_get_def (ai_name_grams ix) h [])) gs)
                          (dict_get_def (ai_name_grams ix) g []))
      in sorted_ids m (filter (\<lambda>i. is_substring text (py_casefold (name_of m i))) candidates))"

definition dispatch_indexed ::
  "BuildResult \<Rightarrow> access_index \<Rightarrow> type_context option \<Rightarrow> access_call \<Rightarrow> access_result result \<times> access_index" where
  "dispatch_indexed m ix context call =
     (case call of
        ResolvePath p \<Rightarrow> resolve_segments m ix (split_on CHR ''/'' p)
      | ResolveSegments ss \<Rightarrow> resolve_segments m ix ss
      | GetInstancesOfType t requested subtypes offset limit \<Rightarrow>
          instances_of_type m ix context t requested subtypes offset limit
      | GetChildren i plane offset limit \<Rightarrow>
          (rbind (require_element m i) (\<lambda>u. Inr
             (PageResult (page_of m (dict_get_def (dict_get_def (ai_children_by_plane ix) plane []) i []) offset limit))), ix)
      | GetCompositionProperties roots offset limit \<Rightarrow>
          (rbind (rmap (check_root m) roots) (\<lambda>us. Inr
             (PropertyPages (map (\<lambda>start. (start, page_of m (sorted_ids m (composition_properties m start)) offset limit))
                (sorted_ids m roots)))), ix)
      | FindElementsByName text offset limit \<Rightarrow>
          (Inr (PageResult (page_of m (find_by_name m ix text) offset limit)), ix)
      | FindElementsByNamespace uri offset limit \<Rightarrow>
          (Inr (PageResult (page_of m (dict_get_def (ai_namespaces ix) uri []) offset limit)), ix)
      | FindElementsByRole role offset limit \<Rightarrow>
          (Inr (PageResult (page_of m (dict_get_def (ai_roles ix) role []) offset limit)), ix)
      | GetBrowsePath i \<Rightarrow> (Inl (HTTPException 400 ''Unknown cached model access tool: getBrowsePath''), ix))"

text \<open>A call: the answer or the exception, and the cached index afterwards.\<close>

definition invoke_model_access_tool ::
  "BuildResult \<Rightarrow> string \<Rightarrow> type_context option \<Rightarrow> access_call \<Rightarrow> access_index option
   \<Rightarrow> access_result result \<times> access_index option" where
  "invoke_model_access_tool m revision context call cache =
     (case call of
        GetBrowsePath i \<Rightarrow>
          (rbind (require_element m i) (\<lambda>u. rbind (segments_of m i) (\<lambda>ss.
             Inr (BrowsePath (join_with ''/'' ss) ss))), cache)
      | _ \<Rightarrow>
          (let (r, ix) = dispatch_indexed m (index_of m revision cache) context call in (r, Some ix)))"

end
