(* ===== verification/ModelAccessProps.thy ===== *)
theory ModelAccessProps
  imports ModelAccess Resolve
begin

text \<open>
  Properties of the model access tools: the search by name is a plain substring search, browse
  paths lead back to their elements, pages cover a list without gaps, the composition properties
  are those reachable from an object, and the cached index changes no answer.
\<close>

section \<open>Sorted ids\<close>

lemma set_sorted_ids [simp]: "set (sorted_ids m ids) = set ids"
  by (simp add: sorted_ids_def)

lemma distinct_sorted_ids [simp]: "distinct (sorted_ids m ids)"
  by (simp add: sorted_ids_def)

text \<open>The order is decided by the key, which contains the id: it depends on the set of ids only.\<close>

lemma sorted_ids_cong:
  assumes "set a = set b"
  shows "sorted_ids m a = sorted_ids m b"
proof -
  let ?k = "\<lambda>i. (py_casefold (name_of m i), i)"
  have inj: "inj_on ?k A" for A by (auto simp: inj_on_def)
  have "map ?k (sorted_ids m a) = map ?k (sorted_ids m b)"
  proof (rule sorted_distinct_set_unique)
    show "sorted (map ?k (sorted_ids m a))" "sorted (map ?k (sorted_ids m b))"
      by (simp_all add: sorted_ids_def)
    show "distinct (map ?k (sorted_ids m a))" "distinct (map ?k (sorted_ids m b))"
      by (simp_all add: distinct_map inj)
    show "set (map ?k (sorted_ids m a)) = set (map ?k (sorted_ids m b))" using assms by simp
  qed
  then show ?thesis by (rule map_injective) (rule inj)
qed

section \<open>Search by name\<close>

lemma grams_prefix: "startswith s p \<Longrightarrow> set (grams p) \<subseteq> set (grams s)"
proof (induction p arbitrary: s rule: grams.induct)
  case (1 a b c r)
  from "1.prems" obtain s' where s: "s = a # b # c # s'" "startswith (b # c # s') (b # c # r)"
    by (cases s; cases "tl s"; cases "tl (tl s)") auto
  from "1.IH" [OF s(2)] show ?case by (auto simp: s(1))
qed auto

lemma grams_tail: "set (grams s) \<subseteq> set (grams (x # s))"
  by (cases s; cases "tl s") auto

lemma grams_substring: "is_substring t s \<Longrightarrow> set (grams t) \<subseteq> set (grams s)"
proof (induction s)
  case (Cons x s)
  then show ?case using grams_prefix [of "x # s" t] grams_tail [of s x] by auto
qed simp

lemma dict_add_get: "dict_get_def (dict_add k x d) h [] = (if h = k then set_add x (dict_get_def d k []) else dict_get_def d h [])"
  by (simp add: dict_add_def dict_get_def_def)

lemma fold_dict_add:
  "set (dict_get_def (foldl (\<lambda>d g. dict_add g i d) d gs) h []) = set (dict_get_def d h []) \<union> (if h \<in> set gs then {i} else {})"
  by (induction gs arbitrary: d) (auto simp: dict_add_get)

lemma index_grams:
  "set (dict_get_def (ai_name_grams (foldl (index_step m) ix is)) g []) =
     set (dict_get_def (ai_name_grams ix) g []) \<union> {i \<in> set is. g \<in> set (grams (py_casefold (name_of m i)))}"
proof (induction "is" arbitrary: ix)
  case (Cons i "is")
  have "set (dict_get_def (ai_name_grams (index_step m ix i)) g []) =
      set (dict_get_def (ai_name_grams ix) g []) \<union> (if g \<in> set (grams (py_casefold (name_of m i))) then {i} else {})"
    by (simp add: index_step_def fold_dict_add)
  with Cons.IH [of "index_step m ix i"] show ?case by auto
qed simp

lemma index_ordered: "ai_ordered_ids (foldl (index_step m) ix is) = ai_ordered_ids ix"
  by (induction "is" arbitrary: ix) (auto simp: index_step_def)

lemma build_index_ordered: "ai_ordered_ids (build_index m revision) = sorted_ids m (dict_keys (br_nodes_by_id m))"
  by (simp add: build_index_def Let_def index_ordered)

lemma build_index_grams:
  "set (dict_get_def (ai_name_grams (build_index m revision)) g []) =
     {i \<in> set (dict_keys (br_nodes_by_id m)). g \<in> set (grams (py_casefold (name_of m i)))}"
  by (simp add: build_index_def Let_def index_grams) (simp add: dict_get_def_def)

text \<open>
  C19. The indexed search by name is a plain search: with the index of the model it finds, in the
  order of the tools, exactly the elements whose name contains the text, both case-folded, however
  short the text is; the index of three-letter substrings only narrows the candidates.
\<close>

theorem find_by_name_is_substring_search:
  "find_by_name m (build_index m revision) query =
     sorted_ids m (filter (\<lambda>i. is_substring (py_casefold query) (py_casefold (name_of m i))) (dict_keys (br_nodes_by_id m)))"
proof -
  let ?t = "py_casefold query"
  let ?all = "dict_keys (br_nodes_by_id m)"
  have sub: "is_substring ?t (py_casefold (name_of m i)) \<Longrightarrow> set (grams ?t) \<subseteq> set (grams (py_casefold (name_of m i)))" for i
    by (rule grams_substring)
  show ?thesis
  proof (cases "remdups (grams ?t)")
    case Nil
    then show ?thesis
      by (simp add: find_by_name_def Let_def build_index_ordered) (rule sorted_ids_cong, simp)
  next
    case (Cons g gs)
    then have "set (grams ?t) = insert g (set gs)" by (metis list.simps(15) set_remdups)
    then have "set (filter (\<lambda>i. is_substring ?t (py_casefold (name_of m i)))
          (filter (\<lambda>i. list_all (\<lambda>h. i \<in> set (dict_get_def (ai_name_grams (build_index m revision)) h [])) gs)
            (dict_get_def (ai_name_grams (build_index m revision)) g [])))
        = set (filter (\<lambda>i. is_substring ?t (py_casefold (name_of m i))) ?all)"
      using sub by (auto simp: build_index_grams list_all_iff)
    with Cons show ?thesis
      by (simp add: find_by_name_def Let_def) (rule sorted_ids_cong, simp)
  qed
qed

section \<open>Pages\<close>

text \<open>A client that follows \<open>nextOffset\<close> from page to page.\<close>

function pages_from :: "BuildResult \<Rightarrow> string list \<Rightarrow> nat \<Rightarrow> nat \<Rightarrow> (string \<times> string) list" where
  "pages_from m ordered limit offset =
     (let p = page_of m ordered offset limit in
      pg_items p @ (case pg_next_offset p of None \<Rightarrow> []
        | Some k \<Rightarrow> if limit = 0 then [] else pages_from m ordered limit k))"
  by pat_completeness auto

termination
  by (relation "measure (\<lambda>(m, ordered, limit, offset). length ordered - offset)")
    (auto simp: page_of_def Let_def split: if_splits)

declare pages_from.simps [simp del]

text \<open>
  Pages cover the list: a client that starts at any offset with a positive limit and follows
  nextOffset gets every remaining element exactly once, in order, and every page says how many
  elements there are in all.
\<close>

theorem pages_cover_the_list:
  assumes "0 < limit"
  shows "pages_from m ordered limit offset = map (\<lambda>i. (i, name_of m i)) (drop offset ordered)
    \<and> pg_total (page_of m ordered offset limit) = length ordered"
proof -
  have "pages_from m ordered limit offset = map (\<lambda>i. (i, name_of m i)) (drop offset ordered)"
    using assms
  proof (induction m ordered limit offset rule: pages_from.induct)
    case (1 m ordered limit offset)
    let ?p = "page_of m ordered offset limit"
    show ?case
    proof (cases "pg_next_offset ?p")
      case None
      then have "length ordered \<le> offset + limit" by (auto simp: page_of_def Let_def split: if_splits)
      with None show ?thesis
        by (subst pages_from.simps) (simp add: page_of_def Let_def)
    next
      case (Some k)
      then have n: "k = offset + limit" "offset + limit < length ordered"
        by (auto simp: page_of_def Let_def min_def split: if_splits)
      have "pages_from m ordered limit k = map (\<lambda>i. (i, name_of m i)) (drop k ordered)"
        using "1.IH" [OF refl Some] "1.prems" by simp
      moreover have "drop offset ordered = take limit (drop offset ordered) @ drop (offset + limit) ordered"
        by (metis append_take_drop_id drop_drop add.commute)
      ultimately show ?thesis using Some "1.prems"
        by (subst pages_from.simps) (simp add: page_of_def Let_def n(1) flip: map_append)
    qed
  qed
  then show ?thesis by (simp add: page_of_def Let_def)
qed

section \<open>Parent chains\<close>

text \<open>The chain of an element: itself and its ancestors up to the root, all known to the model.\<close>

inductive ascends :: "BuildResult \<Rightarrow> (string \<Rightarrow> string option) \<Rightarrow> string \<Rightarrow> string list \<Rightarrow> bool"
  for m :: BuildResult and parent :: "string \<Rightarrow> string option" where
  top: "known m i \<Longrightarrow> parent i = None \<Longrightarrow> ascends m parent i [i]"
| up: "known m i \<Longrightarrow> parent i = Some p \<Longrightarrow> ascends m parent p c \<Longrightarrow> ascends m parent i (i # c)"

inductive_cases ascendsE: "ascends m parent i c"

lemma ascends_unique: "ascends m parent i c \<Longrightarrow> ascends m parent i d \<Longrightarrow> c = d"
proof (induction arbitrary: d rule: ascends.induct)
  case (top i)
  from top.prems top.hyps show ?case by (cases rule: ascends.cases) auto
next
  case (up i p c)
  from up.prems up.hyps obtain e where "d = i # e" "ascends m parent p e" by (cases rule: ascends.cases) auto
  with up.IH [of e] show ?case by simp
qed

lemma ascends_suffix: "ascends m parent i c \<Longrightarrow> j \<in> set c \<Longrightarrow> \<exists>d. ascends m parent j d \<and> length d \<le> length c"
proof (induction rule: ascends.induct)
  case (top i)
  then show ?case by (auto intro!: exI [of _ "[i]"] ascends.top)
next
  case (up i p c)
  show ?case
  proof (cases "j = i")
    case True
    with ascends.up [OF up(1-3)] show ?thesis by auto
  next
    case False
    with up obtain d where "ascends m parent j d" "length d \<le> length c" by auto
    then show ?thesis by (intro exI [of _ d]) simp
  qed
qed

lemma ascends_distinct: "ascends m parent i c \<Longrightarrow> distinct c"
proof (induction rule: ascends.induct)
  case (up i p c)
  have "i \<notin> set c"
  proof
    assume "i \<in> set c"
    then obtain d where "ascends m parent i d" "length d \<le> length c" using ascends_suffix [OF up(3)] by blast
    with ascends_unique [OF ascends.up [OF up(1-3)]] show False by fastforce
  qed
  with up show ?case by simp
qed simp

lemma chain_walk_simps [simp]:
  "chain_walk m parent validated chain None = Inr chain"
  "chain_walk m parent validated chain (Some i) =
     (if i \<in> set validated then Inr chain
      else if \<not> known m i \<or> i \<in> set chain then Inl chain_error
      else chain_walk m parent validated (chain @ [i]) (parent i))"
  by (subst chain_walk.simps, simp)+

lemma chain_walk_ascends:
  "chain_walk m parent [] chain current = Inr r \<Longrightarrow>
    (case current of None \<Rightarrow> r = chain | Some i \<Rightarrow> \<exists>c. ascends m parent i c \<and> r = chain @ c)"
proof (induction m parent "[] :: string list" chain current rule: chain_walk.induct)
  case (1 m parent chain current)
  show ?case
  proof (cases current)
    case None
    with "1.prems" show ?thesis by simp
  next
    case (Some i)
    with "1.prems" have i: "known m i" "i \<notin> set chain" "chain_walk m parent [] (chain @ [i]) (parent i) = Inr r"
      by (auto split: if_splits)
    have "case parent i of None \<Rightarrow> r = chain @ [i] | Some p \<Rightarrow> \<exists>c. ascends m parent p c \<and> r = (chain @ [i]) @ c"
      using "1.hyps" [OF Some _ _ i(3)] i(1,2) by simp
    then show ?thesis using i(1) Some by (auto intro: ascends.intros split: option.splits)
  qed
qed

lemma ascends_chain_walk:
  "ascends m parent i c \<Longrightarrow> set chain \<inter> set c = {} \<Longrightarrow> chain_walk m parent [] chain (Some i) = Inr (chain @ c)"
proof (induction arbitrary: chain rule: ascends.induct)
  case (top i)
  then show ?case by simp
next
  case (up i p c)
  have "distinct (i # c)" by (rule ascends_distinct [OF ascends.up [OF up(1-3)]])
  with up.prems have "set (chain @ [i]) \<inter> set c = {}" "i \<notin> set chain" by auto
  with up.IH [of "chain @ [i]"] up show ?case by simp
qed

lemma chain_walk_error: "chain_walk m parent validated chain current = Inl e \<Longrightarrow> e = chain_error"
proof (induction m parent validated chain current rule: chain_walk.induct)
  case (1 m parent validated chain current)
  then show ?case by (cases current) (auto split: if_splits)
qed

lemma segments_iff:
  "segments_of m i = Inr ss \<longleftrightarrow> (\<exists>c. ascends m (canonical_parent m) i c \<and> ss = map (name_of m) (rev c))"
proof
  assume "segments_of m i = Inr ss"
  then obtain c where "chain_walk m (canonical_parent m) [] [] (Some i) = Inr c" "ss = map (name_of m) (rev c)"
    by (auto simp: segments_of_def rbind_Inr_iff)
  then show "\<exists>c. ascends m (canonical_parent m) i c \<and> ss = map (name_of m) (rev c)"
    using chain_walk_ascends [of m "canonical_parent m" "[]" "Some i" c] by auto
next
  assume "\<exists>c. ascends m (canonical_parent m) i c \<and> ss = map (name_of m) (rev c)"
  then show "segments_of m i = Inr ss"
    using ascends_chain_walk [of m "canonical_parent m" i _ "[]"] by (auto simp: segments_of_def simp del: chain_walk_simps)
qed

lemma segments_step:
  "segments_of m i = Inr ss \<longleftrightarrow> known m i \<and>
     (case canonical_parent m i of
        None \<Rightarrow> ss = [name_of m i]
      | Some p \<Rightarrow> \<exists>ts. segments_of m p = Inr ts \<and> ss = ts @ [name_of m i])"
proof (cases "canonical_parent m i")
  case None
  then have "ascends m (canonical_parent m) i c \<longleftrightarrow> known m i \<and> c = [i]" for c
    by (auto elim: ascendsE intro: ascends.top)
  with None show ?thesis unfolding segments_iff by auto
next
  case (Some p)
  then have "ascends m (canonical_parent m) i c \<longleftrightarrow> known m i \<and> (\<exists>d. ascends m (canonical_parent m) p d \<and> c = i # d)" for c
    by (auto elim: ascendsE intro: ascends.up)
  with Some show ?thesis unfolding segments_iff by auto
qed

text \<open>The validation of all chains passes exactly when every element has a chain.\<close>

lemma validated_walk:
  "chain_walk m parent validated chain current = Inr r \<Longrightarrow> \<forall>v \<in> set validated. \<exists>c. ascends m parent v c \<Longrightarrow>
    set chain \<subseteq> set r \<and> (\<forall>x \<in> set r - set chain. \<exists>c. ascends m parent x c)
    \<and> (case current of None \<Rightarrow> True | Some i \<Rightarrow> \<exists>c. ascends m parent i c)"
proof (induction m parent validated chain current rule: chain_walk.induct)
  case (1 m parent validated chain current)
  show ?case
  proof (cases current)
    case (Some i)
    show ?thesis
    proof (cases "i \<in> set validated")
      case True
      with "1.prems" Some show ?thesis by simp
    next
      case False
      with "1.prems"(1) Some have i: "known m i" "i \<notin> set chain" "chain_walk m parent validated (chain @ [i]) (parent i) = Inr r"
        by (auto split: if_splits)
      note IH = "1.IH" [OF Some False _ i(3) "1.prems"(2)]
      have "\<exists>c. ascends m parent i c"
        using IH i(1,2) by (cases "parent i") (auto intro: ascends.intros)
      with IH i(1,2) Some show ?thesis by auto
    qed
  qed (use "1.prems" in simp)
qed

lemma ascends_walk_total:
  "ascends m parent i c \<Longrightarrow> set chain \<inter> set c = {} \<Longrightarrow> \<exists>r. chain_walk m parent validated chain (Some i) = Inr r"
proof (induction arbitrary: chain rule: ascends.induct)
  case (up i p c)
  have "distinct (i # c)" by (rule ascends_distinct [OF ascends.up [OF up(1-3)]])
  with up.prems have "set (chain @ [i]) \<inter> set c = {}" "i \<notin> set chain" by auto
  with up.IH [of "chain @ [i]"] up show ?case by simp
qed simp

lemma validate_parent_chains_iff:
  "validate_parent_chains m parents = Inr () \<longleftrightarrow>
     (\<forall>i. known m i \<longrightarrow> (\<exists>c. ascends m (\<lambda>k. dict_get_def parents k None) i c))"
proof -
  let ?f = "\<lambda>k. dict_get_def parents k None"
  let ?step = "\<lambda>validated i. rbind (chain_walk m ?f validated [] (Some i)) (\<lambda>chain. Inr (set_union validated chain))"
  have mem: "i \<in> set (dict_keys (br_nodes_by_id m)) \<longleftrightarrow> known m i" for i
    by (simp add: known_def map_of_eq_None_iff)
  have sound: "(\<forall>v \<in> set validated'. \<exists>c. ascends m ?f v c) \<and> set validated \<subseteq> set validated' \<and> (\<exists>c. ascends m ?f i c)"
    if "?step validated i = Inr validated'" "\<forall>v \<in> set validated. \<exists>c. ascends m ?f v c" for validated i validated'
    using that validated_walk [of m ?f validated "[]" "Some i"] by (auto simp: rbind_Inr_iff simp del: chain_walk_simps)
  have forward: "\<forall>i \<in> set is. \<exists>c. ascends m ?f i c"
    if "rfold ?step validated is = Inr v" "\<forall>v \<in> set validated. \<exists>c. ascends m ?f v c" for "is" validated v
    using that
  proof (induction "is" arbitrary: validated)
    case (Cons i "is")
    from Cons.prems(1) obtain v1 where v1: "?step validated i = Inr v1" "rfold ?step v1 is = Inr v"
      by (auto simp: rbind_Inr_iff simp del: chain_walk_simps)
    from sound [OF v1(1) Cons.prems(2)] Cons.IH [OF v1(2)] show ?case by (simp del: chain_walk_simps)
  qed simp
  have backward: "\<exists>v. rfold ?step validated is = Inr v" if h: "\<forall>i \<in> set is. \<exists>c. ascends m ?f i c" for "is" validated
  proof (rule rfold_total)
    fix v i assume "i \<in> set is"
    with h obtain c where "ascends m ?f i c" by blast
    from ascends_walk_total [OF this, of "[]" v] obtain r where "chain_walk m ?f v [] (Some i) = Inr r" by auto
    then show "\<exists>v'. ?step v i = Inr v'" by (simp del: chain_walk_simps)
  qed
  have "validate_parent_chains m parents = Inr () \<longleftrightarrow> (\<exists>v. rfold ?step [] (dict_keys (br_nodes_by_id m)) = Inr v)"
    unfolding validate_parent_chains_def rbind_Inr_iff by simp
  also have "\<dots> \<longleftrightarrow> (\<forall>i \<in> set (dict_keys (br_nodes_by_id m)). \<exists>c. ascends m ?f i c)"
  proof
    assume "\<exists>v. rfold ?step [] (dict_keys (br_nodes_by_id m)) = Inr v"
    then obtain v where "rfold ?step [] (dict_keys (br_nodes_by_id m)) = Inr v" by blast
    from forward [OF this] show "\<forall>i \<in> set (dict_keys (br_nodes_by_id m)). \<exists>c. ascends m ?f i c" by simp
  next
    assume "\<forall>i \<in> set (dict_keys (br_nodes_by_id m)). \<exists>c. ascends m ?f i c"
    then show "\<exists>v. rfold ?step [] (dict_keys (br_nodes_by_id m)) = Inr v" by (rule backward)
  qed
  finally show ?thesis unfolding mem [symmetric] by blast
qed

section \<open>Resolving a path\<close>

lemma path_children_get:
  "dict_get_def (dict_get_def (foldl (add_path_child m) [] is) p []) s [] =
     filter (\<lambda>i. canonical_parent m i = p \<and> name_of m i = s) is"
proof -
  have "dict_get_def (dict_get_def (foldl (add_path_child m) d is) p []) s [] =
     dict_get_def (dict_get_def d p []) s [] @ filter (\<lambda>i. canonical_parent m i = p \<and> name_of m i = s) is" for d
    by (induction "is" arbitrary: d) (auto simp: add_path_child_def Let_def dict_get_def_def dict_append_def)
  from this [of "[]"] show ?thesis by (simp add: dict_get_def_def)
qed

lemma path_step_Nil [simp]: "path_step pc [] s = []"
  by (simp add: path_step_def)

lemma path_matches_snoc:
  "path_matches pc ps ms (ss @ [s]) = path_step pc (if ss = [] then ps else map Some (path_matches pc ps ms ss)) s"
proof (induction ss arbitrary: ps ms)
  case (Cons t ss)
  show ?case
  proof (cases "path_step pc ps t = []")
    case False
    with Cons.IH [of "map Some (path_step pc ps t)" "path_step pc ps t"] show ?thesis by (auto simp: Let_def)
  qed simp
qed (simp add: Let_def)

lemma path_matches_correct:
  assumes "set is = {i. known m i}" "distinct is" "ss \<noteq> []"
  defines "pc \<equiv> foldl (add_path_child m) [] is"
  shows "set (path_matches pc [None] [] ss) = {i. segments_of m i = Inr ss} \<and> distinct (path_matches pc [None] [] ss)"
  using assms(3)
proof (induction ss rule: rev_induct)
  case (snoc s ss)
  have mem: "i \<in> set (dict_get_def (dict_get_def pc p []) s []) \<longleftrightarrow> known m i \<and> canonical_parent m i = p \<and> name_of m i = s" for i p
    using assms(1) by (auto simp: pc_def path_children_get)
  have dist: "distinct (dict_get_def (dict_get_def pc p []) s [])" for p
    using assms(2) by (simp add: pc_def path_children_get)
  have step: "distinct (path_step pc ps s)" if "distinct ps" for ps
    using that
  proof (induction ps)
    case (Cons p ps)
    then show ?case using dist [of p] mem by (auto simp: path_step_def)
  qed simp
  show ?case
  proof (cases "ss = []")
    case True
    then have "path_matches pc [None] [] (ss @ [s]) = dict_get_def (dict_get_def pc None []) s []"
      by (simp add: path_step_def Let_def)
    moreover have "segments_of m i = Inr [s] \<longleftrightarrow> known m i \<and> canonical_parent m i = None \<and> name_of m i = s" for i
    proof -
      have "segments_of m p \<noteq> Inr []" for p using segments_step [of m p "[]"] by (auto split: option.splits)
      then show ?thesis by (subst segments_step) (auto split: option.splits)
    qed
    ultimately show ?thesis using True mem dist by auto
  next
    case False
    note IH = snoc.IH [OF False]
    have "path_matches pc [None] [] (ss @ [s]) = path_step pc (map Some (path_matches pc [None] [] ss)) s"
      unfolding path_matches_snoc using False by simp
    moreover have "segments_of m i = Inr (ss @ [s]) \<longleftrightarrow>
        known m i \<and> name_of m i = s \<and> (\<exists>p. canonical_parent m i = Some p \<and> segments_of m p = Inr ss)" for i
      using False by (subst segments_step) (auto split: option.splits)
    ultimately show ?thesis
      using IH mem step [of "map Some (path_matches pc [None] [] ss)"]
      by (auto simp: path_step_def distinct_map inj_on_def)
  qed
qed simp

lemma ascends_cong:
  "ascends m f i c \<Longrightarrow> (\<And>k. known m k \<Longrightarrow> f k = g k) \<Longrightarrow> ascends m g i c"
  by (induction rule: ascends.induct) (auto intro: ascends.intros)

lemma fresh_path_children:
  "path_children m (build_index m revision) =
     (if \<forall>i. known m i \<longrightarrow> (\<exists>ss. segments_of m i = Inr ss)
      then Inr (foldl (add_path_child m) [] (sorted_ids m (dict_keys (br_nodes_by_id m)))) else Inl chain_error)"
proof -
  let ?ids = "sorted_ids m (dict_keys (br_nodes_by_id m))"
  let ?parents = "dict_of_list (map (\<lambda>i. (i, canonical_parent m i)) ?ids)"
  have get: "dict_get_def ?parents k None = canonical_parent m k" if "known m k" for k
  proof -
    have "k \<in> set ?ids" using that by (simp add: known_def map_of_eq_None_iff)
    then have "dict_get (rev (map (\<lambda>i. (i, canonical_parent m i)) ?ids)) k = Some (canonical_parent m k)"
      by (intro map_of_is_SomeI) (simp_all add: rev_map [symmetric] comp_def)
    then show ?thesis by (simp add: dict_get_def_def dict_get_of_list)
  qed
  let ?f = "\<lambda>k. dict_get_def ?parents k None"
  have "ascends m ?f i c \<longleftrightarrow> ascends m (canonical_parent m) i c" for i c
    using ascends_cong [of m ?f i c "canonical_parent m"] ascends_cong [of m "canonical_parent m" i c ?f] get by auto
  then have "(\<exists>c. ascends m ?f i c) \<longleftrightarrow> (\<exists>ss. segments_of m i = Inr ss)" for i
    unfolding segments_iff by blast
  then have valid: "validate_parent_chains m ?parents = Inr () \<longleftrightarrow> (\<forall>i. known m i \<longrightarrow> (\<exists>ss. segments_of m i = Inr ss))"
    unfolding validate_parent_chains_iff by simp
  have "e = chain_error" if "validate_parent_chains m ?parents = Inl e" for e
    using that unfolding validate_parent_chains_def
    by (auto dest!: rbind_error rfold_error intro: chain_walk_error simp del: chain_walk_simps)
  with valid have "validate_parent_chains m ?parents =
      (if \<forall>i. known m i \<longrightarrow> (\<exists>ss. segments_of m i = Inr ss) then Inr () else Inl chain_error)"
    by (cases "validate_parent_chains m ?parents") auto
  moreover have "ai_path_children (build_index m revision) = None"
  proof -
    have "ai_path_children (foldl (index_step m) ix is) = ai_path_children ix" for ix "is"
      by (induction "is" arbitrary: ix) (auto simp: index_step_def)
    then show ?thesis by (simp add: build_index_def Let_def)
  qed
  ultimately show ?thesis by (simp add: path_children_def build_index_ordered)
qed

lemma split_join:
  "ws \<noteq> [] \<Longrightarrow> \<forall>w \<in> set ws. c \<notin> set w \<Longrightarrow> split_on c (join_with [c] ws) = ws"
proof (induction "[c]" ws rule: join_with.induct)
  case (2 w)
  have "c \<notin> set v \<Longrightarrow> split_on c v = [v]" for v by (induction v) auto
  with 2 show ?case by simp
next
  case (3 w v ws)
  have "c \<notin> set u \<Longrightarrow> split_on c (u @ c # r) = u # split_on c r" for u r
    by (induction u) (auto split: list.splits)
  with 3 show ?case by simp
qed simp

lemma distinct_singleton:
  assumes "distinct xs" "set xs = {i}"
  shows "xs = [i]"
proof (cases xs)
  case (Cons x ys)
  then show ?thesis using assms by (cases ys) auto
qed (use assms in simp)

text \<open>
  C18. Browse paths lead back: when the parents of every element lead to a root, the browse path of an
  element, as segments, or as a path when no name on it contains a slash, resolves to the same
  element, or to an explicit conflict when another element has the same path; it is never not
  found and never resolves to another element.
\<close>

theorem browse_path_round_trip:
  assumes "ids_ok m" "\<forall>j. known m j \<longrightarrow> (\<exists>ss. segments_of m j = Inr ss)" "node_of m i = Some n"
  shows "\<exists>ss. fst (invoke_model_access_tool m revision context (GetBrowsePath i) None) = Inr (BrowsePath (join_with ''/'' ss) ss)
    \<and> (\<forall>call. call = ResolveSegments ss \<or> (call = ResolvePath (join_with ''/'' ss) \<and> (\<forall>s \<in> set ss. CHR ''/'' \<notin> set s)) \<longrightarrow>
        fst (invoke_model_access_tool m revision context call None) =
          (if \<exists>j. j \<noteq> i \<and> segments_of m j = Inr ss
           then Inl (HTTPException 409 ''Browse path matches multiple elements; use an elementId'')
           else Inr (PathFound i (mn_name n) (mn_kind n))))"
proof -
  have "known m i" using assms(3) by (simp add: known_def)
  then obtain ss where ss: "segments_of m i = Inr ss" using assms(2) by blast
  then have ne: "ss \<noteq> []" using segments_step [of m i ss] by (auto split: option.splits)
  let ?ids = "sorted_ids m (dict_keys (br_nodes_by_id m))"
  let ?pc = "foldl (add_path_child m) [] ?ids"
  have pc: "path_children m (build_index m revision) = Inr ?pc"
    unfolding fresh_path_children using assms(2) by simp
  have "set ?ids = {i. known m i}" by (auto simp: known_def map_of_eq_None_iff)
  note matches = path_matches_correct [OF this distinct_sorted_ids ne]
  define found where "found = path_matches ?pc [None] [] ss"
  have found: "set found = {j. segments_of m j = Inr ss}" "distinct found" "i \<in> set found"
    using matches ss unfolding found_def by blast+
  have result: "fst (resolve_segments m (build_index m revision) ss) =
      (case found of [] \<Rightarrow> Inr PathNotFound
       | [i] \<Rightarrow> (case node_of m i of None \<Rightarrow> Inl (KeyError i) | Some n \<Rightarrow> Inr (PathFound (mn_id n) (mn_name n) (mn_kind n)))
       | _ \<Rightarrow> Inl (HTTPException 409 ''Browse path matches multiple elements; use an elementId''))"
    unfolding resolve_segments_def pc found_def by simp
  have resolved: "fst (resolve_segments m (build_index m revision) ss) =
      (if \<exists>j. j \<noteq> i \<and> segments_of m j = Inr ss
       then Inl (HTTPException 409 ''Browse path matches multiple elements; use an elementId'')
       else Inr (PathFound i (mn_name n) (mn_kind n)))"
  proof (cases "\<exists>j. j \<noteq> i \<and> segments_of m j = Inr ss")
    case True
    then obtain j where "j \<noteq> i" "j \<in> set found" using found(1) by blast
    with found(3) obtain x y ys where "found = x # y # ys"
      by (cases found; cases "tl found") auto
    with True show ?thesis unfolding result by simp
  next
    case False
    then have "set found = {i}" using found(1,3) by blast
    then have "found = [i]" by (rule distinct_singleton [OF found(2)])
    moreover have "mn_id n = i" by (rule ids_okD [OF assms(1,3)])
    ultimately show ?thesis unfolding result if_not_P [OF False] by (simp add: assms(3))
  qed
  have split: "split_on CHR ''/'' (join_with ''/'' ss) = ss" if "\<forall>s \<in> set ss. CHR ''/'' \<notin> set s"
    by (rule split_join [OF ne that])
  have by_segments: "fst (invoke_model_access_tool m revision context (ResolveSegments ss) None) =
      fst (resolve_segments m (build_index m revision) ss)"
    by (simp add: invoke_model_access_tool_def dispatch_indexed_def index_of_def case_prod_beta)
  have by_path: "fst (invoke_model_access_tool m revision context (ResolvePath p) None) =
      fst (resolve_segments m (build_index m revision) (split_on CHR ''/'' p))" for p
    by (simp add: invoke_model_access_tool_def dispatch_indexed_def index_of_def case_prod_beta)
  show ?thesis
  proof (intro exI [of _ ss] conjI allI impI)
    show "fst (invoke_model_access_tool m revision context (GetBrowsePath i) None) = Inr (BrowsePath (join_with ''/'' ss) ss)"
      using ss \<open>known m i\<close> by (simp add: invoke_model_access_tool_def require_element_def)
    fix call
    assume "call = ResolveSegments ss \<or> (call = ResolvePath (join_with ''/'' ss) \<and> (\<forall>s \<in> set ss. CHR ''/'' \<notin> set s))"
    then have "fst (invoke_model_access_tool m revision context call None) = fst (resolve_segments m (build_index m revision) ss)"
      using by_segments by_path split by metis
    then show "fst (invoke_model_access_tool m revision context call None) =
          (if \<exists>j. j \<noteq> i \<and> segments_of m j = Inr ss
           then Inl (HTTPException 409 ''Browse path matches multiple elements; use an elementId'')
           else Inr (PathFound i (mn_name n) (mn_kind n)))"
      by (rule trans [OF _ resolved])
  qed
qed

text \<open>A model with a pump and its speed property in the hierarchy plane.\<close>

definition plane_model :: BuildResult where
  "plane_model = pump_model\<lparr>br_hierarchy_parent_by_id := [(''p'', ''a'')], br_composition_children_by_id := [(''a'', [''p''])]\<rparr>"

lemma plane_model_facts:
  "ids_ok plane_model" "known plane_model i \<longleftrightarrow> i = ''a'' \<or> i = ''p''"
  "segments_of plane_model ''a'' = Inr [''a'']" "segments_of plane_model ''p'' = Inr [''a'', ''p'']"
proof -
  show "ids_ok plane_model" using pump_model_ok(1) by (simp add: plane_model_def ids_ok_def)
  show known: "known plane_model i \<longleftrightarrow> i = ''a'' \<or> i = ''p''" for i
    by (simp add: plane_model_def pump_model_def sample_model_def known_def)
  have parents: "canonical_parent plane_model ''a'' = None" "canonical_parent plane_model ''p'' = Some ''a''"
      "name_of plane_model ''a'' = ''a''" "name_of plane_model ''p'' = ''p''"
    by (simp_all add: plane_model_def pump_model_def sample_model_def sample_node_def canonical_parent_def or_else_def name_of_def)
  show a: "segments_of plane_model ''a'' = Inr [''a'']" by (subst segments_step) (simp add: parents known)
  show "segments_of plane_model ''p'' = Inr [''a'', ''p'']" by (subst segments_step) (simp add: parents known a)
qed

theorem browse_path_round_trip_witness:
  "\<exists>n ss. node_of plane_model ''p'' = Some n
    \<and> fst (invoke_model_access_tool plane_model ''r'' None (GetBrowsePath ''p'') None) = Inr (BrowsePath (join_with ''/'' ss) ss)"
proof -
  obtain n where n: "node_of plane_model ''p'' = Some n"
    using plane_model_facts(2) [of "''p''"] by (auto simp: known_def)
  moreover have "\<forall>j. known plane_model j \<longrightarrow> (\<exists>ss. segments_of plane_model j = Inr ss)"
    using plane_model_facts(2-4) by auto
  ultimately show ?thesis
    using browse_path_round_trip [OF plane_model_facts(1) _ n, of "''r''" None] by blast
qed

theorem pages_cover_the_list_witness:
  "pages_from plane_model [''a'', ''p''] 1 0 = map (\<lambda>i. (i, name_of plane_model i)) (drop 0 [''a'', ''p''])
    \<and> pg_total (page_of plane_model [''a'', ''p''] 0 1) = length [''a'', ''p'']"
  by (rule pages_cover_the_list) simp

section \<open>Composition properties\<close>

definition composition_children :: "BuildResult \<Rightarrow> string \<Rightarrow> string list" where
  "composition_children m i = dict_get_def (br_composition_children_by_id m) i []"

definition is_property_element :: "BuildResult \<Rightarrow> string \<Rightarrow> bool" where
  "is_property_element m i = (case node_of m i of Some n \<Rightarrow> mn_kind n = Property | None \<Rightarrow> False)"

text \<open>Reachable from an element through composition children, elements of the model all the way.\<close>

inductive composed :: "BuildResult \<Rightarrow> string \<Rightarrow> string \<Rightarrow> bool" for m :: BuildResult and start :: string where
  first: "j \<in> set (composition_children m start) \<Longrightarrow> known m j \<Longrightarrow> composed m start j"
| below: "composed m start i \<Longrightarrow> j \<in> set (composition_children m i) \<Longrightarrow> known m j \<Longrightarrow> composed m start j"

definition loop_state :: "BuildResult \<Rightarrow> string \<Rightarrow> string list \<Rightarrow> string list \<Rightarrow> string list \<Rightarrow> bool" where
  "loop_state m start pending visited props \<longleftrightarrow>
     start \<in> set visited
     \<and> (\<forall>i \<in> set visited. i = start \<or> composed m start i)
     \<and> (\<forall>j \<in> set pending. known m j \<longrightarrow> composed m start j)
     \<and> (\<forall>i \<in> set visited. \<forall>j \<in> set (composition_children m i). known m j \<longrightarrow> j \<in> set visited \<union> set pending)
     \<and> set props = {i \<in> set visited. i \<noteq> start \<and> is_property_element m i} \<and> distinct props"

lemma loop_state_done:
  assumes "loop_state m start [] visited props"
  shows "set props = {i. composed m start i \<and> i \<noteq> start \<and> is_property_element m i}"
proof -
  have "composed m start i \<Longrightarrow> i \<in> set visited" for i
    by (induction rule: composed.induct) (use assms in \<open>auto simp: loop_state_def\<close>)
  with assms show ?thesis by (auto simp: loop_state_def)
qed

lemma loop_state_skip:
  assumes "loop_state m start pending visited props" "pending \<noteq> []"
    "last pending \<in> set visited \<or> \<not> known m (last pending)"
  shows "loop_state m start (butlast pending) visited props"
proof -
  have "set pending = insert (last pending) (set (butlast pending))"
    using assms(2) by (metis append_butlast_last_id list.simps(15) rotate1.simps(2) set_rotate1)
  then show ?thesis using assms(1,3) unfolding loop_state_def by (auto dest: in_set_butlastD)
qed

lemma loop_state_visit:
  assumes "loop_state m start pending visited props" "pending \<noteq> []"
    "last pending \<notin> set visited" "known m (last pending)"
  shows "loop_state m start (butlast pending @ composition_children m (last pending)) (last pending # visited)
    (if is_property_element m (last pending) then set_add (last pending) props else props)"
proof -
  have pending: "set pending = insert (last pending) (set (butlast pending))"
    using assms(2) by (metis append_butlast_last_id list.simps(15) rotate1.simps(2) set_rotate1)
  have new: "composed m start (last pending)" "last pending \<noteq> start" "last pending \<notin> set props"
    using assms pending by (auto simp: loop_state_def)
  then show ?thesis using assms(1) pending
    unfolding loop_state_def by (auto simp: set_add_def intro: composed.below)
qed

lemma composition_loop_correct:
  "loop_state m start pending visited props \<Longrightarrow>
    set (composition_loop m pending visited props) = {i. composed m start i \<and> i \<noteq> start \<and> is_property_element m i}
    \<and> distinct (composition_loop m pending visited props)"
proof (induction m pending visited props rule: composition_loop.induct)
  case (1 m pending visited props)
  show ?case
  proof (cases "pending = []")
    case True
    with "1.prems" have "set props = {i. composed m start i \<and> i \<noteq> start \<and> is_property_element m i}" "distinct props"
      using loop_state_done [of m start visited props] by (auto simp: loop_state_def)
    with True show ?thesis by (simp add: composition_loop.simps)
  next
    case ne: False
    show ?thesis
    proof (cases "last pending \<in> set visited \<or> \<not> known m (last pending)")
      case True
      then show ?thesis
        using "1.IH"(1) [OF ne refl refl True loop_state_skip [OF "1.prems" ne True]] ne
        by (subst (1 2) composition_loop.simps) simp
    next
      case False
      then have "loop_state m start (butlast pending @ composition_children m (last pending)) (last pending # visited)
          (if is_property_element m (last pending) then set_add (last pending) props else props)"
        by (intro loop_state_visit [OF "1.prems" ne]) auto
      then show ?thesis
        using "1.IH"(2) [OF ne refl refl False] ne False
        by (subst (1 2) composition_loop.simps) (simp add: Let_def composition_children_def is_property_element_def)
    qed
  qed
qed

text \<open>
  The composition properties of an object are complete, even when the composition has cycles:
  they are exactly the properties other than itself that composition children lead to through
  elements of the model, each once.
\<close>

theorem composition_properties_correct:
  "set (composition_properties m start) = {i. composed m start i \<and> i \<noteq> start \<and> is_property_element m i}
    \<and> distinct (composition_properties m start)"
  unfolding composition_properties_def
  by (rule composition_loop_correct)
    (auto simp: loop_state_def composition_children_def intro: composed.first)

section \<open>The cached index\<close>

text \<open>What the lazily filled parts of an index are filled with.\<close>

definition path_table :: "BuildResult \<Rightarrow> (string option, (string, string list) dict) dict result" where
  "path_table m = path_children m (build_index m [])"

definition type_tables :: "BuildResult \<Rightarrow> type_context \<Rightarrow> ((string, string list) dict \<times> (string, string list) dict) result" where
  "type_tables m ctx = rbind (type_indexes m (build_index m []) ctx)
     (\<lambda>ix. Inr (ai_direct_instances ix, ai_subtype_instances ix))"

text \<open>
  A cached index is coherent with a model when its tables are those of a fresh index, whatever
  its revision, and its lazily filled parts are empty or what they are filled with, the type
  indexes for one of the contexts seen so far.
\<close>

definition coherent :: "BuildResult \<Rightarrow> type_context set \<Rightarrow> access_index \<Rightarrow> bool" where
  "coherent m seen ix \<longleftrightarrow>
     ai_ordered_ids ix = ai_ordered_ids (build_index m [])
     \<and> ai_namespaces ix = ai_namespaces (build_index m [])
     \<and> ai_roles ix = ai_roles (build_index m [])
     \<and> ai_name_grams ix = ai_name_grams (build_index m [])
     \<and> ai_children_by_plane ix = ai_children_by_plane (build_index m [])
     \<and> (\<forall>d. ai_path_children ix = Some d \<longrightarrow> path_table m = Inr d)
     \<and> (\<forall>t. ai_type_context_token ix = Some t \<longrightarrow>
          (\<exists>ctx \<in> seen. tc_token ctx = t \<and> type_tables m ctx = Inr (ai_direct_instances ix, ai_subtype_instances ix)))"

lemma index_lazy_parts:
  "ai_path_children (foldl (index_step m) ix is) = ai_path_children ix"
  "ai_type_context_token (foldl (index_step m) ix is) = ai_type_context_token ix"
  by (induction "is" arbitrary: ix) (auto simp: index_step_def)

lemma fresh_lazy_parts [simp]:
  "ai_path_children (build_index m r) = None" "ai_type_context_token (build_index m r) = None"
  by (simp_all add: build_index_def Let_def index_lazy_parts)

lemma build_index_revision: "build_index m r = (build_index m r')\<lparr>ai_revision := r\<rparr>"
proof -
  have step: "index_step m (ix\<lparr>ai_revision := r\<rparr>) i = (index_step m ix i)\<lparr>ai_revision := r\<rparr>" for ix i
    by (cases "namespace_of m i") (simp_all add: index_step_def)
  have "foldl (index_step m) (ix\<lparr>ai_revision := r\<rparr>) is = (foldl (index_step m) ix is)\<lparr>ai_revision := r\<rparr>" for ix "is"
    by (induction "is" arbitrary: ix) (simp_all add: step)
  from this [of "\<lparr>ai_revision = r', ai_ordered_ids = sorted_ids m (dict_keys (br_nodes_by_id m)), ai_namespaces = [],
      ai_roles = [], ai_name_grams = [], ai_children_by_plane = [], ai_path_children = None,
      ai_type_context_token = None, ai_direct_instances = [], ai_subtype_instances = []\<rparr>"]
  show ?thesis by (simp add: build_index_def Let_def)
qed

lemma coherent_fresh: "coherent m seen (build_index m r)"
  unfolding coherent_def using build_index_revision [of m r "[]"] by simp

lemma coherent_mono: "coherent m seen ix \<Longrightarrow> seen \<subseteq> seen' \<Longrightarrow> coherent m seen' ix"
  unfolding coherent_def by blast

lemma coherent_index_of:
  "(case cache of None \<Rightarrow> True | Some ix \<Rightarrow> coherent m seen ix) \<Longrightarrow> coherent m seen (index_of m r cache)"
  by (auto simp: index_of_def coherent_fresh split: option.splits)

lemma coherent_path_children:
  assumes "coherent m seen ix"
  shows "path_children m ix = path_table m"
  using assms by (cases "ai_path_children ix") (auto simp: coherent_def path_table_def path_children_def)

lemma coherent_type_indexes:
  assumes "coherent m seen ix" "inj_on tc_token (insert ctx seen)"
  shows "case type_indexes m ix ctx of
      Inl e \<Rightarrow> type_tables m ctx = Inl e
    | Inr ix' \<Rightarrow> type_tables m ctx = Inr (ai_direct_instances ix', ai_subtype_instances ix') \<and> coherent m (insert ctx seen) ix'"
proof (cases "ai_type_context_token ix = Some (tc_token ctx)")
  case True
  then obtain c where "c \<in> seen" "tc_token c = tc_token ctx"
      "type_tables m c = Inr (ai_direct_instances ix, ai_subtype_instances ix)"
    using assms(1) by (auto simp: coherent_def)
  moreover from this have "c = ctx" using inj_onD [OF assms(2), of c ctx] by simp
  ultimately show ?thesis
    using True coherent_mono [OF assms(1), of "insert ctx seen"] by (auto simp: type_indexes_def)
next
  case False
  let ?direct = "direct_instances m ctx"
  show ?thesis
  proof (cases "rfold (subtype_step (type_parents ctx)) ?direct ?direct")
    case (Inl e)
    with False show ?thesis by (simp add: type_indexes_def type_tables_def Let_def)
  next
    case (Inr expanded)
    with False assms(1) show ?thesis by (simp add: type_indexes_def type_tables_def Let_def coherent_def)
  qed
qed

lemma coherent_resolve_segments:
  assumes "coherent m seen ix" "coherent m seen' ix'"
  shows "fst (resolve_segments m ix ss) = fst (resolve_segments m ix' ss)"
    "coherent m seen (snd (resolve_segments m ix ss))"
  using assms(1) by (auto simp: resolve_segments_def coherent_path_children [OF assms(1)]
    coherent_path_children [OF assms(2)] coherent_def split: sum.splits)

text \<open>The contexts a call can read.\<close>

definition context_set :: "type_context option \<Rightarrow> type_context set" where
  "context_set context = (case context of None \<Rightarrow> {} | Some ctx \<Rightarrow> {ctx})"

lemma coherent_instances_of_type:
  assumes "coherent m seen ix" "coherent m seen' ix'"
    "inj_on tc_token (seen \<union> context_set context)" "inj_on tc_token (seen' \<union> context_set context)"
  shows "fst (instances_of_type m ix context t requested subtypes offset limit) =
      fst (instances_of_type m ix' context t requested subtypes offset limit)"
    "coherent m (seen \<union> context_set context) (snd (instances_of_type m ix context t requested subtypes offset limit))"
proof -
  have "fst (instances_of_type m ix context t requested subtypes offset limit) =
      fst (instances_of_type m ix' context t requested subtypes offset limit)
    \<and> coherent m (seen \<union> context_set context) (snd (instances_of_type m ix context t requested subtypes offset limit))"
  proof (cases "context")
    case None
    with assms(1) show ?thesis by (simp add: instances_of_type_def context_set_def)
  next
    case (Some ctx)
    then have inj: "inj_on tc_token (insert ctx seen)" "inj_on tc_token (insert ctx seen')"
      using assms(3,4) by (simp_all add: context_set_def)
    note types = coherent_type_indexes [OF assms(1) inj(1)] coherent_type_indexes [OF assms(2) inj(2)]
    have kept: "coherent m (insert ctx seen) ix" by (rule coherent_mono [OF assms(1)]) auto
    from types kept Some show ?thesis
      unfolding instances_of_type_def
      by (cases "type_indexes m ix ctx"; cases "type_indexes m ix' ctx") (simp_all add: context_set_def)
  qed
  then show "fst (instances_of_type m ix context t requested subtypes offset limit) =
      fst (instances_of_type m ix' context t requested subtypes offset limit)"
    "coherent m (seen \<union> context_set context) (snd (instances_of_type m ix context t requested subtypes offset limit))"
    by simp_all
qed

lemma coherent_find_by_name: "coherent m seen ix \<Longrightarrow> find_by_name m ix q = find_by_name m (build_index m []) q"
  unfolding coherent_def find_by_name_def Let_def by (elim conjE) (simp only:)

lemma coherent_dispatch:
  assumes "coherent m seen ix" "coherent m seen' ix'"
    "inj_on tc_token (seen \<union> context_set context)" "inj_on tc_token (seen' \<union> context_set context)"
  shows "fst (dispatch_indexed m ix context call) = fst (dispatch_indexed m ix' context call)"
    "coherent m (seen \<union> context_set context) (snd (dispatch_indexed m ix context call))"
proof -
  have plain: "coherent m (seen \<union> context_set context) ix" by (rule coherent_mono [OF assms(1)]) auto
  have segments: "coherent m (seen \<union> context_set context) (snd (resolve_segments m ix ss))" for ss
    by (rule coherent_mono [OF coherent_resolve_segments(2) [OF assms(1,2)]]) auto
  show "fst (dispatch_indexed m ix context call) = fst (dispatch_indexed m ix' context call)"
    using coherent_resolve_segments(1) [OF assms(1,2)] coherent_instances_of_type(1) [OF assms]
      coherent_find_by_name [OF assms(1)] coherent_find_by_name [OF assms(2)] assms(1,2)
    by (cases call) (simp_all add: dispatch_indexed_def coherent_def)
  show "coherent m (seen \<union> context_set context) (snd (dispatch_indexed m ix context call))"
    using segments coherent_instances_of_type(2) [OF assms] plain
    by (cases call) (simp_all add: dispatch_indexed_def)
qed

text \<open>The cache after a sequence of calls, each with the model's revision and the type context of its moment.\<close>

definition cache_after ::
  "BuildResult \<Rightarrow> (string \<times> type_context option \<times> access_call) list \<Rightarrow> access_index option" where
  "cache_after m calls =
     foldl (\<lambda>cache (revision, context, call). snd (invoke_model_access_tool m revision context call cache)) None calls"

definition contexts_of :: "(string \<times> type_context option \<times> access_call) list \<Rightarrow> type_context set" where
  "contexts_of calls = (\<Union>(r, context, call) \<in> set calls. context_set context)"

lemma invoke_as_dispatch:
  "invoke_model_access_tool m r context call cache =
     (if \<exists>i. call = GetBrowsePath i then (fst (invoke_model_access_tool m r context call None), cache)
      else (fst (dispatch_indexed m (index_of m r cache) context call), Some (snd (dispatch_indexed m (index_of m r cache) context call))))"
  by (cases call) (simp_all add: invoke_model_access_tool_def case_prod_beta)

lemma coherent_cache_after:
  assumes "inj_on tc_token (contexts_of calls)"
  shows "case cache_after m calls of None \<Rightarrow> True | Some ix \<Rightarrow> coherent m (contexts_of calls) ix"
  using assms
proof (induction calls rule: rev_induct)
  case (snoc c calls)
  obtain r "context" call where c: "c = (r, context, call)" by (cases c) auto
  have seen: "contexts_of (calls @ [c]) = contexts_of calls \<union> context_set context"
    by (auto simp: contexts_of_def c)
  have inj: "inj_on tc_token (contexts_of calls)" using snoc.prems by (auto simp: seen intro: inj_on_subset)
  note IH = snoc.IH [OF inj]
  have "coherent m (contexts_of calls \<union> context_set context)
      (snd (dispatch_indexed m (index_of m r (cache_after m calls)) context call))"
    by (rule coherent_dispatch(2) [OF coherent_index_of [OF IH] coherent_index_of [OF IH]])
      (use snoc.prems in \<open>simp_all add: seen\<close>)
  moreover have "cache_after m (calls @ [c]) = snd (invoke_model_access_tool m r context call (cache_after m calls))"
    by (simp add: cache_after_def c)
  ultimately show ?case
    using IH coherent_mono [of m "contexts_of calls" _ "contexts_of calls \<union> context_set context"]
    unfolding seen by (subst (asm) invoke_as_dispatch) (auto split: option.splits if_splits)
qed (simp add: cache_after_def)

text \<open>
  C20. The cached index changes no answer: whatever tools were called before on the model, under
  whatever revisions and object type contexts, every call answers as it would on a model without
  a cached index, when contexts are told apart by their identity.
\<close>

theorem cached_index_is_transparent:
  assumes "inj_on tc_token (contexts_of calls \<union> context_set context)"
  shows "fst (invoke_model_access_tool m revision context call (cache_after m calls)) =
    fst (invoke_model_access_tool m revision context call None)"
proof -
  have "inj_on tc_token (contexts_of calls)" using assms by (rule inj_on_subset) auto
  note cached = coherent_index_of [OF coherent_cache_after [OF this], of m revision]
  have fresh: "coherent m {} (index_of m revision None)" by (rule coherent_index_of) simp
  have "inj_on tc_token ({} \<union> context_set context)" using assms by (rule inj_on_subset) auto
  from coherent_dispatch(1) [OF cached fresh assms this]
  show ?thesis
    by (subst (1 2) invoke_as_dispatch) simp
qed

definition sample_context :: type_context where
  "sample_context = \<lparr>tc_token = 1, tc_revision = ''t1'', tc_namespace_infos = [], tc_object_types = [],
     tc_items = [(''PumpType'', ''ns=1;i=9'')], tc_element_ids_by_node_id = [], tc_source_type_to_element_id = []\<rparr>"

theorem cached_index_is_transparent_witness:
  "fst (invoke_model_access_tool plane_model ''r2'' (Some sample_context) (GetInstancesOfType ''PumpType'' None True 0 10)
      (cache_after plane_model [(''r1'', Some sample_context, GetInstancesOfType ''PumpType'' None False 0 5),
        (''r1'', None, ResolvePath ''a/p'')])) =
    fst (invoke_model_access_tool plane_model ''r2'' (Some sample_context) (GetInstancesOfType ''PumpType'' None True 0 10) None)"
  by (rule cached_index_is_transparent) (simp add: contexts_of_def context_set_def)

end
