(* ===== verification/Timestamps.thy ===== *)
theory Timestamps
  imports Prelude "HOL-Library.Product_Lexorder"
begin

text \<open>
  Points in time and their text form: \<open>_format_utc_timestamp\<close> of
  \<open>i3x_server/api/v1/common_helpers.py\<close>, and how the texts are ordered. A Python datetime is its
  fields in UTC; converting to UTC is the library's work.
\<close>

section \<open>Points in time\<close>

datatype datetime = UTC (dt_year: nat) (dt_month: nat) (dt_day: nat) (dt_hour: nat) (dt_minute: nat)
  (dt_second: nat) (dt_microsecond: nat)

definition whole_second :: "datetime \<Rightarrow> nat \<times> nat \<times> nat \<times> nat \<times> nat \<times> nat" where
  "whole_second d = (dt_year d, dt_month d, dt_day d, dt_hour d, dt_minute d, dt_second d)"

definition dt_key :: "datetime \<Rightarrow> (nat \<times> nat \<times> nat \<times> nat \<times> nat \<times> nat) \<times> nat" where
  "dt_key d = (whole_second d, dt_microsecond d)"

lemma dt_key_inject: "dt_key d = dt_key e \<longleftrightarrow> d = e"
  by (cases d; cases e) (simp add: dt_key_def whole_second_def)

text \<open>The datetime comparison: the fields from the year to the microsecond.\<close>

instantiation datetime :: linorder
begin

definition less_eq_datetime :: "datetime \<Rightarrow> datetime \<Rightarrow> bool" where
  "d \<le> e \<longleftrightarrow> dt_key d \<le> dt_key e"

definition less_datetime :: "datetime \<Rightarrow> datetime \<Rightarrow> bool" where
  "d < e \<longleftrightarrow> dt_key d < dt_key e"

instance
proof
  fix d e f :: datetime
  show "d < e \<longleftrightarrow> d \<le> e \<and> \<not> e \<le> d" by (auto simp: less_eq_datetime_def less_datetime_def)
  show "d \<le> d" by (simp add: less_eq_datetime_def)
  show "d \<le> e \<Longrightarrow> e \<le> f \<Longrightarrow> d \<le> f" by (simp add: less_eq_datetime_def)
  show "d \<le> e \<Longrightarrow> e \<le> d \<Longrightarrow> d = e" using dt_key_inject by (auto simp: less_eq_datetime_def)
  show "d \<le> e \<or> e \<le> d" by (auto simp: less_eq_datetime_def)
qed

end

text \<open>What Python guarantees of a datetime.\<close>

definition dt_ok :: "datetime \<Rightarrow> bool" where
  "dt_ok d \<longleftrightarrow> 1 \<le> dt_year d \<and> dt_year d < 10000 \<and> 1 \<le> dt_month d \<and> dt_month d \<le> 12 \<and> 1 \<le> dt_day d \<and> dt_day d \<le> 31
     \<and> dt_hour d < 24 \<and> dt_minute d < 60 \<and> dt_second d < 60 \<and> dt_microsecond d < 1000000"

section \<open>The text form\<close>

text \<open>\<open>%0nd\<close>, for numbers of at most \<open>n\<close> digits.\<close>

fun padded :: "nat \<Rightarrow> nat \<Rightarrow> string" where
  "padded 0 a = []"
| "padded (Suc n) a = padded n (a div 10) @ [digit_char (a mod 10)]"

text \<open>\<open>isoformat\<close> leaves the fraction out when there is none, else writes six digits.\<close>

definition format_utc_timestamp :: "datetime \<Rightarrow> string" where
  "format_utc_timestamp d =
     padded 4 (dt_year d) @ ''-'' @ padded 2 (dt_month d) @ ''-'' @ padded 2 (dt_day d) @ ''T''
     @ padded 2 (dt_hour d) @ '':'' @ padded 2 (dt_minute d) @ '':'' @ padded 2 (dt_second d)
     @ (if dt_microsecond d = 0 then [] else ''.'' @ padded 6 (dt_microsecond d)) @ ''Z''"

section \<open>The order of the texts\<close>

lemma length_padded [simp]: "length (padded n a) = n"
  by (induction n arbitrary: a) auto

lemma append_le_iff:
  fixes x y :: "'a::linorder list"
  shows "length x = length y \<Longrightarrow> x @ u \<le> y @ v \<longleftrightarrow> x < y \<or> x = y \<and> u \<le> v"
  by (induction x y rule: list_induct2) auto

lemma append_less_iff:
  fixes x y :: "'a::linorder list"
  shows "length x = length y \<Longrightarrow> x @ u < y @ v \<longleftrightarrow> x < y \<or> x = y \<and> u < v"
  by (induction x y rule: list_induct2) auto

lemma digit_char_less: "a < 10 \<Longrightarrow> b < 10 \<Longrightarrow> digit_char a < digit_char b \<longleftrightarrow> a < b"
proof -
  have "\<forall>a \<in> set [0..<10]. \<forall>b \<in> set [0..<10]. digit_char a < digit_char b \<longleftrightarrow> a < b"
    by code_simp
  then show "a < 10 \<Longrightarrow> b < 10 \<Longrightarrow> digit_char a < digit_char b \<longleftrightarrow> a < b" by simp
qed

lemma digit_char_inject: "a < 10 \<Longrightarrow> b < 10 \<Longrightarrow> digit_char a = digit_char b \<longleftrightarrow> a = b"
  using digit_char_less [of a b] digit_char_less [of b a] by (metis less_irrefl nat_neq_iff)

lemma last_digit_order:
  fixes a b :: nat
  shows "a < b \<longleftrightarrow> a div 10 < b div 10 \<or> a div 10 = b div 10 \<and> a mod 10 < b mod 10"
    "a = b \<longleftrightarrow> a div 10 = b div 10 \<and> a mod 10 = b mod 10"
proof -
  define q r s t where "q = a div 10" "r = a mod 10" "s = b div 10" "t = b mod 10"
  then have "a = 10 * q + r" "b = 10 * s + t" "r < 10" "t < 10" by simp_all
  then have "(a < b \<longleftrightarrow> q < s \<or> q = s \<and> r < t) \<and> (a = b \<longleftrightarrow> q = s \<and> r = t)" by (cases q s rule: linorder_cases) auto
  then show "a < b \<longleftrightarrow> a div 10 < b div 10 \<or> a div 10 = b div 10 \<and> a mod 10 < b mod 10"
    "a = b \<longleftrightarrow> a div 10 = b div 10 \<and> a mod 10 = b mod 10"
    by (simp_all add: q_r_s_t_def)
qed

lemma padded_inject: "a < 10 ^ n \<Longrightarrow> b < 10 ^ n \<Longrightarrow> padded n a = padded n b \<longleftrightarrow> a = b"
proof (induction n arbitrary: a b)
  case (Suc n)
  then have "a div 10 < 10 ^ n" "b div 10 < 10 ^ n" by auto
  moreover have "a = b \<longleftrightarrow> a div 10 = b div 10 \<and> a mod 10 = b mod 10"
    using last_digit_order(2) .
  ultimately show ?case using Suc.IH by (simp add: digit_char_inject)
qed simp

lemma padded_less: "a < 10 ^ n \<Longrightarrow> b < 10 ^ n \<Longrightarrow> padded n a < padded n b \<longleftrightarrow> a < b"
proof (induction n arbitrary: a b)
  case (Suc n)
  then have "a div 10 < 10 ^ n" "b div 10 < 10 ^ n" by auto
  moreover have "a < b \<longleftrightarrow> a div 10 < b div 10 \<or> a div 10 = b div 10 \<and> a mod 10 < b mod 10"
    using last_digit_order(1) .
  ultimately show ?case
    using Suc.IH by (simp add: append_less_iff digit_char_less padded_inject)
qed simp

text \<open>
  The key the texts are ordered by: within a second, the text without a fraction comes last,
  because the letter Z follows the point and the digits.
\<close>

definition text_key :: "datetime \<Rightarrow> (nat \<times> nat \<times> nat \<times> nat \<times> nat \<times> nat) \<times> nat" where
  "text_key d = (whole_second d, if dt_microsecond d = 0 then 1000000 else dt_microsecond d)"

lemma format_split:
  "format_utc_timestamp d =
     (padded 4 (dt_year d) @ ''-'' @ padded 2 (dt_month d) @ ''-'' @ padded 2 (dt_day d) @ ''T''
      @ padded 2 (dt_hour d) @ '':'' @ padded 2 (dt_minute d) @ '':'' @ padded 2 (dt_second d))
     @ (if dt_microsecond d = 0 then ''Z'' else ''.'' @ padded 6 (dt_microsecond d) @ ''Z'')"
  by (simp add: format_utc_timestamp_def)

lemma tuple_order:
  fixes a b :: "'a::linorder" and x y :: "'b::linorder"
  shows "(a, x) \<le> (b, y) \<longleftrightarrow> a < b \<or> a = b \<and> x \<le> y" "(a, x) < (b, y) \<longleftrightarrow> a < b \<or> a = b \<and> x < y"
  by auto

lemma date_text_order:
  assumes "dt_ok d" "dt_ok e"
  shows "format_utc_timestamp d \<le> format_utc_timestamp e \<longleftrightarrow> text_key d \<le> text_key e"
proof -
  have small: "dt_year d < 10 ^ 4" "dt_month d < 10 ^ 2" "dt_day d < 10 ^ 2" "dt_hour d < 10 ^ 2"
      "dt_minute d < 10 ^ 2" "dt_second d < 10 ^ 2" "dt_microsecond d < 10 ^ 6"
      "dt_year e < 10 ^ 4" "dt_month e < 10 ^ 2" "dt_day e < 10 ^ 2" "dt_hour e < 10 ^ 2"
      "dt_minute e < 10 ^ 2" "dt_second e < 10 ^ 2" "dt_microsecond e < 10 ^ 6"
    using assms by (auto simp: dt_ok_def)
  note order = padded_less [OF small(1) small(8)] padded_less [OF small(2) small(9)] padded_less [OF small(3) small(10)]
    padded_less [OF small(4) small(11)] padded_less [OF small(5) small(12)] padded_less [OF small(6) small(13)]
    padded_less [OF small(7) small(14)]
  note same = padded_inject [OF small(1) small(8)] padded_inject [OF small(2) small(9)] padded_inject [OF small(3) small(10)]
    padded_inject [OF small(4) small(11)] padded_inject [OF small(5) small(12)] padded_inject [OF small(6) small(13)]
    padded_inject [OF small(7) small(14)]
  let ?f = "\<lambda>d. if dt_microsecond d = 0 then ''Z'' else ''.'' @ padded 6 (dt_microsecond d) @ ''Z''"
  have fraction: "?f d \<le> ?f e \<longleftrightarrow>
      (if dt_microsecond d = 0 then 1000000 else dt_microsecond d) \<le> (if dt_microsecond e = 0 then 1000000 else dt_microsecond e)"
    using small(7,14) by (auto simp: append_le_iff order same)
  have texts: "format_utc_timestamp d \<le> format_utc_timestamp e \<longleftrightarrow>
      whole_second d < whole_second e \<or> whole_second d = whole_second e \<and> ?f d \<le> ?f e"
    unfolding format_split whole_second_def
    by (subst append_le_iff, simp, rule arg_cong2 [where f = "(\<or>)"])
      (simp_all add: append_less_iff order same tuple_order del: less_eq_prod_simp less_prod_simp)
  show ?thesis
    unfolding texts fraction text_key_def tuple_order ..
qed

end
