(* ===== verification/ObjectValues.thy ===== *)
theory ObjectValues
  imports SubscriptionApi Timestamps
begin

text \<open>
  Reading values: the routes for current and historical values of
  \<open>i3x_server/api/v1/object_value_routes.py\<close> and their helpers in
  \<open>i3x_server/api/v1/monolithic.py\<close>. Reading from the OPC UA server is a parameter; the clock is
  one instant per request, and logging is left out.
\<close>

section \<open>Values with quality and timestamp\<close>

text \<open>
  A status code as the library shows it: its name, and the answers of \<open>is_uncertain\<close> and
  \<open>is_good\<close>, \<open>None\<close> when it has no such method or the method raises.
\<close>

record status_code =
  sc_name :: string
  sc_is_uncertain :: "bool option"
  sc_is_good :: "bool option"

record data_value =
  dv_value :: pyval
  dv_status :: "status_code option"
  dv_source_timestamp :: "datetime option"
  dv_server_timestamp :: "datetime option"

record VQT =
  vq_value :: pyval
  vq_quality :: string
  vq_timestamp :: string

definition normalize_quality :: "status_code option \<Rightarrow> string" where
  "normalize_quality status =
     (case status of
        None \<Rightarrow> ''Good''
      | Some s \<Rightarrow>
          if sc_is_uncertain s = Some True \<or> is_substring ''uncertain'' (py_lower (sc_name s)) then ''Uncertain''
          else (case sc_is_good s of
                  Some good \<Rightarrow> if good then ''Good'' else ''Bad''
                | None \<Rightarrow> if is_substring ''good'' (py_lower (sc_name s)) then ''Good'' else ''Bad''))"

definition normalize_timestamp :: "datetime \<Rightarrow> datetime option \<Rightarrow> string" where
  "normalize_timestamp now t = format_utc_timestamp (case t of Some d \<Rightarrow> d | None \<Rightarrow> now)"

definition good_no_data_vqt :: "datetime \<Rightarrow> VQT" where
  "good_no_data_vqt now = \<lparr>vq_value = PNone, vq_quality = ''GoodNoData'', vq_timestamp = format_utc_timestamp now\<rparr>"

definition vqt_from_data_value :: "datetime \<Rightarrow> data_value \<Rightarrow> VQT" where
  "vqt_from_data_value now dv =
     (let quality = normalize_quality (dv_status dv);
          timestamp = (case dv_source_timestamp dv of Some t \<Rightarrow> Some t | None \<Rightarrow> dv_server_timestamp dv);
          safe = to_json_safe_value (dv_value dv)
      in \<lparr>vq_value = safe,
          vq_quality = (if safe = PNone \<and> quality \<notin> {''Bad'', ''GoodNoData''} then ''GoodNoData'' else quality),
          vq_timestamp = normalize_timestamp now timestamp\<rparr>)"

section \<open>Composition components\<close>

definition child_nodes :: "BuildResult \<Rightarrow> ModelNode \<Rightarrow> ModelNode list" where
  "child_nodes m n = List.map_filter (node_of m) (composition_children_for_node m n)"

text \<open>
  The breadth-first loop over (element, depth). It ends: each turn either visits an element of the
  model for the first time or shortens the queue.
\<close>

function component_loop ::
  "BuildResult \<Rightarrow> nat \<Rightarrow> (string \<times> nat) list \<Rightarrow> string list \<Rightarrow> ModelNode list \<Rightarrow> ModelNode list" where
  "component_loop m max_depth queue visited components =
     (case queue of
        [] \<Rightarrow> components
      | (i, depth) # rest \<Rightarrow>
          if i \<in> set visited then component_loop m max_depth rest visited components
          else if max_depth > 0 \<and> depth \<ge> max_depth then component_loop m max_depth rest (i # visited) components
          else (case node_of m i of
                  None \<Rightarrow> component_loop m max_depth rest (i # visited) components
                | Some n \<Rightarrow>
                    component_loop m max_depth
                      (rest @ map (\<lambda>c. (mn_id c, depth + 1)) (filter (\<lambda>c. mn_kind c \<noteq> Property) (child_nodes m n)))
                      (i # visited)
                      (components @ filter (\<lambda>c. mn_kind c = Property) (child_nodes m n))))"
  by pat_completeness auto

lemma unvisited_mono:
  "length (filter (\<lambda>k. k \<notin> set (i # visited)) ks) \<le> length (filter (\<lambda>k. k \<notin> set visited) ks)"
  by (induction ks) auto

termination component_loop
proof (relation "measures [\<lambda>(m, max_depth, queue, visited, components).
      length (filter (\<lambda>k. k \<notin> set visited) (dict_keys (br_nodes_by_id m))),
      \<lambda>(m, max_depth, queue, visited, components). length queue]", goal_cases)
  case (3 m max_depth queue visited components p rest i depth)
  then show ?case using unvisited_mono [of i visited "dict_keys (br_nodes_by_id m)"] by auto
next
  case (4 m max_depth queue visited components p rest i depth)
  then show ?case using unvisited_mono [of i visited "dict_keys (br_nodes_by_id m)"] by auto
next
  case (5 m max_depth queue visited components p rest i depth n)
  then show ?case using unmarked_keys_less [of "br_nodes_by_id m" i visited] by auto
qed auto

declare component_loop.simps [simp del]

definition collect_value_component_nodes :: "BuildResult \<Rightarrow> ModelNode \<Rightarrow> nat \<Rightarrow> ModelNode list" where
  "collect_value_component_nodes m start max_depth =
     (if max_depth = 1 then [] else component_loop m max_depth [(mn_id start, 0)] [] [])"

section \<open>Current values\<close>

record CurrentValueResult =
  cv_is_composition :: bool
  cv_value :: pyval
  cv_quality :: string
  cv_timestamp :: string
  cv_components :: "(string, VQT) dict option"

text \<open>The source nodes to read for one resolved element, and all component lists by element id.\<close>

definition value_sources :: "BuildResult \<Rightarrow> nat \<Rightarrow> string \<times> ModelNode option \<Rightarrow> string list" where
  "value_sources m max_depth resolved =
     (case snd resolved of
        None \<Rightarrow> []
      | Some n \<Rightarrow> (if mn_kind n = Property then [mn_source_node_id n] else [])
                 @ map mn_source_node_id (collect_value_component_nodes m n max_depth))"

definition component_nodes_by_element_id ::
  "BuildResult \<Rightarrow> nat \<Rightarrow> (string \<times> ModelNode option) list \<Rightarrow> (string, ModelNode list) dict" where
  "component_nodes_by_element_id m max_depth resolved =
     dict_of_list [(e, collect_value_component_nodes m n max_depth). (e, Some n) \<leftarrow> resolved]"

definition read_values_by_node_id ::
  "(string list \<Rightarrow> data_value list result) \<Rightarrow> string list \<Rightarrow> (string, data_value) dict result" where
  "read_values_by_node_id read_data_values node_ids =
     (if node_ids = [] then Inr []
      else case read_data_values node_ids of
        Inl _ \<Rightarrow> Inl (HTTPException 502 ''Failed to read values'')
      | Inr dvs \<Rightarrow> Inr (dict_of_list (zip node_ids dvs)))"

definition vqt_of :: "datetime \<Rightarrow> (string, data_value) dict \<Rightarrow> ModelNode \<Rightarrow> VQT" where
  "vqt_of now values n =
     (case dict_get values (mn_source_node_id n) of
        Some dv \<Rightarrow> vqt_from_data_value now dv
      | None \<Rightarrow> good_no_data_vqt now)"

definition current_value_result ::
  "BuildResult \<Rightarrow> datetime \<Rightarrow> (string, data_value) dict \<Rightarrow> ModelNode \<Rightarrow> ModelNode list \<Rightarrow> CurrentValueResult" where
  "current_value_result m now values n component_nodes =
     (let vqt = vqt_of now values n;
          components = dict_of_list (map (\<lambda>c. (mn_id c, vqt_of now values c)) component_nodes)
      in \<lparr>cv_is_composition = (composition_children_for_node m n \<noteq> []), cv_value = vq_value vqt,
          cv_quality = vq_quality vqt, cv_timestamp = vq_timestamp vqt,
          cv_components = (if components = [] then None else Some components)\<rparr>)"

definition query_last_known_values ::
  "BuildResult \<Rightarrow> datetime \<Rightarrow> (string list \<Rightarrow> data_value list result) \<Rightarrow> string list \<Rightarrow> nat
   \<Rightarrow> (bool \<times> CurrentValueResult BulkResultItem list) result" where
  "query_last_known_values m now read_data_values element_ids max_depth =
     (let resolved = resolve_model_nodes m element_ids;
          component_nodes = component_nodes_by_element_id m max_depth resolved
      in rbind (read_values_by_node_id read_data_values (concat (map (value_sources m max_depth) resolved)))
           (\<lambda>values. Inr (bulk_response (map (\<lambda>(e, node).
              case node of
                None \<Rightarrow> bulk_result_error e (''Element not found: '' @ e) 404
              | Some n \<Rightarrow> bulk_result_success e
                  (Some (current_value_result m now values n (dict_get_def component_nodes e [])))) resolved))))"

section \<open>Historical values\<close>

datatype HistoricalValueResult = HistoricalValueResult
  (hv_is_composition: bool) (hv_values: "VQT list") (hv_components: "(string \<times> HistoricalValueResult) list option")

text \<open>
  A client time: trimmed, a final Z as an offset, then \<open>datetime.fromisoformat\<close> (a parameter,
  with the result in UTC). Only the end of the range may not precede the start.
\<close>

definition parse_iso_datetime :: "(string \<Rightarrow> datetime option) \<Rightarrow> string \<Rightarrow> string \<Rightarrow> datetime result" where
  "parse_iso_datetime fromisoformat v field_name =
     (let t = py_strip v;
          normalized = (if t \<noteq> [] \<and> last t = CHR ''Z'' then butlast t @ ''+00:00'' else t)
      in case fromisoformat normalized of
           None \<Rightarrow> Inl (HTTPException 400 (''Invalid ISO 8601 timestamp for '' @ [CHR 0x27] @ field_name @ [CHR 0x27]))
         | Some d \<Rightarrow> Inr d)"

definition parse_history_time_range ::
  "(string \<Rightarrow> datetime option) \<Rightarrow> string \<Rightarrow> string \<Rightarrow> (datetime \<times> datetime) result" where
  "parse_history_time_range fromisoformat start_time end_time =
     rbind (parse_iso_datetime fromisoformat start_time ''startTime'') (\<lambda>s.
       rbind (parse_iso_datetime fromisoformat end_time ''endTime'') (\<lambda>e.
         if s > e then Inl (HTTPException 400 ''startTime must be less than or equal to endTime'') else Inr (s, e)))"

record history_lookup =
  hl_node :: ModelNode
  hl_own_sources :: "ModelNode list"
  hl_component_nodes :: "ModelNode list"

definition collect_history_lookup :: "BuildResult \<Rightarrow> nat \<Rightarrow> (string \<times> ModelNode option) list \<Rightarrow> (string \<times> history_lookup) list" where
  "collect_history_lookup m max_depth resolved =
     [(e, \<lparr>hl_node = n, hl_own_sources = (if mn_kind n = Property then [n] else []),
           hl_component_nodes = collect_value_component_nodes m n max_depth\<rparr>). (e, Some n) \<leftarrow> resolved]"

definition history_node_ids :: "(string \<times> history_lookup) list \<Rightarrow> string list" where
  "history_node_ids entries =
     concat (map (\<lambda>(e, h). map mn_source_node_id (hl_own_sources h) @ map mn_source_node_id (hl_component_nodes h)) entries)"

text \<open>\<open>list(dict.fromkeys(ids))\<close>: the first occurrences, in order.\<close>

definition unique_ids :: "string list \<Rightarrow> string list" where
  "unique_ids ids = rev (remdups (rev ids))"

definition history_vqts :: "datetime \<Rightarrow> (string, data_value list) dict \<Rightarrow> ModelNode \<Rightarrow> VQT list" where
  "history_vqts now values n = map (vqt_from_data_value now) (dict_get_def values (mn_source_node_id n) [])"

definition build_historical_value_result ::
  "BuildResult \<Rightarrow> datetime \<Rightarrow> (string, data_value list) dict \<Rightarrow> history_lookup \<Rightarrow> HistoricalValueResult" where
  "build_historical_value_result m now values h =
     (let own = sort_key vq_timestamp (concat (map (history_vqts now values) (hl_own_sources h)));
          components = dict_of_list (map (\<lambda>c. (mn_id c, HistoricalValueResult (composition_children_for_node m c \<noteq> [])
            (sort_key vq_timestamp (history_vqts now values c)) None)) (hl_component_nodes h))
      in HistoricalValueResult (composition_children_for_node m (hl_node h) \<noteq> []) own
           (if components = [] then None else Some components))"

definition query_historical_values ::
  "BuildResult \<Rightarrow> datetime \<Rightarrow> (string \<Rightarrow> datetime option)
   \<Rightarrow> (string list \<Rightarrow> datetime \<Rightarrow> datetime \<Rightarrow> (string, data_value list) dict result)
   \<Rightarrow> string list \<Rightarrow> string \<Rightarrow> string \<Rightarrow> nat \<Rightarrow> (bool \<times> HistoricalValueResult BulkResultItem list) result" where
  "query_historical_values m now fromisoformat read_history_values element_ids start_time end_time max_depth =
     (let resolved = resolve_model_nodes m element_ids in
      rbind (parse_history_time_range fromisoformat start_time end_time) (\<lambda>(s, e).
        let entries = collect_history_lookup m max_depth resolved;
            node_ids = history_node_ids entries;
            values = (if node_ids = [] then Inr []
                      else case read_history_values (unique_ids node_ids) s e of
                        Inl _ \<Rightarrow> Inl (HTTPException 502 ''Failed to read historical values'')
                      | Inr vs \<Rightarrow> Inr vs)
        in rbind values (\<lambda>values. Inr (bulk_response (map (\<lambda>i.
             case dict_get (dict_of_list entries) i of
               None \<Rightarrow> bulk_result_error i ''Object not found'' 404
             | Some h \<Rightarrow>
                 if hl_own_sources h = [] \<and> hl_component_nodes h = []
                 then bulk_result_error i ''Object history not found'' 404
                 else bulk_result_success i (Some (build_historical_value_result m now values h)))
           element_ids)))))"

end
