(* ===== verification/ObjectWrites.thy ===== *)
theory ObjectWrites
  imports ObjectValues "HOL-Library.Word"
begin

text \<open>
  Writing values: the update routes of \<open>i3x_server/api/v1/object_value_routes.py\<close>, their helpers in
  \<open>monolithic.py\<close>, and \<open>write_validation.py\<close>. The OPC UA server is a parameter: each answer may
  depend on the writes it has got so far, which the model keeps as a log. The JSON schema library is
  a parameter too. Logging and the diagnostics no caller reads are left out.
\<close>

section \<open>Values to write\<close>

text \<open>A JSON value, or bytes once a base64 string has been decoded.\<close>

datatype wire_value = Json pyval | Bytes "8 word list"

text \<open>\<open>_normalize_write_payload\<close>: a dictionary of value, quality and timestamp stands for its value.\<close>

definition normalize_write_payload :: "pyval \<Rightarrow> pyval" where
  "normalize_write_payload payload =
     (case payload of
        PDict kvs \<Rightarrow>
          (case dict_get kvs ''value'' of
             Some v \<Rightarrow> if set (dict_keys kvs) \<subseteq> {''value'', ''quality'', ''timestamp''} then v else payload
           | None \<Rightarrow> payload)
      | _ \<Rightarrow> payload)"

text \<open>
  \<open>base64.b64decode(validate=True)\<close>: characters of the alphabet, then the padding that completes
  the last group of four. Surplus bits of the last character are dropped.
\<close>

definition b64_alphabet :: string where
  "b64_alphabet = ''ABCDEFGHIJKLMNOPQRSTUVWXYZabcdefghijklmnopqrstuvwxyz0123456789+/''"

definition b64_digit :: "char \<Rightarrow> nat option" where
  "b64_digit c = (if c \<in> set b64_alphabet then Some (length (takeWhile (\<lambda>d. d \<noteq> c) b64_alphabet)) else None)"

fun b64_bytes :: "nat list \<Rightarrow> 8 word list option" where
  "b64_bytes [] = Some []"
| "b64_bytes [a] = None"
| "b64_bytes [a, b] = Some [of_nat (a * 4 + b div 16)]"
| "b64_bytes [a, b, c] = Some [of_nat (a * 4 + b div 16), of_nat (b mod 16 * 16 + c div 4)]"
| "b64_bytes (a # b # c # d # r) =
     map_option (\<lambda>bs. of_nat (a * 4 + b div 16) # of_nat (b mod 16 * 16 + c div 4) # of_nat (c mod 4 * 64 + d) # bs)
       (b64_bytes r)"

definition b64decode :: "string \<Rightarrow> 8 word list option" where
  "b64decode s =
     (let body = takeWhile (\<lambda>c. c \<noteq> CHR ''='') s; padding = drop (length body) s in
      if list_all (\<lambda>c. c \<in> set b64_alphabet) body \<and> list_all (\<lambda>c. c = CHR ''='') padding
         \<and> length padding = (if length body mod 4 = 0 then 0 else 4 - length body mod 4)
      then b64_bytes (List.map_filter b64_digit body) else None)"

definition variant_name :: "string option \<Rightarrow> string" where
  "variant_name variant_type = (case variant_type of None \<Rightarrow> [] | Some t \<Rightarrow> py_lower (py_strip t))"

definition decode_bytestring_write_value :: "pyval \<Rightarrow> string option \<Rightarrow> wire_value result" where
  "decode_bytestring_write_value v variant_type =
     (case v of
        PStr s \<Rightarrow>
          if variant_type \<noteq> None \<and> variant_name variant_type = ''bytestring''
          then (case b64decode s of Some bs \<Rightarrow> Inr (Bytes bs) | None \<Rightarrow> Inl (ValueError ''Invalid base64 ByteString''))
          else Inr (Json v)
      | _ \<Rightarrow> Inr (Json v))"

fun is_int :: "wire_value \<Rightarrow> bool" where
  "is_int (Json (PInt i)) = True"
| "is_int _ = False"

fun is_float :: "wire_value \<Rightarrow> bool" where
  "is_float (Json (PFloat r)) = True"
| "is_float (Json PNan) = True"
| "is_float _ = False"

fun is_str :: "wire_value \<Rightarrow> bool" where
  "is_str (Json (PStr s)) = True"
| "is_str _ = False"

fun is_bool :: "wire_value \<Rightarrow> bool" where
  "is_bool (Json (PBool b)) = True"
| "is_bool _ = False"

fun is_bytes :: "wire_value \<Rightarrow> bool" where
  "is_bytes (Bytes bs) = True"
| "is_bytes _ = False"

definition is_valid_write_type :: "wire_value \<Rightarrow> string option \<Rightarrow> bool" where
  "is_valid_write_type v variant_type =
     (if variant_type = None then True
      else let t = variant_name variant_type in
        if t = ''boolean'' then is_bool v
        else if t \<in> {''sbyte'', ''byte'', ''int16'', ''uint16'', ''int32'', ''uint32'', ''int64'', ''uint64''} then is_int v
        else if t \<in> {''float'', ''double''} then is_int v \<or> is_float v
        else if t \<in> {''string'', ''localizedtext'', ''qualifiedname''} then is_str v
        else if t = ''bytestring'' then is_bytes v
        else if t \<in> {''datetime'', ''guid''} then is_str v
        else True)"

text \<open>The status and class of a write error, from the text of the exception.\<close>

definition classify_write_error :: "string \<Rightarrow> int \<times> string" where
  "classify_write_error exc =
     (let text = py_lower exc in
      if is_substring ''baduseraccessdenied'' text \<or> is_substring ''access denied'' text \<or> is_substring ''permission'' text
      then (403, ''unauthorized_by_opcua_server'')
      else if is_substring ''badnotwritable'' text \<or> is_substring ''not writable'' text
      then (403, ''target_not_writable'')
      else if is_substring ''badtype'' text \<or> is_substring ''mismatch'' text \<or> is_substring ''outofrange'' text
      then (400, ''bad_type_or_range'')
      else (502, ''session_or_transport_failure''))"

text \<open>\<open>str.isprintable\<close> on the range of characters.\<close>

definition py_isprintable :: "string \<Rightarrow> bool" where
  "py_isprintable s = list_all (\<lambda>c. let n = of_char c :: nat in
     (32 \<le> n \<and> n < 127) \<or> (161 \<le> n \<and> n \<noteq> 173)) s"

definition validate_write_element_id :: "string \<Rightarrow> string result" where
  "validate_write_element_id e =
     (if e = [] \<or> e \<noteq> py_strip e \<or> \<not> py_isprintable e
      then Inl (ValueError ''elementId must be non-empty, printable, and have no surrounding whitespace'')
      else Inr e)"

section \<open>Schema validation\<close>

text \<open>A reference to anything but a part of the schema itself.\<close>

function local_references :: "pyval \<Rightarrow> bool" where
  "local_references v =
     (case v of
        PDict kvs \<Rightarrow> list_all (\<lambda>(k, x).
          (k \<in> {''$ref'', ''$dynamicRef'', ''$recursiveRef''} \<longrightarrow>
             (case x of PStr s \<Rightarrow> startswith s ''#'' | _ \<Rightarrow> False)) \<and> local_references x) kvs
      | PList xs \<Rightarrow> list_all local_references xs
      | _ \<Rightarrow> True)"
  by pat_completeness auto

termination local_references
  by (relation "measure size") (auto simp: less_Suc_eq_le dest!: size_snd_mem intro: size_list_estimation')

declare local_references.simps [simp del]

text \<open>
  The object types a request validates against, as element ids with schemas, and the outcomes the
  schema library has: a value fits, does not fit (where, why), the schema is malformed, or the
  evaluation fails otherwise.
\<close>

record schema_context =
  sx_namespace_infos :: "OpcUaNamespaceInfo list"
  sx_element_ids_by_node_id :: "(string, string) dict"
  sx_source_type_to_element_id :: "(string, string) dict"
  sx_schemas :: "(string \<times> pyval) list"

datatype schema_outcome = Conforms | Violates string string | Malformed | Unevaluable

type_synonym write_error = "int \<times> string"

definition validate_value ::
  "schema_context option \<Rightarrow> (pyval \<Rightarrow> pyval \<Rightarrow> schema_outcome) \<Rightarrow> ModelNode \<Rightarrow> pyval \<Rightarrow> write_error option" where
  "validate_value context evaluate n v =
     (case context of
        None \<Rightarrow> Some (502, ''Unable to resolve ObjectType schema for writes'')
      | Some ctx \<Rightarrow>
          (let type_id = resolved_type_element_id_for_node n (sx_namespace_infos ctx)
                 (sx_element_ids_by_node_id ctx) (sx_source_type_to_element_id ctx)
           in case map_of (sx_schemas ctx) type_id of
                None \<Rightarrow> Some (502, ''ObjectType schema unavailable: '' @ type_id)
              | Some schema \<Rightarrow>
                  if \<not> local_references schema
                  then Some (502, ''ObjectType schema contains an unsupported external reference'')
                  else (case evaluate schema v of
                     Conforms \<Rightarrow> None
                   | Violates path message \<Rightarrow>
                       Some (400, ''Value does not conform to ObjectType '' @ type_id @ '' at '' @ path @ '': '' @ message)
                   | Malformed \<Rightarrow> Some (502, ''Invalid ObjectType schema: '' @ type_id)
                   | Unevaluable \<Rightarrow> Some (502, ''Unable to evaluate ObjectType schema: '' @ type_id))))"

section \<open>Writing current values\<close>

record write_call =
  wc_node_id :: string
  wc_value :: wire_value
  wc_variant_type :: "string option"
  wc_quality :: string
  wc_timestamp :: datetime

datatype write_outcome = Written | MetadataUnsupported string | MetadataUnverified string | WriteRaised string

text \<open>
  The server seen by the routes; a failing call is the text of its exception. The first argument is
  the log of the writes so far.
\<close>

record write_server =
  ws_access :: "write_call list \<Rightarrow> string \<Rightarrow> string + (bool \<times> bool)"
  ws_read :: "write_call list \<Rightarrow> string list \<Rightarrow> string + data_value list"
  ws_variant_type :: "write_call list \<Rightarrow> string \<Rightarrow> string + string option"
  ws_write :: "write_call list \<Rightarrow> write_call \<Rightarrow> write_outcome"

text \<open>\<open>json.dumps(v, sort_keys=True)\<close> up to the rendering of scalars: dictionaries in key order.\<close>

function sort_keys :: "pyval \<Rightarrow> pyval" where
  "sort_keys v =
     (case v of
        PDict kvs \<Rightarrow> PDict (sort_key fst (map (\<lambda>(k, x). (k, sort_keys x)) kvs))
      | PList xs \<Rightarrow> PList (map sort_keys xs)
      | _ \<Rightarrow> v)"
  by pat_completeness auto

termination sort_keys
  by (relation "measure size") (auto simp: less_Suc_eq_le dest!: size_snd_mem intro: size_list_estimation')

declare sort_keys.simps [simp del]

definition json_equivalent :: "pyval \<Rightarrow> pyval \<Rightarrow> bool" where
  "json_equivalent a b = (sort_keys (to_json_safe_value a) = sort_keys (to_json_safe_value b))"

definition is_noop_write ::
  "write_server \<Rightarrow> write_call list \<Rightarrow> datetime \<Rightarrow> string \<Rightarrow> pyval \<Rightarrow> string \<Rightarrow> datetime \<Rightarrow> bool" where
  "is_noop_write server sent now node_id v quality timestamp =
     (case ws_read server sent [node_id] of
        Inl _ \<Rightarrow> False
      | Inr [] \<Rightarrow> False
      | Inr (dv # _) \<Rightarrow>
          (let vqt = vqt_from_data_value now dv in
           json_equivalent (vq_value vqt) v \<and> vq_quality vqt = quality \<and> dv_source_timestamp dv = Some timestamp))"

text \<open>The outcome of one update: status and message; status 200 is success.\<close>

definition write_object_value ::
  "write_server \<Rightarrow> (ModelNode \<Rightarrow> pyval \<Rightarrow> write_error option) \<Rightarrow> BuildResult \<Rightarrow> datetime
   \<Rightarrow> string \<Rightarrow> pyval \<Rightarrow> string \<Rightarrow> datetime \<Rightarrow> write_call list \<Rightarrow> write_error \<times> write_call list" where
  "write_object_value server validate m now e payload quality timestamp sent =
     (let v = normalize_write_payload payload in
      case validate_write_element_id e of
        Inl (ValueError text) \<Rightarrow> ((400, text), sent)
      | Inl _ \<Rightarrow> ((400, []), sent)
      | Inr _ \<Rightarrow>
      (case find_model_node m e of
        None \<Rightarrow> ((404, ''Element not found: '' @ e), sent)
      | Some n \<Rightarrow>
         if mn_kind n \<noteq> Property then ((400, ''bad_type_or_range''), sent)
         else (case validate n v of
           Some err \<Rightarrow> (err, sent)
         | None \<Rightarrow>
           (case ws_access server sent (mn_source_node_id n) of
             Inl exc \<Rightarrow> (classify_write_error exc, sent)
           | Inr (writable, user_writable) \<Rightarrow>
             if \<not> writable \<or> \<not> user_writable
             then (if is_noop_write server sent now (mn_source_node_id n) v quality timestamp
                   then ((200, ''ok''), sent) else ((403, ''target_not_writable''), sent))
             else (case ws_variant_type server sent (mn_source_node_id n) of
               Inl exc \<Rightarrow> (classify_write_error exc, sent)
             | Inr variant_type \<Rightarrow>
               (case decode_bytestring_write_value v variant_type of
                 Inl _ \<Rightarrow> ((400, ''bad_type_or_range''), sent)
               | Inr w \<Rightarrow>
                 if w \<noteq> Json PNone \<and> \<not> is_valid_write_type w variant_type then ((400, ''bad_type_or_range''), sent)
                 else
                   (let call = \<lparr>wc_node_id = mn_source_node_id n, wc_value = w, wc_variant_type = variant_type,
                                wc_quality = quality, wc_timestamp = timestamp\<rparr> in
                    ((case ws_write server sent call of
                        Written \<Rightarrow> (200, ''ok'')
                      | MetadataUnsupported text \<Rightarrow> (501, text)
                      | MetadataUnverified text \<Rightarrow> (502, text)
                      | WriteRaised exc \<Rightarrow> classify_write_error exc), sent @ [call]))))))))"

record value_update =
  vu_element_id :: string
  vu_value :: pyval
  vu_quality :: string
  vu_timestamp :: datetime

definition update_item :: "string \<Rightarrow> write_error \<Rightarrow> unit BulkResultItem" where
  "update_item e outcome =
     (if fst outcome = 200 then bulk_result_success e None else bulk_result_error e (snd outcome) (fst outcome))"

fun write_updates ::
  "write_server \<Rightarrow> (ModelNode \<Rightarrow> pyval \<Rightarrow> write_error option) \<Rightarrow> BuildResult \<Rightarrow> datetime
   \<Rightarrow> value_update list \<Rightarrow> write_call list \<Rightarrow> unit BulkResultItem list \<times> write_call list" where
  "write_updates server validate m now [] sent = ([], sent)"
| "write_updates server validate m now (u # us) sent =
     (let (outcome, sent1) = write_object_value server validate m now (vu_element_id u) (vu_value u)
            (vu_quality u) (vu_timestamp u) sent;
          (items, sent2) = write_updates server validate m now us sent1
      in (update_item (vu_element_id u) outcome # items, sent2))"

definition update_object_values ::
  "bool \<Rightarrow> write_server \<Rightarrow> (ModelNode \<Rightarrow> pyval \<Rightarrow> write_error option) \<Rightarrow> BuildResult \<Rightarrow> datetime
   \<Rightarrow> value_update list \<Rightarrow> write_call list \<Rightarrow> (bool \<times> unit BulkResultItem list) result \<times> write_call list" where
  "update_object_values writes_enabled server validate m now updates sent =
     (if \<not> writes_enabled
      then (Inl (HTTPException 501 ''Current value updates is not implemented in this server''), sent)
      else let (items, sent') = write_updates server validate m now updates sent in (Inr (bulk_response items), sent'))"

end
