(* ===== verification/HistoryWrites.thy ===== *)
theory HistoryWrites
  imports ObjectWrites
begin

text \<open>
  Writing historical values: the conversion of \<open>i3x_server/infrastructure/opcua/history.py\<close>,
  \<open>write_history_value\<close> and \<open>read_history_write_access\<close> of
  \<open>i3x_server/infrastructure/opcua/client.py\<close>, and the history update route of
  \<open>object_value_routes.py\<close>. The exchange with the OPC UA server is a parameter, and so are the
  parsers of timestamps and UUIDs. Timestamps carry a time zone by the type of the request.
\<close>

section \<open>Converting values\<close>

datatype variant_type = VNull | VBoolean | VSByte | VByte | VInt16 | VUInt16 | VInt32 | VUInt32 | VInt64 | VUInt64
  | VFloat | VDouble | VString | VDateTime | VGuid | VByteString | VOther string

definition variant_type_name :: "variant_type \<Rightarrow> string" where
  "variant_type_name t =
     (case t of VNull \<Rightarrow> ''Null'' | VBoolean \<Rightarrow> ''Boolean'' | VSByte \<Rightarrow> ''SByte'' | VByte \<Rightarrow> ''Byte''
      | VInt16 \<Rightarrow> ''Int16'' | VUInt16 \<Rightarrow> ''UInt16'' | VInt32 \<Rightarrow> ''Int32'' | VUInt32 \<Rightarrow> ''UInt32''
      | VInt64 \<Rightarrow> ''Int64'' | VUInt64 \<Rightarrow> ''UInt64'' | VFloat \<Rightarrow> ''Float'' | VDouble \<Rightarrow> ''Double''
      | VString \<Rightarrow> ''String'' | VDateTime \<Rightarrow> ''DateTime'' | VGuid \<Rightarrow> ''Guid'' | VByteString \<Rightarrow> ''ByteString''
      | VOther n \<Rightarrow> n)"

datatype scalar = SInt int | SFloat real | SBool bool | SStr string | STime datetime | SGuid string | SBytes "8 word list"

datatype converted = Scalar scalar | Array "converted list"

text \<open>The width of an integer type and whether it is signed, \<open>_INTEGER_BITS\<close>.\<close>

definition integer_bits :: "variant_type \<Rightarrow> (nat \<times> bool) option" where
  "integer_bits t =
     (case t of VSByte \<Rightarrow> Some (8, True) | VByte \<Rightarrow> Some (8, False) | VInt16 \<Rightarrow> Some (16, True)
      | VUInt16 \<Rightarrow> Some (16, False) | VInt32 \<Rightarrow> Some (32, True) | VUInt32 \<Rightarrow> Some (32, False)
      | VInt64 \<Rightarrow> Some (64, True) | VUInt64 \<Rightarrow> Some (64, False) | _ \<Rightarrow> None)"

definition supported_type :: "variant_type \<Rightarrow> bool" where
  "supported_type t =
     (integer_bits t \<noteq> None \<or> t \<in> {VBoolean, VFloat, VDouble, VString, VDateTime, VGuid, VByteString})"

text \<open>\<open>float(i)\<close>: 53 significant bits, ties to even; \<open>None\<close> is the overflow.\<close>

fun bit_length :: "nat \<Rightarrow> nat" where
  "bit_length n = (if n = 0 then 0 else Suc (bit_length (n div 2)))"

declare bit_length.simps [simp del]

definition round_to_53_bits :: "nat \<Rightarrow> nat" where
  "round_to_53_bits n =
     (let e = bit_length n - 53; q = n div 2 ^ e; r = n mod 2 ^ e in
      (if 2 * r > 2 ^ e \<or> (2 * r = 2 ^ e \<and> e > 0 \<and> odd q) then q + 1 else q) * 2 ^ e)"

definition py_float_of_int :: "int \<Rightarrow> real option" where
  "py_float_of_int i =
     (let n = round_to_53_bits (nat \<bar>i\<bar>) in
      if n \<ge> 2 ^ 1024 then None else Some (if i < 0 then - of_nat n else of_nat n))"

text \<open>The largest single-precision float, and \<open>inf\<close> as no limit.\<close>

definition float_limit :: "variant_type \<Rightarrow> real option" where
  "float_limit t = (if t = VFloat then Some ((2 ^ 24 - 1) * 2 ^ 104) else None)"

definition fits_limit :: "real option \<Rightarrow> real \<Rightarrow> bool" where
  "fits_limit limit x = (case limit of None \<Rightarrow> True | Some b \<Rightarrow> \<bar>x\<bar> \<le> b)"

text \<open>The parsers: the instant and whether the text has a time zone; the canonical form of a UUID.\<close>

record parsers =
  p_fromisoformat :: "string \<Rightarrow> (datetime \<times> bool) option"
  p_uuid :: "string \<Rightarrow> string option"

text \<open>\<open>value.replace("Z", "+00:00")\<close>.\<close>

definition replace_z :: "string \<Rightarrow> string" where
  "replace_z s = concat (map (\<lambda>c. if c = CHR ''Z'' then ''+00:00'' else [c]) s)"

definition not_conforming :: "variant_type \<Rightarrow> 'a result" where
  "not_conforming t = Inl (ValueError (''Value does not conform to OPC UA '' @ variant_type_name t))"

definition convert_float :: "variant_type \<Rightarrow> real \<Rightarrow> scalar result" where
  "convert_float t x = (if fits_limit (float_limit t) x then Inr (SFloat x) else not_conforming t)"

definition convert_scalar :: "parsers \<Rightarrow> pyval \<Rightarrow> variant_type \<Rightarrow> scalar result" where
  "convert_scalar P v t =
     (case integer_bits t of
        Some (bits, has_sign) \<Rightarrow>
          (case v of
             PInt i \<Rightarrow>
               (let minimum = (if has_sign then - (2 ^ (bits - 1)) else 0);
                    maximum = 2 ^ (bits - (if has_sign then 1 else 0)) - 1
                in if minimum \<le> i \<and> i \<le> maximum then Inr (SInt i) else not_conforming t)
           | _ \<Rightarrow> not_conforming t)
      | None \<Rightarrow>
        if t \<in> {VFloat, VDouble} then
          (case v of
             PInt i \<Rightarrow> (case py_float_of_int i of
                None \<Rightarrow> Inl (ValueError ''Numeric value is out of range'')
              | Some x \<Rightarrow> convert_float t x)
           | PFloat x \<Rightarrow> convert_float t x
           | _ \<Rightarrow> not_conforming t)
        else if t = VBoolean then (case v of PBool b \<Rightarrow> Inr (SBool b) | _ \<Rightarrow> not_conforming t)
        else if t = VString then (case v of PStr s \<Rightarrow> Inr (SStr s) | _ \<Rightarrow> not_conforming t)
        else if t = VDateTime then
          (case v of
             PStr s \<Rightarrow> (case p_fromisoformat P (replace_z s) of
                None \<Rightarrow> Inl (ValueError ''Invalid isoformat string'')
              | Some (d, aware) \<Rightarrow> if aware then Inr (STime d) else not_conforming t)
           | _ \<Rightarrow> not_conforming t)
        else if t = VGuid then
          (case v of
             PStr s \<Rightarrow> (case p_uuid P s of
                None \<Rightarrow> Inl (ValueError ''badly formed hexadecimal UUID string'')
              | Some u \<Rightarrow> Inr (SGuid u))
           | _ \<Rightarrow> not_conforming t)
        else if t = VByteString then
          (case v of
             PStr s \<Rightarrow> (case b64decode s of
                None \<Rightarrow> Inl (ValueError ''Invalid base64 ByteString'')
              | Some bs \<Rightarrow> Inr (SBytes bs))
           | _ \<Rightarrow> not_conforming t)
        else Inl (ValueError (''Historical writes for '' @ variant_type_name t @ '' values are not supported'')))"

text \<open>A converted value and its shape; the shapes of the items of an array agree.\<close>

fun convert_value :: "parsers \<Rightarrow> variant_type \<Rightarrow> pyval \<Rightarrow> (converted \<times> nat list) result"
  and convert_values :: "parsers \<Rightarrow> variant_type \<Rightarrow> pyval list \<Rightarrow> (converted \<times> nat list) list result" where
  "convert_value P t (PList xs) =
     rbind (convert_values P t xs) (\<lambda>cs.
       let child_shape = (if cs = [] then [] else snd (hd cs)) in
       if list_ex (\<lambda>c. snd c \<noteq> child_shape) cs
       then Inl (ValueError ''Arrays must be rectangular and contain values of the declared type'')
       else Inr (Array (map fst cs), length xs # child_shape))"
| "convert_value P t v = rbind (convert_scalar P v t) (\<lambda>s. Inr (Scalar s, []))"
| "convert_values P t [] = Inr []"
| "convert_values P t (x # xs) =
     rbind (convert_value P t x) (\<lambda>c. rbind (convert_values P t xs) (\<lambda>cs. Inr (c # cs)))"

definition rank_violated :: "int \<Rightarrow> nat \<Rightarrow> bool" where
  "rank_violated value_rank dimensions =
     ((value_rank = -1 \<and> dimensions \<noteq> 0) \<or> (value_rank = -3 \<and> dimensions > 1) \<or> (value_rank = 0 \<and> dimensions = 0)
      \<or> (value_rank > 0 \<and> int dimensions \<noteq> value_rank) \<or> value_rank < -3)"

definition dimensions_violated :: "nat list \<Rightarrow> nat list option \<Rightarrow> bool" where
  "dimensions_violated shape array_dimensions =
     (case array_dimensions of
        None \<Rightarrow> False
      | Some ds \<Rightarrow> shape \<noteq> [] \<and> ds \<noteq> [] \<and>
          (length shape \<noteq> length ds \<or> list_ex (\<lambda>(actual, expected). expected \<noteq> 0 \<and> actual > expected) (zip shape ds)))"

record history_data =
  hd_value :: "converted option"
  hd_type :: variant_type
  hd_quality :: string
  hd_timestamp :: datetime

definition historical_data_value ::
  "parsers \<Rightarrow> pyval \<Rightarrow> string \<Rightarrow> datetime \<Rightarrow> variant_type \<Rightarrow> int \<Rightarrow> nat list option \<Rightarrow> history_data result" where
  "historical_data_value P v quality timestamp t value_rank array_dimensions =
     (if quality \<notin> {''Good'', ''Uncertain'', ''Bad'', ''GoodNoData''}
      then Inl (ValueError ''Unsupported historical quality'')
      else if v = PNone then
        (if quality \<notin> {''Bad'', ''GoodNoData''}
         then Inl (ValueError ''A null value requires Bad or GoodNoData quality'')
         else Inr \<lparr>hd_value = None, hd_type = VNull, hd_quality = quality, hd_timestamp = timestamp\<rparr>)
      else if quality \<in> {''Bad'', ''GoodNoData''}
      then Inl (ValueError ''Bad and GoodNoData quality require a null value'')
      else if \<not> supported_type t
      then Inl (ValueError (''Historical writes for '' @ variant_type_name t @ '' values are not supported''))
      else rbind (convert_value P t v) (\<lambda>(converted, shape).
        if rank_violated value_rank (length shape)
        then Inl (ValueError ''Value does not conform to the OPC UA ValueRank'')
        else if dimensions_violated shape array_dimensions
        then Inl (ValueError ''Value does not conform to OPC UA ArrayDimensions'')
        else Inr \<lparr>hd_value = Some converted, hd_type = t, hd_quality = quality, hd_timestamp = timestamp\<rparr>))"

section \<open>The client\<close>

text \<open>
  The status codes the code tells apart; a failure is a \<open>ValueError\<close>, an OPC UA status with its
  text, or another exception with its text.
\<close>

datatype ua_code = BadServiceUnsupported | BadHistoryOperationUnsupported | BadNotImplemented | BadNodeIdUnknown
  | BadHistoryOperationInvalid | BadInvalidArgument | BadTimestampNotSupported | BadAttributeIdInvalid | OtherCode string

datatype failure = ValueFailure string | StatusFailure ua_code string | OtherFailure string

text \<open>A read attribute: its status (\<open>None\<close>: missing, else bad code and text, or good) and value.\<close>

datatype 'v attribute = NoStatus | BadStatus ua_code string | GoodStatus 'v

record history_call =
  hc_node_id :: string
  hc_data :: history_data

text \<open>
  The server seen by the client. Each answer may depend on the history updates sent so far;
  \<open>hs_shape\<close> gives the value rank and the array dimensions (\<open>None\<close>: an incomplete response), \<open>hs_update\<close> the status of the call, and the statuses of its operations.
\<close>

record history_server =
  hs_access :: "history_call list \<Rightarrow> string \<Rightarrow> failure + nat attribute list"
  hs_type :: "history_call list \<Rightarrow> string \<Rightarrow> failure + variant_type"
  hs_shape :: "history_call list \<Rightarrow> string \<Rightarrow> failure + (int attribute \<times> nat list option attribute) option"
  hs_update :: "history_call list \<Rightarrow> history_call \<Rightarrow> failure + (failure option \<times> failure option list)"

text \<open>The client keeps whether the service is known to be supported, and here also what it sent.\<close>

record history_client =
  hx_sent :: "history_call list"
  hx_supported :: "bool option"

fun checked_attribute :: "'v attribute \<Rightarrow> failure + 'v" where
  "checked_attribute NoStatus = Inl (OtherFailure ''Missing OPC UA history access status'')"
| "checked_attribute (BadStatus c text) = Inl (StatusFailure c text)"
| "checked_attribute (GoodStatus v) = Inr v"

text \<open>Bit 3 of an access level is the permission to write history.\<close>

definition read_history_write_access ::
  "history_server \<Rightarrow> history_client \<Rightarrow> string \<Rightarrow> failure + (bool \<times> bool)" where
  "read_history_write_access server client node_id =
     (case hs_access server (hx_sent client) node_id of
        Inl f \<Rightarrow> Inl f
      | Inr [a, b] \<Rightarrow>
          (case (checked_attribute a, checked_attribute b) of
             (Inl f, _) \<Rightarrow> Inl f
           | (_, Inl f) \<Rightarrow> Inl f
           | (Inr x, Inr y) \<Rightarrow> Inr (odd (x div 8), odd (y div 8)))
      | Inr _ \<Rightarrow> Inl (OtherFailure ''Incomplete OPC UA history access response''))"

definition failed_client :: "failure \<Rightarrow> history_client \<Rightarrow> history_client" where
  "failed_client f client =
     (case f of StatusFailure BadServiceUnsupported _ \<Rightarrow> client\<lparr>hx_supported := Some False\<rparr> | _ \<Rightarrow> client)"

text \<open>
  What is sent for a value, or why nothing is: the variant type, the rank and the dimensions (a
  server without the attribute has none) are read, and the value is converted.
\<close>

definition history_data_for ::
  "history_server \<Rightarrow> parsers \<Rightarrow> history_call list \<Rightarrow> string \<Rightarrow> pyval \<Rightarrow> string \<Rightarrow> datetime \<Rightarrow> failure + history_data" where
  "history_data_for server P sent node_id v quality timestamp =
     (case hs_type server sent node_id of
        Inl f \<Rightarrow> Inl f
      | Inr t \<Rightarrow>
     (case hs_shape server sent node_id of
        Inl f \<Rightarrow> Inl f
      | Inr None \<Rightarrow> Inl (OtherFailure ''Incomplete OPC UA history type response'')
      | Inr (Some (rank_attribute, dimensions_attribute)) \<Rightarrow>
          (if rank_attribute = NoStatus \<or> dimensions_attribute = NoStatus
           then Inl (OtherFailure ''Missing OPC UA history type status'')
           else case checked_attribute rank_attribute of
             Inl f \<Rightarrow> Inl f
           | Inr value_rank \<Rightarrow>
             (case (case dimensions_attribute of
                      BadStatus BadAttributeIdInvalid _ \<Rightarrow> Inr None
                    | a \<Rightarrow> checked_attribute a) of
                Inl f \<Rightarrow> Inl f
              | Inr dimensions \<Rightarrow>
                  (case historical_data_value P v quality timestamp t value_rank dimensions of
                     Inl (ValueError text) \<Rightarrow> Inl (ValueFailure text)
                   | Inl _ \<Rightarrow> Inl (OtherFailure [])
                   | Inr data \<Rightarrow> Inr data)))))"

definition update_outcome :: "failure + (failure option \<times> failure option list) \<Rightarrow> failure option" where
  "update_outcome answer =
     (case answer of
        Inl f \<Rightarrow> Some f
      | Inr (Some f, _) \<Rightarrow> Some f
      | Inr (None, [operation]) \<Rightarrow> operation
      | Inr (None, _) \<Rightarrow> Some (OtherFailure ''Incomplete OPC UA HistoryUpdate operation results''))"

definition write_history_value ::
  "history_server \<Rightarrow> parsers \<Rightarrow> string \<Rightarrow> pyval \<Rightarrow> string \<Rightarrow> datetime \<Rightarrow> history_client
   \<Rightarrow> failure option \<times> history_client" where
  "write_history_value server P node_id v quality timestamp client =
     (case history_data_for server P (hx_sent client) node_id v quality timestamp of
        Inl f \<Rightarrow> (Some f, failed_client f client)
      | Inr data \<Rightarrow>
          (let call = \<lparr>hc_node_id = node_id, hc_data = data\<rparr>;
               sent = client\<lparr>hx_sent := hx_sent client @ [call]\<rparr>
           in case update_outcome (hs_update server (hx_sent client) call) of
                Some f \<Rightarrow> (Some f, failed_client f sent)
              | None \<Rightarrow> (None, sent\<lparr>hx_supported := Some True\<rparr>)))"

section \<open>The history update route\<close>

definition described :: "int \<times> string \<Rightarrow> string \<Rightarrow> int \<times> string" where
  "described outcome exc = (fst outcome, snd outcome @ '': '' @ exc)"

text \<open>The status and message of a failure, and whether it shows the service to be unsupported.\<close>

definition history_failure :: "bool \<Rightarrow> failure \<Rightarrow> write_error \<times> bool" where
  "history_failure update_attempted f =
     (case f of
        ValueFailure text \<Rightarrow> ((400, text), False)
      | OtherFailure text \<Rightarrow> (described (classify_write_error text) text, False)
      | StatusFailure c text \<Rightarrow>
          if c \<in> {BadHistoryOperationUnsupported, BadNotImplemented} \<or> (c = BadServiceUnsupported \<and> update_attempted)
          then ((501, ''OPC UA historical writes unsupported: '' @ text), c = BadServiceUnsupported)
          else if c = BadNodeIdUnknown then ((404, text), False)
          else if c \<in> {BadHistoryOperationInvalid, BadInvalidArgument, BadTimestampNotSupported} then ((400, text), False)
          else (described (classify_write_error text) text, False))"

text \<open>One update: its outcome, whether the service is unsupported from now on, and the client.\<close>

definition history_update ::
  "history_server \<Rightarrow> parsers \<Rightarrow> (ModelNode \<Rightarrow> pyval \<Rightarrow> write_error option) \<Rightarrow> BuildResult \<Rightarrow> value_update
   \<Rightarrow> bool \<Rightarrow> history_client \<Rightarrow> write_error \<times> bool \<times> history_client" where
  "history_update server P validate m u unsupported client =
     (case find_model_node m (vu_element_id u) of
        None \<Rightarrow> ((404, ''Element not found: '' @ vu_element_id u), unsupported, client)
      | Some n \<Rightarrow>
         if mn_kind n \<noteq> Property
         then ((400, ''Historical writes require a Variable-backed property element''), unsupported, client)
         else (case validate n (vu_value u) of
           Some err \<Rightarrow> (err, unsupported, client)
         | None \<Rightarrow>
           if unsupported then ((501, ''OPC UA HistoryUpdate service is unavailable''), True, client)
           else (case read_history_write_access server client (mn_source_node_id n) of
             Inl f \<Rightarrow> (case history_failure False f of (outcome, found) \<Rightarrow> (outcome, found, client))
           | Inr (writable, user_writable) \<Rightarrow>
             if \<not> writable \<or> \<not> user_writable
             then ((403, ''Target does not permit historical writes''), False, client)
             else (case write_history_value server P (mn_source_node_id n) (vu_value u) (vu_quality u) (vu_timestamp u) client of
               (None, client') \<Rightarrow> ((200, ''ok''), False, client')
             | (Some f, client') \<Rightarrow>
                 (case history_failure True f of (outcome, found) \<Rightarrow> (outcome, found, client'))))))"

fun history_updates ::
  "history_server \<Rightarrow> parsers \<Rightarrow> (ModelNode \<Rightarrow> pyval \<Rightarrow> write_error option) \<Rightarrow> BuildResult
   \<Rightarrow> value_update list \<Rightarrow> bool \<Rightarrow> history_client \<Rightarrow> unit BulkResultItem list \<times> bool \<times> history_client" where
  "history_updates server P validate m [] unsupported client = ([], unsupported, client)"
| "history_updates server P validate m (u # us) unsupported client =
     (let (outcome, unsupported1, client1) = history_update server P validate m u unsupported client;
          (items, unsupported2, client2) = history_updates server P validate m us unsupported1 client1
      in (update_item (vu_element_id u) outcome # items, unsupported2, client2))"

text \<open>The response: status 501 with a detail when the service is unsupported and nothing succeeded.\<close>

record history_response =
  hr_status :: int
  hr_body :: "bool \<times> unit BulkResultItem list"
  hr_response_detail :: "(int \<times> string) option"

definition update_historical_values ::
  "bool \<Rightarrow> history_server \<Rightarrow> parsers \<Rightarrow> (ModelNode \<Rightarrow> pyval \<Rightarrow> write_error option) \<Rightarrow> BuildResult
   \<Rightarrow> value_update list \<Rightarrow> history_client \<Rightarrow> history_response result \<times> history_client" where
  "update_historical_values writes_enabled server P validate m updates client =
     (if \<not> writes_enabled
      then (Inl (HTTPException 501 ''Historical value updates is not implemented in this server''), client)
      else
        let (items, unsupported, client') =
              history_updates server P validate m updates (hx_supported client = Some False) client;
            body = bulk_response items
        in (Inr (if unsupported \<and> \<not> list_ex bi_success items
              then \<lparr>hr_status = 501, hr_body = body,
                    hr_response_detail = Some (501, ''The upstream OPC UA server does not support the HistoryUpdate service'')\<rparr>
              else \<lparr>hr_status = 200, hr_body = body, hr_response_detail = None\<rparr>), client'))"

end
