(* ===== verification/ObjectValueProps.thy ===== *)
theory ObjectValueProps
  imports ObjectValues
begin

text \<open>
  Properties of reading values: which components a depth limit selects, what the value route
  answers, and in which order historical values come.
\<close>

section \<open>The component search\<close>

text \<open>
  An object is on level \<open>k\<close> below another when \<open>k\<close> composition steps through objects, none of them
  a property, lead to it.
\<close>

inductive composition_level :: "BuildResult \<Rightarrow> string \<Rightarrow> string \<Rightarrow> nat \<Rightarrow> bool"
  for m :: BuildResult and start :: string where
  here: "composition_level m start start 0"
| below: "composition_level m start i k \<Longrightarrow> node_of m i = Some n \<Longrightarrow> c \<in> set (child_nodes m n)
    \<Longrightarrow> mn_kind c \<noteq> Property \<Longrightarrow> composition_level m start (mn_id c) (Suc k)"

definition in_limit :: "nat \<Rightarrow> nat \<Rightarrow> bool" where
  "in_limit max_depth k \<longleftrightarrow> max_depth = 0 \<or> k < max_depth"

text \<open>The children of an element, when it is known and within the limit.\<close>

definition expanded :: "BuildResult \<Rightarrow> nat \<Rightarrow> string \<Rightarrow> nat \<Rightarrow> ModelNode list" where
  "expanded m max_depth i k =
     (if in_limit max_depth k then (case node_of m i of None \<Rightarrow> [] | Some n \<Rightarrow> child_nodes m n) else [])"

definition pending_objects :: "ModelNode list \<Rightarrow> nat \<Rightarrow> (string \<times> nat) list" where
  "pending_objects cs k = map (\<lambda>c. (mn_id c, Suc k)) (filter (\<lambda>c. mn_kind c \<noteq> Property) cs)"

lemma component_loop_step:
  "component_loop m max_depth ((i, k) # rest) visited components =
     (if i \<in> set visited then component_loop m max_depth rest visited components
      else component_loop m max_depth (rest @ pending_objects (expanded m max_depth i k) k) (i # visited)
             (components @ filter (\<lambda>c. mn_kind c = Property) (expanded m max_depth i k)))"
proof -
  note step = component_loop.simps [of m max_depth "(i, k) # rest" visited components]
  show ?thesis
  proof (cases "i \<in> set visited")
    case True
    then show ?thesis unfolding step by simp
  next
    case new: False
    show ?thesis
    proof (cases "in_limit max_depth k")
      case False
      then have "0 < max_depth" "max_depth \<le> k" by (auto simp: in_limit_def)
      with new False show ?thesis unfolding step expanded_def by (simp add: pending_objects_def)
    next
      case limit: True
      then have cut: "\<not> (0 < max_depth \<and> max_depth \<le> k)" unfolding in_limit_def by linarith
      show ?thesis
      proof (cases "node_of m i")
        case None
        then have "expanded m max_depth i k = []" unfolding expanded_def None option.case by simp
        then show ?thesis
          unfolding step list.case prod.case if_not_P [OF new] if_not_P [OF cut] None option.case
          by (simp add: pending_objects_def)
      next
        case (Some n)
        then have "expanded m max_depth i k = child_nodes m n" unfolding expanded_def if_P [OF limit] by simp
        then show ?thesis
          unfolding step list.case prod.case if_not_P [OF new] if_not_P [OF cut] Some option.case
          by (simp add: pending_objects_def)
      qed
    qed
  qed
qed

text \<open>
  The search state, with the level \<open>D\<close> each visited element was visited at: the queue is ordered
  by level and spans two levels at most, and a child of an expanded element has been visited or
  is waiting.
\<close>

definition search_state ::
  "BuildResult \<Rightarrow> string \<Rightarrow> nat \<Rightarrow> (string \<times> nat) list \<Rightarrow> string list \<Rightarrow> ModelNode list \<Rightarrow> (string \<Rightarrow> nat) \<Rightarrow> bool" where
  "search_state m start max_depth queue visited components D \<longleftrightarrow>
     sorted (map snd queue)
     \<and> (\<forall>(i, k) \<in> set queue. composition_level m start i k \<and> k \<le> Suc (snd (hd queue)))
     \<and> (\<forall>i \<in> set visited. composition_level m start i (D i) \<and> (\<forall>(j, k) \<in> set queue. D i \<le> k))
     \<and> (start \<in> set visited \<and> D start = 0 \<or> (start, 0) \<in> set queue)
     \<and> (\<forall>i \<in> set visited. \<forall>c \<in> set (expanded m max_depth i (D i)). mn_kind c \<noteq> Property \<longrightarrow>
          mn_id c \<in> set visited \<and> D (mn_id c) \<le> Suc (D i) \<or> (\<exists>k \<le> Suc (D i). (mn_id c, k) \<in> set queue))
     \<and> set components = {c. \<exists>i \<in> set visited. c \<in> set (expanded m max_depth i (D i)) \<and> mn_kind c = Property}"

lemma search_skip:
  assumes "search_state m start max_depth ((i, k) # rest) visited components D" "i \<in> set visited"
  shows "search_state m start max_depth rest visited components D"
proof -
  have reach: "D i \<le> k" using assms by (auto simp: search_state_def)
  have head: "k \<le> snd (hd rest)" if "rest \<noteq> []"
    using assms(1) that by (cases rest) (auto simp: search_state_def)
  have near: "l \<le> Suc (snd (hd rest))" if "(j, l) \<in> set rest" for j l
  proof -
    have "l \<le> Suc k" using assms(1) that by (auto simp: search_state_def)
    moreover have "rest \<noteq> []" using that by auto
    ultimately show ?thesis using head by simp
  qed
  have zero: "start \<in> set visited \<and> D start = 0 \<or> (start, 0) \<in> set rest"
    using assms reach by (auto simp: search_state_def)
  have children: "mn_id c \<in> set visited \<and> D (mn_id c) \<le> Suc (D j) \<or> (\<exists>l \<le> Suc (D j). (mn_id c, l) \<in> set rest)"
    if "j \<in> set visited" "c \<in> set (expanded m max_depth j (D j))" "mn_kind c \<noteq> Property" for j c
  proof -
    from assms(1) that have "mn_id c \<in> set visited \<and> D (mn_id c) \<le> Suc (D j)
        \<or> (\<exists>l \<le> Suc (D j). (mn_id c, l) \<in> set ((i, k) # rest))"
      unfolding search_state_def by blast
    with assms(2) reach show ?thesis by (auto intro: le_trans)
  qed
  show ?thesis
    using assms(1) near zero children unfolding search_state_def by (auto split: prod.splits)
qed

lemma search_visit:
  assumes "search_state m start max_depth ((i, k) # rest) visited components D" "i \<notin> set visited"
  shows "search_state m start max_depth (rest @ pending_objects (expanded m max_depth i k) k) (i # visited)
    (components @ filter (\<lambda>c. mn_kind c = Property) (expanded m max_depth i k)) (D(i := k))"
proof -
  let ?new = "pending_objects (expanded m max_depth i k) k"
  note state = assms(1) [unfolded search_state_def]
  have level: "composition_level m start i k" using state by auto
  have sorted_rest: "sorted (map snd rest)" "\<And>j l. (j, l) \<in> set rest \<Longrightarrow> k \<le> l \<and> l \<le> Suc k"
    using state by auto
  have new: "composition_level m start j l \<and> l = Suc k" if mem: "(j, l) \<in> set ?new" for j l
  proof -
    obtain c where c: "c \<in> set (expanded m max_depth i k)" "mn_kind c \<noteq> Property" "j = mn_id c" "l = Suc k"
      using mem unfolding pending_objects_def by auto
    then obtain n where "node_of m i = Some n" "c \<in> set (child_nodes m n)"
      unfolding expanded_def by (cases "in_limit max_depth k"; cases "node_of m i") simp_all
    with level c show ?thesis by (simp add: composition_level.below)
  qed
  have depths: "k \<le> l \<and> l \<le> Suc k" if "(j, l) \<in> set (rest @ ?new)" for j l
    using that new sorted_rest(2) by fastforce
  have "sorted (map snd (rest @ ?new))"
    using sorted_rest by (fastforce simp: sorted_append pending_objects_def comp_def map_replicate_const)
  moreover have "composition_level m start j l \<and> l \<le> Suc (snd (hd (rest @ ?new)))" if "(j, l) \<in> set (rest @ ?new)" for j l
  proof -
    have "rest @ ?new \<noteq> []" using that by auto
    then have "hd (rest @ ?new) \<in> set (rest @ ?new)" by (rule hd_in_set)
    then have "k \<le> snd (hd (rest @ ?new))" using depths by (metis prod.collapse)
    moreover have "composition_level m start j l" using that state new by auto
    ultimately show ?thesis using depths [OF that] by simp
  qed
  moreover have "composition_level m start j ((D(i := k)) j) \<and> (\<forall>(j', l) \<in> set (rest @ ?new). (D(i := k)) j \<le> l)"
    if "j \<in> set (i # visited)" for j
  proof (cases "j = i")
    case True
    then show ?thesis using level depths by auto
  next
    case False
    then have "j \<in> set visited" using that by simp
    then have "composition_level m start j (D j)" "D j \<le> k" using state by auto
    with False show ?thesis using depths by fastforce
  qed
  moreover have "start \<in> set (i # visited) \<and> (D(i := k)) start = 0 \<or> (start, 0) \<in> set (rest @ ?new)"
    using state assms(2) by auto
  moreover have "mn_id c \<in> set (i # visited) \<and> (D(i := k)) (mn_id c) \<le> Suc ((D(i := k)) j)
      \<or> (\<exists>l \<le> Suc ((D(i := k)) j). (mn_id c, l) \<in> set (rest @ ?new))"
    if "j \<in> set (i # visited)" "c \<in> set (expanded m max_depth j ((D(i := k)) j))" "mn_kind c \<noteq> Property" for j c
  proof (cases "j = i")
    case True
    with that have "(mn_id c, Suc k) \<in> set ?new" by (auto simp: pending_objects_def)
    with True show ?thesis by auto
  next
    case False
    with that have "mn_id c \<in> set visited \<and> D (mn_id c) \<le> Suc (D j)
        \<or> (\<exists>l \<le> Suc (D j). (mn_id c, l) \<in> set ((i, k) # rest))"
      using state by auto
    with False assms(2) show ?thesis by auto
  qed
  moreover have "set (components @ filter (\<lambda>c. mn_kind c = Property) (expanded m max_depth i k)) =
      {c. \<exists>j \<in> set (i # visited). c \<in> set (expanded m max_depth j ((D(i := k)) j)) \<and> mn_kind c = Property}"
    using state assms(2) by auto
  ultimately show ?thesis unfolding search_state_def by blast
qed

definition component_properties :: "BuildResult \<Rightarrow> string \<Rightarrow> nat \<Rightarrow> ModelNode set" where
  "component_properties m start max_depth =
     {c. \<exists>i k. composition_level m start i k \<and> c \<in> set (expanded m max_depth i k) \<and> mn_kind c = Property}"

lemma expanded_mem:
  "c \<in> set (expanded m max_depth i k) \<longleftrightarrow>
     in_limit max_depth k \<and> (\<exists>n. node_of m i = Some n \<and> c \<in> set (child_nodes m n))"
proof (cases "in_limit max_depth k")
  case True
  have "expanded m max_depth i k = (case node_of m i of None \<Rightarrow> [] | Some n \<Rightarrow> child_nodes m n)"
    unfolding expanded_def if_P [OF True] ..
  with True show ?thesis by (cases "node_of m i") simp_all
next
  case False
  then have "expanded m max_depth i k = []" by (simp add: expanded_def)
  with False show ?thesis by simp
qed

lemma expanded_earlier: "c \<in> set (expanded m max_depth i k) \<Longrightarrow> l \<le> k \<Longrightarrow> c \<in> set (expanded m max_depth i l)"
  unfolding expanded_mem by (auto simp: in_limit_def)

text \<open>When the queue is empty every element on a level within the limit has been visited, at its least level.\<close>

lemma search_complete:
  assumes "search_state m start max_depth [] visited components D"
  shows "composition_level m start i k \<Longrightarrow> (\<forall>l. l < k \<longrightarrow> in_limit max_depth l) \<Longrightarrow> i \<in> set visited \<and> D i \<le> k"
proof (induction rule: composition_level.induct)
  case here
  then show ?case using assms by (simp add: search_state_def)
next
  case (below i k n c)
  then have "i \<in> set visited" "D i \<le> k" by auto
  moreover from this have "in_limit max_depth (D i)"
    using below.prems by (meson less_Suc_eq_le)
  with below.hyps have "c \<in> set (expanded m max_depth i (D i))" unfolding expanded_mem by blast
  moreover note \<open>mn_kind c \<noteq> Property\<close>
  ultimately have "mn_id c \<in> set visited" "D (mn_id c) \<le> Suc (D i)"
    using assms by (auto simp: search_state_def)
  with \<open>D i \<le> k\<close> show ?case by simp
qed

lemma in_limit_less: "in_limit max_depth k \<Longrightarrow> l < k \<Longrightarrow> in_limit max_depth l"
  unfolding in_limit_def by linarith

lemma search_done:
  assumes "search_state m start max_depth [] visited components D"
  shows "set components = component_properties m start max_depth"
proof (intro equalityI subsetI)
  fix c
  assume "c \<in> set components"
  then show "c \<in> component_properties m start max_depth"
    using assms unfolding search_state_def component_properties_def by blast
next
  fix c
  assume "c \<in> component_properties m start max_depth"
  then obtain i k where c: "composition_level m start i k" "c \<in> set (expanded m max_depth i k)" "mn_kind c = Property"
    unfolding component_properties_def by blast
  then have "in_limit max_depth k" unfolding expanded_mem by blast
  then have "i \<in> set visited \<and> D i \<le> k"
    using search_complete [OF assms c(1)] in_limit_less by blast
  moreover from this c(2) have "c \<in> set (expanded m max_depth i (D i))" using expanded_earlier by blast
  ultimately show "c \<in> set components" using assms c(3) unfolding search_state_def by blast
qed

lemma component_loop_correct:
  "search_state m start max_depth queue visited components D \<Longrightarrow>
     set (component_loop m max_depth queue visited components) = component_properties m start max_depth"
proof (induction "(m, max_depth, queue, visited, components)" arbitrary: queue visited components D
    rule: wf_induct_rule [OF wf_measures [of "[\<lambda>(m, max_depth, queue, visited, components).
      length (filter (\<lambda>k. k \<notin> set visited) (dict_keys (br_nodes_by_id m))),
      \<lambda>(m, max_depth, queue, visited, components). length queue]"]])
  case 1
  show ?case
  proof (cases queue)
    case Nil
    with "1.prems" show ?thesis using search_done by (simp add: component_loop.simps)
  next
    case (Cons p rest)
    obtain i k where p: "p = (i, k)" by (cases p)
    show ?thesis
    proof (cases "i \<in> set visited")
      case True
      have "search_state m start max_depth rest visited components D"
        by (rule search_skip) (use "1.prems" True in \<open>auto simp: Cons p\<close>)
      then have "set (component_loop m max_depth rest visited components) = component_properties m start max_depth"
        by (rule "1.hyps" [rotated]) (simp add: Cons)
      with True show ?thesis unfolding Cons p component_loop_step by simp
    next
      case False
      note state = search_visit [OF "1.prems" [unfolded Cons p] False]
      have "set (component_loop m max_depth (rest @ pending_objects (expanded m max_depth i k) k) (i # visited)
          (components @ filter (\<lambda>c. mn_kind c = Property) (expanded m max_depth i k))) = component_properties m start max_depth"
      proof (rule "1.hyps" [OF _ state])
        let ?free = "\<lambda>v. length (filter (\<lambda>k. k \<notin> set v) (dict_keys (br_nodes_by_id m)))"
        have "?free (i # visited) \<le> ?free visited" by (rule unvisited_mono)
        moreover have "?free (i # visited) < ?free visited" if "node_of m i \<noteq> None"
          using unmarked_keys_less [of "br_nodes_by_id m" i visited] that False by simp
        moreover have "expanded m max_depth i k = []" if "node_of m i = None"
          using that by (cases "in_limit max_depth k") (simp_all add: expanded_def)
        ultimately show "((m, max_depth, rest @ pending_objects (expanded m max_depth i k) k, i # visited,
            components @ filter (\<lambda>c. mn_kind c = Property) (expanded m max_depth i k)), m, max_depth, queue, visited, components)
          \<in> measures [\<lambda>(m, max_depth, queue, visited, components).
              length (filter (\<lambda>k. k \<notin> set visited) (dict_keys (br_nodes_by_id m))),
            \<lambda>(m, max_depth, queue, visited, components). length queue]"
          by (cases "node_of m i = None") (simp_all add: Cons pending_objects_def order_le_less)
      qed
      with False show ?thesis unfolding Cons p component_loop_step by simp
    qed
  qed
qed

text \<open>
  C12. A depth limit selects components exactly, also when the composition has cycles: a limit of 1
  selects none; otherwise the components are the property children of the objects on the levels
  below the limit, of all levels when the limit is 0. A limit of 2 so covers the properties of the
  object and also those of its direct component objects.
\<close>

theorem value_components_exact:
  "set (collect_value_component_nodes m start max_depth) =
     {c. max_depth \<noteq> 1 \<and> mn_kind c = Property
       \<and> (\<exists>i k n. composition_level m (mn_id start) i k \<and> (max_depth = 0 \<or> k < max_depth)
            \<and> node_of m i = Some n \<and> c \<in> set (child_nodes m n))}"
proof -
  have "search_state m (mn_id start) max_depth [(mn_id start, 0)] [] [] D" for D
    by (simp add: search_state_def composition_level.here)
  from component_loop_correct [OF this] show ?thesis
    by (auto simp: collect_value_component_nodes_def component_properties_def expanded_mem in_limit_def)
qed

section \<open>Values\<close>

text \<open>
  No value without data is reported as good: the quality is one of the four documented ones,
  and a null value is never \<open>Good\<close> or \<open>Uncertain\<close>, whatever the status code says.
\<close>

theorem vqt_quality_documented:
  "vq_quality (vqt_from_data_value now dv) \<in> {''Good'', ''Uncertain'', ''Bad'', ''GoodNoData''}
    \<and> (vq_value (vqt_from_data_value now dv) \<noteq> PNone
       \<or> vq_quality (vqt_from_data_value now dv) \<in> {''Bad'', ''GoodNoData''})"
proof -
  have "normalize_quality s \<in> {''Good'', ''Uncertain'', ''Bad''}" for s
    by (auto simp: normalize_quality_def split: option.splits)
  from this [of "dv_status dv"] show ?thesis
    by (auto simp: vqt_from_data_value_def Let_def)
qed

lemma dict_get_zip_map: "dict_get (dict_of_list (zip ns (map f ns))) s = (if s \<in> set ns then Some (f s) else None)"
proof -
  have "zip ns (map f ns) = map (\<lambda>n. (n, f n)) ns" by (induction ns) auto
  then have "dict_get (dict_of_list (zip ns (map f ns))) s = map_of (map (\<lambda>n. (n, f n)) (rev ns)) s"
    by (simp add: dict_get_of_list rev_map)
  then show ?thesis by (simp add: map_of_map_restrict restrict_map_def)
qed

lemma read_values_get:
  assumes "\<And>ns. read_data_values ns = Inr (map f ns)"
  shows "\<exists>read. read_values_by_node_id read_data_values ids = Inr read
    \<and> (\<forall>s. dict_get read s = (if s \<in> set ids then Some (f s) else None))"
  by (cases "ids = []") (simp_all add: read_values_by_node_id_def assms dict_get_zip_map)

lemma component_nodes_get:
  assumes "find_model_node m e = Some n" "e \<in> set es"
  shows "dict_get_def (component_nodes_by_element_id m max_depth (resolve_model_nodes m es)) e [] =
    collect_value_component_nodes m n max_depth"
proof -
  let ?entries = "[(e, collect_value_component_nodes m n max_depth). (e, Some n) \<leftarrow> resolve_model_nodes m es]"
  have same: "v = collect_value_component_nodes m n max_depth" if "(e, v) \<in> set ?entries" for v
    using that assms(1) by (auto simp: resolve_model_nodes_def split: option.splits)
  have "e \<in> fst ` set ?entries" using assms by (force simp: resolve_model_nodes_def split: option.splits)
  then obtain v where "map_of (rev ?entries) e = Some v"
    by (metis map_of_eq_None_iff not_Some_eq set_rev)
  moreover from this have "(e, v) \<in> set ?entries" by (metis map_of_SomeD set_rev)
  ultimately show ?thesis
    using same by (simp add: component_nodes_by_element_id_def dict_get_def_def dict_get_of_list)
qed

text \<open>What the value route reports of a node, given the sources it reads and the value of each.\<close>

definition reported_vqt :: "datetime \<Rightarrow> string set \<Rightarrow> (string \<Rightarrow> data_value) \<Rightarrow> ModelNode \<Rightarrow> VQT" where
  "reported_vqt now sources f n =
     (if mn_source_node_id n \<in> sources then vqt_from_data_value now (f (mn_source_node_id n)) else good_no_data_vqt now)"

text \<open>
  C13. The value route answers for every requested element, in order: an unknown element is an error
  of its own that fails no other; a property reports the value the server gives for its source
  node, an object reports no data of its own, and the components are exactly those of the depth
  limit, each under its id with the value of its source node. Elements and components that are
  properties never lack their value.
\<close>

theorem value_route_answers:
  assumes "\<And>ns. read_data_values ns = Inr (map f ns)"
  shows "\<exists>sources.
    query_last_known_values m now read_data_values es max_depth = Inr (bulk_response (map (\<lambda>e.
      case find_model_node m e of
        None \<Rightarrow> bulk_result_error e (''Element not found: '' @ e) 404
      | Some n \<Rightarrow> bulk_result_success e (Some
          (let own = reported_vqt now sources f n;
               components = dict_of_list (map (\<lambda>c. (mn_id c, reported_vqt now sources f c)) (collect_value_component_nodes m n max_depth))
           in \<lparr>cv_is_composition = (composition_children_for_node m n \<noteq> []), cv_value = vq_value own,
               cv_quality = vq_quality own, cv_timestamp = vq_timestamp own,
               cv_components = (if components = [] then None else Some components)\<rparr>))) es))
    \<and> (\<forall>e \<in> set es. \<forall>n. find_model_node m e = Some n \<longrightarrow>
        (mn_kind n = Property \<longrightarrow> mn_source_node_id n \<in> sources)
        \<and> (\<forall>c \<in> set (collect_value_component_nodes m n max_depth). mn_source_node_id c \<in> sources))"
proof -
  let ?resolved = "resolve_model_nodes m es"
  let ?ids = "concat (map (value_sources m max_depth) ?resolved)"
  define sources where "sources = set ?ids"
  obtain read where got: "read_values_by_node_id read_data_values ?ids = Inr read"
      "\<And>s. dict_get read s = (if s \<in> sources then Some (f s) else None)"
    using read_values_get [OF assms, where ids = "?ids"] unfolding sources_def by blast
  have vqt: "vqt_of now read n = reported_vqt now sources f n" for n
    by (simp add: vqt_of_def reported_vqt_def got(2))
  have answer: "query_last_known_values m now read_data_values es max_depth = Inr (bulk_response (map (\<lambda>e.
      case find_model_node m e of
        None \<Rightarrow> bulk_result_error e (''Element not found: '' @ e) 404
      | Some n \<Rightarrow> bulk_result_success e (Some (current_value_result m now read n
          (dict_get_def (component_nodes_by_element_id m max_depth ?resolved) e [])))) es))"
    unfolding query_last_known_values_def Let_def got(1) rbind_simps
    unfolding resolve_model_nodes_def map_map comp_def prod.case ..
  have union: "sources = (\<Union>e \<in> set es. set (value_sources m max_depth (e, find_model_node m e)))"
    by (simp add: sources_def resolve_model_nodes_def)
  have covered: "(mn_kind n = Property \<longrightarrow> mn_source_node_id n \<in> sources)
        \<and> (\<forall>c \<in> set (collect_value_component_nodes m n max_depth). mn_source_node_id c \<in> sources)"
    if "e \<in> set es" "find_model_node m e = Some n" for e n
  proof -
    have "set (value_sources m max_depth (e, Some n)) \<subseteq> sources"
      unfolding union that(2) [symmetric] by (rule UN_upper [OF that(1)])
    then show ?thesis by (auto simp: value_sources_def)
  qed
  have result: "current_value_result m now read n (dict_get_def (component_nodes_by_element_id m max_depth ?resolved) e []) =
      (let own = reported_vqt now sources f n;
           components = dict_of_list (map (\<lambda>c. (mn_id c, reported_vqt now sources f c)) (collect_value_component_nodes m n max_depth))
       in \<lparr>cv_is_composition = (composition_children_for_node m n \<noteq> []), cv_value = vq_value own,
           cv_quality = vq_quality own, cv_timestamp = vq_timestamp own,
           cv_components = (if components = [] then None else Some components)\<rparr>)"
    if "e \<in> set es" "find_model_node m e = Some n" for e n
    unfolding component_nodes_get [OF that(2,1)] current_value_result_def vqt ..
  show ?thesis
    unfolding answer
  proof (intro exI [of _ sources] conjI ballI allI impI)
    fix e n
    assume "e \<in> set es" "find_model_node m e = Some n"
    note covered [OF this]
    then show "mn_kind n = Property \<Longrightarrow> mn_source_node_id n \<in> sources"
      "c \<in> set (collect_value_component_nodes m n max_depth) \<Longrightarrow> mn_source_node_id c \<in> sources" for c
      by blast+
  qed (rule arg_cong [where f = "\<lambda>items. Inr (bulk_response items)"], rule map_cong [OF refl],
      rule option.case_cong, simp_all only: result)
qed

section \<open>The order of historical values\<close>

definition value_time :: "datetime \<Rightarrow> data_value \<Rightarrow> datetime" where
  "value_time now dv =
     (case dv_source_timestamp dv of Some t \<Rightarrow> t | None \<Rightarrow> (case dv_server_timestamp dv of Some t \<Rightarrow> t | None \<Rightarrow> now))"

lemma vqt_timestamp: "vq_timestamp (vqt_from_data_value now dv) = format_utc_timestamp (value_time now dv)"
  by (simp add: vqt_from_data_value_def normalize_timestamp_def value_time_def Let_def split: option.split)

lemma sort_key_map: "sort_key f (map g xs) = map g (sort_key (\<lambda>x. f (g x)) xs)"
proof -
  have "insort_key f (g x) (map g ys) = map g (insort_key (\<lambda>x. f (g x)) x ys)" for x ys
    by (induction ys) auto
  then show ?thesis by (induction xs) simp_all
qed

lemma own_history:
  assumes "hl_own_sources h = [n]"
  shows "hv_values (build_historical_value_result m now values_by_node_id h) =
    map (vqt_from_data_value now) (sort_key (\<lambda>dv. format_utc_timestamp (value_time now dv))
      (dict_get_def values_by_node_id (mn_source_node_id n) []))"
  using assms
  by (simp add: build_historical_value_result_def Let_def history_vqts_def sort_key_map vqt_timestamp)

lemma sorted_by_text:
  assumes "\<forall>dv \<in> set dvs. dt_ok (g dv)"
  shows "sorted (map (\<lambda>dv. format_utc_timestamp (g dv)) dvs) \<longleftrightarrow> sorted (map (\<lambda>dv. text_key (g dv)) dvs)"
  using assms by (simp add: sorted_map sorted_wrt_iff_nth_less date_text_order)

text \<open>
  C14. The history of a property is complete and in the order of its timestamp texts: every value the
  server delivers is reported once, from second to second in the order of time, and within a
  second the values with a fraction in the order of time and then those without a fraction.
\<close>

theorem history_complete_and_ordered:
  assumes "hl_own_sources h = [n]" "dict_get values_by_node_id (mn_source_node_id n) = Some dvs"
    "\<forall>dv \<in> set dvs. dt_ok (value_time now dv)"
  shows "\<exists>ordered. hv_values (build_historical_value_result m now values_by_node_id h) = map (vqt_from_data_value now) ordered
    \<and> mset ordered = mset dvs
    \<and> sorted (map (\<lambda>dv. whole_second (value_time now dv)) ordered)
    \<and> sorted (map (\<lambda>dv. text_key (value_time now dv)) ordered)"
proof -
  let ?ordered = "sort_key (\<lambda>dv. format_utc_timestamp (value_time now dv)) dvs"
  have "sorted (map (\<lambda>dv. format_utc_timestamp (value_time now dv)) ?ordered)" by simp
  then have sorted: "sorted (map (\<lambda>dv. text_key (value_time now dv)) ?ordered)"
    using assms(3) by (subst (asm) sorted_by_text) simp_all
  have "whole_second d \<le> whole_second e" if "text_key d \<le> text_key e" for d e
    using that unfolding text_key_def tuple_order by auto
  with sorted have "sorted (map (\<lambda>dv. whole_second (value_time now dv)) ?ordered)"
    by (auto simp: sorted_map elim!: sorted_wrt_mono_rel [rotated])
  with sorted show ?thesis
    by (intro exI [of _ ?ordered]) (simp add: own_history [OF assms(1)] dict_get_def_def assms(2))
qed

text \<open>
  Within a second the history is not in the order of time: of two values of one second, the
  earlier one at the full second, the later one is reported first, although the values are
  documented as ordered by their source timestamps.
\<close>

theorem history_order_breaks_within_second:
  assumes "hl_own_sources h = [n]" "dict_get values_by_node_id (mn_source_node_id n) = Some [a, b]"
    "dt_ok (value_time now a)" "dt_ok (value_time now b)"
    "whole_second (value_time now a) = whole_second (value_time now b)"
    "dt_microsecond (value_time now a) = 0" "0 < dt_microsecond (value_time now b)"
  shows "hv_values (build_historical_value_result m now values_by_node_id h) =
      [vqt_from_data_value now b, vqt_from_data_value now a]
    \<and> value_time now a < value_time now b"
proof -
  have "dt_microsecond (value_time now b) < 1000000" using assms(4) by (simp add: dt_ok_def)
  then have "\<not> text_key (value_time now a) \<le> text_key (value_time now b)"
    using assms(5-7) unfolding text_key_def tuple_order by simp
  then have "\<not> format_utc_timestamp (value_time now a) \<le> format_utc_timestamp (value_time now b)"
    using date_text_order [OF assms(3,4)] by simp
  then have "hv_values (build_historical_value_result m now values_by_node_id h) =
      [vqt_from_data_value now b, vqt_from_data_value now a]"
    by (simp add: own_history [OF assms(1)] dict_get_def_def assms(2))
  moreover have "value_time now a < value_time now b"
    using assms(5-7) by (simp add: less_datetime_def dt_key_def tuple_order)
  ultimately show ?thesis ..
qed

section \<open>Sample values\<close>

definition noon :: datetime where
  "noon = UTC 2026 10 14 12 0 0 0"

definition sample_value :: "nat \<Rightarrow> int \<Rightarrow> data_value" where
  "sample_value microsecond v =
     \<lparr>dv_value = PInt v, dv_status = None, dv_source_timestamp = Some (UTC 2026 10 14 12 0 0 microsecond),
      dv_server_timestamp = None\<rparr>"

definition sample_lookup :: history_lookup where
  "sample_lookup = \<lparr>hl_node = sample_node ''p'' Property ''ns=1;i=2'',
     hl_own_sources = [sample_node ''p'' Property ''ns=1;i=2''], hl_component_nodes = []\<rparr>"

lemma sample_times: "value_time noon (sample_value u v) = UTC 2026 10 14 12 0 0 u"
  by (simp add: value_time_def sample_value_def)

theorem history_complete_and_ordered_witness:
  "\<exists>ordered. hv_values (build_historical_value_result pump_model noon [(''ns=1;i=2'', [sample_value 500000 2, sample_value 0 1])] sample_lookup)
      = map (vqt_from_data_value noon) ordered
    \<and> mset ordered = mset [sample_value 500000 2, sample_value 0 1]"
  using history_complete_and_ordered [of sample_lookup "sample_node ''p'' Property ''ns=1;i=2''"
      "[(''ns=1;i=2'', [sample_value 500000 2, sample_value 0 1])]" "[sample_value 500000 2, sample_value 0 1]" noon pump_model]
  by (auto simp: sample_lookup_def sample_node_def sample_times dt_ok_def)

theorem history_order_breaks_within_second_witness:
  "hv_values (build_historical_value_result pump_model noon [(''ns=1;i=2'', [sample_value 0 1, sample_value 500000 2])] sample_lookup)
      = [vqt_from_data_value noon (sample_value 500000 2), vqt_from_data_value noon (sample_value 0 1)]
    \<and> value_time noon (sample_value 0 1) < value_time noon (sample_value 500000 2)"
  by (rule history_order_breaks_within_second [of _ "sample_node ''p'' Property ''ns=1;i=2''"])
    (simp_all add: sample_lookup_def sample_node_def sample_times dt_ok_def whole_second_def)

theorem value_route_answers_witness:
  "\<exists>sources n. find_model_node pump_model ''p'' = Some n \<and> mn_source_node_id n \<in> sources
    \<and> (\<exists>answer. query_last_known_values pump_model noon (\<lambda>ns. Inr (map (\<lambda>s. sample_value 0 7) ns)) [''p''] 1 = Inr answer)"
proof -
  have find: "find_model_node pump_model ''p'' = Some (sample_node ''p'' Property ''ns=1;i=2'')"
    by (simp add: find_model_node_def pump_model_def sample_model_def)
  from value_route_answers [of "\<lambda>ns. Inr (map (\<lambda>s. sample_value 0 7) ns)" "\<lambda>s. sample_value 0 7" pump_model noon "[''p'']" 1]
  show ?thesis
    using find by (auto simp: sample_node_def)
qed

end
