(* ===== verification/WriteProps.thy ===== *)
theory WriteProps
  imports HistoryWrites ObjectValueProps
begin

text \<open>
  Properties of writing: nothing is sent that is not permitted, success means that the value is in
  effect, history values conform to their declared type, and an unsupported history service is
  asked once.
\<close>

section \<open>Current values\<close>

text \<open>When an update may be sent, and as what.\<close>

definition permitted ::
  "write_server \<Rightarrow> (ModelNode \<Rightarrow> pyval \<Rightarrow> write_error option) \<Rightarrow> BuildResult \<Rightarrow> write_call list \<Rightarrow> value_update
   \<Rightarrow> write_call \<Rightarrow> bool" where
  "permitted server validate m sent u call \<longleftrightarrow>
     (\<exists>n. find_model_node m (vu_element_id u) = Some n \<and> mn_kind n = Property \<and> wc_node_id call = mn_source_node_id n
        \<and> validate n (normalize_write_payload (vu_value u)) = None
        \<and> ws_access server sent (mn_source_node_id n) = Inr (True, True)
        \<and> ws_variant_type server sent (mn_source_node_id n) = Inr (wc_variant_type call)
        \<and> decode_bytestring_write_value (normalize_write_payload (vu_value u)) (wc_variant_type call) = Inr (wc_value call)
        \<and> (wc_value call = Json PNone \<or> is_valid_write_type (wc_value call) (wc_variant_type call))
        \<and> wc_quality call = vu_quality u \<and> wc_timestamp call = vu_timestamp u)"

text \<open>The log grows by at most one permitted call per update, in the order of the updates.\<close>

inductive logged ::
  "(write_call list \<Rightarrow> value_update \<Rightarrow> write_call \<Rightarrow> bool) \<Rightarrow> value_update list \<Rightarrow> write_call list \<Rightarrow> write_call list \<Rightarrow> bool"
  for allowed :: "write_call list \<Rightarrow> value_update \<Rightarrow> write_call \<Rightarrow> bool" where
  no_update: "logged allowed [] sent sent"
| not_sent: "logged allowed us sent sent' \<Longrightarrow> logged allowed (u # us) sent sent'"
| sent: "allowed sent u call \<Longrightarrow> logged allowed us (sent @ [call]) sent' \<Longrightarrow> logged allowed (u # us) sent sent'"

lemma write_object_value_sends:
  "snd (write_object_value server validate m now (vu_element_id u) (vu_value u) (vu_quality u) (vu_timestamp u) sent) = sent
   \<or> (\<exists>call. permitted server validate m sent u call
        \<and> snd (write_object_value server validate m now (vu_element_id u) (vu_value u) (vu_quality u) (vu_timestamp u) sent)
            = sent @ [call])"
  by (auto simp: write_object_value_def permitted_def Let_def split: option.splits sum.splits exn.splits if_splits)

lemma write_updates_logged:
  "logged (permitted server validate m) us sent (snd (write_updates server validate m now us sent))"
proof (induction us arbitrary: sent)
  case (Cons u us)
  let ?next = "snd (write_object_value server validate m now (vu_element_id u) (vu_value u) (vu_quality u) (vu_timestamp u) sent)"
  have step: "snd (write_updates server validate m now (u # us) sent) = snd (write_updates server validate m now us ?next)"
    by (simp add: case_prod_beta)
  from write_object_value_sends [of server validate m now u sent] show ?case
    unfolding step using Cons.IH [of ?next] by (auto intro: logged.intros)
qed (simp add: logged.no_update)

text \<open>
  C15. Only permitted writes reach the server: whatever the server answers, the update route sends at
  most one write per update and in their order, to the source node of the property the update
  names, with the value its schema accepted, decoded and of a type the node takes, after the
  server said the node is writable; and nothing at all when writing is disabled.
\<close>

theorem only_permitted_writes_are_sent:
  "logged (\<lambda>sent u call. writes_enabled \<and> permitted server validate m sent u call) updates sent
     (snd (update_object_values writes_enabled server validate m now updates sent))"
proof (cases writes_enabled)
  case True
  then show ?thesis
    using write_updates_logged [of server validate m updates sent now]
    by (simp add: update_object_values_def case_prod_beta)
next
  case False
  have "logged allowed updates sent sent" for allowed
    by (induction updates) (auto intro: logged.intros)
  with False show ?thesis by (simp add: update_object_values_def)
qed

lemma classified_not_success: "fst (classify_write_error exc) \<noteq> 200"
  by (simp add: classify_write_error_def Let_def)

lemma classified_success [simp]: "classify_write_error exc = (200, text) \<longleftrightarrow> False"
  using classified_not_success [of exc] by auto




section \<open>Historical values\<close>

text \<open>
  A converted scalar fits its type: an integer survives encoding at the width of the type, a
  single-precision float is within its range, and the other scalars are of the kind.
\<close>

definition int_fits :: "variant_type \<Rightarrow> int \<Rightarrow> bool" where
  "int_fits t i =
     (case t of
        VSByte \<Rightarrow> sint (word_of_int i :: 8 word) = i
      | VByte \<Rightarrow> uint (word_of_int i :: 8 word) = i
      | VInt16 \<Rightarrow> sint (word_of_int i :: 16 word) = i
      | VUInt16 \<Rightarrow> uint (word_of_int i :: 16 word) = i
      | VInt32 \<Rightarrow> sint (word_of_int i :: 32 word) = i
      | VUInt32 \<Rightarrow> uint (word_of_int i :: 32 word) = i
      | VInt64 \<Rightarrow> sint (word_of_int i :: 64 word) = i
      | VUInt64 \<Rightarrow> uint (word_of_int i :: 64 word) = i
      | _ \<Rightarrow> False)"

definition fits :: "variant_type \<Rightarrow> scalar \<Rightarrow> bool" where
  "fits t s =
     (case s of
        SInt i \<Rightarrow> int_fits t i
      | SFloat x \<Rightarrow> t = VDouble \<or> (t = VFloat \<and> \<bar>x\<bar> \<le> (2 ^ 24 - 1) * 2 ^ 104)
      | SBool b \<Rightarrow> t = VBoolean
      | SStr c \<Rightarrow> t = VString
      | STime d \<Rightarrow> t = VDateTime
      | SGuid u \<Rightarrow> t = VGuid
      | SBytes bs \<Rightarrow> t = VByteString)"

fun shaped :: "nat list \<Rightarrow> converted \<Rightarrow> bool" where
  "shaped [] (Scalar s) = True"
| "shaped (n # ns) (Array cs) = (length cs = n \<and> list_all (shaped ns) cs)"
| "shaped _ _ = False"

fun scalars :: "converted \<Rightarrow> scalar list" where
  "scalars (Scalar s) = [s]"
| "scalars (Array cs) = concat (map scalars cs)"

lemma integer_fits:
  assumes "integer_bits t = Some (bits, has_sign)"
    "(if has_sign then - (2 ^ (bits - 1)) else 0) \<le> i" "i \<le> 2 ^ (bits - (if has_sign then 1 else 0)) - 1"
  shows "int_fits t i"
  using assms unfolding int_fits_def
  by (cases t) (auto simp: integer_bits_def sint_sbintrunc' uint_word_of_int_eq signed_take_bit_int_eq_self_iff take_bit_int_eq_self_iff)

lemma convert_scalar_fits: "convert_scalar P v t = Inr s \<Longrightarrow> fits t s"
proof (cases "integer_bits t")
  case None
  then show "convert_scalar P v t = Inr s \<Longrightarrow> fits t s"
    by (cases v) (auto simp: convert_scalar_def fits_def convert_float_def fits_limit_def float_limit_def not_conforming_def
        split: if_splits option.splits prod.splits)
next
  case (Some p)
  obtain bits has_sign where p: "p = (bits, has_sign)" by (cases p)
  assume "convert_scalar P v t = Inr s"
  then show ?thesis
    using integer_fits [OF Some [unfolded p]] unfolding convert_scalar_def Some p
    by (cases v) (auto simp: not_conforming_def fits_def Let_def split: if_splits)
qed

lemma convert_value_ok:
  "convert_value P t v = Inr (c, shape) \<Longrightarrow> shaped shape c \<and> (\<forall>s \<in> set (scalars c). fits t s)"
  "convert_values P t vs = Inr cs \<Longrightarrow> length cs = length vs
    \<and> (\<forall>(c, shape) \<in> set cs. shaped shape c \<and> (\<forall>s \<in> set (scalars c). fits t s))"
proof (induction P t v and P t vs arbitrary: c shape and cs rule: convert_value_convert_values.induct)
  case (1 P t xs)
  then obtain cs where cs: "convert_values P t xs = Inr cs"
    by (cases "convert_values P t xs") auto
  define child_shape where "child_shape = (if cs = [] then [] else snd (hd cs))"
  have same: "\<forall>d \<in> set cs. snd d = child_shape" and c: "c = Array (map fst cs)" "shape = length xs # child_shape"
    using "1.prems" cs by (auto simp: Let_def list_ex_iff child_shape_def [symmetric] split: if_splits)
  from "1.IH" [OF cs] have IH: "length cs = length xs" "\<forall>(d, sh) \<in> set cs. shaped sh d \<and> (\<forall>s \<in> set (scalars d). fits t s)"
    by auto
  have "list_all (shaped child_shape) (map fst cs)"
    using same IH(2) by (fastforce simp: list_all_iff)
  moreover have "\<forall>s \<in> set (scalars c). fits t s"
    using IH(2) by (auto simp: c)
  ultimately show ?case using IH(1) by (simp add: c)
next
  case (4 P t x xs)
  then obtain d ds where d: "convert_value P t x = Inr d" and ds: "convert_values P t xs = Inr ds" "cs = d # ds"
    by (cases "convert_value P t x"; cases "convert_values P t xs") auto
  obtain e sh where e: "d = (e, sh)" by (cases d)
  show ?case using "4.IH"(1) [OF d [unfolded e]] "4.IH"(2) [OF ds(1)] ds(2) e by auto
qed (auto simp: rbind_Inr_iff dest: convert_scalar_fits)

text \<open>
  C17. A historical value is sent only as its node declares it: what the conversion accepts has the
  requested quality and timestamp; it is null exactly with the qualities that stand for no value;
  otherwise it is a rectangular array of the rank and within the dimensions of the node, every
  integer in it fits the width of the declared type, and every other scalar is of that type.
\<close>

theorem historical_value_conforms:
  assumes "historical_data_value P v quality timestamp t value_rank array_dimensions = Inr h"
  shows "hd_quality h = quality \<and> hd_timestamp h = timestamp
    \<and> (case hd_value h of
         None \<Rightarrow> v = PNone \<and> quality \<in> {''Bad'', ''GoodNoData''}
       | Some c \<Rightarrow> v \<noteq> PNone \<and> quality \<in> {''Good'', ''Uncertain''} \<and> hd_type h = t
           \<and> (\<forall>s \<in> set (scalars c). fits t s)
           \<and> (\<exists>shape. shaped shape c \<and> - 3 \<le> value_rank
                \<and> (value_rank = - 1 \<longrightarrow> shape = []) \<and> (value_rank = - 3 \<longrightarrow> length shape \<le> 1)
                \<and> (value_rank = 0 \<longrightarrow> shape \<noteq> []) \<and> (0 < value_rank \<longrightarrow> int (length shape) = value_rank)
                \<and> (\<forall>ds. array_dimensions = Some ds \<and> ds \<noteq> [] \<and> shape \<noteq> [] \<longrightarrow> length shape = length ds
                     \<and> (\<forall>i < length ds. ds ! i \<noteq> 0 \<longrightarrow> shape ! i \<le> ds ! i))))"
proof (cases "v = PNone")
  case True
  with assms show ?thesis by (auto simp: historical_data_value_def split: if_splits)
next
  case False
  with assms obtain c shape where c: "convert_value P t v = Inr (c, shape)" "\<not> rank_violated value_rank (length shape)"
      "\<not> dimensions_violated shape array_dimensions" "quality \<in> {''Good'', ''Uncertain''}"
      "h = \<lparr>hd_value = Some c, hd_type = t, hd_quality = quality, hd_timestamp = timestamp\<rparr>"
    by (auto simp: historical_data_value_def rbind_Inr_iff split: if_splits)
  have dims: "length shape = length ds \<and> (\<forall>i < length ds. ds ! i \<noteq> 0 \<longrightarrow> shape ! i \<le> ds ! i)"
    if "array_dimensions = Some ds" "ds \<noteq> []" "shape \<noteq> []" for ds
  proof -
    have same: "length shape = length ds" and "\<not> list_ex (\<lambda>(actual, expected). expected \<noteq> 0 \<and> actual > expected) (zip shape ds)"
      using c(3) that by (simp_all add: dimensions_violated_def)
    then have bound: "b \<noteq> 0 \<longrightarrow> a \<le> b" if "(a, b) \<in> set (zip shape ds)" for a b
      using that by (auto simp: list_ex_iff)
    have "(shape ! i, ds ! i) \<in> set (zip shape ds)" if "i < length ds" for i
      using that same by (auto simp: set_zip)
    with same bound show ?thesis by blast
  qed
  show ?thesis
    using convert_value_ok(1) [OF c(1)] c(2,4) dims False unfolding c(5) rank_violated_def
    by (auto intro!: exI [of _ shape])
qed

section \<open>Asking an unsupported service\<close>

text \<open>The server refuses the last call of a log because it has no HistoryUpdate service.\<close>

definition refuses_service :: "history_server \<Rightarrow> history_call list \<Rightarrow> history_call \<Rightarrow> bool" where
  "refuses_service server sent call \<longleftrightarrow>
     (\<exists>text. update_outcome (hs_update server sent call) = Some (StatusFailure BadServiceUnsupported text))"

text \<open>
  The calls of a run: at most one per update, none once the service is known to be unsupported,
  and a refusal is known from the call on.
\<close>

inductive asked :: "history_server \<Rightarrow> nat \<Rightarrow> bool \<Rightarrow> history_call list \<Rightarrow> history_call list \<Rightarrow> bool"
  for server :: history_server where
  over: "asked server 0 unsupported sent sent"
| no_call: "asked server k unsupported sent sent' \<Longrightarrow> asked server (Suc k) unsupported sent sent'"
| learned: "asked server k True sent sent' \<Longrightarrow> asked server (Suc k) False sent sent'"
| call: "(refuses_service server sent c \<Longrightarrow> found) \<Longrightarrow> asked server k found (sent @ [c]) sent'
    \<Longrightarrow> asked server (Suc k) False sent sent'"

lemma write_history_sends:
  assumes "write_history_value server P i v q ts client = (r, client')"
  shows "(\<exists>f. r = Some f \<and> hx_sent client' = hx_sent client)
    \<or> (\<exists>c. hx_sent client' = hx_sent client @ [c] \<and> update_outcome (hs_update server (hx_sent client) c) = r)"
proof (cases "history_data_for server P (hx_sent client) i v q ts")
  case (Inl f)
  with assms show ?thesis by (auto simp: write_history_value_def failed_client_def split: failure.splits ua_code.splits)
next
  case (Inr d)
  let ?c = "\<lparr>hc_node_id = i, hc_data = d\<rparr>"
  have "hx_sent client' = hx_sent client @ [?c]" "update_outcome (hs_update server (hx_sent client) ?c) = r"
    using assms Inr
    by (auto simp: write_history_value_def Let_def failed_client_def split: option.splits failure.splits ua_code.splits)
  then show ?thesis by blast
qed

lemma history_update_asks:
  assumes "history_update server P validate m u unsupported client = (outcome, found, client')"
  shows "hx_sent client' = hx_sent client \<and> (unsupported \<longrightarrow> found)
    \<or> \<not> unsupported \<and> (\<exists>c. hx_sent client' = hx_sent client @ [c] \<and> (refuses_service server (hx_sent client) c \<longrightarrow> found))"
proof (cases "find_model_node m (vu_element_id u)")
  case None
  with assms show ?thesis by (simp add: history_update_def)
next
  case (Some n)
  define r where "r = write_history_value server P (mn_source_node_id n) (vu_value u) (vu_quality u) (vu_timestamp u) client"
  note step = assms [unfolded history_update_def Some option.case, folded r_def]
  show ?thesis
  proof (cases "mn_kind n = Property \<and> validate n (vu_value u) = None \<and> \<not> unsupported
      \<and> read_history_write_access server client (mn_source_node_id n) = Inr (True, True)")
    case False
    with step show ?thesis by (auto split: option.splits if_splits sum.splits prod.splits)
  next
    case True
    then have client: "client' = snd r" and found: "fst r = Some f \<longrightarrow> found = snd (history_failure True f)" for f
      using step by (auto split: option.splits prod.splits)
    from write_history_sends [of server P "mn_source_node_id n" "vu_value u" "vu_quality u" "vu_timestamp u" client "fst r" "snd r"]
    have sends: "hx_sent client' = hx_sent client
        \<or> (\<exists>c. hx_sent client' = hx_sent client @ [c] \<and> update_outcome (hs_update server (hx_sent client) c) = fst r)"
      unfolding client r_def by auto
    have "found" if "refuses_service server (hx_sent client) c" "update_outcome (hs_update server (hx_sent client) c) = fst r" for c
      using that found by (auto simp: refuses_service_def history_failure_def)
    with sends True show ?thesis by blast
  qed
qed

lemma history_updates_asked:
  "asked server (length us) unsupported (hx_sent client)
     (hx_sent (snd (snd (history_updates server P validate m us unsupported client))))"
proof (induction us arbitrary: unsupported client)
  case (Cons u us)
  obtain outcome found client' where u: "history_update server P validate m u unsupported client = (outcome, found, client')"
    by (cases "history_update server P validate m u unsupported client") auto
  have run: "snd (snd (history_updates server P validate m (u # us) unsupported client)) =
      snd (snd (history_updates server P validate m us found client'))"
    by (simp add: u case_prod_beta)
  note IH = Cons.IH [of found client']
  from history_update_asks [OF u] show ?case
  proof (elim disjE conjE exE)
    assume "hx_sent client' = hx_sent client" "unsupported \<longrightarrow> found"
    then show ?thesis
      unfolding run list.size(4) add_Suc_right add_0_right
      using IH by (cases unsupported; cases found) (simp_all add: asked.no_call asked.learned)
  next
    fix c
    assume "\<not> unsupported" "hx_sent client' = hx_sent client @ [c]" "refuses_service server (hx_sent client) c \<longrightarrow> found"
    then show ?thesis
      unfolding run list.size(4) add_Suc_right add_0_right
      using IH asked.call [of server "hx_sent client" c found "length us"] by simp
  qed
qed (simp add: asked.over)

text \<open>
  History updates are never replayed, and an unsupported service is asked once: a request sends
  at most one call per update; none when the service is known to be unsupported; and after the
  server has refused a call because it has no such service, no further call is sent.
\<close>

theorem unsupported_history_service_asked_once:
  "\<exists>calls. hx_sent (snd (update_historical_values writes_enabled server P validate m updates client)) = hx_sent client @ calls
    \<and> length calls \<le> length updates
    \<and> (hx_supported client = Some False \<longrightarrow> calls = [])
    \<and> (\<forall>i < length calls. refuses_service server (hx_sent client @ take i calls) (calls ! i) \<longrightarrow> Suc i = length calls)"
proof -
  have none: "sent' = sent" if "asked server k True sent sent'" for k sent sent'
    using that by (induction k True sent sent' rule: asked.induct) auto
  have run: "\<exists>calls. sent' = sent @ calls \<and> length calls \<le> k \<and> (unsupported \<longrightarrow> calls = [])
      \<and> (\<forall>i < length calls. refuses_service server (sent @ take i calls) (calls ! i) \<longrightarrow> Suc i = length calls)"
    if "asked server k unsupported sent sent'" for k unsupported sent sent'
    using that
  proof (induction rule: asked.induct)
    case (no_call k unsupported sent sent')
    then obtain calls where calls: "sent' = sent @ calls" "length calls \<le> k" "unsupported \<longrightarrow> calls = []"
        "\<forall>i < length calls. refuses_service server (sent @ take i calls) (calls ! i) \<longrightarrow> Suc i = length calls"
      by blast
    then show ?case by (intro exI [of _ calls]) simp
  next
    case (learned k sent sent')
    then show ?case by (intro exI [of _ "[]"]) auto
  next
    case (call sent c found k sent')
    then obtain calls where calls: "sent' = (sent @ [c]) @ calls" "length calls \<le> k" "found \<longrightarrow> calls = []"
        "\<forall>i < length calls. refuses_service server ((sent @ [c]) @ take i calls) (calls ! i) \<longrightarrow> Suc i = length calls"
      by blast
    have "Suc i = length (c # calls)"
      if "i < length (c # calls)" "refuses_service server (sent @ take i (c # calls)) ((c # calls) ! i)" for i
      using that calls(3,4) call.hyps(1) by (cases i) auto
    with calls(1,2) show ?case by (intro exI [of _ "c # calls"]) simp
  qed simp
  show ?thesis
  proof (cases writes_enabled)
    case True
    from run [OF history_updates_asked [of server updates "hx_supported client = Some False" client P validate m]]
    show ?thesis using True by (simp add: update_historical_values_def Let_def case_prod_beta)
  qed (simp add: update_historical_values_def)
qed

section \<open>Sample requests\<close>

definition no_parsers :: parsers where
  "no_parsers = \<lparr>p_fromisoformat = (\<lambda>s. None), p_uuid = (\<lambda>s. None)\<rparr>"

theorem historical_value_conforms_witness:
  "\<exists>h c. historical_data_value no_parsers (PList [PInt 1, PInt (- 32768)]) ''Good'' noon VInt16 1 (Some [4]) = Inr h
    \<and> hd_value h = Some c \<and> list_all (fits VInt16) (scalars c)"
proof -
  let ?h = "\<lparr>hd_value = Some (Array [Scalar (SInt 1), Scalar (SInt (- 32768))]), hd_type = VInt16,
    hd_quality = ''Good'', hd_timestamp = noon\<rparr>"
  have "historical_data_value no_parsers (PList [PInt 1, PInt (- 32768)]) ''Good'' noon VInt16 1 (Some [4]) = Inr ?h"
    by (simp add: historical_data_value_def supported_type_def integer_bits_def convert_scalar_def
        rank_violated_def dimensions_violated_def)
  with historical_value_conforms [OF this] show ?thesis by (simp add: list_all_iff)
qed

text \<open>A server whose nodes are writable but which has no HistoryUpdate service.\<close>

definition history_less_server :: history_server where
  "history_less_server = \<lparr>hs_access = (\<lambda>sent i. Inr [GoodStatus 15, GoodStatus 15]), hs_type = (\<lambda>sent i. Inr VInt32),
     hs_shape = (\<lambda>sent i. Inr (Some (GoodStatus (- 1), GoodStatus None))),
     hs_update = (\<lambda>sent c. Inl (StatusFailure BadServiceUnsupported ''BadServiceUnsupported''))\<rparr>"

definition speed_update :: value_update where
  "speed_update = \<lparr>vu_element_id = ''p'', vu_value = PInt 7, vu_quality = ''Good'', vu_timestamp = noon\<rparr>"

theorem unsupported_history_service_asked_once_witness:
  "\<exists>calls. hx_sent (snd (update_historical_values True history_less_server no_parsers (\<lambda>n v. None) pump_model
      [speed_update, speed_update] \<lparr>hx_sent = [], hx_supported = None\<rparr>)) = calls
    \<and> length calls < 2"
proof -
  from unsupported_history_service_asked_once [of True history_less_server no_parsers "\<lambda>n v. None" pump_model
      "[speed_update, speed_update]" "\<lparr>hx_sent = [], hx_supported = None\<rparr>"]
  obtain calls where calls: "hx_sent (snd (update_historical_values True history_less_server no_parsers (\<lambda>n v. None) pump_model
      [speed_update, speed_update] \<lparr>hx_sent = [], hx_supported = None\<rparr>)) = calls"
      "length calls \<le> 2"
      "\<forall>i < length calls. refuses_service history_less_server (take i calls) (calls ! i) \<longrightarrow> Suc i = length calls"
    by auto
  have "refuses_service history_less_server sent c" for sent c
    by (simp add: refuses_service_def history_less_server_def update_outcome_def)
  then have "Suc 0 = length calls" if "calls \<noteq> []" using calls(3) that by auto
  then have "length calls < 2" by (cases "calls = []") auto
  with calls(1) show ?thesis by blast
qed

end
