(* ===== verification/OpcClient.thy ===== *)
theory OpcClient
  imports Model Values Timestamps "HOL-Library.Word"
begin

text \<open>
  The OPC UA client, \<open>i3x_server/infrastructure/opcua/client.py\<close>: the state it keeps, the errors it
  tells apart, the reconnect it waits for before it repeats a request, and the attribute reads that
  every other operation is made of.

  The server and the asyncua library are outside of the program. They are functions of everything
  the client asked and was answered so far (its transcript), so nothing is assumed about how one
  answer relates to the next. A node is the text of its NodeId (\<open>nodeid.to_string()\<close>). Requests that
  the code starts together with \<open>asyncio.gather\<close> are made one after the other, in the order it
  starts them; as the answers are arbitrary, this excludes no combination of answers.
\<close>

section \<open>Errors of a request\<close>

text \<open>
  The status codes the client compares with, by their names in asyncua's \<open>StatusCodes\<close>, and the
  exceptions: \<open>UaStatusCodeError\<close>, \<open>TimeoutError\<close>, \<open>ConnectionError\<close>, the client's own two, and all
  others, each with its text.
\<close>

datatype status_name =
    BadSessionClosed | BadSessionIdInvalid | BadSessionNotActivated | BadSecureChannelClosed
  | BadSecureChannelIdInvalid | BadConnectionClosed | BadNotConnected | BadServerNotConnected
  | BadCommunicationError | BadTimeout | BadRequestTimeout | BadServerTooBusy | OtherStatusCode nat

datatype opc_exception =
    StatusCodeError status_name (exception_text: string)
  | TimeoutError (exception_text: string)
  | ConnectionError (exception_text: string)
  | WriteMetadataUnsupportedError (exception_text: string)
  | WriteMetadataVerificationError (exception_text: string)
  | OtherException (exception_text: string)

definition connection_lost_status_codes :: "status_name list" where
  "connection_lost_status_codes =
     [BadSessionClosed, BadSessionIdInvalid, BadSessionNotActivated, BadSecureChannelClosed,
      BadSecureChannelIdInvalid, BadConnectionClosed, BadNotConnected, BadServerNotConnected, BadCommunicationError]"

definition connection_lost_markers :: "string list" where
  "connection_lost_markers =
     [''connection is closed'', ''connection is not open'', ''connection reset'', ''broken pipe'',
      ''transport closed'', ''client is disconnected'', ''client is disconnecting'', ''badsessionclosed'',
      ''badsessionidinvalid'', ''badsecurechannelclosed'']"

definition should_retry_after_disconnect :: "opc_exception \<Rightarrow> bool" where
  "should_retry_after_disconnect exc =
     (case exc of
        StatusCodeError code _ \<Rightarrow> code \<in> set connection_lost_status_codes
      | TimeoutError _ \<Rightarrow> False
      | _ \<Rightarrow>
          if is_substring ''waiting for client to reconnect'' (py_lower (exception_text exc)) then False
          else case exc of
            ConnectionError _ \<Rightarrow> True
          | _ \<Rightarrow> list_ex (\<lambda>marker. is_substring marker (py_lower (exception_text exc))) connection_lost_markers)"

definition is_transport_read_failure :: "opc_exception \<Rightarrow> bool" where
  "is_transport_read_failure exc =
     ((case exc of TimeoutError _ \<Rightarrow> True | ConnectionError _ \<Rightarrow> True | _ \<Rightarrow> False)
      \<or> should_retry_after_disconnect exc
      \<or> (case exc of StatusCodeError code _ \<Rightarrow> code \<in> {BadTimeout, BadRequestTimeout, BadServerTooBusy} | _ \<Rightarrow> False))"

definition is_too_many_operations_error :: "opc_exception \<Rightarrow> bool" where
  "is_too_many_operations_error exc =
     (is_substring ''badtoomanyoperations'' (py_lower (exception_text exc))
      \<or> is_substring ''too many operations'' (py_lower (exception_text exc)))"

definition is_history_missing_or_unsupported :: "opc_exception \<Rightarrow> bool" where
  "is_history_missing_or_unsupported exc =
     list_ex (\<lambda>token. is_substring token (py_lower (exception_text exc)))
       [''badhistoryoperationunsupported'', ''historyoperationunsupported'', ''historyread not supported'',
        ''history read not supported'', ''badnodata'', ''goodnodata'',
        ''no data exists for the requested time range'']"

section \<open>What the server answers\<close>

text \<open>The content of a variant, as far as the code tells it apart.\<close>

datatype attr_value =
    AName "string option"
  | AText "string option"
  | ANodeId string
  | ANodeClass nat
  | ALabels "string list"
  | AValue pyval

record ua_data =
  ud_status :: "32 word option"
  ud_variant :: "attr_value option"
  ud_source_timestamp :: "datetime option"
  ud_server_timestamp :: "datetime option"

record ua_payload =
  up_value :: pyval
  up_type :: "string option"
  up_status :: "32 word"
  up_source_timestamp :: datetime

record ref_description =
  rd_node_id :: string
  rd_type_id :: string

datatype browse_direction = Forward | Inverse

record browse_params =
  bp_nodes :: "string list"
  bp_type :: nat
  bp_direction :: browse_direction
  bp_subtypes :: bool

record browse_answer =
  ba_status :: "32 word option"
  ba_references :: "ref_description list"
  ba_continuation :: string

record history_result =
  hr_check :: "opc_exception option"
  hr_data_values :: "ua_data list option"
  hr_continuation :: string

record history_range =
  hg_start :: "datetime option"
  hg_end :: "datetime option"

text \<open>One entry of the transcript: what was asked, and the answer or the exception.\<close>

datatype opc_event =
    EReadValues "string list" "opc_exception + pyval list"
  | EReadValue string "opc_exception + pyval"
  | EReadDataValue string "opc_exception + ua_data"
  | EReadBack string "opc_exception + ua_data"
  | EReadBrowseName string "opc_exception + (string option \<times> string) option"
  | EGetNamespaceArray "opc_exception + string list"
  | EReadNodeClass string "opc_exception + string"
  | EReadTypeDefinition string "opc_exception + string"
  | EReadAttributes "string list" nat "opc_exception + ua_data list"
  | ERead "(string \<times> nat) list" "opc_exception + ua_data list"
  | EBrowse browse_params "opc_exception + browse_answer list"
  | EBrowseNext "string list" "opc_exception + browse_answer list"
  | EHistoryRead "(string \<times> string option) list" "opc_exception + history_result list"
  | EWrite string ua_payload "opc_exception + unit"
  | EGetChildren string "opc_exception + string list"
  | ENodeAttributes string "nat list" "opc_exception + ua_data list"
  | ECallMethod string string "pyval list" "opc_exception + pyval"
  | ENotifyLost
  | EWait "string option"
  | EClock real

record opc_env =
  ua_parse_node :: "string \<Rightarrow> opc_exception + string"
  ua_read_values :: "opc_event list \<Rightarrow> string list \<Rightarrow> opc_exception + pyval list"
  ua_read_value :: "opc_event list \<Rightarrow> string \<Rightarrow> opc_exception + pyval"
  ua_read_data_value :: "opc_event list \<Rightarrow> string \<Rightarrow> opc_exception + ua_data"
  ua_read_back :: "opc_event list \<Rightarrow> string \<Rightarrow> opc_exception + ua_data"
  ua_read_browse_name :: "opc_event list \<Rightarrow> string \<Rightarrow> opc_exception + (string option \<times> string) option"
  ua_namespace_array :: "opc_event list \<Rightarrow> opc_exception + string list"
  ua_read_node_class :: "opc_event list \<Rightarrow> string \<Rightarrow> opc_exception + string"
  ua_read_type_definition :: "opc_event list \<Rightarrow> string \<Rightarrow> opc_exception + string"
  ua_read_attributes :: "opc_event list \<Rightarrow> string list \<Rightarrow> nat \<Rightarrow> opc_exception + ua_data list"
  ua_read :: "opc_event list \<Rightarrow> (string \<times> nat) list \<Rightarrow> opc_exception + ua_data list"
  ua_browse :: "opc_event list \<Rightarrow> browse_params \<Rightarrow> opc_exception + browse_answer list"
  ua_browse_next :: "opc_event list \<Rightarrow> string list \<Rightarrow> opc_exception + browse_answer list"
  ua_history_read :: "opc_event list \<Rightarrow> history_range \<Rightarrow> (string \<times> string option) list \<Rightarrow> opc_exception + history_result list"
  ua_get_children :: "opc_event list \<Rightarrow> string \<Rightarrow> opc_exception + string list"
  ua_node_attributes :: "opc_event list \<Rightarrow> string \<Rightarrow> nat list \<Rightarrow> opc_exception + ua_data list"
  ua_write :: "opc_event list \<Rightarrow> string \<Rightarrow> ua_payload \<Rightarrow> opc_exception + unit"
  ua_call_method :: "opc_event list \<Rightarrow> string \<Rightarrow> string \<Rightarrow> pyval list \<Rightarrow> opc_exception + pyval"
  ua_connected :: "opc_event list \<Rightarrow> bool"
  ua_wait_connected :: "opc_event list \<Rightarrow> string option"
  ua_clock :: "opc_event list \<Rightarrow> real"
  ua_is_good :: "32 word \<Rightarrow> bool"
  ua_is_uncertain :: "32 word \<Rightarrow> bool"
  ua_status_name :: "32 word \<Rightarrow> string"
  ua_quality_status_code :: "string \<Rightarrow> 32 word"
  ua_good_no_data :: "32 word"
  ua_variant_type_known :: "string \<Rightarrow> bool"
  ua_text :: "attr_value \<Rightarrow> string"
  ua_data_text :: "ua_data \<Rightarrow> string"
  ua_objects_node :: string
  ua_browse_roots :: "string list option"
  ua_parse_root :: "string \<Rightarrow> opc_exception + (string \<times> (nat \<Rightarrow> string)) option"
  ua_timeout_text :: string
  ua_metadata_ttl :: nat

section \<open>The state of the client\<close>

record OpcUaOperationalLimits =
  ol_browse :: "nat option"
  ol_read :: "nat option"
  ol_history :: "nat option"

record OpcUaRuntimeMetrics =
  rm_browse_calls :: nat
  rm_browse_nodes :: nat
  rm_browse_initial_references :: nat
  rm_browse_next_calls :: nat
  rm_browse_next_references :: nat
  rm_read_calls :: nat
  rm_read_nodes :: nat
  rm_history_read_calls :: nat
  rm_history_read_nodes :: nat
  rm_browse_tree_calls :: nat
  rm_browse_tree_nodes_last :: nat
  rm_method_calls :: nat

record OpcUaRequestMetrics =
  qm_read_count :: nat
  qm_write_count :: nat
  qm_browse_count :: nat
  qm_method_call_count :: nat
  qm_history_read_count :: nat
  qm_failed_request_count :: nat

record opc_client =
  oc_events :: "opc_event list"
  oc_runtime :: OpcUaRuntimeMetrics
  oc_requests :: OpcUaRequestMetrics
  oc_limits :: "OpcUaOperationalLimits option"
  oc_reference_types :: "(string, real \<times> string list) dict"
  oc_type_hierarchies :: "(string, real \<times> OpcUaTypeDefinitionInfo list) dict"

text \<open>An operation of the client: its result or the exception it raises, and the state it leaves.\<close>

type_synonym 'a opc = "opc_client \<Rightarrow> (opc_exception + 'a) \<times> opc_client"

definition opc_return :: "'a \<Rightarrow> 'a opc" where
  "opc_return x c = (Inr x, c)"

definition opc_raise :: "opc_exception \<Rightarrow> 'a opc" where
  "opc_raise exc c = (Inl exc, c)"

definition opc_bind :: "'a opc \<Rightarrow> ('a \<Rightarrow> 'b opc) \<Rightarrow> 'b opc" where
  "opc_bind m f c = (case m c of (Inl exc, c') \<Rightarrow> (Inl exc, c') | (Inr x, c') \<Rightarrow> f x c')"

definition opc_try :: "'a opc \<Rightarrow> (opc_exception \<Rightarrow> 'b opc) \<Rightarrow> ('a \<Rightarrow> 'b opc) \<Rightarrow> 'b opc" where
  "opc_try m handler f c = (case m c of (Inl exc, c') \<Rightarrow> handler exc c' | (Inr x, c') \<Rightarrow> f x c')"

definition opc_modify :: "(opc_client \<Rightarrow> opc_client) \<Rightarrow> unit opc" where
  "opc_modify f c = (Inr (), f c)"

lemma opc_bind_cong [fundef_cong]:
  assumes "m c = m' c'" "\<And>x c1. m' c' = (Inr x, c1) \<Longrightarrow> f x c1 = f' x c1" "c = c'"
  shows "opc_bind m f c = opc_bind m' f' c'"
  using assms by (auto simp: opc_bind_def split: prod.splits sum.splits)

lemma opc_try_cong [fundef_cong]:
  assumes "m c = m' c'" "\<And>x c1. m' c' = (Inr x, c1) \<Longrightarrow> f x c1 = f' x c1"
    "\<And>exc c1. m' c' = (Inl exc, c1) \<Longrightarrow> h exc c1 = h' exc c1" "c = c'"
  shows "opc_try m h f c = opc_try m' h' f' c'"
  using assms by (auto simp: opc_try_def split: prod.splits sum.splits)

text \<open>Send a request: the answer is what the environment gives after this transcript.\<close>

definition ask :: "(opc_event list \<Rightarrow> opc_exception + 'a) \<Rightarrow> (opc_exception + 'a \<Rightarrow> opc_event) \<Rightarrow> 'a opc" where
  "ask answer event c =
     (let r = answer (oc_events c) in (r, c\<lparr>oc_events := oc_events c @ [event r]\<rparr>))"

definition transcribe :: "opc_event \<Rightarrow> unit opc" where
  "transcribe event = opc_modify (\<lambda>c. c\<lparr>oc_events := oc_events c @ [event]\<rparr>)"

text \<open>\<open>for x in xs: ys.append(f x)\<close>, for an operation that may raise.\<close>

fun opc_map :: "('a \<Rightarrow> 'b opc) \<Rightarrow> 'a list \<Rightarrow> 'b list opc" where
  "opc_map f [] c = (Inr [], c)"
| "opc_map f (x # xs) c = opc_bind (f x) (\<lambda>y. opc_bind (opc_map f xs) (\<lambda>ys. opc_return (y # ys))) c"

lemma opc_map_cong [fundef_cong]:
  assumes "xs = ys" "\<And>x c. x \<in> set ys \<Longrightarrow> f x c = g x c" "c = d"
  shows "opc_map f xs c = opc_map g ys d"
proof -
  have "opc_map f ys d = opc_map g ys d"
    using assms(2) by (induction ys arbitrary: d) (auto simp: opc_bind_def split: prod.splits sum.splits)
  then show ?thesis using assms by simp
qed

section \<open>Lists in portions\<close>

text \<open>\<open>_chunked\<close> and \<open>_chunked_nodes\<close>: \<open>range(0, len(values), size)\<close> with a positive size.\<close>

function chunked :: "'a list \<Rightarrow> nat \<Rightarrow> 'a list list" where
  "chunked vs n =
     (if vs = [] \<or> n = 0 then [] else take n vs # chunked (drop n vs) n)"
  by pat_completeness auto
termination by (relation "measure (\<lambda>(vs, n). length vs)") auto

declare chunked.simps [simp del]

lemma chunked_Nil [simp]: "chunked [] n = []"
  by (simp add: chunked.simps)

lemma concat_chunked: "0 < n \<Longrightarrow> concat (chunked vs n) = vs"
proof (induction vs n rule: chunked.induct)
  case (1 vs n)
  then show ?case by (cases "vs = []") (simp_all add: chunked.simps [of vs n])
qed

lemma chunked_portion: "b \<in> set (chunked vs n) \<Longrightarrow> b \<noteq> [] \<and> length b \<le> n \<and> length b \<le> length vs"
proof (induction vs n rule: chunked.induct)
  case (1 vs n)
  show ?case
  proof (cases "vs = [] \<or> n = 0")
    case False
    then have "b = take n vs \<or> b \<in> set (chunked (drop n vs) n)"
      using 1(2) by (simp add: chunked.simps [of vs n])
    then show ?thesis using False 1(1) by fastforce
  qed (use 1(2) in \<open>simp add: chunked.simps [of vs n]\<close>)
qed

text \<open>\<open>limit or default\<close>: no limit and a limit of zero give the default.\<close>

definition or_else :: "nat option \<Rightarrow> nat \<Rightarrow> nat" where
  "or_else limit n0 = (case limit of Some n \<Rightarrow> if n = 0 then n0 else n | None \<Rightarrow> n0)"

section \<open>Counters\<close>

definition count_request :: "(OpcUaRequestMetrics \<Rightarrow> OpcUaRequestMetrics) \<Rightarrow> unit opc" where
  "count_request f = opc_modify (\<lambda>c. c\<lparr>oc_requests := f (oc_requests c)\<rparr>)"

definition count_runtime :: "(OpcUaRuntimeMetrics \<Rightarrow> OpcUaRuntimeMetrics) \<Rightarrow> unit opc" where
  "count_runtime f = opc_modify (\<lambda>c. c\<lparr>oc_runtime := f (oc_runtime c)\<rparr>)"

definition record_read_success :: "unit opc" where
  "record_read_success = count_request (\<lambda>q. q\<lparr>qm_read_count := qm_read_count q + 1\<rparr>)"

definition record_history_read_success :: "unit opc" where
  "record_history_read_success = count_request (\<lambda>q. q\<lparr>qm_history_read_count := qm_history_read_count q + 1\<rparr>)"

definition record_method_success :: "unit opc" where
  "record_method_success = count_request (\<lambda>q. q\<lparr>qm_method_call_count := qm_method_call_count q + 1\<rparr>)"

definition record_failed_request :: "unit opc" where
  "record_failed_request = count_request (\<lambda>q. q\<lparr>qm_failed_request_count := qm_failed_request_count q + 1\<rparr>)"

definition count_reads :: "nat \<Rightarrow> unit opc" where
  "count_reads n = count_runtime (\<lambda>r. r\<lparr>rm_read_calls := rm_read_calls r + 1, rm_read_nodes := rm_read_nodes r + n\<rparr>)"

text \<open>A status of a good or uncertain kind; both labels are in \<open>_goodish_quality_labels\<close> from the start.\<close>

definition goodish_quality_labels :: "string list" where
  "goodish_quality_labels = [''good'', ''uncertain'']"

definition is_goodish_status :: "opc_env \<Rightarrow> 32 word option \<Rightarrow> bool" where
  "is_goodish_status env status_code =
     (case status_code of
        None \<Rightarrow> True
      | Some code \<Rightarrow>
          if ua_is_uncertain env code then ''uncertain'' \<in> set goodish_quality_labels
          else if ua_is_good env code then ''good'' \<in> set goodish_quality_labels
          else let name = py_lower (py_strip (ua_status_name env code))
               in if name = [] then False
                  else if is_substring ''uncertain'' name then ''uncertain'' \<in> set goodish_quality_labels
                  else if is_substring ''good'' name then ''good'' \<in> set goodish_quality_labels
                  else name \<in> set goodish_quality_labels)"

definition record_browse_results :: "opc_env \<Rightarrow> browse_answer list \<Rightarrow> unit opc" where
  "record_browse_results env results =
     (if results = [] then record_failed_request
      else if list_all (\<lambda>r. is_goodish_status env (ba_status r)) results
      then count_request (\<lambda>q. q\<lparr>qm_browse_count := qm_browse_count q + 1\<rparr>)
      else record_failed_request)"

definition record_read_data_values :: "opc_env \<Rightarrow> ua_data list \<Rightarrow> unit opc" where
  "record_read_data_values env vs =
     (if vs = [] then record_failed_request
      else if list_all (\<lambda>v. is_goodish_status env (ud_status v)) vs then record_read_success
      else record_failed_request)"

section \<open>Waiting for the reconnect\<close>

text \<open>
  \<open>_wait_for_reconnect\<close>: a lost session is handed over to the supervisor at once, and then the
  client waits for it up to the timeout. The environment gives the state in which the wait ran out.
\<close>

definition session_lost :: "opc_exception \<Rightarrow> bool" where
  "session_lost exc = (case exc of StatusCodeError code _ \<Rightarrow> code \<in> set connection_lost_status_codes | _ \<Rightarrow> False)"

definition wait_for_reconnect :: "opc_env \<Rightarrow> opc_exception \<Rightarrow> unit opc" where
  "wait_for_reconnect env exc c =
     opc_bind (if ua_connected env (oc_events c) \<and> session_lost exc then transcribe ENotifyLost else opc_return ())
       (\<lambda>_ c1. case ua_wait_connected env (oc_events c1) of
          None \<Rightarrow> transcribe (EWait None) c1
        | Some state \<Rightarrow>
            opc_bind (transcribe (EWait (Some state)))
              (\<lambda>_. opc_raise (ConnectionError (''OPC UA client did not reconnect within '' @ ua_timeout_text env
                 @ ''s (state='' @ state @ '')''))) c1) c"

text \<open>\<open>get_node\<close>: the text of the NodeId is parsed, which may fail.\<close>

definition get_node :: "opc_env \<Rightarrow> string \<Rightarrow> string opc" where
  "get_node env node_id c = (ua_parse_node env node_id, c)"

definition get_nodes :: "opc_env \<Rightarrow> string list \<Rightarrow> string list opc" where
  "get_nodes env node_ids = opc_map (get_node env) node_ids"

section \<open>Reading attributes\<close>

text \<open>The requests themselves.\<close>

definition ask_read_attributes :: "opc_env \<Rightarrow> nat \<Rightarrow> string list \<Rightarrow> ua_data list opc" where
  "ask_read_attributes env attr nodes = ask (\<lambda>es. ua_read_attributes env es nodes attr) (EReadAttributes nodes attr)"

definition ask_read :: "opc_env \<Rightarrow> (string \<times> nat) list \<Rightarrow> ua_data list opc" where
  "ask_read env pairs = ask (\<lambda>es. ua_read env es pairs) (ERead pairs)"

definition read_attribute_batch :: "opc_env \<Rightarrow> nat \<Rightarrow> string list \<Rightarrow> ua_data list opc" where
  "read_attribute_batch env attr nodes =
     (if nodes = [] then opc_return []
      else opc_bind (count_reads (length nodes))
        (\<lambda>_. opc_try (ask_read_attributes env attr nodes)
          (\<lambda>exc.
             if \<not> should_retry_after_disconnect exc
             then opc_bind record_failed_request (\<lambda>_. opc_raise exc)
             else opc_bind (wait_for_reconnect env exc)
               (\<lambda>_. opc_bind (ask_read_attributes env attr nodes)
               (\<lambda>vs. opc_bind (record_read_data_values env vs) (\<lambda>_. opc_return vs))))
          (\<lambda>vs. opc_bind (record_read_data_values env vs) (\<lambda>_. opc_return vs))))"

text \<open>\<open>_read_attribute_batch_limited\<close> with a batch size: a portion that is too large is halved.\<close>

function read_attribute_batches :: "opc_env \<Rightarrow> nat \<Rightarrow> string list \<Rightarrow> nat \<Rightarrow> ua_data list opc" where
  "read_attribute_batches env attr nodes batch_size c =
     opc_bind
       (opc_map
         (\<lambda>batch c1.
            opc_try (read_attribute_batch env attr batch)
              (\<lambda>exc c2.
                 if \<not> is_too_many_operations_error exc \<or> length batch \<le> 1 then opc_raise exc c2
                 else read_attribute_batches env attr batch (max 1 (length batch div 2)) c2)
              opc_return c1)
         (chunked nodes (max 1 batch_size)))
       (\<lambda>vs. opc_return (concat vs)) c"
  by pat_completeness auto
termination
proof (relation "measure (\<lambda>(env, attr, nodes, batch_size, c). min (length nodes) (max 1 batch_size))", goal_cases)
  case (2 env attr nodes batch_size c batch c1 exc c2)
  have "length batch \<le> max 1 batch_size" "length batch \<le> length nodes"
    using chunked_portion [OF 2(1)] by auto
  moreover have "max 1 (length batch div 2) < length batch" using 2 by auto
  ultimately show ?case by auto
qed simp

declare read_attribute_batches.simps [simp del]

text \<open>
  Several attributes of several nodes: the answer must have one entry per attribute; a request that
  is too large is sent again in two halves.
\<close>

definition checked_read :: "opc_env \<Rightarrow> nat \<Rightarrow> ua_data list \<Rightarrow> ua_data list opc" where
  "checked_read env expected vs =
     (if length vs \<noteq> expected
      then opc_bind record_failed_request
        (\<lambda>_. opc_raise (OtherException (''Read returned '' @ nat_digits (length vs) @ '' results for ''
           @ nat_digits expected @ '' attributes'')))
      else opc_bind (record_read_data_values env vs) (\<lambda>_. opc_return vs))"

function read_attribute_pairs_batch :: "opc_env \<Rightarrow> (string \<times> nat) list \<Rightarrow> ua_data list opc" where
  "read_attribute_pairs_batch env pairs c =
     opc_bind (count_reads (length pairs))
       (\<lambda>_. opc_try (ask_read env pairs)
         (\<lambda>exc c1.
            if should_retry_after_disconnect exc
            then opc_bind (wait_for_reconnect env exc)
              (\<lambda>_. opc_bind (ask_read env pairs) (checked_read env (length pairs))) c1
            else if is_too_many_operations_error exc \<and> length pairs > 1
            then opc_bind (read_attribute_pairs_batch env (take (max 1 (length pairs div 2)) pairs))
              (\<lambda>left. opc_bind (read_attribute_pairs_batch env (drop (max 1 (length pairs div 2)) pairs))
              (\<lambda>right. opc_return (left @ right))) c1
            else opc_bind record_failed_request (\<lambda>_. opc_raise exc) c1)
         (checked_read env (length pairs))) c"
  by pat_completeness auto
termination by (relation "measure (\<lambda>(env, pairs, c). length pairs)") auto

declare read_attribute_pairs_batch.simps [simp del]

definition read_attribute_pairs_sized :: "opc_env \<Rightarrow> (string \<times> nat) list \<Rightarrow> nat \<Rightarrow> ua_data list opc" where
  "read_attribute_pairs_sized env pairs batch_size =
     (if pairs = [] then opc_return []
      else opc_bind (opc_map (read_attribute_pairs_batch env) (chunked pairs (max 1 batch_size)))
        (\<lambda>vss. opc_return (concat vss)))"

text \<open>The value of an attribute: nothing when its status is not good or it has no variant.\<close>

definition extract_attribute_value :: "opc_env \<Rightarrow> ua_data \<Rightarrow> attr_value option" where
  "extract_attribute_value env v =
     (case ud_status v of
        Some code \<Rightarrow> if \<not> ua_is_good env code then None else ud_variant v
      | None \<Rightarrow> ud_variant v)"

section \<open>Operational limits\<close>

definition AttrNodeClass :: nat where "AttrNodeClass = 2"
definition AttrBrowseName :: nat where "AttrBrowseName = 3"
definition AttrDisplayName :: nat where "AttrDisplayName = 4"
definition AttrDescription :: nat where "AttrDescription = 5"
definition AttrEventNotifier :: nat where "AttrEventNotifier = 12"
definition AttrValue :: nat where "AttrValue = 13"
definition AttrDataType :: nat where "AttrDataType = 14"
definition AttrAccessLevel :: nat where "AttrAccessLevel = 17"
definition AttrUserAccessLevel :: nat where "AttrUserAccessLevel = 18"
definition AttrExecutable :: nat where "AttrExecutable = 21"
definition AttrUserExecutable :: nat where "AttrUserExecutable = 22"

text \<open>
  The limits are properties of the node i=11704, found by their browse names; of several with one
  name the last counts, and a value that is not a positive int is ignored. Python's \<open>True\<close> is an int.
  The reads use a batch size of their own, so they need no limits.
\<close>

definition positive_int :: "attr_value option \<Rightarrow> nat option" where
  "positive_int v =
     (case v of
        Some (AValue (PInt i)) \<Rightarrow> if i > 0 then Some (nat i) else None
      | Some (AValue (PBool True)) \<Rightarrow> Some 1
      | _ \<Rightarrow> None)"

definition limit_name :: "opc_env \<Rightarrow> ua_data \<Rightarrow> string option" where
  "limit_name env v =
     (case extract_attribute_value env v of
        Some (AName (Some s)) \<Rightarrow>
          if s \<in> {''MaxNodesPerBrowse'', ''MaxNodesPerRead'', ''MaxNodesPerHistoryReadData''} then Some s else None
      | _ \<Rightarrow> None)"

definition set_limit :: "OpcUaOperationalLimits \<Rightarrow> string \<times> nat option \<Rightarrow> OpcUaOperationalLimits" where
  "set_limit limits entry =
     (case entry of
        (_, None) \<Rightarrow> limits
      | (s, Some n) \<Rightarrow>
          if s = ''MaxNodesPerBrowse'' then limits\<lparr>ol_browse := Some n\<rparr>
          else if s = ''MaxNodesPerRead'' then limits\<lparr>ol_read := Some n\<rparr>
          else limits\<lparr>ol_history := Some n\<rparr>)"

definition read_limits :: "opc_env \<Rightarrow> OpcUaOperationalLimits opc" where
  "read_limits env =
     opc_bind (get_node env ''i=11704'')
     (\<lambda>n. opc_bind (ask (\<lambda>es. ua_get_children env es n) (EGetChildren n))
     (\<lambda>children. opc_bind
        (if children = [] then opc_return []
         else read_attribute_batches env AttrBrowseName children (max 1 (length children)))
     (\<lambda>names.
        if length names \<noteq> length children then opc_raise (OtherException ''zip() arguments differ in length'')
        else let limit_nodes = [(child, s). (child, Some s) \<leftarrow> zip children (map (limit_name env) names)]
             in opc_bind
                  (read_attribute_pairs_sized env (map (\<lambda>(child, _). (child, AttrValue)) limit_nodes)
                     (max 1 (length limit_nodes)))
                  (\<lambda>vs. opc_return
                     (foldl set_limit \<lparr>ol_browse = None, ol_read = None, ol_history = None\<rparr>
                        (zip (map snd limit_nodes) (map (\<lambda>v. positive_int (extract_attribute_value env v)) vs)))))))"

definition load_operational_limits :: "opc_env \<Rightarrow> OpcUaOperationalLimits opc" where
  "load_operational_limits env =
     opc_bind (opc_try (read_limits env) (\<lambda>_. opc_return \<lparr>ol_browse = None, ol_read = None, ol_history = None\<rparr>) opc_return)
       (\<lambda>limits. opc_bind (opc_modify (\<lambda>c. c\<lparr>oc_limits := Some limits\<rparr>)) (\<lambda>_. opc_return limits))"

definition get_operational_limits :: "opc_env \<Rightarrow> OpcUaOperationalLimits opc" where
  "get_operational_limits env c =
     (case oc_limits c of Some limits \<Rightarrow> (Inr limits, c) | None \<Rightarrow> load_operational_limits env c)"

section \<open>Reads within the limits\<close>

definition read_attribute_batch_limited :: "opc_env \<Rightarrow> nat \<Rightarrow> string list \<Rightarrow> ua_data list opc" where
  "read_attribute_batch_limited env attr nodes =
     (if nodes = [] then opc_return []
      else opc_bind (get_operational_limits env)
        (\<lambda>limits. read_attribute_batches env attr nodes
           (max 1 (min (or_else (ol_read limits) (length nodes)) (length nodes)))))"

definition read_attribute_pairs :: "opc_env \<Rightarrow> (string \<times> nat) list \<Rightarrow> ua_data list opc" where
  "read_attribute_pairs env pairs =
     (if pairs = [] then opc_return []
      else opc_bind (get_operational_limits env)
        (\<lambda>limits. read_attribute_pairs_sized env pairs (or_else (ol_read limits) (length pairs))))"

end
