(* ===== verification/OpcReads.thy ===== *)
theory OpcReads
  imports OpcClient
begin

text \<open>
  The reads and writes of values by the OPC UA client, \<open>i3x_server/infrastructure/opcua/client.py\<close>:
  \<open>read_value\<close>, \<open>read_values\<close> with its halving fallback, \<open>read_data_values\<close> with its per-node
  fallback, \<open>read_history_values\<close> with continuation points, \<open>read_write_access\<close>, \<open>write_value\<close> and
  \<open>call_method\<close>.
\<close>

unbundle bit_operations_syntax

section \<open>Single values\<close>

definition ask_read_value :: "opc_env \<Rightarrow> string \<Rightarrow> pyval opc" where
  "ask_read_value env node = ask (\<lambda>es. ua_read_value env es node) (EReadValue node)"

definition read_value :: "opc_env \<Rightarrow> string \<Rightarrow> pyval opc" where
  "read_value env node_id =
     opc_bind (count_reads 1)
     (\<lambda>_. opc_bind (get_node env node_id)
     (\<lambda>node. opc_try (ask_read_value env node)
        (\<lambda>exc.
           if should_retry_after_disconnect exc
           then opc_bind (wait_for_reconnect env exc)
             (\<lambda>_. opc_bind (get_node env node_id)
             (\<lambda>again. opc_bind (ask_read_value env again)
             (\<lambda>v. opc_bind record_read_success (\<lambda>_. opc_return v))))
           else opc_bind record_failed_request (\<lambda>_. opc_raise exc))
        (\<lambda>v. opc_bind record_read_success (\<lambda>_. opc_return v))))"

section \<open>Batches of values\<close>

definition ask_read_values :: "opc_env \<Rightarrow> string list \<Rightarrow> pyval list opc" where
  "ask_read_values env nodes = ask (\<lambda>es. ua_read_values env es nodes) (EReadValues nodes)"

text \<open>
  One attempt at a batch: \<open>None\<close> when it failed. After a connection loss the client waits for the
  reconnect and tries once more.
\<close>

definition values_read :: "pyval list \<Rightarrow> pyval list option opc" where
  "values_read vs = opc_bind record_read_success (\<lambda>_. opc_return (Some vs))"

definition read_values_retry :: "opc_env \<Rightarrow> string list \<Rightarrow> opc_exception \<Rightarrow> pyval list option opc" where
  "read_values_retry env node_ids exc =
     (if should_retry_after_disconnect exc
      then opc_bind (wait_for_reconnect env exc)
        (\<lambda>_. opc_bind (get_nodes env node_ids)
        (\<lambda>retry_nodes. opc_try (ask_read_values env retry_nodes) (\<lambda>_. opc_return None) values_read))
      else opc_return None)"

definition read_values_attempt :: "opc_env \<Rightarrow> string list \<Rightarrow> pyval list option opc" where
  "read_values_attempt env node_ids =
     opc_bind (count_reads (length node_ids))
     (\<lambda>_. opc_bind (get_nodes env node_ids)
     (\<lambda>nodes. opc_try (ask_read_values env nodes) (read_values_retry env node_ids) values_read))"

function read_values_batch_with_fallback :: "opc_env \<Rightarrow> string list \<Rightarrow> pyval list opc" where
  "read_values_batch_with_fallback env node_ids c =
     (if node_ids = [] then (Inr [], c)
      else opc_bind (read_values_attempt env node_ids)
        (\<lambda>outcome c1.
           case outcome of
             Some vs \<Rightarrow> (Inr vs, c1)
           | None \<Rightarrow>
               if length node_ids \<le> 1
               then opc_bind record_failed_request (\<lambda>_. opc_return [PNone]) c1
               else opc_bind (read_values_batch_with_fallback env (take (max 1 (length node_ids div 2)) node_ids))
                 (\<lambda>left. opc_bind (read_values_batch_with_fallback env (drop (max 1 (length node_ids div 2)) node_ids))
                 (\<lambda>right. opc_return (left @ right))) c1) c)"
  by pat_completeness auto
termination by (relation "measure (\<lambda>(env, node_ids, c). length node_ids)") auto

declare read_values_batch_with_fallback.simps [simp del]

definition read_values :: "opc_env \<Rightarrow> string list \<Rightarrow> pyval list opc" where
  "read_values env node_ids =
     (if node_ids = [] then opc_return []
      else opc_bind (get_operational_limits env)
        (\<lambda>limits. opc_bind
           (opc_map (read_values_batch_with_fallback env)
             (chunked node_ids (max 1 (min (or_else (ol_read limits) (length node_ids)) (length node_ids)))))
           (\<lambda>batches. opc_return (concat batches))))"

section \<open>Data values\<close>

definition ask_read_data_value :: "opc_env \<Rightarrow> string \<Rightarrow> ua_data opc" where
  "ask_read_data_value env node = ask (\<lambda>es. ua_read_data_value env es node) (EReadDataValue node)"

definition bad_null :: ua_data where
  "bad_null = \<lparr>ud_status = Some 0x80010000, ud_variant = None, ud_source_timestamp = None, ud_server_timestamp = None\<rparr>"

definition return_bad_null :: "opc_env \<Rightarrow> ua_data opc" where
  "return_bad_null env = opc_bind (record_read_data_values env [bad_null]) (\<lambda>_. opc_return bad_null)"

text \<open>\<open>_read_one\<close> of \<open>_read_data_values_per_node\<close>.\<close>

definition read_one :: "opc_env \<Rightarrow> string \<Rightarrow> ua_data opc" where
  "read_one env node_id =
     opc_bind (get_node env node_id)
     (\<lambda>node. opc_try (ask_read_data_value env node)
        (\<lambda>exc.
           if should_retry_after_disconnect exc
           then opc_bind (wait_for_reconnect env exc)
             (\<lambda>_. opc_try (opc_bind (get_node env node_id) (ask_read_data_value env))
                (\<lambda>retry_exc. if is_transport_read_failure retry_exc then opc_raise retry_exc else return_bad_null env)
                (\<lambda>v. opc_bind (record_read_data_values env [v]) (\<lambda>_. opc_return v)))
           else if is_transport_read_failure exc then opc_raise exc
           else return_bad_null env)
        (\<lambda>v. opc_bind (record_read_data_values env [v]) (\<lambda>_. opc_return v)))"

definition read_data_values_per_node :: "opc_env \<Rightarrow> string list \<Rightarrow> ua_data list opc" where
  "read_data_values_per_node env node_ids =
     opc_bind (get_operational_limits env)
       (\<lambda>limits. opc_bind
          (opc_map (opc_map (read_one env))
             (chunked node_ids (max 1 (min (or_else (ol_read limits) (length node_ids)) (length node_ids)))))
       (\<lambda>chunks. opc_bind (count_reads (length node_ids)) (\<lambda>_. opc_return (concat chunks))))"

definition read_data_values_batch :: "opc_env \<Rightarrow> string list \<Rightarrow> ua_data list opc" where
  "read_data_values_batch env node_ids =
     opc_bind (get_nodes env node_ids)
     (\<lambda>nodes. opc_bind (read_attribute_batch_limited env AttrValue nodes)
     (\<lambda>vs. if length vs \<noteq> length node_ids
        then opc_raise (OtherException (''Read returned '' @ nat_digits (length vs) @ '' results for ''
               @ nat_digits (length node_ids) @ '' nodes''))
        else opc_return vs))"

definition read_data_values :: "opc_env \<Rightarrow> string list \<Rightarrow> ua_data list opc" where
  "read_data_values env node_ids =
     (if node_ids = [] then opc_return []
      else opc_try (read_data_values_batch env node_ids)
        (\<lambda>exc. if is_transport_read_failure exc then opc_raise exc else read_data_values_per_node env node_ids)
        opc_return)"

section \<open>Historical values\<close>

definition ask_history_read ::
  "opc_env \<Rightarrow> history_range \<Rightarrow> (string \<times> string option) list \<Rightarrow> history_result list opc" where
  "ask_history_read env period points = ask (\<lambda>es. ua_history_read env es period points) (EHistoryRead points)"

definition checked_history :: "nat \<Rightarrow> history_result list \<Rightarrow> history_result list opc" where
  "checked_history expected results =
     (if length results \<noteq> expected
      then opc_raise (OtherException (''HistoryRead returned '' @ nat_digits (length results) @ '' results for ''
             @ nat_digits expected @ '' nodes''))
      else opc_return results)"

text \<open>
  \<open>_read_history_batch\<close>, over the node ids paired with their continuation points
  (\<open>zip(..., strict=True)\<close>; without points each node has \<open>None\<close>).
\<close>

definition history_nodes :: "opc_env \<Rightarrow> (string \<times> string option) list \<Rightarrow> (string \<times> string option) list opc" where
  "history_nodes env entries =
     opc_map (\<lambda>(node_id, point). opc_bind (get_node env node_id) (\<lambda>node. opc_return (node, point))) entries"

function read_history_batch ::
  "opc_env \<Rightarrow> history_range \<Rightarrow> (string \<times> string option) list \<Rightarrow> history_result list opc" where
  "read_history_batch env period entries c =
     opc_bind (history_nodes env entries)
     (\<lambda>nodes. opc_bind (count_runtime (\<lambda>r. r\<lparr>rm_history_read_calls := rm_history_read_calls r + 1\<rparr>))
     (\<lambda>_. opc_try (ask_history_read env period nodes)
        (\<lambda>exc c1.
           if should_retry_after_disconnect exc
           then opc_bind (wait_for_reconnect env exc)
             (\<lambda>_. opc_bind (ask_history_read env period nodes) (checked_history (length entries))) c1
           else if is_too_many_operations_error exc \<and> length entries > 1
           then opc_bind (read_history_batch env period (take (max 1 (length entries div 2)) entries))
             (\<lambda>left. opc_bind (read_history_batch env period (drop (max 1 (length entries div 2)) entries))
             (\<lambda>right. opc_return (left @ right))) c1
           else opc_raise exc c1)
        (checked_history (length entries)))) c"
  by pat_completeness auto
termination by (relation "measure (\<lambda>(env, period, entries, c). length entries)") auto

declare read_history_batch.simps [simp del]

text \<open>
  One round over the results: a node without history gets the empty list, the values of the others
  are appended, and those with a continuation point are asked again. \<open>next_continuations\<close> is keyed by
  the node id.
\<close>

record history_round =
  ho_values :: "(string, ua_data list) dict"
  ho_next :: "string list"
  ho_continuations :: "(string, string) dict"

definition history_step :: "history_round \<Rightarrow> string \<times> history_result \<Rightarrow> opc_exception + history_round" where
  "history_step r entry =
     (case entry of (node_id, result) \<Rightarrow>
        (case hr_check result of
           Some exc \<Rightarrow>
             if is_history_missing_or_unsupported exc
             then Inr (r\<lparr>ho_values := dict_set node_id [] (ho_values r)\<rparr>)
             else Inl exc
         | None \<Rightarrow>
             (case hr_data_values result of
                None \<Rightarrow> Inl (OtherException (''Incomplete OPC UA history response for '' @ node_id))
              | Some vs \<Rightarrow>
                  let extended = r\<lparr>ho_values := dict_set node_id (dict_get_def (ho_values r) node_id [] @ vs) (ho_values r)\<rparr>
                  in Inr (if hr_continuation result \<noteq> []
                       then extended\<lparr>ho_next := ho_next r @ [node_id],
                              ho_continuations := dict_set node_id (hr_continuation result) (ho_continuations r)\<rparr>
                       else extended))))"

fun history_steps :: "history_round \<Rightarrow> (string \<times> history_result) list \<Rightarrow> opc_exception + history_round" where
  "history_steps r [] = Inr r"
| "history_steps r (e # es) = (case history_step r e of Inl exc \<Rightarrow> Inl exc | Inr r' \<Rightarrow> history_steps r' es)"

text \<open>The loop over the rounds. A server that always has more to give keeps it going, so it may not return.\<close>

partial_function (option) history_loop ::
  "opc_env \<Rightarrow> history_range \<Rightarrow> (string, ua_data list) dict \<Rightarrow> string list \<Rightarrow> history_result list \<Rightarrow> opc_client
   \<Rightarrow> ((opc_exception + (string, ua_data list) dict) \<times> opc_client) option" where
  "history_loop env period collected active results c =
     (if active = [] then Some (Inr collected, c)
      else if length active \<noteq> length results
      then Some (Inl (OtherException ''zip() arguments differ in length''), c)
      else case history_steps \<lparr>ho_values = collected, ho_next = [], ho_continuations = []\<rparr> (zip active results) of
        Inl exc \<Rightarrow> Some (Inl exc, c)
      | Inr r \<Rightarrow>
          if ho_next r = [] then Some (Inr (ho_values r), c)
          else case read_history_batch env period
                 (map (\<lambda>node_id. (node_id, dict_get (ho_continuations r) node_id)) (ho_next r)) c of
            (Inl exc, c1) \<Rightarrow> Some (Inl exc, c1)
          | (Inr next_results, c1) \<Rightarrow> history_loop env period (ho_values r) (ho_next r) next_results c1)"

definition history_of_batch ::
  "opc_env \<Rightarrow> history_range \<Rightarrow> string list \<Rightarrow> opc_client
   \<Rightarrow> ((opc_exception + (string, ua_data list) dict) \<times> opc_client) option" where
  "history_of_batch env period node_batch c =
     (case read_history_batch env period (map (\<lambda>node_id. (node_id, None)) node_batch) c of
        (Inl exc, c1) \<Rightarrow> Some (Inl exc, c1)
      | (Inr results, c1) \<Rightarrow>
          history_loop env period (dict_of_list (map (\<lambda>node_id. (node_id, [])) node_batch)) node_batch results c1)"

fun history_of_batches ::
  "opc_env \<Rightarrow> history_range \<Rightarrow> string list list \<Rightarrow> opc_client
   \<Rightarrow> ((opc_exception + (string, ua_data list) dict list) \<times> opc_client) option" where
  "history_of_batches env period [] c = Some (Inr [], c)"
| "history_of_batches env period (batch # batches) c =
     (case history_of_batch env period batch c of
        None \<Rightarrow> None
      | Some (Inl exc, c1) \<Rightarrow> Some (Inl exc, c1)
      | Some (Inr d, c1) \<Rightarrow>
          (case history_of_batches env period batches c1 of
             None \<Rightarrow> None
           | Some (Inl exc, c2) \<Rightarrow> Some (Inl exc, c2)
           | Some (Inr ds, c2) \<Rightarrow> Some (Inr (d # ds), c2)))"

definition read_history_values ::
  "opc_env \<Rightarrow> string list \<Rightarrow> history_range \<Rightarrow> opc_client
   \<Rightarrow> ((opc_exception + (string, ua_data list) dict) \<times> opc_client) option" where
  "read_history_values env node_ids period c =
     (if node_ids = [] then Some (Inr [], c)
      else
        let c0 = snd (count_runtime (\<lambda>r. r\<lparr>rm_history_read_nodes := rm_history_read_nodes r + length node_ids\<rparr>) c)
        in case get_operational_limits env c0 of
             (Inl exc, c1) \<Rightarrow> Some (Inl exc, c1)
           | (Inr limits, c1) \<Rightarrow>
               (case history_of_batches env period
                       (chunked node_ids (max 1 (or_else (ol_history limits) (length node_ids)))) c1 of
                  None \<Rightarrow> None
                | Some (Inl exc, c2) \<Rightarrow> Some (Inl exc, snd (record_failed_request c2))
                | Some (Inr ds, c2) \<Rightarrow>
                    let found = foldl dict_merge [] ds
                    in Some (Inr found, foldl (\<lambda>c' _. snd (record_history_read_success c')) c2 found)))"

section \<open>Write access\<close>

text \<open>
  \<open>_attribute_scalar_value\<close>: the content of the variant, or the data value itself when it has no
  variant; the latter is neither a set nor a number and has only its text.
\<close>

definition attribute_scalar_value :: "ua_data \<Rightarrow> attr_value + ua_data" where
  "attribute_scalar_value data_value = (case ud_variant data_value of None \<Rightarrow> Inr data_value | Some v \<Rightarrow> Inl v)"

definition is_write_access_allowed :: "opc_env \<Rightarrow> (attr_value + ua_data) option \<Rightarrow> bool" where
  "is_write_access_allowed env v =
     (case v of
        None \<Rightarrow> False
      | Some (Inr data_value) \<Rightarrow> is_substring ''write'' (py_lower (ua_data_text env data_value))
      | Some (Inl (AValue PNone)) \<Rightarrow> False
      | Some (Inl (ALabels labels)) \<Rightarrow>
          ''currentwrite'' \<in> set (map py_lower labels) \<or> ''write'' \<in> set (map py_lower labels)
      | Some (Inl (ANodeClass n)) \<Rightarrow> odd (n div 2)
      | Some (Inl (AValue (PBool b))) \<Rightarrow> b
      | Some (Inl (AValue (PInt i))) \<Rightarrow> odd (i div 2)
      | Some (Inl (AValue (PFloat r))) \<Rightarrow> odd ((if r < 0 then - \<lfloor>- r\<rfloor> else \<lfloor>r\<rfloor>) div 2)
      | Some (Inl (AValue (PStr s))) \<Rightarrow>
          (case py_int_of_string s of
             Some i \<Rightarrow> odd (i div 2)
           | None \<Rightarrow> is_substring ''write'' (py_lower s))
      | Some (Inl other) \<Rightarrow> is_substring ''write'' (py_lower (ua_text env other)))"

definition write_access_of :: "opc_env \<Rightarrow> ua_data list \<Rightarrow> bool \<times> bool" where
  "write_access_of env vs =
     (is_write_access_allowed env (case vs of v # _ \<Rightarrow> Some (attribute_scalar_value v) | [] \<Rightarrow> None),
      is_write_access_allowed env (case vs of _ # v # _ \<Rightarrow> Some (attribute_scalar_value v) | _ \<Rightarrow> None))"

definition ask_node_attributes :: "opc_env \<Rightarrow> nat list \<Rightarrow> string \<Rightarrow> ua_data list opc" where
  "ask_node_attributes env attrs node = ask (\<lambda>es. ua_node_attributes env es node attrs) (ENodeAttributes node attrs)"

definition read_write_access :: "opc_env \<Rightarrow> string \<Rightarrow> (bool \<times> bool) opc" where
  "read_write_access env node_id =
     opc_bind (get_node env node_id)
     (\<lambda>node. opc_try (ask_node_attributes env [AttrAccessLevel, AttrUserAccessLevel] node)
        (\<lambda>exc.
           if should_retry_after_disconnect exc
           then opc_bind (wait_for_reconnect env exc)
             (\<lambda>_. opc_bind (get_node env node_id)
             (\<lambda>retry_node. opc_bind (ask_node_attributes env [AttrAccessLevel, AttrUserAccessLevel] retry_node)
             (\<lambda>vs. opc_return (write_access_of env vs))))
           else opc_bind record_failed_request (\<lambda>_. opc_raise exc))
        (\<lambda>vs. opc_return (write_access_of env vs)))"

section \<open>Browse names\<close>

definition name_text :: "(string option \<times> string) option \<Rightarrow> string option" where
  "name_text browse_name =
     (case browse_name of
        None \<Rightarrow> None
      | Some (Some s, text) \<Rightarrow> if s \<noteq> [] then Some s else Some text
      | Some (None, text) \<Rightarrow> Some text)"

definition ask_browse_name :: "opc_env \<Rightarrow> string \<Rightarrow> (string option \<times> string) option opc" where
  "ask_browse_name env node = ask (\<lambda>es. ua_read_browse_name env es node) (EReadBrowseName node)"

definition read_browse_name :: "opc_env \<Rightarrow> string \<Rightarrow> string option opc" where
  "read_browse_name env node_id =
     opc_bind (get_node env node_id)
     (\<lambda>node. opc_try (ask_browse_name env node)
        (\<lambda>exc.
           if should_retry_after_disconnect exc
           then opc_bind (wait_for_reconnect env exc)
             (\<lambda>_. opc_bind (get_node env node_id)
             (\<lambda>again. opc_bind (ask_browse_name env again) (\<lambda>name. opc_return (name_text name))))
           else opc_return None)
        (\<lambda>name. opc_return (name_text name)))"

section \<open>Writing a value\<close>

definition explicit_variant_type :: "opc_env \<Rightarrow> pyval \<Rightarrow> string option \<Rightarrow> string option" where
  "explicit_variant_type env v variant_type =
     (if v = PNone then Some ''Null''
      else case variant_type of
        None \<Rightarrow> None
      | Some t \<Rightarrow>
          if py_strip t \<noteq> [] \<and> ua_variant_type_known env (py_strip t) then Some (py_strip t) else None)"

definition quality_from_status_code :: "opc_env \<Rightarrow> 32 word option \<Rightarrow> string option" where
  "quality_from_status_code env status_code =
     (case status_code of
        None \<Rightarrow> None
      | Some code \<Rightarrow>
          if code = ua_good_no_data env then Some ''GoodNoData''
          else let severity = code AND 0xC0000000
               in if severity = 0 then Some ''Good''
                  else if severity = 0x40000000 then Some ''Uncertain''
                  else if severity = 0x80000000 then Some ''Bad''
                  else None)"

text \<open>
  \<open>write_value\<close>: sent once, never again after a connection loss; afterwards the value is read back
  to see that the server kept quality and time stamp. The time stamp is in UTC.
\<close>

definition write_value ::
  "opc_env \<Rightarrow> string \<Rightarrow> pyval \<Rightarrow> string option \<Rightarrow> string \<Rightarrow> datetime \<Rightarrow> unit opc" where
  "write_value env node_id v variant_type quality timestamp =
     opc_bind (get_node env node_id)
     (\<lambda>node.
        if quality \<notin> {''Good'', ''Uncertain'', ''Bad'', ''GoodNoData''}
        then opc_raise (OtherException (''Unsupported quality: '' @ quality))
        else
          let payload = \<lparr>up_value = v, up_type = explicit_variant_type env v variant_type,
                         up_status = ua_quality_status_code env quality, up_source_timestamp = timestamp\<rparr>
          in opc_try (ask (\<lambda>es. ua_write env es node payload) (EWrite node payload))
               (\<lambda>exc. opc_bind record_failed_request (\<lambda>_. opc_raise exc))
               (\<lambda>_. opc_bind (count_request (\<lambda>q. q\<lparr>qm_write_count := qm_write_count q + 1\<rparr>))
               (\<lambda>_. opc_try (ask (\<lambda>es. ua_read_back env es node) (EReadBack node))
                  (\<lambda>_. opc_bind record_failed_request
                     (\<lambda>_. opc_raise (WriteMetadataVerificationError
                        (''OPC UA server accepted the current-value write, but the requested quality and source timestamp ''
                         @ ''could not be verified; write outcome is uncertain''))))
                  (\<lambda>written.
                     if quality_from_status_code env (ud_status written) \<noteq> Some quality
                        \<or> ud_source_timestamp written \<noteq> Some timestamp
                     then opc_bind record_failed_request
                       (\<lambda>_. opc_raise (WriteMetadataUnsupportedError
                          (''OPC UA server did not preserve the requested quality and source timestamp; ''
                           @ ''current-value VQT writes are unsupported by this server'')))
                     else opc_return ()))))"

section \<open>Calling a method\<close>

definition call_method :: "opc_env \<Rightarrow> string \<Rightarrow> string \<Rightarrow> pyval list \<Rightarrow> pyval opc" where
  "call_method env object_node_id method_node_id args =
     opc_bind (count_runtime (\<lambda>r. r\<lparr>rm_method_calls := rm_method_calls r + 1\<rparr>))
     (\<lambda>_. opc_bind (get_node env object_node_id)
     (\<lambda>object_node. opc_try (ask (\<lambda>es. ua_call_method env es object_node method_node_id args)
                        (ECallMethod object_node method_node_id args))
        (\<lambda>exc. opc_bind record_failed_request (\<lambda>_. opc_raise exc))
        (\<lambda>result. opc_bind record_method_success (\<lambda>_. opc_return result))))"

end
