(* ===== verification/OpcBrowse.thy ===== *)
theory OpcBrowse
  imports OpcClient
begin

text \<open>
  Browsing with the OPC UA client, \<open>i3x_server/infrastructure/opcua/client.py\<close>:
  \<open>_browse_references_descriptions\<close> with its continuation points, the attributes of the browsed nodes
  (\<open>_read_node_infos_limited\<close> and its per-node fallback), and \<open>browse_tree\<close>, the walk over the address
  space that the model is built from.
\<close>

section \<open>Operations that may not return\<close>

text \<open>A server that always has more to give keeps the loops going: \<open>None\<close> is a call that does not return.\<close>

type_synonym 'a opc_run = "opc_client \<Rightarrow> ((opc_exception + 'a) \<times> opc_client) option"

definition run :: "'a opc \<Rightarrow> 'a opc_run" where
  "run m c = Some (m c)"

definition run_bind :: "'a opc_run \<Rightarrow> ('a \<Rightarrow> 'b opc_run) \<Rightarrow> 'b opc_run" where
  "run_bind m f c =
     (case m c of
        None \<Rightarrow> None
      | Some (Inl exc, c') \<Rightarrow> Some (Inl exc, c')
      | Some (Inr x, c') \<Rightarrow> f x c')"

fun run_map :: "('a \<Rightarrow> 'b opc_run) \<Rightarrow> 'a list \<Rightarrow> 'b list opc_run" where
  "run_map f [] c = Some (Inr [], c)"
| "run_map f (x # xs) c = run_bind (f x) (\<lambda>y. run_bind (run_map f xs) (\<lambda>ys. run (opc_return (y # ys)))) c"

section \<open>References\<close>

definition ask_browse :: "opc_env \<Rightarrow> browse_params \<Rightarrow> browse_answer list opc" where
  "ask_browse env params = ask (\<lambda>es. ua_browse env es params) (EBrowse params)"

definition ask_browse_next :: "opc_env \<Rightarrow> string list \<Rightarrow> browse_answer list opc" where
  "ask_browse_next env points = ask (\<lambda>es. ua_browse_next env es points) (EBrowseNext points)"

definition recorded :: "opc_env \<Rightarrow> browse_answer list \<Rightarrow> browse_answer list opc" where
  "recorded env results = opc_bind (record_browse_results env results) (\<lambda>_. opc_return results)"

definition browse_with_retry :: "opc_env \<Rightarrow> browse_params \<Rightarrow> browse_answer list opc" where
  "browse_with_retry env params =
     opc_try (ask_browse env params)
       (\<lambda>exc.
          if \<not> should_retry_after_disconnect exc
          then opc_bind record_failed_request (\<lambda>_. opc_raise exc)
          else opc_bind (wait_for_reconnect env exc) (\<lambda>_. opc_bind (ask_browse env params) (recorded env)))
       (recorded env)"

definition browse_next_with_retry :: "opc_env \<Rightarrow> string list \<Rightarrow> browse_answer list opc" where
  "browse_next_with_retry env points =
     opc_try (ask_browse_next env points)
       (\<lambda>exc.
          if \<not> should_retry_after_disconnect exc
          then opc_bind record_failed_request (\<lambda>_. opc_raise exc)
          else opc_bind (wait_for_reconnect env exc) (\<lambda>_. opc_bind (ask_browse_next env points) (recorded env)))
       (recorded env)"

text \<open>
  The loop over the continuation points. An entry of \<open>continuation_entries\<close> shares its list of
  references with the result of its node: here it has the position of the node in the batch.
\<close>

definition extend_references ::
  "(nat \<times> string) list \<Rightarrow> browse_answer list \<Rightarrow> ref_description list list \<Rightarrow> ref_description list list" where
  "extend_references entries next_results refs =
     foldl (\<lambda>refs ((k, _), r). refs[k := refs ! k @ ba_references r]) refs (zip entries next_results)"

definition next_entries :: "(nat \<times> string) list \<Rightarrow> browse_answer list \<Rightarrow> (nat \<times> string) list" where
  "next_entries entries next_results =
     map (\<lambda>((k, _), r). (k, ba_continuation r))
       (filter (\<lambda>(_, r). ba_continuation r \<noteq> []) (zip entries next_results))"

definition count_browse_next :: "unit opc" where
  "count_browse_next = count_runtime (\<lambda>r. r\<lparr>rm_browse_next_calls := rm_browse_next_calls r + 1\<rparr>)"

definition count_next_references :: "browse_answer list \<Rightarrow> unit opc" where
  "count_next_references results = count_runtime (\<lambda>r. r\<lparr>rm_browse_next_references :=
     rm_browse_next_references r + sum_list (map (\<lambda>b. length (ba_references b)) results)\<rparr>)"

partial_function (option) continue_browse ::
  "opc_env \<Rightarrow> (nat \<times> string) list \<Rightarrow> ref_description list list \<Rightarrow> opc_client
   \<Rightarrow> ((opc_exception + ref_description list list) \<times> opc_client) option" where
  "continue_browse env entries refs c =
     (if entries = [] then Some (Inr refs, c)
      else case opc_bind (browse_next_with_retry env (map snd entries))
               (\<lambda>results. opc_bind count_browse_next (\<lambda>_. opc_return results)) c of
        (Inl exc, c1) \<Rightarrow> Some (Inl exc, c1)
      | (Inr results, c1) \<Rightarrow>
          if length results \<noteq> length entries
          then Some (Inl (OtherException (''BrowseNext returned '' @ nat_digits (length results) @ '' results for ''
                 @ nat_digits (length entries) @ '' points'')), c1)
          else continue_browse env (next_entries entries results) (extend_references entries results refs)
                 (snd (count_next_references results c1)))"

text \<open>One batch of nodes: browse, then follow the continuation points of those that have one.\<close>

definition count_browse :: "nat \<Rightarrow> unit opc" where
  "count_browse n = count_runtime (\<lambda>r. r\<lparr>rm_browse_calls := rm_browse_calls r + 1, rm_browse_nodes := rm_browse_nodes r + n\<rparr>)"

definition count_initial_references :: "browse_answer list \<Rightarrow> unit opc" where
  "count_initial_references results = count_runtime (\<lambda>r. r\<lparr>rm_browse_initial_references :=
     rm_browse_initial_references r + sum_list (map (\<lambda>b. length (ba_references b)) results)\<rparr>)"

definition first_entries :: "browse_answer list \<Rightarrow> (nat \<times> string) list" where
  "first_entries results =
     map (\<lambda>(k, r). (k, ba_continuation r)) (filter (\<lambda>(_, r). ba_continuation r \<noteq> []) (enumerate 0 results))"

definition browse_batch ::
  "opc_env \<Rightarrow> nat \<Rightarrow> browse_direction \<Rightarrow> bool \<Rightarrow> string list \<Rightarrow> (string \<times> ref_description list) list opc_run" where
  "browse_batch env reference_type_id direction include_subtypes node_batch =
     run_bind
       (run (opc_bind (count_browse (length node_batch))
         (\<lambda>_. opc_bind (browse_with_retry env \<lparr>bp_nodes = node_batch, bp_type = reference_type_id,
                          bp_direction = direction, bp_subtypes = include_subtypes\<rparr>)
         (\<lambda>results. opc_bind (count_initial_references results)
         (\<lambda>_. if length results \<noteq> length node_batch
              then opc_raise (OtherException ''zip() arguments differ in length'')
              else opc_return results)))))
       (\<lambda>results. run_bind (continue_browse env (first_entries results) (map ba_references results))
       (\<lambda>refs. run (opc_return (zip node_batch refs))))"

definition browse_references_descriptions ::
  "opc_env \<Rightarrow> string list \<Rightarrow> nat \<Rightarrow> nat \<Rightarrow> browse_direction \<Rightarrow> bool \<Rightarrow> (string \<times> ref_description list) list opc_run" where
  "browse_references_descriptions env nodes max_nodes_per_browse reference_type_id direction include_subtypes =
     (if nodes = [] then run (opc_return [])
      else run_bind
        (run_map (browse_batch env reference_type_id direction include_subtypes)
          (chunked nodes (max 1 max_nodes_per_browse)))
        (\<lambda>results. run (opc_return (concat results))))"

definition ReferencesType :: nat where "ReferencesType = 31"
definition HierarchicalReferences :: nat where "HierarchicalReferences = 33"
definition HasTypeDefinition :: nat where "HasTypeDefinition = 40"
definition HasSubtype :: nat where "HasSubtype = 45"

definition browse_children_descriptions ::
  "opc_env \<Rightarrow> string list \<Rightarrow> nat \<Rightarrow> (string \<times> ref_description list) list opc_run" where
  "browse_children_descriptions env nodes max_nodes_per_browse =
     browse_references_descriptions env nodes max_nodes_per_browse HierarchicalReferences Forward True"

section \<open>Attributes of nodes\<close>

definition node_info_attributes :: "nat list" where
  "node_info_attributes =
     [AttrBrowseName, AttrDisplayName, AttrNodeClass, AttrDescription, AttrDataType, AttrAccessLevel,
      AttrUserAccessLevel, AttrEventNotifier, AttrExecutable, AttrUserExecutable]"

text \<open>The members of \<open>NodeClass\<close> and their names.\<close>

definition node_class_names :: "(nat \<times> string) list" where
  "node_class_names =
     [(0, ''Unspecified''), (1, ''Object''), (2, ''Variable''), (4, ''Method''), (8, ''ObjectType''),
      (16, ''VariableType''), (32, ''ReferenceType''), (64, ''DataType''), (128, ''View'')]"

definition node_info_class_attributes :: "string \<Rightarrow> nat list" where
  "node_info_class_attributes node_class =
     (if node_class = ''Variable'' then [AttrDataType, AttrAccessLevel, AttrUserAccessLevel]
      else if node_class = ''Object'' \<or> node_class = ''View'' then [AttrEventNotifier]
      else if node_class = ''Method'' then [AttrExecutable, AttrUserExecutable]
      else [])"

text \<open>\<open>int(value)\<close> of an attribute; \<open>None\<close> stands for a \<open>TypeError\<close> or \<open>ValueError\<close>.\<close>

definition int_of_attribute :: "attr_value \<Rightarrow> int option" where
  "int_of_attribute v =
     (case v of
        ANodeClass n \<Rightarrow> Some (int n)
      | AValue (PBool b) \<Rightarrow> Some (if b then 1 else 0)
      | AValue (PInt i) \<Rightarrow> Some i
      | AValue (PFloat r) \<Rightarrow> Some (if r < 0 then - \<lfloor>- r\<rfloor> else \<lfloor>r\<rfloor>)
      | AValue (PStr s) \<Rightarrow> py_int_of_string s
      | _ \<Rightarrow> None)"

definition coerce_node_class :: "attr_value option \<Rightarrow> string option" where
  "coerce_node_class v =
     (case v of
        None \<Rightarrow> None
      | Some a \<Rightarrow>
          (case int_of_attribute a of
             Some i \<Rightarrow> if i < 0 then None else map_of node_class_names (nat i)
           | None \<Rightarrow> None))"

text \<open>An access level is an unsigned byte.\<close>

definition coerce_access_level :: "attr_value option \<Rightarrow> nat option" where
  "coerce_access_level v = (case v of None \<Rightarrow> None | Some a \<Rightarrow> map_option nat (int_of_attribute a))"

definition truthy :: "attr_value \<Rightarrow> bool" where
  "truthy v =
     (case v of
        ANodeClass n \<Rightarrow> n \<noteq> 0
      | ALabels ls \<Rightarrow> ls \<noteq> []
      | AValue PNone \<Rightarrow> False
      | AValue (PBool b) \<Rightarrow> b
      | AValue (PInt i) \<Rightarrow> i \<noteq> 0
      | AValue (PFloat r) \<Rightarrow> r \<noteq> 0
      | AValue (PStr s) \<Rightarrow> s \<noteq> []
      | AValue (PList xs) \<Rightarrow> xs \<noteq> []
      | AValue (PTuple xs) \<Rightarrow> xs \<noteq> []
      | AValue (PDict d) \<Rightarrow> d \<noteq> []
      | _ \<Rightarrow> True)"

definition normalize_type_definition_id :: "string option \<Rightarrow> string option" where
  "normalize_type_definition_id type_definition_id =
     (case type_definition_id of
        None \<Rightarrow> None
      | Some t \<Rightarrow>
          if t = [] then None
          else if py_strip t \<in> {''i=0'', ''ns=0;i=0'', ''nsu=http://opcfoundation.org/UA/;i=0''} then None
          else Some (py_strip t))"

text \<open>\<open>_extract_class_node_info_attribute\<close>: only what applies to the class, and only when it is good.\<close>

definition class_attribute :: "opc_env \<Rightarrow> string \<Rightarrow> nat \<Rightarrow> ua_data \<Rightarrow> attr_value option" where
  "class_attribute env node_class attribute v =
     (if attribute \<notin> set (node_info_class_attributes node_class) then None
      else extract_attribute_value env v)"

definition description_of :: "attr_value option \<Rightarrow> string option" where
  "description_of v =
     (case v of Some (AText (Some t)) \<Rightarrow> if py_strip t \<noteq> [] then Some t else None | _ \<Rightarrow> None)"

text \<open>
  The record of a node from its ten attribute values. \<open>values\<close> are in the order of
  \<open>node_info_attributes\<close>.
\<close>

definition attr_of :: "ua_data list \<Rightarrow> nat \<Rightarrow> ua_data option" where
  "attr_of vs attr = map_of (zip node_info_attributes vs) attr"

definition class_value :: "opc_env \<Rightarrow> string \<Rightarrow> ua_data list \<Rightarrow> nat \<Rightarrow> attr_value option" where
  "class_value env node_class vs attr =
     (case attr_of vs attr of
        None \<Rightarrow> None
      | Some v \<Rightarrow> (case class_attribute env node_class attr v of Some (AValue PNone) \<Rightarrow> None | a \<Rightarrow> a))"

definition text_of_node_id :: "opc_env \<Rightarrow> attr_value \<Rightarrow> string" where
  "text_of_node_id env v = (case v of ANodeId i \<Rightarrow> i | _ \<Rightarrow> ua_text env v)"

definition bool_only :: "attr_value option \<Rightarrow> bool option" where
  "bool_only v = (case v of Some (AValue (PBool b)) \<Rightarrow> Some b | _ \<Rightarrow> None)"

definition node_info ::
  "opc_env \<Rightarrow> string \<Rightarrow> string option \<Rightarrow> string \<Rightarrow> string \<Rightarrow> string \<Rightarrow> string option \<Rightarrow> ua_data list \<Rightarrow> OpcUaNodeInfo" where
  "node_info env node_id parent browse_name display_name node_class type_def vs =
     \<lparr>oi_node_id = node_id, oi_parent_node_id = parent, oi_browse_name = browse_name, oi_display_name = display_name,
      oi_node_class = node_class,
      oi_data_type = map_option (text_of_node_id env) (class_value env node_class vs AttrDataType),
      oi_type_definition_id = type_def,
      oi_event_notifier = (case class_value env node_class vs AttrEventNotifier of None \<Rightarrow> False | Some v \<Rightarrow> truthy v),
      oi_outgoing_references = [],
      oi_description = description_of (Option.bind (attr_of vs AttrDescription) (extract_attribute_value env)),
      oi_access_level = coerce_access_level (class_value env node_class vs AttrAccessLevel),
      oi_user_access_level = coerce_access_level (class_value env node_class vs AttrUserAccessLevel),
      oi_executable = bool_only (class_value env node_class vs AttrExecutable),
      oi_user_executable = bool_only (class_value env node_class vs AttrUserExecutable)\<rparr>"

definition attribute_in :: "opc_env \<Rightarrow> ua_data list \<Rightarrow> nat \<Rightarrow> attr_value option" where
  "attribute_in env vs attr =
     (case Option.bind (attr_of vs attr) (extract_attribute_value env) of Some (AValue PNone) \<Rightarrow> None | a \<Rightarrow> a)"

section \<open>Reading one node\<close>

text \<open>
  \<open>_read_node_info\<close>, the fallback for one node. A null name or text, which the code passes on as it
  is, is the empty string here.
\<close>

definition name_or_fail :: "attr_value \<Rightarrow> string opc" where
  "name_or_fail v =
     (case v of
        AName name \<Rightarrow> opc_return (case name of Some s \<Rightarrow> s | None \<Rightarrow> [])
      | _ \<Rightarrow> opc_raise (OtherException ''object has no attribute Name''))"

definition text_or_fail :: "attr_value \<Rightarrow> string opc" where
  "text_or_fail v =
     (case v of
        AText t \<Rightarrow> opc_return (case t of Some s \<Rightarrow> s | None \<Rightarrow> [])
      | _ \<Rightarrow> opc_raise (OtherException ''object has no attribute Text''))"

definition read_type_definition_or_none :: "opc_env \<Rightarrow> string \<Rightarrow> string option opc" where
  "read_type_definition_or_none env node =
     opc_try (ask (\<lambda>es. ua_read_type_definition env es node) (EReadTypeDefinition node))
       (\<lambda>_. opc_return None)
       (\<lambda>t. opc_return (normalize_type_definition_id (Some t)))"

definition read_node_info :: "opc_env \<Rightarrow> string \<Rightarrow> string option \<Rightarrow> OpcUaNodeInfo opc" where
  "read_node_info env node parent =
     opc_bind (read_attribute_pairs env (map (\<lambda>attr. (node, attr)) node_info_attributes))
     (\<lambda>vs. case (attribute_in env vs AttrBrowseName, attribute_in env vs AttrDisplayName) of
        (Some browse_name, Some display_name) \<Rightarrow>
          (case coerce_node_class (attribute_in env vs AttrNodeClass) of
             None \<Rightarrow> opc_raise (OtherException (''Cannot read node class for OPC UA node '' @ node))
           | Some node_class \<Rightarrow>
               opc_bind (if node_class \<in> {''Object'', ''Variable''} then read_type_definition_or_none env node else opc_return None)
               (\<lambda>type_def. opc_bind (name_or_fail browse_name)
               (\<lambda>name. opc_bind (text_or_fail display_name)
               (\<lambda>text. opc_return (node_info env node parent name text node_class type_def vs)))))
      | _ \<Rightarrow> opc_raise (OtherException (''Cannot read required node names for OPC UA node '' @ node)))"

text \<open>\<open>_read_node_infos_fallback\<close>: a node that cannot be read is skipped.\<close>

definition read_node_infos_fallback :: "opc_env \<Rightarrow> (string \<times> string option) list \<Rightarrow> OpcUaNodeInfo list opc" where
  "read_node_infos_fallback env entries =
     opc_bind (opc_map (\<lambda>(node, parent). opc_try (read_node_info env node parent) (\<lambda>_. opc_return None) (\<lambda>i. opc_return (Some i))) entries)
       (\<lambda>found. opc_return (List.map_filter id found))"

section \<open>Reading many nodes\<close>

definition read_type_definitions :: "opc_env \<Rightarrow> string list \<Rightarrow> (string, string option) dict opc_run" where
  "read_type_definitions env nodes =
     (if nodes = [] then run (opc_return [])
      else run_bind (run (get_operational_limits env))
        (\<lambda>limits. run_bind (browse_references_descriptions env nodes (or_else (ol_browse limits) (length nodes)) HasTypeDefinition Forward True)
        (\<lambda>browsed. run (opc_return
           (dict_of_list [(node, normalize_type_definition_id (Some (rd_node_id (hd refs)))). (node, refs) \<leftarrow> browsed, refs \<noteq> []])))))"

text \<open>
  What the ten values of a node give at once: its names and its class, or nothing when one of them is
  missing, and then the node is read again on its own.
\<close>

definition mandatory :: "opc_env \<Rightarrow> ua_data list \<Rightarrow> (string \<times> string \<times> string) option" where
  "mandatory env vs =
     (case coerce_node_class (attribute_in env vs AttrNodeClass) of
        None \<Rightarrow> None
      | Some node_class \<Rightarrow>
          (case (attribute_in env vs AttrBrowseName, attribute_in env vs AttrDisplayName) of
             (Some (AName (Some browse_name)), Some (AText (Some display_name))) \<Rightarrow>
               Some (browse_name, display_name, node_class)
           | _ \<Rightarrow> None))"

fun split_values :: "nat \<Rightarrow> ua_data list \<Rightarrow> 'a list \<Rightarrow> ('a \<times> ua_data list) list" where
  "split_values n vs [] = []"
| "split_values n vs (x # xs) = (x, take n vs) # split_values n (drop n vs) xs"

definition infos_of_values ::
  "opc_env \<Rightarrow> ((string \<times> string option) \<times> ua_data list) list \<Rightarrow> (string, string option) dict \<Rightarrow> OpcUaNodeInfo list" where
  "infos_of_values env rows type_definitions =
     List.map_filter (\<lambda>((node, parent), vs).
       case mandatory env vs of
         None \<Rightarrow> None
       | Some (browse_name, display_name, node_class) \<Rightarrow>
           Some (node_info env node parent browse_name display_name node_class
             (normalize_type_definition_id (dict_get_def type_definitions node None)) vs)) rows"

definition typed_nodes :: "opc_env \<Rightarrow> ((string \<times> string option) \<times> ua_data list) list \<Rightarrow> string list" where
  "typed_nodes env rows =
     List.map_filter (\<lambda>((node, _), vs).
       case mandatory env vs of
         Some (_, _, node_class) \<Rightarrow> if node_class \<in> {''Object'', ''Variable''} then Some node else None
       | None \<Rightarrow> None) rows"

definition incomplete :: "opc_env \<Rightarrow> ((string \<times> string option) \<times> ua_data list) list \<Rightarrow> (string \<times> string option) list" where
  "incomplete env rows = map fst (filter (\<lambda>(_, vs). mandatory env vs = None) rows)"

definition infos_of_rows ::
  "opc_env \<Rightarrow> ((string \<times> string option) \<times> ua_data list) list \<Rightarrow> OpcUaNodeInfo list opc_run" where
  "infos_of_rows env rows =
     run_bind (read_type_definitions env (typed_nodes env rows))
       (\<lambda>type_definitions. run_bind
          (run (if incomplete env rows = [] then opc_return [] else read_node_infos_fallback env (incomplete env rows)))
       (\<lambda>again. run (opc_return (infos_of_values env rows type_definitions @ again))))"

definition node_infos_of_batch :: "opc_env \<Rightarrow> (string \<times> string option) list \<Rightarrow> OpcUaNodeInfo list opc_run" where
  "node_infos_of_batch env entries =
     run_bind
       (run (opc_try (read_attribute_pairs env (concat (map (\<lambda>(node, _). map (\<lambda>attr. (node, attr)) node_info_attributes) entries)))
          (\<lambda>_. opc_return None) (\<lambda>vs. opc_return (Some vs))))
       (\<lambda>answer. case answer of
          None \<Rightarrow> run (read_node_infos_fallback env entries)
        | Some vs \<Rightarrow> infos_of_rows env (split_values (length node_info_attributes) vs entries))"

definition read_node_infos_limited :: "opc_env \<Rightarrow> (string \<times> string option) list \<Rightarrow> OpcUaNodeInfo list opc_run" where
  "read_node_infos_limited env entries =
     (if entries = [] then run (opc_return [])
      else run_bind (run (get_operational_limits env))
        (\<lambda>limits. run_bind
           (run_map (node_infos_of_batch env)
             (chunked entries (max 1 (min (or_else (ol_read limits) (length entries) div length node_info_attributes) (length entries)))))
        (\<lambda>infos. run (opc_return (concat infos)))))"

section \<open>Names of reference types\<close>

fun add_type_names ::
  "opc_env \<Rightarrow> (string \<times> ua_data) list \<Rightarrow> (string, string) dict \<Rightarrow> opc_exception + (string, string) dict" where
  "add_type_names env [] names = Inr names"
| "add_type_names env ((type_id, v) # rows) names =
     (case extract_attribute_value env v of
        Some (AName (Some browse_name)) \<Rightarrow>
          if browse_name \<noteq> [] then add_type_names env rows (dict_set type_id browse_name names)
          else Inl (OtherException (''Cannot read BrowseName for reference type '' @ type_id))
      | _ \<Rightarrow> Inl (OtherException (''Cannot read BrowseName for reference type '' @ type_id)))"

definition unnamed_types :: "ref_description list \<Rightarrow> (string, string) dict \<Rightarrow> string list" where
  "unnamed_types refs names = sort (remdups (filter (\<lambda>t. t \<notin> set (dict_keys names)) (map rd_type_id refs)))"

definition read_reference_type_browse_names ::
  "opc_env \<Rightarrow> ref_description list \<Rightarrow> (string, string) dict \<Rightarrow> (string, string) dict opc" where
  "read_reference_type_browse_names env refs names =
     (let type_ids = unnamed_types refs names
      in if type_ids = [] then opc_return names
         else opc_bind (get_nodes env type_ids)
           (\<lambda>nodes. opc_bind (read_attribute_batch_limited env AttrBrowseName nodes)
           (\<lambda>vs. if length vs \<noteq> length type_ids then opc_raise (OtherException ''zip() arguments differ in length'')
              else case add_type_names env (zip type_ids vs) names of
                Inl exc \<Rightarrow> opc_raise exc
              | Inr names' \<Rightarrow> opc_return names')))"

definition to_reference_infos :: "ref_description list \<Rightarrow> (string, string) dict \<Rightarrow> opc_exception + OpcUaReferenceInfo list" where
  "to_reference_infos refs names =
     (if list_all (\<lambda>r. rd_type_id r \<in> set (dict_keys names)) refs
      then Inr (map (\<lambda>r. \<lparr>ri_target_node_id = rd_node_id r, ri_reference_type_id = rd_type_id r,
                          ri_reference_browse_name = dict_get_def names (rd_type_id r) []\<rparr>) refs)
      else Inl (OtherException ''KeyError''))"

section \<open>Browse roots\<close>

text \<open>
  \<open>_resolve_browse_roots\<close>. \<open>ua_parse_root\<close> is \<open>ua.NodeId.from_string\<close> on a configured root: \<open>None\<close> when
  it is not a local URI-based ExpandedNodeId, otherwise its namespace URI and its NodeId for a namespace
  index.
\<close>

fun index_of_uri :: "string list \<Rightarrow> string \<Rightarrow> nat option" where
  "index_of_uri [] uri = None"
| "index_of_uri (u # us) uri = (if u = uri then Some 0 else map_option Suc (index_of_uri us uri))"

definition resolve_browse_root :: "opc_env \<Rightarrow> string list \<Rightarrow> string \<Rightarrow> string opc" where
  "resolve_browse_root env namespace_array configured_id =
     (case ua_parse_root env configured_id of
        Inl exc \<Rightarrow> opc_raise exc
      | Inr None \<Rightarrow> opc_raise (OtherException (''Browse root must be a local URI-based ExpandedNodeId: '' @ configured_id))
      | Inr (Some (namespace_uri, node_id)) \<Rightarrow>
          (case index_of_uri namespace_array namespace_uri of
             None \<Rightarrow> opc_raise (OtherException (''Browse root namespace is not available: '' @ configured_id))
           | Some namespace_index \<Rightarrow>
               opc_try (ask (\<lambda>es. ua_read_node_class env es (node_id namespace_index)) (EReadNodeClass (node_id namespace_index)))
                 (\<lambda>exc. case exc of
                    StatusCodeError _ _ \<Rightarrow>
                      opc_raise (OtherException (''Cannot read configured OPC UA browse root '' @ configured_id))
                  | _ \<Rightarrow> opc_raise exc)
                 (\<lambda>node_class.
                    if node_class \<noteq> ''Object''
                    then opc_raise (OtherException (''Configured OPC UA browse root is not an Object: '' @ configured_id))
                    else opc_return (node_id namespace_index))))"

definition resolve_browse_roots :: "opc_env \<Rightarrow> string list opc" where
  "resolve_browse_roots env =
     (case ua_browse_roots env of
        None \<Rightarrow> opc_return [ua_objects_node env]
      | Some [] \<Rightarrow> opc_raise (OtherException ''Configured OPC UA browse roots must not be empty'')
      | Some configured \<Rightarrow>
          opc_bind (ask (\<lambda>es. ua_namespace_array env es) EGetNamespaceArray)
            (\<lambda>namespace_array. opc_bind (opc_map (resolve_browse_root env namespace_array) configured)
            (\<lambda>roots. opc_return (List.rev (remdups (List.rev roots))))))"

section \<open>The walk over the address space\<close>

text \<open>
  The nodes of a batch that were not visited before, and the nodes visited then. The node is marked as
  it is met, so a node twice in one batch is read once.
\<close>

definition first_visits ::
  "(string \<times> string option) list \<Rightarrow> string list \<Rightarrow> (string \<times> string option) list \<times> string list" where
  "first_visits batch visited =
     foldl (\<lambda>(entries, visited) (node, parent).
         if node \<in> set visited then (entries, visited) else (entries @ [(node, parent)], visited @ [node]))
       ([], visited) batch"

text \<open>\<open>info.outgoing_references = ...\<close>: a node without a record is passed over.\<close>

definition attach :: "(string \<times> OpcUaReferenceInfo list) list \<Rightarrow> OpcUaNodeInfo \<Rightarrow> OpcUaNodeInfo" where
  "attach references info =
     (case map_of (List.rev references) (oi_node_id info) of
        None \<Rightarrow> info
      | Some refs \<Rightarrow> info\<lparr>oi_outgoing_references := refs\<rparr>)"

definition attach_references ::
  "(string \<times> ref_description list) list \<Rightarrow> (string, string) dict \<Rightarrow> OpcUaNodeInfo list \<Rightarrow> opc_exception + OpcUaNodeInfo list" where
  "attach_references all_refs names infos =
     (if list_all (\<lambda>(node, refs). node \<notin> set (map oi_node_id infos) \<or> (\<exists>rs. to_reference_infos refs names = Inr rs)) all_refs
      then Inr (map (attach [(node, rs). (node, refs) \<leftarrow> all_refs,
             rs \<leftarrow> (case to_reference_infos refs names of Inr rs \<Rightarrow> [rs] | Inl _ \<Rightarrow> [])]) infos)
      else Inl (OtherException ''KeyError''))"

definition visit_batch ::
  "opc_env \<Rightarrow> nat \<Rightarrow> (string \<times> string option) list \<Rightarrow> (string, string) dict
   \<Rightarrow> (OpcUaNodeInfo list \<times> (string, string) dict \<times> (string \<times> string option) list) opc_run" where
  "visit_batch env max_nodes entries names =
     run_bind (read_node_infos_limited env entries)
     (\<lambda>infos. run_bind (browse_references_descriptions env (map fst entries) max_nodes ReferencesType Forward True)
     (\<lambda>all_refs. run_bind (browse_children_descriptions env (map fst entries) max_nodes)
     (\<lambda>browsed. run_bind (run (read_reference_type_browse_names env (concat (map snd all_refs)) names))
     (\<lambda>names'. run
        (case attach_references all_refs names' infos of
           Inl exc \<Rightarrow> opc_raise exc
         | Inr infos' \<Rightarrow> opc_return
             (infos', names', [(rd_node_id r, Some parent). (parent, refs) \<leftarrow> browsed, r \<leftarrow> refs]))))))"

partial_function (option) browse_loop ::
  "opc_env \<Rightarrow> nat \<Rightarrow> (string \<times> string option) list \<Rightarrow> string list \<Rightarrow> (string, string) dict \<Rightarrow> OpcUaNodeInfo list
   \<Rightarrow> opc_client \<Rightarrow> ((opc_exception + OpcUaNodeInfo list) \<times> opc_client) option" where
  "browse_loop env max_nodes stack visited names infos c =
     (if stack = [] then Some (Inr infos, c)
      else case first_visits (take max_nodes stack) visited of (entries, visited') \<Rightarrow>
        if entries = [] then browse_loop env max_nodes (drop max_nodes stack) visited' names infos c
        else case visit_batch env max_nodes entries names c of
          None \<Rightarrow> None
        | Some (Inl exc, c1) \<Rightarrow> Some (Inl exc, c1)
        | Some (Inr (found, names', children), c1) \<Rightarrow>
            browse_loop env max_nodes (drop max_nodes stack @ children) visited' names' (infos @ found) c1)"

definition count_tree_nodes :: "OpcUaNodeInfo list \<Rightarrow> unit opc" where
  "count_tree_nodes infos = count_runtime (\<lambda>r. r\<lparr>rm_browse_tree_nodes_last := length infos\<rparr>)"

definition browse_tree :: "opc_env \<Rightarrow> OpcUaNodeInfo list opc_run" where
  "browse_tree env =
     run_bind (run (count_runtime (\<lambda>r. r\<lparr>rm_browse_tree_calls := rm_browse_tree_calls r + 1\<rparr>)))
     (\<lambda>_. run_bind (run (get_operational_limits env))
     (\<lambda>limits. run_bind (run (resolve_browse_roots env))
     (\<lambda>roots. run_bind (browse_loop env (or_else (ol_browse limits) 128) (map (\<lambda>r. (r, None)) roots) [] [] [])
     (\<lambda>infos. run (opc_bind (count_tree_nodes infos) (\<lambda>_. opc_return infos))))))"

end
