(* ===== verification/OpcFrames.thy ===== *)
theory OpcFrames
  imports OpcReads OpcBrowse
begin

text \<open>
  What the requests of the OPC UA client leave alone. A frame is a reflexive and transitive relation
  between the states before and after that admits the bookkeeping of a request: an entry in the
  transcript, the counters and the cached limits. The locale shows once that the reading and browsing
  operations stay within every frame; its two uses are the transcript, which only grows, and the caches of
  the types, which only the resolution of types changes.
\<close>

definition within_frame :: "(opc_client \<Rightarrow> opc_client \<Rightarrow> bool) \<Rightarrow> 'a opc \<Rightarrow> bool" where
  "within_frame R m \<longleftrightarrow> (\<forall>c. R c (snd (m c)))"

definition run_within_frame :: "(opc_client \<Rightarrow> opc_client \<Rightarrow> bool) \<Rightarrow> 'a opc_run \<Rightarrow> bool" where
  "run_within_frame R m \<longleftrightarrow> (\<forall>c r c'. m c = Some (r, c') \<longrightarrow> R c c')"

fun is_value_read :: "opc_event \<Rightarrow> bool" where
  "is_value_read (EReadValues _ _) = True"
| "is_value_read _ = False"

lemma within_frameD: "within_frame R m \<Longrightarrow> m c = (r, c') \<Longrightarrow> R c c'"
  unfolding within_frame_def by (metis snd_conv)

lemma run_within_frameD: "run_within_frame R m \<Longrightarrow> m c = Some (r, c') \<Longrightarrow> R c c'"
  unfolding run_within_frame_def by blast

lemma read_batches_eq:
  "read_attribute_batches env attr nodes n =
      opc_bind (opc_map (\<lambda>batch. opc_try (read_attribute_batch env attr batch)
          (\<lambda>exc. if \<not> is_too_many_operations_error exc \<or> length batch \<le> 1 then opc_raise exc
             else read_attribute_batches env attr batch (max 1 (length batch div 2))) opc_return)
         (chunked nodes (max 1 n)))
       (\<lambda>vs. opc_return (concat vs))"
  by (rule ext, subst read_attribute_batches.simps) (auto intro!: opc_bind_cong opc_map_cong opc_try_cong)

lemma read_pairs_batch_eq:
  "read_attribute_pairs_batch env pairs = opc_bind (count_reads (length pairs))
       (\<lambda>_. opc_try (ask_read env pairs)
         (\<lambda>exc.
            if should_retry_after_disconnect exc
            then opc_bind (wait_for_reconnect env exc)
              (\<lambda>_. opc_bind (ask_read env pairs) (checked_read env (length pairs)))
            else if is_too_many_operations_error exc \<and> length pairs > 1
            then opc_bind (read_attribute_pairs_batch env (take (max 1 (length pairs div 2)) pairs))
              (\<lambda>left. opc_bind (read_attribute_pairs_batch env (drop (max 1 (length pairs div 2)) pairs))
              (\<lambda>right. opc_return (left @ right)))
            else opc_bind record_failed_request (\<lambda>_. opc_raise exc))
         (checked_read env (length pairs)))"
  by (rule ext, subst read_attribute_pairs_batch.simps) (auto intro!: opc_bind_cong opc_try_cong)

locale client_frame =
  fixes R :: "opc_client \<Rightarrow> opc_client \<Rightarrow> bool"
  assumes frame_refl: "R c c"
    and frame_trans: "R a b \<Longrightarrow> R b c \<Longrightarrow> R a c"
    and frame_event: "\<not> is_value_read e \<Longrightarrow> R c (c\<lparr>oc_events := oc_events c @ [e]\<rparr>)"
    and frame_runtime: "R c (c\<lparr>oc_runtime := r\<rparr>)"
    and frame_requests: "R c (c\<lparr>oc_requests := q\<rparr>)"
    and frame_limits: "R c (c\<lparr>oc_limits := l\<rparr>)"
begin

lemma frame_bind:
  assumes "within_frame R m" "\<And>x. within_frame R (f x)"
  shows "within_frame R (opc_bind m f)"
  using assms unfolding within_frame_def opc_bind_def
  by (auto split: prod.splits sum.splits) (metis snd_conv, metis frame_trans snd_conv)

lemma frame_try:
  assumes "within_frame R m" "\<And>exc. within_frame R (h exc)" "\<And>x. within_frame R (f x)"
  shows "within_frame R (opc_try m h f)"
  using assms unfolding within_frame_def opc_try_def
  by (auto split: prod.splits sum.splits) (metis frame_trans snd_conv, metis frame_trans snd_conv)

lemma frame_if: "(b \<Longrightarrow> within_frame R m) \<Longrightarrow> (\<not> b \<Longrightarrow> within_frame R m') \<Longrightarrow> within_frame R (if b then m else m')"
  by simp

lemma frame_ask: "(\<And>r. \<not> is_value_read (event r)) \<Longrightarrow> within_frame R (ask answer event)"
  by (simp add: within_frame_def ask_def Let_def frame_event)

lemma frame_transcribe: "\<not> is_value_read e \<Longrightarrow> within_frame R (transcribe e)"
  by (simp add: within_frame_def transcribe_def opc_modify_def frame_event)

lemma frame_basic:
  "within_frame R (opc_return x)" "within_frame R (opc_raise exc)" "within_frame R (get_node env i)"
  "within_frame R (count_request f)" "within_frame R (count_runtime g)" "within_frame R record_failed_request"
  "within_frame R record_read_success" "within_frame R (count_reads n)"
  by (simp_all add: within_frame_def opc_return_def opc_raise_def get_node_def count_request_def count_runtime_def
      record_failed_request_def record_read_success_def count_reads_def opc_modify_def frame_refl frame_requests frame_runtime)

lemma frame_wait: "within_frame R (wait_for_reconnect env exc)"
proof -
  have waited: "within_frame R (\<lambda>c1. case ua_wait_connected env (oc_events c1) of
          None \<Rightarrow> transcribe (EWait None) c1
        | Some state \<Rightarrow> opc_bind (transcribe (EWait (Some state))) (\<lambda>_. opc_raise (ConnectionError (message state))) c1)" for message
    unfolding within_frame_def
  proof
    fix c1 :: opc_client
    have "within_frame R (opc_bind (transcribe (EWait (Some state))) (\<lambda>_. opc_raise (ConnectionError (message state))) :: unit opc)" for state
      by (intro frame_bind frame_transcribe frame_basic) simp
    then show "R c1 (snd (case ua_wait_connected env (oc_events c1) of
          None \<Rightarrow> transcribe (EWait None) c1
        | Some state \<Rightarrow> opc_bind (transcribe (EWait (Some state))) (\<lambda>_. opc_raise (ConnectionError (message state))) c1))"
      using frame_transcribe [of "EWait None"] by (simp add: within_frame_def split: option.split)
  qed
  show ?thesis
    unfolding within_frame_def
  proof
    fix c :: opc_client
    have "within_frame R (opc_bind (if ua_connected env (oc_events c) \<and> session_lost exc then transcribe ENotifyLost else opc_return ())
       (\<lambda>_ c1. case ua_wait_connected env (oc_events c1) of
          None \<Rightarrow> transcribe (EWait None) c1
        | Some state \<Rightarrow>
            opc_bind (transcribe (EWait (Some state)))
              (\<lambda>_. opc_raise (ConnectionError (''OPC UA client did not reconnect within '' @ ua_timeout_text env
                 @ ''s (state='' @ state @ '')''))) c1))"
      by (intro frame_bind frame_if frame_transcribe frame_basic waited) simp
    then show "R c (snd (wait_for_reconnect env exc c))" by (simp add: within_frame_def wait_for_reconnect_def)
  qed
qed

lemma frame_records:
  "within_frame R (record_browse_results env results)" "within_frame R (record_read_data_values env vs)"
  unfolding record_browse_results_def record_read_data_values_def by (intro frame_if frame_basic)+

lemma frame_asks:
  "within_frame R (ask_read env pairs)" "within_frame R (ask_read_attributes env attr nodes)"
  "within_frame R (ask_browse env params)" "within_frame R (ask_browse_next env points)"
  "within_frame R (ask (\<lambda>es. ua_get_children env es n) (EGetChildren n))"
  unfolding ask_read_def ask_read_attributes_def ask_browse_def ask_browse_next_def by (rule frame_ask; simp)+

lemmas frame_intros = frame_bind frame_try frame_if frame_basic frame_wait frame_records frame_asks

lemma frame_map: "(\<And>x. x \<in> set xs \<Longrightarrow> within_frame R (f x)) \<Longrightarrow> within_frame R (opc_map f xs)"
proof (induction xs)
  case (Cons x xs)
  then have "within_frame R (opc_bind (f x) (\<lambda>y. opc_bind (opc_map f xs) (\<lambda>ys. opc_return (y # ys))))"
    by (intro frame_intros) auto
  then show ?case by (simp add: within_frame_def)
qed (simp add: within_frame_def frame_refl)

lemma frame_get_nodes: "within_frame R (get_nodes env node_ids)"
  unfolding get_nodes_def by (intro frame_map frame_basic)

lemma frame_read_attribute_batch: "within_frame R (read_attribute_batch env attr nodes)"
  unfolding read_attribute_batch_def by (intro frame_intros)

lemma frame_read_attribute_batches: "within_frame R (read_attribute_batches env attr nodes n)"
proof (induction "min (length nodes) (max 1 n)" arbitrary: nodes n rule: less_induct)
  case less
  have smaller: "within_frame R (read_attribute_batches env attr batch (max 1 (length batch div 2)))"
    if h: "batch \<in> set (chunked nodes (max 1 n))" "\<not> length batch \<le> 1" for batch
  proof (rule less)
    have "length batch \<le> max 1 n" "length batch \<le> length nodes" using chunked_portion [OF h(1)] by auto
    moreover have "max 1 (length batch div 2) < length batch" using h by auto
    ultimately show "min (length batch) (max 1 (max 1 (length batch div 2))) < min (length nodes) (max 1 n)" by auto
  qed
  show ?case
    unfolding read_batches_eq [of env attr nodes n]
    by (intro frame_bind frame_map frame_try frame_read_attribute_batch frame_basic frame_if; (rule smaller; blast)?)
qed

lemma frame_read_attribute_pairs: "within_frame R (read_attribute_pairs_sized env pairs n)"
proof -
  have checked: "within_frame R (checked_read env k vs)" for k vs
    unfolding checked_read_def by (intro frame_intros)
  have "within_frame R (read_attribute_pairs_batch env pairs)" for pairs
  proof (induction "length pairs" arbitrary: pairs rule: less_induct)
    case less
    show ?case
      unfolding read_pairs_batch_eq [of env pairs]
      by (intro frame_bind frame_try frame_basic frame_asks frame_wait frame_if checked; (rule less; auto)?)
  qed
  then show ?thesis unfolding read_attribute_pairs_sized_def by (auto intro!: frame_bind frame_basic frame_map)
qed

lemma frame_read_limits: "within_frame R (read_limits env)"
  unfolding read_limits_def Let_def
  by (intro frame_intros frame_read_attribute_batches frame_read_attribute_pairs)

lemma frame_get_operational_limits: "within_frame R (get_operational_limits env)"
proof -
  have "within_frame R (opc_modify (\<lambda>c. c\<lparr>oc_limits := Some limits\<rparr>))" for limits
    by (simp add: within_frame_def opc_modify_def frame_limits)
  then have "within_frame R (load_operational_limits env)"
    unfolding load_operational_limits_def by (intro frame_intros frame_read_limits)
  then show ?thesis
    by (simp add: within_frame_def get_operational_limits_def frame_refl split: option.split)
qed

text \<open>Operations that may not return: the frame holds when they do.\<close>

lemma frame_run: "within_frame R m \<Longrightarrow> run_within_frame R (run m)"
  by (auto simp: run_within_frame_def run_def within_frameD)

lemma frame_run_bind:
  assumes "run_within_frame R m" "\<And>x. run_within_frame R (f x)"
  shows "run_within_frame R (run_bind m f)"
  unfolding run_within_frame_def
proof (intro allI impI)
  fix c r c'
  assume run: "run_bind m f c = Some (r, c')"
  then obtain r1 c1 where m: "m c = Some (r1, c1)" by (auto simp: run_bind_def split: option.splits)
  show "R c c'"
  proof (cases r1)
    case (Inl exc)
    then show ?thesis using run run_within_frameD [OF assms(1) m] m by (simp add: run_bind_def)
  next
    case (Inr x)
    then have "f x c1 = Some (r, c')" using run m by (simp add: run_bind_def)
    then show ?thesis using frame_trans [OF run_within_frameD [OF assms(1) m] run_within_frameD [OF assms(2)]] by blast
  qed
qed

lemma frame_run_map: "(\<And>x. run_within_frame R (f x)) \<Longrightarrow> run_within_frame R (run_map f xs)"
proof (induction xs)
  case (Cons x xs)
  then have "run_within_frame R (run_bind (f x) (\<lambda>y. run_bind (run_map f xs) (\<lambda>ys. run (opc_return (y # ys)))))"
    by (intro frame_run_bind frame_run frame_basic) auto
  then show ?case by (simp add: run_within_frame_def)
qed (simp add: run_within_frame_def frame_refl)

lemma frame_browse_requests:
  "within_frame R (browse_with_retry env params)" "within_frame R (browse_next_with_retry env points)"
  unfolding browse_with_retry_def browse_next_with_retry_def recorded_def by (intro frame_intros)+

lemma frame_continue_browse: "run_within_frame R (continue_browse env entries refs)"
proof -
  have "R c (snd y)" if "continue_browse env entries refs c = Some y" for c y
  proof (rule continue_browse.raw_induct [where P = "\<lambda>env entries refs c y. R c (snd y)", OF _ that], goal_cases)
    case (1 loop env entries refs c y)
    let ?ask = "opc_bind (browse_next_with_retry env (map snd entries)) (\<lambda>results. opc_bind count_browse_next (\<lambda>_. opc_return results))"
    have asked: "within_frame R ?ask"
      unfolding count_browse_next_def by (intro frame_bind frame_browse_requests frame_basic)
    have counted: "R c (snd (count_next_references results c))" for results c
      using frame_basic(5) unfolding count_next_references_def within_frame_def by blast
    obtain r c1 where ask: "?ask c = (r, c1)" by fastforce
    have c1: "R c c1" by (rule within_frameD [OF asked ask])
    show ?case
    proof (cases "\<exists>results. r = Inr results \<and> entries \<noteq> [] \<and> length results = length entries")
      case True
      then obtain results where r: "r = Inr results" "entries \<noteq> []" "length results = length entries" by blast
      let ?c2 = "snd (count_next_references results c1)"
      have "loop env (next_entries entries results) (extend_references entries results refs) ?c2 = Some y"
        using 1(2) ask r by simp
      then have "R ?c2 (snd y)" by (rule 1(1))
      then show ?thesis using frame_trans [OF c1 frame_trans [OF counted]] by blast
    next
      case False
      then show ?thesis using 1(2) ask c1 by (cases r) (auto simp: frame_refl split: if_splits)
    qed
  qed
  then show ?thesis unfolding run_within_frame_def by fastforce
qed

lemma frame_browse_references: "run_within_frame R (browse_references_descriptions env nodes limit t d s)"
proof -
  have "run_within_frame R (browse_batch env t d s batch)" for batch
    unfolding browse_batch_def count_browse_def count_initial_references_def
    by (intro frame_run_bind frame_run frame_intros frame_browse_requests frame_continue_browse)
  then have "run_within_frame R (run_bind (run_map (browse_batch env t d s) batches) (\<lambda>results. run (opc_return (concat results))))" for batches
    by (intro frame_run_bind frame_run_map frame_run frame_basic)
  then show ?thesis
    unfolding browse_references_descriptions_def by (cases "nodes = []") (simp_all add: frame_run frame_basic)
qed

end

section \<open>The two frames\<close>

text \<open>The transcript only grows, and by none of the reads of values.\<close>

definition quiet_growth :: "opc_client \<Rightarrow> opc_client \<Rightarrow> bool" where
  "quiet_growth c c' \<longleftrightarrow> (\<exists>added. oc_events c' = oc_events c @ added \<and> filter is_value_read added = [])"

interpretation quiet: client_frame quiet_growth
proof unfold_locales
  fix a b c :: opc_client and e
  show "quiet_growth a b \<Longrightarrow> quiet_growth b c \<Longrightarrow> quiet_growth a c"
    unfolding quiet_growth_def by (metis append.assoc append_Nil2 filter_append)
qed (auto simp: quiet_growth_def)

text \<open>The caches of type hierarchies and reference types stay as they are.\<close>

definition same_type_caches :: "opc_client \<Rightarrow> opc_client \<Rightarrow> bool" where
  "same_type_caches c c' \<longleftrightarrow>
     oc_type_hierarchies c' = oc_type_hierarchies c \<and> oc_reference_types c' = oc_reference_types c"

interpretation caches: client_frame same_type_caches
  by unfold_locales (auto simp: same_type_caches_def)

end
