(* ===== verification/OpcReadProps.thy ===== *)
theory OpcReadProps
  imports OpcFrames
begin

text \<open>
  Properties of reading and writing through the OPC UA client: batches that fail are narrowed down to
  the nodes that fail, request limits do not show in the results, paged history is complete, and a
  write is never repeated.
\<close>

section \<open>What an operation adds to the transcript\<close>

definition opc_post :: "(opc_event list \<Rightarrow> opc_exception + 'a \<Rightarrow> bool) \<Rightarrow> 'a opc \<Rightarrow> bool" where
  "opc_post Q m \<longleftrightarrow> (\<forall>c. \<exists>added. oc_events (snd (m c)) = oc_events c @ added \<and> Q added (fst (m c)))"

named_theorems post_intros \<open>rules for the parts of an operation\<close>

lemma opc_postD:
  assumes "opc_post Q m"
  obtains added where "oc_events (snd (m c)) = oc_events c @ added" "Q added (fst (m c))"
  using assms unfolding opc_post_def by blast

lemma post_conseq: "opc_post Q m \<Longrightarrow> (\<And>added r. Q added r \<Longrightarrow> R added r) \<Longrightarrow> opc_post R m"
  unfolding opc_post_def by blast

lemma post_return: "Q [] (Inr x) \<Longrightarrow> opc_post Q (opc_return x)"
  by (simp add: opc_post_def opc_return_def)

lemma post_raise: "Q [] (Inl exc) \<Longrightarrow> opc_post Q (opc_raise exc)"
  by (simp add: opc_post_def opc_raise_def)

lemma post_bind:
  assumes m: "opc_post Q m" and f: "\<And>x. opc_post (R x) (f x)"
    and failed: "\<And>added exc. Q added (Inl exc) \<Longrightarrow> S added (Inl exc)"
    and continued: "\<And>a x b r. Q a (Inr x) \<Longrightarrow> R x b r \<Longrightarrow> S (a @ b) r"
  shows "opc_post S (opc_bind m f)"
  unfolding opc_post_def
proof
  fix c
  obtain r c1 where mc: "m c = (r, c1)" by fastforce
  obtain a where a: "oc_events c1 = oc_events c @ a" "Q a r"
    using opc_postD [OF m, of c] unfolding mc fst_conv snd_conv by blast
  show "\<exists>added. oc_events (snd (opc_bind m f c)) = oc_events c @ added \<and> S added (fst (opc_bind m f c))"
  proof (cases r)
    case (Inl exc)
    then show ?thesis using a failed by (simp add: opc_bind_def mc)
  next
    case (Inr x)
    obtain b where "oc_events (snd (f x c1)) = oc_events c1 @ b" "R x b (fst (f x c1))"
      using opc_postD [OF f, of x c1] by blast
    then show ?thesis using a continued [of a x b] Inr by (simp add: opc_bind_def mc)
  qed
qed

lemma post_try:
  assumes m: "opc_post Q m" and h: "\<And>exc. opc_post (H exc) (h exc)" and f: "\<And>x. opc_post (R x) (f x)"
    and handled: "\<And>a exc b r. Q a (Inl exc) \<Longrightarrow> H exc b r \<Longrightarrow> S (a @ b) r"
    and continued: "\<And>a x b r. Q a (Inr x) \<Longrightarrow> R x b r \<Longrightarrow> S (a @ b) r"
  shows "opc_post S (opc_try m h f)"
  unfolding opc_post_def
proof
  fix c
  obtain r c1 where mc: "m c = (r, c1)" by fastforce
  obtain a where a: "oc_events c1 = oc_events c @ a" "Q a r"
    using opc_postD [OF m, of c] unfolding mc fst_conv snd_conv by blast
  show "\<exists>added. oc_events (snd (opc_try m h f c)) = oc_events c @ added \<and> S added (fst (opc_try m h f c))"
  proof (cases r)
    case (Inl exc)
    obtain b where "oc_events (snd (h exc c1)) = oc_events c1 @ b" "H exc b (fst (h exc c1))"
      using opc_postD [OF h, of exc c1] by blast
    then show ?thesis using a handled [of a exc b] Inl by (simp add: opc_try_def mc)
  next
    case (Inr x)
    obtain b where "oc_events (snd (f x c1)) = oc_events c1 @ b" "R x b (fst (f x c1))"
      using opc_postD [OF f, of x c1] by blast
    then show ?thesis using a continued [of a x b] Inr by (simp add: opc_try_def mc)
  qed
qed

lemma post_returned: "opc_post (\<lambda>added r. added = [] \<and> r = Inr x) (opc_return x)"
  by (simp add: post_return)

lemma post_raised: "opc_post (\<lambda>added r. added = [] \<and> r = Inl exc) (opc_raise exc)"
  by (simp add: post_raise)

lemma post_ask: "(\<And>es. Q [event (answer es)] (answer es)) \<Longrightarrow> opc_post Q (ask answer event)"
  by (simp add: opc_post_def ask_def Let_def)

text \<open>Operations that only count, parse or wait.\<close>

definition silent :: "opc_event list \<Rightarrow> opc_exception + 'a \<Rightarrow> bool" where
  "silent added r \<longleftrightarrow> added = [] \<and> (\<exists>x. r = Inr x)"

lemma post_modify:
  "(\<And>c. oc_events (f c) = oc_events c) \<Longrightarrow> opc_post silent (opc_modify f)"
  by (simp add: opc_post_def silent_def opc_modify_def)

lemma post_counters [post_intros]:
  "opc_post silent (count_request q)" "opc_post silent (count_runtime g)" "opc_post silent record_read_success"
  "opc_post silent record_history_read_success" "opc_post silent record_method_success"
  "opc_post silent record_failed_request" "opc_post silent (count_reads n)"
  by (auto simp: count_request_def count_runtime_def record_read_success_def record_history_read_success_def
    record_method_success_def record_failed_request_def count_reads_def intro!: post_modify)

lemma post_records [post_intros]:
  "opc_post silent (record_read_data_values env vs)" "opc_post silent (record_browse_results env bs)"
  by (simp_all add: record_read_data_values_def record_browse_results_def post_intros)

lemma post_silent_then:
  assumes "opc_post silent m" and "\<And>x. opc_post S (f x)"
  shows "opc_post S (opc_bind m f)"
  by (rule post_bind [OF assms]) (auto simp: silent_def)

text \<open>An operation that ends with a counter keeps its result.\<close>

lemma post_count_return:
  "opc_post silent m \<Longrightarrow> Q [] (Inr x) \<Longrightarrow> opc_post Q (opc_bind m (\<lambda>_. opc_return x))"
  by (rule post_silent_then) (simp_all add: post_return)

lemma post_count_raise:
  "opc_post silent m \<Longrightarrow> Q [] (Inl exc) \<Longrightarrow> opc_post Q (opc_bind m (\<lambda>_. opc_raise exc))"
  by (rule post_silent_then) (simp_all add: post_raise)

definition unparsable :: "opc_env \<Rightarrow> string list \<Rightarrow> opc_exception \<Rightarrow> bool" where
  "unparsable env node_ids exc \<longleftrightarrow> (\<exists>i \<in> set node_ids. ua_parse_node env i = Inl exc)"

definition reconnect_gave_up :: "opc_event list \<Rightarrow> opc_exception \<Rightarrow> bool" where
  "reconnect_gave_up added exc \<longleftrightarrow> (\<exists>state text. EWait (Some state) \<in> set added \<and> exc = ConnectionError text)"

lemma post_wait: "opc_post (\<lambda>added r. case r of Inl exc \<Rightarrow> reconnect_gave_up added exc | Inr _ \<Rightarrow> True)
    (wait_for_reconnect env exc)"
  by (auto simp: opc_post_def wait_for_reconnect_def opc_bind_def opc_return_def transcribe_def opc_modify_def
      opc_raise_def reconnect_gave_up_def split: option.splits)

lemma post_get_node:
  "opc_post (\<lambda>added r. added = [] \<and> r = ua_parse_node env node_id) (get_node env node_id)"
  by (simp add: opc_post_def get_node_def)

text \<open>A loop: every result comes from a part of the transcript that the body added for it.\<close>

definition within_transcript :: "(opc_event list \<Rightarrow> opc_exception + 'a \<Rightarrow> bool) \<Rightarrow> opc_event list \<Rightarrow> opc_exception + 'a \<Rightarrow> bool" where
  "within_transcript Q added r \<longleftrightarrow> (\<exists>before mid after. added = before @ mid @ after \<and> Q mid r)"

lemma within_transcriptI: "Q added r \<Longrightarrow> within_transcript Q added r"
  unfolding within_transcript_def by (rule exI [of _ "[]"], rule exI [of _ added], rule exI [of _ "[]"]) simp

lemma within_transcript_extend:
  "within_transcript Q added r \<Longrightarrow> within_transcript Q (a @ added @ b) r"
  unfolding within_transcript_def by (metis append.assoc)

lemma post_map:
  assumes f: "\<And>x. x \<in> set xs \<Longrightarrow> opc_post (Q x) (f x)"
  shows "opc_post (\<lambda>added r. case r of
      Inr ys \<Rightarrow> list_all2 (\<lambda>x y. within_transcript (Q x) added (Inr y)) xs ys
    | Inl exc \<Rightarrow> (\<exists>x \<in> set xs. within_transcript (Q x) added (Inl exc))) (opc_map f xs)"
  using f
proof (induction xs)
  case Nil
  show ?case by (simp add: opc_post_def)
next
  case (Cons x xs)
  have step: "opc_map f (x # xs) = opc_bind (f x) (\<lambda>y. opc_bind (opc_map f xs) (\<lambda>ys. opc_return (y # ys)))"
    by (rule ext) simp
  have rest: "opc_post (\<lambda>added r. case r of
        Inr zs \<Rightarrow> \<exists>ys. zs = y # ys \<and> list_all2 (\<lambda>x y. within_transcript (Q x) added (Inr y)) xs ys
      | Inl exc \<Rightarrow> (\<exists>x \<in> set xs. within_transcript (Q x) added (Inl exc)))
     (opc_bind (opc_map f xs) (\<lambda>ys. opc_return (y # ys)))" for y
    by (rule post_bind [OF Cons.IH [OF Cons.prems] post_returned]) auto
  show ?case
    unfolding step
  proof (rule post_bind [OF Cons.prems [OF list.set_intros(1)] rest], goal_cases)
    case (2 a y b r)
    have *: "within_transcript (Q z) b r' \<Longrightarrow> within_transcript (Q z) (a @ b) r'" for z r'
      using within_transcript_extend [of "Q z" b r' a "[]"] by simp
    have "within_transcript (Q x) (a @ b) (Inr y)"
      using within_transcript_extend [OF within_transcriptI, of "Q x" a "Inr y" "[]" b] 2(1) by simp
    then show ?case using 2(2) * by (auto split: sum.splits elim!: list_all2_mono)
  qed (auto intro: within_transcriptI)
qed

lemma post_get_nodes:
  "opc_post (\<lambda>added r. added = [] \<and> (case r of
      Inr nodes \<Rightarrow> list_all2 (\<lambda>i n. ua_parse_node env i = Inr n) node_ids nodes
    | Inl exc \<Rightarrow> unparsable env node_ids exc)) (get_nodes env node_ids)"
proof (induction node_ids)
  case Nil
  show ?case by (simp add: get_nodes_def opc_post_def)
next
  case (Cons i node_ids)
  have step: "get_nodes env (i # node_ids) = opc_bind (get_node env i)
      (\<lambda>y. opc_bind (get_nodes env node_ids) (\<lambda>ys. opc_return (y # ys)))"
    unfolding get_nodes_def by (rule ext) simp
  have rest: "opc_post (\<lambda>added r. added = [] \<and> (case r of
        Inr zs \<Rightarrow> \<exists>nodes. zs = y # nodes \<and> list_all2 (\<lambda>i n. ua_parse_node env i = Inr n) node_ids nodes
      | Inl exc \<Rightarrow> unparsable env node_ids exc))
    (opc_bind (get_nodes env node_ids) (\<lambda>ys. opc_return (y # ys)))" for y
    by (rule post_bind [OF Cons.IH post_returned]) auto
  show ?case
    unfolding step
    by (rule post_bind [OF post_get_node rest]) (auto simp: unparsable_def split: sum.splits)
qed

section \<open>Reading the limits\<close>

text \<open>
  Whatever the server answers, the limits are read without an exception; and none of the requests
  for them is a read of values.
\<close>

definition value_reads :: "opc_event list \<Rightarrow> nat" where
  "value_reads added = length (filter is_value_read added)"

lemma value_reads_simps [simp]:
  "value_reads [] = 0" "value_reads (a @ b) = value_reads a + value_reads b"
  "value_reads (e # a) = (if is_value_read e then 1 else 0) + value_reads a"
  by (simp_all add: value_reads_def)

lemma post_quiet: "within_frame quiet_growth m \<Longrightarrow> opc_post (\<lambda>added _. value_reads added = 0) m"
  by (simp add: within_frame_def quiet_growth_def opc_post_def value_reads_def)

lemma post_limits:
  "opc_post (\<lambda>added r. (\<exists>limits. r = Inr limits) \<and> value_reads added = 0) (get_operational_limits env)"
proof -
  let ?read = "\<lambda>added r. (\<exists>limits :: OpcUaOperationalLimits. r = Inr limits) \<and> value_reads added = 0"
  have 1: "opc_post ?read (opc_bind (opc_modify (\<lambda>c. c\<lparr>oc_limits := Some limits\<rparr>)) (\<lambda>_. opc_return limits))" for limits
    by (rule post_count_return [OF post_modify]) simp_all
  have 2: "opc_post ?read (opc_try (read_limits env) (\<lambda>_. opc_return none) opc_return)" for none
    by (rule post_try [OF post_quiet [OF quiet.frame_read_limits] post_returned post_returned]) auto
  have "opc_post ?read (load_operational_limits env)"
    unfolding load_operational_limits_def by (rule post_bind [OF 2 1]) auto
  then show ?thesis
    unfolding opc_post_def get_operational_limits_def by (auto split: option.splits)
qed

section \<open>Batches of values\<close>

text \<open>A successful read gave the node this value; a read of this node alone failed.\<close>

definition value_answered :: "opc_event list \<Rightarrow> string \<Rightarrow> pyval \<Rightarrow> bool" where
  "value_answered added node v \<longleftrightarrow>
     (\<exists>nodes vs i. EReadValues nodes (Inr vs) \<in> set added \<and> i < length nodes \<and> i < length vs \<and> nodes ! i = node \<and> vs ! i = v)"

definition value_refused :: "opc_event list \<Rightarrow> string \<Rightarrow> bool" where
  "value_refused added node \<longleftrightarrow> (\<exists>exc. EReadValues [node] (Inl exc) \<in> set added)"

definition value_accounted :: "opc_env \<Rightarrow> opc_event list \<Rightarrow> string \<Rightarrow> pyval \<Rightarrow> bool" where
  "value_accounted env added i v \<longleftrightarrow>
     (\<exists>node. ua_parse_node env i = Inr node \<and> (value_answered added node v \<or> v = PNone \<and> value_refused added node))"

definition values_accounted :: "opc_env \<Rightarrow> string list \<Rightarrow> opc_event list \<Rightarrow> opc_exception + pyval list \<Rightarrow> bool" where
  "values_accounted env node_ids added r \<longleftrightarrow>
     (case r of
        Inr vs \<Rightarrow> list_all2 (value_accounted env added) node_ids vs
      | Inl exc \<Rightarrow> unparsable env node_ids exc \<or> reconnect_gave_up added exc)"

lemma value_accounted_mono: "value_accounted env a i v \<Longrightarrow> set a \<subseteq> set b \<Longrightarrow> value_accounted env b i v"
  unfolding value_accounted_def value_answered_def value_refused_def by blast

lemma reconnect_gave_up_mono: "reconnect_gave_up a exc \<Longrightarrow> set a \<subseteq> set b \<Longrightarrow> reconnect_gave_up b exc"
  unfolding reconnect_gave_up_def by blast

lemma values_accounted_parts:
  assumes "values_accounted env xs a (Inr vs)" "values_accounted env ys b (Inr ws)"
  shows "values_accounted env (xs @ ys) (a @ b) (Inr (vs @ ws))"
proof -
  have "list_all2 (value_accounted env (a @ b)) xs vs" "list_all2 (value_accounted env (a @ b)) ys ws"
    using assms unfolding values_accounted_def sum.case
    by (auto elim!: list_all2_mono intro: value_accounted_mono)
  then show ?thesis unfolding values_accounted_def sum.case by (rule list_all2_appendI)
qed

lemma values_accounted_failed:
  "values_accounted env xs a (Inl exc) \<Longrightarrow> set xs \<subseteq> set ys \<Longrightarrow> set a \<subseteq> set b \<Longrightarrow> values_accounted env ys b (Inl exc)"
  unfolding values_accounted_def unparsable_def by (auto intro: reconnect_gave_up_mono)

definition reads_aligned :: "opc_env \<Rightarrow> bool" where
  "reads_aligned env \<longleftrightarrow> (\<forall>es nodes vs. ua_read_values env es nodes = Inr vs \<longrightarrow> length vs = length nodes)"

lemma answered_accounted:
  assumes "list_all2 (\<lambda>i n. ua_parse_node env i = Inr n) node_ids nodes" "length vs = length nodes"
    "EReadValues nodes (Inr vs) \<in> set added"
  shows "values_accounted env node_ids added (Inr vs)"
  unfolding values_accounted_def sum.case list_all2_conv_all_nth
proof (intro conjI allI impI)
  show "length node_ids = length vs" using assms by (simp add: list_all2_lengthD)
  fix k
  assume k: "k < length node_ids"
  then have "ua_parse_node env (node_ids ! k) = Inr (nodes ! k)" "k < length nodes"
    using assms(1) by (auto simp: list_all2_conv_all_nth)
  then show "value_accounted env added (node_ids ! k) (vs ! k)"
    using assms(2,3) unfolding value_accounted_def value_answered_def by metis
qed

text \<open>One attempt: answered, or a read of exactly these nodes failed.\<close>

definition attempt_accounted :: "opc_env \<Rightarrow> string list \<Rightarrow> opc_event list \<Rightarrow> opc_exception + pyval list option \<Rightarrow> bool" where
  "attempt_accounted env node_ids added r \<longleftrightarrow>
     (case r of
        Inr (Some vs) \<Rightarrow> values_accounted env node_ids added (Inr vs)
      | Inr None \<Rightarrow> \<exists>nodes exc. list_all2 (\<lambda>i n. ua_parse_node env i = Inr n) node_ids nodes \<and> EReadValues nodes (Inl exc) \<in> set added
      | Inl exc \<Rightarrow> unparsable env node_ids exc \<or> reconnect_gave_up added exc)"

definition asked_for :: "string list \<Rightarrow> opc_event list \<Rightarrow> opc_exception + pyval list option \<Rightarrow> bool" where
  "asked_for nodes added r \<longleftrightarrow>
     (\<exists>vs. r = Inr (Some vs) \<and> length vs = length nodes \<and> EReadValues nodes (Inr vs) \<in> set added)
     \<or> (\<exists>exc. r = Inr None \<and> EReadValues nodes (Inl exc) \<in> set added)"

lemma asked_accounted:
  assumes "list_all2 (\<lambda>i n. ua_parse_node env i = Inr n) node_ids nodes" "asked_for nodes added r"
  shows "attempt_accounted env node_ids added r"
proof -
  consider vs where "r = Inr (Some vs)" "length vs = length nodes" "EReadValues nodes (Inr vs) \<in> set added"
    | exc where "r = Inr None" "EReadValues nodes (Inl exc) \<in> set added"
    using assms(2) unfolding asked_for_def by blast
  then show ?thesis
    by cases (use assms(1) answered_accounted [OF assms(1)] in \<open>auto simp: attempt_accounted_def\<close>)
qed

lemma values_accounted_mono:
  "values_accounted env xs a r \<Longrightarrow> set a \<subseteq> set b \<Longrightarrow> values_accounted env xs b r"
  by (cases r) (auto simp: values_accounted_def intro: list_all2_mono value_accounted_mono reconnect_gave_up_mono)

lemma attempt_accounted_mono:
  assumes "attempt_accounted env node_ids a r" "set a \<subseteq> set b"
  shows "attempt_accounted env node_ids b r"
proof (cases r)
  case (Inr answer)
  then show ?thesis
    using assms by (cases answer) (auto simp: attempt_accounted_def intro: values_accounted_mono)
qed (use assms in \<open>auto simp: attempt_accounted_def intro: reconnect_gave_up_mono\<close>)

lemma post_ask_read_values:
  assumes "reads_aligned env"
  shows "opc_post (\<lambda>added r. added = [EReadValues nodes r] \<and> (\<forall>vs. r = Inr vs \<longrightarrow> length vs = length nodes))
    (ask_read_values env nodes)"
  unfolding ask_read_values_def by (rule post_ask) (use assms in \<open>auto simp: reads_aligned_def\<close>)

lemma post_values_read: "opc_post (\<lambda>added r. added = [] \<and> r = Inr (Some vs)) (values_read vs)"
  unfolding values_read_def by (rule post_count_return) (simp_all add: post_intros)

lemma post_read_values_attempt:
  assumes aligned: "reads_aligned env"
  shows "opc_post (attempt_accounted env node_ids) (read_values_attempt env node_ids)"
proof -
  let ?again = "\<lambda>nodes. opc_try (ask_read_values env nodes) (\<lambda>_. opc_return None) values_read"
  let ?done = "attempt_accounted env node_ids"
  have once: "opc_post (asked_for nodes) (?again nodes)" for nodes
    by (rule post_try [OF post_ask_read_values [OF aligned] post_returned post_values_read]) (auto simp: asked_for_def)
  have fetched: "opc_post ?done (opc_bind (get_nodes env node_ids) ?again)"
    by (rule post_bind [OF post_get_nodes once]) (auto simp: attempt_accounted_def [of _ _ _ "Inl _"] intro: asked_accounted)
  have "opc_post ?done (opc_bind (wait_for_reconnect env exc) (\<lambda>_. opc_bind (get_nodes env node_ids) ?again))" for exc
    by (rule post_bind [OF post_wait fetched])
      (auto simp: attempt_accounted_def [of _ _ _ "Inl _"] intro: attempt_accounted_mono)
  then have retried: "opc_post (\<lambda>added r. ?done added r \<or> r = Inr None) (read_values_retry env node_ids exc)" for exc
    unfolding read_values_retry_def by (auto intro: post_conseq post_return)
  have tried: "opc_post (\<lambda>added r. asked_for nodes added r \<or> (\<exists>a b. added = a @ b \<and> ?done b r))
      (opc_try (ask_read_values env nodes) (read_values_retry env node_ids) values_read)" for nodes
    by (rule post_try [OF post_ask_read_values [OF aligned] retried post_values_read]) (auto simp: asked_for_def)
  have "opc_post ?done (opc_bind (get_nodes env node_ids)
      (\<lambda>nodes. opc_try (ask_read_values env nodes) (read_values_retry env node_ids) values_read))"
    by (rule post_bind [OF post_get_nodes tried])
      (auto simp: attempt_accounted_def [of _ _ _ "Inl _"] intro: asked_accounted attempt_accounted_mono)
  then show ?thesis unfolding read_values_attempt_def by (rule post_silent_then [OF post_counters(7)])
qed

lemma batch_with_fallback_eq:
  "node_ids \<noteq> [] \<Longrightarrow> read_values_batch_with_fallback env node_ids =
     opc_bind (read_values_attempt env node_ids)
       (\<lambda>outcome. case outcome of
          Some vs \<Rightarrow> opc_return vs
        | None \<Rightarrow>
            if length node_ids \<le> 1 then opc_bind record_failed_request (\<lambda>_. opc_return [PNone])
            else opc_bind (read_values_batch_with_fallback env (take (max 1 (length node_ids div 2)) node_ids))
              (\<lambda>left. opc_bind (read_values_batch_with_fallback env (drop (max 1 (length node_ids div 2)) node_ids))
              (\<lambda>right. opc_return (left @ right))))"
  by (rule ext, subst read_values_batch_with_fallback.simps)
    (auto simp: opc_bind_def opc_return_def split: prod.splits sum.splits option.splits)

lemma post_append:
  assumes "opc_post (values_accounted env xs) l" "opc_post (values_accounted env ys) r"
  shows "opc_post (values_accounted env (xs @ ys)) (opc_bind l (\<lambda>left. opc_bind r (\<lambda>right. opc_return (left @ right))))"
proof -
  have "opc_post (\<lambda>added res. case res of
        Inr vs \<Rightarrow> \<exists>ws. vs = left @ ws \<and> values_accounted env ys added (Inr ws)
      | Inl exc \<Rightarrow> values_accounted env ys added (Inl exc)) (opc_bind r (\<lambda>right. opc_return (left @ right)))" for left
    by (rule post_bind [OF assms(2) post_returned]) auto
  then show ?thesis
    by (rule post_bind [OF assms(1)])
      (auto intro: values_accounted_parts values_accounted_failed split: sum.splits)
qed

lemma post_batch_with_fallback:
  assumes aligned: "reads_aligned env"
  shows "opc_post (values_accounted env node_ids) (read_values_batch_with_fallback env node_ids)"
proof (induction "length node_ids" arbitrary: node_ids rule: less_induct)
  case less
  let ?k = "max 1 (length node_ids div 2)"
  show ?case
  proof (cases "node_ids = []")
    case True
    then show ?thesis
      by (simp add: opc_post_def read_values_batch_with_fallback.simps values_accounted_def)
  next
    case False
    have halves: "opc_post (values_accounted env node_ids)
        (opc_bind (read_values_batch_with_fallback env (take ?k node_ids))
          (\<lambda>left. opc_bind (read_values_batch_with_fallback env (drop ?k node_ids))
          (\<lambda>right. opc_return (left @ right))))" if "1 < length node_ids"
      using post_append [OF less less, of "take ?k node_ids" "drop ?k node_ids"] that by simp
    have single: "opc_post (\<lambda>added r. added = [] \<and> r = Inr [PNone])
        (opc_bind record_failed_request (\<lambda>_. opc_return [PNone]))"
      by (rule post_count_return) (simp_all add: post_intros)
    have fallback: "opc_post (\<lambda>added r. case outcome of
          Some vs \<Rightarrow> added = [] \<and> r = Inr vs
        | None \<Rightarrow> if length node_ids \<le> 1 then added = [] \<and> r = Inr [PNone] else values_accounted env node_ids added r)
      (case outcome of
          Some vs \<Rightarrow> opc_return vs
        | None \<Rightarrow>
            if length node_ids \<le> 1 then opc_bind record_failed_request (\<lambda>_. opc_return [PNone])
            else opc_bind (read_values_batch_with_fallback env (take ?k node_ids))
              (\<lambda>left. opc_bind (read_values_batch_with_fallback env (drop ?k node_ids))
              (\<lambda>right. opc_return (left @ right))))" for outcome
      using single halves by (cases outcome) (auto intro: post_returned)
    have null: "values_accounted env node_ids added (Inr [PNone])"
      if h: "attempt_accounted env node_ids added (Inr None)" "length node_ids \<le> 1" for added
    proof -
      obtain i where i: "node_ids = [i]" using False h(2) by (cases node_ids) auto
      then show ?thesis
        using h(1) unfolding attempt_accounted_def values_accounted_def value_accounted_def value_refused_def
        by (auto simp: list_all2_Cons1)
    qed
    show ?thesis
      unfolding batch_with_fallback_eq [OF False]
    proof (rule post_bind [OF post_read_values_attempt [OF aligned] fallback], goal_cases)
      case (1 added exc)
      then show ?case by (simp add: attempt_accounted_def values_accounted_def)
    next
      case (2 a outcome b r)
      then show ?case
        using null [of a]
        by (auto simp: attempt_accounted_def [of _ _ _ "Inr (Some _)"] split: option.splits if_splits
            intro: values_accounted_mono)
    qed
  qed
qed

lemma values_accounted_concat:
  assumes "list_all2 (\<lambda>xs vs. within_transcript (values_accounted env xs) added (Inr vs)) xss vss"
  shows "values_accounted env (concat xss) added (Inr (concat vss))"
  using assms
proof (induction xss vss rule: list_all2_induct)
  case Nil
  show ?case by (simp add: values_accounted_def)
next
  case (Cons xs xss vs vss)
  have "values_accounted env xs added (Inr vs)"
    using Cons(1) unfolding within_transcript_def by (auto intro: values_accounted_mono)
  then show ?case using values_accounted_parts [of env xs added vs "concat xss" added "concat vss"] Cons(3)
    by (auto intro: values_accounted_mono)
qed

text \<open>
  A batched read answers for every node. Assuming asyncua returns one value per node when it
  returns at all, every value in the result was returned for that node, and \<open>None\<close> stands in for a
  node only after a read of that node alone failed; the call raises only for a NodeId that cannot be
  parsed or when the reconnect did not come.
\<close>

theorem read_values_answers_for_every_node:
  assumes "reads_aligned env" and "read_values env node_ids c = (r, c')"
  shows "\<exists>added. oc_events c' = oc_events c @ added \<and> values_accounted env node_ids added r"
proof (cases "node_ids = []")
  case True
  then show ?thesis using assms(2) by (auto simp: read_values_def opc_return_def values_accounted_def)
next
  case False
  have part: "b \<in> set (chunked node_ids n) \<Longrightarrow> set b \<subseteq> set node_ids" if "0 < n" for b n
    using concat_chunked [OF that, of node_ids] by (metis UN_upper set_concat)
  have "opc_post (values_accounted env node_ids) (opc_bind (opc_map (read_values_batch_with_fallback env)
      (chunked node_ids (max 1 n))) (\<lambda>batches. opc_return (concat batches)))" for n
  proof (rule post_bind [OF post_map [OF post_batch_with_fallback [OF assms(1)]] post_returned], goal_cases)
    case (1 added exc)
    then obtain b where "b \<in> set (chunked node_ids (max 1 n))" "within_transcript (values_accounted env b) added (Inl exc)"
      by auto
    moreover have "set b \<subseteq> set node_ids" using part [of "max 1 n" b] calculation by simp
    ultimately show ?case unfolding within_transcript_def by (auto elim!: values_accounted_failed)
  next
    case (2 a batches b r)
    then show ?case using values_accounted_concat [of env a "chunked node_ids (max 1 n)" batches]
      by (simp add: concat_chunked)
  qed
  then have "opc_post (values_accounted env node_ids) (read_values env node_ids)"
    unfolding read_values_def using False
    by (auto intro!: post_bind [OF post_limits] intro: values_accounted_mono)
  then show ?thesis using assms(2) by (metis fst_conv opc_postD snd_conv)
qed

text \<open>The cost of narrowing down: two requests per attempt, and a batch of \<open>n\<close> makes at most \<open>2n - 1\<close> attempts.\<close>

lemma reads_read_values_attempt: "opc_post (\<lambda>added _. value_reads added \<le> 2) (read_values_attempt env node_ids)"
proof -
  have ask: "opc_post (\<lambda>added _. value_reads added \<le> 1) (ask_read_values env nodes)" for nodes
    unfolding ask_read_values_def by (rule post_ask) simp
  have nodes: "opc_post (\<lambda>added _. value_reads added = 0) (get_nodes env ids)" for ids
    by (rule post_conseq [OF post_get_nodes]) auto
  have none: "opc_post (\<lambda>added _. value_reads added = 0) (opc_return x)" for x :: "pyval list option"
    by (rule post_return) simp
  have ok: "opc_post (\<lambda>added _. value_reads added = 0) (values_read vs)" for vs
    by (rule post_conseq [OF post_values_read]) auto
  have again: "opc_post (\<lambda>added _. value_reads added \<le> 1) (opc_try (ask_read_values env nodes) (\<lambda>_. opc_return None) values_read)" for nodes
    by (rule post_try [OF ask none ok]) auto
  have "opc_post (\<lambda>added _. value_reads added \<le> 1) (opc_bind (wait_for_reconnect env exc) (\<lambda>_. opc_bind (get_nodes env node_ids)
      (\<lambda>nodes. opc_try (ask_read_values env nodes) (\<lambda>_. opc_return None) values_read)))" for exc
    by (rule post_bind [OF post_quiet [OF quiet.frame_wait] post_bind [OF nodes again, where S = "\<lambda>added _. value_reads added \<le> 1"]]) auto
  then have retry: "opc_post (\<lambda>added _. value_reads added \<le> 1) (read_values_retry env node_ids exc)" for exc
    unfolding read_values_retry_def by (auto intro: post_return)
  have "opc_post (\<lambda>added _. value_reads added \<le> 2)
      (opc_try (ask_read_values env nodes) (read_values_retry env node_ids) values_read)" for nodes
    by (rule post_try [OF ask retry ok]) auto
  then show ?thesis
    unfolding read_values_attempt_def
    by (intro post_silent_then [OF post_counters(7)] post_bind [OF nodes]) auto
qed

lemma reads_batch_with_fallback:
  "opc_post (\<lambda>added _. value_reads added + 2 \<le> 4 * max 1 (length node_ids)) (read_values_batch_with_fallback env node_ids)"
proof (induction "length node_ids" arbitrary: node_ids rule: less_induct)
  case less
  let ?k = "max 1 (length node_ids div 2)"
  let ?halves = "opc_bind (read_values_batch_with_fallback env (take ?k node_ids))
          (\<lambda>left. opc_bind (read_values_batch_with_fallback env (drop ?k node_ids)) (\<lambda>right. opc_return (left @ right)))"
  show ?case
  proof (cases "node_ids = []")
    case True
    then show ?thesis by (simp add: opc_post_def read_values_batch_with_fallback.simps)
  next
    case False
    have zero: "opc_post (\<lambda>added _. value_reads added = 0) (opc_return x)" for x :: "pyval list"
      by (rule post_return) simp
    have single: "opc_post (\<lambda>added _. value_reads added = 0) (opc_bind record_failed_request (\<lambda>_. opc_return [PNone]))"
      by (rule post_count_return) (simp_all add: post_intros)
    have halves: "opc_post (\<lambda>added _. value_reads added + 4 \<le> 4 * length node_ids) ?halves" if h: "1 < length node_ids"
    proof -
      have k: "1 \<le> ?k" "?k < length node_ids" using h by auto
      have len: "length (take ?k node_ids) = ?k" "length (drop ?k node_ids) = length node_ids - ?k" using k by auto
      have l: "opc_post (\<lambda>added _. value_reads added + 2 \<le> 4 * ?k) (read_values_batch_with_fallback env (take ?k node_ids))"
        using less [of "take ?k node_ids", unfolded len] k by (simp add: max_absorb2)
      have r: "opc_post (\<lambda>added _. value_reads added + 2 \<le> 4 * (length node_ids - ?k)) (read_values_batch_with_fallback env (drop ?k node_ids))"
        using less [of "drop ?k node_ids", unfolded len] k by (simp add: max_absorb2 [of 1 "length node_ids - ?k"])
      have "opc_post (\<lambda>added _. value_reads added + 2 \<le> 4 * (length node_ids - ?k))
          (opc_bind (read_values_batch_with_fallback env (drop ?k node_ids)) (\<lambda>right. opc_return (left @ right)))" for left
        by (rule post_bind [OF r zero]) auto
      then show ?thesis by (rule post_bind [OF l]) (use h in auto)
    qed
    have "opc_post (\<lambda>added _. value_reads added + 4 \<le> 4 * length node_ids)
      (case outcome of
          Some vs \<Rightarrow> opc_return vs
        | None \<Rightarrow> if length node_ids \<le> 1 then opc_bind record_failed_request (\<lambda>_. opc_return [PNone]) else ?halves)" for outcome
      using halves False by (cases outcome) (auto intro: post_conseq [OF zero] post_conseq [OF single] simp: Suc_le_eq)
    then show ?thesis
      unfolding batch_with_fallback_eq [OF False]
    proof (rule post_bind [OF reads_read_values_attempt])
      have "1 \<le> length node_ids" using False by (cases node_ids) auto
      then show "value_reads added \<le> 2 \<Longrightarrow> value_reads added + 2 \<le> 4 * max 1 (length node_ids)"
        "value_reads a \<le> 2 \<Longrightarrow> value_reads b + 4 \<le> 4 * length node_ids \<Longrightarrow> value_reads (a @ b) + 2 \<le> 4 * max 1 (length node_ids)"
        for added a b
        by (auto simp: max_def simp del: One_nat_def)
    qed
  qed
qed

text \<open>
  However the server fails, a call of \<open>read_values\<close> for \<open>n\<close> nodes sends at most \<open>4n\<close> read requests:
  narrowing a failing batch down to its nodes stays linear.
\<close>

theorem read_values_requests_are_linear:
  "\<exists>added. oc_events (snd (read_values env node_ids c)) = oc_events c @ added
     \<and> length (filter is_value_read added) \<le> 4 * length node_ids"
proof (cases "node_ids = []")
  case True
  then show ?thesis by (simp add: read_values_def opc_return_def)
next
  case False
  have loop: "opc_post (\<lambda>added _. value_reads added \<le> 4 * length (concat bs)) (opc_map (read_values_batch_with_fallback env) bs)"
    if "[] \<notin> set bs" for bs
    using that
  proof (induction bs)
    case (Cons b bs)
    have "opc_post (\<lambda>added _. value_reads added = 0) (opc_return x)" for x :: "pyval list list"
      by (rule post_return) simp
    from post_bind [OF Cons.IH this] Cons.prems
    have rest: "opc_post (\<lambda>added _. value_reads added \<le> 4 * length (concat bs))
        (opc_bind (opc_map (read_values_batch_with_fallback env) bs) (\<lambda>ys. opc_return (y # ys)))" for y
      by auto
    have "opc_post (\<lambda>added _. value_reads added \<le> 4 * length (concat (b # bs)))
        (opc_bind (read_values_batch_with_fallback env b)
          (\<lambda>y. opc_bind (opc_map (read_values_batch_with_fallback env) bs) (\<lambda>ys. opc_return (y # ys))))"
    proof (rule post_bind [OF reads_batch_with_fallback rest])
      have "1 \<le> length b" using Cons.prems by (cases b) auto
      then show "value_reads added + 2 \<le> 4 * max 1 (length b) \<Longrightarrow> value_reads added \<le> 4 * length (concat (b # bs))"
        "value_reads a + 2 \<le> 4 * max 1 (length b) \<Longrightarrow> value_reads a' \<le> 4 * length (concat bs)
          \<Longrightarrow> value_reads (a @ a') \<le> 4 * length (concat (b # bs))" for added a a'
        by (auto simp: max_def simp del: One_nat_def)
    qed
    then show ?case by (simp add: opc_post_def)
  qed (simp add: opc_post_def)
  have all: "opc_post (\<lambda>added _. value_reads added \<le> 4 * length node_ids) (opc_bind (opc_map (read_values_batch_with_fallback env)
      (chunked node_ids (max 1 n))) (\<lambda>batches. opc_return (concat batches)))" for n
  proof -
    have zero: "opc_post (\<lambda>added _. value_reads added = 0) (opc_return x)" for x :: "pyval list"
      by (rule post_return) simp
    have "[] \<notin> set (chunked node_ids (max 1 n))" using chunked_portion by blast
    then have parts: "opc_post (\<lambda>added _. value_reads added \<le> 4 * length node_ids)
        (opc_map (read_values_batch_with_fallback env) (chunked node_ids (max 1 n)))"
      using loop concat_chunked [of "max 1 n" node_ids] by (metis less_max_iff_disj zero_less_one)
    show ?thesis by (rule post_bind [OF parts zero]) auto
  qed
  have "opc_post (\<lambda>added _. value_reads added \<le> 4 * length node_ids) (read_values env node_ids)"
    unfolding read_values_def if_not_P [OF False]
  proof (rule post_bind [OF post_limits])
    fix limits
    show "opc_post (\<lambda>added _. value_reads added \<le> 4 * length node_ids)
        (opc_bind (opc_map (read_values_batch_with_fallback env)
           (chunked node_ids (max 1 (min (or_else (ol_read limits) (length node_ids)) (length node_ids)))))
           (\<lambda>batches. opc_return (concat batches)))"
      by (rule all)
  qed auto
  from opc_postD [OF this, of c] obtain added
    where "oc_events (snd (read_values env node_ids c)) = oc_events c @ added" "value_reads added \<le> 4 * length node_ids" .
  then show ?thesis unfolding value_reads_def by blast
qed

section \<open>Request limits\<close>

text \<open>
  A server that answers every attribute, but refuses a request for more than \<open>n\<close> of them with
  \<open>BadTooManyOperations\<close>.
\<close>

definition too_many_operations :: opc_exception where
  "too_many_operations = StatusCodeError (OtherStatusCode 0x80100000) ''too many operations''"

definition limited_reads :: "opc_env \<Rightarrow> nat \<Rightarrow> (string \<times> nat \<Rightarrow> ua_data) \<Rightarrow> bool" where
  "limited_reads env n stored \<longleftrightarrow> 0 < n
     \<and> (\<forall>es pairs. ua_read env es pairs =
          (if length pairs \<le> n then Inr (map stored pairs) else Inl too_many_operations))
     \<and> (\<forall>es nodes attr. ua_read_attributes env es nodes attr =
          (if length nodes \<le> n then Inr (map (\<lambda>node. stored (node, attr)) nodes) else Inl too_many_operations))"

lemma too_many_facts [simp]:
  "is_too_many_operations_error too_many_operations" "\<not> should_retry_after_disconnect too_many_operations"
  by (simp_all add: too_many_operations_def is_too_many_operations_error_def should_retry_after_disconnect_def
      connection_lost_status_codes_def py_lower_def str_simps)

definition returns :: "'a \<Rightarrow> 'a opc \<Rightarrow> bool" where
  "returns x m \<longleftrightarrow> (\<forall>c. fst (m c) = Inr x)"

definition raises :: "opc_exception \<Rightarrow> 'a opc \<Rightarrow> bool" where
  "raises exc m \<longleftrightarrow> (\<forall>c. fst (m c) = Inl exc)"

lemma returns_basic:
  "returns x (opc_return x)" "raises exc (opc_raise exc)"
  "(\<And>es. answer es = Inr x) \<Longrightarrow> returns x (ask answer event)"
  "(\<And>es. answer es = Inl exc) \<Longrightarrow> raises exc (ask answer event)"
  by (simp_all add: returns_def raises_def opc_return_def opc_raise_def ask_def Let_def)

lemma returns_bind: "returns x m \<Longrightarrow> returns y (f x) \<Longrightarrow> returns y (opc_bind m f)"
  by (auto simp: returns_def opc_bind_def split: prod.splits sum.splits) (metis fst_conv sum.distinct(1), metis fst_conv sum.inject(2))

lemma raises_bind: "returns x m \<Longrightarrow> raises exc (f x) \<Longrightarrow> raises exc (opc_bind m f)"
  by (auto simp: returns_def raises_def opc_bind_def split: prod.splits sum.splits)
    (metis fst_conv sum.distinct(1), metis fst_conv sum.inject(2))

lemma returns_try: "returns x m \<Longrightarrow> returns y (f x) \<Longrightarrow> returns y (opc_try m h f)"
  by (auto simp: returns_def opc_try_def split: prod.splits sum.splits) (metis fst_conv sum.distinct(1), metis fst_conv sum.inject(2))

lemma returns_handled: "raises exc m \<Longrightarrow> returns y (h exc) \<Longrightarrow> returns y (opc_try m h f)"
  by (auto simp: returns_def raises_def opc_try_def split: prod.splits sum.splits) (metis fst_conv sum.inject(1), metis fst_conv sum.distinct(1))

lemma raises_handled: "raises exc m \<Longrightarrow> raises exc' (h exc) \<Longrightarrow> raises exc' (opc_try m h f)"
  by (auto simp: raises_def opc_try_def split: prod.splits sum.splits) (metis fst_conv sum.inject(1), metis fst_conv sum.distinct(1))

lemma returns_silent: "opc_post silent m \<Longrightarrow> (\<And>x. returns y (f x)) \<Longrightarrow> returns y (opc_bind m f)"
  by (auto simp: returns_def opc_post_def silent_def opc_bind_def split: prod.splits sum.splits) (metis fst_conv sum.distinct(1))

lemma raises_silent: "opc_post silent m \<Longrightarrow> (\<And>x. raises exc (f x)) \<Longrightarrow> raises exc (opc_bind m f)"
  by (auto simp: raises_def opc_post_def silent_def opc_bind_def split: prod.splits sum.splits) (metis fst_conv sum.distinct(1))

lemma returns_map: "(\<And>x. x \<in> set xs \<Longrightarrow> returns (g x) (f x)) \<Longrightarrow> returns (map g xs) (opc_map f xs)"
proof (induction xs)
  case (Cons x xs)
  have "returns (g x # map g xs) (opc_bind (f x) (\<lambda>y. opc_bind (opc_map f xs) (\<lambda>ys. opc_return (y # ys))))"
    by (rule returns_bind [OF Cons.prems returns_bind [OF Cons.IH returns_basic(1)]]) (auto intro: Cons.prems)
  then show ?case by (simp add: returns_def)
qed (simp add: returns_def)

lemma returns_limits: "(\<And>limits. returns y (f limits)) \<Longrightarrow> returns y (opc_bind (get_operational_limits env) f)"
  using post_limits [of env] unfolding returns_def opc_post_def opc_bind_def
  by (auto split: prod.splits sum.splits) (metis fst_conv sum.distinct(1))

lemma read_attribute_batch_limited_server:
  assumes "limited_reads env n stored" "nodes \<noteq> []"
  shows "length nodes \<le> n \<Longrightarrow> returns (map (\<lambda>node. stored (node, attr)) nodes) (read_attribute_batch env attr nodes)"
    and "\<not> length nodes \<le> n \<Longrightarrow> raises too_many_operations (read_attribute_batch env attr nodes)"
proof -
  assume "length nodes \<le> n"
  then show "returns (map (\<lambda>node. stored (node, attr)) nodes) (read_attribute_batch env attr nodes)"
    using assms unfolding read_attribute_batch_def limited_reads_def ask_read_attributes_def
    by (auto intro!: returns_silent returns_try returns_basic post_intros)
next
  assume "\<not> length nodes \<le> n"
  then show "raises too_many_operations (read_attribute_batch env attr nodes)"
    using assms unfolding read_attribute_batch_def limited_reads_def ask_read_attributes_def
    by (auto intro!: raises_silent raises_handled returns_basic post_intros)
qed

lemma returns_concat_chunked:
  assumes "returns (map (map g) (chunked xs n)) m" "0 < n"
  shows "returns (map g xs) (opc_bind m (\<lambda>yss. opc_return (concat yss)))"
proof -
  have "concat (map (map g) (chunked xs n)) = map g xs" using concat_chunked [OF assms(2), of xs] by (metis map_concat)
  then show ?thesis using returns_bind [OF assms(1) returns_basic(1)] by metis
qed

lemma read_attribute_batches_server:
  assumes "limited_reads env n stored"
  shows "returns (map (\<lambda>node. stored (node, attr)) nodes) (read_attribute_batches env attr nodes k)"
proof (induction "min (length nodes) (max 1 k)" arbitrary: nodes k rule: less_induct)
  case less
  let ?read = "\<lambda>batch. opc_try (read_attribute_batch env attr batch)
      (\<lambda>exc. if \<not> is_too_many_operations_error exc \<or> length batch \<le> 1 then opc_raise exc
         else read_attribute_batches env attr batch (max 1 (length batch div 2))) opc_return"
  have "returns (map (\<lambda>node. stored (node, attr)) batch) (?read batch)" if b: "batch \<in> set (chunked nodes (max 1 k))" for batch
  proof (cases "length batch \<le> n")
    case True
    then show ?thesis
      using chunked_portion [OF b]
      by (intro returns_try [OF read_attribute_batch_limited_server(1) [OF assms] returns_basic(1)]) auto
  next
    case False
    then have big: "1 < length batch" using assms by (auto simp: limited_reads_def)
    have "length batch \<le> max 1 k" "length batch \<le> length nodes" using chunked_portion [OF b] by auto
    moreover have "max 1 (length batch div 2) < length batch" using big by auto
    ultimately have "returns (map (\<lambda>node. stored (node, attr)) batch)
        (read_attribute_batches env attr batch (max 1 (length batch div 2)))"
      by (intro less) auto
    moreover have "\<not> (\<not> is_too_many_operations_error too_many_operations \<or> length batch \<le> 1)" using big by simp
    ultimately have "returns (map (\<lambda>node. stored (node, attr)) batch)
        (if \<not> is_too_many_operations_error too_many_operations \<or> length batch \<le> 1 then opc_raise too_many_operations
         else read_attribute_batches env attr batch (max 1 (length batch div 2)))"
      by presburger
    moreover have "batch \<noteq> []" using chunked_portion [OF b] by simp
    ultimately show ?thesis
      by (intro returns_handled [OF read_attribute_batch_limited_server(2) [OF assms _ False]])
  qed
  then have "returns (map (map (\<lambda>node. stored (node, attr))) (chunked nodes (max 1 k))) (opc_map ?read (chunked nodes (max 1 k)))"
    by (rule returns_map)
  then show ?case unfolding read_batches_eq [of env attr nodes k] by (rule returns_concat_chunked) simp
qed

lemma read_attribute_pairs_server:
  assumes "limited_reads env n stored"
  shows "returns (map stored pairs) (read_attribute_pairs env pairs)"
proof -
  have checked: "returns vs (checked_read env k vs)" if "length vs = k" for vs k
    using that unfolding checked_read_def by (auto intro!: returns_silent returns_basic post_intros)
  have batch: "returns (map stored pairs) (read_attribute_pairs_batch env pairs)" for pairs
  proof (induction "length pairs" arbitrary: pairs rule: less_induct)
    case less
    let ?k = "max 1 (length pairs div 2)"
    have halves: "returns (map stored pairs) (opc_bind (read_attribute_pairs_batch env (take ?k pairs))
        (\<lambda>left. opc_bind (read_attribute_pairs_batch env (drop ?k pairs)) (\<lambda>right. opc_return (left @ right))))"
      if h: "1 < length pairs"
    proof -
      have "returns (map stored (take ?k pairs)) (read_attribute_pairs_batch env (take ?k pairs))"
        "returns (map stored (drop ?k pairs)) (read_attribute_pairs_batch env (drop ?k pairs))"
        using h by (auto intro!: less)
      moreover have "map stored (take ?k pairs) @ map stored (drop ?k pairs) = map stored pairs"
        by (metis append_take_drop_id map_append)
      ultimately show ?thesis by (metis (no_types, lifting) returns_bind returns_basic(1))
    qed
    show ?case
    proof (cases "length pairs \<le> n")
      case True
      then show ?thesis
        using assms unfolding read_pairs_batch_eq [of env pairs] ask_read_def limited_reads_def
        by (auto intro!: returns_silent returns_try returns_basic post_intros checked)
    next
      case False
      then have "raises too_many_operations (ask_read env pairs)" "1 < length pairs"
        using assms unfolding ask_read_def limited_reads_def by (auto intro!: returns_basic)
      then show ?thesis
        unfolding read_pairs_batch_eq [of env pairs] using halves
        by (auto intro!: returns_silent returns_handled post_intros)
    qed
  qed
  show ?thesis
    unfolding read_attribute_pairs_def read_attribute_pairs_sized_def
    by (auto intro!: returns_basic returns_limits returns_concat_chunked returns_map batch)
qed

lemma returns_get_nodes:
  assumes "\<And>i. i \<in> set node_ids \<Longrightarrow> ua_parse_node env i = Inr (node_of_id i)"
  shows "returns (map node_of_id node_ids) (get_nodes env node_ids)"
  unfolding get_nodes_def using assms by (intro returns_map) (simp add: returns_def get_node_def)

text \<open>
  C29. The server's limit on the size of a request does not show in what is read: however small it is,
  and whatever limits the server publishes, \<open>read_data_values\<close> returns for every node the data value
  that the server has for it, in the order of the request.
\<close>

theorem request_limits_do_not_show:
  assumes "limited_reads env n stored" and "\<And>i. i \<in> set node_ids \<Longrightarrow> ua_parse_node env i = Inr (node_of_id i)"
  shows "fst (read_data_values env node_ids c) = Inr (map (\<lambda>i. stored (node_of_id i, AttrValue)) node_ids)"
proof -
  have "returns (map (\<lambda>node. stored (node, AttrValue)) nodes) (read_attribute_batch_limited env AttrValue nodes)" for nodes
    unfolding read_attribute_batch_limited_def
    by (auto intro!: returns_basic returns_limits read_attribute_batches_server [OF assms(1)])
  then have "returns (map (\<lambda>i. stored (node_of_id i, AttrValue)) node_ids) (read_data_values_batch env node_ids)"
    unfolding read_data_values_batch_def
    by (intro returns_bind [OF returns_get_nodes [OF assms(2)] returns_bind]) (auto simp: comp_def intro!: returns_basic)
  then have "returns (map (\<lambda>i. stored (node_of_id i, AttrValue)) node_ids) (read_data_values env node_ids)"
    unfolding read_data_values_def by (auto intro!: returns_basic returns_try)
  then show ?thesis by (simp add: returns_def)
qed

section \<open>Paged history\<close>

text \<open>
  What a server with continuation points documents: \<open>rest node point\<close> are the values it still has for
  a node from a point on (\<open>None\<close>: from the start). Each answer carries the first of them and, if there
  are more, a point from which the others can be had. A request for several nodes may be refused as too
  large.
\<close>

definition history_page :: "(string \<Rightarrow> string option \<Rightarrow> ua_data list) \<Rightarrow> string \<Rightarrow> string option \<Rightarrow> history_result \<Rightarrow> bool" where
  "history_page rest node point r \<longleftrightarrow>
     hr_check r = None
     \<and> (\<exists>page. hr_data_values r = Some page
          \<and> rest node point = page @ (if hr_continuation r = [] then [] else rest node (Some (hr_continuation r)))
          \<and> (hr_continuation r \<noteq> [] \<longrightarrow> page \<noteq> []))"

definition history_paged :: "opc_env \<Rightarrow> (string \<Rightarrow> string option \<Rightarrow> ua_data list) \<Rightarrow> bool" where
  "history_paged env rest \<longleftrightarrow>
     (\<forall>es period entries. case ua_history_read env es period entries of
        Inr results \<Rightarrow> list_all2 (\<lambda>(node, point) r. history_page rest node point r) entries results
      | Inl exc \<Rightarrow> exc = too_many_operations \<and> length entries > 1)"

definition history_ids :: "opc_env \<Rightarrow> (string \<Rightarrow> string) \<Rightarrow> string list \<Rightarrow> bool" where
  "history_ids env node_of_id ids \<longleftrightarrow> (\<forall>i \<in> set ids. ua_parse_node env i = Inr (node_of_id i))"

lemma history_nodes_parsed:
  "history_ids env node_of_id (map fst entries) \<Longrightarrow>
     history_nodes env entries c = (Inr (map (\<lambda>(i, p). (node_of_id i, p)) entries), c)"
  unfolding history_nodes_def
  by (induction entries) (auto simp: history_ids_def opc_bind_def opc_return_def get_node_def)

lemma read_history_batch_pages:
  assumes "history_paged env rest"
  shows "history_ids env node_of_id (map fst entries) \<Longrightarrow>
    \<exists>results c'. read_history_batch env period entries c = (Inr results, c')
      \<and> list_all2 (\<lambda>(i, point) r. history_page rest (node_of_id i) point r) entries results"
proof (induction "length entries" arbitrary: entries c rule: less_induct)
  case less
  let ?nodes = "map (\<lambda>(i, p). (node_of_id i, p)) entries"
  define c1 where "c1 = snd (count_runtime (\<lambda>r. r\<lparr>rm_history_read_calls := rm_history_read_calls r + 1\<rparr>) c)"
  define answer where "answer = ua_history_read env (oc_events c1) period ?nodes"
  define c2 where "c2 = c1\<lparr>oc_events := oc_events c1 @ [EHistoryRead ?nodes answer]\<rparr>"
  have count: "count_runtime (\<lambda>r. r\<lparr>rm_history_read_calls := rm_history_read_calls r + 1\<rparr>) c = (Inr (), c1)"
    by (simp add: c1_def count_runtime_def opc_modify_def)
  have server: "case answer of
        Inr results \<Rightarrow> list_all2 (\<lambda>(node, point) r. history_page rest node point r) ?nodes results
      | Inl exc \<Rightarrow> exc = too_many_operations \<and> length ?nodes > 1"
    using assms unfolding history_paged_def answer_def by blast
  have asked: "ask_history_read env period ?nodes c1 = (answer, c2)"
    by (simp add: ask_history_read_def ask_def answer_def c2_def Let_def)
  have step: "read_history_batch env period entries c =
      (case answer of
         Inr results \<Rightarrow> checked_history (length entries) results c2
       | Inl exc \<Rightarrow>
          if should_retry_after_disconnect exc
           then opc_bind (wait_for_reconnect env exc)
             (\<lambda>_. opc_bind (ask_history_read env period ?nodes) (checked_history (length entries))) c2
           else if is_too_many_operations_error exc \<and> length entries > 1
           then opc_bind (read_history_batch env period (take (max 1 (length entries div 2)) entries))
             (\<lambda>left. opc_bind (read_history_batch env period (drop (max 1 (length entries div 2)) entries))
             (\<lambda>right. opc_return (left @ right))) c2
           else opc_raise exc c2)"
    unfolding read_history_batch.simps [of env period entries c]
      opc_bind_def [of "history_nodes env entries"] history_nodes_parsed [OF less.prems] prod.case sum.case
      opc_bind_def [of "count_runtime _"] count opc_try_def [of "ask_history_read _ _ _"] asked
    by (simp split: sum.split)
  show ?case
  proof (cases answer)
    case (Inr results)
    then have "list_all2 (\<lambda>(node, point) r. history_page rest node point r) ?nodes results"
      using server by simp
    then have pages: "list_all2 (\<lambda>(i, point) r. history_page rest (node_of_id i) point r) entries results"
      unfolding list_all2_map1 by (rule list_all2_mono) auto
    then show ?thesis
      using Inr step by (simp add: checked_history_def opc_return_def list_all2_lengthD)
  next
    case (Inl exc)
    then have exc: "exc = too_many_operations" "length entries > 1"
      using server by simp_all
    let ?k = "max 1 (length entries div 2)"
    have ids: "history_ids env node_of_id (map fst (take ?k entries))" "history_ids env node_of_id (map fst (drop ?k entries))"
      using less.prems unfolding history_ids_def by (auto dest: in_set_takeD in_set_dropD)
    obtain left c3 where left: "read_history_batch env period (take ?k entries) c2 = (Inr left, c3)"
      "list_all2 (\<lambda>(i, point) r. history_page rest (node_of_id i) point r) (take ?k entries) left"
      using less.hyps [OF _ ids(1)] exc by fastforce
    obtain right c4 where right: "read_history_batch env period (drop ?k entries) c3 = (Inr right, c4)"
      "list_all2 (\<lambda>(i, point) r. history_page rest (node_of_id i) point r) (drop ?k entries) right"
      using less.hyps [OF _ ids(2)] exc by fastforce
    have "read_history_batch env period entries c = (Inr (left @ right), c4)"
      using step Inl exc left(1) right(1) by (simp add: opc_bind_def opc_return_def)
    moreover have "list_all2 (\<lambda>(i, point) r. history_page rest (node_of_id i) point r) entries (left @ right)"
      using list_all2_appendI [OF left(2) right(2)] by simp
    ultimately show ?thesis by blast
  qed
qed

text \<open>One round over answers that are all pages.\<close>

definition server_page :: "history_result \<Rightarrow> ua_data list" where
  "server_page r = (case hr_data_values r of Some page \<Rightarrow> page | None \<Rightarrow> [])"

definition has_more :: "history_result \<Rightarrow> bool" where
  "has_more r \<longleftrightarrow> hr_continuation r \<noteq> []"

lemma history_pageD:
  assumes "history_page rest node point r"
  shows "hr_check r = None" "hr_data_values r = Some (server_page r)"
    "rest node point = server_page r @ (if has_more r then rest node (Some (hr_continuation r)) else [])"
    "has_more r \<Longrightarrow> server_page r \<noteq> []"
  using assms by (auto simp: history_page_def server_page_def has_more_def split: if_splits)

lemma history_step_page:
  assumes "hr_check r = None" "hr_data_values r = Some (server_page r)"
  shows "history_step s (i, r) = Inr
    \<lparr>ho_values = dict_set i (dict_get_def (ho_values s) i [] @ server_page r) (ho_values s),
     ho_next = ho_next s @ (if has_more r then [i] else []),
     ho_continuations = (if has_more r then dict_set i (hr_continuation r) (ho_continuations s) else ho_continuations s)\<rparr>"
  using assms by (simp add: history_step_def has_more_def Let_def)

lemma history_steps_pages:
  assumes "\<forall>r \<in> snd ` set es. hr_check r = None \<and> hr_data_values r = Some (server_page r)"
    and "distinct (map fst es)"
  shows "\<exists>s'. history_steps s es = Inr s'
    \<and> (\<forall>j. dict_get (ho_values s') j = (case map_of es j of
         None \<Rightarrow> dict_get (ho_values s) j | Some r \<Rightarrow> Some (dict_get_def (ho_values s) j [] @ server_page r)))
    \<and> ho_next s' = ho_next s @ map fst (filter (\<lambda>(_, r). has_more r) es)
    \<and> (\<forall>(j, r) \<in> set es. has_more r \<longrightarrow> dict_get (ho_continuations s') j = Some (hr_continuation r))
    \<and> (\<forall>j. j \<notin> fst ` set es \<longrightarrow> dict_get (ho_continuations s') j = dict_get (ho_continuations s) j)
    \<and> (dict_ok (ho_values s) \<longrightarrow> dict_ok (ho_values s'))"
  using assms
proof (induction es arbitrary: s)
  case Nil
  show ?case by simp
next
  case (Cons e es)
  obtain i r where e: "e = (i, r)" by fastforce
  have r: "hr_check r = None" "hr_data_values r = Some (server_page r)" using Cons.prems(1) e by auto
  define s1 where "s1 = \<lparr>ho_values = dict_set i (dict_get_def (ho_values s) i [] @ server_page r) (ho_values s),
     ho_next = ho_next s @ (if has_more r then [i] else []),
     ho_continuations = (if has_more r then dict_set i (hr_continuation r) (ho_continuations s) else ho_continuations s)\<rparr>"
  obtain s' where s': "history_steps s1 es = Inr s'"
    "\<forall>j. dict_get (ho_values s') j = (case map_of es j of
         None \<Rightarrow> dict_get (ho_values s1) j | Some r \<Rightarrow> Some (dict_get_def (ho_values s1) j [] @ server_page r))"
    "ho_next s' = ho_next s1 @ map fst (filter (\<lambda>(_, r). has_more r) es)"
    "\<forall>(j, r) \<in> set es. has_more r \<longrightarrow> dict_get (ho_continuations s') j = Some (hr_continuation r)"
    "\<forall>j. j \<notin> fst ` set es \<longrightarrow> dict_get (ho_continuations s') j = dict_get (ho_continuations s1) j"
    "dict_ok (ho_values s1) \<longrightarrow> dict_ok (ho_values s')"
  proof -
    have "\<forall>r \<in> snd ` set es. hr_check r = None \<and> hr_data_values r = Some (server_page r)" "distinct (map fst es)"
      using Cons.prems by simp_all
    from Cons.IH [OF this, of s1] show thesis by (elim exE conjE) (rule that, assumption+)
  qed
  have i: "i \<notin> fst ` set es" "map_of es i = None" using Cons.prems(2) e by (auto simp: map_of_eq_None_iff)
  show ?case
  proof (intro exI [of _ s'] conjI allI ballI)
    show "history_steps s (e # es) = Inr s'" using s'(1) by (simp add: e history_step_page [OF r] s1_def)
    show "dict_get (ho_values s') j = (case map_of (e # es) j of
         None \<Rightarrow> dict_get (ho_values s) j | Some r \<Rightarrow> Some (dict_get_def (ho_values s) j [] @ server_page r))" for j
      using s'(2) i by (auto simp: e s1_def split: option.splits)
    show "ho_next s' = ho_next s @ map fst (filter (\<lambda>(_, r). has_more r) (e # es))"
      using s'(3) by (simp add: e s1_def)
    show "case x of (j, r) \<Rightarrow> has_more r \<longrightarrow> dict_get (ho_continuations s') j = Some (hr_continuation r)"
      if "x \<in> set (e # es)" for x
      using that s'(4,5) i by (auto simp: e s1_def)
    show "j \<notin> fst ` set (e # es) \<longrightarrow> dict_get (ho_continuations s') j = dict_get (ho_continuations s) j" for j
      using s'(5) by (auto simp: e s1_def)
    show "dict_ok (ho_values s) \<longrightarrow> dict_ok (ho_values s')" using s'(6) by (simp add: s1_def distinct_update)
  qed
qed

lemma history_loop_pages:
  assumes paged: "history_paged env rest"
  shows "history_ids env node_of_id active \<Longrightarrow> distinct active
    \<Longrightarrow> list_all2 (\<lambda>i r. history_page rest (node_of_id i) (point i) r) active results
    \<Longrightarrow> dict_ok collected
    \<Longrightarrow> \<exists>d c'. history_loop env period collected active results c = Some (Inr d, c') \<and> dict_ok d
      \<and> (\<forall>j. dict_get d j = (if j \<in> set active then Some (dict_get_def collected j [] @ rest (node_of_id j) (point j))
                                 else dict_get collected j))"
proof (induction "\<Sum>i \<in> set active. length (rest (node_of_id i) (point i))"
    arbitrary: active results collected point c rule: less_induct)
  case less
  let ?es = "zip active results"
  have len: "length active = length results" using less.prems(3) by (rule list_all2_lengthD)
  have fst_es: "map fst ?es = active" using len by simp
  have page: "history_page rest (node_of_id i) (point i) r" if "(i, r) \<in> set ?es" for i r
    using less.prems(3) that unfolding list_all2_iff by blast
  have distinct: "distinct (map fst ?es)" using less.prems(2) fst_es by simp
  obtain s where s: "history_steps \<lparr>ho_values = collected, ho_next = [], ho_continuations = []\<rparr> ?es = Inr s"
    "\<And>j. dict_get (ho_values s) j = (case map_of ?es j of
         None \<Rightarrow> dict_get collected j | Some r \<Rightarrow> Some (dict_get_def collected j [] @ server_page r))"
    "ho_next s = map fst (filter (\<lambda>(_, r). has_more r) ?es)"
    "\<And>j r. (j, r) \<in> set ?es \<Longrightarrow> has_more r \<Longrightarrow> dict_get (ho_continuations s) j = Some (hr_continuation r)"
    "dict_ok (ho_values s)"
  proof -
    have "\<forall>r \<in> snd ` set ?es. hr_check r = None \<and> hr_data_values r = Some (server_page r)"
      using history_pageD(1,2) [OF page] by fastforce
    from history_steps_pages [where s = "\<lparr>ho_values = collected, ho_next = [], ho_continuations = []\<rparr>",
        OF this distinct, unfolded history_round.simps append_Nil]
    show thesis by (elim exE conjE) (rule that, assumption, blast, assumption, blast, use less.prems(4) in blast)
  qed
  let ?point = "\<lambda>i. dict_get (ho_continuations s) i"
  have result: "\<exists>r. (j, r) \<in> set ?es \<and> map_of ?es j = Some r" if "j \<in> set active" for j
    using that fst_es distinct by (metis (no_types, lifting) image_iff list.set_map map_of_eq_Some_iff prod.collapse)
  have none: "map_of ?es j = None" if "j \<notin> set active" for j
    using that fst_es by (metis list.set_map map_of_eq_None_iff)
  have next_mem: "j \<in> set (ho_next s) \<longleftrightarrow> (\<exists>r. (j, r) \<in> set ?es \<and> has_more r)" for j
    by (force simp: s(3))
  have remaining: "dict_get_def collected j [] @ rest (node_of_id j) (point j) = dict_get_def (ho_values s) j [] @ (if j \<in> set (ho_next s) then rest (node_of_id j) (?point j) else [])
      \<and> (j \<in> set (ho_next s) \<longrightarrow> length (rest (node_of_id j) (?point j)) < length (rest (node_of_id j) (point j)))"
    if j: "j \<in> set active" for j
  proof -
    obtain r where r: "(j, r) \<in> set ?es" "map_of ?es j = Some r" using result [OF j] by blast
    have "j \<in> set (ho_next s) \<longleftrightarrow> has_more r"
      using next_mem r distinct by (metis map_of_is_SomeI option.inject)
    moreover have "dict_get_def (ho_values s) j [] = dict_get_def collected j [] @ server_page r"
      using s(2) [of j] r(2) by (simp add: dict_get_def_def)
    ultimately show ?thesis using history_pageD(3,4) [OF page [OF r(1)]] s(4) [OF r(1)] by auto
  qed
  have kept: "dict_get (ho_values s) j = dict_get collected j" if "j \<notin> set active" for j
    using s(2) [of j] none [OF that] by simp
  have sub: "set (ho_next s) \<subseteq> set active" using next_mem by (auto dest: set_zip_leftD)
  have got: "dict_get (ho_values s) j = Some (dict_get_def (ho_values s) j [])" if "j \<in> set active" for j
    using s(2) [of j] result [OF that] by (auto simp: dict_get_def_def)
  show ?case
  proof (cases "active = [] \<or> ho_next s = []")
    case True
    then have "history_loop env period collected active results c = Some (Inr (ho_values s), c)"
    proof (cases "active = []")
      case True
      then have "collected = ho_values s" using s(1) by auto
      then show ?thesis using True by (simp add: history_loop.simps)
    next
      case active: False
      then show ?thesis using s(1) len True by (simp add: history_loop.simps [of env period collected active])
    qed
    moreover have "dict_get (ho_values s) j = (if j \<in> set active
        then Some (dict_get_def collected j [] @ rest (node_of_id j) (point j)) else dict_get collected j)" for j
      using remaining [of j] got [of j] kept [of j] True by auto
    ultimately show ?thesis using s(5) by blast
  next
    case False
    let ?entries = "map (\<lambda>i. (i, ?point i)) (ho_next s)"
    have ids: "history_ids env node_of_id (ho_next s)" using less.prems(1) sub unfolding history_ids_def by blast
    then have "history_ids env node_of_id (map fst ?entries)" by (simp add: comp_def)
    then obtain results' c1 where batch: "read_history_batch env period ?entries c = (Inr results', c1)"
      "list_all2 (\<lambda>(i, p) r. history_page rest (node_of_id i) p r) ?entries results'"
      using read_history_batch_pages [OF paged] by blast
    have pages: "list_all2 (\<lambda>i r. history_page rest (node_of_id i) (?point i) r) (ho_next s) results'"
      using batch(2) by (simp add: list_all2_map1)
    have dnext: "distinct (ho_next s)" using distinct by (simp add: s(3) distinct_map_filter)
    have "(\<Sum>i \<in> set (ho_next s). length (rest (node_of_id i) (?point i)))
        < (\<Sum>i \<in> set (ho_next s). length (rest (node_of_id i) (point i)))"
      using remaining sub False by (intro sum_strict_mono) auto
    also have "\<dots> \<le> (\<Sum>i \<in> set active. length (rest (node_of_id i) (point i)))"
      using sub by (intro sum_mono2) auto
    finally obtain d c' where d: "history_loop env period (ho_values s) (ho_next s) results' c1 = Some (Inr d, c')"
      "dict_ok d"
      "\<And>j. dict_get d j = (if j \<in> set (ho_next s) then Some (dict_get_def (ho_values s) j [] @ rest (node_of_id j) (?point j))
                              else dict_get (ho_values s) j)"
      using less.hyps [OF _ ids dnext pages s(5)] by blast
    have "history_loop env period collected active results c = Some (Inr d, c')"
      using False len s(1) batch(1) d(1) by (subst history_loop.simps) simp
    moreover have "dict_get d j = (if j \<in> set active
        then Some (dict_get_def collected j [] @ rest (node_of_id j) (point j)) else dict_get collected j)" for j
      using d(3) [of j] remaining [of j] got [of j] kept [of j] sub by auto
    ultimately show ?thesis using d(2) by blast
  qed
qed

definition whole_history :: "(string \<Rightarrow> string option \<Rightarrow> ua_data list) \<Rightarrow> (string \<Rightarrow> string) \<Rightarrow> string list
    \<Rightarrow> (string, ua_data list) dict \<Rightarrow> bool" where
  "whole_history rest node_of_id ids d \<longleftrightarrow> dict_ok d
     \<and> (\<forall>j. dict_get d j = (if j \<in> set ids then Some (rest (node_of_id j) None) else None))"

lemma history_of_batch_pages:
  assumes paged: "history_paged env rest" and ids: "history_ids env node_of_id ids" "distinct ids"
  shows "\<exists>d c'. history_of_batch env period ids c = Some (Inr d, c') \<and> whole_history rest node_of_id ids d"
proof -
  let ?entries = "map (\<lambda>i. (i, None)) ids" and ?empty = "dict_of_list (map (\<lambda>i. (i, [])) ids)"
  have "history_ids env node_of_id (map fst ?entries)" using ids(1) by (simp add: comp_def)
  then obtain results c1 where batch: "read_history_batch env period ?entries c = (Inr results, c1)"
    "list_all2 (\<lambda>(i, p) r. history_page rest (node_of_id i) p r) ?entries results"
    using read_history_batch_pages [OF paged] by blast
  have pages: "list_all2 (\<lambda>i r. history_page rest (node_of_id i) None r) ids results"
    using batch(2) by (simp add: list_all2_map1)
  have empty: "dict_get ?empty j = (if j \<in> set ids then Some [] else None)" for j
    by (simp add: dict_get_of_list rev_map map_of_map_restrict restrict_map_def)
  have "dict_ok ?empty" by (simp add: dict_inv)
  from history_loop_pages [where point = "\<lambda>_. None", OF paged ids pages this]
  obtain d c' where d: "history_loop env period ?empty ids results c1 = Some (Inr d, c')" "dict_ok d"
    "\<And>j. dict_get d j = (if j \<in> set ids then Some (dict_get_def ?empty j [] @ rest (node_of_id j) None) else dict_get ?empty j)"
    by blast
  have "whole_history rest node_of_id ids d"
    using d(2) by (simp add: whole_history_def dict_get_def_def d(3) empty)
  moreover have "history_of_batch env period ids c = Some (Inr d, c')"
    using batch(1) d(1) by (simp add: history_of_batch_def)
  ultimately show ?thesis by blast
qed

lemma history_of_batches_pages:
  assumes paged: "history_paged env rest"
  shows "\<forall>ids \<in> set batches. history_ids env node_of_id ids \<and> distinct ids \<Longrightarrow>
    \<exists>ds c'. history_of_batches env period batches c = Some (Inr ds, c')
      \<and> list_all2 (whole_history rest node_of_id) batches ds"
proof (induction batches arbitrary: c)
  case (Cons ids batches)
  then obtain d c1 where d: "history_of_batch env period ids c = Some (Inr d, c1)" "whole_history rest node_of_id ids d"
    using history_of_batch_pages [OF paged] by (metis list.set_intros(1))
  obtain ds c2 where ds: "history_of_batches env period batches c1 = Some (Inr ds, c2)"
    "list_all2 (whole_history rest node_of_id) batches ds"
    using Cons by fastforce
  then have "history_of_batches env period (ids # batches) c = Some (Inr (d # ds), c2)" using d(1) by simp
  then show ?case using d(2) ds(2) by (metis list.rel_intros(2))
qed simp

lemma dict_get_merge_ok: "dict_ok e \<Longrightarrow> dict_get (dict_merge d e) k = (case dict_get e k of Some v \<Rightarrow> Some v | None \<Rightarrow> dict_get d k)"
  using map_of_inject_set [of "List.rev e" e] by (simp add: dict_get_merge rev_map [symmetric])

lemma whole_history_merged:
  assumes "list_all2 (whole_history rest node_of_id) batches ds"
  shows "dict_get (foldl dict_merge e ds) j =
    (if j \<in> set (concat batches) then Some (rest (node_of_id j) None) else dict_get e j)"
  using assms
proof (induction batches ds arbitrary: e rule: list_all2_induct)
  case (Cons ids batches d ds)
  have "dict_get (dict_merge e d) j = (if j \<in> set ids then Some (rest (node_of_id j) None) else dict_get e j)"
    using Cons.hyps(1) by (simp add: whole_history_def dict_get_merge_ok)
  then show ?case using Cons by simp
qed simp

text \<open>
  C28. The history of a node is complete whatever pages the server cuts it into and whatever batch size
  it accepts: against a server that serves its values in pages with continuation points,
  \<open>read_history_values\<close> returns, and the result has exactly the requested nodes, each with all the
  values the server has for it, in the server's order.
\<close>

theorem paged_history_is_complete:
  assumes "history_paged env rest" and "history_ids env node_of_id ids" and "distinct ids"
  shows "\<exists>d c'. read_history_values env ids period c = Some (Inr d, c')
    \<and> (\<forall>j. dict_get d j = (if j \<in> set ids then Some (rest (node_of_id j) None) else None))"
proof (cases "ids = []")
  case True
  then show ?thesis by (simp add: read_history_values_def)
next
  case False
  define c0 where "c0 = snd (count_runtime (\<lambda>r. r\<lparr>rm_history_read_nodes := rm_history_read_nodes r + length ids\<rparr>) c)"
  obtain limits c1 where limits: "get_operational_limits env c0 = (Inr limits, c1)"
    using post_limits [of env] unfolding opc_post_def by (metis prod.collapse)
  let ?n = "max 1 (or_else (ol_history limits) (length ids))"
  have whole: "concat (chunked ids ?n) = ids" by (simp add: concat_chunked)
  have batches: "\<forall>b \<in> set (chunked ids ?n). history_ids env node_of_id b \<and> distinct b"
  proof
    fix b
    assume b: "b \<in> set (chunked ids ?n)"
    then have "set b \<subseteq> set ids" using whole by (metis UN_upper set_concat)
    moreover have "distinct b" using b assms(3) whole by (metis distinct_concat_iff)
    ultimately show "history_ids env node_of_id b \<and> distinct b" using assms(2) by (auto simp: history_ids_def)
  qed
  obtain ds c2 where ds: "history_of_batches env period (chunked ids ?n) c1 = Some (Inr ds, c2)"
    "list_all2 (whole_history rest node_of_id) (chunked ids ?n) ds"
    using history_of_batches_pages [OF assms(1) batches] by blast
  have "read_history_values env ids period c =
      Some (Inr (foldl dict_merge [] ds), foldl (\<lambda>c' _. snd (record_history_read_success c')) c2 (foldl dict_merge [] ds))"
    using False by (simp add: read_history_values_def c0_def [symmetric] limits ds(1) [simplified] Let_def)
  then show ?thesis using whole_history_merged [OF ds(2), of "[]"] whole by (auto simp del: set_concat)
qed

section \<open>Writing\<close>

fun is_write :: "opc_event \<Rightarrow> bool" where
  "is_write (EWrite _ _ _) = True"
| "is_write _ = False"

text \<open>
  C30. A write is sent at most once, also when the connection is lost on the way, and it is reported as
  done exactly when the server accepted it and, read back, has the requested quality and time stamp.
\<close>

theorem write_is_sent_once_and_verified:
  assumes "write_value env node_id v variant_type quality timestamp c = (r, c')"
  shows "\<exists>added. oc_events c' = oc_events c @ added \<and> length (filter is_write added) \<le> 1
    \<and> (r = Inr () \<longleftrightarrow> (\<exists>node payload written.
          added = [EWrite node payload (Inr ()), EReadBack node (Inr written)]
          \<and> ua_parse_node env node_id = Inr node
          \<and> up_value payload = v \<and> up_source_timestamp payload = timestamp
          \<and> up_status payload = ua_quality_status_code env quality
          \<and> quality_from_status_code env (ud_status written) = Some quality
          \<and> ud_source_timestamp written = Some timestamp))"
proof -
  note defs = write_value_def get_node_def opc_bind_def opc_try_def opc_raise_def opc_return_def ask_def
    record_failed_request_def count_request_def opc_modify_def Let_def
  show ?thesis
  proof (cases "ua_parse_node env node_id")
    case (Inl exc)
    then show ?thesis using assms by (auto simp: defs)
  next
    case (Inr node)
    define payload where "payload = \<lparr>up_value = v, up_type = explicit_variant_type env v variant_type,
        up_status = ua_quality_status_code env quality, up_source_timestamp = timestamp\<rparr>"
    have fields: "up_value payload = v" "up_source_timestamp payload = timestamp"
      "up_status payload = ua_quality_status_code env quality"
      by (simp_all add: payload_def)
    define answer where "answer = ua_write env (oc_events c) node payload"
    show ?thesis
    proof (cases "quality \<in> {''Good'', ''Uncertain'', ''Bad'', ''GoodNoData''}")
      case False
      then show ?thesis using assms Inr by (auto simp: defs)
    next
      case True
      then have "(quality \<notin> {''Good'', ''Uncertain'', ''Bad'', ''GoodNoData''}) = False" by simp
      note run = assms [unfolded write_value_def this if_False]
      show ?thesis
      proof (cases answer)
        case (Inl exc)
        then show ?thesis
          using run Inr by (auto simp: defs payload_def [symmetric] answer_def [symmetric])
      next
        case accepted: (Inr u)
        define written where "written = ua_read_back env (oc_events c @ [EWrite node payload (Inr ())]) node"
        show ?thesis
          using run Inr accepted
          by (cases written)
            (auto simp: defs payload_def [symmetric] fields answer_def [symmetric] written_def [symmetric] split: if_splits)
      qed
    qed
  qed
qed

section \<open>A server to run it on\<close>

text \<open>
  The server of the witnesses: it knows every NodeId, refuses batches of more than two entries as too
  large, cannot read the value of node b, and serves two historical values per node in pages of one.
\<close>

definition plain_data :: "int \<Rightarrow> ua_data" where
  "plain_data k = \<lparr>ud_status = Some 0, ud_variant = Some (AValue (PInt k)), ud_source_timestamp = None, ud_server_timestamp = None\<rparr>"

definition demo_rest :: "string \<Rightarrow> string option \<Rightarrow> ua_data list" where
  "demo_rest node point = (if point = None then [plain_data 1, plain_data 2] else [plain_data 2])"

definition demo_page :: "string \<times> string option \<Rightarrow> history_result" where
  "demo_page entry = \<lparr>hr_check = None,
     hr_data_values = Some [if snd entry = None then plain_data 1 else plain_data 2],
     hr_continuation = (if snd entry = None then ''p'' else [])\<rparr>"

definition demo_opc :: opc_env where
  "demo_opc = \<lparr>ua_parse_node = Inr,
     ua_read_values = (\<lambda>es nodes. if ''b'' \<in> set nodes then Inl (OtherException ''bad node'') else Inr (map (\<lambda>_. PInt 1) nodes)),
     ua_read_value = (\<lambda>es node. Inr (PInt 1)), ua_read_data_value = (\<lambda>es node. Inr (plain_data 1)),
     ua_read_back = (\<lambda>es node. Inr (plain_data 1)), ua_read_browse_name = (\<lambda>es node. Inr None), ua_namespace_array = (\<lambda>es. Inr [''http://opcfoundation.org/UA/'']),
     ua_read_node_class = (\<lambda>es node. Inr ''Object''), ua_read_type_definition = (\<lambda>es node. Inr ''i=58''),
     ua_read_attributes = (\<lambda>es nodes attr.
       if length nodes \<le> 2 then Inr (map (\<lambda>_. plain_data 1) nodes) else Inl too_many_operations),
     ua_read = (\<lambda>es pairs. if length pairs \<le> 2 then Inr (map (\<lambda>_. plain_data 1) pairs) else Inl too_many_operations),
     ua_browse = (\<lambda>es params. Inr []), ua_browse_next = (\<lambda>es points. Inr []),
     ua_history_read = (\<lambda>es period entries.
       if length entries \<le> 2 then Inr (map demo_page entries) else Inl too_many_operations),
     ua_get_children = (\<lambda>es node. Inr []), ua_node_attributes = (\<lambda>es node attrs. Inr []),
     ua_write = (\<lambda>es node payload. Inr ()), ua_call_method = (\<lambda>es object method args. Inr PNone),
     ua_connected = (\<lambda>es. True), ua_wait_connected = (\<lambda>es. None), ua_clock = (\<lambda>es. 0),
     ua_is_good = (\<lambda>code. code = 0), ua_is_uncertain = (\<lambda>code. False), ua_status_name = (\<lambda>code. ''Good''),
     ua_quality_status_code = (\<lambda>quality. 0), ua_good_no_data = 0xA50000,
     ua_variant_type_known = (\<lambda>t. True), ua_text = (\<lambda>v. []), ua_data_text = (\<lambda>v. []),
     ua_objects_node = ''i=85'', ua_browse_roots = None, ua_parse_root = (\<lambda>root. Inr None),
     ua_timeout_text = ''10.0'', ua_metadata_ttl = 300\<rparr>"

definition new_client :: opc_client where
  "new_client = \<lparr>oc_events = [],
     oc_runtime = \<lparr>rm_browse_calls = 0, rm_browse_nodes = 0, rm_browse_initial_references = 0, rm_browse_next_calls = 0,
       rm_browse_next_references = 0, rm_read_calls = 0, rm_read_nodes = 0, rm_history_read_calls = 0,
       rm_history_read_nodes = 0, rm_browse_tree_calls = 0, rm_browse_tree_nodes_last = 0, rm_method_calls = 0\<rparr>,
     oc_requests = \<lparr>qm_read_count = 0, qm_write_count = 0, qm_browse_count = 0, qm_method_call_count = 0,
       qm_history_read_count = 0, qm_failed_request_count = 0\<rparr>,
     oc_limits = None, oc_reference_types = [], oc_type_hierarchies = []\<rparr>"

lemma demo_read_values: "fst (read_values demo_opc [''a'', ''b''] new_client) = Inr [PInt 1, PNone]"
  by code_simp

theorem read_values_answers_for_every_node_witness:
  "\<exists>c' added. read_values demo_opc [''a'', ''b''] new_client = (Inr [PInt 1, PNone], c') \<and> oc_events c' = added
     \<and> values_accounted demo_opc [''a'', ''b''] added (Inr [PInt 1, PNone])"
proof -
  obtain c' where c': "read_values demo_opc [''a'', ''b''] new_client = (Inr [PInt 1, PNone], c')"
    using demo_read_values by (metis fst_conv surj_pair)
  have "reads_aligned demo_opc" by (auto simp: reads_aligned_def demo_opc_def split: if_splits)
  from read_values_answers_for_every_node [OF this c'] c' show ?thesis by (auto simp: new_client_def)
qed

theorem request_limits_do_not_show_witness:
  "fst (read_data_values demo_opc [''a'', ''b'', ''c''] new_client) = Inr [plain_data 1, plain_data 1, plain_data 1]"
proof -
  have "limited_reads demo_opc 2 (\<lambda>_. plain_data 1)" by (simp add: limited_reads_def demo_opc_def)
  from request_limits_do_not_show [OF this, of "[''a'', ''b'', ''c'']" id new_client]
  show ?thesis by (simp add: demo_opc_def)
qed

theorem paged_history_is_complete_witness:
  "\<exists>d c'. read_history_values demo_opc [''a'', ''b'', ''c''] \<lparr>hg_start = None, hg_end = None\<rparr> new_client = Some (Inr d, c')
     \<and> dict_get d ''c'' = Some [plain_data 1, plain_data 2] \<and> dict_get d ''x'' = None"
proof -
  have "history_paged demo_opc demo_rest"
    by (auto simp: history_paged_def demo_opc_def demo_page_def demo_rest_def history_page_def list_all2_conv_all_nth
        split: prod.splits)
  moreover have "history_ids demo_opc id [''a'', ''b'', ''c'']" by (simp add: history_ids_def demo_opc_def)
  moreover have "distinct [''a'', ''b'', ''c'']" by simp
  ultimately obtain d c' where d: "read_history_values demo_opc [''a'', ''b'', ''c''] \<lparr>hg_start = None, hg_end = None\<rparr> new_client = Some (Inr d, c')"
    "\<forall>j. dict_get d j = (if j \<in> set [''a'', ''b'', ''c''] then Some (demo_rest (id j) None) else None)"
    using paged_history_is_complete by blast
  have "dict_get d ''c'' = Some [plain_data 1, plain_data 2]" "dict_get d ''x'' = None"
    using d(2) by (simp_all add: demo_rest_def)
  then show ?thesis using d(1) by blast
qed

lemma demo_write_value:
  "fst (write_value demo_opc ''a'' (PInt 1) None ''Good'' (UTC 2024 1 1 0 0 0 0) new_client) \<noteq> Inr ()"
  by code_simp

theorem write_is_sent_once_and_verified_witness:
  "\<exists>r c' added. write_value demo_opc ''a'' (PInt 1) None ''Good'' (UTC 2024 1 1 0 0 0 0) new_client = (r, c')
     \<and> oc_events c' = added \<and> length (filter is_write added) \<le> 1 \<and> r \<noteq> Inr ()"
proof -
  obtain r c' where w: "write_value demo_opc ''a'' (PInt 1) None ''Good'' (UTC 2024 1 1 0 0 0 0) new_client = (r, c')"
    by fastforce
  have "r \<noteq> Inr ()" using demo_write_value w by simp
  with write_is_sent_once_and_verified [OF w] w show ?thesis by (auto simp: new_client_def)
qed

end
