(* ===== verification/OpcBrowseProps.thy ===== *)
theory OpcBrowseProps
  imports OpcBrowse OpcReadProps
begin

text \<open>
  Properties of browsing: references are complete whatever pages they come in, and the walk over the
  address space returns and finds every node below the roots once, with all its references.
\<close>

section \<open>Operations that return\<close>

definition returns_run :: "'a \<Rightarrow> 'a opc_run \<Rightarrow> bool" where
  "returns_run x m \<longleftrightarrow> (\<forall>c. \<exists>c'. m c = Some (Inr x, c'))"

lemma returns_runI: "returns x m \<Longrightarrow> returns_run x (run m)"
  unfolding returns_def returns_run_def run_def by (metis prod.collapse)

lemma returns_run_return: "returns_run x (run (opc_return x))"
  by (simp add: returns_runI returns_basic)

lemma returns_run_bind: "returns_run x m \<Longrightarrow> returns_run y (f x) \<Longrightarrow> returns_run y (run_bind m f)"
  unfolding returns_run_def run_bind_def by (metis (no_types, lifting) case_prod_conv option.simps(5) sum.simps(6))

lemma returns_run_limits: "(\<And>limits. returns_run y (f limits)) \<Longrightarrow> returns_run y (run_bind (run (get_operational_limits env)) f)"
proof -
  assume f: "\<And>limits. returns_run y (f limits)"
  show ?thesis
    unfolding returns_run_def
  proof
    fix c
    obtain limits c1 where "get_operational_limits env c = (Inr limits, c1)"
      using post_limits [of env] unfolding opc_post_def by (metis prod.collapse)
    then show "\<exists>c'. run_bind (run (get_operational_limits env)) f c = Some (Inr y, c')"
      using f [of limits] by (simp add: run_bind_def run_def returns_run_def)
  qed
qed

lemma returns_run_map: "(\<And>x. x \<in> set xs \<Longrightarrow> returns_run (g x) (f x)) \<Longrightarrow> returns_run (map g xs) (run_map f xs)"
proof (induction xs)
  case (Cons x xs)
  then have "returns_run (g x # map g xs) (run_bind (f x) (\<lambda>y. run_bind (run_map f xs) (\<lambda>ys. run (opc_return (y # ys)))))"
    by (intro returns_run_bind [OF Cons.prems returns_run_bind [OF Cons.IH returns_run_return]]) auto
  then show ?case by (simp add: returns_run_def)
qed (simp add: returns_run_def)

lemma returns_run_chunked:
  assumes "\<And>b. b \<in> set (chunked xs n) \<Longrightarrow> returns_run (map g b) (f b)" "0 < n"
  shows "returns_run (map g xs) (run_bind (run_map f (chunked xs n)) (\<lambda>yss. run (opc_return (concat yss))))"
proof -
  have "map g xs = concat (map (map g) (chunked xs n))" using concat_chunked [OF assms(2), of xs] by (simp add: map_concat [symmetric])
  then show ?thesis by (rule ssubst) (rule returns_run_bind [OF returns_run_map [OF assms(1)] returns_run_return])
qed

section \<open>Paged references\<close>

text \<open>
  What a server with continuation points documents: every answer carries the first of the references
  that are left, and a point from which the others can be had, if there are any.
\<close>

definition reference_page :: "(string \<Rightarrow> ref_description list) \<Rightarrow> ref_description list \<Rightarrow> browse_answer \<Rightarrow> bool" where
  "reference_page rest refs r \<longleftrightarrow>
     refs = ba_references r @ (if ba_continuation r = [] then [] else rest (ba_continuation r))
     \<and> (ba_continuation r \<noteq> [] \<longrightarrow> ba_references r \<noteq> [])"

definition browse_paged ::
  "opc_env \<Rightarrow> (nat \<Rightarrow> browse_direction \<Rightarrow> bool \<Rightarrow> string \<Rightarrow> ref_description list) \<Rightarrow> (string \<Rightarrow> ref_description list) \<Rightarrow> bool" where
  "browse_paged env refs_of rest \<longleftrightarrow>
     (\<forall>es params. \<exists>results. ua_browse env es params = Inr results \<and>
        list_all2 (\<lambda>node r. reference_page rest (refs_of (bp_type params) (bp_direction params) (bp_subtypes params) node) r)
          (bp_nodes params) results)
     \<and> (\<forall>es points. \<exists>results. ua_browse_next env es points = Inr results \<and>
        list_all2 (\<lambda>point r. reference_page rest (rest point) r) points results)"

lemma recorded_state: "\<exists>c'. recorded env results c = (Inr results, c')"
  by (simp add: recorded_def record_browse_results_def count_request_def record_failed_request_def opc_bind_def
      opc_modify_def opc_return_def)

lemma asked_once:
  assumes "\<And>es. \<exists>results. answer es = Inr results \<and> P results"
  shows "\<exists>results c'. opc_try (ask answer event) h (recorded env) c = (Inr results, c') \<and> P results"
proof -
  obtain results where r: "answer (oc_events c) = Inr results" "P results" using assms by blast
  have "\<exists>c'. opc_try (ask answer event) h (recorded env) c = (Inr results, c')"
    using recorded_state [of env results] r(1) by (simp add: opc_try_def ask_def Let_def)
  then show ?thesis using r(2) by blast
qed

lemma browse_with_retry_paged:
  assumes "browse_paged env refs_of rest"
  shows "\<exists>results c'. browse_with_retry env params c = (Inr results, c') \<and>
    list_all2 (\<lambda>node r. reference_page rest (refs_of (bp_type params) (bp_direction params) (bp_subtypes params) node) r)
      (bp_nodes params) results"
  unfolding browse_with_retry_def ask_browse_def
  by (rule asked_once) (use assms in \<open>simp add: browse_paged_def\<close>)

lemma browse_next_with_retry_paged:
  assumes "browse_paged env refs_of rest"
  shows "\<exists>results c'. browse_next_with_retry env points c = (Inr results, c') \<and>
    list_all2 (\<lambda>point r. reference_page rest (rest point) r) points results"
  unfolding browse_next_with_retry_def ask_browse_next_def
  by (rule asked_once) (use assms in \<open>simp add: browse_paged_def\<close>)

text \<open>
  The references that are still to come: of the entry for position \<open>k\<close>, what its point stands for.
\<close>

definition to_come :: "(string \<Rightarrow> ref_description list) \<Rightarrow> (nat \<times> string) list \<Rightarrow> nat \<Rightarrow> ref_description list" where
  "to_come rest entries k = (case map_of entries k of None \<Rightarrow> [] | Some point \<Rightarrow> rest point)"

lemma extend_step:
  assumes "distinct (map fst entries)" "\<And>k p. (k, p) \<in> set entries \<Longrightarrow> k < length refs"
    "list_all2 (\<lambda>(_, point) r. reference_page rest (rest point) r) entries results"
  shows "length (extend_references entries results refs) = length refs"
    and "k < length refs \<Longrightarrow> refs ! k @ to_come rest entries k =
      extend_references entries results refs ! k @ to_come rest (next_entries entries results) k"
proof -
  have "length (extend_references entries results refs) = length refs \<and>
    (\<forall>k < length refs. refs ! k @ to_come rest entries k =
      extend_references entries results refs ! k @ to_come rest (next_entries entries results) k)"
    using assms(3,1,2)
  proof (induction entries results arbitrary: refs rule: list_all2_induct)
    case Nil
    show ?case by (simp add: extend_references_def next_entries_def to_come_def)
  next
    case (Cons e entries r results)
    obtain k0 p0 where e: "e = (k0, p0)" by fastforce
    let ?refs = "refs[k0 := refs ! k0 @ ba_references r]"
    have k0: "k0 < length refs" "k0 \<notin> fst ` set entries" using Cons.prems e by auto
    have IH: "length (extend_references entries results ?refs) = length refs"
      "\<And>k. k < length refs \<Longrightarrow> ?refs ! k @ to_come rest entries k =
        extend_references entries results ?refs ! k @ to_come rest (next_entries entries results) k"
      using Cons.IH [of ?refs] Cons.prems e by auto
    have page: "rest p0 = ba_references r @ (if ba_continuation r = [] then [] else rest (ba_continuation r))"
      using Cons.hyps(1) e by (simp add: reference_page_def)
    have "fst ` set (next_entries entries results) \<subseteq> fst ` set entries"
      by (force simp: next_entries_def dest: set_zip_leftD)
    then have "map_of entries k0 = None" "map_of (next_entries entries results) k0 = None"
      using k0(2) by (auto simp: map_of_eq_None_iff)
    then have gone: "to_come rest entries k0 = []" "map_of (next_entries entries results) k0 = None"
      by (simp_all add: to_come_def)
    have ext: "extend_references (e # entries) (r # results) refs = extend_references entries results ?refs"
      by (simp add: extend_references_def e)
    have step: "next_entries (e # entries) (r # results) =
        (if ba_continuation r = [] then [] else [(k0, ba_continuation r)]) @ next_entries entries results"
      by (simp add: next_entries_def e)
    show ?case
    proof (intro conjI allI impI)
      show "length (extend_references (e # entries) (r # results) refs) = length refs" using ext IH(1) by simp
      fix k
      assume k: "k < length refs"
      show "refs ! k @ to_come rest (e # entries) k =
          extend_references (e # entries) (r # results) refs ! k @ to_come rest (next_entries (e # entries) (r # results)) k"
      proof (cases "k = k0")
        case True
        have "extend_references entries results ?refs ! k0 = refs ! k0 @ ba_references r"
          using IH(2) [OF k0(1)] gone k0(1) by (simp add: to_come_def)
        then show ?thesis using True gone page unfolding ext step by (simp add: e to_come_def)
      next
        case False
        then show ?thesis using IH(2) [OF k] k unfolding ext step by (simp add: e to_come_def)
      qed
    qed
  qed
  then show "length (extend_references entries results refs) = length refs"
    "k < length refs \<Longrightarrow> refs ! k @ to_come rest entries k =
      extend_references entries results refs ! k @ to_come rest (next_entries entries results) k"
    by blast+
qed

lemma next_entries_Cons:
  "next_entries ((k, p) # entries) (r # results) =
     (if ba_continuation r = [] then [] else [(k, ba_continuation r)]) @ next_entries entries results"
  by (simp add: next_entries_def)

lemma next_entries_facts:
  assumes "distinct (map fst entries)"
  shows "distinct (map fst (next_entries entries results))"
    and "set (map fst (next_entries entries results)) \<subseteq> set (map fst entries)"
proof -
  show sub: "set (map fst (next_entries entries results)) \<subseteq> set (map fst entries)" for entries :: "(nat \<times> string) list" and results
    by (force simp: next_entries_def dest: set_zip_leftD)
  show "distinct (map fst (next_entries entries results))"
    using assms
  proof (induction entries arbitrary: results)
    case (Cons e entries)
    obtain k p where e: "e = (k, p)" by fastforce
    show ?case
    proof (cases results)
      case (Cons r rs)
      then show ?thesis using Cons.prems Cons.IH [of rs] sub [of entries rs] by (auto simp: e next_entries_Cons)
    qed (simp add: next_entries_def)
  qed (simp add: next_entries_def)
qed

lemma continue_browse_done: "continue_browse env [] refs c = Some (Inr refs, c)"
  by (simp add: continue_browse.simps)

text \<open>Each round but the last brings at least one reference per entry that goes on.\<close>

lemma to_come_shrinks:
  assumes "distinct (map fst entries)" "list_all2 (\<lambda>(_, point) r. reference_page rest (rest point) r) entries results"
    and "k \<in> set (map fst (next_entries entries results))"
  shows "length (to_come rest (next_entries entries results) k) < length (to_come rest entries k)"
proof -
  obtain p r where pr: "((k, p), r) \<in> set (zip entries results)" "ba_continuation r \<noteq> []"
    using assms(3) by (auto simp: next_entries_def)
  have "(k, p) \<in> set entries" using pr(1) by (rule set_zip_leftD)
  then have now: "to_come rest entries k = rest p" using assms(1) by (simp add: to_come_def)
  have "(k, ba_continuation r) \<in> set (next_entries entries results)"
    using pr by (force simp: next_entries_def)
  then have later: "to_come rest (next_entries entries results) k = rest (ba_continuation r)"
    using next_entries_facts(1) [OF assms(1), of results] by (simp add: to_come_def)
  have "reference_page rest (rest p) r"
    using assms(2) pr(1) unfolding list_all2_iff by auto
  then show ?thesis using pr(2) now later by (simp add: reference_page_def)
qed

lemma continue_browse_paged:
  assumes paged: "browse_paged env refs_of rest"
  shows "distinct (map fst entries) \<Longrightarrow> (\<And>k p. (k, p) \<in> set entries \<Longrightarrow> k < length refs) \<Longrightarrow>
    \<exists>c'. continue_browse env entries refs c = Some (Inr (map (\<lambda>k. refs ! k @ to_come rest entries k) [0..<length refs]), c')"
proof (induction "\<Sum>k \<in> set (map fst entries). length (to_come rest entries k)" arbitrary: entries refs c rule: less_induct)
  case less
  show ?case
  proof (cases "entries = []")
    case True
    then show ?thesis by (simp add: continue_browse.simps to_come_def map_nth)
  next
    case False
    obtain results c1 where asked: "browse_next_with_retry env (map snd entries) c = (Inr results, c1)"
      "list_all2 (\<lambda>point r. reference_page rest (rest point) r) (map snd entries) results"
      using browse_next_with_retry_paged [OF paged] by blast
    have pages: "list_all2 (\<lambda>(_, point) r. reference_page rest (rest point) r) entries results"
      using asked(2) unfolding list_all2_map1 by (rule list_all2_mono) auto
    let ?next = "next_entries entries results" and ?refs = "extend_references entries results refs"
    obtain c2 where counted: "opc_bind (browse_next_with_retry env (map snd entries))
        (\<lambda>results. opc_bind count_browse_next (\<lambda>_. opc_return results)) c = (Inr results, c2)"
      using asked(1) by (simp add: opc_bind_def count_browse_next_def count_runtime_def opc_modify_def opc_return_def)
    have step: "continue_browse env entries refs c = continue_browse env ?next ?refs (snd (count_next_references results c2))"
      using False counted list_all2_lengthD [OF pages] by (simp add: continue_browse.simps [of env entries])
    note facts = next_entries_facts [OF less.prems(1), of results]
    note ext = extend_step [OF less.prems(1) less.prems(2) pages]
    have bound: "k < length ?refs" if h: "(k, p) \<in> set ?next" for k p
    proof -
      have "k \<in> set (map fst entries)" using facts(2) h by force
      then show ?thesis using less.prems(2) ext(1) by auto
    qed
    have joined: "map (\<lambda>k. ?refs ! k @ to_come rest ?next k) [0..<length ?refs] = map (\<lambda>k. refs ! k @ to_come rest entries k) [0..<length refs]"
      using ext by auto
    have "(\<Sum>k \<in> set (map fst ?next). length (to_come rest ?next k)) < (\<Sum>k \<in> set (map fst entries). length (to_come rest entries k))
        \<or> ?next = []"
    proof (cases "?next = []")
      case more: False
      have "(\<Sum>k \<in> set (map fst ?next). length (to_come rest ?next k)) < (\<Sum>k \<in> set (map fst ?next). length (to_come rest entries k))"
        using to_come_shrinks [OF less.prems(1) pages] more by (intro sum_strict_mono) auto
      also have "\<dots> \<le> (\<Sum>k \<in> set (map fst entries). length (to_come rest entries k))"
        using facts(2) by (intro sum_mono2) auto
      finally show ?thesis by blast
    qed simp
    then show ?thesis
    proof
      assume "?next = []"
      moreover from this have "?refs = map (\<lambda>k. refs ! k @ to_come rest entries k) [0..<length refs]"
        using joined by (simp add: to_come_def map_nth)
      ultimately show ?thesis unfolding step by (simp add: continue_browse_done)
    next
      assume "(\<Sum>k \<in> set (map fst ?next). length (to_come rest ?next k)) < (\<Sum>k \<in> set (map fst entries). length (to_come rest entries k))"
      from less.hyps [OF this facts(1) bound] show ?thesis unfolding step joined .
    qed
  qed
qed

lemma first_entries_facts:
  "distinct (map fst (first_entries results))" "(k, p) \<in> set (first_entries results) \<Longrightarrow> k < length results"
  "map_of (first_entries results) k =
     (if k < length results \<and> ba_continuation (results ! k) \<noteq> [] then Some (ba_continuation (results ! k)) else None)"
proof -
  have fst_first: "map fst (first_entries results) = map fst (filter (\<lambda>(_, r). ba_continuation r \<noteq> []) (enumerate 0 results))"
    by (simp add: first_entries_def comp_def case_prod_beta)
  show d: "distinct (map fst (first_entries results))"
    unfolding fst_first by (rule distinct_map_filter) simp
  have mem: "(k, p) \<in> set (first_entries results) \<longleftrightarrow> k < length results \<and> p = ba_continuation (results ! k) \<and> p \<noteq> []" for k p
    by (force simp: first_entries_def in_set_enumerate_eq)
  then show "(k, p) \<in> set (first_entries results) \<Longrightarrow> k < length results" by simp
  show "map_of (first_entries results) k =
     (if k < length results \<and> ba_continuation (results ! k) \<noteq> [] then Some (ba_continuation (results ! k)) else None)"
  proof (cases "k < length results \<and> ba_continuation (results ! k) \<noteq> []")
    case True
    then have "(k, ba_continuation (results ! k)) \<in> set (first_entries results)" using mem by simp
    then show ?thesis using True map_of_is_SomeI [OF d] by simp
  next
    case False
    then have "k \<notin> fst ` set (first_entries results)" using mem by auto
    then have "map_of (first_entries results) k = None" by (simp add: map_of_eq_None_iff)
    then show ?thesis using False by auto
  qed
qed

lemma browse_batch_paged:
  assumes paged: "browse_paged env refs_of rest"
  shows "returns_run (map (\<lambda>n. (n, refs_of t d s n)) nodes) (browse_batch env t d s nodes)"
  unfolding returns_run_def
proof
  fix c
  let ?params = "\<lparr>bp_nodes = nodes, bp_type = t, bp_direction = d, bp_subtypes = s\<rparr>"
  obtain results c1 where asked: "browse_with_retry env ?params (snd (count_browse (length nodes) c)) = (Inr results, c1)"
    "list_all2 (\<lambda>node r. reference_page rest (refs_of t d s node) r) nodes results"
    using browse_with_retry_paged [OF paged, of ?params "snd (count_browse (length nodes) c)"]
    by (elim exE conjE) (rule that, simp_all)
  note len = list_all2_lengthD [OF asked(2)]
  let ?c2 = "snd (count_initial_references results c1)"
  have first: "opc_bind (count_browse (length nodes)) (\<lambda>_. opc_bind (browse_with_retry env ?params)
         (\<lambda>results. opc_bind (count_initial_references results)
         (\<lambda>_. if length results \<noteq> length nodes
              then opc_raise (OtherException ''zip() arguments differ in length'')
              else opc_return results))) c = (Inr results, ?c2)"
    using asked(1) len
    by (simp add: opc_bind_def count_browse_def count_runtime_def opc_modify_def opc_return_def count_initial_references_def)
  have "\<exists>c'. continue_browse env (first_entries results) (map ba_references results) ?c2 =
    Some (Inr (map (\<lambda>k. map ba_references results ! k @ to_come rest (first_entries results) k) [0..<length (map ba_references results)]), c')"
    by (rule continue_browse_paged [OF paged first_entries_facts(1)]) (simp add: first_entries_facts(2))
  moreover have "map (\<lambda>k. map ba_references results ! k @ to_come rest (first_entries results) k) [0..<length (map ba_references results)]
      = map (refs_of t d s) nodes"
  proof (rule nth_equalityI)
    fix k
    assume "k < length (map (\<lambda>k. map ba_references results ! k @ to_come rest (first_entries results) k) [0..<length (map ba_references results)])"
    then have k: "k < length results" by simp
    then have "reference_page rest (refs_of t d s (nodes ! k)) (results ! k)"
      using asked(2) by (simp add: list_all2_conv_all_nth)
    then show "map (\<lambda>k. map ba_references results ! k @ to_come rest (first_entries results) k) [0..<length (map ba_references results)] ! k
      = map (refs_of t d s) nodes ! k"
      using k len by (auto simp: to_come_def first_entries_facts(3) reference_page_def)
  qed (simp add: len)
  ultimately obtain c' where "continue_browse env (first_entries results) (map ba_references results) ?c2 = Some (Inr (map (refs_of t d s) nodes), c')"
    by auto
  then have "browse_batch env t d s nodes c = Some (Inr (zip nodes (map (refs_of t d s) nodes)), c')"
    unfolding browse_batch_def by (simp add: run_bind_def run_def first opc_return_def)
  moreover have "zip nodes (map (refs_of t d s) nodes) = map (\<lambda>n. (n, refs_of t d s n)) nodes"
    by (induction nodes) auto
  ultimately show "\<exists>c'. browse_batch env t d s nodes c = Some (Inr (map (\<lambda>n. (n, refs_of t d s n)) nodes), c')"
    by auto
qed

text \<open>
  C27. Browsing is complete whatever pages and batches it takes: against a server that serves references
  in pages with continuation points, \<open>_browse_references_descriptions\<close> returns, with every requested
  node in order and all the references the server has for it, in the server's order.
\<close>

theorem paged_references_are_complete:
  assumes "browse_paged env refs_of rest"
  shows "\<exists>c'. browse_references_descriptions env nodes limit t d s c = Some (Inr (map (\<lambda>n. (n, refs_of t d s n)) nodes), c')"
proof -
  have "returns_run (map (\<lambda>n. (n, refs_of t d s n)) nodes) (browse_references_descriptions env nodes limit t d s)"
    unfolding browse_references_descriptions_def
    by (auto intro!: returns_run_chunked browse_batch_paged [OF assms] simp: returns_run_return)
  then show ?thesis by (simp add: returns_run_def)
qed

section \<open>The attributes of the browsed nodes\<close>

text \<open>
  A server that reads and browses without failing: \<open>stored\<close> are its attributes, and it has the names and
  the class of every node in \<open>nodes\<close> and the name of every type of reference between them.
\<close>

definition ten_values :: "(string \<times> nat \<Rightarrow> ua_data) \<Rightarrow> string \<Rightarrow> ua_data list" where
  "ten_values stored node = map (\<lambda>attr. stored (node, attr)) node_info_attributes"

definition type_named :: "opc_env \<Rightarrow> (string \<times> nat \<Rightarrow> ua_data) \<Rightarrow> string \<Rightarrow> string \<Rightarrow> bool" where
  "type_named env stored t name \<longleftrightarrow> ua_parse_node env t = Inr t \<and> name \<noteq> []
     \<and> extract_attribute_value env (stored (t, AttrBrowseName)) = Some (AName (Some name))"

definition type_of_node ::
  "(nat \<Rightarrow> browse_direction \<Rightarrow> bool \<Rightarrow> string \<Rightarrow> ref_description list) \<Rightarrow> string \<Rightarrow> string option" where
  "type_of_node refs_of node =
     (case refs_of HasTypeDefinition Forward True node of
        [] \<Rightarrow> None
      | r # _ \<Rightarrow> normalize_type_definition_id (normalize_type_definition_id (Some (rd_node_id r))))"

definition described_node ::
  "opc_env \<Rightarrow> (nat \<Rightarrow> browse_direction \<Rightarrow> bool \<Rightarrow> string \<Rightarrow> ref_description list) \<Rightarrow> (string \<times> nat \<Rightarrow> ua_data)
   \<Rightarrow> string \<times> string option \<Rightarrow> OpcUaNodeInfo" where
  "described_node env refs_of stored entry =
     (case mandatory env (ten_values stored (fst entry)) of
        Some (browse_name, display_name, node_class) \<Rightarrow>
          node_info env (fst entry) (snd entry) browse_name display_name node_class
            (if node_class \<in> {''Object'', ''Variable''} then type_of_node refs_of (fst entry) else None)
            (ten_values stored (fst entry))
      | None \<Rightarrow> node_info env (fst entry) (snd entry) [] [] [] None [])"

lemma described_fields [simp]:
  "oi_node_id (described_node env refs_of stored entry) = fst entry"
  "oi_parent_node_id (described_node env refs_of stored entry) = snd entry"
  by (auto simp: described_node_def node_info_def split: option.splits)

lemma split_ten_values:
  "split_values (length node_info_attributes)
     (map stored (concat (map (\<lambda>(node, _). map (\<lambda>attr. (node, attr)) node_info_attributes) entries))) entries
   = map (\<lambda>e. (e, ten_values stored (fst e))) entries"
proof (induction entries)
  case (Cons e entries)
  have "map stored (map (\<lambda>attr. (fst e, attr)) node_info_attributes) = ten_values stored (fst e)"
    by (simp add: ten_values_def)
  moreover have "length (ten_values stored (fst e)) = length node_info_attributes" by (simp add: ten_values_def)
  ultimately show ?case using Cons.IH by (simp add: case_prod_beta)
qed simp

lemma read_type_definitions_paged:
  assumes "browse_paged env refs_of rest"
  shows "\<exists>d. returns_run d (read_type_definitions env nodes) \<and>
    (\<forall>node. dict_get_def d node None = (if node \<in> set nodes \<and> refs_of HasTypeDefinition Forward True node \<noteq> []
       then normalize_type_definition_id (Some (rd_node_id (hd (refs_of HasTypeDefinition Forward True node)))) else None))"
proof (cases "nodes = []")
  case True
  then show ?thesis by (auto simp: read_type_definitions_def dict_get_def_def intro: returns_run_return)
next
  case False
  let ?refs = "refs_of HasTypeDefinition Forward True"
  let ?rows = "[(node, normalize_type_definition_id (Some (rd_node_id (hd refs)))). (node, refs) \<leftarrow> map (\<lambda>n. (n, ?refs n)) nodes, refs \<noteq> []]"
  have "returns_run (map (\<lambda>n. (n, ?refs n)) nodes) (browse_references_descriptions env nodes k HasTypeDefinition Forward True)" for k
    using paged_references_are_complete [OF assms] by (simp add: returns_run_def)
  then have "returns_run (dict_of_list ?rows) (read_type_definitions env nodes)"
    unfolding read_type_definitions_def using False
    by (auto intro!: returns_run_limits returns_run_bind returns_run_return)
  moreover have "dict_get_def (dict_of_list ?rows) node None = (if node \<in> set nodes \<and> ?refs node \<noteq> []
       then normalize_type_definition_id (Some (rd_node_id (hd (?refs node)))) else None)" for node
  proof -
    have "map_of (List.rev ?rows) node = Some v \<Longrightarrow> v = normalize_type_definition_id (Some (rd_node_id (hd (?refs node)))) \<and> node \<in> set nodes \<and> ?refs node \<noteq> []" for v
      by (auto dest!: map_of_SomeD)
    moreover have "map_of (List.rev ?rows) node \<noteq> None" if "node \<in> set nodes" "?refs node \<noteq> []"
      using that by (auto simp: map_of_eq_None_iff image_iff)
    ultimately show ?thesis by (auto simp: dict_get_def_def dict_get_of_list split: option.splits)
  qed
  ultimately show ?thesis by blast
qed

lemma typed_nodes_mem:
  "x \<in> set (typed_nodes env (map (\<lambda>e. (e, f (fst e))) entries)) \<longleftrightarrow>
     (\<exists>e \<in> set entries. x = fst e \<and> (case mandatory env (f (fst e)) of
        Some (_, _, node_class) \<Rightarrow> node_class \<in> {''Object'', ''Variable''} | None \<Rightarrow> False))"
proof (induction entries)
  case (Cons e entries)
  obtain node parent where e: "e = (node, parent)" by fastforce
  have "typed_nodes env (map (\<lambda>e. (e, f (fst e))) (e # entries)) =
      (case mandatory env (f node) of
         Some (_, _, node_class) \<Rightarrow> if node_class \<in> {''Object'', ''Variable''} then [node] else []
       | None \<Rightarrow> []) @ typed_nodes env (map (\<lambda>e. (e, f (fst e))) entries)"
    by (auto simp: typed_nodes_def e List.map_filter_simps split: option.splits)
  then show ?case using Cons.IH by (auto simp: e split: option.splits if_splits)
qed (simp add: typed_nodes_def List.map_filter_simps)

lemma node_infos_server:
  assumes paged: "browse_paged env refs_of rest" and limited: "limited_reads env n stored"
    and complete: "\<And>e. e \<in> set entries \<Longrightarrow> mandatory env (ten_values stored (fst e)) \<noteq> None"
  shows "returns_run (map (described_node env refs_of stored) entries) (node_infos_of_batch env entries)"
proof -
  let ?rows = "map (\<lambda>e. (e, ten_values stored (fst e))) entries"
  let ?pairs = "concat (map (\<lambda>(node, _). map (\<lambda>attr. (node, attr)) node_info_attributes) entries)"
  have incomplete: "incomplete env ?rows = []"
    using complete by (auto simp: incomplete_def filter_map comp_def filter_empty_conv)
  obtain d where d: "returns_run d (read_type_definitions env (typed_nodes env ?rows))"
    "\<And>node. dict_get_def d node None = (if node \<in> set (typed_nodes env ?rows) \<and> refs_of HasTypeDefinition Forward True node \<noteq> []
       then normalize_type_definition_id (Some (rd_node_id (hd (refs_of HasTypeDefinition Forward True node)))) else None)"
    using read_type_definitions_paged [OF paged] by blast
  have typed: "fst e \<in> set (typed_nodes env ?rows) \<longleftrightarrow> node_class \<in> {''Object'', ''Variable''}"
    if "e \<in> set entries" "mandatory env (ten_values stored (fst e)) = Some (browse_name, display_name, node_class)"
    for e browse_name display_name node_class
    using that by (auto simp: typed_nodes_mem [of _ _ "ten_values stored"])
  have row: "(case mandatory env (ten_values stored (fst e)) of
         None \<Rightarrow> None
       | Some (browse_name, display_name, node_class) \<Rightarrow>
           Some (node_info env (fst e) (snd e) browse_name display_name node_class
             (normalize_type_definition_id (dict_get_def d (fst e) None)) (ten_values stored (fst e)))) = Some (described_node env refs_of stored e)"
    if e: "e \<in> set entries" for e
  proof -
    obtain browse_name display_name node_class where m:
      "mandatory env (ten_values stored (fst e)) = Some (browse_name, display_name, node_class)"
      using complete [OF e] by auto
    have "normalize_type_definition_id (dict_get_def d (fst e) None) =
        (if node_class \<in> {''Object'', ''Variable''} then type_of_node refs_of (fst e) else None)"
      unfolding d(2) typed [OF e m]
      by (cases "refs_of HasTypeDefinition Forward True (fst e)") (auto simp: type_of_node_def normalize_type_definition_id_def)
    then show ?thesis by (simp add: m described_node_def)
  qed
  have infos: "infos_of_values env (map (\<lambda>e. (e, ten_values stored (fst e))) es) d = map (described_node env refs_of stored) es"
    if "set es \<subseteq> set entries" for es
    using that
  proof (induction es)
    case (Cons e es)
    obtain node parent where e: "e = (node, parent)" by fastforce
    have "infos_of_values env (map (\<lambda>e. (e, ten_values stored (fst e))) es) d = map (described_node env refs_of stored) es"
      using Cons by simp
    then show ?case
      using row [of "(node, parent)", unfolded fst_conv snd_conv] Cons.prems
      unfolding e infos_of_values_def by (simp add: List.map_filter_simps)
  qed (simp add: infos_of_values_def List.map_filter_simps)
  have "infos_of_values env ?rows d = map (described_node env refs_of stored) entries" by (rule infos) simp
  then have "returns_run (map (described_node env refs_of stored) entries) (infos_of_rows env ?rows)"
    unfolding infos_of_rows_def incomplete
    by (auto intro!: returns_run_bind [OF d(1)] returns_run_bind [OF returns_run_return] simp: returns_run_return)
  then show ?thesis
    unfolding node_infos_of_batch_def
    by (intro returns_run_bind [OF returns_runI [OF returns_try [OF read_attribute_pairs_server [OF limited] returns_basic(1)]]])
      (simp add: split_ten_values)
qed

lemma read_node_infos_server:
  assumes paged: "browse_paged env refs_of rest" and limited: "limited_reads env n stored"
    and complete: "\<And>e. e \<in> set entries \<Longrightarrow> mandatory env (ten_values stored (fst e)) \<noteq> None"
  shows "returns_run (map (described_node env refs_of stored) entries) (read_node_infos_limited env entries)"
proof -
  have "returns_run (map (described_node env refs_of stored) b) (node_infos_of_batch env b)"
    if b: "b \<in> set (chunked entries k)" "0 < k" for b k
  proof (rule node_infos_server [OF paged limited])
    fix e
    assume "e \<in> set b"
    then have "e \<in> set entries" using b concat_chunked [OF b(2), of entries] by (metis UN_I set_concat)
    then show "mandatory env (ten_values stored (fst e)) \<noteq> None" by (rule complete)
  qed
  then show ?thesis
    unfolding read_node_infos_limited_def
    by (auto intro!: returns_run_limits returns_run_chunked simp: returns_run_return)
qed

section \<open>The names of the reference types\<close>

definition names_ok :: "(string \<Rightarrow> string) \<Rightarrow> (string, string) dict \<Rightarrow> bool" where
  "names_ok type_name names \<longleftrightarrow> (\<forall>t name. dict_get names t = Some name \<longrightarrow> name = type_name t)"

lemma add_type_names_ok:
  assumes "\<And>t. t \<in> set ts \<Longrightarrow> type_named env stored t (type_name t)" "names_ok type_name names"
  shows "\<exists>names'. add_type_names env (zip ts (map (\<lambda>t. stored (t, AttrBrowseName)) ts)) names = Inr names'
    \<and> names_ok type_name names' \<and> set (dict_keys names') = set (dict_keys names) \<union> set ts"
  using assms
proof (induction ts arbitrary: names)
  case (Cons t ts)
  have t: "type_name t \<noteq> []" "extract_attribute_value env (stored (t, AttrBrowseName)) = Some (AName (Some (type_name t)))"
    using Cons.prems(1) [of t] by (simp_all add: type_named_def)
  have "names_ok type_name (dict_set t (type_name t) names)" using Cons.prems(2) by (auto simp: names_ok_def)
  then show ?case using Cons.IH [of "dict_set t (type_name t) names"] Cons.prems(1) t by (auto simp: insert_absorb)
qed simp

lemma read_reference_type_names_server:
  assumes limited: "limited_reads env n stored"
    and named: "\<And>r. r \<in> set refs \<Longrightarrow> type_named env stored (rd_type_id r) (type_name (rd_type_id r))"
    and ok: "names_ok type_name names"
  shows "\<exists>names'. returns names' (read_reference_type_browse_names env refs names)
    \<and> names_ok type_name names' \<and> set (map rd_type_id refs) \<subseteq> set (dict_keys names')"
proof -
  let ?ts = "unnamed_types refs names"
  have ts: "set ?ts = set (map rd_type_id refs) - set (dict_keys names)" by (auto simp: unnamed_types_def)
  have types: "type_named env stored t (type_name t)" if "t \<in> set ?ts" for t
    using named that ts by auto
  obtain names' where names': "add_type_names env (zip ?ts (map (\<lambda>t. stored (t, AttrBrowseName)) ?ts)) names = Inr names'"
    "names_ok type_name names'" "set (dict_keys names') = set (dict_keys names) \<union> set ?ts"
    using add_type_names_ok [OF types ok] by blast
  have "returns (map (\<lambda>t. t) ?ts) (get_nodes env ?ts)"
    by (rule returns_get_nodes) (use types in \<open>simp add: type_named_def\<close>)
  then have nodes: "returns ?ts (get_nodes env ?ts)" by simp
  have read: "returns (map (\<lambda>node. stored (node, AttrBrowseName)) ?ts) (read_attribute_batch_limited env AttrBrowseName ?ts)"
    unfolding read_attribute_batch_limited_def
    by (auto intro!: returns_basic returns_limits read_attribute_batches_server [OF limited])
  have "returns names' (read_reference_type_browse_names env refs names)"
  proof (cases "?ts = []")
    case True
    then show ?thesis using names'(1) by (simp add: read_reference_type_browse_names_def returns_basic)
  next
    case False
    show ?thesis
      unfolding read_reference_type_browse_names_def Let_def if_not_P [OF False]
      by (rule returns_bind [OF nodes], rule returns_bind [OF read]) (simp add: names'(1) returns_basic)
  qed
  then show ?thesis using names' ts by blast
qed

section \<open>The walk\<close>

definition visit_one :: "(string \<times> string option) list \<times> string list \<Rightarrow> string \<times> string option
    \<Rightarrow> (string \<times> string option) list \<times> string list" where
  "visit_one = (\<lambda>(entries, visited) (node, parent).
     if node \<in> set visited then (entries, visited) else (entries @ [(node, parent)], visited @ [node]))"

lemma first_visits_spec:
  "\<exists>entries. first_visits batch visited = (entries, visited @ map fst entries) \<and> distinct (map fst entries)
     \<and> set entries \<subseteq> set batch \<and> set (map fst entries) = set (map fst batch) - set visited"
proof -
  have "\<exists>added. foldl visit_one (entries, visited) batch = (entries @ added, visited @ map fst added)
      \<and> distinct (map fst added) \<and> set added \<subseteq> set batch \<and> set (map fst added) = set (map fst batch) - set visited"
    for entries visited
  proof (induction batch arbitrary: entries visited)
    case (Cons e batch)
    obtain node parent where e: "e = (node, parent)" by fastforce
    show ?case
    proof (cases "node \<in> set visited")
      case True
      then show ?thesis using Cons.IH [of entries visited] by (auto simp: e visit_one_def)
    next
      case False
      obtain added where added: "foldl visit_one (entries @ [e], visited @ [node]) batch
          = ((entries @ [e]) @ added, (visited @ [node]) @ map fst added)"
        "distinct (map fst added)" "set added \<subseteq> set batch" "set (map fst added) = set (map fst batch) - set (visited @ [node])"
        using Cons.IH [of "entries @ [e]" "visited @ [node]"] by blast
      have "foldl visit_one (entries, visited) (e # batch) = (entries @ (e # added), visited @ map fst (e # added))"
        using added(1) False by (simp add: e visit_one_def)
      moreover have "distinct (map fst (e # added))" using added(2,4) by (simp add: e)
      moreover have "set (e # added) \<subseteq> set (e # batch)" using added(3) by auto
      moreover have "set (map fst (e # added)) = set (map fst (e # batch)) - set visited"
        using added(4) False by (auto simp: e)
      ultimately show ?thesis by blast
    qed
  qed simp
  from this [of "[]" visited] show ?thesis by (simp add: first_visits_def visit_one_def)
qed

text \<open>
  The address space below the roots: \<open>refs_of\<close> and \<open>stored\<close> as above, and a finite set of nodes that
  contains the roots and everything that hierarchical references lead to.
\<close>

definition children_in ::
  "(nat \<Rightarrow> browse_direction \<Rightarrow> bool \<Rightarrow> string \<Rightarrow> ref_description list) \<Rightarrow> string \<Rightarrow> string list" where
  "children_in refs_of node = map rd_node_id (refs_of HierarchicalReferences Forward True node)"

inductive_set below ::
  "(nat \<Rightarrow> browse_direction \<Rightarrow> bool \<Rightarrow> string \<Rightarrow> ref_description list) \<Rightarrow> string list \<Rightarrow> string set"
  for refs_of and roots where
  below_root: "r \<in> set roots \<Longrightarrow> r \<in> below refs_of roots"
| below_child: "p \<in> below refs_of roots \<Longrightarrow> n \<in> set (children_in refs_of p) \<Longrightarrow> n \<in> below refs_of roots"

definition named_references ::
  "(nat \<Rightarrow> browse_direction \<Rightarrow> bool \<Rightarrow> string \<Rightarrow> ref_description list) \<Rightarrow> (string \<Rightarrow> string) \<Rightarrow> string \<Rightarrow> OpcUaReferenceInfo list" where
  "named_references refs_of type_name node =
     map (\<lambda>r. \<lparr>ri_target_node_id = rd_node_id r, ri_reference_type_id = rd_type_id r,
               ri_reference_browse_name = type_name (rd_type_id r)\<rparr>) (refs_of ReferencesType Forward True node)"

definition healthy ::
  "opc_env \<Rightarrow> (nat \<Rightarrow> browse_direction \<Rightarrow> bool \<Rightarrow> string \<Rightarrow> ref_description list) \<Rightarrow> (string \<Rightarrow> ref_description list)
   \<Rightarrow> nat \<Rightarrow> (string \<times> nat \<Rightarrow> ua_data) \<Rightarrow> (string \<Rightarrow> string) \<Rightarrow> string set \<Rightarrow> bool" where
  "healthy env refs_of rest n stored type_name nodes \<longleftrightarrow>
     browse_paged env refs_of rest \<and> limited_reads env n stored \<and> finite nodes
     \<and> (\<forall>node \<in> nodes. mandatory env (ten_values stored node) \<noteq> None
          \<and> (\<forall>r \<in> set (refs_of ReferencesType Forward True node). type_named env stored (rd_type_id r) (type_name (rd_type_id r))))"

lemma to_reference_infos_named:
  assumes "names_ok type_name names" "set (map rd_type_id refs) \<subseteq> set (dict_keys names)"
  shows "to_reference_infos refs names = Inr (map (\<lambda>r. \<lparr>ri_target_node_id = rd_node_id r, ri_reference_type_id = rd_type_id r,
               ri_reference_browse_name = type_name (rd_type_id r)\<rparr>) refs)"
proof -
  have "dict_get_def names (rd_type_id r) [] = type_name (rd_type_id r)" if "r \<in> set refs" for r
  proof -
    have "rd_type_id r \<in> fst ` set names" using assms(2) that by auto
    then obtain name where "dict_get names (rd_type_id r) = Some name" by (metis dom_map_of_conv_image_fst domD)
    then show ?thesis using assms(1) by (simp add: names_ok_def dict_get_def_def)
  qed
  moreover have "list_all (\<lambda>r. rd_type_id r \<in> set (dict_keys names)) refs" using assms(2) by (auto simp: list_all_iff)
  ultimately show ?thesis by (simp add: to_reference_infos_def)
qed

definition finished_info ::
  "opc_env \<Rightarrow> (nat \<Rightarrow> browse_direction \<Rightarrow> bool \<Rightarrow> string \<Rightarrow> ref_description list) \<Rightarrow> (string \<times> nat \<Rightarrow> ua_data)
   \<Rightarrow> (string \<Rightarrow> string) \<Rightarrow> string \<times> string option \<Rightarrow> OpcUaNodeInfo" where
  "finished_info env refs_of stored type_name entry =
     (described_node env refs_of stored entry)\<lparr>oi_outgoing_references := named_references refs_of type_name (fst entry)\<rparr>"

lemma map_of_graph: "map_of (map (\<lambda>k. (k, f k)) ks) x = (if x \<in> set ks then Some (f x) else None)"
  by (induction ks) auto

lemma map_of_rev_graph: "map_of (List.rev (map (\<lambda>k. (k, f k)) ks)) x = (if x \<in> set ks then Some (f x) else None)"
  by (simp only: rev_map map_of_graph set_rev)

lemma attach_references_named:
  assumes ok: "names_ok type_name names"
    and known: "\<And>node. node \<in> set (map fst entries) \<Longrightarrow> set (map rd_type_id (refs_of ReferencesType Forward True node)) \<subseteq> set (dict_keys names)"
  shows "attach_references (map (\<lambda>node. (node, refs_of ReferencesType Forward True node)) (map fst entries)) names
      (map (described_node env refs_of stored) entries) = Inr (map (finished_info env refs_of stored type_name) entries)"
proof -
  let ?nodes = "map fst entries" and ?refs = "refs_of ReferencesType Forward True"
  have infos: "to_reference_infos (?refs node) names = Inr (named_references refs_of type_name node)" if "node \<in> set ?nodes" for node
    unfolding named_references_def by (rule to_reference_infos_named [OF ok known [OF that]])
  have table: "[(node, rs). (node, refs) \<leftarrow> map (\<lambda>node. (node, ?refs node)) ns,
             rs \<leftarrow> (case to_reference_infos refs names of Inr rs \<Rightarrow> [rs] | Inl _ \<Rightarrow> [])]
      = map (\<lambda>node. (node, named_references refs_of type_name node)) ns" if "set ns \<subseteq> set ?nodes" for ns
    using that infos by (induction ns) auto
  have "map_of (List.rev (map (\<lambda>node. (node, named_references refs_of type_name node)) ?nodes)) node
      = Some (named_references refs_of type_name node)" if "node \<in> set ?nodes" for node
    using that by (simp only: map_of_rev_graph if_True)
  then have "attach (map (\<lambda>node. (node, named_references refs_of type_name node)) ?nodes) (described_node env refs_of stored e)
      = finished_info env refs_of stored type_name e" if "e \<in> set entries" for e
    using that by (simp add: attach_def finished_info_def)
  moreover have "list_all (\<lambda>(node, refs). node \<notin> set (map oi_node_id (map (described_node env refs_of stored) entries))
        \<or> (\<exists>rs. to_reference_infos refs names = Inr rs)) (map (\<lambda>node. (node, ?refs node)) ?nodes)"
    using infos by (auto simp: list_all_iff)
  ultimately show ?thesis
    unfolding attach_references_def table [OF subset_refl] by simp
qed

lemma visit_batch_server:
  assumes healthy: "healthy env refs_of rest n stored type_name nodes" and sub: "set (map fst entries) \<subseteq> nodes"
    and ok: "names_ok type_name names"
  shows "\<exists>names'. names_ok type_name names' \<and>
    returns_run (map (finished_info env refs_of stored type_name) entries, names',
        concat (map (\<lambda>p. map (\<lambda>i. (i, Some p)) (children_in refs_of p)) (map fst entries)))
      (visit_batch env k entries names)"
proof -
  have paged: "browse_paged env refs_of rest" and limited: "limited_reads env n stored"
    using healthy by (simp_all add: healthy_def)
  have complete: "mandatory env (ten_values stored (fst e)) \<noteq> None" if "e \<in> set entries" for e
    using healthy sub that by (auto simp: healthy_def)
  let ?all = "map (\<lambda>node. (node, refs_of ReferencesType Forward True node)) (map fst entries)"
  have "type_named env stored (rd_type_id r) (type_name (rd_type_id r))" if "r \<in> set (concat (map snd ?all))" for r
    using healthy sub that by (fastforce simp: healthy_def)
  then obtain names' where names': "returns names' (read_reference_type_browse_names env (concat (map snd ?all)) names)"
    "names_ok type_name names'" "set (map rd_type_id (concat (map snd ?all))) \<subseteq> set (dict_keys names')"
    using read_reference_type_names_server [OF limited _ ok] by blast
  have known: "set (map rd_type_id (refs_of ReferencesType Forward True node)) \<subseteq> set (dict_keys names')"
    if "node \<in> set (map fst entries)" for node
    using names'(3) that by (auto simp: subset_iff)
  have attached: "attach_references ?all names' (map (described_node env refs_of stored) entries)
      = Inr (map (finished_info env refs_of stored type_name) entries)"
    by (rule attach_references_named [OF names'(2)]) (rule known)
  have browse: "returns_run (map (\<lambda>node. (node, refs_of t d s node)) (map fst entries))
      (browse_references_descriptions env (map fst entries) k t d s)" for t d s
    unfolding returns_run_def using paged_references_are_complete [OF paged] by blast
  have children: "[(rd_node_id r, Some parent). (parent, refs) \<leftarrow> map (\<lambda>node. (node, refs_of HierarchicalReferences Forward True node)) ns, r \<leftarrow> refs]
      = concat (map (\<lambda>p. map (\<lambda>i. (i, Some p)) (children_in refs_of p)) ns)" for ns
    by (induction ns) (auto simp: comp_def children_in_def)
  have "returns_run (map (finished_info env refs_of stored type_name) entries, names',
        concat (map (\<lambda>p. map (\<lambda>i. (i, Some p)) (children_in refs_of p)) (map fst entries)))
      (visit_batch env k entries names)"
    unfolding visit_batch_def browse_children_descriptions_def
    by (rule returns_run_bind [OF read_node_infos_server [OF paged limited complete]], assumption,
        rule returns_run_bind [OF browse], rule returns_run_bind [OF browse],
        rule returns_run_bind [OF returns_runI [OF names'(1)]])
      (simp only: attached children sum.case returns_run_return)
  then show ?thesis using names'(2) by blast
qed

text \<open>What holds whenever the loop comes round.\<close>

definition parent_ok ::
  "(nat \<Rightarrow> browse_direction \<Rightarrow> bool \<Rightarrow> string \<Rightarrow> ref_description list) \<Rightarrow> string list \<Rightarrow> string \<times> string option \<Rightarrow> bool" where
  "parent_ok refs_of roots entry \<longleftrightarrow>
     (case snd entry of None \<Rightarrow> fst entry \<in> set roots
      | Some p \<Rightarrow> p \<in> below refs_of roots \<and> fst entry \<in> set (children_in refs_of p))"

definition entry_of :: "OpcUaNodeInfo \<Rightarrow> string \<times> string option" where
  "entry_of i = (oi_node_id i, oi_parent_node_id i)"

definition walk_inv ::
  "(nat \<Rightarrow> browse_direction \<Rightarrow> bool \<Rightarrow> string \<Rightarrow> ref_description list) \<Rightarrow> string list \<Rightarrow> (string \<Rightarrow> string)
   \<Rightarrow> (string \<times> string option) list \<Rightarrow> string list \<Rightarrow> (string, string) dict \<Rightarrow> OpcUaNodeInfo list \<Rightarrow> bool" where
  "walk_inv refs_of roots type_name stack visited names infos \<longleftrightarrow>
     names_ok type_name names
     \<and> visited = map oi_node_id infos
     \<and> distinct visited
     \<and> (\<forall>e \<in> set stack. parent_ok refs_of roots e)
     \<and> (\<forall>i \<in> set infos. parent_ok refs_of roots (entry_of i))
     \<and> set roots \<subseteq> set visited \<union> fst ` set stack
     \<and> (\<forall>p \<in> set visited. set (children_in refs_of p) \<subseteq> set visited \<union> fst ` set stack)
     \<and> (\<forall>i \<in> set infos. oi_outgoing_references i = named_references refs_of type_name (oi_node_id i))"

lemma walk_invD:
  assumes "walk_inv refs_of roots type_name stack visited names infos"
  shows "names_ok type_name names" "visited = map oi_node_id infos" "distinct visited"
    "\<And>e. e \<in> set stack \<Longrightarrow> parent_ok refs_of roots e"
    "\<And>i. i \<in> set infos \<Longrightarrow> parent_ok refs_of roots (entry_of i)"
    "set roots \<subseteq> set visited \<union> fst ` set stack"
    "\<And>p. p \<in> set visited \<Longrightarrow> set (children_in refs_of p) \<subseteq> set visited \<union> fst ` set stack"
    "\<And>i. i \<in> set infos \<Longrightarrow> oi_outgoing_references i = named_references refs_of type_name (oi_node_id i)"
  using assms unfolding walk_inv_def by blast+

lemma parent_ok_below: "parent_ok refs_of roots e \<Longrightarrow> fst e \<in> below refs_of roots"
  unfolding parent_ok_def by (auto intro: below_root below_child split: option.splits)

lemma walk_below:
  assumes "walk_inv refs_of roots type_name stack visited names infos"
  shows "fst ` set stack \<subseteq> below refs_of roots" "set visited \<subseteq> below refs_of roots"
proof -
  show "fst ` set stack \<subseteq> below refs_of roots" using parent_ok_below [OF walk_invD(4) [OF assms]] by blast
  have "oi_node_id i \<in> below refs_of roots" if "i \<in> set infos" for i
    using parent_ok_below [OF walk_invD(5) [OF assms that]] by (simp add: entry_of_def)
  then show "set visited \<subseteq> below refs_of roots" unfolding walk_invD(2) [OF assms] by auto
qed

lemma walk_done:
  assumes "walk_inv refs_of roots type_name [] visited names infos"
  shows "set (map oi_node_id infos) = below refs_of roots"
proof -
  have "n \<in> set visited" if "n \<in> below refs_of roots" for n
    using that by (induction rule: below.induct) (use walk_invD(6,7) [OF assms] in auto)
  then show ?thesis using walk_below(2) [OF assms] unfolding walk_invD(2) [OF assms] by blast
qed

lemma walk_skip:
  assumes inv: "walk_inv refs_of roots type_name stack visited names infos"
    and met: "fst ` set (take k stack) \<subseteq> set visited"
  shows "walk_inv refs_of roots type_name (drop k stack) visited names infos"
proof -
  have "set stack = set (take k stack) \<union> set (drop k stack)" by (metis append_take_drop_id set_append)
  then have keep: "set visited \<union> fst ` set stack \<subseteq> set visited \<union> fst ` set (drop k stack)" using met by auto
  show ?thesis
    unfolding walk_inv_def
  proof (intro conjI ballI)
    show "set roots \<subseteq> set visited \<union> fst ` set (drop k stack)" using walk_invD(6) [OF inv] keep by blast
    show "set (children_in refs_of p) \<subseteq> set visited \<union> fst ` set (drop k stack)" if "p \<in> set visited" for p
      using walk_invD(7) [OF inv that] keep by blast
    show "parent_ok refs_of roots e" if "e \<in> set (drop k stack)" for e
      using walk_invD(4) [OF inv in_set_dropD [OF that]] .
  qed (use walk_invD [OF inv] in \<open>simp_all\<close>)
qed

lemma walk_visit:
  assumes inv: "walk_inv refs_of roots type_name stack visited names infos"
    and entries: "distinct (map fst entries)" "set entries \<subseteq> set (take k stack)"
      "set (map fst entries) = set (map fst (take k stack)) - set visited"
    and ok: "names_ok type_name names'"
  shows "walk_inv refs_of roots type_name
    (drop k stack @ concat (map (\<lambda>p. map (\<lambda>i. (i, Some p)) (children_in refs_of p)) (map fst entries)))
    (visited @ map fst entries) names' (infos @ map (finished_info env refs_of stored type_name) entries)"
proof -
  let ?children = "concat (map (\<lambda>p. map (\<lambda>i. (i, Some p)) (children_in refs_of p)) (map fst entries))"
  have parts: "set stack = set (take k stack) \<union> set (drop k stack)" by (metis append_take_drop_id set_append)
  have covered: "set visited \<union> fst ` set stack \<subseteq> set (visited @ map fst entries) \<union> fst ` set (drop k stack @ ?children)"
    using entries(3) parts by auto
  have children: "fst ` set ?children = (\<Union>p \<in> fst ` set entries. set (children_in refs_of p))"
    by (force simp: image_iff)
  have entry: "entry_of (finished_info env refs_of stored type_name e) = e" for e
    by (simp add: entry_of_def finished_info_def)
  have on_stack: "e \<in> set stack" if "e \<in> set entries" for e using entries(2) that parts by blast
  have child_ok: "parent_ok refs_of roots e" if h: "e \<in> set ?children" for e
  proof -
    obtain a b where p: "(a, b) \<in> set entries" "snd e = Some a" "fst e \<in> set (children_in refs_of a)" using h by auto
    have "a \<in> below refs_of roots" using parent_ok_below [OF walk_invD(4) [OF inv on_stack [OF p(1)]]] by simp
    then show ?thesis using p by (simp add: parent_ok_def)
  qed
  show ?thesis
    unfolding walk_inv_def
  proof (intro conjI)
    show "names_ok type_name names'" by (rule ok)
    show "visited @ map fst entries = map oi_node_id (infos @ map (finished_info env refs_of stored type_name) entries)"
      using walk_invD(2) [OF inv] by (simp add: finished_info_def comp_def)
    show "distinct (visited @ map fst entries)" using walk_invD(3) [OF inv] entries(1,3) by auto
    show "\<forall>e \<in> set (drop k stack @ ?children). parent_ok refs_of roots e"
      unfolding set_append ball_Un using walk_invD(4) [OF inv] child_ok parts by blast
    show "\<forall>i \<in> set (infos @ map (finished_info env refs_of stored type_name) entries). parent_ok refs_of roots (entry_of i)"
      using walk_invD(4,5) [OF inv] on_stack by (auto simp: entry)
    show "set roots \<subseteq> set (visited @ map fst entries) \<union> fst ` set (drop k stack @ ?children)"
      using walk_invD(6) [OF inv] covered by blast
    show "\<forall>p \<in> set (visited @ map fst entries). set (children_in refs_of p) \<subseteq> set (visited @ map fst entries) \<union> fst ` set (drop k stack @ ?children)"
    proof
      fix p
      assume "p \<in> set (visited @ map fst entries)"
      then consider "p \<in> set visited" | "p \<in> fst ` set entries" by auto
      then show "set (children_in refs_of p) \<subseteq> set (visited @ map fst entries) \<union> fst ` set (drop k stack @ ?children)"
      proof cases
        case 1
        then show ?thesis using walk_invD(7) [OF inv] covered by blast
      next
        case 2
        then show ?thesis unfolding set_append image_Un children by blast
      qed
    qed
    show "\<forall>i \<in> set (infos @ map (finished_info env refs_of stored type_name) entries). oi_outgoing_references i = named_references refs_of type_name (oi_node_id i)"
      using walk_invD(8) [OF inv] by (auto simp: finished_info_def)
  qed
qed

definition walked ::
  "(nat \<Rightarrow> browse_direction \<Rightarrow> bool \<Rightarrow> string \<Rightarrow> ref_description list) \<Rightarrow> string list \<Rightarrow> (string \<Rightarrow> string)
   \<Rightarrow> OpcUaNodeInfo list \<Rightarrow> bool" where
  "walked refs_of roots type_name infos \<longleftrightarrow>
     distinct (map oi_node_id infos) \<and> set (map oi_node_id infos) = below refs_of roots
     \<and> (\<forall>i \<in> set infos. parent_ok refs_of roots (oi_node_id i, oi_parent_node_id i)
          \<and> oi_outgoing_references i = named_references refs_of type_name (oi_node_id i))"

lemma walk_inv_walked:
  assumes "walk_inv refs_of roots type_name [] visited names infos"
  shows "walked refs_of roots type_name infos"
  unfolding walked_def
  using walk_invD [OF assms] walk_done [OF assms] by (auto simp: entry_of_def)

lemma browse_loop_server:
  assumes healthy: "healthy env refs_of rest n stored type_name (below refs_of roots)" and k: "0 < k"
  shows "walk_inv refs_of roots type_name stack visited names infos \<Longrightarrow>
    \<exists>infos' c'. browse_loop env k stack visited names infos c = Some (Inr infos', c') \<and> walked refs_of roots type_name infos'"
proof (induction "(card (below refs_of roots - set visited), length stack)" arbitrary: stack visited names infos c
    rule: wf_induct_rule [OF wf_lex_prod [OF wf_less wf_less]])
  case 1
  note inv = 1(2)
  have finite: "finite (below refs_of roots)" using healthy by (simp add: healthy_def)
  show ?case
  proof (cases "stack = []")
    case True
    then have "browse_loop env k stack visited names infos c = Some (Inr infos, c)" by (simp add: browse_loop.simps)
    then show ?thesis using walk_inv_walked inv True by blast
  next
    case False
    obtain entries where first: "first_visits (take k stack) visited = (entries, visited @ map fst entries)"
      and entries: "distinct (map fst entries)" "set entries \<subseteq> set (take k stack)"
        "set (map fst entries) = set (map fst (take k stack)) - set visited"
      using first_visits_spec [of "take k stack" visited] by blast
    have shorter: "length (drop k stack) < length stack" using False k by simp
    show ?thesis
    proof (cases "entries = []")
      case True
      then have "fst ` set (take k stack) \<subseteq> set visited" using entries(3) by auto
      then have "walk_inv refs_of roots type_name (drop k stack) visited names infos" by (rule walk_skip [OF inv])
      moreover have step: "browse_loop env k stack visited names infos c = browse_loop env k (drop k stack) visited names infos c"
        using False True first by (simp add: browse_loop.simps [of env k stack])
      ultimately show ?thesis
        unfolding step by (intro 1(1)) (use shorter in simp_all)
    next
      case new: False
      have sub: "set (map fst entries) \<subseteq> below refs_of roots"
        using walk_below(1) [OF inv] entries(2) by (force dest: in_set_takeD)
      let ?children = "concat (map (\<lambda>p. map (\<lambda>i. (i, Some p)) (children_in refs_of p)) (map fst entries))"
      let ?found = "map (finished_info env refs_of stored type_name) entries"
      obtain names' where names': "names_ok type_name names'" "returns_run (?found, names', ?children) (visit_batch env k entries names)"
        using visit_batch_server [OF healthy sub walk_invD(1) [OF inv]] by blast
      then obtain c1 where visit: "visit_batch env k entries names c = Some (Inr (?found, names', ?children), c1)"
        unfolding returns_run_def by blast
      have step: "browse_loop env k stack visited names infos c =
          browse_loop env k (drop k stack @ ?children) (visited @ map fst entries) names' (infos @ ?found) c1"
        using False new first visit by (simp add: browse_loop.simps [of env k stack])
      have "card (below refs_of roots - set (visited @ map fst entries)) < card (below refs_of roots - set visited)"
      proof (rule psubset_card_mono)
        obtain e where "e \<in> set entries" using new by (cases entries) auto
        then have "fst e \<in> below refs_of roots - set visited" "fst e \<in> set (visited @ map fst entries)"
          using entries(3) sub by auto
        then show "below refs_of roots - set (visited @ map fst entries) \<subset> below refs_of roots - set visited" by auto
      qed (use finite in simp)
      then show ?thesis
        unfolding step by (intro 1(1) walk_visit [OF inv entries names'(1)]) simp_all
    qed
  qed
qed

text \<open>
  C26. \<open>browse_tree\<close> finds the whole address space below the roots: against a server that answers in
  pages, within its limits, and has the attributes of the nodes below the roots, of which there are
  finitely many, the walk returns, also when references run in circles, with every node below the roots
  exactly once, each with a parent it was reached from and with all its references by type and name.
\<close>

theorem browse_tree_finds_every_node_once:
  assumes "returns roots (resolve_browse_roots env)"
    and "healthy env refs_of rest n stored type_name (below refs_of roots)"
  shows "\<exists>infos c'. browse_tree env c = Some (Inr infos, c') \<and> walked refs_of roots type_name infos"
proof -
  let ?c1 = "snd (count_runtime (\<lambda>r. r\<lparr>rm_browse_tree_calls := rm_browse_tree_calls r + 1\<rparr>) c)"
  obtain limits c2 where limits: "get_operational_limits env ?c1 = (Inr limits, c2)"
    using post_limits [of env] unfolding opc_post_def by (metis prod.collapse)
  let ?k = "or_else (ol_browse limits) 128"
  have k: "0 < ?k" by (simp add: or_else_def split: option.split)
  obtain c3 where found: "resolve_browse_roots env c2 = (Inr roots, c3)"
    using assms(1) unfolding returns_def by (metis prod.collapse)
  have "walk_inv refs_of roots type_name (map (\<lambda>r. (r, None)) roots) [] [] []"
    by (simp add: walk_inv_def names_ok_def parent_ok_def image_comp comp_def)
  then obtain infos c4 where walk: "browse_loop env ?k (map (\<lambda>r. (r, None)) roots) [] [] [] c3 = Some (Inr infos, c4)"
    "walked refs_of roots type_name infos"
    using browse_loop_server [OF assms(2) k] by blast
  have "browse_tree env c = Some (Inr infos, snd (count_tree_nodes infos c4))"
    unfolding browse_tree_def
    by (simp add: run_bind_def run_def count_runtime_def opc_modify_def limits [unfolded count_runtime_def opc_modify_def, simplified]
        found walk(1) opc_bind_def opc_return_def count_tree_nodes_def)
  then show ?thesis using walk(2) by blast
qed

section \<open>A server to run it on\<close>

text \<open>
  The objects folder has a child that refers back to it, and the references of the folder come in two
  pages; at most two attributes are read at once.
\<close>

definition demo_ref :: "string \<Rightarrow> ref_description" where
  "demo_ref node = \<lparr>rd_node_id = node, rd_type_id = ''i=35''\<rparr>"

definition demo_refs :: "nat \<Rightarrow> browse_direction \<Rightarrow> bool \<Rightarrow> string \<Rightarrow> ref_description list" where
  "demo_refs t d s node =
     (if t = HasTypeDefinition then []
      else if node = ''i=85'' then [demo_ref ''n'', demo_ref ''i=85''] else [demo_ref ''i=85''])"

definition demo_answer :: "nat \<Rightarrow> string \<Rightarrow> browse_answer" where
  "demo_answer t node =
     \<lparr>ba_status = None, ba_references = take 1 (demo_refs t Forward True node),
      ba_continuation = (if length (demo_refs t Forward True node) = 2 then ''p'' else [])\<rparr>"

definition demo_stored :: "string \<times> nat \<Rightarrow> ua_data" where
  "demo_stored entry =
     \<lparr>ud_status = None,
      ud_variant = Some
        (if snd entry = AttrBrowseName then AName (Some (fst entry))
         else if snd entry = AttrDisplayName then AText (Some (fst entry))
         else if snd entry = AttrNodeClass then ANodeClass 1
         else AValue PNone),
      ud_source_timestamp = None, ud_server_timestamp = None\<rparr>"

definition demo_browse :: opc_env where
  "demo_browse = demo_opc\<lparr>
     ua_browse := (\<lambda>es params. Inr (map (demo_answer (bp_type params)) (bp_nodes params))),
     ua_browse_next := (\<lambda>es points. Inr (map (\<lambda>_. \<lparr>ba_status = None, ba_references = [demo_ref ''i=85''], ba_continuation = []\<rparr>) points)),
     ua_read := (\<lambda>es pairs. if length pairs \<le> 2 then Inr (map demo_stored pairs) else Inl too_many_operations),
     ua_read_attributes := (\<lambda>es nodes attr.
       if length nodes \<le> 2 then Inr (map (\<lambda>node. demo_stored (node, attr)) nodes) else Inl too_many_operations)\<rparr>"

lemma demo_browse_paged: "browse_paged demo_browse demo_refs (\<lambda>_. [demo_ref ''i=85''])"
proof -
  have "reference_page (\<lambda>_. [demo_ref ''i=85'']) (demo_refs t d s node) (demo_answer t node)" for t d s node
    by (simp add: reference_page_def demo_answer_def demo_refs_def)
  then show ?thesis
    by (simp add: browse_paged_def demo_browse_def list_all2_conv_all_nth reference_page_def [of _ _ "browse_answer.make _ _ _"])
      (simp add: reference_page_def)
qed

lemma demo_below: "below demo_refs [''i=85''] = {''i=85'', ''n''}"
proof
  have "x \<in> {''i=85'', ''n''}" if "x \<in> below demo_refs [''i=85'']" for x
    using that
    by (induction rule: below.induct) (auto simp: children_in_def demo_refs_def demo_ref_def split: if_splits)
  then show "below demo_refs [''i=85''] \<subseteq> {''i=85'', ''n''}" by blast
  have folder: "''i=85'' \<in> below demo_refs [''i=85'']" by (rule below_root) simp
  moreover have "''n'' \<in> below demo_refs [''i=85'']"
    by (rule below_child [OF folder]) (simp add: children_in_def demo_refs_def demo_ref_def HasTypeDefinition_def HierarchicalReferences_def)
  ultimately show "{''i=85'', ''n''} \<subseteq> below demo_refs [''i=85'']" by blast
qed

lemma attr_numbers:
  "AttrBrowseName \<noteq> AttrDisplayName" "AttrBrowseName \<noteq> AttrNodeClass" "AttrDisplayName \<noteq> AttrNodeClass"
  by (simp_all add: AttrBrowseName_def AttrDisplayName_def AttrNodeClass_def)

lemma demo_healthy:
  "healthy demo_browse demo_refs (\<lambda>_. [demo_ref ''i=85'']) 2 demo_stored (\<lambda>t. t) (below demo_refs [''i=85''])"
proof -
  have "mandatory demo_browse (ten_values demo_stored node) = Some (node, node, ''Object'')" for node
    using attr_numbers
    by (simp add: mandatory_def attribute_in_def attr_of_def ten_values_def node_info_attributes_def demo_stored_def
        extract_attribute_value_def coerce_node_class_def int_of_attribute_def node_class_names_def)
  moreover have "type_named demo_browse demo_stored (rd_type_id r) (rd_type_id r)" if "r \<in> set (demo_refs t d s node)" for r t d s node
    using that by (auto simp: type_named_def demo_refs_def demo_ref_def demo_browse_def demo_opc_def demo_stored_def
        extract_attribute_value_def split: if_splits)
  moreover have "limited_reads demo_browse 2 demo_stored" by (simp add: limited_reads_def demo_browse_def)
  ultimately show ?thesis using demo_browse_paged by (simp add: healthy_def demo_below)
qed

theorem browse_tree_finds_every_node_once_witness:
  "\<exists>infos c'. browse_tree demo_browse new_client = Some (Inr infos, c') \<and> distinct (map oi_node_id infos)
     \<and> set (map oi_node_id infos) = {''i=85'', ''n''}"
proof -
  have "returns [''i=85''] (resolve_browse_roots demo_browse)"
    by (simp add: resolve_browse_roots_def demo_browse_def demo_opc_def returns_basic)
  from browse_tree_finds_every_node_once [OF this demo_healthy, of new_client]
  show ?thesis by (auto simp: walked_def demo_below)
qed

theorem paged_references_are_complete_witness:
  "\<exists>c'. browse_references_descriptions demo_browse [''n'', ''i=85''] 1 HierarchicalReferences Forward True new_client =
     Some (Inr [(''n'', [demo_ref ''i=85'']), (''i=85'', [demo_ref ''n'', demo_ref ''i=85''])], c')"
  using paged_references_are_complete [OF demo_browse_paged,
      of "[''n'', ''i=85'']" 1 HierarchicalReferences Forward True new_client]
  by (simp add: demo_refs_def HasTypeDefinition_def HierarchicalReferences_def)

end
