(* ===== verification/OpcTypes.thy ===== *)
theory OpcTypes
  imports OpcBrowse
begin

text \<open>
  Type hierarchies and their caches in the OPC UA client, \<open>i3x_server/infrastructure/opcua/client.py\<close>:
  \<open>resolve_type_definition_hierarchies\<close> collects the supertypes of type definitions level by level, and
  \<open>_resolve_reference_type_chain\<close> those of a reference type recursively, each with a cache whose entries
  expire.
\<close>

section \<open>The age of a cache entry\<close>

definition clock :: "opc_env \<Rightarrow> real opc" where
  "clock env c =
     (let t = ua_clock env (oc_events c) in (Inr t, c\<lparr>oc_events := oc_events c @ [EClock t]\<rparr>))"

text \<open>\<open>_is_metadata_cache_entry_fresh\<close>: \<open>None\<close> is \<open>_METADATA_INVALIDATED_AT\<close>; a TTL of 0 never expires.\<close>

definition is_metadata_cache_entry_fresh :: "opc_env \<Rightarrow> real option \<Rightarrow> bool opc" where
  "is_metadata_cache_entry_fresh env cached_at =
     (case cached_at of
        None \<Rightarrow> opc_return False
      | Some t \<Rightarrow>
          if ua_metadata_ttl env = 0 then opc_return True
          else opc_bind (clock env) (\<lambda>now. opc_return (now - t \<le> real (ua_metadata_ttl env))))"

section \<open>Type definitions\<close>

record hierarchy_search =
  hs_cached :: "(string, OpcUaTypeDefinitionInfo list) dict"
  hs_infos :: "(string, OpcUaTypeDefinitionInfo) dict"
  hs_parents :: "(string, string list) dict"

text \<open>\<open>dict.fromkeys\<close>: the first occurrences, in order.\<close>

fun first_occurrences :: "'a list \<Rightarrow> 'a list" where
  "first_occurrences [] = []"
| "first_occurrences (x # xs) = x # filter (\<lambda>y. y \<noteq> x) (first_occurrences xs)"

text \<open>Which of the pending types are known already, from this search or from the cache.\<close>

definition cached_hierarchy :: "opc_env \<Rightarrow> string \<Rightarrow> OpcUaTypeDefinitionInfo list option opc" where
  "cached_hierarchy env type_id c =
     (case dict_get (oc_type_hierarchies c) type_id of
        None \<Rightarrow> (Inr None, c)
      | Some (cached_at, chain) \<Rightarrow>
          opc_bind (is_metadata_cache_entry_fresh env (Some cached_at))
            (\<lambda>fresh. opc_return (if fresh then Some chain else None)) c)"

fun split_pending ::
  "opc_env \<Rightarrow> string list \<Rightarrow> (string, string list) dict \<Rightarrow> (string, OpcUaTypeDefinitionInfo list) dict
   \<Rightarrow> (string list \<times> (string, OpcUaTypeDefinitionInfo list) dict) opc" where
  "split_pending env [] parents cached c = (Inr ([], cached), c)"
| "split_pending env (t # ts) parents cached c =
     (if t \<in> set (dict_keys parents) \<or> t \<in> set (dict_keys cached) then split_pending env ts parents cached c
      else opc_bind (cached_hierarchy env t)
        (\<lambda>found. case found of
           Some chain \<Rightarrow> split_pending env ts parents (dict_set t chain cached)
         | None \<Rightarrow> opc_bind (split_pending env ts parents cached)
             (\<lambda>(unresolved, cached'). opc_return (t # unresolved, cached'))) c)"

text \<open>The names of the unresolved types, in portions of the read limit.\<close>

fun name_types ::
  "opc_env \<Rightarrow> (string \<times> ua_data) list \<Rightarrow> (string, OpcUaTypeDefinitionInfo) dict
   \<Rightarrow> opc_exception + (string, OpcUaTypeDefinitionInfo) dict" where
  "name_types env [] infos = Inr infos"
| "name_types env ((type_id, v) # rows) infos =
     (case extract_attribute_value env v of
        Some (AName (Some name)) \<Rightarrow>
          if name \<noteq> []
          then name_types env rows (dict_set type_id \<lparr>ti_node_id = type_id, ti_browse_name = name, ti_namespace_uri = None\<rparr> infos)
          else Inl (OtherException (''Cannot resolve type BrowseName for '' @ type_id))
      | _ \<Rightarrow> Inl (OtherException (''Cannot resolve type BrowseName for '' @ type_id)))"

fun read_type_names ::
  "opc_env \<Rightarrow> string list list \<Rightarrow> (string, OpcUaTypeDefinitionInfo) dict \<Rightarrow> (string, OpcUaTypeDefinitionInfo) dict opc" where
  "read_type_names env [] infos c = (Inr infos, c)"
| "read_type_names env (batch # batches) infos c =
     opc_bind (read_attribute_batch env AttrBrowseName batch)
       (\<lambda>vs. if length vs \<noteq> length batch then opc_raise (OtherException ''zip() arguments differ in length'')
             else case name_types env (zip batch vs) infos of
               Inl exc \<Rightarrow> opc_raise exc
             | Inr infos' \<Rightarrow> read_type_names env batches infos') c"

definition record_parents :: "(string \<times> ref_description list) list \<Rightarrow> (string, string list) dict \<Rightarrow> (string, string list) dict" where
  "record_parents browsed parents =
     foldl (\<lambda>d (node, refs). dict_set node (first_occurrences (map rd_node_id refs)) d) parents browsed"

text \<open>One level: the names and the parents of the unresolved types.\<close>

definition resolve_level ::
  "opc_env \<Rightarrow> string list \<Rightarrow> hierarchy_search \<Rightarrow> (string list \<times> hierarchy_search) opc_run" where
  "resolve_level env unresolved s =
     run_bind (run (get_operational_limits env))
     (\<lambda>limits. run_bind (run (get_nodes env unresolved))
     (\<lambda>nodes. run_bind (run (read_type_names env (chunked nodes (or_else (ol_read limits) 128)) (hs_infos s)))
     (\<lambda>infos. run_bind (browse_references_descriptions env nodes (or_else (ol_browse limits) 128) HasSubtype Inverse False)
     (\<lambda>browsed. run (opc_return
        (concat (map (\<lambda>(_, refs). first_occurrences (map rd_node_id refs)) browsed),
         s\<lparr>hs_infos := infos, hs_parents := record_parents browsed (hs_parents s)\<rparr>))))))"

partial_function (option) search_types ::
  "opc_env \<Rightarrow> string list \<Rightarrow> hierarchy_search \<Rightarrow> opc_client \<Rightarrow> ((opc_exception + hierarchy_search) \<times> opc_client) option" where
  "search_types env pending s c =
     (if pending = [] then Some (Inr s, c)
      else case split_pending env (first_occurrences pending) (hs_parents s) (hs_cached s) c of
        (Inl exc, c1) \<Rightarrow> Some (Inl exc, c1)
      | (Inr (unresolved, cached), c1) \<Rightarrow>
          if unresolved = [] then Some (Inr (s\<lparr>hs_cached := cached\<rparr>), c1)
          else case resolve_level env unresolved (s\<lparr>hs_cached := cached\<rparr>) c1 of
            None \<Rightarrow> None
          | Some (Inl exc, c2) \<Rightarrow> Some (Inl exc, c2)
          | Some (Inr (pending', s'), c2) \<Rightarrow> search_types env pending' s' c2)"

text \<open>
  The hierarchy of one type: depth first, each type once, a cached chain at once. The head of the stack
  is the end of the Python list. \<open>None\<close> stands for a \<open>KeyError\<close>.
\<close>

definition add_chain ::
  "OpcUaTypeDefinitionInfo list \<Rightarrow> OpcUaTypeDefinitionInfo list \<times> string list \<Rightarrow> OpcUaTypeDefinitionInfo list \<times> string list" where
  "add_chain chain start =
     foldl (\<lambda>(hierarchy, seen) info.
        if ti_node_id info \<in> set seen then (hierarchy, seen) else (hierarchy @ [info], seen @ [ti_node_id info]))
       start chain"

lemma add_chain_seen: "set seen \<subseteq> set (snd (add_chain chain (hierarchy, seen)))"
proof (induction chain arbitrary: hierarchy seen)
  case (Cons info chain)
  then show ?case
    by (cases "ti_node_id info \<in> set seen") (force simp: add_chain_def)+
qed (simp add: add_chain_def)

function collect_hierarchy ::
  "hierarchy_search \<Rightarrow> string list \<Rightarrow> OpcUaTypeDefinitionInfo list \<Rightarrow> string list \<Rightarrow> OpcUaTypeDefinitionInfo list option" where
  "collect_hierarchy s stack hierarchy seen =
     (case stack of
        [] \<Rightarrow> Some hierarchy
      | t # rest \<Rightarrow>
          if t \<in> set seen then collect_hierarchy s rest hierarchy seen
          else case dict_get (hs_cached s) t of
            Some chain \<Rightarrow>
              collect_hierarchy s rest (fst (add_chain chain (hierarchy, seen))) (snd (add_chain chain (hierarchy, seen)))
          | None \<Rightarrow>
              (case (dict_get (hs_infos s) t, dict_get (hs_parents s) t) of
                 (Some info, Some parents) \<Rightarrow> collect_hierarchy s (parents @ rest) (hierarchy @ [info]) (seen @ [t])
               | _ \<Rightarrow> None))"
  by pat_completeness auto

lemma unseen_mono:
  assumes "set a \<subseteq> set b"
  shows "length (filter (\<lambda>k. k \<notin> set b) ks) \<le> length (filter (\<lambda>k. k \<notin> set a) ks)"
  using assms by (induction ks) auto

lemma unseen_less:
  assumes "t \<in> set ks" "t \<notin> set seen"
  shows "length (filter (\<lambda>k. k \<notin> set (seen @ [t])) ks) < length (filter (\<lambda>k. k \<notin> set seen) ks)"
  using assms
proof (induction ks)
  case (Cons k ks)
  then show ?case using unseen_mono [of seen "seen @ [t]" ks] by (cases "k = t") (auto simp: less_Suc_eq_le)
qed simp

termination collect_hierarchy
proof (relation "measures [\<lambda>(s, stack, hierarchy, seen). length (filter (\<lambda>k. k \<notin> set seen) (dict_keys (hs_parents s))),
      \<lambda>(s, stack, hierarchy, seen). length stack]", goal_cases)
  case (3 s stack hierarchy seen t rest x y info parents)
  then have "dict_get (hs_parents s) t = Some parents" by simp
  then have "t \<in> set (dict_keys (hs_parents s))" by (force dest: map_of_SomeD)
  then show ?case using unseen_less [of t "dict_keys (hs_parents s)" seen] 3 by auto
next
  case (4 s stack hierarchy seen t rest chain)
  then show ?case using unseen_mono [OF add_chain_seen [of seen chain hierarchy], of "dict_keys (hs_parents s)"]
    by (auto simp: case_prod_beta le_eq_less_or_eq)
qed auto

declare collect_hierarchy.simps [simp del]

text \<open>\<open>self._type_definition_hierarchy_cache[root_id] = (perf_counter(), list(hierarchy))\<close>.\<close>

definition cache_hierarchy :: "opc_env \<Rightarrow> string \<Rightarrow> OpcUaTypeDefinitionInfo list \<Rightarrow> unit opc" where
  "cache_hierarchy env type_id hierarchy =
     opc_bind (clock env)
       (\<lambda>now. opc_modify (\<lambda>c. c\<lparr>oc_type_hierarchies := dict_set type_id (now, hierarchy) (oc_type_hierarchies c)\<rparr>))"

fun collect_hierarchies ::
  "opc_env \<Rightarrow> hierarchy_search \<Rightarrow> string list \<Rightarrow> (string, OpcUaTypeDefinitionInfo list) dict
   \<Rightarrow> (string, OpcUaTypeDefinitionInfo list) dict opc" where
  "collect_hierarchies env s [] hierarchies c = (Inr hierarchies, c)"
| "collect_hierarchies env s (root_id # roots) hierarchies c =
     (case collect_hierarchy s [root_id] [] [] of
        None \<Rightarrow> (Inl (OtherException ''KeyError''), c)
      | Some hierarchy \<Rightarrow>
          opc_bind (cache_hierarchy env root_id hierarchy)
            (\<lambda>_. collect_hierarchies env s roots (dict_set root_id hierarchy hierarchies)) c)"

definition requested_hierarchies ::
  "string list \<Rightarrow> (string, OpcUaTypeDefinitionInfo list) dict \<Rightarrow> (string, OpcUaTypeDefinitionInfo list) dict opc" where
  "requested_hierarchies requested_ids hierarchies =
     (if list_all (\<lambda>t. t \<in> set (dict_keys hierarchies)) requested_ids
      then opc_return (map (\<lambda>t. (t, dict_get_def hierarchies t [])) requested_ids)
      else opc_raise (OtherException ''KeyError''))"

definition resolve_type_definition_hierarchies ::
  "opc_env \<Rightarrow> string list \<Rightarrow> (string, OpcUaTypeDefinitionInfo list) dict opc_run" where
  "resolve_type_definition_hierarchies env type_definition_ids =
     (let requested_ids = first_occurrences type_definition_ids
      in if requested_ids = [] then run (opc_return [])
         else run_bind (search_types env requested_ids \<lparr>hs_cached = [], hs_infos = [], hs_parents = []\<rparr>)
           (\<lambda>s. run_bind (run (collect_hierarchies env s (dict_keys (hs_parents s)) (hs_cached s)))
           (\<lambda>hierarchies. run (requested_hierarchies requested_ids hierarchies))))"

section \<open>Reference types\<close>

text \<open>
  \<open>_resolve_reference_type_chain\<close>: the recursion follows the references of the server, so its depth is
  bounded by fuel (one unit per nested call); \<open>None\<close> is running out of it. An exception while the name is
  read or the supertypes are browsed is swallowed; one of a nested call is not. The second component of
  the result is the set \<open>in_progress\<close>, which the calls share.
\<close>

definition cached_reference_types :: "opc_env \<Rightarrow> string \<Rightarrow> string list option opc" where
  "cached_reference_types env type_id c =
     (case dict_get (oc_reference_types c) type_id of
        None \<Rightarrow> (Inr None, c)
      | Some (cached_at, names) \<Rightarrow>
          opc_bind (is_metadata_cache_entry_fresh env (Some cached_at))
            (\<lambda>fresh. if fresh then opc_return (Some names)
                     else opc_bind (opc_modify (\<lambda>c. c\<lparr>oc_reference_types := dict_del type_id (oc_reference_types c)\<rparr>))
                            (\<lambda>_. opc_return None)) c)"

definition own_name :: "opc_env \<Rightarrow> string \<Rightarrow> string list opc" where
  "own_name env node =
     opc_try (ask (\<lambda>es. ua_read_browse_name env es node) (EReadBrowseName node))
       (\<lambda>_. opc_return [])
       (\<lambda>name. opc_return (case name of Some (Some s, _) \<Rightarrow> if s \<noteq> [] then [s] else [] | _ \<Rightarrow> []))"

definition supertype_ids :: "opc_env \<Rightarrow> string \<Rightarrow> string list opc_run" where
  "supertype_ids env node c =
     (case browse_references_descriptions env [node] 1 HasSubtype Inverse False c of
        None \<Rightarrow> None
      | Some (Inl _, c1) \<Rightarrow> Some (Inr [], c1)
      | Some (Inr browsed, c1) \<Rightarrow>
          Some (Inr (filter (\<lambda>t. t \<noteq> []) (map rd_node_id (concat (map snd browsed)))), c1))"

definition add_names :: "string list \<Rightarrow> string list \<Rightarrow> string list" where
  "add_names discovered more_names = foldl (\<lambda>ns name. if name \<in> set ns then ns else ns @ [name]) discovered more_names"

definition remember_reference_type :: "opc_env \<Rightarrow> string \<Rightarrow> string list \<Rightarrow> unit opc" where
  "remember_reference_type env type_id names =
     opc_bind (clock env)
       (\<lambda>now. opc_modify (\<lambda>c. c\<lparr>oc_reference_types := dict_set type_id (now, names) (oc_reference_types c)\<rparr>))"

text \<open>The names of the supertypes, added to those discovered so far.\<close>

fun fold_supertypes ::
  "(string \<Rightarrow> string list \<Rightarrow> (string list \<times> string list) opc_run) \<Rightarrow> string list \<Rightarrow> string list \<Rightarrow> string list
   \<Rightarrow> (string list \<times> string list) opc_run" where
  "fold_supertypes chain [] discovered in_progress c = Some (Inr (discovered, in_progress), c)"
| "fold_supertypes chain (t # ts) discovered in_progress c =
     run_bind (chain t in_progress)
       (\<lambda>(names, in_progress'). fold_supertypes chain ts (add_names discovered names) in_progress') c"

fun resolve_reference_type_chain ::
  "nat \<Rightarrow> opc_env \<Rightarrow> string \<Rightarrow> string list \<Rightarrow> (string list \<times> string list) opc_run" where
  "resolve_reference_type_chain 0 env type_id in_progress c = None"
| "resolve_reference_type_chain (Suc fuel) env type_id in_progress c =
     run_bind (run (cached_reference_types env type_id))
       (\<lambda>cached. case cached of
          Some names \<Rightarrow> run (opc_return (names, in_progress))
        | None \<Rightarrow>
            if type_id \<in> set in_progress then run (opc_return ([], in_progress))
            else run_bind (run (get_node env type_id))
              (\<lambda>node. run_bind (run (own_name env node))
              (\<lambda>own. run_bind (supertype_ids env node)
              (\<lambda>supertypes. run_bind (fold_supertypes (resolve_reference_type_chain fuel env) supertypes own (set_add type_id in_progress))
              (\<lambda>(discovered, in_progress'). run_bind (run (remember_reference_type env type_id discovered))
              (\<lambda>_. run (opc_return (discovered, set_discard type_id in_progress')))))))) c"

definition resolve_reference_type_supertype_browse_names :: "nat \<Rightarrow> opc_env \<Rightarrow> string \<Rightarrow> string list opc_run" where
  "resolve_reference_type_supertype_browse_names fuel env reference_type_id =
     (if reference_type_id = [] then run (opc_return [])
      else run_bind (resolve_reference_type_chain fuel env reference_type_id [])
        (\<lambda>(names, _). run (opc_return names)))"

end
