(* ===== verification/OpcTypeProps.thy ===== *)
theory OpcTypeProps
  imports OpcTypes OpcBrowseProps
begin

text \<open>
  The hierarchy of a type definition: the type itself, then its supertypes, every one after a direct
  subtype of it, without repetition and complete, whether it is read from the server or put together
  from cached hierarchies; and the walk over the supertypes ends also when they run in circles.
\<close>

section \<open>Hierarchies\<close>

text \<open>The supertypes of a type, itself included; \<open>uppers\<close> gives the direct ones.\<close>

definition supertypes :: "(string \<Rightarrow> string list) \<Rightarrow> string \<Rightarrow> string set" where
  "supertypes uppers t = {u. (t, u) \<in> {(a, b). b \<in> set (uppers a)}\<^sup>*}"

lemma supertypes_refl [simp]: "t \<in> supertypes uppers t"
  by (simp add: supertypes_def)

lemma supertypes_step: "u \<in> supertypes uppers t \<Longrightarrow> v \<in> set (uppers u) \<Longrightarrow> v \<in> supertypes uppers t"
  by (auto simp: supertypes_def elim: rtrancl_into_rtrancl)

lemma supertypes_least:
  assumes "t \<in> S" "\<And>u. u \<in> S \<Longrightarrow> set (uppers u) \<subseteq> S"
  shows "supertypes uppers t \<subseteq> S"
proof
  fix u
  assume "u \<in> supertypes uppers t"
  then have "(t, u) \<in> {(a, b). b \<in> set (uppers a)}\<^sup>*" by (simp add: supertypes_def)
  then show "u \<in> S" using assms by (induction rule: rtrancl_induct) auto
qed

lemma supertypes_trans: "u \<in> supertypes uppers t \<Longrightarrow> supertypes uppers u \<subseteq> supertypes uppers t"
  by (rule supertypes_least) (auto intro: supertypes_step)

text \<open>A way up from a type: every further type is new and a direct supertype of an earlier one.\<close>

inductive climb :: "(string \<Rightarrow> string list) \<Rightarrow> string \<Rightarrow> string list \<Rightarrow> bool" for uppers t where
  climb_start: "climb uppers t [t]"
| climb_up: "climb uppers t ids \<Longrightarrow> y \<in> set ids \<Longrightarrow> x \<in> set (uppers y) \<Longrightarrow> x \<notin> set ids \<Longrightarrow> climb uppers t (ids @ [x])"

lemma climb_facts:
  assumes "climb uppers t ids"
  shows "ids \<noteq> []" "hd ids = t" "distinct ids" "set ids \<subseteq> supertypes uppers t"
  using assms by (induction rule: climb.induct) (auto intro: supertypes_step simp: hd_append)

definition type_info :: "(string \<Rightarrow> string) \<Rightarrow> string \<Rightarrow> OpcUaTypeDefinitionInfo" where
  "type_info name t = \<lparr>ti_node_id = t, ti_browse_name = name t, ti_namespace_uri = None\<rparr>"

lemma ti_node_id_info [simp]: "ti_node_id (type_info name t) = t"
  by (simp add: type_info_def)

definition hierarchy_of :: "(string \<Rightarrow> string list) \<Rightarrow> (string \<Rightarrow> string) \<Rightarrow> string \<Rightarrow> OpcUaTypeDefinitionInfo list \<Rightarrow> bool" where
  "hierarchy_of uppers name t chain \<longleftrightarrow>
     (\<exists>ids. chain = map (type_info name) ids \<and> climb uppers t ids \<and> set ids = supertypes uppers t)"

section \<open>Collecting one hierarchy\<close>

text \<open>What the search has found out: correct so far, and for every type also its direct supertypes.\<close>

definition chains_ok :: "(string \<Rightarrow> string list) \<Rightarrow> (string \<Rightarrow> string) \<Rightarrow> (string, OpcUaTypeDefinitionInfo list) dict \<Rightarrow> bool" where
  "chains_ok uppers name cached \<longleftrightarrow> (\<forall>t chain. dict_get cached t = Some chain \<longrightarrow> hierarchy_of uppers name t chain)"

definition found_ok :: "(string \<Rightarrow> string list) \<Rightarrow> (string \<Rightarrow> string) \<Rightarrow> hierarchy_search \<Rightarrow> bool" where
  "found_ok uppers name s \<longleftrightarrow> chains_ok uppers name (hs_cached s)
     \<and> (\<forall>t \<in> set (dict_keys (hs_parents s)). dict_get (hs_infos s) t = Some (type_info name t)
          \<and> dict_get (hs_parents s) t = Some (first_occurrences (uppers t)))"

definition types_known :: "hierarchy_search \<Rightarrow> string set" where
  "types_known s = set (dict_keys (hs_parents s)) \<union> set (dict_keys (hs_cached s))"

lemma set_first_occurrences [simp]: "set (first_occurrences xs) = set xs"
  by (induction xs) auto

lemma distinct_first_occurrences [simp]: "distinct (first_occurrences xs)"
  by (induction xs) auto

text \<open>The stack holds direct supertypes of what is collected, or it is the first step.\<close>

definition climbing :: "(string \<Rightarrow> string list) \<Rightarrow> string \<Rightarrow> string list \<Rightarrow> string list \<Rightarrow> bool" where
  "climbing uppers t stack seen \<longleftrightarrow>
     (if seen = [] then stack = [t] else climb uppers t seen \<and> (\<forall>x \<in> set stack. \<exists>y \<in> set seen. x \<in> set (uppers y)))"

lemma climbing_next:
  assumes "climbing uppers t (u # rest) seen" "u \<notin> set seen"
  shows "climb uppers t (seen @ [u])"
  using assms by (auto simp: climbing_def split: if_splits intro: climb_start climb_up)

lemma add_chain_snoc:
  "add_chain (chain @ [info]) start =
     (case add_chain chain start of (hierarchy, seen) \<Rightarrow>
        if ti_node_id info \<in> set seen then (hierarchy, seen) else (hierarchy @ [info], seen @ [ti_node_id info]))"
  by (simp add: add_chain_def split: prod.split)

lemma add_chain_climbs:
  assumes "climb uppers u ids" "climbing uppers t (u # rest) seen" "u \<notin> set seen"
  shows "\<exists>seen'. add_chain (map (type_info name) ids) (map (type_info name) seen, seen) = (map (type_info name) seen', seen')
    \<and> climb uppers t seen' \<and> set seen' = set seen \<union> set ids"
  using assms(1)
proof (induction rule: climb.induct)
  case climb_start
  show ?case using climbing_next [OF assms(2,3)] assms(3) by (simp add: add_chain_def)
next
  case (climb_up ids y x)
  then obtain seen' where seen': "add_chain (map (type_info name) ids) (map (type_info name) seen, seen) = (map (type_info name) seen', seen')"
    "climb uppers t seen'" "set seen' = set seen \<union> set ids" by blast
  show ?case
  proof (cases "x \<in> set seen'")
    case True
    then show ?thesis using seen' by (simp add: add_chain_snoc insert_absorb)
  next
    case False
    then have "climb uppers t (seen' @ [x])" using climb.climb_up [OF seen'(2) _ climb_up(3)] seen'(3) climb_up(2) by blast
    then show ?thesis using seen' False by (simp add: add_chain_snoc)
  qed
qed

lemma climbing_tail: "climbing uppers t (u # rest) seen \<Longrightarrow> u \<in> set seen \<Longrightarrow> climbing uppers t rest seen"
  by (auto simp: climbing_def split: if_splits)

lemma dict_get_keys: "t \<in> set (dict_keys d) \<Longrightarrow> \<exists>v. dict_get d t = Some v"
  by (metis domD map_of_SomeD weak_map_of_SomeI dom_map_of_conv_image_fst list.set_map)

lemma collect_hierarchy_correct:
  assumes "found_ok uppers name s" and "\<And>u. u \<in> set (dict_keys (hs_parents s)) \<Longrightarrow> set (uppers u) \<subseteq> types_known s"
    and "climbing uppers t stack seen" "set stack \<subseteq> types_known s" "\<And>u. u \<in> set seen \<Longrightarrow> set (uppers u) \<subseteq> set seen \<union> set stack"
    and "hierarchy = map (type_info name) seen"
  shows "\<exists>ids. collect_hierarchy s stack hierarchy seen = Some (map (type_info name) ids) \<and> climb uppers t ids
    \<and> (\<forall>u \<in> set ids. set (uppers u) \<subseteq> set ids)"
  using assms
proof (induction s stack hierarchy seen rule: collect_hierarchy.induct)
  case (1 s stack hierarchy seen)
  note found = 1(4) and closed = 1(5) and up = 1(6) and stack = 1(7) and rising = 1(8) and map = 1(9)
  show ?case
  proof (cases stack)
    case Nil
    then have "climb uppers t seen" using up by (auto simp: climbing_def split: if_splits)
    then show ?thesis using Nil rising map by (auto simp: collect_hierarchy.simps [of s "[]"])
  next
    case (Cons u rest)
    show ?thesis
    proof (cases "u \<in> set seen")
      case True
      then have "\<exists>ids. collect_hierarchy s rest hierarchy seen = Some (map (type_info name) ids) \<and> climb uppers t ids
          \<and> (\<forall>u \<in> set ids. set (uppers u) \<subseteq> set ids)"
        using 1(1) [OF Cons True found closed] climbing_tail [OF up [unfolded Cons]] stack rising map Cons by auto
      then show ?thesis using True Cons by (simp add: collect_hierarchy.simps [of s "u # rest"])
    next
      case new: False
      have u: "u \<in> types_known s" using stack Cons by simp
      show ?thesis
      proof (cases "dict_get (hs_cached s) u")
        case None
        then have "u \<in> set (dict_keys (hs_parents s))" using u dict_get_keys unfolding types_known_def by fastforce
        then have get: "dict_get (hs_infos s) u = Some (type_info name u)"
            "dict_get (hs_parents s) u = Some (first_occurrences (uppers u))" and uppers: "set (uppers u) \<subseteq> types_known s"
          using found closed by (auto simp: found_ok_def)
        have "climbing uppers t (first_occurrences (uppers u) @ rest) (seen @ [u])"
          using climbing_next [OF up [unfolded Cons] new] up [unfolded Cons] by (auto simp: climbing_def split: if_splits)
        then have "\<exists>ids. collect_hierarchy s (first_occurrences (uppers u) @ rest) (hierarchy @ [type_info name u]) (seen @ [u])
              = Some (map (type_info name) ids) \<and> climb uppers t ids \<and> (\<forall>u \<in> set ids. set (uppers u) \<subseteq> set ids)"
          using 1(2) [OF Cons new None _ get(1) get(2) found closed] uppers stack rising map Cons by auto
        then show ?thesis using new Cons None get by (simp add: collect_hierarchy.simps [of s "u # rest"])
      next
        case (Some chain)
        then obtain us where us: "chain = map (type_info name) us" "climb uppers u us" "set us = supertypes uppers u"
          using found Some unfolding found_ok_def chains_ok_def hierarchy_of_def by blast
        obtain seen' where seen': "add_chain chain (hierarchy, seen) = (map (type_info name) seen', seen')"
            "climb uppers t seen'" "set seen' = set seen \<union> set us"
          using add_chain_climbs [OF us(2) up [unfolded Cons] new] us(1) map by blast
        have "climbing uppers t rest seen'"
          using seen'(2,3) up [unfolded Cons] climb_facts(1) [OF seen'(2)] by (auto simp: climbing_def split: if_splits)
        moreover have "set (uppers x) \<subseteq> set seen' \<union> set rest" if "x \<in> set seen'" for x
        proof (cases "x \<in> set seen")
          case True
          then show ?thesis using rising [of x] seen'(3) us(3) Cons supertypes_refl [of u uppers] by auto
        next
          case False
          then show ?thesis using that seen'(3) us(3) supertypes_step [of x uppers u] by auto
        qed
        ultimately have "\<exists>ids. collect_hierarchy s rest (map (type_info name) seen') seen' = Some (map (type_info name) ids)
            \<and> climb uppers t ids \<and> (\<forall>u \<in> set ids. set (uppers u) \<subseteq> set ids)"
          using 1(3) [OF Cons new Some found closed] stack seen' Cons by auto
        then show ?thesis using new Cons Some seen' by (simp add: collect_hierarchy.simps [of s "u # rest"])
      qed
    qed
  qed
qed

lemma collected_hierarchy:
  assumes "found_ok uppers name s" and "\<And>u. u \<in> set (dict_keys (hs_parents s)) \<Longrightarrow> set (uppers u) \<subseteq> types_known s" and "t \<in> types_known s"
  shows "\<exists>chain. collect_hierarchy s [t] [] [] = Some chain \<and> hierarchy_of uppers name t chain"
proof -
  obtain ids where ids: "collect_hierarchy s [t] [] [] = Some (map (type_info name) ids)" "climb uppers t ids"
      "\<forall>u \<in> set ids. set (uppers u) \<subseteq> set ids"
    using collect_hierarchy_correct [OF assms(1,2), where t = t and stack = "[t]" and seen = "[]" and hierarchy = "[]"] assms(3)
    by (auto simp: climbing_def)
  have "t \<in> set ids" using climb_facts(1,2) [OF ids(2)] hd_in_set by fastforce
  then have "set ids = supertypes uppers t" using climb_facts(4) [OF ids(2)] supertypes_least [of t "set ids" uppers] ids(3) by blast
  then show ?thesis using ids(1,2) unfolding hierarchy_of_def by blast
qed

section \<open>Which types are known\<close>

definition cache_correct :: "(string \<Rightarrow> string list) \<Rightarrow> (string \<Rightarrow> string) \<Rightarrow> opc_client \<Rightarrow> bool" where
  "cache_correct uppers name c \<longleftrightarrow>
     (\<forall>t cached_at chain. dict_get (oc_type_hierarchies c) t = Some (cached_at, chain) \<longrightarrow> hierarchy_of uppers name t chain)"

lemma cache_correct_frame: "same_type_caches c c' \<Longrightarrow> cache_correct uppers name c \<Longrightarrow> cache_correct uppers name c'"
  by (simp add: same_type_caches_def cache_correct_def)

lemma frame_fresh: "\<exists>fresh c'. is_metadata_cache_entry_fresh env since c = (Inr fresh, c') \<and> same_type_caches c c'"
  by (cases since) (auto simp: is_metadata_cache_entry_fresh_def opc_return_def opc_bind_def clock_def Let_def same_type_caches_def)

lemma cached_hierarchy_result:
  assumes "cache_correct uppers name c"
  shows "\<exists>found c'. cached_hierarchy env t c = (Inr found, c') \<and> same_type_caches c c'
    \<and> (\<forall>chain. found = Some chain \<longrightarrow> hierarchy_of uppers name t chain)"
proof (cases "dict_get (oc_type_hierarchies c) t")
  case None
  then show ?thesis by (simp add: cached_hierarchy_def same_type_caches_def)
next
  case (Some entry)
  obtain cached_at chain where entry: "entry = (cached_at, chain)" by fastforce
  then have "hierarchy_of uppers name t chain" using assms Some by (auto simp: cache_correct_def)
  moreover obtain fresh c' where "is_metadata_cache_entry_fresh env (Some cached_at) c = (Inr fresh, c')" "same_type_caches c c'"
    using frame_fresh by blast
  ultimately show ?thesis using Some entry by (auto simp: cached_hierarchy_def opc_bind_def opc_return_def)
qed

lemma chains_ok_set: "chains_ok uppers name cached \<Longrightarrow> hierarchy_of uppers name t chain \<Longrightarrow> chains_ok uppers name (dict_set t chain cached)"
  by (auto simp: chains_ok_def dict_get_set split: if_splits)

lemma same_caches_trans: "same_type_caches a b \<Longrightarrow> same_type_caches b c \<Longrightarrow> same_type_caches a c"
  by (rule caches.frame_trans)

lemma split_pending_result:
  assumes "cache_correct uppers name c" "chains_ok uppers name cached" "distinct ts"
  shows "\<exists>unresolved cached' c'. split_pending env ts parents cached c = (Inr (unresolved, cached'), c') \<and> same_type_caches c c'
    \<and> chains_ok uppers name cached' \<and> set (dict_keys cached) \<subseteq> set (dict_keys cached')
    \<and> set (dict_keys cached') \<subseteq> set (dict_keys cached) \<union> set ts \<and> distinct unresolved
    \<and> set unresolved = set ts - set (dict_keys parents) - set (dict_keys cached')"
  using assms
proof (induction ts arbitrary: cached c)
  case Nil
  then show ?case by (simp add: caches.frame_refl)
next
  case (Cons t ts)
  show ?case
  proof (cases "t \<in> set (dict_keys parents) \<or> t \<in> set (dict_keys cached)")
    case True
    obtain unresolved cached' c' where rest: "split_pending env ts parents cached c = (Inr (unresolved, cached'), c')"
      "same_type_caches c c'" "chains_ok uppers name cached'" "set (dict_keys cached) \<subseteq> set (dict_keys cached')"
      "set (dict_keys cached') \<subseteq> set (dict_keys cached) \<union> set ts" "distinct unresolved"
      "set unresolved = set ts - set (dict_keys parents) - set (dict_keys cached')"
      using Cons.IH [OF Cons.prems(1,2)] Cons.prems(3) by auto
    show ?thesis
      by (rule exI [of _ unresolved], rule exI [of _ cached'], rule exI [of _ c'])
        (use rest True in \<open>simp only: split_pending.simps if_True\<close>, auto)
  next
    case new: False
    obtain found c1 where found: "cached_hierarchy env t c = (Inr found, c1)" "same_type_caches c c1"
        "\<And>chain. found = Some chain \<Longrightarrow> hierarchy_of uppers name t chain"
      using cached_hierarchy_result [OF Cons.prems(1)] by blast
    have c1: "cache_correct uppers name c1" by (rule cache_correct_frame [OF found(2) Cons.prems(1)])
    have unfolded: "split_pending env (t # ts) parents cached c =
        (case found of
           Some chain \<Rightarrow> split_pending env ts parents (dict_set t chain cached) c1
         | None \<Rightarrow> opc_bind (split_pending env ts parents cached)
             (\<lambda>(unresolved, cached'). opc_return (t # unresolved, cached')) c1)"
      using new found(1) by (simp add: opc_bind_def [of "cached_hierarchy env t"] split: option.split)
    have ts: "distinct ts" "t \<notin> set ts" using Cons.prems(3) by auto
    show ?thesis
    proof (cases found)
      case None
      obtain unresolved cached' c' where rest: "split_pending env ts parents cached c1 = (Inr (unresolved, cached'), c')"
        "same_type_caches c1 c'" "chains_ok uppers name cached'" "set (dict_keys cached) \<subseteq> set (dict_keys cached')"
        "set (dict_keys cached') \<subseteq> set (dict_keys cached) \<union> set ts" "distinct unresolved"
        "set unresolved = set ts - set (dict_keys parents) - set (dict_keys cached')"
        using Cons.IH [OF c1 Cons.prems(2) ts(1)] by auto
      have "split_pending env (t # ts) parents cached c = (Inr (t # unresolved, cached'), c')"
        unfolding unfolded using None rest(1) by (simp add: opc_bind_def opc_return_def)
      moreover have "t \<notin> set (dict_keys cached')" using rest(5) new ts(2) by blast
      moreover have "set (t # unresolved) = set (t # ts) - set (dict_keys parents) - set (dict_keys cached')"
        using rest(7) new calculation(2) by auto
      ultimately show ?thesis
        using same_caches_trans [OF found(2) rest(2)] rest ts(2) by (intro exI conjI) (assumption | auto)+
    next
      case (Some chain)
      have "chains_ok uppers name (dict_set t chain cached)" by (rule chains_ok_set [OF Cons.prems(2) found(3) [OF Some]])
      then obtain unresolved cached' c' where rest: "split_pending env ts parents (dict_set t chain cached) c1 = (Inr (unresolved, cached'), c')"
        "same_type_caches c1 c'" "chains_ok uppers name cached'" "set (dict_keys (dict_set t chain cached)) \<subseteq> set (dict_keys cached')"
        "set (dict_keys cached') \<subseteq> set (dict_keys (dict_set t chain cached)) \<union> set ts" "distinct unresolved"
        "set unresolved = set ts - set (dict_keys parents) - set (dict_keys cached')"
        using Cons.IH [OF c1 _ ts(1)] by metis
      have keys: "set (dict_keys (dict_set t chain cached)) = insert t (set (dict_keys cached))" by simp
      have "split_pending env (t # ts) parents cached c = (Inr (unresolved, cached'), c')"
        unfolding unfolded using Some rest(1) by simp
      moreover have "set unresolved = set (t # ts) - set (dict_keys parents) - set (dict_keys cached')"
        using rest(4,7) keys by auto
      ultimately show ?thesis
        using same_caches_trans [OF found(2) rest(2)] rest(3-6) keys by (intro exI conjI) (assumption | auto)+
    qed
  qed
qed

section \<open>The search\<close>

text \<open>
  A server that pages references, reads attributes, and has the names of the types in \<open>types\<close>, of which
  there are finitely many and which include the supertypes of each.
\<close>

definition direct_supertypes ::
  "(nat \<Rightarrow> browse_direction \<Rightarrow> bool \<Rightarrow> string \<Rightarrow> ref_description list) \<Rightarrow> string \<Rightarrow> string list" where
  "direct_supertypes refs_of t = map rd_node_id (refs_of HasSubtype Inverse False t)"

definition typed_server ::
  "opc_env \<Rightarrow> (nat \<Rightarrow> browse_direction \<Rightarrow> bool \<Rightarrow> string \<Rightarrow> ref_description list) \<Rightarrow> (string \<Rightarrow> ref_description list)
   \<Rightarrow> (string \<times> nat \<Rightarrow> ua_data) \<Rightarrow> (string \<Rightarrow> string) \<Rightarrow> string set \<Rightarrow> bool" where
  "typed_server env refs_of rest stored name types \<longleftrightarrow>
     browse_paged env refs_of rest \<and> finite types
     \<and> (\<forall>es nodes attr. ua_read_attributes env es nodes attr = Inr (map (\<lambda>node. stored (node, attr)) nodes))
     \<and> (\<forall>t \<in> types. type_named env stored t (name t) \<and> set (direct_supertypes refs_of t) \<subseteq> types)"

text \<open>An operation that returns this result and leaves the caches of the types alone.\<close>

lemma returns_in_frame:
  assumes "returns_run x m" "run_within_frame same_type_caches m"
  shows "\<exists>c'. m c = Some (Inr x, c') \<and> same_type_caches c c'"
  using assms unfolding returns_run_def run_within_frame_def by metis

definition add_infos ::
  "(string \<Rightarrow> string) \<Rightarrow> string list \<Rightarrow> (string, OpcUaTypeDefinitionInfo) dict \<Rightarrow> (string, OpcUaTypeDefinitionInfo) dict" where
  "add_infos name ts infos = foldl (\<lambda>d t. dict_set t (type_info name t) d) infos ts"

lemma add_infos_get: "dict_get (add_infos name ts infos) t = (if t \<in> set ts then Some (type_info name t) else dict_get infos t)"
  unfolding add_infos_def by (induction ts arbitrary: infos) (auto simp: dict_get_set)

lemma name_types_named:
  assumes "\<And>t. t \<in> set ts \<Longrightarrow> type_named env stored t (name t)"
  shows "name_types env (zip ts (map (\<lambda>t. stored (t, AttrBrowseName)) ts)) infos = Inr (add_infos name ts infos)"
  using assms by (induction ts arbitrary: infos) (auto simp: type_named_def add_infos_def type_info_def)

lemma read_type_names_named:
  assumes "typed_server env refs_of rest stored name types" "set (concat batches) \<subseteq> types"
  shows "returns (add_infos name (concat batches) infos) (read_type_names env batches infos)"
  using assms(2)
proof (induction batches arbitrary: infos)
  case Nil
  then show ?case by (simp add: returns_def add_infos_def)
next
  case (Cons b bs)
  have "returns (map (\<lambda>t. stored (t, AttrBrowseName)) b) (read_attribute_batch env AttrBrowseName b)"
    using assms(1) unfolding read_attribute_batch_def ask_read_attributes_def typed_server_def
    by (auto intro!: returns_silent returns_try returns_basic post_intros)
  note read = this
  have named: "name_types env (zip b (map (\<lambda>t. stored (t, AttrBrowseName)) b)) infos = Inr (add_infos name b infos)"
    using assms(1) Cons.prems by (intro name_types_named) (auto simp: typed_server_def)
  have later: "returns (add_infos name (concat (b # bs)) infos) (read_type_names env bs (add_infos name b infos))"
    using Cons by (simp add: add_infos_def)
  have "returns (add_infos name (concat (b # bs)) infos) (opc_bind (read_attribute_batch env AttrBrowseName b)
       (\<lambda>vs. if length vs \<noteq> length b then opc_raise (OtherException ''zip() arguments differ in length'')
             else case name_types env (zip b vs) infos of
               Inl exc \<Rightarrow> opc_raise exc
             | Inr infos' \<Rightarrow> read_type_names env bs infos'))"
    by (rule returns_bind [OF read]) (simp add: named later [simplified])
  then show ?case by (simp add: returns_def)
qed

lemma frame_read_type_names: "within_frame same_type_caches (read_type_names env batches infos)"
proof (induction batches arbitrary: infos)
  case (Cons b bs)
  have "within_frame same_type_caches (opc_bind (read_attribute_batch env AttrBrowseName b)
       (\<lambda>vs. if length vs \<noteq> length b then opc_raise (OtherException ''zip() arguments differ in length'')
             else case name_types env (zip b vs) infos of
               Inl exc \<Rightarrow> opc_raise exc
             | Inr infos' \<Rightarrow> read_type_names env bs infos'))"
    by (intro caches.frame_bind caches.frame_read_attribute_batch caches.frame_if)
      (auto simp: caches.frame_basic Cons split: sum.split)
  then show ?case by (simp add: within_frame_def)
qed (simp add: within_frame_def caches.frame_refl)

text \<open>What one level adds to the search.\<close>

definition level_found ::
  "(string \<Rightarrow> string list) \<Rightarrow> (string \<Rightarrow> string) \<Rightarrow> string list \<Rightarrow> hierarchy_search \<Rightarrow> hierarchy_search" where
  "level_found uppers name ts s = s\<lparr>hs_infos := add_infos name ts (hs_infos s),
     hs_parents := foldl (\<lambda>d t. dict_set t (first_occurrences (uppers t)) d) (hs_parents s) ts\<rparr>"

lemma resolve_level_result:
  assumes "typed_server env refs_of rest stored name types" "set ts \<subseteq> types"
  shows "\<exists>c'. resolve_level env ts s c = Some (Inr (concat (map (\<lambda>t. first_occurrences (direct_supertypes refs_of t)) ts),
      level_found (direct_supertypes refs_of) name ts s), c') \<and> same_type_caches c c'"
proof (rule returns_in_frame)
  have paged: "browse_paged env refs_of rest" using assms(1) by (simp add: typed_server_def)
  have nodes: "returns (map (\<lambda>t. t) ts) (get_nodes env ts)"
    using assms by (intro returns_get_nodes) (auto simp: typed_server_def type_named_def)
  have whole: "concat (chunked ts (or_else n 128)) = ts" for n
    by (rule concat_chunked) (simp add: or_else_def split: option.split)
  have names: "returns (add_infos name ts (hs_infos s)) (read_type_names env (chunked ts (or_else n 128)) (hs_infos s))" for n
    using read_type_names_named [OF assms(1), of "chunked ts (or_else n 128)"] assms(2) by (simp add: whole)
  have browsed: "returns_run (map (\<lambda>n. (n, refs_of HasSubtype Inverse False n)) ts)
      (browse_references_descriptions env ts k HasSubtype Inverse False)" for k
    using paged_references_are_complete [OF paged] by (simp add: returns_run_def)
  show "returns_run (concat (map (\<lambda>t. first_occurrences (direct_supertypes refs_of t)) ts),
      level_found (direct_supertypes refs_of) name ts s) (resolve_level env ts s)"
    unfolding resolve_level_def
  proof (intro returns_run_limits returns_run_bind [OF returns_runI [OF nodes]], unfold list.map_ident, goal_cases)
    case (1 limits)
    show ?case
      by (rule returns_run_bind [OF returns_runI [OF names] returns_run_bind [OF browsed]])
        (simp add: returns_runI returns_basic level_found_def record_parents_def direct_supertypes_def foldl_map comp_def
          returns_run_def run_def opc_return_def)
  qed
  show "run_within_frame same_type_caches (resolve_level env ts s)"
    unfolding resolve_level_def
    by (intro caches.frame_run_bind caches.frame_run caches.frame_get_operational_limits caches.frame_get_nodes
        frame_read_type_names caches.frame_browse_references caches.frame_basic)
qed

text \<open>
  Between two levels: what is found is right, the direct supertypes of the types read so far are known or
  pending, and so are the types asked for.
\<close>

definition search_inv ::
  "(string \<Rightarrow> string list) \<Rightarrow> (string \<Rightarrow> string) \<Rightarrow> string set \<Rightarrow> string set \<Rightarrow> string list \<Rightarrow> hierarchy_search \<Rightarrow> bool" where
  "search_inv uppers name types ids pending s \<longleftrightarrow>
     found_ok uppers name s \<and> set (dict_keys (hs_parents s)) \<union> set pending \<subseteq> types
     \<and> (\<forall>t \<in> set (dict_keys (hs_parents s)). set (uppers t) \<subseteq> types_known s \<union> set pending)
     \<and> ids \<subseteq> types_known s \<union> set pending"

definition search_done :: "(string \<Rightarrow> string list) \<Rightarrow> (string \<Rightarrow> string) \<Rightarrow> string set \<Rightarrow> hierarchy_search \<Rightarrow> bool" where
  "search_done uppers name ids s \<longleftrightarrow>
     found_ok uppers name s \<and> (\<forall>t \<in> set (dict_keys (hs_parents s)). set (uppers t) \<subseteq> types_known s) \<and> ids \<subseteq> types_known s"

lemma level_parents:
  "set (dict_keys (foldl (\<lambda>d t. dict_set t (f t) d) d ts)) = set (dict_keys d) \<union> set ts"
  "dict_get (foldl (\<lambda>d t. dict_set t (f t) d) d ts) t = (if t \<in> set ts then Some (f t) else dict_get d t)"
  by (induction ts arbitrary: d) (auto simp: dict_get_set)

lemma level_found_fields:
  "hs_cached (level_found uppers name ts s) = hs_cached s"
  "set (dict_keys (hs_parents (level_found uppers name ts s))) = set (dict_keys (hs_parents s)) \<union> set ts"
  "types_known (level_found uppers name ts s) = types_known s \<union> set ts"
  unfolding level_found_def types_known_def by (auto simp: level_parents(1) [simplified])

lemma level_found_ok:
  assumes "found_ok uppers name s"
  shows "found_ok uppers name (level_found uppers name ts s)"
proof -
  have "dict_get (hs_infos (level_found uppers name ts s)) t = Some (type_info name t)
      \<and> dict_get (hs_parents (level_found uppers name ts s)) t = Some (first_occurrences (uppers t))"
    if "t \<in> set (dict_keys (hs_parents s)) \<union> set ts" for t
    using assms that unfolding found_ok_def level_found_def by (auto simp: add_infos_get level_parents(2))
  then show ?thesis using assms unfolding found_ok_def level_found_fields by blast
qed

lemma search_types_result:
  assumes "typed_server env refs_of rest stored name types" "cache_correct (direct_supertypes refs_of) name c"
    and "search_inv (direct_supertypes refs_of) name types ids pending s"
  shows "\<exists>s' c'. search_types env pending s c = Some (Inr s', c') \<and> same_type_caches c c'
    \<and> search_done (direct_supertypes refs_of) name ids s'"
  using assms(2,3)
proof (induction "card (types - set (dict_keys (hs_parents s)))" arbitrary: pending s c rule: less_induct)
  case less
  let ?up = "direct_supertypes refs_of"
  have found: "found_ok ?up name s" and pending: "set pending \<subseteq> types" "set (dict_keys (hs_parents s)) \<subseteq> types"
    and closed: "\<And>t. t \<in> set (dict_keys (hs_parents s)) \<Longrightarrow> set (?up t) \<subseteq> types_known s \<union> set pending" "ids \<subseteq> types_known s \<union> set pending"
    using less.prems(2) unfolding search_inv_def by blast+
  show ?case
  proof (cases "pending = []")
    case True
    then show ?thesis
      using found closed by (auto simp: search_types.simps [of env "[]"] search_done_def caches.frame_refl)
  next
    case False
    have cached: "chains_ok ?up name (hs_cached s)" using found by (simp add: found_ok_def)
    obtain unresolved cached' c1 where split:
      "split_pending env (first_occurrences pending) (hs_parents s) (hs_cached s) c = (Inr (unresolved, cached'), c1)"
      "same_type_caches c c1" "chains_ok ?up name cached'" "set (dict_keys (hs_cached s)) \<subseteq> set (dict_keys cached')"
      "set unresolved = set pending - set (dict_keys (hs_parents s)) - set (dict_keys cached')"
      using split_pending_result [OF less.prems(1) cached distinct_first_occurrences, of env pending "hs_parents s"]
      unfolding set_first_occurrences by blast
    let ?s = "s\<lparr>hs_cached := cached'\<rparr>"
    have s: "found_ok ?up name ?s" using found split(3) by (simp add: found_ok_def)
    have more: "types_known s \<union> set pending \<subseteq> types_known ?s \<union> set unresolved" "types_known s \<subseteq> types_known ?s"
      using split(4,5) unfolding types_known_def by auto
    show ?thesis
    proof (cases "unresolved = []")
      case True
      then have all: "types_known s \<union> set pending \<subseteq> types_known ?s" using more(1) by simp
      have "search_done ?up name ids ?s"
        unfolding search_done_def
      proof (intro conjI ballI s)
        show "ids \<subseteq> types_known ?s" using closed(2) all by blast
        fix t
        assume "t \<in> set (dict_keys (hs_parents ?s))"
        then have "set (?up t) \<subseteq> types_known s \<union> set pending" using closed(1) by simp
        then show "set (?up t) \<subseteq> types_known ?s" using all by blast
      qed
      then show ?thesis
        using False True split(1,2) by (auto simp: search_types.simps [of env pending])
    next
      case some: False
      have types: "set unresolved \<subseteq> types" using split(5) pending by blast
      let ?next = "concat (map (\<lambda>t. first_occurrences (?up t)) unresolved)" and ?found = "level_found ?up name unresolved ?s"
      obtain c2 where level: "resolve_level env unresolved ?s c1 = Some (Inr (?next, ?found), c2)" "same_type_caches c1 c2"
        using resolve_level_result [OF assms(1) types] by blast
      have frame: "same_type_caches c c2" by (rule same_caches_trans [OF split(2) level(2)])
      have inv: "search_inv ?up name types ids ?next ?found"
        unfolding search_inv_def
      proof (intro conjI ballI)
        show "found_ok ?up name ?found" by (rule level_found_ok [OF s])
        have "set (?up t) \<subseteq> types" if "t \<in> types" for t using assms(1) that by (auto simp: typed_server_def)
        then show "set (dict_keys (hs_parents ?found)) \<union> set ?next \<subseteq> types"
          using types pending(2) unfolding level_found_fields by auto
        show "ids \<subseteq> types_known ?found \<union> set ?next" using closed(2) more unfolding level_found_fields by blast
        fix t
        assume "t \<in> set (dict_keys (hs_parents ?found))"
        then consider "t \<in> set (dict_keys (hs_parents s))" | "t \<in> set unresolved" unfolding level_found_fields by auto
        then show "set (?up t) \<subseteq> types_known ?found \<union> set ?next"
          using closed(1) [of t] more unfolding level_found_fields by cases auto
      qed
      have "card (types - set (dict_keys (hs_parents ?found))) < card (types - set (dict_keys (hs_parents s)))"
      proof (rule psubset_card_mono)
        show "finite (types - set (dict_keys (hs_parents s)))" using assms(1) by (simp add: typed_server_def)
        obtain t where "t \<in> set unresolved" using some by (cases unresolved) auto
        then show "types - set (dict_keys (hs_parents ?found)) \<subset> types - set (dict_keys (hs_parents s))"
          using types split(5) unfolding level_found_fields by auto
      qed
      from less.hyps [OF this cache_correct_frame [OF frame less.prems(1)] inv] obtain s' c' where
        "search_types env ?next ?found c2 = Some (Inr s', c')" "same_type_caches c2 c'" "search_done ?up name ids s'" by blast
      then show ?thesis
        using False some split(1) level(1) same_caches_trans [OF frame] by (simp add: search_types.simps [of env pending])
    qed
  qed
qed

section \<open>All hierarchies\<close>

lemma cache_hierarchy_result:
  assumes "cache_correct uppers name c" "hierarchy_of uppers name t chain"
  shows "\<exists>c'. cache_hierarchy env t chain c = (Inr (), c') \<and> cache_correct uppers name c'"
  using assms by (auto simp: cache_hierarchy_def clock_def opc_bind_def opc_modify_def Let_def cache_correct_def dict_get_set)

lemma collect_hierarchies_result:
  assumes "search_done uppers name ids s" "set roots \<subseteq> types_known s" "chains_ok uppers name hierarchies" "cache_correct uppers name c"
  shows "\<exists>d c'. collect_hierarchies env s roots hierarchies c = (Inr d, c') \<and> chains_ok uppers name d
    \<and> set (dict_keys d) = set (dict_keys hierarchies) \<union> set roots \<and> cache_correct uppers name c'"
  using assms(2-4)
proof (induction roots arbitrary: hierarchies c)
  case (Cons t roots)
  obtain chain where chain: "collect_hierarchy s [t] [] [] = Some chain" "hierarchy_of uppers name t chain"
    using collected_hierarchy [of uppers name s t] assms(1) Cons.prems(1) unfolding search_done_def by auto
  obtain c1 where c1: "cache_hierarchy env t chain c = (Inr (), c1)" "cache_correct uppers name c1"
    using cache_hierarchy_result [OF Cons.prems(3) chain(2)] by blast
  obtain d c' where "collect_hierarchies env s roots (dict_set t chain hierarchies) c1 = (Inr d, c')" "chains_ok uppers name d"
      "set (dict_keys d) = set (dict_keys (dict_set t chain hierarchies)) \<union> set roots" "cache_correct uppers name c'"
    using Cons.IH [OF _ chains_ok_set [OF Cons.prems(2) chain(2)] c1(2)] Cons.prems(1) by auto
  then show ?case using chain(1) c1(1) by (simp add: opc_bind_def)
qed simp

text \<open>
  C31. The hierarchies of type definitions: against a server that pages its references and has the names
  of the types, the call returns, also when supertypes run in circles, with exactly the types asked for,
  each with itself first and then all its supertypes, every one once and after a direct subtype of it,
  whatever part of it comes from the cache; and the cache is right afterwards.
\<close>

theorem type_hierarchies_complete:
  assumes "typed_server env refs_of rest stored name types" and "set ids \<subseteq> types"
    and "cache_correct (direct_supertypes refs_of) name c"
  shows "\<exists>d c'. resolve_type_definition_hierarchies env ids c = Some (Inr d, c')
    \<and> map fst d = first_occurrences ids
    \<and> (\<forall>(t, chain) \<in> set d. hierarchy_of (direct_supertypes refs_of) name t chain)
    \<and> cache_correct (direct_supertypes refs_of) name c'"
proof (cases "first_occurrences ids = []")
  case True
  then show ?thesis using assms(3) by (simp add: resolve_type_definition_hierarchies_def run_def opc_return_def)
next
  case False
  let ?up = "direct_supertypes refs_of" and ?start = "\<lparr>hs_cached = [], hs_infos = [], hs_parents = []\<rparr>"
  have "search_inv ?up name types (set ids) (first_occurrences ids) ?start"
    using assms(2) by (simp add: search_inv_def found_ok_def chains_ok_def)
  then obtain s c1 where search: "search_types env (first_occurrences ids) ?start c = Some (Inr s, c1)"
      "same_type_caches c c1" "search_done ?up name (set ids) s"
    using search_types_result [OF assms(1,3)] by blast
  have "chains_ok ?up name (hs_cached s)" using search(3) by (simp add: search_done_def found_ok_def)
  then obtain d c2 where collected: "collect_hierarchies env s (dict_keys (hs_parents s)) (hs_cached s) c1 = (Inr d, c2)"
      "chains_ok ?up name d" "set (dict_keys d) = types_known s" "cache_correct ?up name c2"
    using collect_hierarchies_result [OF search(3), of "dict_keys (hs_parents s)"]
      cache_correct_frame [OF search(2) assms(3)] unfolding types_known_def by (metis Un_commute Un_upper1)
  have all_known: "set ids \<subseteq> set (dict_keys d)" using search(3) collected(3) by (simp add: search_done_def)
  then have "resolve_type_definition_hierarchies env ids c =
      Some (Inr (map (\<lambda>t. (t, dict_get_def d t [])) (first_occurrences ids)), c2)"
    using False search(1) collected(1)
    by (auto simp: resolve_type_definition_hierarchies_def Let_def run_bind_def run_def requested_hierarchies_def
        opc_return_def list_all_iff)
  moreover have "hierarchy_of ?up name t (dict_get_def d t [])" if asked: "t \<in> set ids" for t
  proof -
    obtain chain where "dict_get d t = Some chain" using dict_get_keys [OF subsetD [OF all_known asked]] by blast
    then show ?thesis using collected(2) by (simp add: chains_ok_def dict_get_def_def)
  qed
  ultimately show ?thesis using collected(4) by (auto simp: comp_def)
qed

section \<open>A server to run it on\<close>

text \<open>The supertypes of \<open>c\<close> are \<open>b\<close> and \<open>a\<close>, and \<open>a\<close> claims to be a subtype of \<open>b\<close>; that of \<open>b\<close> is cached.\<close>

definition demo_supertypes :: "nat \<Rightarrow> browse_direction \<Rightarrow> bool \<Rightarrow> string \<Rightarrow> ref_description list" where
  "demo_supertypes t d s node =
     (if node = ''c'' then [demo_ref ''b'', demo_ref ''a''] else if node = ''b'' then [demo_ref ''a''] else [demo_ref ''b''])"

definition demo_types :: opc_env where
  "demo_types = demo_opc\<lparr>
     ua_browse := (\<lambda>es params. Inr (map (\<lambda>node. \<lparr>ba_status = None,
        ba_references = demo_supertypes (bp_type params) (bp_direction params) (bp_subtypes params) node, ba_continuation = []\<rparr>)
        (bp_nodes params))),
     ua_browse_next := (\<lambda>es points. Inr (map (\<lambda>_. \<lparr>ba_status = None, ba_references = [], ba_continuation = []\<rparr>) points)),
     ua_read_attributes := (\<lambda>es nodes attr. Inr (map (\<lambda>node. demo_stored (node, attr)) nodes))\<rparr>"

definition cached_client :: opc_client where
  "cached_client = new_client\<lparr>oc_type_hierarchies := [(''b'', 0, [type_info (\<lambda>t. t) ''b'', type_info (\<lambda>t. t) ''a''])]\<rparr>"

lemma demo_typed_server:
  "typed_server demo_types demo_supertypes (\<lambda>_. []) demo_stored (\<lambda>t. t) {''a'', ''b'', ''c''}"
proof -
  have "browse_paged demo_types demo_supertypes (\<lambda>_. [])"
    by (auto simp: browse_paged_def demo_types_def list_all2_conv_all_nth reference_page_def)
  then show ?thesis
    by (auto simp: typed_server_def demo_types_def type_named_def direct_supertypes_def demo_supertypes_def demo_ref_def
        demo_opc_def demo_stored_def extract_attribute_value_def)
qed

lemma demo_cache_correct: "cache_correct (direct_supertypes demo_supertypes) (\<lambda>t. t) cached_client"
proof -
  let ?up = "direct_supertypes demo_supertypes"
  have "climb ?up ''b'' [''b'', ''a'']"
    using climb_up [OF climb_start [of ?up "''b''"], of "''b''" "''a''"]
    by (simp add: direct_supertypes_def demo_supertypes_def demo_ref_def)
  moreover have "supertypes ?up ''b'' = {''a'', ''b''}"
  proof
    show "supertypes ?up ''b'' \<subseteq> {''a'', ''b''}"
      by (rule supertypes_least) (auto simp: direct_supertypes_def demo_supertypes_def demo_ref_def)
    have "''a'' \<in> supertypes ?up ''b''"
      by (rule supertypes_step [OF supertypes_refl]) (simp add: direct_supertypes_def demo_supertypes_def demo_ref_def)
    then show "{''a'', ''b''} \<subseteq> supertypes ?up ''b''" by simp
  qed
  ultimately have "hierarchy_of ?up (\<lambda>t. t) ''b'' [type_info (\<lambda>t. t) ''b'', type_info (\<lambda>t. t) ''a'']"
    unfolding hierarchy_of_def by (intro exI [of _ "[''b'', ''a'']"]) auto
  then show ?thesis by (auto simp: cache_correct_def cached_client_def split: if_splits)
qed

theorem type_hierarchies_complete_witness:
  "\<exists>chain c'. resolve_type_definition_hierarchies demo_types [''c''] cached_client = Some (Inr [(''c'', chain)], c')
     \<and> hierarchy_of (direct_supertypes demo_supertypes) (\<lambda>t. t) ''c'' chain"
proof -
  have c: "set [''c''] \<subseteq> {''a'', ''b'', ''c''}" by simp
  from type_hierarchies_complete [OF demo_typed_server c demo_cache_correct] obtain d c' where
    d: "resolve_type_definition_hierarchies demo_types [''c''] cached_client = Some (Inr d, c')" "map fst d = [''c'']"
      "\<forall>(t, chain) \<in> set d. hierarchy_of (direct_supertypes demo_supertypes) (\<lambda>t. t) t chain"
    by auto
  then obtain chain where "d = [(''c'', chain)]" by (cases d) (auto simp: map_eq_Cons_conv)
  then show ?thesis using d by auto
qed

section \<open>Reference types in a circle\<close>

declare continue_browse.simps [code]

definition demo_chain :: opc_env where
  "demo_chain = demo_types\<lparr>ua_read_browse_name := (\<lambda>es node. Inr (Some (Some node, node)))\<rparr>"

text \<open>
  The supertypes of a reference type that are reached inside a circle are cached without those whose
  call is still in progress: asked first, \<open>b\<close> has the supertype \<open>a\<close>; asked after \<open>a\<close>, it has none.
\<close>

theorem chain_cached_in_circle_is_truncated:
  "map_option fst (resolve_reference_type_supertype_browse_names 5 demo_chain ''b'' new_client) = Some (Inr [''b'', ''a''])
   \<and> map_option fst (case resolve_reference_type_supertype_browse_names 5 demo_chain ''a'' new_client of
        Some (_, c) \<Rightarrow> resolve_reference_type_supertype_browse_names 5 demo_chain ''b'' c) = Some (Inr [''b''])"
  by code_simp

end
