(* ===== verification/ModelTools.thy ===== *)
theory ModelTools
  imports ModelAccess
begin

text \<open>
  The model tools of the MCP server, \<open>i3x_server/mcp/model_tools.py\<close>: the validation of their arguments,
  the resolution of element ids and NodeIds, the search over names and metadata, the context of an
  element, the summary of a subtree and the shortest path between two elements.

  The arguments are a JSON object, a dictionary of Python values. A JSON object of the answer is a record,
  with \<open>None\<close> for an entry that is left out; the revision of the model, a hash, and Python's \<open>str\<close> of
  a metadata value are parameters.
\<close>

section \<open>Arguments\<close>

definition MCP_MODEL_CONTEXT_MAX_ITEMS :: nat where "MCP_MODEL_CONTEXT_MAX_ITEMS = 500"
definition MCP_MODEL_PATH_MAX_NODES :: nat where "MCP_MODEL_PATH_MAX_NODES = 5000"
definition MCP_ID_RESOLUTION_MAX_ITEMS :: nat where "MCP_ID_RESOLUTION_MAX_ITEMS = 500"

type_synonym arguments = "(string, pyval) dict"

text \<open>The \<open>required\<close> entry of each schema.\<close>

definition required_arguments :: "string \<Rightarrow> string list" where
  "required_arguments tool_name =
     (if tool_name = ''resolveElementIdsToNodeIds'' then [''elementIds'']
      else if tool_name = ''resolveNodeIdsToElementIds'' then [''nodeIds'']
      else if tool_name = ''searchModelElements'' then [''text'']
      else if tool_name = ''getElementContext'' then [''elementId'']
      else if tool_name = ''summarizeSubtree'' then [''rootElementId'']
      else if tool_name = ''traceRelationshipPath'' then [''sourceElementId'', ''targetElementId'']
      else [])"

definition batch_field :: "string \<Rightarrow> string option" where
  "batch_field tool_name =
     map_of [(''resolveElementIdsToNodeIds'', ''elementIds''), (''resolveNodeIdsToElementIds'', ''nodeIds'')] tool_name"

definition bad_request :: "string \<Rightarrow> exn" where
  "bad_request message = HTTPException 400 message"

text \<open>A check of the fields that are there.\<close>

definition check_fields :: "arguments \<Rightarrow> string list \<Rightarrow> (string \<Rightarrow> pyval \<Rightarrow> bool) \<Rightarrow> (string \<Rightarrow> string) \<Rightarrow> unit result" where
  "check_fields args names ok message =
     rfold (\<lambda>_ field.
       case dict_get args field of
         None \<Rightarrow> Inr ()
       | Some v \<Rightarrow> if ok field v then Inr () else Inl (bad_request (message field))) () names"

definition text_ok :: "pyval \<Rightarrow> bool" where
  "text_ok v = (case v of PStr s \<Rightarrow> py_strip s \<noteq> [] | _ \<Rightarrow> False)"

definition is_text :: "pyval \<Rightarrow> bool" where
  "is_text v = (case v of PStr _ \<Rightarrow> True | _ \<Rightarrow> False)"

definition is_bool :: "pyval \<Rightarrow> bool" where
  "is_bool v = (case v of PBool _ \<Rightarrow> True | _ \<Rightarrow> False)"

definition integer_bounds :: "(string \<times> nat \<times> nat option) list" where
  "integer_bounds =
     [(''limit'', 1, Some 100), (''offset'', 0, None), (''ancestorDepth'', 0, Some 32),
      (''childLimit'', 1, Some MCP_MODEL_CONTEXT_MAX_ITEMS), (''relationshipLimit'', 1, Some MCP_MODEL_CONTEXT_MAX_ITEMS),
      (''maxDepth'', 0, Some 32), (''maxNodes'', 1, Some 500)]"

definition int_ok :: "string \<Rightarrow> pyval \<Rightarrow> bool" where
  "int_ok field v =
     (case (map_of integer_bounds field, v) of
        (Some (minimum, maximum), PInt i) \<Rightarrow>
          int minimum \<le> i \<and> (case maximum of None \<Rightarrow> True | Some k \<Rightarrow> i \<le> int k)
      | _ \<Rightarrow> False)"

definition bound_text :: "string \<Rightarrow> string" where
  "bound_text field =
     (case map_of integer_bounds field of
        Some (minimum, Some maximum) \<Rightarrow> nat_digits minimum @ '' to '' @ nat_digits maximum
      | Some (minimum, None) \<Rightarrow> ''at least '' @ nat_digits minimum
      | None \<Rightarrow> [])"

definition planes_ok :: "pyval \<Rightarrow> bool" where
  "planes_ok v =
     (case v of
        PList ps \<Rightarrow> list_all (\<lambda>p. p \<in> {PStr ''hierarchy'', PStr ''composition'', PStr ''graph''}) ps
      | _ \<Rightarrow> False)"

definition enum_values :: "(string \<times> string list) list" where
  "enum_values =
     [(''kind'', [''asset'', ''property'', ''action'', ''eventSource'']),
      (''semanticRole'', [''asset'', ''group'', ''component'', ''datapoint'', ''property'', ''unknown'']),
      (''mappingConfidence'', [''high'', ''medium'', ''low''])]"

definition batch_ok :: "pyval \<Rightarrow> bool" where
  "batch_ok v = (case v of PList xs \<Rightarrow> xs \<noteq> [] \<and> length xs \<le> MCP_ID_RESOLUTION_MAX_ITEMS | _ \<Rightarrow> False)"

text \<open>
  \<open>_validate_model_tool_arguments\<close> for the six tools; the tools of \<open>model_access.py\<close> are validated against
  their JSON schemas by the library.
\<close>

definition validate_model_tool_arguments :: "string \<Rightarrow> arguments \<Rightarrow> unit result" where
  "validate_model_tool_arguments tool_name args =
     (let missing = filter (\<lambda>f. dict_get args f = None) (required_arguments tool_name)
      in if missing \<noteq> [] then Inl (bad_request (''Missing required arguments: '' @ join_with '', '' missing))
         else case batch_field tool_name of
           Some field \<Rightarrow>
             check_fields args [field] (\<lambda>_. batch_ok)
               (\<lambda>f. f @ '' must contain between 1 and '' @ nat_digits MCP_ID_RESOLUTION_MAX_ITEMS @ '' items'')
         | None \<Rightarrow>
             rbind (check_fields args [''elementId'', ''rootElementId'', ''sourceElementId'', ''targetElementId'']
               (\<lambda>_. text_ok) (\<lambda>f. f @ '' must be a non-empty string''))
             (\<lambda>_. rbind (check_fields args [''text'', ''kind'', ''semanticRole'', ''namespaceUri'', ''typeElementId'',
               ''mappingConfidence'', ''appliedProfileId'', ''relationshipType''] (\<lambda>_. is_text) (\<lambda>f. f @ '' must be a string''))
             (\<lambda>_. rbind (check_fields args (if tool_name = ''searchModelElements'' then [''text''] else [])
               (\<lambda>_. text_ok) (\<lambda>_. ''text must be a non-empty targeted search term''))
             (\<lambda>_. rbind (check_fields args [''includeChildren'', ''includeRelationships'', ''includeTypeAndMetadata'',
               ''includeHierarchy'', ''includeComposition'', ''includeProperties'', ''includeActions'']
               (\<lambda>_. is_bool) (\<lambda>f. f @ '' must be a boolean''))
             (\<lambda>_. rbind (check_fields args (map fst integer_bounds) int_ok (\<lambda>f. f @ '' must be an integer from '' @ bound_text f))
             (\<lambda>_. rbind (check_fields args [''relationshipPlanes''] (\<lambda>_. planes_ok)
               (\<lambda>_. ''relationshipPlanes must contain hierarchy, composition, or graph''))
             (\<lambda>_. rbind (check_fields args [''direction'']
               (\<lambda>_ v. v \<in> {PStr ''outgoing'', PStr ''incoming'', PStr ''either''})
               (\<lambda>_. ''direction must be outgoing, incoming, or either''))
             (\<lambda>_. check_fields args (map fst enum_values)
               (\<lambda>f v. v \<in> set (map PStr (the (map_of enum_values f))))
               (\<lambda>f. ''Invalid '' @ f @ '': '' @ (case dict_get args f of Some (PStr s) \<Rightarrow> s | _ \<Rightarrow> []))))))))))"

text \<open>The arguments as the tools read them, once they are validated.\<close>

definition text_arg :: "arguments \<Rightarrow> string \<Rightarrow> string option" where
  "text_arg args field = (case dict_get args field of Some (PStr s) \<Rightarrow> Some s | _ \<Rightarrow> None)"

definition nat_arg :: "arguments \<Rightarrow> string \<Rightarrow> nat \<Rightarrow> nat" where
  "nat_arg args field default_value = (case dict_get args field of Some (PInt i) \<Rightarrow> nat i | _ \<Rightarrow> default_value)"

definition bool_arg :: "arguments \<Rightarrow> string \<Rightarrow> bool" where
  "bool_arg args field = (case dict_get args field of Some (PBool b) \<Rightarrow> b | _ \<Rightarrow> True)"

section \<open>Summaries\<close>

record node_summary =
  ns_element_id :: string
  ns_display_name :: string
  ns_kind :: NodeKind
  ns_semantic_role :: SemanticRole
  ns_mapping_confidence :: MappingConfidence
  ns_type_element_id :: string
  ns_namespace_uri :: pyval
  ns_applied_profile_ids :: "pyval list"
  ns_parent_id :: "string option"
  ns_writable :: "bool option"
  ns_executable :: "bool option"

definition metadata_of :: "ModelNode \<Rightarrow> string \<Rightarrow> pyval" where
  "metadata_of n field = dict_get_def (mn_metadata n) field PNone"

text \<open>\<open>applied_profile_ids_by_id.get(id, metadata.get("appliedProfileIds", []))\<close>.\<close>

definition profile_ids_value :: "BuildResult \<Rightarrow> ModelNode \<Rightarrow> pyval" where
  "profile_ids_value m n =
     (case dict_get (br_applied_profile_ids_by_id m) (mn_id n) of
        Some ids \<Rightarrow> PList (map PStr ids)
      | None \<Rightarrow> dict_get_def (mn_metadata n) ''appliedProfileIds'' (PList []))"

text \<open>The search and the summaries take a list; the builder stores no other value.\<close>

definition profile_ids :: "BuildResult \<Rightarrow> ModelNode \<Rightarrow> pyval list" where
  "profile_ids m n = (case profile_ids_value m n of PList ids \<Rightarrow> ids | _ \<Rightarrow> [])"

definition namespace_value :: "BuildResult \<Rightarrow> ModelNode \<Rightarrow> pyval" where
  "namespace_value m n =
     (case dict_get (br_namespace_uri_by_id m) (mn_id n) of
        Some (Some u) \<Rightarrow> if u \<noteq> [] then PStr u else metadata_of n ''namespaceUri''
      | _ \<Rightarrow> metadata_of n ''namespaceUri'')"

definition summary_role :: "BuildResult \<Rightarrow> ModelNode \<Rightarrow> SemanticRole" where
  "summary_role m n = dict_get_def (br_semantic_role_by_id m) (mn_id n) (mn_semantic_role n)"

definition summary_confidence :: "BuildResult \<Rightarrow> ModelNode \<Rightarrow> MappingConfidence" where
  "summary_confidence m n = dict_get_def (br_mapping_confidence_by_id m) (mn_id n) (mn_mapping_confidence n)"

definition bool_of :: "pyval \<Rightarrow> bool option" where
  "bool_of v = (case v of PBool b \<Rightarrow> Some b | _ \<Rightarrow> None)"

definition model_node_summary :: "BuildResult \<Rightarrow> ModelNode \<Rightarrow> node_summary" where
  "model_node_summary m n =
     \<lparr>ns_element_id = mn_id n, ns_display_name = mn_name n, ns_kind = mn_kind n,
      ns_semantic_role = summary_role m n, ns_mapping_confidence = summary_confidence m n,
      ns_type_element_id = (case or_else (mn_type n) (mn_source_type_id n) of
          Some t \<Rightarrow> if t \<noteq> [] then t else kind_name (mn_kind n) | None \<Rightarrow> kind_name (mn_kind n)),
      ns_namespace_uri = namespace_value m n, ns_applied_profile_ids = profile_ids m n, ns_parent_id = mn_parent_id n,
      ns_writable = bool_of (metadata_of n ''writable''), ns_executable = bool_of (metadata_of n ''userExecutable'')\<rparr>"

section \<open>Element ids and NodeIds\<close>

datatype id_item =
    IdFailed pyval int string
  | NodeIdFound string string string NodeKind "string option"
  | ElementIdFound pyval string string NodeKind

definition id_succeeded :: "id_item \<Rightarrow> bool" where
  "id_succeeded item = (case item of IdFailed _ _ _ \<Rightarrow> False | _ \<Rightarrow> True)"

definition resolve_element_id :: "BuildResult \<Rightarrow> pyval \<Rightarrow> id_item" where
  "resolve_element_id m element_id =
     (case element_id of
        PStr s \<Rightarrow>
          if py_strip s = [] then IdFailed element_id 400 ''ElementId must be a non-empty string''
          else (case node_of m s of
            None \<Rightarrow> IdFailed element_id 404 ''ElementId not found''
          | Some n \<Rightarrow>
              (case metadata_of n ''uaNodeId'' of
                 PStr node_id \<Rightarrow>
                   if node_id = [] then IdFailed element_id 404 ''OPC UA NodeId is not available in the cached model''
                   else NodeIdFound (mn_id n) node_id (mn_name n) (mn_kind n)
                     (case metadata_of n ''expandedNodeId'' of
                        PStr expanded \<Rightarrow> if startswith expanded ''nsu='' then Some expanded else None
                      | _ \<Rightarrow> None)
               | _ \<Rightarrow> IdFailed element_id 404 ''OPC UA NodeId is not available in the cached model''))
      | _ \<Rightarrow> IdFailed element_id 400 ''ElementId must be a non-empty string'')"

definition resolve_element_ids_to_node_ids :: "BuildResult \<Rightarrow> pyval list \<Rightarrow> bool \<times> id_item list" where
  "resolve_element_ids_to_node_ids m element_ids =
     (let items = map (resolve_element_id m) element_ids in (list_all id_succeeded items, items))"

definition resolve_node_id :: "BuildResult \<Rightarrow> pyval \<Rightarrow> id_item result" where
  "resolve_node_id m node_id =
     (case node_id of
        PStr s \<Rightarrow>
          if py_strip s = [] then Inr (IdFailed node_id 400 ''NodeId must be a non-empty string'')
          else rbind (canonical_node_id s (dict_get (br_namespace_uri_by_index m)))
            (\<lambda>canonical. case canonical of
               None \<Rightarrow> Inr (IdFailed node_id 400 ''Invalid OPC UA NodeId format'')
             | Some key \<Rightarrow>
                 let element_id = (case dict_get (br_element_id_by_expanded_node_id m) key of
                       Some e \<Rightarrow> Some e | None \<Rightarrow> dict_get (br_element_id_by_node_id m) (py_strip s))
                 in Inr (case Option.bind element_id (node_of m) of
                      None \<Rightarrow> IdFailed node_id 404 ''NodeId not found in the cached model''
                    | Some n \<Rightarrow> ElementIdFound node_id (mn_id n) (mn_name n) (mn_kind n)))
      | _ \<Rightarrow> Inr (IdFailed node_id 400 ''NodeId must be a non-empty string''))"

definition resolve_node_ids_to_element_ids :: "BuildResult \<Rightarrow> pyval list \<Rightarrow> (bool \<times> id_item list) result" where
  "resolve_node_ids_to_element_ids m node_ids =
     rbind (rmap (resolve_node_id m) node_ids) (\<lambda>items. Inr (list_all id_succeeded items, items))"

section \<open>Relationships\<close>

definition model_relationships :: "BuildResult \<Rightarrow> ModelNode \<Rightarrow> (string, string list) dict" where
  "model_relationships m n =
     (case dict_get (br_relationships_by_id m) (mn_id n) of Some rs \<Rightarrow> rs | None \<Rightarrow> mn_relationships n)"

definition relationship_plane :: "string \<Rightarrow> string" where
  "relationship_plane relationship_type =
     (if relationship_type \<in> {''HasParent'', ''HasChildren''} then ''hierarchy''
      else if relationship_type \<in> {''HasComponent'', ''ComponentOf''} then ''composition''
      else ''graph'')"

section \<open>Search\<close>

definition role_name :: "SemanticRole \<Rightarrow> string" where
  "role_name r = (case r of RoleAsset \<Rightarrow> ''asset'' | RoleGroup \<Rightarrow> ''group'' | RoleComponent \<Rightarrow> ''component''
     | RoleDatapoint \<Rightarrow> ''datapoint'' | RoleProperty \<Rightarrow> ''property'' | RoleUnknown \<Rightarrow> ''unknown'')"

definition confidence_name :: "MappingConfidence \<Rightarrow> string" where
  "confidence_name c = (case c of High \<Rightarrow> ''high'' | Medium \<Rightarrow> ''medium'' | Low \<Rightarrow> ''low'')"

text \<open>\<open>str(x or "")\<close> for the namespace: what is false in Python has the empty text.\<close>

definition namespace_text :: "(pyval \<Rightarrow> string) \<Rightarrow> pyval \<Rightarrow> string" where
  "namespace_text str_of v =
     (if v \<in> {PNone, PStr [], PBool False, PInt 0, PFloat 0, PList [], PTuple [], PDict []} then [] else str_of v)"

definition searchable :: "(pyval \<Rightarrow> string) \<Rightarrow> BuildResult \<Rightarrow> ModelNode \<Rightarrow> string list" where
  "searchable str_of m n =
     [mn_id n, mn_name n, kind_name (mn_kind n), (case mn_type n of Some t \<Rightarrow> t | None \<Rightarrow> []), mn_source_node_id n,
      (case mn_source_type_id n of Some t \<Rightarrow> t | None \<Rightarrow> []), role_name (summary_role m n),
      confidence_name (summary_confidence m n), namespace_text str_of (namespace_value m n),
      str_of (dict_get_def (mn_metadata n) ''description'' (PStr [])),
      join_with '' '' (map str_of (profile_ids m n)), join_with '' '' (dict_keys (model_relationships m n))]"

text \<open>An optional filter: absent, or the value has to pass.\<close>

definition filter_ok :: "arguments \<Rightarrow> string \<Rightarrow> (string \<Rightarrow> bool) \<Rightarrow> bool" where
  "filter_ok args field passes = (case text_arg args field of None \<Rightarrow> True | Some s \<Rightarrow> passes s)"

definition search_text :: "arguments \<Rightarrow> string" where
  "search_text args = (case text_arg args ''text'' of Some s \<Rightarrow> py_casefold (py_strip s) | None \<Rightarrow> [])"

definition search_matches :: "(pyval \<Rightarrow> string) \<Rightarrow> BuildResult \<Rightarrow> arguments \<Rightarrow> ModelNode \<Rightarrow> bool" where
  "search_matches str_of m args n \<longleftrightarrow>
     filter_ok args ''kind'' (\<lambda>s. kind_name (mn_kind n) = s)
     \<and> filter_ok args ''semanticRole'' (\<lambda>s. role_name (summary_role m n) = s)
     \<and> filter_ok args ''namespaceUri'' (\<lambda>s. namespace_value m n = PStr s)
     \<and> filter_ok args ''typeElementId'' (\<lambda>s. Some s \<in> {mn_type n, mn_source_type_id n})
     \<and> filter_ok args ''mappingConfidence'' (\<lambda>s. confidence_name (summary_confidence m n) = s)
     \<and> filter_ok args ''appliedProfileId'' (\<lambda>s. PStr s \<in> set (profile_ids m n))
     \<and> filter_ok args ''relationshipType'' (\<lambda>s. s \<in> set (dict_keys (model_relationships m n)))
     \<and> (search_text args = [] \<or> list_ex (\<lambda>v. is_substring (search_text args) (py_casefold v)) (searchable str_of m n))"

record search_page =
  sp_revision :: string
  sp_total :: nat
  sp_returned :: nat
  sp_offset :: nat
  sp_items :: "node_summary list"
  sp_next_offset :: "nat option"

definition search_model_elements :: "(pyval \<Rightarrow> string) \<Rightarrow> BuildResult \<Rightarrow> string \<Rightarrow> arguments \<Rightarrow> search_page" where
  "search_model_elements str_of m revision args =
     (let matched = sort_key (\<lambda>n. (py_casefold (mn_name n), mn_id n))
            (filter (search_matches str_of m args) (dict_values (br_nodes_by_id m)));
          offset = nat_arg args ''offset'' 0;
          selected = take (nat_arg args ''limit'' 25) (drop offset matched)
      in \<lparr>sp_revision = revision, sp_total = length matched, sp_returned = length selected, sp_offset = offset,
          sp_items = map (model_node_summary m) selected,
          sp_next_offset = (if offset + length selected < length matched then Some (offset + length selected) else None)\<rparr>)"

section \<open>The context of an element\<close>

definition not_in_model :: "string \<Rightarrow> exn" where
  "not_in_model element_id = HTTPException 404 (''Model element not found: '' @ element_id)"

fun ancestors_of :: "BuildResult \<Rightarrow> nat \<Rightarrow> string \<Rightarrow> string list \<Rightarrow> node_summary list" where
  "ancestors_of m 0 current visited = []"
| "ancestors_of m (Suc k) current visited =
     (case dict_get (br_hierarchy_parent_by_id m) current of
        None \<Rightarrow> []
      | Some parent_id \<Rightarrow>
          (case node_of m parent_id of
             None \<Rightarrow> []
           | Some parent \<Rightarrow>
               if parent_id \<in> set visited then []
               else model_node_summary m parent # ancestors_of m k parent_id (parent_id # visited)))"

record bounded_items =
  bi_total :: nat
  bi_returned :: nat
  bi_truncated :: bool
  bi_items :: "node_summary list"

definition bounded_context_items :: "BuildResult \<Rightarrow> string list \<Rightarrow> nat \<Rightarrow> bounded_items" where
  "bounded_context_items m element_ids limit =
     (let items = map (model_node_summary m) (List.map_filter (node_of m) element_ids)
      in \<lparr>bi_total = length items, bi_returned = min (length items) limit, bi_truncated = length items > limit,
          bi_items = take limit items\<rparr>)"

text \<open>An end of a relationship: a summary, or only the id of an element that is not in the model.\<close>

record context_edge =
  ce_relationship_type :: string
  ce_plane :: string
  ce_target :: "node_summary + string"

record bounded_edges =
  be_total :: nat
  be_returned :: nat
  be_truncated :: bool
  be_items :: "context_edge list"

record context_source =
  cs_source_node_id :: string
  cs_source_type_id :: "string option"
  cs_description :: pyval
  cs_namespace_uri :: pyval
  cs_applied_profile_ids :: pyval
  cs_extended_attributes :: "(string, pyval) dict"

record element_context =
  ec_revision :: string
  ec_element :: node_summary
  ec_ancestors :: "node_summary list"
  ec_parents :: "(string \<times> node_summary) list"
  ec_children :: "(bounded_items \<times> bounded_items) option"
  ec_relationships :: "bounded_edges option"
  ec_source :: "context_source option"

definition parent_entry :: "BuildResult \<Rightarrow> string \<Rightarrow> string option \<Rightarrow> (string \<times> node_summary) list" where
  "parent_entry m relationship_type parent_id =
     (case Option.bind parent_id (node_of m) of
        None \<Rightarrow> [] | Some parent \<Rightarrow> [(relationship_type, model_node_summary m parent)])"

definition context_edges :: "BuildResult \<Rightarrow> ModelNode \<Rightarrow> context_edge list" where
  "context_edges m n =
     concat (map (\<lambda>(relationship_type, target_ids). map (\<lambda>target_id.
         \<lparr>ce_relationship_type = relationship_type, ce_plane = relationship_plane relationship_type,
          ce_target = (case node_of m target_id of Some t \<Rightarrow> Inl (model_node_summary m t) | None \<Rightarrow> Inr target_id)\<rparr>) target_ids)
       (sort_key fst (model_relationships m n)))"

definition get_element_context :: "BuildResult \<Rightarrow> string \<Rightarrow> arguments \<Rightarrow> element_context result" where
  "get_element_context m revision args =
     (let element_id = (case text_arg args ''elementId'' of Some s \<Rightarrow> s | None \<Rightarrow> [])
      in case node_of m element_id of
        None \<Rightarrow> Inl (not_in_model element_id)
      | Some n \<Rightarrow>
          let edges = context_edges m n; child_limit = nat_arg args ''childLimit'' 100;
              relationship_limit = nat_arg args ''relationshipLimit'' 100
          in Inr \<lparr>ec_revision = revision, ec_element = model_node_summary m n,
               ec_ancestors = ancestors_of m (nat_arg args ''ancestorDepth'' 3) element_id [element_id],
               ec_parents = parent_entry m ''HasParent'' (dict_get (br_hierarchy_parent_by_id m) (mn_id n))
                 @ parent_entry m ''ComponentOf'' (dict_get (br_composition_parent_by_id m) (mn_id n)),
               ec_children = (if bool_arg args ''includeChildren''
                 then Some (bounded_context_items m (dict_get_def (br_hierarchy_children_by_id m) (mn_id n) []) child_limit,
                            bounded_context_items m (dict_get_def (br_composition_children_by_id m) (mn_id n) []) child_limit)
                 else None),
               ec_relationships = (if bool_arg args ''includeRelationships''
                 then Some \<lparr>be_total = length edges, be_returned = min (length edges) relationship_limit,
                            be_truncated = length edges > relationship_limit, be_items = take relationship_limit edges\<rparr>
                 else None),
               ec_source = (if bool_arg args ''includeTypeAndMetadata''
                 then Some \<lparr>cs_source_node_id = mn_source_node_id n, cs_source_type_id = mn_source_type_id n,
                            cs_description = metadata_of n ''description'', cs_namespace_uri = namespace_value m n,
                            cs_applied_profile_ids = profile_ids_value m n, cs_extended_attributes = mn_metadata n\<rparr>
                 else None)\<rparr>)"

section \<open>The summary of a subtree\<close>

record subtree_options =
  so_hierarchy :: bool
  so_composition :: bool
  so_properties :: bool
  so_actions :: bool
  so_max_nodes :: nat

text \<open>What \<open>visit\<close> shares between its calls.\<close>

record subtree_state =
  su_included :: "string list"
  su_kind_counts :: "(string, nat) dict"
  su_role_counts :: "(string, nat) dict"
  su_truncated :: bool

datatype summary_tree = SummaryTree node_summary "(string \<times> summary_tree) list"

definition subtree_child_edges :: "BuildResult \<Rightarrow> ModelNode \<Rightarrow> bool \<Rightarrow> bool \<Rightarrow> (string \<times> string) list" where
  "subtree_child_edges m n include_hierarchy include_composition =
     (if include_hierarchy then map (Pair ''HasChildren'') (dict_get_def (br_hierarchy_children_by_id m) (mn_id n) []) else [])
     @ (if include_composition then map (Pair ''HasComponent'') (dict_get_def (br_composition_children_by_id m) (mn_id n) []) else [])"

definition count_in :: "string \<Rightarrow> (string, nat) dict \<Rightarrow> (string, nat) dict" where
  "count_in k d = dict_set k (dict_get_def d k 0 + 1) d"

definition include_node :: "BuildResult \<Rightarrow> ModelNode \<Rightarrow> subtree_state \<Rightarrow> subtree_state" where
  "include_node m n st =
     st\<lparr>su_included := set_add (mn_id n) (su_included st),
        su_kind_counts := count_in (kind_name (mn_kind n)) (su_kind_counts st),
        su_role_counts := count_in (role_name (summary_role m n)) (su_role_counts st)\<rparr>"

definition kind_excluded :: "subtree_options \<Rightarrow> ModelNode \<Rightarrow> bool" where
  "kind_excluded opts n \<longleftrightarrow> (mn_kind n = Property \<and> \<not> so_properties opts) \<or> (mn_kind n = Action \<and> \<not> so_actions opts)"

text \<open>
  \<open>visit\<close>, with the number of levels that are left instead of the depth, and its loop over the edges.
  \<open>path\<close> are the ids from the root to the node.
\<close>

fun visit :: "BuildResult \<Rightarrow> subtree_options \<Rightarrow> nat \<Rightarrow> ModelNode \<Rightarrow> string list \<Rightarrow> subtree_state \<Rightarrow> summary_tree \<times> subtree_state"
  and visit_edges :: "BuildResult \<Rightarrow> subtree_options \<Rightarrow> nat \<Rightarrow> (string \<times> string) list \<Rightarrow> string list \<Rightarrow> subtree_state
    \<Rightarrow> (string \<times> summary_tree) list \<times> subtree_state" where
  "visit m opts 0 n path st =
     (let st1 = include_node m n st
      in (SummaryTree (model_node_summary m n) [],
          if subtree_child_edges m n (so_hierarchy opts) (so_composition opts) \<noteq> [] then st1\<lparr>su_truncated := True\<rparr> else st1))"
| "visit m opts (Suc left) n path st =
     (let (children, st2) = visit_edges m opts left (subtree_child_edges m n (so_hierarchy opts) (so_composition opts)) path (include_node m n st)
      in (SummaryTree (model_node_summary m n) children, st2))"
| "visit_edges m opts left [] path st = ([], st)"
| "visit_edges m opts left ((relationship_type, child_id) # edges) path st =
     (case node_of m child_id of
        None \<Rightarrow> visit_edges m opts left edges path st
      | Some child \<Rightarrow>
          if child_id \<in> set path \<or> kind_excluded opts child then visit_edges m opts left edges path st
          else if length (su_included st) \<ge> so_max_nodes opts then ([], st\<lparr>su_truncated := True\<rparr>)
          else
            let (t, st1) = visit m opts left child (set_add child_id path) st;
                (ts, st2) = visit_edges m opts left edges path st1
            in ((relationship_type, t) # ts, st2))"

record subtree_summary =
  sr_revision :: string
  sr_root_element_id :: string
  sr_total_nodes :: nat
  sr_truncated :: bool
  sr_tree :: summary_tree
  sr_by_kind :: "(string, nat) dict"
  sr_by_semantic_role :: "(string, nat) dict"

definition summarize_subtree :: "BuildResult \<Rightarrow> string \<Rightarrow> arguments \<Rightarrow> subtree_summary result" where
  "summarize_subtree m revision args =
     (let root_id = (case text_arg args ''rootElementId'' of Some s \<Rightarrow> s | None \<Rightarrow> [])
      in case node_of m root_id of
        None \<Rightarrow> Inl (not_in_model root_id)
      | Some n \<Rightarrow>
          let opts = \<lparr>so_hierarchy = bool_arg args ''includeHierarchy'', so_composition = bool_arg args ''includeComposition'',
                      so_properties = bool_arg args ''includeProperties'', so_actions = bool_arg args ''includeActions'',
                      so_max_nodes = nat_arg args ''maxNodes'' 200\<rparr>;
              (tree, st) = visit m opts (nat_arg args ''maxDepth'' 4) n [root_id]
                \<lparr>su_included = [], su_kind_counts = [], su_role_counts = [], su_truncated = False\<rparr>
          in Inr \<lparr>sr_revision = revision, sr_root_element_id = root_id, sr_total_nodes = length (su_included st),
                  sr_truncated = su_truncated st, sr_tree = tree, sr_by_kind = su_kind_counts st,
                  sr_by_semantic_role = su_role_counts st\<rparr>)"

section \<open>The path between two elements\<close>

text \<open>
  The relationships of the selected planes between elements of the model: source, type, plane and target.
  \<open>outgoing_by_id\<close> and \<open>incoming_by_id\<close> are what an element is source and target of.
\<close>

definition plane_edges :: "BuildResult \<Rightarrow> string list \<Rightarrow> (string \<times> string \<times> string \<times> string) list" where
  "plane_edges m planes =
     concat (map (\<lambda>(source_id, source). concat (map (\<lambda>(relationship_type, targets).
         if relationship_plane relationship_type \<notin> set planes then []
         else map (\<lambda>target_id. (source_id, relationship_type, relationship_plane relationship_type, target_id))
           (filter (known m) targets)) (model_relationships m source))) (br_nodes_by_id m))"

definition plane_priority :: "string \<Rightarrow> nat" where
  "plane_priority p = (if p = ''hierarchy'' then 0 else if p = ''composition'' then 1 else 2)"

record neighbor =
  nb_id :: string
  nb_relationship_type :: string
  nb_plane :: string
  nb_direction :: string

definition neighbor_key :: "neighbor \<Rightarrow> string \<times> nat \<times> string \<times> string" where
  "neighbor_key b = (nb_id b, plane_priority (nb_plane b), nb_relationship_type b, nb_direction b)"

definition neighbors :: "(string \<times> string \<times> string \<times> string) list \<Rightarrow> string \<Rightarrow> string \<Rightarrow> neighbor list" where
  "neighbors edges direction element_id =
     sort_key neighbor_key (remdups
       ((if direction \<in> {''outgoing'', ''either''}
         then [\<lparr>nb_id = t, nb_relationship_type = r, nb_plane = p, nb_direction = ''outgoing''\<rparr>.
                 (s, r, p, t) \<leftarrow> edges, s = element_id] else [])
        @ (if direction \<in> {''incoming'', ''either''}
           then [\<lparr>nb_id = s, nb_relationship_type = r, nb_plane = p, nb_direction = ''incoming''\<rparr>.
                   (s, r, p, t) \<leftarrow> edges, t = element_id] else [])))"

datatype path_item = PathElement node_summary | PathRelationship string string string

record trace_entry =
  te_id :: string
  te_depth :: nat
  te_path :: "path_item list"

definition element_item :: "BuildResult \<Rightarrow> string \<Rightarrow> path_item list" where
  "element_item m element_id =
     (case node_of m element_id of None \<Rightarrow> [] | Some n \<Rightarrow> [PathElement (model_node_summary m n)])"

definition next_entry :: "BuildResult \<Rightarrow> trace_entry \<Rightarrow> neighbor \<Rightarrow> trace_entry" where
  "next_entry m current b =
     \<lparr>te_id = nb_id b, te_depth = te_depth current + 1,
      te_path = te_path current @ PathRelationship (nb_relationship_type b) (nb_plane b) (nb_direction b) # element_item m (nb_id b)\<rparr>"

text \<open>The loop over the neighbours: the target is found, the limit is reached, or the search goes on.\<close>

datatype expansion = Found trace_entry | LimitReached | Expanded "string list" "trace_entry list"

fun expand :: "BuildResult \<Rightarrow> string \<Rightarrow> nat \<Rightarrow> trace_entry \<Rightarrow> neighbor list \<Rightarrow> string list \<Rightarrow> trace_entry list \<Rightarrow> expansion" where
  "expand m target_id max_nodes current [] visited queue = Expanded visited queue"
| "expand m target_id max_nodes current (b # bs) visited queue =
     (if nb_id b \<in> set visited then expand m target_id max_nodes current bs visited queue
      else if nb_id b = target_id then Found (next_entry m current b)
      else if length (visited @ [nb_id b]) \<ge> max_nodes then LimitReached
      else expand m target_id max_nodes current bs (visited @ [nb_id b]) (queue @ [next_entry m current b]))"

record trace_result =
  tr_revision :: string
  tr_found :: bool
  tr_truncated :: bool
  tr_path_length :: "nat option"
  tr_path :: "path_item list"

definition trace_found :: "string \<Rightarrow> trace_entry \<Rightarrow> trace_result" where
  "trace_found revision entry =
     \<lparr>tr_revision = revision, tr_found = True, tr_truncated = False, tr_path_length = Some (te_depth entry), tr_path = te_path entry\<rparr>"

definition trace_missing :: "string \<Rightarrow> bool \<Rightarrow> trace_result" where
  "trace_missing revision truncated =
     \<lparr>tr_revision = revision, tr_found = False, tr_truncated = truncated, tr_path_length = None, tr_path = []\<rparr>"

text \<open>Every entry of the queue was unvisited when it was added, so the search ends.\<close>

definition endpoints :: "(string \<times> string \<times> string \<times> string) list \<Rightarrow> string set" where
  "endpoints edges = set (map fst edges) \<union> set (map (\<lambda>(s, r, p, t). t) edges)"

lemma finite_endpoints [simp]: "finite (endpoints edges)"
  by (simp add: endpoints_def)

lemma neighbor_endpoint: "b \<in> set (neighbors edges direction i) \<Longrightarrow> nb_id b \<in> endpoints edges"
  by (force simp: neighbors_def endpoints_def split: if_splits)

lemma expand_measure:
  assumes "expand m target_id max_nodes current bs visited queue = Expanded visited' queue'"
    and "nb_id ` set bs \<subseteq> S" "finite S"
  shows "length queue' + card (S - set visited') \<le> length queue + card (S - set visited)"
  using assms(1,2)
proof (induction bs arbitrary: visited queue)
  case (Cons b bs)
  show ?case
  proof (cases "nb_id b \<in> set visited")
    case True
    then show ?thesis using Cons by simp
  next
    case False
    then have rest: "expand m target_id max_nodes current bs (visited @ [nb_id b]) (queue @ [next_entry m current b]) = Expanded visited' queue'"
      using Cons.prems(1) by (auto split: if_splits)
    have "card (S - set (visited @ [nb_id b])) < card (S - set visited)"
      using Cons.prems(2) assms(3) False by (intro psubset_card_mono) auto
    then show ?thesis using Cons.IH [OF rest] Cons.prems(2) by simp
  qed
qed simp

function trace_loop ::
  "BuildResult \<Rightarrow> string \<Rightarrow> string \<Rightarrow> nat \<Rightarrow> (string \<times> string \<times> string \<times> string) list \<Rightarrow> string \<Rightarrow> string list \<Rightarrow> bool
   \<Rightarrow> trace_entry list \<Rightarrow> trace_result" where
  "trace_loop m revision target_id max_depth edges direction visited truncated queue =
     (case queue of
        [] \<Rightarrow> trace_missing revision truncated
      | current # rest \<Rightarrow>
          if te_id current = target_id then trace_found revision current
          else if te_depth current \<ge> max_depth
          then trace_loop m revision target_id max_depth edges direction visited
                 (truncated \<or> list_ex (\<lambda>b. nb_id b \<notin> set visited) (neighbors edges direction (te_id current))) rest
          else case expand m target_id MCP_MODEL_PATH_MAX_NODES current (neighbors edges direction (te_id current)) visited rest of
            Found entry \<Rightarrow> trace_found revision entry
          | LimitReached \<Rightarrow> trace_missing revision True
          | Expanded visited' queue' \<Rightarrow> trace_loop m revision target_id max_depth edges direction visited' truncated queue')"
  by pat_completeness auto

termination trace_loop
proof (relation "measure (\<lambda>(m, revision, target_id, max_depth, edges, direction, visited, truncated, queue).
    length queue + card (endpoints edges - set visited))", goal_cases)
  case (3 m revision target_id max_depth edges direction visited truncated queue current rest visited' queue')
  then show ?case
    using expand_measure [of m target_id MCP_MODEL_PATH_MAX_NODES current "neighbors edges direction (te_id current)" visited rest
        visited' queue' "endpoints edges"] neighbor_endpoint [of _ edges direction "te_id current"]
    by (auto simp: image_subset_iff)
qed auto

declare trace_loop.simps [simp del]

definition planes_arg :: "arguments \<Rightarrow> string list" where
  "planes_arg args =
     (case dict_get args ''relationshipPlanes'' of
        Some (PList ps) \<Rightarrow> List.map_filter (\<lambda>v. case v of PStr s \<Rightarrow> Some s | _ \<Rightarrow> None) ps
      | _ \<Rightarrow> [''hierarchy'', ''composition'', ''graph''])"

definition direction_arg :: "arguments \<Rightarrow> string" where
  "direction_arg args = (case text_arg args ''direction'' of Some d \<Rightarrow> d | None \<Rightarrow> ''either'')"

definition trace_relationship_path :: "BuildResult \<Rightarrow> string \<Rightarrow> arguments \<Rightarrow> trace_result result" where
  "trace_relationship_path m revision args =
     (let source_id = (case text_arg args ''sourceElementId'' of Some s \<Rightarrow> s | None \<Rightarrow> []);
          target_id = (case text_arg args ''targetElementId'' of Some s \<Rightarrow> s | None \<Rightarrow> [])
      in if \<not> known m source_id then Inl (not_in_model source_id)
         else if \<not> known m target_id then Inl (not_in_model target_id)
         else Inr (trace_loop m revision target_id (nat_arg args ''maxDepth'' 8) (plane_edges m (planes_arg args))
           (direction_arg args) [source_id] False
           [\<lparr>te_id = source_id, te_depth = 0, te_path = element_item m source_id\<rparr>]))"

section \<open>Calling a tool\<close>

datatype tool_body =
    BodyIds bool "id_item list"
  | BodySearch search_page
  | BodyContext element_context
  | BodySubtree subtree_summary
  | BodyTrace trace_result

definition batch_of :: "arguments \<Rightarrow> string \<Rightarrow> pyval list" where
  "batch_of args field = (case dict_get args field of Some (PList xs) \<Rightarrow> xs | _ \<Rightarrow> [])"

text \<open>\<open>_invoke_model_tool\<close> of \<open>i3x_server/mcp/invocation.py\<close>: validate, then answer from the model.\<close>

definition invoke_model_tool ::
  "(pyval \<Rightarrow> string) \<Rightarrow> BuildResult \<Rightarrow> string \<Rightarrow> string \<Rightarrow> arguments \<Rightarrow> tool_body result" where
  "invoke_model_tool str_of m revision tool_name args =
     rbind (validate_model_tool_arguments tool_name args)
       (\<lambda>_. if tool_name = ''resolveElementIdsToNodeIds''
            then Inr (case resolve_element_ids_to_node_ids m (batch_of args ''elementIds'') of (ok, items) \<Rightarrow> BodyIds ok items)
            else if tool_name = ''resolveNodeIdsToElementIds''
            then rbind (resolve_node_ids_to_element_ids m (batch_of args ''nodeIds'')) (\<lambda>(ok, items). Inr (BodyIds ok items))
            else if tool_name = ''searchModelElements'' then Inr (BodySearch (search_model_elements str_of m revision args))
            else if tool_name = ''getElementContext''
            then rbind (get_element_context m revision args) (\<lambda>b. Inr (BodyContext b))
            else if tool_name = ''summarizeSubtree''
            then rbind (summarize_subtree m revision args) (\<lambda>b. Inr (BodySubtree b))
            else if tool_name = ''traceRelationshipPath''
            then rbind (trace_relationship_path m revision args) (\<lambda>b. Inr (BodyTrace b))
            else Inl (KeyError tool_name))"

end
