(* ===== verification/ModelToolProps.thy ===== *)
theory ModelToolProps
  imports ModelTools Resolve
begin

text \<open>
  Properties of the model tools: the path between two elements is a shortest one and is found when there
  is one within the depth, and the summary of a subtree.
\<close>

section \<open>Paths\<close>

text \<open>One step between elements, and the least number of steps.\<close>

definition step_rel :: "(string \<times> string \<times> string \<times> string) list \<Rightarrow> string \<Rightarrow> (string \<times> string) set" where
  "step_rel edges direction = {(i, j). j \<in> nb_id ` set (neighbors edges direction i)}"

definition at_distance :: "('a \<times> 'a) set \<Rightarrow> 'a \<Rightarrow> 'a \<Rightarrow> nat \<Rightarrow> bool" where
  "at_distance R s t k \<longleftrightarrow> (s, t) \<in> R ^^ k \<and> (\<forall>j < k. (s, t) \<notin> R ^^ j)"

lemma at_distance_unique: "at_distance R s t j \<Longrightarrow> at_distance R s t k \<Longrightarrow> j = k"
  unfolding at_distance_def by (metis linorder_neqE_nat)

lemma at_distance_0 [simp]: "at_distance R s t 0 \<longleftrightarrow> s = t"
  by (simp add: at_distance_def)

lemma some_distance:
  assumes "(s, t) \<in> R ^^ j"
  shows "\<exists>k \<le> j. at_distance R s t k"
  unfolding at_distance_def using LeastI [of "\<lambda>k. (s, t) \<in> R ^^ k", OF assms] Least_le [of "\<lambda>k. (s, t) \<in> R ^^ k", OF assms]
    not_less_Least [of _ "\<lambda>k. (s, t) \<in> R ^^ k"] by blast

lemma at_distance_Suc:
  assumes "at_distance R s v (Suc k)"
  shows "\<exists>u. at_distance R s u k \<and> (u, v) \<in> R"
proof -
  obtain u where u: "(s, u) \<in> R ^^ k" "(u, v) \<in> R" using assms by (auto simp: at_distance_def)
  have "(s, u) \<notin> R ^^ j" if "j < k" for j
    using assms that u(2) relpow_Suc_I [of s u j R v] by (auto simp: at_distance_def)
  then show ?thesis using u by (auto simp: at_distance_def)
qed

text \<open>What a path of the answer is: the summaries of elements with a relationship between neighbours.\<close>

inductive traced ::
  "BuildResult \<Rightarrow> (string \<times> string \<times> string \<times> string) list \<Rightarrow> string \<Rightarrow> string \<Rightarrow> path_item list \<Rightarrow> string \<Rightarrow> nat \<Rightarrow> bool"
  for m edges direction s where
  traced_start: "traced m edges direction s (element_item m s) s 0"
| traced_step: "traced m edges direction s path i k \<Longrightarrow> b \<in> set (neighbors edges direction i) \<Longrightarrow>
    traced m edges direction s
      (path @ PathRelationship (nb_relationship_type b) (nb_plane b) (nb_direction b) # element_item m (nb_id b)) (nb_id b) (Suc k)"

lemma traced_steps: "traced m edges direction s path t k \<Longrightarrow> (s, t) \<in> step_rel edges direction ^^ k"
  by (induction rule: traced.induct) (auto simp: step_rel_def)

definition entry_ok :: "BuildResult \<Rightarrow> (string \<times> string \<times> string \<times> string) list \<Rightarrow> string \<Rightarrow> string \<Rightarrow> trace_entry \<Rightarrow> bool" where
  "entry_ok m edges direction s e \<longleftrightarrow>
     traced m edges direction s (te_path e) (te_id e) (te_depth e)
     \<and> at_distance (step_rel edges direction) s (te_id e) (te_depth e)"

section \<open>The loop over the neighbours\<close>

lemma expand_Expanded:
  assumes "expand m target max_nodes current bs visited queue = Expanded visited' queue'"
  shows "\<exists>new. queue' = queue @ map (next_entry m current) new \<and> visited' = visited @ map nb_id new \<and> set new \<subseteq> set bs
    \<and> set visited' = set visited \<union> nb_id ` set bs \<and> (\<forall>b \<in> set new. nb_id b \<notin> set visited \<and> nb_id b \<noteq> target)
    \<and> (distinct visited \<longrightarrow> distinct visited')"
  using assms
proof (induction bs arbitrary: visited queue)
  case (Cons b bs)
  show ?case
  proof (cases "nb_id b \<in> set visited")
    case True
    then have "expand m target max_nodes current bs visited queue = Expanded visited' queue'" using Cons.prems by simp
    from Cons.IH [OF this] show ?thesis using True by (auto simp: insert_absorb)
  next
    case False
    then have rest: "expand m target max_nodes current bs (visited @ [nb_id b]) (queue @ [next_entry m current b]) = Expanded visited' queue'"
      and b: "nb_id b \<noteq> target" using Cons.prems by (auto split: if_splits)
    from Cons.IH [OF rest] obtain new where new: "queue' = (queue @ [next_entry m current b]) @ map (next_entry m current) new"
      "visited' = (visited @ [nb_id b]) @ map nb_id new" "set new \<subseteq> set bs" "set visited' = set (visited @ [nb_id b]) \<union> nb_id ` set bs"
      "\<forall>b' \<in> set new. nb_id b' \<notin> set (visited @ [nb_id b]) \<and> nb_id b' \<noteq> target"
      "distinct (visited @ [nb_id b]) \<longrightarrow> distinct visited'" by blast
    show ?thesis by (rule exI [of _ "b # new"]) (use new b False in auto)
  qed
qed simp

lemma expand_Found:
  assumes "expand m target max_nodes current bs visited queue = Found e"
  shows "\<exists>b \<in> set bs. e = next_entry m current b \<and> nb_id b = target \<and> target \<notin> set visited"
  using assms by (induction bs arbitrary: visited queue) (fastforce split: if_splits)+

lemma expand_LimitReached:
  assumes "expand m target max_nodes current bs visited queue = LimitReached" "distinct visited"
  shows "max_nodes \<le> card (set visited \<union> nb_id ` set bs)"
  using assms
proof (induction bs arbitrary: visited queue)
  case (Cons b bs)
  show ?case
  proof (cases "nb_id b \<in> set visited")
    case True
    then show ?thesis using Cons by (simp add: insert_absorb)
  next
    case False
    then have d: "distinct (visited @ [nb_id b])" using Cons.prems(2) by simp
    show ?thesis
    proof (cases "length (visited @ [nb_id b]) \<ge> max_nodes")
      case True
      then have "max_nodes \<le> card (set (visited @ [nb_id b]))" using distinct_card [OF d] by simp
      also have "\<dots> \<le> card (set visited \<union> nb_id ` set (b # bs))" by (rule card_mono) auto
      finally show ?thesis .
    next
      case below: False
      have "expand m target max_nodes current bs (visited @ [nb_id b]) (queue @ [next_entry m current b]) = LimitReached"
        using Cons.prems(1) False below by (simp split: if_splits)
      from Cons.IH [OF this d] show ?thesis by simp
    qed
  qed
qed simp

section \<open>Breadth first\<close>

text \<open>
  Between two turns of the loop: the queue has shortest paths, nearest first; what is visited and not in
  the queue has only visited neighbours, or it lies at the depth limit and the search is marked as
  truncated; and the target was not visited, unless the search starts there.
\<close>

definition trace_inv ::
  "BuildResult \<Rightarrow> (string \<times> string \<times> string \<times> string) list \<Rightarrow> string \<Rightarrow> string \<Rightarrow> string \<Rightarrow> nat \<Rightarrow> string list \<Rightarrow> bool
   \<Rightarrow> trace_entry list \<Rightarrow> bool" where
  "trace_inv m edges direction s target d visited truncated queue \<longleftrightarrow>
     s \<in> set visited \<and> distinct visited \<and> set visited \<subseteq> insert s (endpoints edges)
     \<and> (\<forall>e \<in> set queue. entry_ok m edges direction s e \<and> te_id e \<in> set visited \<and> te_depth e \<le> d)
     \<and> sorted (map te_depth queue) \<and> (\<forall>e \<in> set queue. te_depth e \<le> te_depth (hd queue) + 1)
     \<and> (\<forall>v \<in> set visited - te_id ` set queue.
          step_rel edges direction `` {v} \<subseteq> set visited \<or> truncated \<and> at_distance (step_rel edges direction) s v d)
     \<and> (target \<in> set visited \<longrightarrow> (\<exists>e. queue = [e] \<and> te_id e = target))"

lemma trace_invD:
  assumes "trace_inv m edges direction s target d visited truncated queue"
  shows "s \<in> set visited" "distinct visited" "set visited \<subseteq> insert s (endpoints edges)"
    "\<And>e. e \<in> set queue \<Longrightarrow> entry_ok m edges direction s e \<and> te_id e \<in> set visited \<and> te_depth e \<le> d"
    "sorted (map te_depth queue)" "\<And>e. e \<in> set queue \<Longrightarrow> te_depth e \<le> te_depth (hd queue) + 1"
    "\<And>v. v \<in> set visited \<Longrightarrow> v \<notin> te_id ` set queue \<Longrightarrow>
       step_rel edges direction `` {v} \<subseteq> set visited \<or> truncated \<and> at_distance (step_rel edges direction) s v d"
    "target \<in> set visited \<Longrightarrow> \<exists>e. queue = [e] \<and> te_id e = target"
  using assms unfolding trace_inv_def by blast+

text \<open>Everything at most as far as \<open>k\<close> is visited, when the queue starts at \<open>k\<close> or is empty.\<close>

lemma near_visited:
  assumes inv: "trace_inv m edges direction s target d visited truncated queue"
    and far: "\<And>e. e \<in> set queue \<Longrightarrow> k \<le> te_depth e" and "k \<le> d"
    and "j \<le> k" "at_distance (step_rel edges direction) s v j"
  shows "v \<in> set visited"
  using assms(4,5)
proof (induction j arbitrary: v)
  case 0
  then show ?case using trace_invD(1) [OF inv] by simp
next
  case (Suc j)
  obtain u where u: "at_distance (step_rel edges direction) s u j" "(u, v) \<in> step_rel edges direction"
    using at_distance_Suc [OF Suc.prems(2)] by blast
  have "u \<in> set visited" using Suc.IH u(1) Suc.prems(1) by simp
  moreover have "u \<notin> te_id ` set queue"
  proof
    assume "u \<in> te_id ` set queue"
    then obtain e where e: "e \<in> set queue" "te_id e = u" by blast
    then have "at_distance (step_rel edges direction) s u (te_depth e)"
      using trace_invD(4) [OF inv, of e] by (auto simp: entry_ok_def)
    then show False using at_distance_unique [OF u(1)] far [OF e(1)] Suc.prems(1) by simp
  qed
  moreover have "\<not> at_distance (step_rel edges direction) s u d"
    using at_distance_unique [OF u(1)] Suc.prems(1) assms(3) by auto
  ultimately have "step_rel edges direction `` {u} \<subseteq> set visited" using trace_invD(7) [OF inv] by blast
  then show ?case using u(2) by blast
qed

lemma new_entry_ok:
  assumes inv: "trace_inv m edges direction s target d visited truncated (current # rest)"
    and b: "b \<in> set (neighbors edges direction (te_id current))" "nb_id b \<notin> set visited"
  shows "entry_ok m edges direction s (next_entry m current b)"
proof -
  let ?R = "step_rel edges direction"
  have current: "entry_ok m edges direction s current" "te_depth current \<le> d" using trace_invD(4) [OF inv] by auto
  have step: "(te_id current, nb_id b) \<in> ?R" using b(1) by (auto simp: step_rel_def)
  have least: "te_depth current \<le> te_depth e" if "e \<in> set (current # rest)" for e
    using trace_invD(5) [OF inv] that by auto
  have "(s, nb_id b) \<in> ?R ^^ Suc (te_depth current)"
    using current(1) step by (auto simp: entry_ok_def at_distance_def)
  moreover have "(s, nb_id b) \<notin> ?R ^^ j" if j: "j < Suc (te_depth current)" for j
  proof
    assume "(s, nb_id b) \<in> ?R ^^ j"
    from some_distance [OF this] obtain i where i: "i \<le> j" "at_distance ?R s (nb_id b) i" by blast
    have "i \<le> te_depth current" using i(1) j by simp
    then show False using near_visited [OF inv least current(2) _ i(2)] b(2) by simp
  qed
  ultimately have "at_distance ?R s (nb_id b) (Suc (te_depth current))" by (simp add: at_distance_def)
  moreover have "traced m edges direction s (te_path (next_entry m current b)) (nb_id b) (Suc (te_depth current))"
    using traced_step [OF _ b(1)] current(1) by (simp add: entry_ok_def next_entry_def)
  ultimately show ?thesis by (simp add: entry_ok_def next_entry_def)
qed

lemma inv_at_limit:
  assumes inv: "trace_inv m edges direction s target d visited truncated (current # rest)"
    and "te_id current \<noteq> target" "te_depth current \<ge> d"
  shows "trace_inv m edges direction s target d visited
    (truncated \<or> list_ex (\<lambda>b. nb_id b \<notin> set visited) (neighbors edges direction (te_id current))) rest"
  unfolding trace_inv_def
proof (intro conjI ballI impI trace_invD(1-3) [OF inv])
  let ?R = "step_rel edges direction"
  show "sorted (map te_depth rest)" using trace_invD(5) [OF inv] by simp
  show "te_depth e \<le> te_depth (hd rest) + 1" if e: "e \<in> set rest" for e
  proof -
    have "te_depth current \<le> te_depth (hd rest)" using trace_invD(5) [OF inv] e by (cases rest) auto
    then show ?thesis using trace_invD(6) [OF inv, of e] e by simp
  qed
  show "\<exists>e. rest = [e] \<and> te_id e = target" if "target \<in> set visited"
    using trace_invD(8) [OF inv that] assms(2) by auto
  fix v
  assume v: "v \<in> set visited - te_id ` set rest"
  show "?R `` {v} \<subseteq> set visited
     \<or> (truncated \<or> list_ex (\<lambda>b. nb_id b \<notin> set visited) (neighbors edges direction (te_id current))) \<and> at_distance ?R s v d"
  proof (cases "v = te_id current")
    case True
    have "te_depth current = d" using trace_invD(4) [OF inv, of current] assms(3) by simp
    then have "at_distance ?R s v d" using trace_invD(4) [OF inv, of current] True by (auto simp: entry_ok_def)
    then show ?thesis using True by (auto simp: step_rel_def list_ex_iff)
  next
    case False
    then show ?thesis using trace_invD(7) [OF inv, of v] v by auto
  qed
qed (use trace_invD(4) [OF inv] in auto)

lemma sorted_constant: "sorted (map (\<lambda>_. c) xs)"
  by (induction xs) auto

lemma inv_expanded:
  assumes inv: "trace_inv m edges direction s target d visited truncated (current # rest)"
    and current: "te_id current \<noteq> target" "te_depth current < d"
    and expanded: "expand m target max_nodes current (neighbors edges direction (te_id current)) visited rest = Expanded visited' queue'"
  shows "trace_inv m edges direction s target d visited' truncated queue'"
proof -
  let ?R = "step_rel edges direction"
  obtain new where new: "queue' = rest @ map (next_entry m current) new" "visited' = visited @ map nb_id new"
    "set new \<subseteq> set (neighbors edges direction (te_id current))"
    "set visited' = set visited \<union> nb_id ` set (neighbors edges direction (te_id current))"
    "\<forall>b \<in> set new. nb_id b \<notin> set visited \<and> nb_id b \<noteq> target" "distinct visited \<longrightarrow> distinct visited'"
    using expand_Expanded [OF expanded] by blast
  have entry: "entry_ok m edges direction s (next_entry m current b)" if "b \<in> set new" for b
    using new_entry_ok [OF inv, of b] new(3,5) that by blast
  have fields: "te_id (next_entry m current b) = nb_id b" "te_depth (next_entry m current b) = te_depth current + 1" for b
    by (simp_all add: next_entry_def)
  have depths: "te_depth current \<le> te_depth e" "te_depth e \<le> te_depth current + 1" if "e \<in> set queue'" for e
    using trace_invD(5,6) [OF inv] that by (auto simp: new(1) fields)
  have missing: "target \<notin> set visited" using trace_invD(8) [OF inv] current(1) by auto
  show ?thesis
    unfolding trace_inv_def
  proof (intro conjI ballI impI)
    show "s \<in> set visited'" "distinct visited'" using trace_invD(1,2) [OF inv] new(4,6) by auto
    show "set visited' \<subseteq> insert s (endpoints edges)"
      using trace_invD(3) [OF inv] neighbor_endpoint [of _ edges direction "te_id current"] new(4) by auto
    show "sorted (map te_depth queue')"
      using trace_invD(5,6) [OF inv] sorted_constant [of _ new] by (auto simp: new(1) sorted_append fields comp_def)
    show "\<exists>e. queue' = [e] \<and> te_id e = target" if "target \<in> set visited'"
      using that missing new(2,5) by auto
    fix e
    assume e: "e \<in> set queue'"
    then show "te_depth e \<le> te_depth (hd queue') + 1" "te_depth e \<le> d"
      using depths [OF e] depths [of "hd queue'"] hd_in_set [of queue'] current(2) by (fastforce, linarith)
    show "entry_ok m edges direction s e" "te_id e \<in> set visited'"
      using e trace_invD(4) [OF inv, of e] entry by (auto simp: new(1,2) fields)
  next
    fix v
    assume v: "v \<in> set visited' - te_id ` set queue'"
    have "te_id ` set queue' = te_id ` set rest \<union> nb_id ` set new" by (simp add: new(1) fields image_Un image_image)
    then have old: "v \<in> set visited" "v \<notin> te_id ` set rest" using v by (auto simp: new(2))
    show "?R `` {v} \<subseteq> set visited' \<or> truncated \<and> at_distance ?R s v d"
    proof (cases "v = te_id current")
      case True
      then show ?thesis using new(4) by (auto simp: step_rel_def)
    next
      case False
      then show ?thesis using trace_invD(7) [OF inv, of v] old new(4) by auto
    qed
  qed
qed

text \<open>What is asked of the answer.\<close>

definition trace_correct ::
  "BuildResult \<Rightarrow> (string \<times> string \<times> string \<times> string) list \<Rightarrow> string \<Rightarrow> string \<Rightarrow> string \<Rightarrow> nat \<Rightarrow> trace_result \<Rightarrow> bool" where
  "trace_correct m edges direction s target d r \<longleftrightarrow>
     (if tr_found r
      then \<exists>k \<le> d. tr_path_length r = Some k \<and> at_distance (step_rel edges direction) s target k
             \<and> traced m edges direction s (tr_path r) target k
      else (\<not> tr_truncated r \<longrightarrow> (s, target) \<notin> (step_rel edges direction)\<^sup>*)
        \<and> (card (insert s (endpoints edges)) < MCP_MODEL_PATH_MAX_NODES \<longrightarrow> (\<forall>k \<le> d. (s, target) \<notin> step_rel edges direction ^^ k)))"

lemma search_exhausted:
  assumes inv: "trace_inv m edges direction s target d visited truncated []"
  shows "trace_correct m edges direction s target d (trace_missing revision truncated)"
proof -
  let ?R = "step_rel edges direction"
  have missing: "target \<notin> set visited" using trace_invD(8) [OF inv] by auto
  have "(s, target) \<notin> ?R ^^ k" if k: "k \<le> d" for k
  proof
    assume "(s, target) \<in> ?R ^^ k"
    from some_distance [OF this] obtain j where j: "j \<le> k" "at_distance ?R s target j" by blast
    show False using near_visited [OF inv _ order_refl _ j(2)] missing j(1) k by simp
  qed
  moreover have "(s, target) \<notin> ?R\<^sup>*" if "\<not> truncated"
  proof
    assume "(s, target) \<in> ?R\<^sup>*"
    then have "target \<in> set visited"
    proof (induction rule: rtrancl_induct)
      case base
      show ?case by (rule trace_invD(1) [OF inv])
    next
      case (step u v)
      then show ?case using trace_invD(7) [OF inv, of u] that by auto
    qed
    then show False using missing by simp
  qed
  ultimately show ?thesis by (simp add: trace_correct_def trace_missing_def)
qed

lemma limit_reached:
  assumes inv: "trace_inv m edges direction s target d visited truncated (current # rest)"
    and "expand m target MCP_MODEL_PATH_MAX_NODES current (neighbors edges direction (te_id current)) visited rest = LimitReached"
  shows "trace_correct m edges direction s target d (trace_missing revision True)"
proof -
  have "MCP_MODEL_PATH_MAX_NODES \<le> card (set visited \<union> nb_id ` set (neighbors edges direction (te_id current)))"
    by (rule expand_LimitReached [OF assms(2) trace_invD(2) [OF inv]])
  also have "\<dots> \<le> card (insert s (endpoints edges))"
    using trace_invD(3) [OF inv] neighbor_endpoint [of _ edges direction "te_id current"] by (intro card_mono) auto
  finally show ?thesis by (simp add: trace_correct_def trace_missing_def)
qed

lemma found_correct:
  assumes "entry_ok m edges direction s e" "te_id e = target" "te_depth e \<le> d"
  shows "trace_correct m edges direction s target d (trace_found revision e)"
  using assms by (auto simp: trace_correct_def trace_found_def entry_ok_def)

lemma trace_loop_correct:
  assumes "trace_inv m edges direction s target d visited truncated queue"
  shows "trace_correct m edges direction s target d (trace_loop m revision target d edges direction visited truncated queue)"
  using assms
proof (induction m revision target d edges direction visited truncated queue rule: trace_loop.induct)
  case (1 m revision target d edges direction visited truncated queue)
  note inv = 1(3)
  show ?case
  proof (cases queue)
    case Nil
    then show ?thesis using search_exhausted inv by (simp add: trace_loop.simps [of _ _ _ _ _ _ _ _ "[]"])
  next
    case (Cons current rest)
    note inv = inv [unfolded Cons]
    have current: "entry_ok m edges direction s current" "te_depth current \<le> d" using trace_invD(4) [OF inv] by auto
    note loop = trace_loop.simps [of m revision target d edges direction visited truncated "current # rest"]
    show ?thesis
    proof (cases "te_id current = target \<or> te_depth current \<ge> d")
      case True
      show ?thesis
      proof (cases "te_id current = target")
        case True
        then show ?thesis unfolding Cons loop using found_correct [OF current(1) True current(2)] by simp
      next
        case False
        then show ?thesis
          unfolding Cons loop using 1(1) [OF Cons False] True inv_at_limit [OF inv False] by simp
      qed
    next
      case False
      show ?thesis
      proof (cases "expand m target MCP_MODEL_PATH_MAX_NODES current (neighbors edges direction (te_id current)) visited rest")
        case (Found e)
        obtain b where b: "b \<in> set (neighbors edges direction (te_id current))" "e = next_entry m current b" "nb_id b = target"
            "target \<notin> set visited"
          using expand_Found [OF Found] by blast
        have "entry_ok m edges direction s e" using new_entry_ok [OF inv b(1)] b by simp
        then have "trace_correct m edges direction s target d (trace_found revision e)"
          using found_correct [of m edges direction s e target d] b False by (simp add: next_entry_def)
        then show ?thesis unfolding Cons loop using False Found by simp
      next
        case LimitReached
        then show ?thesis unfolding Cons loop using False limit_reached [OF inv] by simp
      next
        case (Expanded visited' queue')
        then have "trace_inv m edges direction s target d visited' truncated queue'"
          using inv_expanded [OF inv] False by auto
        then show ?thesis unfolding Cons loop using 1(2) [OF Cons _ _ Expanded] False Expanded by auto
      qed
    qed
  qed
qed

lemma plane_edges_known: "endpoints (plane_edges m planes) \<subseteq> set (dict_keys (br_nodes_by_id m))"
proof -
  have "t \<in> fst ` set (br_nodes_by_id m)" if "known m t" for t
    using that unfolding known_def by (metis domI dom_map_of_conv_image_fst option.exhaust_sel)
  moreover have "s \<in> fst ` set (br_nodes_by_id m) \<and> known m t" if "(s, r, p, t) \<in> set (plane_edges m planes)" for s r p t
    using that by (force simp: plane_edges_def split: if_splits)
  ultimately show ?thesis by (auto simp: endpoints_def)
qed

text \<open>
  C32. The path between two elements: whenever the tool reports a path, it leads from the source to the
  target along relationships of the selected planes and directions, no path has fewer steps, and it is not
  longer than the depth limit; when it reports none without truncation there is none at all, and in a
  model of fewer than 5000 elements none within the depth limit, truncated or not.
\<close>

theorem trace_finds_a_shortest_path:
  assumes "text_arg args ''sourceElementId'' = Some s" "text_arg args ''targetElementId'' = Some t"
    and "trace_relationship_path m revision args = Inr r"
    and "edges = plane_edges m (planes_arg args)" "direction = direction_arg args" "d = nat_arg args ''maxDepth'' 8"
  shows "if tr_found r
    then \<exists>k \<le> d. tr_path_length r = Some k \<and> at_distance (step_rel edges direction) s t k
      \<and> traced m edges direction s (tr_path r) t k
    else (\<not> tr_truncated r \<longrightarrow> (s, t) \<notin> (step_rel edges direction)\<^sup>*)
      \<and> (length (br_nodes_by_id m) < 5000 \<longrightarrow> (\<forall>k \<le> d. (s, t) \<notin> step_rel edges direction ^^ k))"
proof -
  let ?start = "\<lparr>te_id = s, te_depth = 0, te_path = element_item m s\<rparr>"
  have r: "known m s" "r = trace_loop m revision t d edges direction [s] False [?start]"
    using assms by (auto simp: trace_relationship_path_def Let_def split: if_splits)
  have "trace_inv m edges direction s t d [s] False [?start]"
    by (auto simp: trace_inv_def entry_ok_def traced_start)
  then have correct: "trace_correct m edges direction s t d r" unfolding r(2) by (rule trace_loop_correct)
  have "s \<in> set (dict_keys (br_nodes_by_id m))"
    using r(1) unfolding known_def by (metis domI dom_map_of_conv_image_fst list.set_map option.exhaust_sel)
  then have "insert s (endpoints edges) \<subseteq> set (dict_keys (br_nodes_by_id m))"
    using plane_edges_known [of m "planes_arg args"] assms(4) by simp
  then have "card (insert s (endpoints edges)) \<le> length (br_nodes_by_id m)"
    by (metis List.finite_set card_length card_mono le_trans length_map)
  then show ?thesis using correct by (auto simp: trace_correct_def MCP_MODEL_PATH_MAX_NODES_def)
qed

section \<open>The summary of a subtree\<close>

text \<open>The elements of a summary, one for every node of the tree, and the child edges it follows.\<close>

fun tree_elements :: "summary_tree \<Rightarrow> string list" where
  "tree_elements (SummaryTree s children) = ns_element_id s # concat (map (\<lambda>e. tree_elements (snd e)) children)"

definition children_elements :: "(string \<times> summary_tree) list \<Rightarrow> string list" where
  "children_elements children = concat (map (\<lambda>e. tree_elements (snd e)) children)"

definition shown_child :: "BuildResult \<Rightarrow> subtree_options \<Rightarrow> (string \<times> string) set" where
  "shown_child m opts = {(i, j). \<exists>n c. node_of m i = Some n \<and> node_of m j = Some c \<and> \<not> kind_excluded opts c
     \<and> j \<in> snd ` set (subtree_child_edges m n (so_hierarchy opts) (so_composition opts))}"

text \<open>
  What a visit adds to the shared state: exactly the elements of its tree, never beyond the limit, and when
  nothing is cut the shown children of all of them.
\<close>

definition visit_adds :: "BuildResult \<Rightarrow> subtree_options \<Rightarrow> string \<Rightarrow> string list \<Rightarrow> subtree_state \<Rightarrow> subtree_state \<Rightarrow> bool" where
  "visit_adds m opts i xs st st' \<longleftrightarrow>
     set (su_included st') = set (su_included st) \<union> set xs \<and> distinct (su_included st')
     \<and> (\<forall>x \<in> set xs. (i, x) \<in> (shown_child m opts)\<^sup>*)
     \<and> (\<not> su_truncated st' \<longrightarrow> \<not> su_truncated st \<and> (\<forall>x \<in> set xs. shown_child m opts `` {x} \<subseteq> set (su_included st')))"

lemma included_node [simp]:
  "su_included (include_node m n st) = set_add (mn_id n) (su_included st)" "su_truncated (include_node m n st) = su_truncated st"
  by (simp_all add: include_node_def)

lemma summary_id [simp]: "ns_element_id (model_node_summary m n) = mn_id n"
  by (simp add: model_node_summary_def)

lemma length_set_add: "length (set_add x xs) \<le> length xs + 1"
  by (simp add: set_add_def)

lemma visit_correct:
  "ids_ok m \<Longrightarrow> node_of m (mn_id n) = Some n \<Longrightarrow> set path \<subseteq> insert (mn_id n) (set (su_included st)) \<Longrightarrow> distinct (su_included st)
   \<Longrightarrow> visit m opts left n path st = (t, st')
   \<Longrightarrow> visit_adds m opts (mn_id n) (tree_elements t) st st' \<and> mn_id n \<in> set (tree_elements t)
     \<and> length (su_included st') \<le> max (length (su_included st) + 1) (so_max_nodes opts)"
  "ids_ok m \<Longrightarrow> node_of m p = Some q
   \<Longrightarrow> set edges \<subseteq> set (subtree_child_edges m q (so_hierarchy opts) (so_composition opts))
   \<Longrightarrow> set path \<subseteq> set (su_included st) \<Longrightarrow> distinct (su_included st)
   \<Longrightarrow> visit_edges m opts left edges path st = (ts, st')
   \<Longrightarrow> visit_adds m opts p (children_elements ts) st st'
     \<and> (\<not> su_truncated st' \<longrightarrow> snd ` set edges \<inter> shown_child m opts `` {p} \<subseteq> set (su_included st'))
     \<and> length (su_included st') \<le> max (length (su_included st)) (so_max_nodes opts)"
proof (induction m opts left n path st and m opts left edges path st arbitrary: t st' and ts st' p q
    rule: visit_visit_edges.induct)
  case (1 m opts n path st)
  then show ?case
    using length_set_add [of "mn_id n" "su_included st"]
    by (auto simp: visit_adds_def shown_child_def Let_def split: if_splits)
next
  case (2 m opts left n path st)
  let ?edges = "subtree_child_edges m n (so_hierarchy opts) (so_composition opts)"
  obtain ts st2 where run: "visit_edges m opts left ?edges path (include_node m n st) = (ts, st2)" by force
  then have t: "t = SummaryTree (model_node_summary m n) ts" "st' = st2" using 2(6) by simp_all
  have below: "visit_adds m opts (mn_id n) (children_elements ts) (include_node m n st) st'"
      "\<not> su_truncated st' \<Longrightarrow> snd ` set ?edges \<inter> shown_child m opts `` {mn_id n} \<subseteq> set (su_included st')"
      "length (su_included st') \<le> max (length (su_included (include_node m n st))) (so_max_nodes opts)"
    using 2(1) [OF 2(2,3) subset_refl _ _ run] 2(4,5) t(2) by simp_all
  have all: "shown_child m opts `` {mn_id n} \<subseteq> snd ` set ?edges" using 2(3) by (auto simp: shown_child_def)
  have elements: "tree_elements t = mn_id n # children_elements ts" by (simp add: t(1) children_elements_def)
  show ?case
    using below length_set_add [of "mn_id n" "su_included st"] all
    unfolding visit_adds_def elements included_node by (auto simp: Int_absorb1) blast
next
  case (3 m opts left path st)
  then show ?case by (auto simp: visit_adds_def children_elements_def)
next
  case (4 m opts left r c edges path st)
  note known = 4(5,6) and edges = 4(7) and path = 4(8,9) and run = 4(10)
  have more: "set edges \<subseteq> set (subtree_child_edges m q (so_hierarchy opts) (so_composition opts))" using edges by simp
  show ?case
  proof (cases "node_of m c")
    case None
    then have "c \<notin> shown_child m opts `` {p}" by (simp add: shown_child_def)
    then show ?thesis using 4(1) [OF None known more path] run None by auto
  next
    case (Some child)
    note child = this
    show ?thesis
    proof (cases "c \<in> set path \<or> kind_excluded opts child")
      case True
      then have "c \<in> set (su_included st) \<or> c \<notin> shown_child m opts `` {p}" using path(1) child by (auto simp: shown_child_def)
      moreover have "set (su_included st) \<subseteq> set (su_included st')" if "visit_adds m opts p (children_elements ts) st st'"
        using that by (auto simp: visit_adds_def)
      ultimately show ?thesis using 4(2) [OF child True known more path] run child True by auto
    next
      case shown: False
      then have edge: "(p, c) \<in> shown_child m opts" using known(2) child edges by (force simp: shown_child_def)
      show ?thesis
      proof (cases "length (su_included st) \<ge> so_max_nodes opts")
        case True
        then show ?thesis using run child shown path by (auto simp: visit_adds_def children_elements_def)
      next
        case below: False
        obtain t1 st1 where first: "visit m opts left child (set_add c path) st = (t1, st1)" by force
        obtain ts2 st2 where rest: "visit_edges m opts left edges path st1 = (ts2, st2)" by force
        have result: "ts = (r, t1) # ts2" "st' = st2" using run child shown below first rest by simp_all
        have id: "mn_id child = c" using ids_okD [OF known(1) child] .
        have one: "visit_adds m opts c (tree_elements t1) st st1" "c \<in> set (tree_elements t1)"
            "length (su_included st1) \<le> so_max_nodes opts"
          using 4(3) [OF child shown below known(1) _ _ path(2) first] path(1) child id below by auto
        have path1: "set path \<subseteq> set (su_included st1)" "distinct (su_included st1)" using one(1) path(1) by (auto simp: visit_adds_def)
        have two: "visit_adds m opts p (children_elements ts2) st1 st'"
            "\<not> su_truncated st' \<Longrightarrow> snd ` set edges \<inter> shown_child m opts `` {p} \<subseteq> set (su_included st')"
            "length (su_included st') \<le> so_max_nodes opts"
          using 4(4) [OF child shown below first [symmetric] refl known more path1 rest] one(3) result(2) by auto
        have elements: "children_elements ts = tree_elements t1 @ children_elements ts2" by (simp add: result(1) children_elements_def)
        have "visit_adds m opts p (children_elements ts) st st'"
          using one(1) two(1) edge unfolding visit_adds_def elements by (auto intro: converse_rtrancl_into_rtrancl) blast+
        moreover have "c \<in> set (su_included st')" using one(1,2) two(1) by (auto simp: visit_adds_def)
        ultimately show ?thesis using two(2,3) by auto
      qed
    qed
  qed
qed

lemma subtree_closed:
  assumes "visit_adds m opts i xs st st'" "su_included st = []" "i \<in> set xs" "\<not> su_truncated st'"
  shows "(shown_child m opts)\<^sup>* `` {i} \<subseteq> set xs"
proof
  fix x
  assume "x \<in> (shown_child m opts)\<^sup>* `` {i}"
  then have "(i, x) \<in> (shown_child m opts)\<^sup>*" by simp
  then show "x \<in> set xs"
  proof (induction rule: rtrancl_induct)
    case (step y z)
    then show ?case using assms(1,2,4) by (auto simp: visit_adds_def)
  qed (rule assms(3))
qed

text \<open>The options of a call.\<close>

definition subtree_options_of :: "arguments \<Rightarrow> subtree_options" where
  "subtree_options_of args = \<lparr>so_hierarchy = bool_arg args ''includeHierarchy'', so_composition = bool_arg args ''includeComposition'',
     so_properties = bool_arg args ''includeProperties'', so_actions = bool_arg args ''includeActions'',
     so_max_nodes = nat_arg args ''maxNodes'' 200\<rparr>"

text \<open>
  C33. The summary of a subtree: its tree has only elements that are reachable from the root along the
  selected child relationships and kinds, \<open>totalNodes\<close> is the number of different elements in it and
  within the limit, and unless it is marked as truncated it has all of them.
\<close>

theorem subtree_summary_covers_the_subtree:
  assumes "ids_ok m" "text_arg args ''rootElementId'' = Some i" "summarize_subtree m revision args = Inr r"
    and "0 < nat_arg args ''maxNodes'' 200" "opts = subtree_options_of args"
  shows "set (tree_elements (sr_tree r)) \<subseteq> (shown_child m opts)\<^sup>* `` {i}
    \<and> sr_total_nodes r = card (set (tree_elements (sr_tree r))) \<and> sr_total_nodes r \<le> nat_arg args ''maxNodes'' 200
    \<and> (\<not> sr_truncated r \<longrightarrow> set (tree_elements (sr_tree r)) = (shown_child m opts)\<^sup>* `` {i})"
proof -
  obtain n where n: "node_of m i = Some n" using assms(2,3) by (auto simp: summarize_subtree_def split: option.splits)
  let ?st = "\<lparr>su_included = [], su_kind_counts = [], su_role_counts = [], su_truncated = False\<rparr>"
  obtain t st where run: "visit m opts (nat_arg args ''maxDepth'' 4) n [i] ?st = (t, st)" by force
  have r: "sr_tree r = t" "sr_total_nodes r = length (su_included st)" "sr_truncated r = su_truncated st"
    using assms(2,3,5) n run by (auto simp: summarize_subtree_def subtree_options_of_def Let_def)
  have id: "mn_id n = i" using ids_okD [OF assms(1) n] .
  have adds: "visit_adds m opts i (tree_elements t) ?st st" "i \<in> set (tree_elements t)"
      "length (su_included st) \<le> max 1 (so_max_nodes opts)"
    using visit_correct(1) [OF assms(1) _ _ _ run] n id by simp_all
  have total: "length (su_included st) = card (set (tree_elements t))"
    using adds(1) distinct_card [of "su_included st"] by (simp add: visit_adds_def)
  have bound: "length (su_included st) \<le> nat_arg args ''maxNodes'' 200"
    using adds(3) assms(4,5) by (simp add: subtree_options_of_def)
  have "set (tree_elements t) \<subseteq> (shown_child m opts)\<^sup>* `` {i}" using adds(1) by (auto simp: visit_adds_def)
  then show ?thesis unfolding r using total bound subtree_closed [OF adds(1) _ adds(2)] by auto
qed

section \<open>A ladder\<close>

text \<open>A chain of elements in which each is the child of the one before both by hierarchy and by composition.\<close>

definition rung :: "nat \<Rightarrow> string" where
  "rung k = replicate k CHR ''x'' @ ''0''"

definition ladder :: "nat \<Rightarrow> BuildResult" where
  "ladder n = (sample_model (map (\<lambda>k. (rung k, sample_node (rung k) Asset (rung k))) [0..<n + 1]) [])
     \<lparr>br_hierarchy_children_by_id := map (\<lambda>k. (rung k, [rung (k + 1)])) [0..<n],
      br_composition_children_by_id := map (\<lambda>k. (rung k, [rung (k + 1)])) [0..<n],
      br_relationships_by_id := map (\<lambda>k. (rung k, [(''HasChildren'', [rung (k + 1)]), (''HasComponent'', [rung (k + 1)])])) [0..<n]\<rparr>"

lemma rung_inject [simp]: "rung j = rung k \<longleftrightarrow> j = k"
  by (auto simp: rung_def dest: arg_cong [of _ _ "\<lambda>xs. length xs"])

lemma map_of_rungs [simp]: "map_of (map (\<lambda>k. (rung k, f k)) xs) (rung j) = (if j \<in> set xs then Some (f j) else None)"
  by (induction xs) auto

lemma ladder_facts:
  "node_of (ladder n) (rung k) = (if k \<le> n then Some (sample_node (rung k) Asset (rung k)) else None)"
  "k \<le> n \<Longrightarrow> subtree_child_edges (ladder n) (sample_node (rung k) Asset (rung k)) True True
     = (if k < n then [(''HasChildren'', rung (k + 1)), (''HasComponent'', rung (k + 1))] else [])"
  by (simp_all add: ladder_def sample_model_def sample_node_def subtree_child_edges_def dict_get_def_def less_Suc_eq_le del: upt_Suc)

text \<open>A visit on level \<open>k\<close> counts every node of a binary tree, and includes the levels below once.\<close>

definition all_options :: "nat \<Rightarrow> subtree_options" where
  "all_options max_nodes = \<lparr>so_hierarchy = True, so_composition = True, so_properties = True, so_actions = True, so_max_nodes = max_nodes\<rparr>"

lemma sample_node_id [simp]: "mn_id (sample_node i k s) = i" "mn_kind (sample_node i k s) = k"
  by (simp_all add: sample_node_def)

lemma count_one:
  "dict_get_def (su_kind_counts (include_node m n st)) k 0
   = dict_get_def (su_kind_counts st) k 0 + (if kind_name (mn_kind n) = k then 1 else 0)"
  by (simp add: include_node_def count_in_def)

lemma options_of_ladder:
  "so_hierarchy (all_options k)" "so_composition (all_options k)" "so_max_nodes (all_options k) = k"
  by (simp_all add: all_options_def)

lemma kind_shown: "mn_kind n = Asset \<Longrightarrow> \<not> kind_excluded opts n"
  by (simp add: kind_excluded_def)

lemma few_rungs:
  assumes "distinct xs" "set xs \<subseteq> rung ` {..n}"
  shows "length xs \<le> n + 1"
  using card_mono [OF _ assms(2)] card_image_le [of "{..n}" rung] distinct_card [OF assms(1)] by simp

lemma visit_ladder:
  assumes "j = n - k" "k \<le> n" "n + 1 < max_nodes" "\<And>l. k < l \<Longrightarrow> rung l \<notin> set path"
    and "distinct (su_included st)" "set (su_included st) \<subseteq> rung ` {..n}"
  shows "\<exists>t st'. visit (ladder n) (all_options max_nodes) j (sample_node (rung k) Asset (rung k)) path st = (t, st')
    \<and> length (tree_elements t) = 2 ^ (j + 1) - 1 \<and> su_truncated st' = su_truncated st
    \<and> set (su_included st') = set (su_included st) \<union> rung ` {k..n} \<and> distinct (su_included st')
    \<and> dict_get_def (su_kind_counts st') ''asset'' 0 = dict_get_def (su_kind_counts st) ''asset'' 0 + (2 ^ (j + 1) - 1)"
  using assms
proof (induction j arbitrary: k path st)
  case 0
  then have k: "k = n" by simp
  show ?case
    using 0(5) by (simp add: k ladder_facts all_options_def count_one kind_name_def)
next
  case (Suc j)
  have k: "k < n" "j = n - (k + 1)" using Suc.prems(1) by auto
  let ?node = "\<lambda>k. sample_node (rung k) Asset (rung k)"
  let ?opts = "all_options max_nodes" and ?st = "include_node (ladder n) (?node k) st" and ?path = "set_add (rung (k + 1)) path"
  have start: "distinct (su_included ?st)" "set (su_included ?st) \<subseteq> rung ` {..n}" using Suc.prems(2,5,6) by auto
  have below: "rung l \<notin> set ?path" if "k + 1 < l" for l using Suc.prems(4) that by simp
  obtain t1 st1 where one: "visit (ladder n) ?opts j (?node (k + 1)) ?path ?st = (t1, st1)"
      "length (tree_elements t1) = 2 ^ (j + 1) - 1" "su_truncated st1 = su_truncated ?st"
      "set (su_included st1) = set (su_included ?st) \<union> rung ` {k + 1..n}" "distinct (su_included st1)"
      "dict_get_def (su_kind_counts st1) ''asset'' 0 = dict_get_def (su_kind_counts ?st) ''asset'' 0 + (2 ^ (j + 1) - 1)"
    using Suc.IH [OF k(2) _ Suc.prems(3) below start] k(1) by auto
  have start1: "set (su_included st1) \<subseteq> rung ` {..n}" using start(2) by (auto simp: one(4))
  obtain t2 st2 where two: "visit (ladder n) ?opts j (?node (k + 1)) ?path st1 = (t2, st2)"
      "length (tree_elements t2) = 2 ^ (j + 1) - 1" "su_truncated st2 = su_truncated st1"
      "set (su_included st2) = set (su_included st1) \<union> rung ` {k + 1..n}" "distinct (su_included st2)"
      "dict_get_def (su_kind_counts st2) ''asset'' 0 = dict_get_def (su_kind_counts st1) ''asset'' 0 + (2 ^ (j + 1) - 1)"
    using Suc.IH [OF k(2) _ Suc.prems(3) below one(5) start1] k(1) by auto
  have room: "length (su_included ?st) < max_nodes" "length (su_included st1) < max_nodes"
    using few_rungs [OF start] few_rungs [OF one(5) start1] Suc.prems(3) by simp_all
  have run: "visit (ladder n) ?opts (Suc j) (?node k) path st
      = (SummaryTree (model_node_summary (ladder n) (?node k)) [(''HasChildren'', t1), (''HasComponent'', t2)], st2)"
    using k(1) room Suc.prems(4) [of "k + 1"] one(1) two(1)
    by (simp add: ladder_facts options_of_ladder kind_shown)
  have levels: "rung ` {k..n} = insert (rung k) (rung ` {k + 1..n})"
    using Suc.prems(2) by (simp add: atLeastAtMost_insertL flip: image_insert)
  have visits: "dict_get_def (su_kind_counts ?st) ''asset'' 0 = dict_get_def (su_kind_counts st) ''asset'' 0 + 1"
    by (simp add: count_one kind_name_def)
  have double: "1 + (2 ^ (j + 1) - 1 + (2 ^ (j + 1) - 1)) = 2 ^ (Suc j + 1) - (1 :: nat)"
  proof -
    have "1 \<le> (2 :: nat) ^ j" by (rule one_le_power) simp
    then have "Suc (4 * 2 ^ j - Suc (Suc 0)) = 4 * 2 ^ j - Suc (0 :: nat)" by linarith
    then show ?thesis by simp
  qed
  show ?case
    by (intro exI conjI, rule run)
      (use one(2-6) two(2-6) levels visits double in auto)
qed

text \<open>The ladder of two levels is an instance of the properties above.\<close>

theorem trace_finds_a_shortest_path_witness:
  "\<exists>r. trace_relationship_path (ladder 2) ''r'' [(''sourceElementId'', PStr (rung 0)), (''targetElementId'', PStr (rung 2))] = Inr r
    \<and> tr_found r \<and> tr_path_length r = Some 2
    \<and> at_distance (step_rel (plane_edges (ladder 2) (planes_arg [])) ''either'') (rung 0) (rung 2) 2
    \<and> traced (ladder 2) (plane_edges (ladder 2) (planes_arg [])) ''either'' (rung 0) (tr_path r) (rung 2) 2"
proof -
  let ?args = "[(''sourceElementId'', PStr (rung 0)), (''targetElementId'', PStr (rung 2))]"
  have run: "case trace_relationship_path (ladder 2) ''r'' ?args of Inl _ \<Rightarrow> False | Inr r \<Rightarrow> tr_found r \<and> tr_path_length r = Some 2"
    by code_simp
  then obtain r where r: "trace_relationship_path (ladder 2) ''r'' ?args = Inr r" "tr_found r" "tr_path_length r = Some 2"
    by (auto split: sum.splits)
  have args: "planes_arg ?args = planes_arg []" "direction_arg ?args = ''either''" by (simp_all add: planes_arg_def direction_arg_def text_arg_def)
  show ?thesis
    using trace_finds_a_shortest_path [OF _ _ r(1) refl refl refl, of "rung 0" "rung 2", unfolded args] r by (auto simp: text_arg_def)
qed

theorem subtree_summary_covers_the_subtree_witness:
  "\<exists>r. summarize_subtree (ladder 2) ''r'' [(''rootElementId'', PStr (rung 0))] = Inr r \<and> sr_total_nodes r = 3
    \<and> set (tree_elements (sr_tree r)) = (shown_child (ladder 2) (subtree_options_of [(''rootElementId'', PStr (rung 0))]))\<^sup>* `` {rung 0}"
proof -
  let ?args = "[(''rootElementId'', PStr (rung 0))]"
  have run: "case summarize_subtree (ladder 2) ''r'' ?args of Inl _ \<Rightarrow> False | Inr r \<Rightarrow> sr_total_nodes r = 3 \<and> \<not> sr_truncated r"
    by code_simp
  then obtain r where r: "summarize_subtree (ladder 2) ''r'' ?args = Inr r" "sr_total_nodes r = 3" "\<not> sr_truncated r"
    by (auto split: sum.splits)
  moreover have "ids_ok (ladder 2)" by (auto simp: ids_ok_def ladder_def sample_model_def)
  ultimately show ?thesis
    using subtree_summary_covers_the_subtree [OF _ _ r(1) _ refl, of "rung 0"] by (auto simp: text_arg_def nat_arg_def)
qed

text \<open>
  The limit on the nodes of a summary does not bound the answer: for a valid call at a chain of \<open>n + 1\<close>
  elements, each the child of the one before on both planes, the summary reports \<open>n + 1\<close> nodes and no
  truncation, but its tree has more than \<open>2^n\<close> nodes, and it counts that many assets.
\<close>

theorem subtree_summary_grows_exponentially:
  assumes "n \<le> 32"
  shows "\<exists>r. invoke_model_tool str_of (ladder n) revision ''summarizeSubtree''
      [(''rootElementId'', PStr (rung 0)), (''maxDepth'', PInt (int n))] = Inr (BodySubtree r)
    \<and> sr_total_nodes r = n + 1 \<and> \<not> sr_truncated r \<and> length (tree_elements (sr_tree r)) = 2 ^ (n + 1) - 1
    \<and> dict_get (sr_by_kind r) ''asset'' = Some (2 ^ (n + 1) - 1)"
proof -
  let ?args = "[(''rootElementId'', PStr (rung 0)), (''maxDepth'', PInt (int n))]"
  let ?st = "\<lparr>su_included = [], su_kind_counts = [], su_role_counts = [], su_truncated = False\<rparr>"
  obtain t st where run: "visit (ladder n) (all_options 200) n (sample_node (rung 0) Asset (rung 0)) [rung 0] ?st = (t, st)"
      "length (tree_elements t) = 2 ^ (n + 1) - 1" "\<not> su_truncated st" "set (su_included st) = rung ` {0..n}" "distinct (su_included st)"
      "dict_get_def (su_kind_counts st) ''asset'' 0 = 2 ^ (n + 1) - 1"
    using visit_ladder [of n n 0 200 "[rung 0]" ?st] assms by (auto simp: dict_get_def_def)
  have "length (su_included st) = n + 1"
    using distinct_card [OF run(5)] card_image [of rung "{0..n}"] by (simp add: run(4) inj_on_def)
  moreover have "dict_get (su_kind_counts st) ''asset'' = Some (2 ^ (n + 1) - 1)"
  proof (cases "dict_get (su_kind_counts st) ''asset''")
    case None
    then have "2 ^ (n + 1) - 1 = (0 :: nat)" using run(6) by (simp add: dict_get_def_def)
    moreover have "(1 :: nat) < 2 ^ (n + 1)" by (rule one_less_power) simp_all
    ultimately show ?thesis by linarith
  qed (use run(6) in \<open>simp add: dict_get_def_def\<close>)
  moreover have "validate_model_tool_arguments ''summarizeSubtree'' ?args = Inr ()"
    using assms
    by (simp add: validate_model_tool_arguments_def required_arguments_def batch_field_def check_fields_def text_ok_def rung_def
        int_ok_def integer_bounds_def enum_values_def
        py_strip_def strip_if_def py_isspace_def)
  ultimately show ?thesis
    using run by (auto simp: invoke_model_tool_def summarize_subtree_def text_arg_def bool_arg_def nat_arg_def ladder_facts all_options_def)
qed

theorem subtree_summary_grows_exponentially_witness:
  "\<exists>r. invoke_model_tool (\<lambda>_. []) (ladder 32) ''r'' ''summarizeSubtree''
      [(''rootElementId'', PStr (rung 0)), (''maxDepth'', PInt (int 32))] = Inr (BodySubtree r)
    \<and> sr_total_nodes r = 32 + 1 \<and> \<not> sr_truncated r \<and> length (tree_elements (sr_tree r)) = 2 ^ (32 + 1) - 1
    \<and> dict_get (sr_by_kind r) ''asset'' = Some (2 ^ (32 + 1) - 1)"
  by (rule subtree_summary_grows_exponentially) simp

end
