(* ===== verification/HttpCaching.thy ===== *)
theory HttpCaching
  imports Prelude "HOL-Library.Product_Lexorder"
begin

text \<open>
  Revisions and conditional requests, \<open>i3x_server/http_caching.py\<close>: what handlers record, the entity tag
  of a response, the comparison with \<open>If-None-Match\<close>, and the middleware that adds the headers and
  answers 304. The hash (\<open>sha256\<close>, 64 hexadecimal digits) and Python's \<open>repr\<close> are parameters.

  A request is the sequence of what its handler does: recording revisions, the early test for an
  unchanged representation, and sending messages. Headers are a dictionary on lower-case names.
\<close>

section \<open>Revisions\<close>

definition MODEL_REVISION_HEADER :: string where "MODEL_REVISION_HEADER = ''i3x-model-revision''"
definition MODEL_PART :: string where "MODEL_PART = ''model''"
definition NAMESPACES_PART :: string where "NAMESPACES_PART = ''namespaces''"
definition OBJECT_TYPES_PART :: string where "OBJECT_TYPES_PART = ''objecttypes''"
definition ETAG_ENABLED :: string where "ETAG_ENABLED = ''_etag''"
definition NOT_CACHEABLE :: string where "NOT_CACHEABLE = ''_not_cacheable''"
definition BODY_HEADERS :: "string list" where "BODY_HEADERS = [''content-length'', ''content-type'', ''content-encoding'']"

type_synonym revisions = "(string, string) dict"

definition record_revision :: "string \<Rightarrow> string \<Rightarrow> revisions \<Rightarrow> revisions" where
  "record_revision name revision parts = (if revision \<noteq> [] then dict_set name revision parts else parts)"

definition mark_not_cacheable :: "revisions \<Rightarrow> revisions" where
  "mark_not_cacheable parts = record_revision NOT_CACHEABLE ''1'' parts"

definition enable_etag :: "revisions \<Rightarrow> revisions" where
  "enable_etag parts = record_revision ETAG_ENABLED ''1'' parts"

definition content_revision :: "(string \<Rightarrow> string) \<Rightarrow> ('a \<Rightarrow> string) \<Rightarrow> 'a list \<Rightarrow> string" where
  "content_revision sha256_hex repr values_in = take 32 (sha256_hex (concat (map (\<lambda>v. repr v @ [CHR 0x0A]) values_in)))"

definition quote_char :: char where "quote_char = CHR 0x22"

text \<open>The revisions a representation was made from, without the marks that begin with an underscore.\<close>

definition used_revisions :: "revisions \<Rightarrow> (string \<times> string) list" where
  "used_revisions parts = sort (filter (\<lambda>(name, v). \<not> startswith name ''_'') parts)"

definition representation_etag :: "((string \<times> string) list \<Rightarrow> string) \<Rightarrow> revisions \<Rightarrow> string option" where
  "representation_etag digest parts =
     (if dict_get parts ETAG_ENABLED = None \<or> dict_get parts NOT_CACHEABLE \<noteq> None then None
      else if used_revisions parts = [] then None
      else Some (''W/'' @ [quote_char] @ digest (used_revisions parts) @ [quote_char]))"

section \<open>Matching\<close>

definition opaque_tag :: "string \<Rightarrow> string" where
  "opaque_tag tag = (let t = py_strip tag in if startswith t ''W/'' then drop 2 t else t)"

definition etag_matches :: "string option \<Rightarrow> string \<Rightarrow> bool" where
  "etag_matches if_none_match etag =
     (case if_none_match of
        None \<Rightarrow> False
      | Some h \<Rightarrow> h \<noteq> [] \<and> (py_strip h = ''*'' \<or> list_ex (\<lambda>c. opaque_tag c = opaque_tag etag) (split_on CHR '','' h)))"

definition is_read :: "string \<Rightarrow> bool" where
  "is_read method_name \<longleftrightarrow> method_name \<in> {''GET'', ''HEAD''}"

text \<open>\<open>raise_if_not_modified\<close>: whether it raises.\<close>

definition raises_not_modified :: "((string \<times> string) list \<Rightarrow> string) \<Rightarrow> string \<Rightarrow> string option \<Rightarrow> revisions \<Rightarrow> bool" where
  "raises_not_modified digest method_name if_none_match parts \<longleftrightarrow>
     is_read method_name \<and> (case representation_etag digest parts of None \<Rightarrow> False | Some etag \<Rightarrow> etag_matches if_none_match etag)"

section \<open>The middleware\<close>

type_synonym headers = "(string, string) dict"

datatype message = ResponseStart nat headers | ResponseBody string bool | OtherMessage string

text \<open>The state of one request: the recorded revisions, whether the body is dropped, and what was sent.\<close>

record exchange =
  ex_parts :: revisions
  ex_drop_body :: bool
  ex_sent :: "message list"

definition with_model_revision :: "revisions \<Rightarrow> headers \<Rightarrow> headers" where
  "with_model_revision parts hs =
     (case dict_get parts MODEL_PART of
        Some r \<Rightarrow> if r \<noteq> [] then dict_set MODEL_REVISION_HEADER r hs else hs
      | None \<Rightarrow> hs)"

definition without_body_headers :: "headers \<Rightarrow> headers" where
  "without_body_headers hs = foldl (\<lambda>hs name. dict_del name hs) hs BODY_HEADERS"

definition start_with_revision ::
  "((string \<times> string) list \<Rightarrow> string) \<Rightarrow> string \<Rightarrow> string option \<Rightarrow> nat \<Rightarrow> headers \<Rightarrow> exchange \<Rightarrow> exchange" where
  "start_with_revision digest method_name if_none_match status hs ex =
     (let hs1 = with_model_revision (ex_parts ex) hs;
          etag = (if is_read method_name then representation_etag digest (ex_parts ex) else None)
      in case etag of
           None \<Rightarrow> ex\<lparr>ex_sent := ex_sent ex @ [ResponseStart status hs1]\<rparr>
         | Some e \<Rightarrow>
             if status \<notin> {200, 304} then ex\<lparr>ex_sent := ex_sent ex @ [ResponseStart status hs1]\<rparr>
             else
               let hs2 = dict_set ''cache-control'' ''no-cache'' (dict_set ''etag'' e hs1);
                   unchanged = (status = 200 \<and> etag_matches if_none_match e);
                   status2 = (if unchanged then 304 else status)
               in ex\<lparr>ex_drop_body := ex_drop_body ex \<or> unchanged,
                     ex_sent := ex_sent ex @ [ResponseStart status2 (if status2 = 304 then without_body_headers hs2 else hs2)]\<rparr>)"

definition send_with_revision ::
  "((string \<times> string) list \<Rightarrow> string) \<Rightarrow> string \<Rightarrow> string option \<Rightarrow> message \<Rightarrow> exchange \<Rightarrow> exchange" where
  "send_with_revision digest method_name if_none_match msg ex =
     (case msg of
        ResponseStart status hs \<Rightarrow> start_with_revision digest method_name if_none_match status hs ex
      | ResponseBody b more_body \<Rightarrow>
          if ex_drop_body ex
          then if more_body then ex else ex\<lparr>ex_sent := ex_sent ex @ [ResponseBody [] False]\<rparr>
          else ex\<lparr>ex_sent := ex_sent ex @ [msg]\<rparr>
      | OtherMessage _ \<Rightarrow> ex\<lparr>ex_sent := ex_sent ex @ [msg]\<rparr>)"

text \<open>
  What the handler of a route does. \<open>raise_if_not_modified\<close> leaves the handler when it raises, and
  \<open>handle_not_modified\<close> of \<open>bootstrap/app_factory.py\<close> answers with an empty response of status 304.
\<close>

datatype handler_step =
    RecordRevision string string
  | MarkNotCacheable
  | EnableEtag
  | RaiseIfNotModified
  | SendMessage message

definition not_modified_response :: "message list" where
  "not_modified_response = [ResponseStart 304 [], ResponseBody [] False]"

fun run_handler ::
  "((string \<times> string) list \<Rightarrow> string) \<Rightarrow> string \<Rightarrow> string option \<Rightarrow> handler_step list \<Rightarrow> exchange \<Rightarrow> exchange" where
  "run_handler digest method_name if_none_match [] ex = ex"
| "run_handler digest method_name if_none_match (RecordRevision name r # steps) ex =
     run_handler digest method_name if_none_match steps (ex\<lparr>ex_parts := record_revision name r (ex_parts ex)\<rparr>)"
| "run_handler digest method_name if_none_match (MarkNotCacheable # steps) ex =
     run_handler digest method_name if_none_match steps (ex\<lparr>ex_parts := mark_not_cacheable (ex_parts ex)\<rparr>)"
| "run_handler digest method_name if_none_match (EnableEtag # steps) ex =
     run_handler digest method_name if_none_match steps (ex\<lparr>ex_parts := enable_etag (ex_parts ex)\<rparr>)"
| "run_handler digest method_name if_none_match (RaiseIfNotModified # steps) ex =
     (if raises_not_modified digest method_name if_none_match (ex_parts ex)
      then fold (send_with_revision digest method_name if_none_match) not_modified_response ex
      else run_handler digest method_name if_none_match steps ex)"
| "run_handler digest method_name if_none_match (SendMessage msg # steps) ex =
     run_handler digest method_name if_none_match steps (send_with_revision digest method_name if_none_match msg ex)"

definition http_exchange ::
  "((string \<times> string) list \<Rightarrow> string) \<Rightarrow> string \<Rightarrow> string option \<Rightarrow> handler_step list \<Rightarrow> message list" where
  "http_exchange digest method_name if_none_match steps =
     ex_sent (run_handler digest method_name if_none_match steps \<lparr>ex_parts = [], ex_drop_body = False, ex_sent = []\<rparr>)"

end
