(* ===== verification/HttpCachingProps.thy ===== *)
theory HttpCachingProps
  imports HttpCaching
begin

text \<open>
  Conditional requests are exact: a client that sends the tags of copies it has is told that one of them is
  current exactly when it is.
\<close>

section \<open>Tags\<close>

lemma split_on_join:
  assumes "ws \<noteq> []" "\<And>w. w \<in> set ws \<Longrightarrow> c \<notin> set w"
  shows "split_on c (join_with [c] ws) = ws"
proof -
  have plain: "split_on c w = [w]" if "c \<notin> set w" for w using that by (induction w) auto
  have step: "split_on c (w @ c # s) = w # split_on c s" if "c \<notin> set w" for w s using that by (induction w) auto
  from assms show ?thesis
  proof (induction ws)
    case (Cons w ws)
    then show ?case using plain step by (cases ws) auto
  qed simp
qed

definition digest_char :: "char \<Rightarrow> bool" where
  "digest_char c \<longleftrightarrow> c \<in> set ''0123456789abcdef''"

definition tag_text :: "string \<Rightarrow> string" where
  "tag_text d = ''W/'' @ [quote_char] @ d @ [quote_char]"

lemma tag_parts: "hd (tag_text d) = CHR ''W''" "last (tag_text d) = quote_char" "tag_text d \<noteq> []"
  by (simp_all add: tag_text_def)

lemma not_space_tag: "\<not> py_isspace (CHR ''W'')" "\<not> py_isspace quote_char"
  by (simp_all add: py_isspace_def quote_char_def)

lemma strip_tag: "hd h = CHR ''W'' \<Longrightarrow> last h = quote_char \<Longrightarrow> py_strip h = h"
  unfolding py_strip_def by (rule strip_if_fix) (simp add: not_space_tag)

lemma opaque_tag_text: "opaque_tag (tag_text d) = [quote_char] @ d @ [quote_char]"
  by (simp add: opaque_tag_def strip_tag tag_parts) (simp add: tag_text_def)

lemma joined_ends:
  "ds \<noteq> [] \<Longrightarrow> hd (join_with s (map tag_text ds)) = CHR ''W'' \<and> last (join_with s (map tag_text ds)) = quote_char
    \<and> join_with s (map tag_text ds) \<noteq> []"
proof (induction ds)
  case (Cons d ds)
  then show ?case by (cases ds) (simp_all add: tag_parts)
qed simp

lemma no_comma: "list_all digest_char x \<Longrightarrow> CHR '','' \<notin> set (tag_text x)"
  unfolding tag_text_def quote_char_def by (induction x) (auto simp: digest_char_def)

lemma tags_match:
  assumes "ds \<noteq> []" "\<And>x. x \<in> set ds \<Longrightarrow> list_all digest_char x"
  shows "etag_matches (Some (join_with '','' (map tag_text ds))) (tag_text d) \<longleftrightarrow> d \<in> set ds"
proof -
  define h where "h = join_with '','' (map tag_text ds)"
  have ends: "hd h = CHR ''W''" "last h = quote_char" "h \<noteq> []" using joined_ends [OF assms(1), of "'',''"] by (simp_all add: h_def)
  have parts: "split_on CHR '','' h = map tag_text ds"
    unfolding h_def using assms(1) no_comma [OF assms(2)] by (intro split_on_join) auto
  have "py_strip h = h" using ends by (intro strip_tag)
  then have star: "py_strip h \<noteq> ''*''" using ends by auto
  have "opaque_tag (tag_text x) = opaque_tag (tag_text d) \<longleftrightarrow> x = d" for x by (simp add: opaque_tag_text)
  then have "list_ex (\<lambda>c. opaque_tag c = opaque_tag (tag_text d)) (map tag_text ds) \<longleftrightarrow> d \<in> set ds"
    by (auto simp: list_ex_iff)
  then show ?thesis unfolding h_def [symmetric] using ends(3) star parts by (simp add: etag_matches_def)
qed

section \<open>Requests\<close>

text \<open>What a handler with entity tags does: record the revisions it uses, test early or not, send the response.\<close>

definition revisions_of :: "(string \<times> string) list \<Rightarrow> revisions" where
  "revisions_of rs = foldl (\<lambda>parts (name, r). record_revision name r parts) (enable_etag []) rs"

definition body_messages :: "string list \<Rightarrow> message list" where
  "body_messages chunks = map (\<lambda>b. ResponseBody b True) (butlast chunks) @ [ResponseBody (last chunks) False]"

definition tagged_route :: "(string \<times> string) list \<Rightarrow> bool \<Rightarrow> headers \<Rightarrow> string list \<Rightarrow> handler_step list" where
  "tagged_route rs early hs chunks =
     EnableEtag # map (\<lambda>(name, r). RecordRevision name r) rs @ (if early then [RaiseIfNotModified] else [])
     @ map SendMessage (ResponseStart 200 hs # body_messages chunks)"

lemma run_records:
  "run_handler digest method_name inm (map (\<lambda>(name, r). RecordRevision name r) rs @ steps) ex
   = run_handler digest method_name inm steps
       (ex\<lparr>ex_parts := foldl (\<lambda>parts (name, r). record_revision name r parts) (ex_parts ex) rs\<rparr>)"
  by (induction rs arbitrary: ex) auto

lemma run_sends: "run_handler digest method_name inm (map SendMessage msgs) ex = fold (send_with_revision digest method_name inm) msgs ex"
  by (induction msgs arbitrary: ex) auto

lemma run_tagged_route:
  "run_handler digest method_name inm (tagged_route rs early hs chunks) \<lparr>ex_parts = [], ex_drop_body = False, ex_sent = []\<rparr>
   = fold (send_with_revision digest method_name inm)
       (if early \<and> raises_not_modified digest method_name inm (revisions_of rs) then not_modified_response
        else ResponseStart 200 hs # body_messages chunks)
       \<lparr>ex_parts = revisions_of rs, ex_drop_body = False, ex_sent = []\<rparr>"
  by (simp add: tagged_route_def run_records revisions_of_def run_sends del: fold_Cons fold.simps list.map)

text \<open>A body is passed on as it is, or dropped but for one empty last message.\<close>

lemma send_chunks:
  "fold (send_with_revision digest method_name inm) (map (\<lambda>b. ResponseBody b True) bs) ex
   = (if ex_drop_body ex then ex else ex\<lparr>ex_sent := ex_sent ex @ map (\<lambda>b. ResponseBody b True) bs\<rparr>)"
  by (induction bs arbitrary: ex) (auto simp: send_with_revision_def)

lemma send_body:
  "ex_sent (fold (send_with_revision digest method_name inm) (body_messages chunks) ex)
   = ex_sent ex @ (if ex_drop_body ex then [ResponseBody [] False] else body_messages chunks)"
  by (simp add: body_messages_def send_chunks) (simp add: send_with_revision_def)

text \<open>What the client gets: the current tag, and either its copy is current or the whole body.\<close>

definition answers_not_modified :: "string \<Rightarrow> message list \<Rightarrow> bool" where
  "answers_not_modified etag sent \<longleftrightarrow>
     (\<exists>hs. sent = [ResponseStart 304 hs, ResponseBody [] False] \<and> dict_get hs ''etag'' = Some etag
        \<and> (\<forall>name \<in> set BODY_HEADERS. dict_get hs name = None))"

definition answers_in_full :: "string \<Rightarrow> string list \<Rightarrow> message list \<Rightarrow> bool" where
  "answers_in_full etag chunks sent \<longleftrightarrow>
     (\<exists>hs. sent = ResponseStart 200 hs # body_messages chunks \<and> dict_get hs ''etag'' = Some etag)"

lemma without_body_headers_get:
  "dict_get (without_body_headers hs) name = (if name \<in> set BODY_HEADERS then None else dict_get hs name)"
  by (simp add: without_body_headers_def BODY_HEADERS_def)

lemma tagged_route_answers:
  assumes "is_read method_name" "representation_etag digest (revisions_of rs) = Some e"
  shows "if etag_matches inm e
    then answers_not_modified e (http_exchange digest method_name inm (tagged_route rs early hs chunks))
    else answers_in_full e chunks (http_exchange digest method_name inm (tagged_route rs early hs chunks))"
proof -
  have raises: "raises_not_modified digest method_name inm (revisions_of rs) = etag_matches inm e"
    using assms by (simp add: raises_not_modified_def)
  show ?thesis
  proof (cases "early \<and> etag_matches inm e")
    case True
    then show ?thesis
      unfolding http_exchange_def run_tagged_route raises
      by (simp add: not_modified_response_def send_with_revision_def start_with_revision_def assms answers_not_modified_def
          without_body_headers_get BODY_HEADERS_def)
  next
    case False
    then show ?thesis
      unfolding http_exchange_def run_tagged_route raises
      by (auto simp: send_body send_with_revision_def start_with_revision_def assms answers_not_modified_def answers_in_full_def
          without_body_headers_get BODY_HEADERS_def)
  qed
qed

text \<open>
  C34. Conditional requests are exact: a client sends the entity tags of earlier copies; it is answered 304,
  with the current tag and without a body, exactly when one of these copies was made from the revisions the
  handler uses now, and otherwise gets the whole body with its tag. Whether the handler tests early, before it
  makes the body, makes no difference. The hash is assumed not to collide on these revisions.
\<close>

theorem conditional_get_is_exact:
  assumes "is_read method_name" "\<And>xs. list_all digest_char (digest xs)"
    and "earlier \<noteq> []" "\<And>p. p \<in> set earlier \<Longrightarrow> representation_etag digest p \<noteq> None"
    and "\<And>p. p \<in> set earlier \<Longrightarrow> digest (used_revisions p) = digest (used_revisions (revisions_of rs))
          \<Longrightarrow> used_revisions p = used_revisions (revisions_of rs)"
    and "representation_etag digest (revisions_of rs) = Some e"
    and "sent = http_exchange digest method_name (Some (join_with '','' (map (\<lambda>p. the (representation_etag digest p)) earlier)))
      (tagged_route rs early hs chunks)"
  shows "if \<exists>p \<in> set earlier. used_revisions p = used_revisions (revisions_of rs)
    then answers_not_modified e sent else answers_in_full e chunks sent"
proof -
  let ?ds = "map (\<lambda>p. digest (used_revisions p)) earlier"
  have tag: "the (representation_etag digest p) = tag_text (digest (used_revisions p))" if "representation_etag digest p \<noteq> None" for p
    using that by (auto simp: representation_etag_def tag_text_def split: if_splits)
  have tags: "map (\<lambda>p. the (representation_etag digest p)) earlier = map tag_text ?ds" using tag assms(4) by simp
  have e: "e = tag_text (digest (used_revisions (revisions_of rs)))" using tag [of "revisions_of rs"] assms(6) by simp
  have "etag_matches (Some (join_with '','' (map tag_text ?ds))) e \<longleftrightarrow> digest (used_revisions (revisions_of rs)) \<in> set ?ds"
    unfolding e by (rule tags_match) (use assms(2,3) in auto)
  also have "\<dots> \<longleftrightarrow> (\<exists>p \<in> set earlier. used_revisions p = used_revisions (revisions_of rs))" using assms(5) by (simp add: image_iff) metis
  finally show ?thesis
    using tagged_route_answers [OF assms(1,6), of "Some (join_with '','' (map tag_text ?ds))" early hs chunks]
    unfolding assms(7) tags by simp
qed

definition demo_digest :: "(string \<times> string) list \<Rightarrow> string" where
  "demo_digest xs = (if xs = [(''model'', ''1'')] then ''a'' else ''b'')"

lemma demo_revisions:
  "used_revisions (revisions_of [(''model'', v)]) = (if v = [] then [] else [(''model'', v)])"
  "representation_etag demo_digest (revisions_of [(''model'', ''1'')]) = Some (tag_text ''a'')"
  "representation_etag demo_digest (revisions_of [(''model'', ''2'')]) = Some (tag_text ''b'')"
  by (simp_all add: used_revisions_def revisions_of_def record_revision_def enable_etag_def ETAG_ENABLED_def NOT_CACHEABLE_def
      representation_etag_def demo_digest_def tag_text_def)

theorem conditional_get_is_exact_witness:
  "answers_not_modified (tag_text ''a'')
     (http_exchange demo_digest ''GET'' (Some (join_with '','' [tag_text ''b'', tag_text ''a'']))
       (tagged_route [(''model'', ''1'')] True [] [''{'', ''}'']))
   \<and> answers_in_full (tag_text ''a'') [''{'', ''}'']
     (http_exchange demo_digest ''GET'' (Some (join_with '','' [tag_text ''b''])) (tagged_route [(''model'', ''1'')] True [] [''{'', ''}'']))"
proof -
  let ?r = "\<lambda>v. revisions_of [(''model'', v)]"
  let ?sent = "\<lambda>h. http_exchange demo_digest ''GET'' (Some h) (tagged_route [(''model'', ''1'')] True [] [''{'', ''}''])"
  have basics: "list_all digest_char (demo_digest xs)" "is_read ''GET''" for xs
    by (simp_all add: demo_digest_def digest_char_def is_read_def)
  have exact: "if ''1'' \<in> set vs then answers_not_modified (tag_text ''a'') sent else answers_in_full (tag_text ''a'') [''{'', ''}''] sent"
    if "vs \<noteq> []" "set vs \<subseteq> {''1'', ''2''}" "sent = ?sent (join_with '','' (map (\<lambda>p. the (representation_etag demo_digest p)) (map ?r vs)))" for vs sent
  proof -
    have same: "(\<exists>p \<in> set (map ?r vs). used_revisions p = used_revisions (?r ''1'')) \<longleftrightarrow> ''1'' \<in> set vs"
      using that(2) by (auto simp: demo_revisions(1))
    have tags: "representation_etag demo_digest p \<noteq> None" if "p \<in> set (map ?r vs)" for p
      using that \<open>set vs \<subseteq> _\<close> by (auto simp: demo_revisions(2,3))
    have collisions: "used_revisions p = used_revisions (?r ''1'')"
      if "p \<in> set (map ?r vs)" "demo_digest (used_revisions p) = demo_digest (used_revisions (?r ''1''))" for p
      using that \<open>set vs \<subseteq> _\<close> by (auto simp: demo_revisions(1) demo_digest_def split: if_splits)
    have "map ?r vs \<noteq> []" using that(1) by simp
    from conditional_get_is_exact [OF basics(2,1) this tags collisions demo_revisions(2) that(3)] show ?thesis unfolding same .
  qed
  show ?thesis
    using exact [of "[''2'', ''1'']", OF _ _ refl] exact [of "[''2'']", OF _ _ refl] by (simp add: demo_revisions(2,3))
qed

end
