(* ===== verification/ObjectService.thy ===== *)
theory ObjectService
  imports ObjectValues
begin

text \<open>
  \<open>ObjectValueService\<close>, \<open>i3x_server/application/services/object_value.py\<close>: current and historical values of
  one object and its related objects. It has its own copies of the helpers of the value routes, modelled here
  as they differ from those. Reading from the OPC UA server is a parameter, the clock is one instant.
\<close>

section \<open>Values\<close>

text \<open>The conversion to JSON keeps every field of a dataclass.\<close>

function service_json_safe :: "pyval \<Rightarrow> pyval" where
  "service_json_safe v =
     (case v of
        PData c fs \<Rightarrow>
          (case (dict_get (init_fields v) ''TypeId'', dict_get (init_fields v) ''Body'') of
             (Some t, Some body) \<Rightarrow>
               (if body = PNone then PNone
                else PDict [(''TypeId'', service_json_safe t), (''Body'', service_json_safe body)])
           | _ \<Rightarrow> PDict (map (\<lambda>(k, x). (k, service_json_safe x)) (init_fields (normalize_opcua_value v))))
      | PArgument fs rank dims \<Rightarrow> PDict (map (\<lambda>(k, x). (k, service_json_safe x)) (init_fields (normalize_opcua_value v)))
      | PList xs \<Rightarrow> PList (map service_json_safe xs)
      | PTuple xs \<Rightarrow> PList (map service_json_safe xs)
      | PDict kvs \<Rightarrow> PDict (map (\<lambda>(k, x). (k, service_json_safe x)) kvs)
      | _ \<Rightarrow> v)"
  by pat_completeness auto
termination
  by (relation "measure size")
    (auto dest: size_init_get [OF sym] size_init_get size_normal_field size_snd_mem simp: less_Suc_eq_le
      intro: size_list_estimation' simp del: init_fields.simps normalize_opcua_value_simps)

declare service_json_safe.simps [simp del]

definition service_vqt :: "datetime \<Rightarrow> data_value \<Rightarrow> VQT" where
  "service_vqt now dv =
     (let quality = normalize_quality (dv_status dv);
          timestamp = (case dv_source_timestamp dv of Some t \<Rightarrow> Some t | None \<Rightarrow> dv_server_timestamp dv);
          safe = service_json_safe (dv_value dv)
      in \<lparr>vq_value = safe,
          vq_quality = (if safe = PNone \<and> quality \<notin> {''Bad'', ''GoodNoData''} then ''GoodNoData'' else quality),
          vq_timestamp = normalize_timestamp now timestamp\<rparr>)"

text \<open>\<open>property_to_node.get(node.id) or node.source_node_id\<close>.\<close>

definition source_node_of :: "BuildResult \<Rightarrow> ModelNode \<Rightarrow> string" where
  "source_node_of m n = (let s = dict_get_def (br_property_to_node m) (mn_id n) [] in if s = [] then mn_source_node_id n else s)"

definition service_read_current ::
  "(string list \<Rightarrow> data_value list result) \<Rightarrow> datetime \<Rightarrow> BuildResult \<Rightarrow> ModelNode \<Rightarrow> VQT result" where
  "service_read_current read_data_values now m n =
     (if mn_kind n \<noteq> Property then Inr (good_no_data_vqt now)
      else rbind (read_data_values [source_node_of m n])
        (\<lambda>dvs. case dvs of [] \<Rightarrow> Inr (good_no_data_vqt now) | dv # _ \<Rightarrow> Inr (service_vqt now dv)))"

type_synonym read_history = "string list \<Rightarrow> datetime \<Rightarrow> datetime \<Rightarrow> (string, data_value list) dict result"

definition service_read_history ::
  "read_history \<Rightarrow> datetime \<Rightarrow> BuildResult \<Rightarrow> datetime \<Rightarrow> datetime \<Rightarrow> ModelNode \<Rightarrow> VQT list result" where
  "service_read_history read_history_values now m s e n =
     (if mn_kind n \<noteq> Property then Inr []
      else rbind (read_history_values [source_node_of m n] s e)
        (\<lambda>history. Inr (map (service_vqt now) (dict_get_def history (source_node_of m n) []))))"

section \<open>Components\<close>

definition known_children :: "BuildResult \<Rightarrow> string \<Rightarrow> ModelNode list" where
  "known_children m i = List.map_filter (node_of m) (children_of m i)"

text \<open>Both loops visit each element at most once; a limit of \<open>-1\<close> stands for none.\<close>

function service_component_loop ::
  "BuildResult \<Rightarrow> int \<Rightarrow> (string \<times> int) list \<Rightarrow> string list \<Rightarrow> ModelNode list \<Rightarrow> ModelNode list" where
  "service_component_loop m max_depth queue visited components =
     (case queue of
        [] \<Rightarrow> components
      | (i, depth) # rest \<Rightarrow>
          if i \<in> set visited then service_component_loop m max_depth rest visited components
          else if max_depth > 0 \<and> depth \<ge> max_depth then service_component_loop m max_depth rest (i # visited) components
          else (case node_of m i of
                  None \<Rightarrow> service_component_loop m max_depth rest (i # visited) components
                | Some n \<Rightarrow>
                    service_component_loop m max_depth
                      (rest @ map (\<lambda>c. (mn_id c, depth + 1)) (filter (\<lambda>c. mn_kind c \<noteq> Property) (known_children m i)))
                      (i # visited)
                      (components @ filter (\<lambda>c. mn_kind c = Property) (known_children m i))))"
  by pat_completeness auto

termination service_component_loop
proof (relation "measures [\<lambda>(m, max_depth, queue, visited, components).
      length (filter (\<lambda>k. k \<notin> set visited) (dict_keys (br_nodes_by_id m))),
      \<lambda>(m, max_depth, queue, visited, components). length queue]", goal_cases)
  case (3 m max_depth queue visited components p rest i depth)
  then show ?case using unvisited_mono [of i visited "dict_keys (br_nodes_by_id m)"] by auto
next
  case (4 m max_depth queue visited components p rest i depth)
  then show ?case using unvisited_mono [of i visited "dict_keys (br_nodes_by_id m)"] by auto
next
  case (5 m max_depth queue visited components p rest i depth n)
  then show ?case using unmarked_keys_less [of "br_nodes_by_id m" i visited] by auto
qed auto

declare service_component_loop.simps [simp del]

definition collect_composition_components :: "BuildResult \<Rightarrow> ModelNode \<Rightarrow> int \<Rightarrow> ModelNode list" where
  "collect_composition_components m start max_depth =
     (if max_depth = 1 then [] else service_component_loop m max_depth [(mn_id start, 0)] [] [])"

function history_source_loop ::
  "BuildResult \<Rightarrow> int \<Rightarrow> (string \<times> int) list \<Rightarrow> string list \<Rightarrow> ModelNode list \<Rightarrow> ModelNode list" where
  "history_source_loop m max_depth queue visited results =
     (case queue of
        [] \<Rightarrow> results
      | (i, depth) # rest \<Rightarrow>
          if i \<in> set visited then history_source_loop m max_depth rest visited results
          else (case node_of m i of
                  None \<Rightarrow> history_source_loop m max_depth rest (i # visited) results
                | Some n \<Rightarrow>
                    let results' = (if mn_kind n = Property then results @ [n] else results)
                    in if max_depth \<noteq> 0 \<and> depth \<ge> max_depth then history_source_loop m max_depth rest (i # visited) results'
                       else history_source_loop m max_depth (rest @ map (\<lambda>c. (c, depth + 1)) (children_of m i)) (i # visited) results'))"
  by pat_completeness auto

termination history_source_loop
proof (relation "measures [\<lambda>(m, max_depth, queue, visited, components).
      length (filter (\<lambda>k. k \<notin> set visited) (dict_keys (br_nodes_by_id m))),
      \<lambda>(m, max_depth, queue, visited, components). length queue]", goal_cases)
  case (3 m max_depth queue visited results p rest i depth)
  then show ?case using unvisited_mono [of i visited "dict_keys (br_nodes_by_id m)"] by auto
next
  case (4 m max_depth queue visited results p rest i depth n)
  then show ?case using unmarked_keys_less [of "br_nodes_by_id m" i visited] by auto
next
  case (5 m max_depth queue visited results p rest i depth n)
  then show ?case using unmarked_keys_less [of "br_nodes_by_id m" i visited] by auto
qed auto

declare history_source_loop.simps [simp del]

definition collect_history_source_nodes :: "BuildResult \<Rightarrow> ModelNode \<Rightarrow> int \<Rightarrow> ModelNode list" where
  "collect_history_source_nodes m start max_depth =
     (if mn_kind start = Property then [start] else history_source_loop m max_depth [(mn_id start, 1)] [] [])"

section \<open>Operations\<close>

definition object_not_found :: "string \<Rightarrow> exn" where
  "object_not_found i = HTTPException 404 (''Object not found: '' @ i)"

text \<open>Anything but an \<open>HTTPException\<close> becomes one with status 502.\<close>

definition or_502 :: "string \<Rightarrow> 'a result \<Rightarrow> 'a result" where
  "or_502 message r = (case r of Inl (HTTPException status text) \<Rightarrow> r | Inl _ \<Rightarrow> Inl (HTTPException 502 message) | Inr _ \<Rightarrow> r)"

text \<open>\<open>max_depth or -1\<close>.\<close>

definition depth_limit :: "int option \<Rightarrow> int" where
  "depth_limit max_depth = (case max_depth of None \<Rightarrow> - 1 | Some d \<Rightarrow> if d = 0 then - 1 else d)"

definition with_components ::
  "(ModelNode \<Rightarrow> 'v result) \<Rightarrow> ModelNode list \<Rightarrow> (string, 'v) dict option result" where
  "with_components read components =
     (if components = [] then Inr None
      else rbind (rmap (\<lambda>c. rbind (read c) (\<lambda>v. Inr (mn_id c, v))) components) (\<lambda>vs. Inr (Some (dict_of_list vs))))"

definition get_current_value ::
  "(string list \<Rightarrow> data_value list result) \<Rightarrow> datetime \<Rightarrow> BuildResult \<Rightarrow> string \<Rightarrow> int option
     \<Rightarrow> (VQT \<times> (string, VQT) dict option) result" where
  "get_current_value read_data_values now m element_id max_depth =
     or_502 (''Failed to read current value for '' @ element_id)
       (case node_of m element_id of
          None \<Rightarrow> Inl (object_not_found element_id)
        | Some n \<Rightarrow>
            rbind (service_read_current read_data_values now m n) (\<lambda>v.
              if max_depth = Some 1 then Inr (v, None)
              else rbind (with_components (service_read_current read_data_values now m)
                     (collect_composition_components m n (depth_limit max_depth))) (\<lambda>cs. Inr (v, cs))))"

definition get_history ::
  "read_history \<Rightarrow> (string \<Rightarrow> datetime option) \<Rightarrow> datetime \<Rightarrow> BuildResult \<Rightarrow> string \<Rightarrow> string \<Rightarrow> string \<Rightarrow> int option
     \<Rightarrow> (VQT list \<times> (string, VQT list) dict option) result" where
  "get_history read_history_values fromisoformat now m element_id start_time end_time max_depth =
     or_502 (''Failed to read history for '' @ element_id)
       (rbind (parse_history_time_range fromisoformat start_time end_time) (\<lambda>(s, e).
          case node_of m element_id of
            None \<Rightarrow> Inl (object_not_found element_id)
          | Some n \<Rightarrow>
              rbind (service_read_history read_history_values now m s e n) (\<lambda>v.
                if max_depth = Some 1 then Inr (v, None)
                else rbind (with_components (service_read_history read_history_values now m s e)
                       (collect_history_source_nodes m n (depth_limit max_depth))) (\<lambda>cs. Inr (v, cs)))))"

record related_object =
  ro_relationship :: string
  ro_element_id :: string
  ro_display_name :: string
  ro_type_element_id :: string
  ro_parent_id :: "string option"
  ro_is_composition :: bool
  ro_is_extended :: bool
  ro_metadata :: "(string option \<times> (string, string list) dict \<times> (string, pyval) dict) option"

definition related_object_of :: "bool \<Rightarrow> string \<Rightarrow> ModelNode \<Rightarrow> related_object" where
  "related_object_of include_metadata source_relationship target =
     \<lparr>ro_relationship = source_relationship, ro_element_id = mn_id target, ro_display_name = mn_name target,
      ro_type_element_id = (case mn_type target of
          Some t \<Rightarrow> if t \<noteq> [] then t else (case mn_source_type_id target of Some s \<Rightarrow> if s \<noteq> [] then s else kind_name (mn_kind target) | None \<Rightarrow> kind_name (mn_kind target))
        | None \<Rightarrow> (case mn_source_type_id target of Some s \<Rightarrow> if s \<noteq> [] then s else kind_name (mn_kind target) | None \<Rightarrow> kind_name (mn_kind target))),
      ro_parent_id = mn_parent_id target, ro_is_composition = mn_is_composition target, ro_is_extended = mn_metadata target \<noteq> [],
      ro_metadata = (if include_metadata then Some (mn_source_type_id target, mn_relationships target, mn_metadata target) else None)\<rparr>"

text \<open>
  \<open>relationship_map\<close> is a new dictionary with the lists of the node: \<open>extend\<close> changes the list in the model when
  the node has a relationship HasChildren of its own. The built model shares the dictionary of the node with
  \<open>relationships_by_id\<close>.
\<close>

definition extended_relationships :: "BuildResult \<Rightarrow> ModelNode \<Rightarrow> (string, string list) dict" where
  "extended_relationships m n =
     (let child_ids = children_of m (mn_id n)
      in if child_ids = [] then mn_relationships n
         else dict_set ''HasChildren'' (dict_get_def (mn_relationships n) ''HasChildren'' [] @ child_ids) (mn_relationships n))"

definition extend_children :: "ModelNode \<Rightarrow> BuildResult \<Rightarrow> BuildResult" where
  "extend_children n m =
     (if dict_get (mn_relationships n) ''HasChildren'' = None then m
      else let rs = extended_relationships m n
           in m\<lparr>br_nodes_by_id := dict_set (mn_id n) (n\<lparr>mn_relationships := rs\<rparr>) (br_nodes_by_id m),
                br_relationships_by_id := (if dict_get (br_relationships_by_id m) (mn_id n) = Some (mn_relationships n)
                  then dict_set (mn_id n) rs (br_relationships_by_id m) else br_relationships_by_id m)\<rparr>)"

definition get_related_objects ::
  "string \<Rightarrow> string option \<Rightarrow> bool \<Rightarrow> BuildResult \<Rightarrow> related_object list result \<times> BuildResult" where
  "get_related_objects element_id relationship_type include_metadata m =
     (case node_of m element_id of
        None \<Rightarrow> (Inl (object_not_found element_id), m)
      | Some n \<Rightarrow>
          let m' = extend_children n m;
              wanted = filter (\<lambda>(name, targets). case relationship_type of None \<Rightarrow> True | Some r \<Rightarrow> name = r) (extended_relationships m n)
          in (Inr (concat (map (\<lambda>(name, targets). map (related_object_of include_metadata name) (List.map_filter (node_of m') targets)) wanted)),
              m'))"

end
