(* ===== verification/ObjectServiceProps.thy ===== *)
theory ObjectServiceProps
  imports ObjectService
begin

text \<open>
  The object value service: repeated queries for related objects, the depth of histories, and errors.
\<close>

section \<open>Related objects\<close>

definition asked_children :: "BuildResult \<Rightarrow> string \<Rightarrow> string list" where
  "asked_children m i = (case node_of m i of None \<Rightarrow> [] | Some n \<Rightarrow> dict_get_def (mn_relationships n) ''HasChildren'' [])"

lemma extended_get:
  "dict_get (extended_relationships m n) r =
     (if r = ''HasChildren'' \<and> children_of m (mn_id n) \<noteq> []
      then Some (dict_get_def (mn_relationships n) ''HasChildren'' [] @ children_of m (mn_id n)) else dict_get (mn_relationships n) r)"
  by (simp add: extended_relationships_def Let_def)

lemma extend_children_of [simp]: "children_of (extend_children n m) i = children_of m i"
  by (simp add: extend_children_def children_of_def Let_def)

lemma extend_children_id:
  "dict_get (mn_relationships n) ''HasChildren'' = None \<Longrightarrow> extend_children n m = m"
  by (simp add: extend_children_def)

lemma related_node:
  assumes "node_of m i = Some n" "mn_id n = i" "dict_get (mn_relationships n) ''HasChildren'' = Some ts"
  shows "node_of (snd (get_related_objects i relationship_type include_metadata m)) i = Some (n\<lparr>mn_relationships := extended_relationships m n\<rparr>)"
    "dict_get (extended_relationships m n) ''HasChildren'' = Some (ts @ children_of m i)"
    "children_of (snd (get_related_objects i relationship_type include_metadata m)) i = children_of m i"
  using assms by (auto simp: get_related_objects_def extend_children_def Let_def extended_get dict_get_def_def children_of_def)

text \<open>
  Every query for the related objects of an element that has a relationship HasChildren of its own adds its children
  to that relationship in the model once more.
\<close>

theorem related_objects_grow_model:
  assumes "node_of m i = Some n" "mn_id n = i" "dict_get (mn_relationships n) ''HasChildren'' = Some ts"
  shows "asked_children (((\<lambda>m. snd (get_related_objects i relationship_type include_metadata m)) ^^ k) m) i
    = ts @ concat (replicate k (children_of m i))"
  using assms
proof (induction k arbitrary: m n ts)
  case 0
  then show ?case by (simp add: asked_children_def dict_get_def_def)
next
  case (Suc k)
  note after = related_node [OF Suc.prems]
  let ?m = "snd (get_related_objects i relationship_type include_metadata m)"
  have "asked_children (((\<lambda>m. snd (get_related_objects i relationship_type include_metadata m)) ^^ k) ?m) i
      = (ts @ children_of m i) @ concat (replicate k (children_of ?m i))"
    by (rule Suc.IH [OF after(1)]) (use Suc.prems(2) after(2) in simp_all)
  then show ?case by (simp only: funpow_Suc_right comp_apply after(3) append_assoc replicate.simps concat.simps)
qed

text \<open>Without one, the query leaves the model alone and reports every known child.\<close>

lemma related_objects_pure:
  assumes "\<And>n. node_of m i = Some n \<Longrightarrow> dict_get (mn_relationships n) ''HasChildren'' = None"
  shows "snd (get_related_objects i relationship_type include_metadata m) = m"
  using assms by (auto simp: get_related_objects_def extend_children_id Let_def split: option.split)

lemma related_object_fields:
  "ro_relationship (related_object_of b r c) = r" "ro_element_id (related_object_of b r c) = mn_id c"
  by (simp_all add: related_object_of_def)

lemma related_objects_sound:
  assumes "get_related_objects i relationship_type include_metadata m = (Inr objects, m')" "x \<in> set objects"
  shows "\<exists>n targets j c. node_of m i = Some n \<and> (ro_relationship x, targets) \<in> set (extended_relationships m n) \<and> j \<in> set targets
    \<and> node_of m' j = Some c \<and> ro_element_id x = mn_id c
    \<and> (relationship_type \<noteq> None \<longrightarrow> relationship_type = Some (ro_relationship x))"
  using assms by (fastforce simp: get_related_objects_def Let_def related_object_fields map_filter_def split: option.splits)

section \<open>Histories\<close>

text \<open>
  Without a depth limit, or with the limit 0 that stands for none, the history of an object comes without the history
  of any component: the limit is passed on as \<open>-1\<close>, which every depth exceeds.
\<close>

lemma negative_limit_stops:
  assumes "max_depth < 0" "node_of m i = Some n" "mn_kind n \<noteq> Property"
  shows "history_source_loop m max_depth [(i, 1)] [] [] = []"
  using assms by (simp add: history_source_loop.simps [of m max_depth "[(i, 1)]"] history_source_loop.simps [of m max_depth "[]"] Let_def)

theorem unlimited_history_has_no_components:
  assumes "max_depth \<in> {None, Some 0}" "node_of m i = Some n" "mn_id n = i" "mn_kind n \<noteq> Property"
    and "parse_history_time_range fromisoformat start_time end_time = Inr (s, e)"
  shows "get_history read_history_values fromisoformat now m i start_time end_time max_depth = Inr ([], None)"
proof -
  have "depth_limit max_depth = - 1" using assms(1) by (auto simp: depth_limit_def)
  then have none: "collect_history_source_nodes m n (depth_limit max_depth) = []"
    using assms(2-4) by (simp add: collect_history_source_nodes_def negative_limit_stops)
  have "max_depth \<noteq> Some 1" using assms(1) by auto
  then show ?thesis
    using assms(2-5) none by (simp add: get_history_def or_502_def service_read_history_def with_components_def rbind_def)
qed

section \<open>Errors\<close>

lemma or_502_http: "or_502 message r = Inl x \<Longrightarrow> \<exists>status text. x = HTTPException status text"
  by (auto simp: or_502_def split: sum.splits exn.splits)

lemma values_fail_with_http_errors:
  "get_current_value read_data_values now m i max_depth = Inl x \<Longrightarrow> \<exists>status text. x = HTTPException status text"
  "get_history read_history_values fromisoformat now m i start_time end_time max_depth = Inl x \<Longrightarrow> \<exists>status text. x = HTTPException status text"
  unfolding get_current_value_def get_history_def by (rule or_502_http, assumption)+

end
