(* ===== verification/McpPaths.thy ===== *)
theory McpPaths
  imports Prelude
begin

text \<open>
  The paths of the requests that MCP tools are turned into, \<open>i3x_server/mcp/invocation.py\<close>: \<open>urlsplit\<close>
  and \<open>normpath\<close> of the Python library, the checks around them, and the substitution of path parameters.
  \<open>netloc_invalid\<close>, the tests of \<open>urlsplit\<close> on host names (brackets, normalisation), is a parameter.
\<close>

section \<open>Python's library\<close>

record split_url =
  us_scheme :: string
  us_netloc :: string
  us_path :: string
  us_query :: string
  us_fragment :: string

definition url_alpha :: "char \<Rightarrow> bool" where
  "url_alpha c \<longleftrightarrow> (let n = (of_char c :: nat) in (65 \<le> n \<and> n \<le> 90) \<or> (97 \<le> n \<and> n \<le> 122))"

definition scheme_char :: "char \<Rightarrow> bool" where
  "scheme_char c \<longleftrightarrow> url_alpha c \<or> py_isdecimal c \<or> c \<in> set ''+-.''"

text \<open>The part before and the part after the first \<open>c\<close>.\<close>

definition cut_at :: "char \<Rightarrow> string \<Rightarrow> string \<times> string" where
  "cut_at c s = (case partition_at c s of (a, Some b) \<Rightarrow> (a, b) | (a, None) \<Rightarrow> (a, []))"

definition urlsplit :: "(string \<Rightarrow> bool) \<Rightarrow> string \<Rightarrow> split_url result" where
  "urlsplit netloc_invalid url =
     (let cleaned = filter (\<lambda>c. (of_char c :: nat) \<notin> {9, 10, 13}) (dropWhile (\<lambda>c. (of_char c :: nat) \<le> 32) url);
          (scheme, rest) = (case partition_at CHR '':'' cleaned of
              (a, Some b) \<Rightarrow> if a \<noteq> [] \<and> url_alpha (hd a) \<and> list_all scheme_char a then (py_lower a, b) else ([], cleaned)
            | (a, None) \<Rightarrow> ([], cleaned));
          (netloc, rest2) = (if startswith rest ''//''
              then (takeWhile (\<lambda>c. c \<notin> set ''/?#'') (drop 2 rest), dropWhile (\<lambda>c. c \<notin> set ''/?#'') (drop 2 rest)) else ([], rest));
          (rest3, fragment) = cut_at CHR ''#'' rest2;
          (path, query) = cut_at CHR ''?'' rest3
      in if netloc \<noteq> [] \<and> netloc_invalid netloc then Inl (ValueError ''Invalid URL'')
         else Inr \<lparr>us_scheme = scheme, us_netloc = netloc, us_path = path, us_query = query, us_fragment = fragment\<rparr>)"

definition norm_component :: "bool \<Rightarrow> string list \<Rightarrow> string \<Rightarrow> string list" where
  "norm_component absolute acc part =
     (if part = [] \<or> part = ''.'' then acc
      else if part \<noteq> ''..'' \<or> (\<not> absolute \<and> acc = []) \<or> (acc \<noteq> [] \<and> last acc = ''..'') then acc @ [part]
      else butlast acc)"

definition normpath :: "string \<Rightarrow> string" where
  "normpath path =
     (if path = [] then ''.''
      else let slashes = (if startswith path ''//'' \<and> \<not> startswith path ''///'' then 2 else if startswith path ''/'' then 1 else 0);
               normal = replicate slashes CHR ''/''
                 @ join_with ''/'' (foldl (norm_component (slashes > 0)) [] (split_on CHR ''/'' path))
           in if normal = [] then ''.'' else normal)"

definition hex_digit :: "nat \<Rightarrow> char" where
  "hex_digit d = ''0123456789ABCDEF'' ! d"

definition percent :: "nat \<Rightarrow> string" where
  "percent byte = [CHR ''%'', hex_digit (byte div 16), hex_digit (byte mod 16)]"

text \<open>\<open>quote(s, safe="")\<close>: the UTF-8 bytes of what is not unreserved.\<close>

definition quote_part :: "char \<Rightarrow> string" where
  "quote_part c =
     (let n = (of_char c :: nat)
      in if url_alpha c \<or> py_isdecimal c \<or> c \<in> set ''_.-~'' then [c]
         else if n < 128 then percent n
         else percent (192 + n div 64) @ percent (128 + n mod 64))"

definition quote_text :: "string \<Rightarrow> string" where
  "quote_text s = concat (map quote_part s)"

text \<open>\<open>s.replace(old, new)\<close> for a pattern that is not empty.\<close>

function replace_all :: "string \<Rightarrow> string \<Rightarrow> string \<Rightarrow> string" where
  "replace_all old new s =
     (if s = [] \<or> old = [] then s
      else if startswith s old then new @ replace_all old new (drop (length old) s)
      else hd s # replace_all old new (tl s))"
  by pat_completeness auto
termination by (relation "measure (\<lambda>(old, new, s). length s)") auto

declare replace_all.simps [simp del]

section \<open>Safe paths\<close>

definition safe_api_prefix :: "(string \<Rightarrow> bool) \<Rightarrow> string \<Rightarrow> string result" where
  "safe_api_prefix netloc_invalid api_prefix =
     rbind (urlsplit netloc_invalid api_prefix)
       (\<lambda>u. let given = (if us_scheme u \<noteq> [] \<or> us_netloc u \<noteq> [] then us_path u else api_prefix);
                stripped = py_strip given;
                prefix = (if startswith stripped ''/'' then stripped else ''/'' @ stripped);
                normalized = normpath prefix
            in if given = [] \<or> stripped = [] then Inr []
               else if startswith prefix ''//'' then Inl (HTTPException 500 ''Invalid MCP API prefix'')
               else if normalized \<in> {''.'', ''/'', []} then Inr []
               else if \<not> startswith normalized ''/'' \<or> startswith normalized ''//''
               then Inl (HTTPException 500 ''Invalid MCP API prefix'')
               else Inr (py_rstrip_char CHR ''/'' normalized))"

definition invalid_path :: exn where
  "invalid_path = HTTPException 500 ''Invalid MCP request path''"

definition safe_request_path :: "(string \<Rightarrow> bool) \<Rightarrow> string \<Rightarrow> string \<Rightarrow> string result" where
  "safe_request_path netloc_invalid api_prefix tool_path =
     rbind (safe_api_prefix netloc_invalid api_prefix)
       (\<lambda>prefix. if \<not> startswith tool_path ''/'' then Inl (HTTPException 500 ''Invalid MCP tool path'')
          else rbind (urlsplit netloc_invalid (prefix @ tool_path))
            (\<lambda>u. if us_scheme u \<noteq> [] \<or> us_netloc u \<noteq> [] \<or> us_query u \<noteq> [] \<or> us_fragment u \<noteq> [] then Inl invalid_path
                 else if \<not> startswith (us_path u) ''/'' \<or> startswith (us_path u) ''//'' then Inl invalid_path
                 else let normalized = normpath (us_path u)
                      in if \<not> startswith normalized ''/'' \<or> startswith normalized ''//'' then Inl invalid_path
                         else if normalized = ''/..'' \<or> startswith normalized ''/../'' then Inl invalid_path
                         else Inr normalized))"

definition backslash :: char where "backslash = CHR 0x5C"

definition safe_path_parameter_value :: "(string \<Rightarrow> bool) \<Rightarrow> string \<Rightarrow> string \<Rightarrow> string result" where
  "safe_path_parameter_value netloc_invalid parameter_name value_str =
     rbind (urlsplit netloc_invalid value_str)
       (\<lambda>u. if us_scheme u \<noteq> [] \<or> us_netloc u \<noteq> [] \<or> CHR ''/'' \<in> set value_str \<or> backslash \<in> set value_str
              \<or> is_substring ''..'' value_str \<or> CHR ''?'' \<in> set value_str \<or> CHR ''#'' \<in> set value_str
              \<or> py_strip value_str \<noteq> value_str
            then Inl (HTTPException 400 (''Invalid path parameter: '' @ parameter_name)) else Inr value_str)"

text \<open>The path of a call: the parameters are put in one after the other, and the result is normalised again.\<close>

definition put_parameter :: "(string \<Rightarrow> bool) \<Rightarrow> (string \<Rightarrow> string) \<Rightarrow> string \<Rightarrow> string \<Rightarrow> string result" where
  "put_parameter netloc_invalid argument path name =
     (let placeholder = ''{'' @ name @ ''}''
      in if \<not> is_substring placeholder path then Inl (HTTPException 500 (''Path placeholder not found for '' @ name))
         else rbind (safe_path_parameter_value netloc_invalid name (argument name))
           (\<lambda>safe. Inr (replace_all placeholder (quote_text safe) path)))"

definition request_target :: "(string \<Rightarrow> bool) \<Rightarrow> string \<Rightarrow> string option \<Rightarrow> string \<Rightarrow> string list \<Rightarrow> (string \<Rightarrow> string) \<Rightarrow> string result" where
  "request_target netloc_invalid api_prefix server_url_override tool_path path_parameters argument =
     rbind (case server_url_override of Some url \<Rightarrow> safe_api_prefix netloc_invalid url | None \<Rightarrow> Inr api_prefix)
       (\<lambda>prefix. rbind (safe_request_path netloc_invalid prefix tool_path)
         (\<lambda>path. rbind (rfold (put_parameter netloc_invalid argument) path path_parameters)
           (safe_request_path netloc_invalid [])))"

section \<open>What is sent is a normal path\<close>

text \<open>An absolute path with segments that are neither empty nor dots and with no further part of a URL.\<close>

definition normal_path :: "string \<Rightarrow> bool" where
  "normal_path p \<longleftrightarrow>
     (\<exists>segments. p = CHR ''/'' # join_with ''/'' segments
        \<and> (\<forall>s \<in> set segments. s \<notin> {[], ''.'', ''..''} \<and> set s \<inter> set ''/?#'' = {}))"

lemma split_on_plain: "w \<in> set (split_on c s) \<Longrightarrow> c \<notin> set w \<and> set w \<subseteq> set s"
proof (induction s arbitrary: w)
  case (Cons x s)
  then show ?case by (auto split: if_splits list.splits) fastforce+
qed simp

lemma normal_components:
  assumes "\<And>w. w \<in> set ws \<Longrightarrow> P w" "\<And>w. w \<in> set acc \<Longrightarrow> w \<notin> {[], ''.'', ''..''} \<and> P w"
  shows "w \<in> set (foldl (norm_component True) acc ws) \<Longrightarrow> w \<notin> {[], ''.'', ''..''} \<and> P w"
  using assms
proof (induction ws arbitrary: acc)
  case (Cons v ws)
  have "u \<notin> {[], ''.'', ''..''} \<and> P u" if "u \<in> set (norm_component True acc v)" for u
  proof -
    have "last acc \<noteq> ''..''" if "acc \<noteq> []" using Cons.prems(3) [of "last acc"] that by auto
    then show ?thesis
      using that Cons.prems(2,3) by (auto simp: norm_component_def split: if_splits dest: in_set_butlastD)
  qed
  then show ?case using Cons.IH [of "norm_component True acc v"] Cons.prems(1,2) by auto
qed auto

lemma partition_at_subset: "partition_at c s = (a, b) \<Longrightarrow> set a \<subseteq> set s"
  by (induction s arbitrary: a b) (auto split: if_splits prod.splits)

lemma cut_at_facts: "cut_at c s = (a, b) \<Longrightarrow> c \<notin> set a \<and> set a \<subseteq> set s"
  using partition_at_parts [of c s] partition_at_subset [of c s]
  by (cases "partition_at c s") (auto simp: cut_at_def split: option.splits)

lemma urlsplit_path:
  assumes "urlsplit netloc_invalid url = Inr u"
  shows "set (us_path u) \<inter> set ''?#'' = {}"
  using assms cut_at_facts
  by (auto simp: urlsplit_def Let_def split: prod.splits if_splits) blast+

theorem safe_request_path_is_normal:
  assumes "safe_request_path netloc_invalid api_prefix tool_path = Inr p"
  shows "normal_path p"
proof -
  obtain u url where run: "urlsplit netloc_invalid url = Inr u" and u: "startswith (us_path u) ''/''" "\<not> startswith (us_path u) ''//''"
      "p = normpath (us_path u)"
    using assms by (auto simp: safe_request_path_def rbind_Inr_iff Let_def split: if_splits)
  have plain: "set (us_path u) \<inter> set ''?#'' = {}" by (rule urlsplit_path [OF run])
  have segments: "w \<notin> {[], ''.'', ''..''} \<and> set w \<inter> set ''/?#'' = {}"
    if "w \<in> set (foldl (norm_component True) [] (split_on CHR ''/'' (us_path u)))" for w
  proof (rule normal_components [OF _ _ that])
    show "set v \<inter> set ''/?#'' = {}" if "v \<in> set (split_on CHR ''/'' (us_path u))" for v
      using split_on_plain [OF that] plain by auto
  qed simp
  have "p = CHR ''/'' # join_with ''/'' (foldl (norm_component True) [] (split_on CHR ''/'' (us_path u)))"
    using u by (cases "us_path u") (auto simp: normpath_def Let_def)
  then show ?thesis unfolding normal_path_def using segments by blast
qed

text \<open>Every path that a call is sent to is normal, whatever its parameters are.\<close>

corollary request_target_is_normal:
  "request_target netloc_invalid api_prefix server_url_override tool_path path_parameters argument = Inr p \<Longrightarrow> normal_path p"
  using safe_request_path_is_normal by (auto simp: request_target_def rbind_Inr_iff)

text \<open>But a parameter that is a dot, or empty, vanishes from the path, and the call is sent to another route.\<close>

lemma dot_parameter_changes_the_route:
  "request_target (\<lambda>_. False) ''/api'' None ''/v1/subscriptions/{id}'' [''id''] (\<lambda>_. ''.'') = Inr ''/api/v1/subscriptions''"
  "request_target (\<lambda>_. False) ''/api'' None ''/v1/objects/{id}/history'' [''id''] (\<lambda>_. []) = Inr ''/api/v1/objects/history''"
  "request_target (\<lambda>_. False) ''/api'' None ''/v1/objects/{id}/history'' [''id''] (\<lambda>_. ''a b'') = Inr ''/api/v1/objects/a%20b/history''"
  by code_simp+

end
