(* ===== verification/McpCalls.thy ===== *)
theory McpCalls
  imports McpPaths ModelTools Monitors "HOL-Library.Product_Lexorder"
begin

text \<open>
  Calls of MCP tools, \<open>i3x_server/mcp/invocation.py\<close>: the current values of a container, the pages of
  list, relationship and history answers, and \<open>invoke_mcp_tool\<close> with the checks of its arguments and the
  routing to the tools and to the HTTP interface. JSON is a Python value. The request to the
  application itself (\<open>_invoke_internal_asgi\<close>) and \<open>json.loads\<close> are parameters.
\<close>

definition MCP_PAGINATED_LIST_TOOLS :: "string list" where
  "MCP_PAGINATED_LIST_TOOLS = [''getObjectsV1'', ''getObjectTypesV1'', ''getRelationshipTypesV1'']"
definition MCP_DEFAULT_PAGE_SIZE :: nat where "MCP_DEFAULT_PAGE_SIZE = 50"
definition MCP_BODY_PAGINATED_TOOLS :: "(string \<times> nat) list" where
  "MCP_BODY_PAGINATED_TOOLS = [(''queryRelatedObjectsV1'', 50), (''queryHistoricalValuesV1'', 100)]"
definition MCP_CONTAINER_VALUES_TOOL :: string where "MCP_CONTAINER_VALUES_TOOL = ''readContainerValues''"
definition MCP_CONTAINER_VALUES_BATCH_SIZE :: nat where "MCP_CONTAINER_VALUES_BATCH_SIZE = 10"
definition MCP_CONTAINER_VALUES_MAX_NODES :: nat where "MCP_CONTAINER_VALUES_MAX_NODES = 5000"
definition MCP_CONTAINER_VALUES_MAX_DEPTH :: nat where "MCP_CONTAINER_VALUES_MAX_DEPTH = 32"

text \<open>\<open>_InternalASGIResponse\<close>, with the body as text.\<close>

record asgi_response =
  ar_status_code :: nat
  ar_content_type :: "string option"
  ar_body :: string

section \<open>The values of a container\<close>

definition too_large :: "string \<Rightarrow> exn" where
  "too_large what = HTTPException 413 (''Container subtree exceeds '' @ what)"

text \<open>The search for properties; the stack \<open>pending\<close> has its top first.\<close>

function container_loop ::
  "BuildResult \<Rightarrow> (string \<times> nat) list \<Rightarrow> string list \<Rightarrow> ModelNode list \<Rightarrow> ModelNode list result" where
  "container_loop m pending visited properties =
     (case pending of
        [] \<Rightarrow> Inr properties
      | (element_id, depth) # rest \<Rightarrow>
          if element_id \<in> set visited then container_loop m rest visited properties
          else if length visited + 1 > MCP_CONTAINER_VALUES_MAX_NODES
          then Inl (too_large (nat_digits MCP_CONTAINER_VALUES_MAX_NODES @ '' nodes''))
          else if depth > MCP_CONTAINER_VALUES_MAX_DEPTH
          then Inl (too_large (''depth '' @ nat_digits MCP_CONTAINER_VALUES_MAX_DEPTH))
          else case node_of m element_id of
            None \<Rightarrow> container_loop m rest (visited @ [element_id]) properties
          | Some n \<Rightarrow>
              if mn_kind n = Property then container_loop m rest (visited @ [element_id]) (properties @ [n])
              else container_loop m (map (\<lambda>c. (c, depth + 1)) (children_of m element_id) @ rest) (visited @ [element_id]) properties)"
  by pat_completeness auto

termination container_loop
  by (relation "measures [\<lambda>(m, pending, visited, properties). MCP_CONTAINER_VALUES_MAX_NODES - length visited,
    \<lambda>(m, pending, visited, properties). length pending]") auto

declare container_loop.simps [simp del]

text \<open>What the value endpoint is asked for, batch after batch.\<close>

definition value_request :: "string list \<Rightarrow> pyval" where
  "value_request ids = PDict [(''elementIds'', PList (map PStr ids)), (''maxDepth'', PInt 1)]"

definition value_results :: "(string \<Rightarrow> pyval option) \<Rightarrow> asgi_response \<Rightarrow> pyval list result" where
  "value_results json_loads response =
     (case json_loads (ar_body response) of
        None \<Rightarrow> Inl (HTTPException 502 ''Value endpoint returned invalid JSON'')
      | Some body \<Rightarrow>
          (case (case body of PDict d \<Rightarrow> dict_get d ''results'' | _ \<Rightarrow> None) of
             Some (PList results) \<Rightarrow> Inr results
           | _ \<Rightarrow> Inl (HTTPException 502 ''Value endpoint returned an invalid result'')))"

definition add_result :: "(string, (string, pyval) dict) dict \<Rightarrow> pyval \<Rightarrow> (string, (string, pyval) dict) dict" where
  "add_result found r =
     (case r of
        PDict d \<Rightarrow> (case dict_get d ''elementId'' of Some (PStr i) \<Rightarrow> dict_set i d found | _ \<Rightarrow> found)
      | _ \<Rightarrow> found)"

text \<open>The results by element, or the response of the endpoint when it fails.\<close>

fun fetch_values ::
  "(string \<Rightarrow> pyval option) \<Rightarrow> (pyval \<Rightarrow> asgi_response) \<Rightarrow> ModelNode list list \<Rightarrow> (string, (string, pyval) dict) dict
   \<Rightarrow> (asgi_response + (string, (string, pyval) dict) dict) result" where
  "fetch_values json_loads ask [] found = Inr (Inr found)"
| "fetch_values json_loads ask (batch # batches) found =
     (let response = ask (value_request (map mn_id batch))
      in if ar_status_code response \<ge> 400 then Inr (Inl response)
         else rbind (value_results json_loads response)
           (\<lambda>results. fetch_values json_loads ask batches (foldl add_result found results)))"

datatype container_item =
    ItemMissing string string
  | ItemValue string string pyval
  | ItemError string string pyval pyval

definition item_succeeded :: "container_item \<Rightarrow> bool" where
  "item_succeeded item = (case item of ItemValue _ _ _ \<Rightarrow> True | _ \<Rightarrow> False)"

definition compact_vqt :: "pyval \<Rightarrow> pyval" where
  "compact_vqt vqt =
     (case vqt of
        PDict d \<Rightarrow> PDict (List.map_filter (\<lambda>k. map_option (Pair k) (dict_get d k)) [''value'', ''quality'', ''timestamp''])
      | _ \<Rightarrow> vqt)"

definition container_item :: "(string, (string, pyval) dict) dict \<Rightarrow> ModelNode \<Rightarrow> container_item" where
  "container_item found n =
     (case dict_get found (mn_id n) of
        None \<Rightarrow> ItemMissing (mn_id n) (mn_name n)
      | Some r \<Rightarrow>
          if dict_get r ''success'' = Some (PBool True)
          then ItemValue (mn_id n) (mn_name n) (compact_vqt (dict_get_def r ''result'' PNone))
          else ItemError (mn_id n) (mn_name n) (dict_get_def r ''error'' PNone) (dict_get_def r ''responseDetail'' PNone))"

record container_page =
  cp_success :: bool
  cp_container_id :: string
  cp_total :: nat
  cp_returned :: nat
  cp_offset :: nat
  cp_items :: "container_item list"
  cp_next_offset :: "nat option"

function batches_of :: "nat \<Rightarrow> 'a list \<Rightarrow> 'a list list" where
  "batches_of k xs = (if k = 0 \<or> xs = [] then [] else take k xs # batches_of k (drop k xs))"
  by pat_completeness auto
termination by (relation "measure (\<lambda>(k, xs). length xs)") auto

declare batches_of.simps [simp del]

definition container_values_page ::
  "(string \<Rightarrow> pyval option) \<Rightarrow> (pyval \<Rightarrow> asgi_response) \<Rightarrow> string \<Rightarrow> ModelNode list \<Rightarrow> nat \<Rightarrow> nat \<Rightarrow> (asgi_response + container_page) result" where
  "container_values_page json_loads ask container_id properties limit offset =
     (let page = take limit (drop offset properties)
      in rbind (fetch_values json_loads ask (batches_of MCP_CONTAINER_VALUES_BATCH_SIZE page) [])
        (\<lambda>fetched. Inr (case fetched of
             Inl response \<Rightarrow> Inl response
           | Inr found \<Rightarrow>
               let items = map (container_item found) page
               in Inr \<lparr>cp_success = list_all item_succeeded items, cp_container_id = container_id, cp_total = length properties,
                       cp_returned = length items, cp_offset = offset, cp_items = items,
                       cp_next_offset = (if offset + length page < length properties then Some (offset + length page) else None)\<rparr>)))"

text \<open>The arguments are checked first. \<open>model\<close> is what the model provider answers, if there is one.\<close>

definition int_between :: "int \<Rightarrow> int option \<Rightarrow> pyval \<Rightarrow> nat option" where
  "int_between lowest highest v =
     (case v of
        PInt i \<Rightarrow> if lowest \<le> i \<and> (case highest of None \<Rightarrow> True | Some h \<Rightarrow> i \<le> h) then Some (nat i) else None
      | _ \<Rightarrow> None)"

definition container_id_of :: "pyval \<Rightarrow> string result" where
  "container_id_of container_id =
     (case container_id of
        PStr s \<Rightarrow> if py_strip s = [] then Inl (bad_request ''containerId must not be empty'') else Inr s
      | _ \<Rightarrow> Inl (bad_request ''containerId must not be empty''))"

definition required_int :: "int \<Rightarrow> int option \<Rightarrow> string \<Rightarrow> pyval \<Rightarrow> nat result" where
  "required_int lowest highest message v =
     (case int_between lowest highest v of None \<Rightarrow> Inl (bad_request message) | Some k \<Rightarrow> Inr k)"

definition invoke_container_values ::
  "(string \<Rightarrow> pyval option) \<Rightarrow> (string \<Rightarrow> bool) \<Rightarrow> (string \<Rightarrow> pyval \<Rightarrow> asgi_response) \<Rightarrow> string \<Rightarrow> BuildResult result option
   \<Rightarrow> pyval \<Rightarrow> pyval \<Rightarrow> pyval \<Rightarrow> (asgi_response + container_page) result" where
  "invoke_container_values json_loads netloc_invalid post api_prefix model container_id limit offset =
     rbind (container_id_of container_id)
       (\<lambda>i. rbind (required_int 1 (Some 50) ''limit must be an integer from 1 to 50'' limit)
       (\<lambda>count. rbind (required_int 0 None ''offset must be a non-negative integer'' offset)
       (\<lambda>start. rbind (case model of None \<Rightarrow> Inl (HTTPException 500 ''MCP model provider is not initialized'') | Some r \<Rightarrow> r)
       (\<lambda>m. case node_of m i of
            None \<Rightarrow> Inl (HTTPException 404 (''Container not found: '' @ i))
          | Some container \<Rightarrow>
              if mn_kind container = Property then Inl (bad_request ''containerId must identify an object, not a property'')
              else rbind (container_loop m [(i, 0)] [] [])
                (\<lambda>properties. rbind (safe_request_path netloc_invalid api_prefix ''/v1/objects/value'')
                  (\<lambda>path. container_values_page json_loads (post path) i properties count start))))))"

section \<open>Pages\<close>

definition pagination :: "nat \<Rightarrow> nat \<Rightarrow> nat \<Rightarrow> pyval" where
  "pagination count returned offset =
     PDict ([(''total'', PInt (int count)), (''returned'', PInt (int returned)), (''offset'', PInt (int offset))]
       @ (if offset + returned < count then [(''nextOffset'', PInt (int (offset + returned)))] else []))"

text \<open>An entry that is a list is replaced by a page of it, with \<open>pagination\<close> beside it.\<close>

definition paged_entry :: "string \<Rightarrow> pyval list \<Rightarrow> nat \<Rightarrow> nat \<Rightarrow> (string, pyval) dict \<Rightarrow> (string, pyval) dict" where
  "paged_entry field items limit offset d =
     (let page = take limit (drop offset items)
      in dict_set ''pagination'' (pagination (length items) (length page) offset) (dict_set field (PList page) d))"

definition paginate_mcp_list :: "pyval \<Rightarrow> nat \<Rightarrow> nat \<Rightarrow> pyval" where
  "paginate_mcp_list body limit offset =
     (case body of
        PDict d \<Rightarrow> (case dict_get d ''result'' of Some (PList items) \<Rightarrow> PDict (paged_entry ''result'' items limit offset d) | _ \<Rightarrow> body)
      | _ \<Rightarrow> body)"

definition succeeded_entry :: "(string, pyval) dict \<Rightarrow> bool" where
  "succeeded_entry d = (case dict_get d ''success'' of None \<Rightarrow> False | Some v \<Rightarrow> py_truthy v)"

definition on_results :: "(pyval \<Rightarrow> pyval) \<Rightarrow> pyval \<Rightarrow> pyval" where
  "on_results page_item body =
     (case body of
        PDict d \<Rightarrow> (case dict_get d ''results'' of Some (PList items) \<Rightarrow> PDict (dict_set ''results'' (PList (map page_item items)) d) | _ \<Rightarrow> body)
      | _ \<Rightarrow> body)"

definition related_item :: "nat \<Rightarrow> nat \<Rightarrow> pyval \<Rightarrow> pyval" where
  "related_item limit offset item =
     (case item of
        PDict d \<Rightarrow>
          (case dict_get d ''result'' of
             Some (PList related) \<Rightarrow> if succeeded_entry d then PDict (paged_entry ''result'' related limit offset d) else item
           | _ \<Rightarrow> item)
      | _ \<Rightarrow> item)"

definition paginate_mcp_related :: "pyval \<Rightarrow> nat \<Rightarrow> nat \<Rightarrow> pyval" where
  "paginate_mcp_related body limit offset = on_results (related_item limit offset) body"

text \<open>\<open>_paginate_history_result\<close>, with its loop over the components.\<close>

function paginate_history_result :: "nat \<Rightarrow> nat \<Rightarrow> pyval \<Rightarrow> pyval" where
  "paginate_history_result limit offset result =
     (case result of
        PDict d \<Rightarrow>
          let paged = (case dict_get d ''values'' of Some (PList values_in) \<Rightarrow> paged_entry ''values'' values_in limit offset d | _ \<Rightarrow> d)
          in (case dict_get d ''components'' of
                Some (PDict components) \<Rightarrow>
                  PDict (dict_set ''components'' (PDict (map (\<lambda>e. (fst e, paginate_history_result limit offset (snd e))) components)) paged)
              | _ \<Rightarrow> PDict paged)
      | _ \<Rightarrow> result)"
  by pat_completeness auto

termination paginate_history_result
proof (relation "measure (\<lambda>(limit, offset, result). size result)", goal_cases)
  case (2 limit offset result d paged v components e)
  have "size (PDict components) < size (PDict d)" using size_snd_mem [OF map_of_SomeD [OF 2(3)]] 2(4) by simp
  moreover have "size (snd e) < size (PDict components)" using size_snd_mem [of "fst e" "snd e" components] 2(5) by simp
  ultimately show ?case using 2(1) by simp
qed simp

declare paginate_history_result.simps [simp del]

definition history_item :: "nat \<Rightarrow> nat \<Rightarrow> pyval \<Rightarrow> pyval" where
  "history_item limit offset item =
     (case item of
        PDict d \<Rightarrow>
          (case dict_get d ''result'' of
             Some (PDict r) \<Rightarrow>
               if succeeded_entry d then PDict (dict_set ''result'' (paginate_history_result limit offset (PDict r)) d) else item
           | _ \<Rightarrow> item)
      | _ \<Rightarrow> item)"

definition paginate_mcp_history :: "pyval \<Rightarrow> nat \<Rightarrow> nat \<Rightarrow> pyval" where
  "paginate_mcp_history body limit offset = on_results (history_item limit offset) body"

section \<open>The prefix of the API\<close>

text \<open>The first server of the OpenAPI document that has a URL.\<close>

definition server_url :: "pyval \<Rightarrow> string option" where
  "server_url server =
     (case server of
        PDict d \<Rightarrow> (case dict_get d ''url'' of Some (PStr u) \<Rightarrow> if u \<noteq> [] then Some u else None | _ \<Rightarrow> None)
      | _ \<Rightarrow> None)"

definition get_api_prefix :: "(string \<Rightarrow> bool) \<Rightarrow> (string, pyval) dict \<Rightarrow> string result" where
  "get_api_prefix netloc_invalid openapi_spec =
     (case dict_get openapi_spec ''servers'' of
        Some (PList servers) \<Rightarrow>
          (case List.map_filter server_url servers of [] \<Rightarrow> Inr [] | u # _ \<Rightarrow> safe_api_prefix netloc_invalid u)
      | _ \<Rightarrow> Inr [])"

section \<open>Calling a tool\<close>

text \<open>\<open>McpToolDefinition\<close>, with what the code reads of the input schema.\<close>

record mcp_tool =
  mt_name :: string
  mt_method :: string
  mt_path :: string
  mt_required :: "string list"
  mt_has_body :: bool
  mt_path_parameters :: "string list"
  mt_query_parameters :: "string list"
  mt_body_required :: bool
  mt_server_url_override :: "string option"

text \<open>The arguments of the tools that are answered from the model, from their schemas.\<close>

definition model_tool_fields :: "(string \<times> string list) list" where
  "model_tool_fields =
     [(''resolveElementIdsToNodeIds'', [''elementIds'']), (''resolveNodeIdsToElementIds'', [''nodeIds'']),
      (''searchModelElements'', [''text'', ''kind'', ''semanticRole'', ''namespaceUri'', ''typeElementId'', ''mappingConfidence'',
         ''appliedProfileId'', ''relationshipType'', ''limit'', ''offset'']),
      (''getElementContext'', [''elementId'', ''ancestorDepth'', ''childLimit'', ''relationshipLimit'', ''includeChildren'',
         ''includeRelationships'', ''includeTypeAndMetadata'']),
      (''summarizeSubtree'', [''rootElementId'', ''maxDepth'', ''includeHierarchy'', ''includeComposition'', ''includeProperties'',
         ''includeActions'', ''maxNodes'']),
      (''traceRelationshipPath'', [''sourceElementId'', ''targetElementId'', ''relationshipPlanes'', ''direction'', ''maxDepth''])]"

definition model_access_fields :: "(string \<times> string list) list" where
  "model_access_fields =
     [(''resolveBrowsePath'', [''path'', ''segments'']), (''getBrowsePath'', [''elementId'']),
      (''getInstancesOfType'', [''typeElementId'', ''typeContextRevision'', ''includeSubtypes'', ''offset'', ''limit'']),
      (''getChildren'', [''elementId'', ''plane'', ''offset'', ''limit'']),
      (''getCompositionProperties'', [''elementIds'', ''offset'', ''limit'']), (''findElementsByName'', [''text'', ''offset'', ''limit'']),
      (''findElementsByNamespace'', [''namespaceUri'', ''offset'', ''limit'']), (''findElementsByRole'', [''semanticRole'', ''offset'', ''limit''])]"

text \<open>
  The surroundings of a call: the application itself, the model as the provider and as the cache give it,
  and the tools of \<open>model_access.py\<close>, whose arguments the JSON schema library validates.
\<close>

record mcp_env =
  me_json_loads :: "string \<Rightarrow> pyval option"
  me_netloc_invalid :: "string \<Rightarrow> bool"
  me_app :: "string \<Rightarrow> string \<Rightarrow> (string, pyval) dict \<Rightarrow> pyval \<Rightarrow> asgi_response"
  me_api_prefix :: string
  me_model_provider :: "BuildResult result option"
  me_model_cache :: "BuildResult option"
  me_revision :: string
  me_str_of :: "pyval \<Rightarrow> string"
  me_validate_access :: "string \<Rightarrow> arguments \<Rightarrow> unit result"
  me_access_tool :: "BuildResult \<Rightarrow> string \<Rightarrow> arguments \<Rightarrow> access_result result"

datatype tool_reply =
    HttpReply nat pyval
  | TextReply nat string "string option"
  | ModelReply tool_body
  | AccessReply access_result
  | ContainerReply container_page

definition allowed_arguments :: "mcp_tool \<Rightarrow> string list" where
  "allowed_arguments tool =
     mt_path_parameters tool @ mt_query_parameters tool
     @ (if mt_name tool \<in> set MCP_PAGINATED_LIST_TOOLS then [''limit'', ''offset''] else [])
     @ (if mt_name tool = MCP_CONTAINER_VALUES_TOOL then [''containerId'', ''limit'', ''offset''] else [])
     @ (case map_of (model_tool_fields @ model_access_fields) (mt_name tool) of None \<Rightarrow> [] | Some fs \<Rightarrow> fs)
     @ (if mt_body_required tool \<or> mt_has_body tool then [''body''] else [])"

definition page_arguments :: "pyval \<Rightarrow> pyval \<Rightarrow> (nat \<times> nat) result" where
  "page_arguments limit offset =
     rbind (required_int 1 (Some 500) ''limit must be an integer from 1 to 500'' limit)
       (\<lambda>k. rbind (required_int 0 None ''offset must be a non-negative integer'' offset) (\<lambda>start. Inr (k, start)))"

definition list_page_arguments :: "arguments \<Rightarrow> (nat \<times> nat) result" where
  "list_page_arguments args =
     page_arguments (dict_get_def args ''limit'' (PInt (int MCP_DEFAULT_PAGE_SIZE))) (dict_get_def args ''offset'' (PInt 0))"

definition check_call :: "mcp_env \<Rightarrow> mcp_tool \<Rightarrow> arguments \<Rightarrow> unit result" where
  "check_call env tool args =
     (let unexpected = sort (filter (\<lambda>k. k \<notin> set (allowed_arguments tool)) (dict_keys args));
          missing = filter (\<lambda>k. dict_get args k = None) (mt_path_parameters tool)
            @ filter (\<lambda>k. k \<in> set (mt_required tool) \<and> dict_get args k = None) (mt_query_parameters tool)
      in if unexpected \<noteq> [] then Inl (bad_request (''Unexpected arguments: '' @ join_with '', '' unexpected))
         else if missing \<noteq> [] then Inl (bad_request (''Missing required arguments: '' @ join_with '', '' missing))
         else rbind (if mt_name tool \<in> set (map fst model_access_fields) then me_validate_access env (mt_name tool) args
             else if mt_name tool \<in> set (map fst model_tool_fields) then validate_model_tool_arguments (mt_name tool) args else Inr ())
           (\<lambda>_. if mt_name tool \<in> set MCP_PAGINATED_LIST_TOOLS then rbind (list_page_arguments args) (\<lambda>_. Inr ()) else Inr ()))"

definition query_params :: "mcp_tool \<Rightarrow> arguments \<Rightarrow> (string, pyval) dict" where
  "query_params tool args =
     (let given = List.map_filter (\<lambda>k. case dict_get args k of None \<Rightarrow> None | Some PNone \<Rightarrow> None | Some v \<Rightarrow> Some (k, v)) (mt_query_parameters tool)
      in if mt_name tool = ''getObjectsV1'' \<and> ''root'' \<in> set (mt_query_parameters tool)
         then dict_setdefault ''root'' (PBool True) given else given)"

text \<open>The body of the request, and the page that is taken out of it for the tools with pages in the body.\<close>

definition request_body :: "mcp_tool \<Rightarrow> arguments \<Rightarrow> (pyval \<times> (nat \<times> nat) option) result" where
  "request_body tool args =
     (let body = dict_get_def args ''body'' PNone
      in rbind (case (map_of MCP_BODY_PAGINATED_TOOLS (mt_name tool), body) of
             (Some page_size, PDict d) \<Rightarrow>
               rbind (page_arguments (dict_get_def d ''limit'' (PInt (int page_size))) (dict_get_def d ''offset'' (PInt 0)))
                 (\<lambda>page. Inr (PDict (dict_del ''offset'' (dict_del ''limit'' d)), Some page))
           | _ \<Rightarrow> Inr (body, None))
         (\<lambda>(body, page). if mt_body_required tool \<and> body = PNone then Inl (bad_request ''Missing required body'') else Inr (body, page)))"

definition decode_response :: "mcp_env \<Rightarrow> asgi_response \<Rightarrow> tool_reply result" where
  "decode_response env response =
     (if startswith (case ar_content_type response of None \<Rightarrow> [] | Some c \<Rightarrow> c) ''application/json''
      then (case me_json_loads env (ar_body response) of
              None \<Rightarrow> Inl (HTTPException 502 ''Upstream response was not valid JSON'')
            | Some body \<Rightarrow> Inr (HttpReply (ar_status_code response) body))
      else Inr (TextReply (ar_status_code response) (ar_body response) (ar_content_type response)))"

text \<open>\<open>_invoke_cached_identity_tool\<close>, \<open>_invoke_cached_model_access_tool\<close> and \<open>_invoke_model_tool\<close>.\<close>

definition cached_model :: "mcp_env \<Rightarrow> BuildResult result" where
  "cached_model env =
     (case me_model_cache env of None \<Rightarrow> Inl (HTTPException 503 ''Cached model is not available'') | Some m \<Rightarrow> Inr m)"

definition provided_model :: "mcp_env \<Rightarrow> BuildResult result" where
  "provided_model env =
     (case me_model_provider env of None \<Rightarrow> Inl (HTTPException 500 ''MCP model provider is not initialized'') | Some r \<Rightarrow> r)"

definition answer_call :: "mcp_env \<Rightarrow> mcp_tool \<Rightarrow> arguments \<Rightarrow> string \<Rightarrow> pyval \<Rightarrow> tool_reply result" where
  "answer_call env tool args target body =
     (let name = mt_name tool
      in if name = MCP_CONTAINER_VALUES_TOOL
         then rbind (invoke_container_values (me_json_loads env) (me_netloc_invalid env) (\<lambda>path. me_app env ''POST'' path []) (me_api_prefix env)
               (me_model_provider env) (dict_get_def args ''containerId'' (PStr [])) (dict_get_def args ''limit'' (PInt 50))
               (dict_get_def args ''offset'' (PInt 0)))
             (\<lambda>r. case r of Inl response \<Rightarrow> decode_response env response | Inr page \<Rightarrow> Inr (ContainerReply page))
         else if name \<in> {''resolveElementIdsToNodeIds'', ''resolveNodeIdsToElementIds''}
         then rbind (validate_model_tool_arguments name args)
           (\<lambda>_. rbind (cached_model env) (\<lambda>m. rbind (invoke_model_tool (me_str_of env) m (me_revision env) name args) (\<lambda>b. Inr (ModelReply b))))
         else if name \<in> set (map fst model_access_fields)
         then rbind (cached_model env) (\<lambda>m. rbind (me_access_tool env m name args) (\<lambda>b. Inr (AccessReply b)))
         else if name \<in> set (map fst model_tool_fields)
         then rbind (validate_model_tool_arguments name args)
           (\<lambda>_. rbind (provided_model env) (\<lambda>m. rbind (invoke_model_tool (me_str_of env) m (me_revision env) name args) (\<lambda>b. Inr (ModelReply b))))
         else decode_response env (me_app env (mt_method tool) target (query_params tool args) body))"

definition paginate_reply :: "mcp_tool \<Rightarrow> (nat \<times> nat) \<Rightarrow> (nat \<times> nat) option \<Rightarrow> tool_reply \<Rightarrow> tool_reply" where
  "paginate_reply tool list_page body_page reply =
     (case reply of
        HttpReply status body \<Rightarrow>
          HttpReply status
            (if mt_name tool \<in> set MCP_PAGINATED_LIST_TOOLS then paginate_mcp_list body (fst list_page) (snd list_page)
             else case body_page of
               None \<Rightarrow> body
             | Some (limit, offset) \<Rightarrow>
                 if mt_name tool = ''queryRelatedObjectsV1'' then paginate_mcp_related body limit offset
                 else if mt_name tool = ''queryHistoricalValuesV1'' then paginate_mcp_history body limit offset else body)
      | _ \<Rightarrow> reply)"

definition invoke_mcp_tool :: "mcp_env \<Rightarrow> mcp_tool \<Rightarrow> arguments \<Rightarrow> tool_reply result" where
  "invoke_mcp_tool env tool args =
     rbind (check_call env tool args)
       (\<lambda>_. rbind (request_target (me_netloc_invalid env) (me_api_prefix env) (mt_server_url_override tool) (mt_path tool)
             (mt_path_parameters tool) (\<lambda>k. me_str_of env (dict_get_def args k PNone)))
         (\<lambda>target. rbind (request_body tool args)
           (\<lambda>(body, body_page). rbind (answer_call env tool args target body)
             (\<lambda>reply. rbind (if mt_name tool \<in> set MCP_PAGINATED_LIST_TOOLS then list_page_arguments args else Inr (0, 0))
               (\<lambda>list_page. Inr (paginate_reply tool list_page body_page reply))))))"

end
