(* ===== verification/McpCallProps.thy ===== *)
theory McpCallProps
  imports McpCalls Resolve
begin

text \<open>
  The values of a container: the properties below it are found, each once, and every page has the result
  of the value endpoint for each of its properties.
\<close>

section \<open>The search\<close>

definition child_step :: "BuildResult \<Rightarrow> (string \<times> string) set" where
  "child_step m = {(i, j). \<exists>n. node_of m i = Some n \<and> mn_kind n \<noteq> Property \<and> j \<in> set (children_of m i)}"

definition property_nodes :: "BuildResult \<Rightarrow> string set \<Rightarrow> ModelNode set" where
  "property_nodes m S = {n. \<exists>j \<in> S. node_of m j = Some n \<and> mn_kind n = Property}"

text \<open>
  Between two turns: what is visited or pending is below the container, at the depth that is noted; what is
  visited has its children visited or pending; and the properties are those of the visited elements.
\<close>

definition container_inv :: "BuildResult \<Rightarrow> string \<Rightarrow> (string \<times> nat) list \<Rightarrow> string list \<Rightarrow> ModelNode list \<Rightarrow> bool" where
  "container_inv m i pending visited properties \<longleftrightarrow>
     set visited \<subseteq> (child_step m)\<^sup>* `` {i} \<and> distinct visited \<and> (\<forall>(j, d) \<in> set pending. (i, j) \<in> child_step m ^^ d)
     \<and> (\<forall>v \<in> set visited. child_step m `` {v} \<subseteq> set visited \<union> fst ` set pending) \<and> i \<in> set visited \<union> fst ` set pending
     \<and> set properties = property_nodes m (set visited) \<and> distinct (map mn_id properties)"

lemma container_inv_skip:
  "container_inv m i ((j, d) # rest) visited properties \<Longrightarrow> j \<in> set visited \<Longrightarrow> container_inv m i rest visited properties"
  by (auto simp: container_inv_def)

lemma container_invD:
  assumes "container_inv m i pending visited properties"
  shows "set visited \<subseteq> (child_step m)\<^sup>* `` {i}" "distinct visited" "\<And>k e. (k, e) \<in> set pending \<Longrightarrow> (i, k) \<in> child_step m ^^ e"
    "\<And>v. v \<in> set visited \<Longrightarrow> child_step m `` {v} \<subseteq> set visited \<union> fst ` set pending" "i \<in> set visited \<union> fst ` set pending"
    "set properties = property_nodes m (set visited)" "distinct (map mn_id properties)"
proof -
  note inv = assms [unfolded container_inv_def]
  show "set visited \<subseteq> (child_step m)\<^sup>* `` {i}" "distinct visited" "i \<in> set visited \<union> fst ` set pending"
    "set properties = property_nodes m (set visited)" "distinct (map mn_id properties)"
    using inv by - (elim conjE, assumption)+
  show "(i, k) \<in> child_step m ^^ e" if "(k, e) \<in> set pending" for k e
    using inv that by (elim conjE) (drule (1) bspec, simp only: case_prod_conv)
  show "child_step m `` {v} \<subseteq> set visited \<union> fst ` set pending" if "v \<in> set visited" for v
    using inv that by (elim conjE) (drule (1) bspec)
qed

lemma container_inv_visit:
  assumes "ids_ok m" "container_inv m i ((j, d) # rest) visited properties" "j \<notin> set visited"
    and "children = (case node_of m j of None \<Rightarrow> [] | Some n \<Rightarrow> if mn_kind n = Property then [] else children_of m j)"
    and "found = (case node_of m j of None \<Rightarrow> [] | Some n \<Rightarrow> if mn_kind n = Property then [n] else [])"
  shows "container_inv m i (map (\<lambda>c. (c, d + 1)) children @ rest) (visited @ [j]) (properties @ found)"
proof -
  note inv = container_invD [OF assms(2)]
  have kids: "child_step m `` {j} = set children" unfolding assms(4) by (cases "node_of m j") (auto simp: child_step_def)
  have j: "(i, j) \<in> child_step m ^^ d" using inv(3) by simp
  have ids: "mn_id n \<in> set visited" if n: "n \<in> set properties" for n
    using n ids_okD [OF assms(1)] unfolding inv(6) by (auto simp: property_nodes_def)
  have new: "mn_id n = j" if "n \<in> set found" for n
    using that ids_okD [OF assms(1), of j] unfolding assms(5) by (cases "node_of m j") (auto split: if_splits)
  have fresh: "fst ` set (map (\<lambda>c. (c, d + 1)) children @ rest) = set children \<union> fst ` set rest" by (simp add: image_Un image_image)
  show ?thesis
    unfolding container_inv_def
  proof (intro conjI ballI)
    show "set (visited @ [j]) \<subseteq> (child_step m)\<^sup>* `` {i}" using inv(1) j by (auto intro: relpow_imp_rtrancl)
    show "distinct (visited @ [j])" using inv(2) assms(3) by simp
    show "i \<in> set (visited @ [j]) \<union> fst ` set (map (\<lambda>c. (c, d + 1)) children @ rest)" using inv(5) by auto
    show "set (properties @ found) = property_nodes m (set (visited @ [j]))"
      unfolding assms(5) using inv(6) by (cases "node_of m j") (auto simp: property_nodes_def)
    show "distinct (map mn_id (properties @ found))"
    proof -
      have "distinct (map mn_id found)" unfolding assms(5) by (cases "node_of m j") simp_all
      moreover have "mn_id ` set found \<subseteq> {j}" "mn_id ` set properties \<subseteq> set visited" using new ids by blast+
      ultimately show ?thesis using inv(7) assms(3) by (simp only: map_append distinct_append list.set_map) blast
    qed
    fix v
    assume "v \<in> set (visited @ [j])"
    then show "child_step m `` {v} \<subseteq> set (visited @ [j]) \<union> fst ` set (map (\<lambda>c. (c, d + 1)) children @ rest)"
      unfolding fresh using inv(4) [of v] kids by (cases "v = j") auto
  next
    fix e
    assume "e \<in> set (map (\<lambda>c. (c, d + 1)) children @ rest)"
    then show "case e of (k, d) \<Rightarrow> (i, k) \<in> child_step m ^^ d"
      using inv(3) kids j by (auto intro: relpow_Suc_I)
  qed
qed

text \<open>What the search answers: all properties, or too many elements or levels.\<close>

definition search_answer :: "BuildResult \<Rightarrow> string \<Rightarrow> ModelNode list result \<Rightarrow> bool" where
  "search_answer m i r \<longleftrightarrow>
     (case r of
        Inr properties \<Rightarrow> set properties = property_nodes m ((child_step m)\<^sup>* `` {i}) \<and> distinct (map mn_id properties)
      | Inl e \<Rightarrow> (\<exists>message. e = HTTPException 413 message)
          \<and> ((\<exists>visited. distinct visited \<and> set visited \<subseteq> (child_step m)\<^sup>* `` {i} \<and> 5000 < length visited)
             \<or> (\<exists>j d. 32 < d \<and> (i, j) \<in> child_step m ^^ d)))"

lemma container_loop_answer:
  assumes "ids_ok m" "container_inv m i pending visited properties"
  shows "search_answer m i (container_loop m pending visited properties)"
  using assms
proof (induction m pending visited properties rule: container_loop.induct)
  case (1 m pending visited properties)
  note ids = 1(5) and inv = 1(6)
  show ?case
  proof (cases pending)
    case Nil
    have "set visited = (child_step m)\<^sup>* `` {i}"
    proof
      show "set visited \<subseteq> (child_step m)\<^sup>* `` {i}" by (rule container_invD(1) [OF inv])
      show "(child_step m)\<^sup>* `` {i} \<subseteq> set visited"
      proof
        fix j
        assume "j \<in> (child_step m)\<^sup>* `` {i}"
        then have "(i, j) \<in> (child_step m)\<^sup>*" by simp
        then show "j \<in> set visited"
        proof (induction rule: rtrancl_induct)
          case base
          show ?case using container_invD(5) [OF inv] Nil by simp
        next
          case (step j k)
          then show ?case using container_invD(4) [OF inv step.IH] Nil by auto
        qed
      qed
    qed
    then show ?thesis
      using container_invD(6,7) [OF inv] Nil by (simp add: container_loop.simps [of m "[]"] search_answer_def)
  next
    case (Cons e rest)
    obtain j d where e: "e = (j, d)" by force
    note pending = Cons [unfolded e]
    note loop = container_loop.simps [of m "(j, d) # rest" visited properties]
    have below: "(i, j) \<in> child_step m ^^ d" using container_invD(3) [OF inv] pending by simp
    show ?thesis
    proof (cases "j \<in> set visited")
      case True
      then show ?thesis using 1(1) [OF pending refl True ids container_inv_skip [OF inv [unfolded pending] True]] by (simp add: pending loop)
    next
      case new: False
      show ?thesis
      proof (cases "length visited + 1 > MCP_CONTAINER_VALUES_MAX_NODES \<or> d > MCP_CONTAINER_VALUES_MAX_DEPTH")
        case True
        have "distinct (visited @ [j])" "set (visited @ [j]) \<subseteq> (child_step m)\<^sup>* `` {i}"
          using container_invD(1,2) [OF inv] new below by (auto intro: relpow_imp_rtrancl)
        moreover have "5000 < length (visited @ [j]) \<or> 32 < d"
          using True by (simp add: MCP_CONTAINER_VALUES_MAX_NODES_def MCP_CONTAINER_VALUES_MAX_DEPTH_def)
        moreover have "\<exists>message. container_loop m pending visited properties = Inl (HTTPException 413 message)"
          using True new by (auto simp: pending loop too_large_def)
        ultimately have "(\<exists>visited. distinct visited \<and> set visited \<subseteq> (child_step m)\<^sup>* `` {i} \<and> 5000 < length visited)
            \<or> (\<exists>j d. 32 < d \<and> (i, j) \<in> child_step m ^^ d)" "\<exists>message. container_loop m pending visited properties = Inl (HTTPException 413 message)"
          using below by blast+
        then show ?thesis unfolding search_answer_def by (elim exE) (simp only: sum.case, blast)
      next
        case False
        then have within: "\<not> MCP_CONTAINER_VALUES_MAX_NODES < length visited + 1" "\<not> MCP_CONTAINER_VALUES_MAX_DEPTH < d" by simp_all
        note visit = container_inv_visit [OF ids inv [unfolded pending] new, OF refl, OF refl]
        show ?thesis
        proof (cases "node_of m j")
          case None
          then show ?thesis
            using 1(2) [OF pending refl new within None ids] visit within new by (simp add: pending loop)
        next
          case (Some n)
          then show ?thesis
            using 1(3,4) [OF pending refl new within Some] visit within new ids by (cases "mn_kind n = Property") (simp_all add: pending loop)
        qed
      qed
    qed
  qed
qed

section \<open>The pages\<close>

text \<open>
  A value endpoint that answers every request, in which \<open>answer\<close> gives the result of an element: one entry
  for each element of the model that was asked for.
\<close>

definition serves_values :: "BuildResult \<Rightarrow> (string \<Rightarrow> pyval option) \<Rightarrow> (pyval \<Rightarrow> asgi_response) \<Rightarrow> (string \<Rightarrow> (string, pyval) dict) \<Rightarrow> bool" where
  "serves_values m json_loads ask answer \<longleftrightarrow>
     (\<forall>ids. ids \<noteq> [] \<and> length ids \<le> 10 \<and> (\<forall>i \<in> set ids. node_of m i \<noteq> None) \<longrightarrow>
        ar_status_code (ask (value_request ids)) < 400
        \<and> value_results json_loads (ask (value_request ids)) = Inr (map (\<lambda>i. PDict (answer i)) ids))
     \<and> (\<forall>i. dict_get (answer i) ''elementId'' = Some (PStr i))"

lemma concat_batches: "0 < k \<Longrightarrow> concat (batches_of k xs) = xs"
  by (induction k xs rule: batches_of.induct) (simp add: batches_of.simps)

lemma batch_size: "b \<in> set (batches_of k xs) \<Longrightarrow> b \<noteq> [] \<and> length b \<le> k"
  by (induction k xs rule: batches_of.induct) (subst (asm) batches_of.simps, auto split: if_splits)

lemma added_results:
  assumes "\<And>i. dict_get (answer i) ''elementId'' = Some (PStr i)"
  shows "dict_get (foldl add_result found (map (\<lambda>i. PDict (answer i)) ids)) j = (if j \<in> set ids then Some (answer j) else dict_get found j)"
  by (induction ids arbitrary: found) (auto simp: add_result_def assms)

lemma fetched_values:
  assumes "serves_values m json_loads ask answer" "\<And>b. b \<in> set batches \<Longrightarrow> b \<noteq> [] \<and> length b \<le> 10 \<and> (\<forall>n \<in> set b. node_of m (mn_id n) \<noteq> None)"
  shows "\<exists>all. fetch_values json_loads ask batches found = Inr (Inr all)
    \<and> (\<forall>j. dict_get all j = (if j \<in> mn_id ` set (concat batches) then Some (answer j) else dict_get found j))"
  using assms(2)
proof (induction batches arbitrary: found)
  case (Cons b batches)
  let ?ids = "map mn_id b"
  have asked: "ar_status_code (ask (value_request ?ids)) < 400"
      "value_results json_loads (ask (value_request ?ids)) = Inr (map (\<lambda>i. PDict (answer i)) ?ids)"
      "\<And>i. dict_get (answer i) ''elementId'' = Some (PStr i)"
    using assms(1) Cons.prems [of b] by (auto simp: serves_values_def)
  obtain all where all: "fetch_values json_loads ask batches (foldl add_result found (map (\<lambda>i. PDict (answer i)) ?ids)) = Inr (Inr all)"
      "\<And>j. dict_get all j = (if j \<in> mn_id ` set (concat batches) then Some (answer j)
         else dict_get (foldl add_result found (map (\<lambda>i. PDict (answer i)) ?ids)) j)"
    using Cons.IH [of "foldl add_result found (map (\<lambda>i. PDict (answer i)) ?ids)"] Cons.prems by (meson list.set_intros(2))
  have "fetch_values json_loads ask (b # batches) found = Inr (Inr all)" using asked(1,2) all(1) by (simp add: Let_def)
  moreover have "dict_get all j = (if j \<in> mn_id ` set (concat (b # batches)) then Some (answer j) else dict_get found j)" for j
    unfolding all(2) added_results [OF asked(3)] by auto
  ultimately show ?case by blast
qed simp

definition item_of :: "(string \<Rightarrow> (string, pyval) dict) \<Rightarrow> ModelNode \<Rightarrow> container_item" where
  "item_of answer n = container_item [(mn_id n, answer (mn_id n))] n"

text \<open>
  C35. The values of a container: for an object of the model the tool finds the properties below it, each
  once, however the elements contain each other, and every page has, in their order, the result of the value
  endpoint for each property of the page, says how many there are and where the next page begins; it fails,
  with status 413, only when there are more than 5000 elements below the container or a way of more than 32
  steps.
\<close>

theorem container_values_exact:
  assumes "ids_ok m" "node_of m i = Some container" "mn_kind container \<noteq> Property" "py_strip i \<noteq> []"
    and "1 \<le> limit" "limit \<le> 50" "safe_request_path netloc_invalid prefix ''/v1/objects/value'' = Inr path"
    and "serves_values m json_loads (post path) answer"
  shows "case invoke_container_values json_loads netloc_invalid post prefix (Some (Inr m)) (PStr i) (PInt (int limit)) (PInt (int offset)) of
      Inr (Inr page) \<Rightarrow> \<exists>properties. set properties = property_nodes m ((child_step m)\<^sup>* `` {i}) \<and> distinct (map mn_id properties)
        \<and> cp_items page = map (item_of answer) (take limit (drop offset properties)) \<and> cp_total page = length properties
        \<and> cp_next_offset page = (if offset + limit < length properties then Some (offset + limit) else None)
    | Inr (Inl _) \<Rightarrow> False
    | Inl e \<Rightarrow> search_answer m i (Inl e)"
proof -
  have "container_inv m i [(i, 0)] [] []" by (simp add: container_inv_def property_nodes_def)
  then have search: "search_answer m i (container_loop m [(i, 0)] [] [])" by (rule container_loop_answer [OF assms(1)])
  have call: "invoke_container_values json_loads netloc_invalid post prefix (Some (Inr m)) (PStr i) (PInt (int limit)) (PInt (int offset))
      = rbind (container_loop m [(i, 0)] [] []) (\<lambda>properties. container_values_page json_loads (post path) i properties limit offset)"
    using assms(2-7) by (simp add: invoke_container_values_def container_id_of_def required_int_def int_between_def)
  show ?thesis
  proof (cases "container_loop m [(i, 0)] [] []")
    case (Inl e)
    then show ?thesis using search by (simp add: call)
  next
    case (Inr properties)
    let ?page = "take limit (drop offset properties)"
    let ?batches = "batches_of MCP_CONTAINER_VALUES_BATCH_SIZE ?page"
    have "concat ?batches = ?page" by (rule concat_batches) (simp add: MCP_CONTAINER_VALUES_BATCH_SIZE_def)
    moreover have "b \<noteq> [] \<and> length b \<le> 10 \<and> (\<forall>n \<in> set b. node_of m (mn_id n) \<noteq> None)" if b: "b \<in> set ?batches" for b
    proof -
      have "set b \<subseteq> set (concat ?batches)" using b by auto
      also have "\<dots> \<subseteq> set properties"
        unfolding \<open>concat ?batches = ?page\<close> using set_take_subset set_drop_subset by (rule subset_trans)
      finally have "set b \<subseteq> set properties" .
      then have "\<forall>n \<in> set b. node_of m (mn_id n) \<noteq> None"
        using search Inr ids_okD [OF assms(1)] by (fastforce simp: search_answer_def property_nodes_def)
      then show ?thesis using batch_size [OF b] by (simp add: MCP_CONTAINER_VALUES_BATCH_SIZE_def)
    qed
    ultimately obtain all where all: "fetch_values json_loads (post path) ?batches [] = Inr (Inr all)"
        "\<And>j. dict_get all j = (if j \<in> mn_id ` set ?page then Some (answer j) else None)"
      using fetched_values [OF assms(8), of ?batches "[]"] by auto
    have "container_item all n = item_of answer n" if "n \<in> set ?page" for n
      using that by (simp add: container_item_def item_of_def all(2))
    then have items: "map (container_item all) ?page = map (item_of answer) ?page" by simp
    have more: "(if offset + length ?page < length properties then Some (offset + length ?page) else None)
        = (if offset + limit < length properties then Some (offset + limit) else None)" by auto
    have "invoke_container_values json_loads netloc_invalid post prefix (Some (Inr m)) (PStr i) (PInt (int limit)) (PInt (int offset))
        = Inr (Inr \<lparr>cp_success = list_all item_succeeded (map (item_of answer) ?page), cp_container_id = i, cp_total = length properties,
            cp_returned = length ?page, cp_offset = offset, cp_items = map (item_of answer) ?page,
            cp_next_offset = (if offset + limit < length properties then Some (offset + limit) else None)\<rparr>)"
      unfolding call container_values_page_def Inr Let_def rbind_simps all(1) sum.case items more by simp
    then show ?thesis using search Inr by (auto simp: search_answer_def)
  qed
qed

definition demo_answer :: "string \<Rightarrow> (string, pyval) dict" where
  "demo_answer i = [(''elementId'', PStr i), (''success'', PBool True), (''result'', PDict [(''value'', PInt 7)])]"

definition demo_json :: "string \<Rightarrow> pyval option" where
  "demo_json s = Some (PDict [(''results'', PList (map (\<lambda>c. PDict (demo_answer [c])) s))])"

definition demo_post :: "string \<Rightarrow> pyval \<Rightarrow> asgi_response" where
  "demo_post path body = \<lparr>ar_status_code = 200, ar_content_type = None, ar_body =
     (case body of PDict ((_, PList ids) # _) \<Rightarrow> concat (map (\<lambda>v. case v of PStr s \<Rightarrow> s | _ \<Rightarrow> []) ids) | _ \<Rightarrow> [])\<rparr>"

lemma demo_serves: "serves_values pump_model demo_json (demo_post path) demo_answer"
proof -
  have known: "i = ''a'' \<or> i = ''p''" if "node_of pump_model i \<noteq> None" for i
    using that by (auto simp: pump_model_def sample_model_def split: if_splits)
  have "map (\<lambda>c. PDict (demo_answer [c])) (concat ids) = map (\<lambda>i. PDict (demo_answer i)) ids" if "\<forall>i \<in> set ids. node_of pump_model i \<noteq> None" for ids
    using that
  proof (induction ids)
    case (Cons i ids)
    then have "i = ''a'' \<or> i = ''p''" using known by simp
    then show ?case using Cons by auto
  qed simp
  then show ?thesis
    by (simp add: serves_values_def value_results_def demo_post_def value_request_def demo_json_def comp_def demo_answer_def)
qed

theorem container_values_exact_witness:
  "case invoke_container_values demo_json (\<lambda>_. False) demo_post [] (Some (Inr pump_model)) (PStr ''a'') (PInt (int 10)) (PInt (int 0)) of
      Inr (Inr page) \<Rightarrow> \<exists>properties. set properties = property_nodes pump_model ((child_step pump_model)\<^sup>* `` {''a''}) \<and> distinct (map mn_id properties)
        \<and> cp_items page = map (item_of demo_answer) (take 10 (drop 0 properties)) \<and> cp_total page = length properties
        \<and> cp_next_offset page = (if 0 + 10 < length properties then Some (0 + 10) else None)
    | Inr (Inl _) \<Rightarrow> False
    | Inl e \<Rightarrow> search_answer pump_model ''a'' (Inl e)"
proof (rule container_values_exact [OF pump_model_ok(1) _ _ _ _ _ _ demo_serves])
  show "node_of pump_model ''a'' = Some (sample_node ''a'' Asset ''ns=1;i=1'')" by (simp add: pump_model_def sample_model_def)
  show "mn_kind (sample_node ''a'' Asset ''ns=1;i=1'') \<noteq> Property" by (simp add: sample_node_def)
  show "py_strip ''a'' \<noteq> []" by code_simp
  show "safe_request_path (\<lambda>_. False) [] ''/v1/objects/value'' = Inr ''/v1/objects/value''" by code_simp
qed simp_all

section \<open>Where calls go\<close>

lemma container_values_normal:
  assumes "\<And>path body. normal_path path \<Longrightarrow> post1 path body = post2 path body"
  shows "invoke_container_values json_loads netloc_invalid post1 prefix model i limit offset
    = invoke_container_values json_loads netloc_invalid post2 prefix model i limit offset"
proof -
  have "rbind (safe_request_path netloc_invalid prefix tool_path) (\<lambda>path. f (post1 path))
      = rbind (safe_request_path netloc_invalid prefix tool_path) (\<lambda>path. f (post2 path))"
    for tool_path and f :: "_ \<Rightarrow> (asgi_response + container_page) result"
  proof (cases "safe_request_path netloc_invalid prefix tool_path")
    case (Inr path)
    then have "post1 path = post2 path" using assms safe_request_path_is_normal by blast
    then show ?thesis using Inr by simp
  qed simp
  from this [of _ "\<lambda>post. container_values_page json_loads post _ _ _ _"] show ?thesis
    unfolding invoke_container_values_def by (simp only:)
qed

text \<open>
  Whatever the arguments of an MCP call are, the application itself is only ever called at a normal path:
  one absolute path whose segments are neither empty nor dots, without host, query or fragment. What the
  application would answer elsewhere has no influence on the call.
\<close>

theorem mcp_calls_use_normal_paths:
  assumes "\<And>method_name path query body. normal_path path \<Longrightarrow> app method_name path query body = me_app env method_name path query body"
  shows "invoke_mcp_tool (env\<lparr>me_app := app\<rparr>) tool args = invoke_mcp_tool env tool args"
proof -
  let ?env = "env\<lparr>me_app := app\<rparr>"
  have container: "invoke_container_values (me_json_loads env) (me_netloc_invalid env) (\<lambda>path. app ''POST'' path []) (me_api_prefix env) model i limit offset
      = invoke_container_values (me_json_loads env) (me_netloc_invalid env) (\<lambda>path. me_app env ''POST'' path []) (me_api_prefix env) model i limit offset"
    for model i limit offset by (rule container_values_normal) (rule assms)
  have same: "decode_response ?env = decode_response env" "cached_model ?env = cached_model env" "provided_model ?env = provided_model env"
      "me_validate_access ?env = me_validate_access env"
    by (simp_all add: fun_eq_iff decode_response_def cached_model_def provided_model_def)
  have answer: "answer_call ?env tool args target body = answer_call env tool args target body" if "normal_path target" for target body
    using assms [OF that] by (simp add: answer_call_def Let_def same container)
  have check: "check_call ?env tool args = check_call env tool args" unfolding check_call_def same ..
  let ?target = "request_target (me_netloc_invalid env) (me_api_prefix env) (mt_server_url_override tool) (mt_path tool)
    (mt_path_parameters tool) (\<lambda>k. me_str_of env (dict_get_def args k PNone))"
  show ?thesis
  proof (cases ?target)
    case (Inl e)
    then show ?thesis by (simp add: invoke_mcp_tool_def check)
  next
    case (Inr target)
    then have "normal_path target" by (rule request_target_is_normal)
    then show ?thesis using Inr by (simp add: invoke_mcp_tool_def check answer)
  qed
qed

definition demo_env :: mcp_env where
  "demo_env = \<lparr>me_json_loads = demo_json, me_netloc_invalid = (\<lambda>_. False), me_app = (\<lambda>_ path _. demo_post path), me_api_prefix = ''/api'',
     me_model_provider = Some (Inr pump_model), me_model_cache = Some pump_model, me_revision = ''r'', me_str_of = (\<lambda>_. []),
     me_validate_access = (\<lambda>_ _. Inr ()), me_access_tool = (\<lambda>_ _ _. Inl (KeyError []))\<rparr>"

definition demo_tool :: mcp_tool where
  "demo_tool = \<lparr>mt_name = ''getObjectV1'', mt_method = ''GET'', mt_path = ''/v1/objects/{id}'', mt_required = [''id''], mt_has_body = False,
     mt_path_parameters = [''id''], mt_query_parameters = [], mt_body_required = False, mt_server_url_override = None\<rparr>"

theorem mcp_calls_use_normal_paths_witness:
  "invoke_mcp_tool (demo_env\<lparr>me_app := \<lambda>method_name path query body.
       if normal_path path then me_app demo_env method_name path query body else \<lparr>ar_status_code = 500, ar_content_type = None, ar_body = []\<rparr>\<rparr>)
     demo_tool [(''id'', PStr ''a'')]
   = invoke_mcp_tool demo_env demo_tool [(''id'', PStr ''a'')]"
  by (rule mcp_calls_use_normal_paths) simp

end
