(* ===== verification/Prompts.thy ===== *)
theory Prompts
  imports Monitors
begin

text \<open>
  The prompts of the MCP server, \<open>i3x_server/prompts/\<close>: the registry that is loaded from the overrides,
  the templates with placeholders, and \<open>execute_prompt\<close>. \<open>str_of\<close> is Python's \<open>str\<close>.
\<close>

section \<open>Registry\<close>

record PromptDefinition =
  pd_name :: string
  pd_description :: string
  pd_inputs :: "string list"
  pd_template :: string

type_synonym prompt_registry = "(string, PromptDefinition) dict"

definition as_mapping :: "pyval \<Rightarrow> (string, pyval) dict" where
  "as_mapping v = (case v of PDict d \<Rightarrow> d | _ \<Rightarrow> [])"

definition nonempty_texts :: "pyval list \<Rightarrow> string list option" where
  "nonempty_texts items =
     (if list_all (\<lambda>v. case v of PStr s \<Rightarrow> s \<noteq> [] | _ \<Rightarrow> False) items
      then Some (map (\<lambda>v. case v of PStr s \<Rightarrow> s | _ \<Rightarrow> []) items) else None)"

definition prompt_error :: "string \<Rightarrow> string \<Rightarrow> string \<Rightarrow> exn" where
  "prompt_error name field what = ValueError (''Prompt '' @ name @ '': field '' @ [CHR 0x27] @ field @ [CHR 0x27] @ what)"

definition prompt_from_mapping :: "string \<Rightarrow> (string, pyval) dict \<Rightarrow> PromptDefinition result" where
  "prompt_from_mapping name data =
     (case dict_get_def data ''description'' PNone of
        PStr description \<Rightarrow>
          (case (case dict_get_def data ''inputs'' PNone of PList items \<Rightarrow> nonempty_texts items | _ \<Rightarrow> None) of
             None \<Rightarrow> Inl (prompt_error name ''inputs'' '' must be an array of non-empty strings'')
           | Some inputs \<Rightarrow>
               (case dict_get_def data ''template'' PNone of
                  PStr template \<Rightarrow>
                    Inr \<lparr>pd_name = name, pd_description = description, pd_inputs = inputs, pd_template = template\<rparr>
                | _ \<Rightarrow> Inl (prompt_error name ''template'' '' must be a string'')))
      | _ \<Rightarrow> Inl (prompt_error name ''description'' '' must be a string''))"

definition load_from_overrides :: "pyval \<Rightarrow> prompt_registry result" where
  "load_from_overrides overrides =
     rfold (\<lambda>prompt_map (prompt_name, prompt_data).
         if py_strip prompt_name = [] then Inl (ValueError ''Prompt key must be a non-empty string'')
         else rbind (prompt_from_mapping prompt_name (as_mapping prompt_data))
           (\<lambda>prompt. Inr (dict_set (pd_name prompt) prompt prompt_map)))
       [] (sort_key fst (as_mapping overrides))"

definition list_metadata :: "prompt_registry \<Rightarrow> (string \<times> string) list" where
  "list_metadata prompts = map (\<lambda>(k, p). (pd_name p, pd_description p)) (sort_key fst prompts)"

definition list_prompt_metadata :: "prompt_registry option \<Rightarrow> (string \<times> string) list" where
  "list_prompt_metadata registry = (case registry of None \<Rightarrow> [] | Some prompts \<Rightarrow> list_metadata prompts)"

definition get_prompt :: "prompt_registry option \<Rightarrow> string \<Rightarrow> PromptDefinition result" where
  "get_prompt registry name =
     (case Option.bind registry (\<lambda>prompts. dict_get prompts name) of
        None \<Rightarrow> Inl (HTTPException 404 (''Unknown prompt '' @ name))
      | Some prompt \<Rightarrow> Inr prompt)"

section \<open>Templates\<close>

definition ident_start :: "char \<Rightarrow> bool" where
  "ident_start c \<longleftrightarrow> (let n = (of_char c :: nat) in (65 \<le> n \<and> n \<le> 90) \<or> (97 \<le> n \<and> n \<le> 122) \<or> n = 95)"

definition ident_char :: "char \<Rightarrow> bool" where
  "ident_char c \<longleftrightarrow> ident_start c \<or> py_isdecimal c"

text \<open>
  A match of the pattern at the beginning of the text: two braces, white space, a name, white space, two
  braces. The parts cannot overlap, so there is no choice. The result is the name and the rest.
\<close>

definition match_placeholder :: "string \<Rightarrow> (string \<times> string) option" where
  "match_placeholder s =
     (if \<not> startswith s ''{{'' then None
      else let t = dropWhile py_isspace (drop 2 s);
               name = takeWhile ident_char t;
               rest = dropWhile py_isspace (dropWhile ident_char t)
           in if name \<noteq> [] \<and> ident_start (hd name) \<and> startswith rest ''}}'' then Some (name, drop 2 rest) else None)"

lemma match_placeholder_shorter: "match_placeholder s = Some (name, rest) \<Longrightarrow> length rest < length s"
proof -
  assume m: "match_placeholder s = Some (name, rest)"
  then have s: "2 \<le> length s" by (cases s rule: remdups_adj.cases) (auto simp: match_placeholder_def)
  let ?t = "dropWhile py_isspace (drop 2 s)"
  have "length rest \<le> length (dropWhile py_isspace (dropWhile ident_char ?t))"
    using m by (auto simp: match_placeholder_def Let_def split: if_splits)
  also have "\<dots> \<le> length (drop 2 s)"
    using length_dropWhile_le [of py_isspace "dropWhile ident_char ?t"] length_dropWhile_le [of ident_char ?t]
      length_dropWhile_le [of py_isspace "drop 2 s"] by linarith
  finally show ?thesis using s by simp
qed

text \<open>\<open>render_template\<close>: matches are replaced from left to right; what is put in is not searched again.\<close>

function render_template :: "(pyval \<Rightarrow> string) \<Rightarrow> (string, pyval) dict \<Rightarrow> string \<Rightarrow> string result" where
  "render_template str_of parameters template =
     (case template of
        [] \<Rightarrow> Inr []
      | c # cs \<Rightarrow>
          (case match_placeholder template of
             None \<Rightarrow> rbind (render_template str_of parameters cs) (\<lambda>t. Inr (c # t))
           | Some (name, rest) \<Rightarrow>
               (case dict_get parameters name of
                  None \<Rightarrow> Inl (ValueError (''Missing template variable: '' @ name))
                | Some v \<Rightarrow> rbind (render_template str_of parameters rest) (\<lambda>t. Inr (str_of v @ t)))))"
  by pat_completeness auto

termination render_template
  by (relation "measure (\<lambda>(str_of, parameters, template). length template)") (auto dest: match_placeholder_shorter)

declare render_template.simps [simp del]

record rendered_prompt =
  rp_prompt :: PromptDefinition
  rp_rendered :: string

definition execute_prompt :: "(pyval \<Rightarrow> string) \<Rightarrow> prompt_registry option \<Rightarrow> string \<Rightarrow> (string, pyval) dict \<Rightarrow> rendered_prompt result" where
  "execute_prompt str_of registry name parameters =
     rbind (get_prompt registry name)
       (\<lambda>prompt.
          let missing = filter (\<lambda>i. dict_get parameters i = None) (pd_inputs prompt)
          in if missing \<noteq> [] then Inl (HTTPException 400 (''Missing prompt inputs: '' @ join_with '', '' missing))
             else case render_template str_of parameters (pd_template prompt) of
               Inl (ValueError message) \<Rightarrow> Inl (HTTPException 400 message)
             | Inl e \<Rightarrow> Inl e
             | Inr rendered \<Rightarrow> Inr \<lparr>rp_prompt = prompt, rp_rendered = rendered\<rparr>)"

text \<open>
  What rendering does: the template falls into characters and placeholders, and each placeholder becomes the
  text of its parameter.
\<close>

datatype template_part = Literal char | Placeholder string

function template_parts :: "string \<Rightarrow> template_part list" where
  "template_parts template =
     (case template of
        [] \<Rightarrow> []
      | c # cs \<Rightarrow> (case match_placeholder template of
          None \<Rightarrow> Literal c # template_parts cs
        | Some (name, rest) \<Rightarrow> Placeholder name # template_parts rest))"
  by pat_completeness auto

termination template_parts
  by (relation "measure length") (auto dest: match_placeholder_shorter)

declare template_parts.simps [simp del]

lemma render_template_parts:
  "render_template str_of parameters template =
     rbind (rmap (\<lambda>p. case p of
         Literal c \<Rightarrow> Inr [c]
       | Placeholder name \<Rightarrow> (case dict_get parameters name of
           None \<Rightarrow> Inl (ValueError (''Missing template variable: '' @ name)) | Some v \<Rightarrow> Inr (str_of v))) (template_parts template))
       (\<lambda>texts. Inr (concat texts))"
proof (induction template rule: template_parts.induct)
  case (1 template)
  show ?case
  proof (cases template)
    case Nil
    then show ?thesis by (simp add: render_template.simps [of _ _ "[]"] template_parts.simps [of "[]"])
  next
    case (Cons c cs)
    show ?thesis
    proof (cases "match_placeholder (c # cs)")
      case None
      then show ?thesis
        using 1(1) [OF Cons] Cons
        by (simp add: render_template.simps [of _ _ "c # cs"] template_parts.simps [of "c # cs"] rbind_def split: sum.splits)
    next
      case (Some e)
      then obtain name rest where e: "e = (name, rest)" by force
      then show ?thesis
        using 1(2) [OF Cons _ refl] Some Cons
        by (auto simp: render_template.simps [of _ _ "c # cs"] template_parts.simps [of "c # cs"] rbind_def split: sum.splits option.splits)
    qed
  qed
qed

end
