(* ===== verification/McpServer.thy ===== *)
theory McpServer
  imports McpCalls Prompts
begin

text \<open>
  The MCP server, \<open>i3x_server/api/mcp/monolithic.py\<close>: JSON-RPC requests, their validation for the modern
  and the legacy protocol, tool results, resources, and the transport with its sessions and event streams.
  JSON is a Python value. The texts of the two guides and of the instructions, \<open>json.dumps\<close>, base64, the
  JSON schema validator, the names of status codes and the tool call itself are fields of \<open>server_env\<close>.
\<close>

section \<open>Protocol constants\<close>

definition MCP_PROTOCOL_VERSION :: string where "MCP_PROTOCOL_VERSION = ''2026-07-28''"
definition MCP_LEGACY_PROTOCOL_VERSIONS :: "string list" where
  "MCP_LEGACY_PROTOCOL_VERSIONS = [''2025-11-25'', ''2025-06-18'', ''2025-03-26'']"
definition MCP_LEGACY_PROTOCOL_VERSION :: string where "MCP_LEGACY_PROTOCOL_VERSION = hd MCP_LEGACY_PROTOCOL_VERSIONS"
definition MCP_SUPPORTED_MODERN_PROTOCOL_VERSIONS :: "string list" where
  "MCP_SUPPORTED_MODERN_PROTOCOL_VERSIONS = [MCP_PROTOCOL_VERSION]"
definition MCP_SUPPORTED_PROTOCOL_VERSIONS :: "string list" where
  "MCP_SUPPORTED_PROTOCOL_VERSIONS = MCP_PROTOCOL_VERSION # MCP_LEGACY_PROTOCOL_VERSIONS"
definition MCP_META_PROTOCOL_VERSION :: string where "MCP_META_PROTOCOL_VERSION = ''io.modelcontextprotocol/protocolVersion''"
definition MCP_META_CLIENT_CAPABILITIES :: string where
  "MCP_META_CLIENT_CAPABILITIES = ''io.modelcontextprotocol/clientCapabilities''"
definition MCP_CACHEABLE_RESULT_METHODS :: "string list" where
  "MCP_CACHEABLE_RESULT_METHODS = [''tools/list'', ''prompts/list'', ''resources/list'', ''resources/templates/list'', ''resources/read'']"
definition MCP_MAPPING_GUIDE_URI :: string where "MCP_MAPPING_GUIDE_URI = ''i3x://opcua-to-i3x-mapping''"
definition MCP_IDENTITY_GUIDE_URI :: string where "MCP_IDENTITY_GUIDE_URI = ''i3x://element-id-and-type-id''"
definition MCP_MODEL_OVERVIEW_URI :: string where "MCP_MODEL_OVERVIEW_URI = ''i3x://model/overview''"
definition MCP_ROOT_RESOURCE_PREFIX :: string where "MCP_ROOT_RESOURCE_PREFIX = ''i3x://roots/''"

record mcp_tool_entry =
  te_tool :: mcp_tool
  te_description :: string
  te_input_schema :: pyval
  te_output_schema :: pyval
  te_annotations :: pyval

record server_env =
  se_allowed_origins :: "string list"
  se_hostname :: "string \<Rightarrow> string option"
  se_version :: string
  se_instructions :: string
  se_mapping_guide :: string
  se_identity_guide :: string
  se_openapi :: pyval
  se_overrides_text :: "string option"
  se_base64_text :: "string \<Rightarrow> string option"
  se_json_dumps :: "pyval \<Rightarrow> string"
  se_status_phrase :: "int \<Rightarrow> string"
  se_str_of :: "pyval \<Rightarrow> string"
  se_tools :: "(string, mcp_tool_entry) dict"
  se_schema_error :: "pyval \<Rightarrow> arguments \<Rightarrow> string option"
  se_call_tool :: "mcp_tool \<Rightarrow> arguments \<Rightarrow> (nat \<times> pyval) result"
  se_prompts :: "prompt_registry option"
  se_model :: "BuildResult option"
  se_revision :: string
  se_build_completed :: pyval
  se_session_id :: "nat \<Rightarrow> string"

text \<open>The HTTP request; \<open>rq_body\<close> is the JSON of the body, if it can be parsed.\<close>

record http_request =
  rq_origin :: "string option"
  rq_base_url :: string
  rq_accept :: string
  rq_session_id :: "string option"
  rq_protocol_version :: "string option"
  rq_method :: "string option"
  rq_name :: "string option"
  rq_body :: "pyval option"

definition origin_is_allowed :: "server_env \<Rightarrow> http_request \<Rightarrow> bool" where
  "origin_is_allowed env rq =
     (case rq_origin rq of
        None \<Rightarrow> True
      | Some origin \<Rightarrow>
          (origin = py_rstrip_char CHR ''/'' (rq_base_url rq)
             \<and> se_hostname env origin \<in> {Some ''localhost'', Some ''127.0.0.1'', Some ''::1''})
          \<or> (origin \<noteq> ''*'' \<and> origin \<in> set (se_allowed_origins env)))"

section \<open>JSON-RPC\<close>

type_synonym json_object = "(string, pyval) dict"

definition jsonrpc_response :: "pyval \<Rightarrow> json_object \<Rightarrow> json_object" where
  "jsonrpc_response result_id result = [(''jsonrpc'', PStr ''2.0''), (''id'', result_id), (''result'', PDict result)]"

definition jsonrpc_error :: "pyval \<Rightarrow> int \<Rightarrow> string \<Rightarrow> pyval option \<Rightarrow> json_object" where
  "jsonrpc_error result_id code message data =
     [(''jsonrpc'', PStr ''2.0''), (''id'', result_id),
      (''error'', PDict ([(''code'', PInt code), (''message'', PStr message)] @ (case data of None \<Rightarrow> [] | Some d \<Rightarrow> [(''data'', d)])))]"

text \<open>The entry \<open>detail\<close> of the exceptions that \<open>i3x_http_error\<close> makes.\<close>

definition error_detail :: "server_env \<Rightarrow> int \<Rightarrow> string \<Rightarrow> pyval" where
  "error_detail env status message =
     PDict [(''success'', PBool False), (''error'', PDict [(''code'', PInt status), (''message'', PStr message)]),
            (''responseDetail'', PDict [(''title'', PStr (se_status_phrase env status)), (''status'', PInt status), (''detail'', PStr message)])]"

definition endswith :: "string \<Rightarrow> string \<Rightarrow> bool" where
  "endswith s suffix = startswith (rev s) (rev suffix)"

definition decode_modern_header_value :: "server_env \<Rightarrow> string \<Rightarrow> string option" where
  "decode_modern_header_value env v =
     (if \<not> startswith v ''=?base64?'' \<or> \<not> endswith v ''?='' then Some v
      else se_base64_text env (take (length v - 2 - 9) (drop 9 v)))"

definition metadata_entry :: "json_object \<Rightarrow> json_object" where
  "metadata_entry message =
     (case dict_get message ''params'' of
        Some (PDict params) \<Rightarrow> (case dict_get params ''_meta'' of Some (PDict meta) \<Rightarrow> meta | _ \<Rightarrow> [])
      | _ \<Rightarrow> [])"

definition is_dict :: "pyval option \<Rightarrow> bool" where
  "is_dict v = (case v of Some (PDict _) \<Rightarrow> True | _ \<Rightarrow> False)"

text \<open>The name that a request names in its parameters, if any.\<close>

definition expected_name :: "string \<Rightarrow> json_object \<Rightarrow> string option" where
  "expected_name method_name message =
     (let params = (case dict_get message ''params'' of Some (PDict d) \<Rightarrow> d | _ \<Rightarrow> []);
          v = (if method_name \<in> {''tools/call'', ''prompts/get''} then dict_get params ''name''
               else if method_name = ''resources/read'' then dict_get params ''uri'' else None)
      in case v of Some (PStr s) \<Rightarrow> Some s | _ \<Rightarrow> None)"

definition modern_request_error :: "server_env \<Rightarrow> http_request \<Rightarrow> json_object \<Rightarrow> json_object option" where
  "modern_request_error env rq message =
     (let meta = metadata_entry message; request_id = dict_get_def message ''id'' PNone;
          mismatch = (\<lambda>detail. Some (jsonrpc_error request_id (-32020) (''HeaderMismatch: '' @ detail) None))
      in case dict_get meta MCP_META_PROTOCOL_VERSION of
           Some (PStr version) \<Rightarrow>
             if \<not> is_dict (dict_get meta MCP_META_CLIENT_CAPABILITIES)
             then Some (jsonrpc_error request_id (-32602) ''Missing or invalid per-request MCP metadata'' None)
             else if rq_protocol_version rq \<noteq> Some version then mismatch ''MCP-Protocol-Version does not match request metadata''
             else (case dict_get message ''method'' of
                 Some (PStr method_name) \<Rightarrow>
                   if rq_method rq \<noteq> Some method_name then mismatch ''Mcp-Method does not match request method''
                   else if (case expected_name method_name message of
                       Some name \<Rightarrow> Option.bind (rq_name rq) (decode_modern_header_value env) \<noteq> Some name | None \<Rightarrow> False)
                   then mismatch ''Mcp-Name does not match request name''
                   else if expected_name method_name message = None \<and> rq_name rq \<noteq> None
                   then mismatch ''Mcp-Name is not applicable to this method''
                   else if version \<notin> set MCP_SUPPORTED_MODERN_PROTOCOL_VERSIONS
                   then Some (jsonrpc_error request_id (-32022) ''Unsupported protocol version''
                     (Some (PDict [(''supported'', PList (map PStr MCP_SUPPORTED_PROTOCOL_VERSIONS)), (''requested'', PStr version)])))
                   else None
               | _ \<Rightarrow> mismatch ''Mcp-Method does not match request method'')
         | _ \<Rightarrow> Some (jsonrpc_error request_id (-32602) ''Missing or invalid per-request MCP metadata'' None))"

definition add_modern_response_metadata :: "json_object \<Rightarrow> string \<Rightarrow> json_object" where
  "add_modern_response_metadata response method_name =
     (case dict_get response ''result'' of
        Some (PDict result) \<Rightarrow>
          let r1 = dict_setdefault ''resultType'' (PStr ''complete'') result;
              r2 = (if method_name \<in> set MCP_CACHEABLE_RESULT_METHODS
                    then dict_setdefault ''cacheScope'' (PStr ''private'') (dict_setdefault ''ttlMs'' (PInt 0) r1) else r1);
              meta = (case dict_get r2 ''_meta'' of Some (PDict m) \<Rightarrow> m | _ \<Rightarrow> [])
          in dict_set ''result'' (PDict (dict_set ''_meta'' (PDict (dict_set MCP_META_PROTOCOL_VERSION (PStr MCP_PROTOCOL_VERSION) meta)) r2)) response
      | _ \<Rightarrow> response)"

section \<open>Tool results\<close>

definition pick_entries :: "string list \<Rightarrow> json_object \<Rightarrow> json_object" where
  "pick_entries ks d = List.map_filter (\<lambda>k. map_option (Pair k) (dict_get d k)) ks"

definition compact_object :: "pyval \<Rightarrow> pyval" where
  "compact_object item = (case item of PDict d \<Rightarrow> PDict (pick_entries [''elementId'', ''displayName''] d) | _ \<Rightarrow> item)"

definition compact_bulk_item :: "(pyval \<Rightarrow> pyval) \<Rightarrow> pyval \<Rightarrow> pyval" where
  "compact_bulk_item project_result item =
     (case item of
        PDict d \<Rightarrow> (case dict_get d ''result'' of
            Some r \<Rightarrow> if succeeded_entry d then PDict (dict_set ''result'' (project_result r) d) else item
          | None \<Rightarrow> item)
      | _ \<Rightarrow> item)"

definition compact_bulk_results :: "(pyval \<Rightarrow> pyval) \<Rightarrow> json_object \<Rightarrow> json_object" where
  "compact_bulk_results project_result body =
     (case dict_get body ''results'' of
        Some (PList items) \<Rightarrow> dict_set ''results'' (PList (map (compact_bulk_item project_result) items)) body
      | _ \<Rightarrow> body)"

definition compact_list :: "(pyval \<Rightarrow> pyval) \<Rightarrow> json_object \<Rightarrow> json_object" where
  "compact_list project_item body =
     (case dict_get body ''result'' of
        Some (PList items) \<Rightarrow> dict_set ''result'' (PList (map project_item items)) body
      | _ \<Rightarrow> body)"

definition compact_related :: "pyval \<Rightarrow> pyval" where
  "compact_related result =
     (case result of
        PList items \<Rightarrow> PList (map (\<lambda>related. case related of
            PDict d \<Rightarrow> (case dict_get d ''object'' of Some v \<Rightarrow> PDict (dict_set ''object'' (compact_object v) d) | None \<Rightarrow> related)
          | _ \<Rightarrow> related) items)
      | _ \<Rightarrow> result)"

definition compact_type :: "pyval \<Rightarrow> pyval" where
  "compact_type item =
     (case item of PDict d \<Rightarrow> PDict (pick_entries [''elementId'', ''displayName'', ''namespaceUri'', ''version''] d) | _ \<Rightarrow> item)"

definition without_related :: "pyval \<Rightarrow> pyval" where
  "without_related result = (case result of PDict d \<Rightarrow> PDict (filter (\<lambda>(k, v). k \<noteq> ''related'') d) | _ \<Rightarrow> result)"

definition compact_values :: "pyval \<Rightarrow> pyval" where
  "compact_values result =
     (case result of
        PDict d \<Rightarrow> PDict (filter (\<lambda>(k, v). k \<noteq> ''isComposition'' \<and> \<not> (k = ''components'' \<and> v = PNone)) d)
      | _ \<Rightarrow> result)"

definition compact_tool_body :: "string \<Rightarrow> pyval \<Rightarrow> pyval" where
  "compact_tool_body tool_name body =
     (case body of
        PDict d \<Rightarrow>
          PDict (if tool_name \<in> {''getObjectsV1'', ''getRelationshipTypesV1''} then compact_list compact_object d
            else if tool_name \<in> {''listObjectsByIdV1'', ''queryRelationshipTypesV1''} then compact_bulk_results compact_object d
            else if tool_name = ''queryRelatedObjectsV1'' then compact_bulk_results compact_related d
            else if tool_name = ''getObjectTypesV1'' then compact_list compact_type d
            else if tool_name = ''queryObjectTypesV1'' then compact_bulk_results without_related d
            else if tool_name \<in> {''queryLastKnownValuesV1'', ''queryHistoricalValuesV1''} then compact_bulk_results compact_values d
            else d)
      | _ \<Rightarrow> body)"

definition failed_entry :: "pyval \<Rightarrow> bool" where
  "failed_entry v = (case v of PDict d \<Rightarrow> dict_get d ''success'' = Some (PBool False) | _ \<Rightarrow> False)"

definition tool_result :: "server_env \<Rightarrow> pyval \<Rightarrow> int \<Rightarrow> string option \<Rightarrow> json_object" where
  "tool_result env body status tool_name =
     (let body2 = (case tool_name of None \<Rightarrow> body | Some n \<Rightarrow> compact_tool_body n body);
          failed = (400 \<le> status \<or> failed_entry body2
            \<or> (case body2 of
                 PDict d \<Rightarrow> (case dict_get d ''results'' of Some (PList items) \<Rightarrow> list_ex failed_entry items | _ \<Rightarrow> False)
               | _ \<Rightarrow> False))
      in [(''content'', PList [PDict [(''type'', PStr ''text''), (''text'', PStr (se_json_dumps env body2))]]),
          (''structuredContent'', PDict [(''statusCode'', PInt status), (''body'', body2)]), (''isError'', PBool failed)])"

section \<open>Resources\<close>

definition opt_text :: "string option \<Rightarrow> pyval" where
  "opt_text v = (case v of None \<Rightarrow> PNone | Some s \<Rightarrow> PStr s)"

text \<open>\<open>node.type or node.source_type_id or node.kind\<close>.\<close>

definition type_or_kind :: "ModelNode \<Rightarrow> string" where
  "type_or_kind n =
     (case or_else (mn_type n) (mn_source_type_id n) of Some t \<Rightarrow> if t \<noteq> [] then t else kind_name (mn_kind n) | None \<Rightarrow> kind_name (mn_kind n))"

definition namespace_entry :: "BuildResult \<Rightarrow> string \<Rightarrow> pyval" where
  "namespace_entry m i = opt_text (dict_get_def (br_namespace_uri_by_id m) i None)"

definition roots_catalog :: "server_env \<Rightarrow> (string \<times> string) list" where
  "roots_catalog env =
     (case se_model env of
        None \<Rightarrow> []
      | Some m \<Rightarrow> map (\<lambda>i. (MCP_ROOT_RESOURCE_PREFIX @ i, case node_of m i of Some n \<Rightarrow> mn_name n | None \<Rightarrow> i)) (br_root_ids m))"

definition resource_entry :: "string \<Rightarrow> string \<Rightarrow> string \<Rightarrow> string \<Rightarrow> pyval" where
  "resource_entry uri name description mime_type =
     PDict [(''uri'', PStr uri), (''name'', PStr name), (''description'', PStr description), (''mimeType'', PStr mime_type)]"

definition resource_catalog :: "server_env \<Rightarrow> pyval list" where
  "resource_catalog env =
     [resource_entry MCP_MODEL_OVERVIEW_URI ''i3X model overview''
        ''Current model summary, element counts, relationship counts, and navigation guidance.'' ''application/json'',
      resource_entry MCP_MAPPING_GUIDE_URI ''OPC UA to i3X mapping guide''
        (''Short guide to how OPC UA nodes and references map into i3X objects, types, '' @ ''Hierarchy, Composition, and Graph relationships.'')
        ''text/markdown'',
      resource_entry MCP_IDENTITY_GUIDE_URI ''i3X ElementId and type IDs''
        (''Explains elementId, typeElementId, and sourceTypeId, including how OPC UA NodeIds '' @ ''become stable i3X instance IDs.'')
        ''text/markdown'',
      resource_entry ''i3x://openapi'' ''OpenAPI specification'' ''Server OpenAPI JSON document'' ''application/json'',
      resource_entry ''i3x://mcp-overrides'' ''MCP overrides'' ''Runtime MCP tool, prompt, and feature overrides'' ''application/json'']
     @ map (\<lambda>(uri, name). resource_entry uri name
           ''Top-level i3X model element. Read this resource for a summary and navigation hints.'' ''application/json'')
         (filter (\<lambda>(uri, name). case se_model env of Some m \<Rightarrow> known m (drop (length MCP_ROOT_RESOURCE_PREFIX) uri) | None \<Rightarrow> False) (roots_catalog env))
     @ map (\<lambda>(name, description). resource_entry (''i3x://prompts/'' @ name) (''Prompt: '' @ name) description ''application/json'')
         (list_prompt_metadata (se_prompts env))"

definition edge_count :: "(string, 'a list) dict \<Rightarrow> pyval" where
  "edge_count edges_by_id = PInt (int (sum_list (map length (dict_values edges_by_id))))"

definition kind_counts :: "BuildResult \<Rightarrow> (string, nat) dict" where
  "kind_counts m = foldl (\<lambda>d n. count_in (kind_name (mn_kind n)) d) [] (dict_values (br_nodes_by_id m))"

definition root_summary :: "BuildResult \<Rightarrow> string \<Rightarrow> pyval option" where
  "root_summary m i =
     map_option (\<lambda>n. PDict [(''uri'', PStr (MCP_ROOT_RESOURCE_PREFIX @ i)), (''elementId'', PStr i), (''displayName'', PStr (mn_name n)),
       (''kind'', PStr (kind_name (mn_kind n))), (''typeElementId'', PStr (type_or_kind n)), (''namespaceUri'', namespace_entry m i)]) (node_of m i)"

definition overview_hint :: string where
  "overview_hint = ''Start from a listed root or read its i3x://roots/{elementId} resource for a summary. ''
     @ ''Use getChildren or queryRelatedObjectsV1 to navigate relevant branches. ''
     @ ''Use searchModelElements or findElementsByName when the target is unknown. ''
     @ ''Read values only after discovering the exact property elementId; value/history maxDepth ''
     @ ''traverses composition, not hierarchy.''"

definition model_overview :: "server_env \<Rightarrow> pyval" where
  "model_overview env =
     (case se_model env of
        None \<Rightarrow> PDict [(''modelAvailable'', PBool False), (''message'', PStr ''The i3X model has not been built or loaded yet.''),
          (''navigation'', PStr (''Use getObjectsV1(root=true) to discover model roots, then queryRelatedObjectsV1 or '' @ ''getChildren to navigate the model.''))]
      | Some m \<Rightarrow>
          let roots = List.map_filter (root_summary m) (br_root_ids m)
          in PDict [(''modelAvailable'', PBool True), (''revision'', PStr (se_revision env)), (''buildCompletedAtUtc'', se_build_completed env),
            (''summary'', PDict [(''totalElements'', PInt (int (length (br_nodes_by_id m)))), (''rootCount'', PInt (int (length roots))),
               (''elementsByKind'', PDict (map (\<lambda>(k, c). (k, PInt (int c))) (sort_key fst (kind_counts m)))),
               (''relationshipEdges'', PDict [(''hierarchy'', edge_count (br_hierarchy_children_by_id m)),
                  (''composition'', edge_count (br_composition_children_by_id m)), (''graph'', edge_count (br_graph_related_by_id m))])]),
            (''roots'', PList roots), (''navigation'', PStr overview_hint)])"

definition unknown_resource :: "string \<Rightarrow> exn" where
  "unknown_resource uri = HTTPException 404 (''Unknown resource '' @ uri)"

definition relation_count :: "(string, 'a list) dict \<Rightarrow> string \<Rightarrow> pyval" where
  "relation_count by_id i = PInt (int (length (dict_get_def by_id i [])))"

definition root_content :: "server_env \<Rightarrow> string \<Rightarrow> pyval result" where
  "root_content env uri =
     (let i = drop (length MCP_ROOT_RESOURCE_PREFIX) uri
      in case se_model env of
           None \<Rightarrow> Inl (unknown_resource uri)
         | Some m \<Rightarrow>
             (case (if i = [] \<or> i \<notin> set (br_root_ids m) then None else node_of m i) of
                None \<Rightarrow> Inl (unknown_resource uri)
              | Some n \<Rightarrow> Inr (PDict
                  [(''elementId'', PStr i), (''displayName'', PStr (mn_name n)), (''kind'', PStr (kind_name (mn_kind n))),
                   (''semanticRole'', PStr (role_name (dict_get_def (br_semantic_role_by_id m) i (mn_semantic_role n)))),
                   (''typeElementId'', PStr (type_or_kind n)), (''namespaceUri'', namespace_entry m i),
                   (''relationshipCounts'', PDict [(''hierarchyChildren'', relation_count (br_hierarchy_children_by_id m) i),
                      (''compositionChildren'', relation_count (br_composition_children_by_id m) i),
                      (''graphRelations'', relation_count (br_graph_related_by_id m) i)]),
                   (''navigation'', PStr (''Use getChildren or queryRelatedObjectsV1 with this elementId to explore connected elements. ''
                      @ ''For values, discover exact property elementIds first; hierarchy traversal does not imply '' @ ''value/history traversal.''))])))"

definition resource_content :: "string \<Rightarrow> string \<Rightarrow> string \<Rightarrow> json_object" where
  "resource_content uri mime_type t = [(''uri'', PStr uri), (''mimeType'', PStr mime_type), (''text'', PStr t)]"

definition prompt_dict :: "PromptDefinition \<Rightarrow> json_object" where
  "prompt_dict p =
     [(''name'', PStr (pd_name p)), (''description'', PStr (pd_description p)), (''inputs'', PList (map PStr (pd_inputs p))),
      (''template'', PStr (pd_template p))]"

definition read_resource_content :: "server_env \<Rightarrow> string \<Rightarrow> json_object result" where
  "read_resource_content env uri =
     (if uri = MCP_MODEL_OVERVIEW_URI then Inr (resource_content uri ''application/json'' (se_json_dumps env (model_overview env)))
      else if startswith uri MCP_ROOT_RESOURCE_PREFIX
      then rbind (root_content env uri) (\<lambda>summary. Inr (resource_content uri ''application/json'' (se_json_dumps env summary)))
      else if uri = MCP_MAPPING_GUIDE_URI then Inr (resource_content uri ''text/markdown'' (se_mapping_guide env))
      else if uri = MCP_IDENTITY_GUIDE_URI then Inr (resource_content uri ''text/markdown'' (se_identity_guide env))
      else if uri = ''i3x://openapi'' then Inr (resource_content uri ''application/json'' (se_json_dumps env (se_openapi env)))
      else if uri = ''i3x://mcp-overrides''
      then (case se_overrides_text env of None \<Rightarrow> Inl (unknown_resource uri) | Some t \<Rightarrow> Inr (resource_content uri ''application/json'' t))
      else if startswith uri ''i3x://prompts/''
      then rbind (get_prompt (se_prompts env) (drop (length ''i3x://prompts/'') uri))
        (\<lambda>p. Inr (resource_content uri ''application/json'' (se_json_dumps env (PDict (prompt_dict p)))))
      else Inl (unknown_resource uri))"

section \<open>Requests\<close>

definition tool_catalog :: "server_env \<Rightarrow> pyval list" where
  "tool_catalog env =
     map (\<lambda>t. PDict [(''name'', PStr (mt_name (te_tool t))), (''description'', PStr (te_description t)), (''inputSchema'', te_input_schema t),
       (''outputSchema'', te_output_schema t), (''annotations'', te_annotations t)]) (dict_values (se_tools env))"

definition invalid_params :: "pyval \<Rightarrow> json_object" where
  "invalid_params message_id = jsonrpc_error message_id (-32602) ''Invalid params'' None"

definition initialize_response :: "server_env \<Rightarrow> pyval \<Rightarrow> json_object option \<Rightarrow> json_object" where
  "initialize_response env message_id params =
     (case Option.bind params (\<lambda>d. dict_get d ''protocolVersion'') of
        Some (PStr requested) \<Rightarrow>
          let negotiated = (if requested \<in> set MCP_LEGACY_PROTOCOL_VERSIONS then requested else MCP_LEGACY_PROTOCOL_VERSION);
              no_changes = PDict [(''listChanged'', PBool False)]
          in jsonrpc_response message_id
               [(''protocolVersion'', PStr negotiated), (''serverInfo'', PDict [(''name'', PStr ''i3x''), (''version'', PStr (se_version env))]),
                (''capabilities'', PDict [(''tools'', no_changes), (''prompts'', no_changes), (''resources'', no_changes)]),
                (''instructions'', PStr (se_instructions env))]
      | _ \<Rightarrow> jsonrpc_error message_id (-32602) ''protocolVersion must be a string'' None)"

definition discover_response :: "server_env \<Rightarrow> pyval \<Rightarrow> json_object" where
  "discover_response env message_id =
     jsonrpc_response message_id
       [(''supportedVersions'', PList (map PStr MCP_SUPPORTED_PROTOCOL_VERSIONS)),
        (''capabilities'', PDict [(''tools'', PDict []), (''prompts'', PDict []), (''resources'', PDict [])]),
        (''_meta'', PDict [(''io.modelcontextprotocol/serverInfo'', PDict [(''name'', PStr ''i3x''), (''version'', PStr (se_version env))])]),
        (''instructions'', PStr (se_instructions env)), (''ttlMs'', PInt 3600000), (''cacheScope'', PStr ''public'')]"

definition tools_call :: "server_env \<Rightarrow> pyval \<Rightarrow> json_object \<Rightarrow> json_object result" where
  "tools_call env message_id params =
     (case (dict_get params ''name'', dict_get_def params ''arguments'' (PDict [])) of
        (Some (PStr tool_name), PDict args) \<Rightarrow>
          (case dict_get (se_tools env) tool_name of
             None \<Rightarrow> Inr (jsonrpc_error message_id (-32602) (''Unknown tool '' @ tool_name) None)
           | Some t \<Rightarrow>
               (case se_schema_error env (te_input_schema t) args of
                  Some message \<Rightarrow> Inr (jsonrpc_error message_id (-32602) (''Invalid tool arguments: '' @ message) None)
                | None \<Rightarrow>
                    (case se_call_tool env (te_tool t) args of
                       Inr (status, body) \<Rightarrow> Inr (jsonrpc_response message_id (tool_result env body (int status) (Some tool_name)))
                     | Inl (HTTPException status message) \<Rightarrow>
                         if status \<in> {400, 422}
                         then Inr (jsonrpc_error message_id (-32602) ''Invalid tool arguments'' (Some (error_detail env status message)))
                         else Inr (jsonrpc_response message_id (tool_result env (error_detail env status message) status None))
                     | Inl e \<Rightarrow> Inl e)))
      | _ \<Rightarrow> Inr (invalid_params message_id))"

definition prompts_list :: "server_env \<Rightarrow> pyval list" where
  "prompts_list env =
     map (\<lambda>(name, description). PDict ([(''name'', PStr name), (''description'', PStr description)]
         @ (case Option.bind (se_prompts env) (\<lambda>r. dict_get r name) of
              None \<Rightarrow> []
            | Some p \<Rightarrow> [(''arguments'', PList (map (\<lambda>i. PDict [(''name'', PStr i), (''required'', PBool True)]) (pd_inputs p)))])))
       (list_prompt_metadata (se_prompts env))"

definition prompt_reply :: "server_env \<Rightarrow> pyval \<Rightarrow> rendered_prompt result \<Rightarrow> (rendered_prompt \<Rightarrow> json_object) \<Rightarrow> json_object result" where
  "prompt_reply env message_id r reply =
     (case r of
        Inr p \<Rightarrow> Inr (jsonrpc_response message_id (reply p))
      | Inl (HTTPException status message) \<Rightarrow>
          Inr (jsonrpc_error message_id (-32602) ''Invalid prompt request'' (Some (error_detail env status message)))
      | Inl e \<Rightarrow> Inl e)"

definition prompts_get :: "server_env \<Rightarrow> pyval \<Rightarrow> json_object \<Rightarrow> json_object result" where
  "prompts_get env message_id params =
     (case (dict_get params ''name'', dict_get_def params ''arguments'' (PDict [])) of
        (Some (PStr name), PDict args) \<Rightarrow>
          if name = [] \<or> \<not> list_all (\<lambda>v. is_text v) (dict_values args) then Inr (invalid_params message_id)
          else prompt_reply env message_id (execute_prompt (se_str_of env) (se_prompts env) name args)
            (\<lambda>p. [(''description'', PStr (pd_description (rp_prompt p))),
                  (''messages'', PList [PDict [(''role'', PStr ''user''), (''content'', PDict [(''type'', PStr ''text''), (''text'', PStr (rp_rendered p))])]])])
      | _ \<Rightarrow> Inr (invalid_params message_id))"

definition prompts_execute :: "server_env \<Rightarrow> pyval \<Rightarrow> json_object \<Rightarrow> json_object result" where
  "prompts_execute env message_id params =
     (case (dict_get params ''name'', dict_get_def params ''parameters'' (PDict [])) of
        (Some (PStr name), PDict args) \<Rightarrow>
          prompt_reply env message_id (execute_prompt (se_str_of env) (se_prompts env) name args)
            (\<lambda>p. prompt_dict (rp_prompt p) @ [(''rendered'', PStr (rp_rendered p))])
      | _ \<Rightarrow> Inr (invalid_params message_id))"

definition resources_read :: "server_env \<Rightarrow> pyval \<Rightarrow> json_object \<Rightarrow> json_object result" where
  "resources_read env message_id params =
     (case dict_get params ''uri'' of
        Some (PStr uri) \<Rightarrow>
          if uri = [] then Inr (invalid_params message_id)
          else (case read_resource_content env uri of
              Inr content \<Rightarrow> Inr (jsonrpc_response message_id [(''contents'', PList [PDict content])])
            | Inl (HTTPException status message) \<Rightarrow>
                Inr (jsonrpc_error message_id (-32002) ''Resource not found'' (Some (error_detail env status message)))
            | Inl e \<Rightarrow> Inl e)
      | _ \<Rightarrow> Inr (invalid_params message_id))"

text \<open>\<open>_handle_jsonrpc\<close>; the result is \<open>None\<close> for a notification and an exception when one escapes.\<close>

definition valid_id :: "pyval \<Rightarrow> bool" where
  "valid_id v = (case v of PStr _ \<Rightarrow> True | PInt _ \<Rightarrow> True | _ \<Rightarrow> False)"

definition with_params :: "pyval \<Rightarrow> json_object option \<Rightarrow> (json_object \<Rightarrow> json_object result) \<Rightarrow> json_object result" where
  "with_params message_id params f = (case params of None \<Rightarrow> Inr (invalid_params message_id) | Some d \<Rightarrow> f d)"

definition dispatch_method :: "server_env \<Rightarrow> string \<Rightarrow> pyval \<Rightarrow> json_object option \<Rightarrow> json_object result" where
  "dispatch_method env method_name message_id params =
     (if method_name = ''initialize'' then Inr (initialize_response env message_id params)
      else if method_name = ''server/discover'' then Inr (discover_response env message_id)
      else if method_name = ''resources/templates/list'' then Inr (jsonrpc_response message_id [(''resourceTemplates'', PList [])])
      else if method_name = ''ping'' then Inr (jsonrpc_response message_id [])
      else if method_name = ''tools/list'' then Inr (jsonrpc_response message_id [(''tools'', PList (tool_catalog env))])
      else if method_name = ''tools/call'' then with_params message_id params (tools_call env message_id)
      else if method_name = ''prompts/list'' then Inr (jsonrpc_response message_id [(''prompts'', PList (prompts_list env))])
      else if method_name = ''prompts/get'' then with_params message_id params (prompts_get env message_id)
      else if method_name = ''prompts/execute'' then with_params message_id params (prompts_execute env message_id)
      else if method_name = ''resources/list'' then Inr (jsonrpc_response message_id [(''resources'', PList (resource_catalog env))])
      else if method_name = ''resources/read'' then with_params message_id params (resources_read env message_id)
      else Inr (jsonrpc_error message_id (-32601) (''Method not found: '' @ method_name) None))"

definition handle_jsonrpc :: "server_env \<Rightarrow> json_object \<Rightarrow> json_object option result" where
  "handle_jsonrpc env message =
     (let message_id = dict_get_def message ''id'' PNone
      in if dict_get message ''id'' \<noteq> None \<and> \<not> valid_id message_id
         then Inr (Some (jsonrpc_error PNone (-32600) ''Invalid Request'' None))
         else if dict_get message ''jsonrpc'' \<noteq> Some (PStr ''2.0'')
         then Inr (Some (jsonrpc_error message_id (-32600) ''Invalid Request'' None))
         else case dict_get message ''method'' of
           Some (PStr method_name) \<Rightarrow>
             if message_id = PNone then Inr None
             else (case dict_get_def message ''params'' PNone of
                 PNone \<Rightarrow> rbind (dispatch_method env method_name message_id None) (\<lambda>r. Inr (Some r))
               | PDict d \<Rightarrow> rbind (dispatch_method env method_name message_id (Some d)) (\<lambda>r. Inr (Some r))
               | _ \<Rightarrow> Inr (Some (invalid_params message_id)))
         | _ \<Rightarrow> Inr (Some (jsonrpc_error message_id (-32600) ''Invalid Request'' None)))"

section \<open>Transport\<close>

text \<open>
  Sessions by their id, and the queues of the event streams: a notification, or \<open>None\<close> for the end. A stream
  is known by a number; the id of a session is a fresh UUID, \<open>se_session_id\<close> of a counter.
\<close>

record transport_session =
  ts_protocol_version :: string
  ts_streams :: "nat list"

record transport =
  tr_sessions :: "(string, transport_session) dict"
  tr_queues :: "(nat, json_object option list) dict"
  tr_next_stream :: nat
  tr_next_session :: nat

definition new_transport :: transport where
  "new_transport = \<lparr>tr_sessions = [], tr_queues = [], tr_next_stream = 0, tr_next_session = 0\<rparr>"

definition put_nowait :: "json_object option \<Rightarrow> nat \<Rightarrow> (nat, json_object option list) dict \<Rightarrow> (nat, json_object option list) dict" where
  "put_nowait message stream queues = dict_set stream (dict_get_def queues stream [] @ [message]) queues"

definition notification :: "string \<Rightarrow> json_object option \<Rightarrow> json_object" where
  "notification method_name params =
     [(''jsonrpc'', PStr ''2.0''), (''method'', PStr method_name)] @ (case params of None \<Rightarrow> [] | Some d \<Rightarrow> [(''params'', PDict d)])"

definition publish_mcp_notification :: "string \<Rightarrow> string \<Rightarrow> json_object option \<Rightarrow> transport \<Rightarrow> nat result \<times> transport" where
  "publish_mcp_notification session_id method_name params tr =
     (if \<not> startswith method_name ''notifications/'' \<or> length method_name = length ''notifications/''
      then (Inl (ValueError ''MCP server notifications must use a notifications/ method''), tr)
      else case dict_get (tr_sessions tr) session_id of
        None \<Rightarrow> (Inr 0, tr)
      | Some session \<Rightarrow>
          (Inr (length (ts_streams session)),
           tr\<lparr>tr_queues := fold (put_nowait (Some (notification method_name params))) (ts_streams session) (tr_queues tr)\<rparr>))"

definition shutdown_mcp_transport :: "transport \<Rightarrow> transport" where
  "shutdown_mcp_transport tr =
     tr\<lparr>tr_sessions := [],
        tr_queues := fold (\<lambda>session. fold (put_nowait None) (ts_streams session)) (dict_values (tr_sessions tr)) (tr_queues tr)\<rparr>"

datatype http_reply =
    JsonReply nat json_object "string option"
  | EmptyReply nat "string option"
  | StreamReply nat string

definition origin_refused :: http_reply where
  "origin_refused = JsonReply 403 (jsonrpc_error PNone (-32600) ''Origin not allowed'' None) None"

definition accepts_events :: "string \<Rightarrow> bool" where
  "accepts_events accept =
     (''text/event-stream'' \<in> set (map (\<lambda>item. py_lower (py_strip (fst (partition_at CHR '';'' item)))) (split_on CHR '','' accept)))"

definition session_required :: http_reply where
  "session_required = JsonReply 400 (jsonrpc_error PNone (-32600) ''Mcp-Session-Id required'' None) None"

definition unknown_session :: http_reply where
  "unknown_session = JsonReply 404 (jsonrpc_error PNone (-32600) ''Unknown MCP session'' None) None"

definition mcp_get :: "server_env \<Rightarrow> http_request \<Rightarrow> transport \<Rightarrow> http_reply \<times> transport" where
  "mcp_get env rq tr =
     (if \<not> origin_is_allowed env rq then (origin_refused, tr)
      else if \<not> accepts_events (rq_accept rq)
      then (JsonReply 406 (jsonrpc_error PNone (-32600) ''Accept: text/event-stream required'' None) None, tr)
      else case rq_session_id rq of
        None \<Rightarrow> (session_required, tr)
      | Some i \<Rightarrow>
          if i = [] then (session_required, tr)
          else (case dict_get (tr_sessions tr) i of
              None \<Rightarrow> (unknown_session, tr)
            | Some session \<Rightarrow>
                let stream = tr_next_stream tr
                in (StreamReply stream i,
                    tr\<lparr>tr_sessions := dict_set i (session\<lparr>ts_streams := set_add stream (ts_streams session)\<rparr>) (tr_sessions tr),
                       tr_queues := dict_set stream [] (tr_queues tr), tr_next_stream := stream + 1\<rparr>)))"

text \<open>
  A turn of \<open>event_stream\<close>: the next message of the queue, or after the timeout a test of the connection. When
  it ends the stream is discarded from its session.
\<close>

datatype stream_output = Event json_object | Keepalive | Ended

definition discard_stream :: "nat \<Rightarrow> transport \<Rightarrow> transport" where
  "discard_stream stream tr =
     tr\<lparr>tr_sessions := map (\<lambda>(i, s). (i, s\<lparr>ts_streams := set_discard stream (ts_streams s)\<rparr>)) (tr_sessions tr),
        tr_queues := dict_del stream (tr_queues tr)\<rparr>"

definition event_stream_turn :: "nat \<Rightarrow> bool \<Rightarrow> transport \<Rightarrow> stream_output \<times> transport" where
  "event_stream_turn stream disconnected tr =
     (case dict_get_def (tr_queues tr) stream [] of
        Some message # rest \<Rightarrow> (Event message, tr\<lparr>tr_queues := dict_set stream rest (tr_queues tr)\<rparr>)
      | None # rest \<Rightarrow> (Ended, discard_stream stream tr)
      | [] \<Rightarrow> if disconnected then (Ended, discard_stream stream tr) else (Keepalive, tr))"

definition mcp_delete :: "server_env \<Rightarrow> http_request \<Rightarrow> transport \<Rightarrow> http_reply \<times> transport" where
  "mcp_delete env rq tr =
     (if \<not> origin_is_allowed env rq then (origin_refused, tr)
      else case rq_session_id rq of
        None \<Rightarrow> (session_required, tr)
      | Some i \<Rightarrow>
          if i = [] then (session_required, tr)
          else (case dict_get (tr_sessions tr) i of
              None \<Rightarrow> (unknown_session, tr)
            | Some session \<Rightarrow>
                (EmptyReply 200 None,
                 tr\<lparr>tr_sessions := dict_del i (tr_sessions tr), tr_queues := fold (put_nowait None) (ts_streams session) (tr_queues tr)\<rparr>)))"

definition modern_request :: "http_request \<Rightarrow> json_object \<Rightarrow> bool" where
  "modern_request rq message \<longleftrightarrow>
     rq_protocol_version rq = Some MCP_PROTOCOL_VERSION
     \<or> dict_get (metadata_entry message) MCP_META_PROTOCOL_VERSION \<noteq> None
     \<or> dict_get message ''method'' = Some (PStr ''server/discover'')
     \<or> (case rq_protocol_version rq of None \<Rightarrow> False | Some v \<Rightarrow> v \<notin> set MCP_LEGACY_PROTOCOL_VERSIONS)"

text \<open>The checks of a request before it is handled: an answer, or the session id it may go on with.\<close>

definition check_modern :: "server_env \<Rightarrow> http_request \<Rightarrow> json_object \<Rightarrow> http_reply option" where
  "check_modern env rq message =
     (case modern_request_error env rq message of
        Some error \<Rightarrow> Some (JsonReply 400 error None)
      | None \<Rightarrow>
          if dict_get message ''method'' = Some (PStr ''initialize'')
          then Some (JsonReply 400 (jsonrpc_error (dict_get_def message ''id'' PNone) (-32601) ''Method not found: initialize'' None) None)
          else None)"

definition check_legacy :: "http_request \<Rightarrow> transport \<Rightarrow> http_reply option" where
  "check_legacy rq tr =
     (if (case rq_protocol_version rq of None \<Rightarrow> False | Some v \<Rightarrow> v \<notin> set MCP_LEGACY_PROTOCOL_VERSIONS)
      then Some (JsonReply 400 (jsonrpc_error PNone (-32600) ''Unsupported protocol version'' None) None)
      else case rq_session_id rq of
        None \<Rightarrow> None
      | Some i \<Rightarrow>
          (case dict_get (tr_sessions tr) i of
             None \<Rightarrow> Some unknown_session
           | Some session \<Rightarrow>
               if (case rq_protocol_version rq of None \<Rightarrow> False | Some v \<Rightarrow> v \<noteq> ts_protocol_version session)
               then Some (JsonReply 400 (jsonrpc_error PNone (-32600) ''MCP protocol version does not match session'' None) None)
               else None))"

text \<open>What follows the handling, which may take long: the transport is the one at that time.\<close>

definition rpc_response :: "server_env \<Rightarrow> json_object \<Rightarrow> json_object option" where
  "rpc_response env message =
     (case handle_jsonrpc env message of
        Inr r \<Rightarrow> r
      | Inl e \<Rightarrow>
          (case dict_get message ''id'' of
             Some message_id \<Rightarrow> Some (jsonrpc_error message_id (-32603) ''Internal error'' None)
           | None \<Rightarrow> None))"

definition has_result :: "json_object option \<Rightarrow> bool" where
  "has_result r = (case r of None \<Rightarrow> False | Some d \<Rightarrow> dict_get d ''result'' \<noteq> None)"

definition method_text :: "json_object \<Rightarrow> string" where
  "method_text message = (case dict_get message ''method'' of Some (PStr s) \<Rightarrow> s | _ \<Rightarrow> [])"

definition negotiated_version :: "json_object \<Rightarrow> string" where
  "negotiated_version r =
     (case dict_get r ''result'' of
        Some (PDict result) \<Rightarrow> (case dict_get result ''protocolVersion'' of Some (PStr v) \<Rightarrow> v | _ \<Rightarrow> MCP_LEGACY_PROTOCOL_VERSION)
      | _ \<Rightarrow> MCP_LEGACY_PROTOCOL_VERSION)"

definition finish_post ::
  "server_env \<Rightarrow> http_request \<Rightarrow> bool \<Rightarrow> json_object \<Rightarrow> json_object option \<Rightarrow> transport \<Rightarrow> http_reply \<times> transport" where
  "finish_post env rq modern message response tr =
     (let response2 = (if modern \<and> has_result response
            then map_option (\<lambda>r. add_modern_response_metadata r (method_text message)) response else response);
          session_id = (if modern then None else rq_session_id rq);
          reply = (\<lambda>header. case response2 of None \<Rightarrow> EmptyReply 202 header | Some r \<Rightarrow> JsonReply 200 r header)
      in if \<not> modern \<and> method_text message = ''initialize'' \<and> has_result response2
         then let new_id = se_session_id env (tr_next_session tr)
              in (reply (Some new_id),
                  tr\<lparr>tr_sessions := dict_set new_id \<lparr>ts_protocol_version = negotiated_version (the response2), ts_streams = []\<rparr> (tr_sessions tr),
                     tr_next_session := tr_next_session tr + 1\<rparr>)
         else if session_id \<noteq> None \<and> method_text message = ''notifications/initialized'' then (reply session_id, tr)
         else (reply None, tr))"

definition mcp_post :: "server_env \<Rightarrow> http_request \<Rightarrow> transport \<Rightarrow> http_reply \<times> transport" where
  "mcp_post env rq tr =
     (if \<not> origin_is_allowed env rq then (origin_refused, tr)
      else case rq_body rq of
        None \<Rightarrow> (JsonReply 200 (jsonrpc_error PNone (-32700) ''Parse error'' None) None, tr)
      | Some (PDict message) \<Rightarrow>
          let modern = modern_request rq message
          in (case (if modern then check_modern env rq message else check_legacy rq tr) of
                Some reply \<Rightarrow> (reply, tr)
              | None \<Rightarrow> finish_post env rq modern message (rpc_response env message) tr)
      | Some _ \<Rightarrow> (JsonReply 200 (jsonrpc_error PNone (-32600) ''Invalid Request'' None) None, tr))"

end
