(* ===== verification/McpStreams.thy ===== *)
theory McpStreams
  imports McpServer
begin

text \<open>
  The event streams of the MCP transport over any sequence of requests, notifications and turns of the
  streams, with the specification of what a stream delivers: exactly the notifications that were published to
  its session from its opening until the session was removed, in their order.
\<close>

section \<open>Runs\<close>

text \<open>
  What may happen to the transport. \<open>Handled\<close> is the end of a POST whose handling was interleaved with other
  operations: the transport is another one than at the checks, and the response may be any.
\<close>

datatype transport_op =
    Get http_request
  | Delete http_request
  | Post http_request
  | Handled http_request bool json_object "json_object option"
  | Publish string string "json_object option"
  | Shutdown
  | Turn nat bool

datatype outcome = Replied http_reply | Sent "nat result" | Stopped | Produced stream_output

definition perform :: "server_env \<Rightarrow> transport_op \<Rightarrow> transport \<Rightarrow> outcome \<times> transport" where
  "perform env a tr =
     (case a of
        Get rq \<Rightarrow> map_prod Replied id (mcp_get env rq tr)
      | Delete rq \<Rightarrow> map_prod Replied id (mcp_delete env rq tr)
      | Post rq \<Rightarrow> map_prod Replied id (mcp_post env rq tr)
      | Handled rq modern message response \<Rightarrow> map_prod Replied id (finish_post env rq modern message response tr)
      | Publish i m params \<Rightarrow> map_prod Sent id (publish_mcp_notification i m params tr)
      | Shutdown \<Rightarrow> (Stopped, shutdown_mcp_transport tr)
      | Turn s disconnected \<Rightarrow> map_prod Produced id (event_stream_turn s disconnected tr))"

type_synonym history = "(transport_op \<times> outcome) list"

inductive transport_run :: "server_env \<Rightarrow> history \<Rightarrow> transport \<Rightarrow> bool" for env where
  start: "transport_run env [] new_transport"
| next_op: "transport_run env h tr \<Longrightarrow> transport_run env (h @ [(a, fst (perform env a tr))]) (snd (perform env a tr))"

section \<open>Specification of a stream\<close>

text \<open>A stream listens to a session from its opening on; it is closed with the session and is gone when it has ended.\<close>

datatype phase = Unopened | Listening string | Closed | Gone

fun follow :: "nat \<Rightarrow> phase \<times> json_object list \<Rightarrow> transport_op \<times> outcome \<Rightarrow> phase \<times> json_object list" where
  "follow s (p, ms) (Get rq, Replied (StreamReply t i)) = (if t = s then Listening i else p, ms)"
| "follow s (p, ms) (Publish i m params, Sent (Inr n)) = (p, if p = Listening i then ms @ [notification m params] else ms)"
| "follow s (p, ms) (Delete rq, Replied (EmptyReply status header)) =
     (case rq_session_id rq of Some i \<Rightarrow> if p = Listening i then Closed else p | None \<Rightarrow> p, ms)"
| "follow s (p, ms) (Shutdown, Stopped) = (case p of Listening i \<Rightarrow> Closed | _ \<Rightarrow> p, ms)"
| "follow s (p, ms) (Turn t disconnected, Produced Ended) = (if t = s then Gone else p, ms)"
| "follow s (p, ms) _ = (p, ms)"

definition stream_phase :: "nat \<Rightarrow> history \<Rightarrow> phase" where
  "stream_phase s h = fst (foldl (follow s) (Unopened, []) h)"

definition due :: "nat \<Rightarrow> history \<Rightarrow> json_object list" where
  "due s h = snd (foldl (follow s) (Unopened, []) h)"

text \<open>What a stream has put out, and what waits in its queue.\<close>

definition emitted :: "nat \<Rightarrow> history \<Rightarrow> json_object list" where
  "emitted s h = List.map_filter
     (\<lambda>x. case x of (Turn t disconnected, Produced (Event m)) \<Rightarrow> if t = s then Some m else None | _ \<Rightarrow> None) h"

definition waiting :: "nat \<Rightarrow> transport \<Rightarrow> json_object list" where
  "waiting s tr = List.map_filter id (dict_get_def (tr_queues tr) s [])"

section \<open>Invariant\<close>

definition listens :: "transport \<Rightarrow> string \<Rightarrow> nat \<Rightarrow> bool" where
  "listens tr i s \<longleftrightarrow> (\<exists>session. dict_get (tr_sessions tr) i = Some session \<and> s \<in> set (ts_streams session))"

definition transport_inv :: "server_env \<Rightarrow> transport \<Rightarrow> bool" where
  "transport_inv env tr \<longleftrightarrow> dict_ok (tr_sessions tr)
     \<and> (\<forall>i session. dict_get (tr_sessions tr) i = Some session \<longrightarrow> distinct (ts_streams session)
          \<and> (\<forall>s \<in> set (ts_streams session). s < tr_next_stream tr) \<and> (\<exists>n < tr_next_session tr. i = se_session_id env n))"

fun queue_form :: "phase \<Rightarrow> json_object option list \<Rightarrow> json_object list \<Rightarrow> bool" where
  "queue_form (Listening i) q ms = (q = map Some ms)"
| "queue_form Closed q ms = (q = map Some ms @ [None])"
| "queue_form p q ms = (q = [] \<and> ms = [])"

definition stream_inv :: "nat \<Rightarrow> history \<Rightarrow> transport \<Rightarrow> bool" where
  "stream_inv s h tr \<longleftrightarrow> (\<forall>i. listens tr i s \<longleftrightarrow> stream_phase s h = Listening i)
     \<and> (stream_phase s h \<in> {Unopened, Gone} \<or> s < tr_next_stream tr)
     \<and> (\<exists>ms. due s h = emitted s h @ ms \<and> queue_form (stream_phase s h) (dict_get_def (tr_queues tr) s []) ms)"

text \<open>One step of the specification.\<close>

lemma follow_snoc: "stream_phase s (h @ [e]) = fst (follow s (stream_phase s h, due s h) e)"
  "due s (h @ [e]) = snd (follow s (stream_phase s h, due s h) e)"
  by (simp_all add: stream_phase_def due_def)

lemma emitted_snoc [simp]: "emitted s (h @ [e]) = emitted s h @ emitted s [e]"
  by (simp add: emitted_def map_filter_def)

lemma emitted_other [simp]:
  "emitted s [(Get rq, x)] = []" "emitted s [(Delete rq, x)] = []" "emitted s [(Post rq, x)] = []"
  "emitted s [(Handled rq b m r, x)] = []" "emitted s [(Publish i n params, x)] = []" "emitted s [(Shutdown, x)] = []"
  by (simp_all add: emitted_def map_filter_def)

text \<open>The queues after a message has been put into several.\<close>

lemma put_queue [simp]:
  "dict_get_def (put_nowait m t qs) s [] = dict_get_def qs s [] @ (if t = s then [m] else [])"
  by (simp add: put_nowait_def)

lemma put_many:
  "dict_get_def (fold (put_nowait m) ss qs) s [] = dict_get_def qs s [] @ replicate (count_list ss s) m"
proof (induction ss arbitrary: qs)
  case (Cons t ss)
  then show ?case by (simp add: replicate_app_Cons_same)
qed simp

lemma put_all:
  "dict_get_def (fold (\<lambda>session. fold (put_nowait m) (ts_streams session)) sessions qs) s []
     = dict_get_def qs s [] @ replicate (sum_list (map (\<lambda>session. count_list (ts_streams session) s) sessions)) m"
  by (induction sessions arbitrary: qs) (simp_all add: put_many replicate_add)

lemma count_distinct: "distinct xs \<Longrightarrow> count_list xs x = (if x \<in> set xs then 1 else 0)"
  by (induction xs) auto

section \<open>The invariant is kept\<close>

lemma listens_only_sessions [simp]:
  "listens (tr\<lparr>tr_queues := qs\<rparr>) j s \<longleftrightarrow> listens tr j s" "listens (tr\<lparr>tr_next_stream := n\<rparr>) j s \<longleftrightarrow> listens tr j s"
  "listens (tr\<lparr>tr_next_session := n\<rparr>) j s \<longleftrightarrow> listens tr j s"
  by (simp_all add: listens_def)

lemma listens_sessions [simp]:
  "listens (tr\<lparr>tr_sessions := dict_set i session (tr_sessions tr)\<rparr>) j s
     \<longleftrightarrow> (if j = i then s \<in> set (ts_streams session) else listens tr j s)"
  "listens (tr\<lparr>tr_sessions := dict_del i (tr_sessions tr)\<rparr>) j s \<longleftrightarrow> j \<noteq> i \<and> listens tr j s"
  "\<not> listens (tr\<lparr>tr_sessions := []\<rparr>) j s"
  by (auto simp: listens_def)

lemma map_of_values: "map_of (map (\<lambda>(i, x). (i, f x)) d) k = map_option f (map_of d k)"
  by (induction d) auto

lemma listens_discard [simp]: "listens (discard_stream t tr) j s \<longleftrightarrow> s \<noteq> t \<and> listens tr j s"
  by (auto simp: listens_def discard_stream_def map_of_values)

text \<open>An operation that the stream does not notice, and one that it does.\<close>

lemma stream_unaffected:
  assumes "stream_inv s h tr" "follow s (stream_phase s h, due s h) e = (stream_phase s h, due s h)" "emitted s [e] = []"
    "\<And>i. listens tr' i s = listens tr i s" "dict_get_def (tr_queues tr') s [] = dict_get_def (tr_queues tr) s []"
    "tr_next_stream tr \<le> tr_next_stream tr'"
  shows "stream_inv s (h @ [e]) tr'"
  using assms unfolding stream_inv_def by (auto simp: follow_snoc)

lemma stream_step:
  assumes "follow s (stream_phase s h, due s h) e = (p, ms)"
    "\<And>i. listens tr' i s \<longleftrightarrow> p = Listening i" "p \<in> {Unopened, Gone} \<or> s < tr_next_stream tr'"
    "ms = (emitted s h @ emitted s [e]) @ rest" "queue_form p (dict_get_def (tr_queues tr') s []) rest"
  shows "stream_inv s (h @ [e]) tr'"
  using assms unfolding stream_inv_def by (auto simp: follow_snoc)

lemma stream_invD:
  assumes "stream_inv s h tr"
  obtains rest where "\<forall>i. listens tr i s \<longleftrightarrow> stream_phase s h = Listening i"
    "stream_phase s h \<in> {Unopened, Gone} \<or> s < tr_next_stream tr" "due s h = emitted s h @ rest"
    "queue_form (stream_phase s h) (dict_get_def (tr_queues tr) s []) rest"
  using assms unfolding stream_inv_def by blast

text \<open>GET.\<close>

lemma get_cases:
  "(\<exists>status r header. mcp_get env rq tr = (JsonReply status r header, tr))
   \<or> (\<exists>i session. dict_get (tr_sessions tr) i = Some session
        \<and> mcp_get env rq tr = (StreamReply (tr_next_stream tr) i,
            tr\<lparr>tr_sessions := dict_set i (session\<lparr>ts_streams := set_add (tr_next_stream tr) (ts_streams session)\<rparr>) (tr_sessions tr),
               tr_queues := dict_set (tr_next_stream tr) [] (tr_queues tr), tr_next_stream := tr_next_stream tr + 1\<rparr>))"
  by (simp add: mcp_get_def origin_refused_def session_required_def unknown_session_def Let_def split: option.split)

lemma get_keeps_stream:
  assumes "stream_inv s h tr"
  shows "stream_inv s (h @ [(Get rq, Replied (fst (mcp_get env rq tr)))]) (snd (mcp_get env rq tr))"
  using get_cases [of env rq tr]
proof (elim disjE exE conjE)
  fix status r header assume "mcp_get env rq tr = (JsonReply status r header, tr)"
  then show ?thesis using assms by (auto intro: stream_unaffected)
next
  fix i session
  assume opened: "dict_get (tr_sessions tr) i = Some session"
    "mcp_get env rq tr = (StreamReply (tr_next_stream tr) i,
       tr\<lparr>tr_sessions := dict_set i (session\<lparr>ts_streams := set_add (tr_next_stream tr) (ts_streams session)\<rparr>) (tr_sessions tr),
          tr_queues := dict_set (tr_next_stream tr) [] (tr_queues tr), tr_next_stream := tr_next_stream tr + 1\<rparr>)"
  let ?t = "tr_next_stream tr"
  from assms obtain rest where inv: "\<forall>i. listens tr i s \<longleftrightarrow> stream_phase s h = Listening i"
    "stream_phase s h \<in> {Unopened, Gone} \<or> s < ?t" "due s h = emitted s h @ rest"
    "queue_form (stream_phase s h) (dict_get_def (tr_queues tr) s []) rest" by (rule stream_invD)
  show ?thesis
  proof (cases "s = ?t")
    case True
    then have p: "stream_phase s h = Unopened \<or> stream_phase s h = Gone" using inv(2) by auto
    have none: "\<not> listens tr j s" for j using inv(1) p by auto
    have "rest = []" using inv(4) p by auto
    moreover have "s \<notin> set (ts_streams session)" using none [of i] opened(1) by (simp add: listens_def)
    ultimately show ?thesis using inv(3) none unfolding opened(2) True
      by (intro stream_step [where p = "Listening i" and ms = "due ?t h" and rest = "[]"]) auto
  next
    case False
    have l: "listens tr i s \<longleftrightarrow> s \<in> set (ts_streams session)" using opened(1) by (simp add: listens_def)
    show ?thesis using assms opened False l by (intro stream_unaffected [OF assms]) auto
  qed
qed

text \<open>DELETE.\<close>

lemma delete_cases:
  "(\<exists>status r header. mcp_delete env rq tr = (JsonReply status r header, tr))
   \<or> (\<exists>i session. rq_session_id rq = Some i \<and> dict_get (tr_sessions tr) i = Some session
        \<and> mcp_delete env rq tr = (EmptyReply 200 None,
            tr\<lparr>tr_sessions := dict_del i (tr_sessions tr), tr_queues := fold (put_nowait None) (ts_streams session) (tr_queues tr)\<rparr>))"
  by (simp add: mcp_delete_def origin_refused_def session_required_def unknown_session_def split: option.split)

lemma session_streams_distinct:
  assumes "transport_inv env tr" "dict_get (tr_sessions tr) i = Some session"
  shows "distinct (ts_streams session)"
  using assms by (auto simp: transport_inv_def dest: map_of_SomeD)

lemma put_session:
  assumes "transport_inv env tr" "dict_get (tr_sessions tr) i = Some session"
  shows "dict_get_def (fold (put_nowait m) (ts_streams session) qs) s []
    = dict_get_def qs s [] @ (if listens tr i s then [m] else [])"
  using session_streams_distinct [OF assms] assms(2) by (simp add: put_many count_distinct listens_def)

lemma delete_keeps_stream:
  assumes "stream_inv s h tr" "transport_inv env tr"
  shows "stream_inv s (h @ [(Delete rq, Replied (fst (mcp_delete env rq tr)))]) (snd (mcp_delete env rq tr))"
  using delete_cases [of env rq tr]
proof (elim disjE exE conjE)
  fix status r header assume "mcp_delete env rq tr = (JsonReply status r header, tr)"
  then show ?thesis using assms by (auto intro: stream_unaffected)
next
  fix i and session :: transport_session
  let ?tr = "tr\<lparr>tr_sessions := dict_del i (tr_sessions tr), tr_queues := fold (put_nowait None) (ts_streams session) (tr_queues tr)\<rparr>"
  assume d: "rq_session_id rq = Some i" "dict_get (tr_sessions tr) i = Some session" "mcp_delete env rq tr = (EmptyReply 200 None, ?tr)"
  note put = put_session [OF assms(2) d(2), of None "tr_queues tr" s]
  from assms(1) obtain rest where inv: "\<forall>i. listens tr i s \<longleftrightarrow> stream_phase s h = Listening i"
    "stream_phase s h \<in> {Unopened, Gone} \<or> s < tr_next_stream tr" "due s h = emitted s h @ rest"
    "queue_form (stream_phase s h) (dict_get_def (tr_queues tr) s []) rest" by (rule stream_invD)
  show ?thesis
  proof (cases "stream_phase s h = Listening i")
    case True
    then have "dict_get_def (tr_queues ?tr) s [] = map Some rest @ [None]" using put inv(1,4) by simp
    moreover have "\<not> listens ?tr j s" for j using inv(1) True by auto
    moreover have "follow s (stream_phase s h, due s h) (Delete rq, Replied (EmptyReply 200 None)) = (Closed, due s h)"
      using True d(1) by simp
    moreover have "s < tr_next_stream tr" using inv(2) True by simp
    ultimately show ?thesis using inv(3) unfolding d(3)
      by (intro stream_step [where p = Closed and ms = "due s h" and rest = rest]) simp_all
  next
    case False
    then have n: "\<not> listens tr i s" using inv(1) by blast
    then have "dict_get_def (tr_queues ?tr) s [] = dict_get_def (tr_queues tr) s []" using put by simp
    moreover have "listens ?tr j s = listens tr j s" for j using n by auto
    moreover have "follow s (stream_phase s h, due s h) (Delete rq, Replied (EmptyReply 200 None)) = (stream_phase s h, due s h)"
      using False d(1) by simp
    ultimately show ?thesis unfolding d(3) by (intro stream_unaffected [OF assms(1)]) simp_all
  qed
qed

text \<open>A notification, and the end of all sessions.\<close>

lemma publish_cases:
  "(\<exists>e. publish_mcp_notification i m params tr = (Inl e, tr))
   \<or> (dict_get (tr_sessions tr) i = None \<and> publish_mcp_notification i m params tr = (Inr 0, tr))
   \<or> (\<exists>session. dict_get (tr_sessions tr) i = Some session \<and> publish_mcp_notification i m params tr
        = (Inr (length (ts_streams session)),
           tr\<lparr>tr_queues := fold (put_nowait (Some (notification m params))) (ts_streams session) (tr_queues tr)\<rparr>))"
  by (simp add: publish_mcp_notification_def split: option.split)

lemma publish_keeps_stream:
  assumes "stream_inv s h tr" "transport_inv env tr"
  shows "stream_inv s (h @ [(Publish i m params, Sent (fst (publish_mcp_notification i m params tr)))])
    (snd (publish_mcp_notification i m params tr))"
  using publish_cases [of i m params tr]
proof (elim disjE exE conjE)
  fix e assume "publish_mcp_notification i m params tr = (Inl e, tr)"
  then show ?thesis using assms by (auto intro: stream_unaffected)
next
  assume p: "dict_get (tr_sessions tr) i = None" "publish_mcp_notification i m params tr = (Inr 0, tr)"
  then have "stream_phase s h \<noteq> Listening i" using assms(1) by (metis listens_def option.distinct(1) stream_inv_def)
  then show ?thesis using assms(1) p(2) by (auto intro: stream_unaffected)
next
  fix session
  assume p: "dict_get (tr_sessions tr) i = Some session" "publish_mcp_notification i m params tr
    = (Inr (length (ts_streams session)),
       tr\<lparr>tr_queues := fold (put_nowait (Some (notification m params))) (ts_streams session) (tr_queues tr)\<rparr>)"
  note put = put_session [OF assms(2) p(1), of "Some (notification m params)" "tr_queues tr" s]
  from assms(1) obtain rest where inv: "\<forall>i. listens tr i s \<longleftrightarrow> stream_phase s h = Listening i"
    "stream_phase s h \<in> {Unopened, Gone} \<or> s < tr_next_stream tr" "due s h = emitted s h @ rest"
    "queue_form (stream_phase s h) (dict_get_def (tr_queues tr) s []) rest" by (rule stream_invD)
  show ?thesis
  proof (cases "stream_phase s h = Listening i")
    case True
    then show ?thesis using inv put unfolding p(2)
      by (intro stream_step [where p = "Listening i" and ms = "due s h @ [notification m params]" and rest = "rest @ [notification m params]"]) auto
  next
    case False
    then show ?thesis using put inv(1) unfolding p(2)
      by (intro stream_unaffected [OF assms(1)]) auto
  qed
qed

lemma values_count:
  assumes "dict_ok d" "\<And>i x. map_of d i = Some x \<Longrightarrow> f x = (if i = k then 1 else 0 :: nat)"
  shows "sum_list (map f (dict_values d)) = (if map_of d k = None then 0 else 1)"
  using assms
proof (induction d)
  case (Cons e d)
  obtain j y where e: "e = (j, y)" by force
  have j: "map_of d j = None" using Cons.prems(1) by (simp add: e map_of_eq_None_iff)
  have "map_of (e # d) i = Some x" if "map_of d i = Some x" for i x using that j by (auto simp: e)
  then have "sum_list (map f (dict_values d)) = (if map_of d k = None then 0 else 1)"
    using Cons.prems by (intro Cons.IH) simp_all
  moreover have "f y = (if j = k then 1 else 0)" using Cons.prems(2) [of j y] by (simp add: e)
  ultimately show ?case using j by (simp add: e)
qed simp

lemma shutdown_queue:
  assumes "transport_inv env tr" "\<forall>i. listens tr i s \<longleftrightarrow> p = Listening i"
  shows "dict_get_def (tr_queues (shutdown_mcp_transport tr)) s []
    = dict_get_def (tr_queues tr) s [] @ (case p of Listening i \<Rightarrow> [None] | _ \<Rightarrow> [])"
proof -
  let ?count = "\<lambda>session. count_list (ts_streams session) s"
  have c: "?count x = (if listens tr i s then 1 else 0)" if h: "map_of (tr_sessions tr) i = Some x" for i x
    using session_streams_distinct [OF assms(1) h] h by (simp add: count_distinct listens_def)
  have "sum_list (map ?count (dict_values (tr_sessions tr))) = (case p of Listening i \<Rightarrow> 1 | _ \<Rightarrow> 0)"
  proof (cases "\<exists>k. p = Listening k")
    case True
    then obtain k where k: "p = Listening k" by blast
    then have "listens tr k s" using assms(2) by simp
    then have "map_of (tr_sessions tr) k \<noteq> None" by (auto simp: listens_def)
    moreover have "sum_list (map ?count (dict_values (tr_sessions tr))) = (if map_of (tr_sessions tr) k = None then 0 else 1)"
    proof (rule values_count)
      show "dict_ok (tr_sessions tr)" using assms(1) by (simp add: transport_inv_def)
      show "?count x = (if i = k then 1 else 0)" if "map_of (tr_sessions tr) i = Some x" for i x
        using c [OF that] assms(2) k by auto
    qed
    ultimately show ?thesis using k by simp
  next
    case False
    then have "?count x = 0" if x: "x \<in> set (dict_values (tr_sessions tr))" for x
    proof -
      obtain i where "(i, x) \<in> set (tr_sessions tr)" using x by auto
      then have "map_of (tr_sessions tr) i = Some x" using assms(1) by (simp add: transport_inv_def)
      then show ?thesis using c assms(2) False by auto
    qed
    then have "sum_list (map ?count (dict_values (tr_sessions tr))) = 0" by (subst sum_list_eq_0_iff) auto
    then show ?thesis using False by (cases p) auto
  qed
  then show ?thesis by (cases p) (simp_all add: shutdown_mcp_transport_def put_all)
qed

lemma shutdown_keeps_stream:
  assumes "stream_inv s h tr" "transport_inv env tr"
  shows "stream_inv s (h @ [(Shutdown, Stopped)]) (shutdown_mcp_transport tr)"
proof -
  from assms(1) obtain rest where inv: "\<forall>i. listens tr i s \<longleftrightarrow> stream_phase s h = Listening i"
    "stream_phase s h \<in> {Unopened, Gone} \<or> s < tr_next_stream tr" "due s h = emitted s h @ rest"
    "queue_form (stream_phase s h) (dict_get_def (tr_queues tr) s []) rest" by (rule stream_invD)
  have q: "dict_get_def (tr_queues (shutdown_mcp_transport tr)) s []
    = dict_get_def (tr_queues tr) s [] @ (case stream_phase s h of Listening i \<Rightarrow> [None] | _ \<Rightarrow> [])"
    by (rule shutdown_queue [OF assms(2) inv(1)])
  have l: "\<not> listens (shutdown_mcp_transport tr) j s" for j by (simp add: shutdown_mcp_transport_def)
  have n: "tr_next_stream (shutdown_mcp_transport tr) = tr_next_stream tr" by (simp add: shutdown_mcp_transport_def)
  show ?thesis using inv q l n
    by (intro stream_step [where p = "case stream_phase s h of Listening i \<Rightarrow> Closed | _ \<Rightarrow> stream_phase s h" and ms = "due s h" and rest = rest])
      (cases "stream_phase s h"; simp)+
qed

text \<open>A turn of a stream.\<close>

lemma turn_elsewhere:
  assumes "t \<noteq> s" "stream_inv s h tr"
  shows "stream_inv s (h @ [(Turn t b, Produced (fst (event_stream_turn t b tr)))]) (snd (event_stream_turn t b tr))"
proof -
  have l: "listens (snd (event_stream_turn t b tr)) i s = listens tr i s" for i
    using assms(1) by (simp add: event_stream_turn_def split: list.split option.split)
  have q: "dict_get_def (tr_queues (snd (event_stream_turn t b tr))) s [] = dict_get_def (tr_queues tr) s []"
    using assms(1) by (simp add: event_stream_turn_def discard_stream_def dict_get_def_def split: list.split option.split)
  have n: "tr_next_stream (snd (event_stream_turn t b tr)) = tr_next_stream tr"
    by (simp add: event_stream_turn_def discard_stream_def split: list.split option.split)
  have f: "follow s (p, ms) (Turn t b, Produced x) = (p, ms)" for p ms x using assms(1) by (cases x) simp_all
  have e: "emitted s [(Turn t b, Produced x)] = []" for x using assms(1) by (cases x) (simp_all add: emitted_def map_filter_def)
  show ?thesis by (rule stream_unaffected [OF assms(2) f e l q]) (simp add: n)
qed

lemma turn_keeps_stream:
  assumes "stream_inv s h tr"
  shows "stream_inv s (h @ [(Turn s b, Produced (fst (event_stream_turn s b tr)))]) (snd (event_stream_turn s b tr))"
proof -
  from assms(1) obtain rest where inv: "\<forall>i. listens tr i s \<longleftrightarrow> stream_phase s h = Listening i"
    "stream_phase s h \<in> {Unopened, Gone} \<or> s < tr_next_stream tr" "due s h = emitted s h @ rest"
    "queue_form (stream_phase s h) (dict_get_def (tr_queues tr) s []) rest" by (rule stream_invD)
  have e: "emitted s [(Turn s b, Produced Ended)] = []" "emitted s [(Turn s b, Produced Keepalive)] = []"
    "emitted s [(Turn s b, Produced (Event m))] = [m]" for m by (simp_all add: emitted_def map_filter_def)
  have gone: "stream_inv s (h @ [(Turn s b, Produced Ended)]) (discard_stream s tr)" if "rest = []"
  proof -
    have "dict_get_def (tr_queues (discard_stream s tr)) s [] = []" by (simp add: discard_stream_def dict_get_def_def)
    then show ?thesis using that inv(3) e by (intro stream_step [where p = Gone and ms = "due s h" and rest = "[]"]) simp_all
  qed
  show ?thesis
  proof (cases "dict_get_def (tr_queues tr) s []")
    case Nil
    then have "rest = []" using inv(4) by (cases "stream_phase s h") simp_all
    then show ?thesis using gone Nil assms e by (cases b) (auto simp: event_stream_turn_def intro: stream_unaffected)
  next
    case (Cons x q)
    show ?thesis
    proof (cases x)
      case None
      then have "rest = []" using inv(4) Cons by (cases "stream_phase s h") (auto simp: Cons_eq_map_conv Cons_eq_append_conv)
      then show ?thesis using gone Cons None by (simp add: event_stream_turn_def)
    next
      case (Some m)
      let ?tr = "tr\<lparr>tr_queues := dict_set s q (tr_queues tr)\<rparr>"
      obtain ms where ms: "rest = m # ms" "queue_form (stream_phase s h) q ms"
        using inv(4) Cons Some by (cases "stream_phase s h"; cases rest) auto
      then have "stream_inv s (h @ [(Turn s b, Produced (Event m))]) ?tr" using inv e
        by (intro stream_step [where p = "stream_phase s h" and ms = "due s h" and rest = ms]) simp_all
      then show ?thesis using Cons Some by (simp add: event_stream_turn_def)
    qed
  qed
qed

text \<open>The end of a POST, and of one that is handled at once.\<close>

lemma finish_cases:
  "snd (finish_post env rq modern message response tr) = tr
   \<or> (\<exists>v. snd (finish_post env rq modern message response tr)
        = tr\<lparr>tr_sessions := dict_set (se_session_id env (tr_next_session tr)) \<lparr>ts_protocol_version = v, ts_streams = []\<rparr> (tr_sessions tr),
             tr_next_session := tr_next_session tr + 1\<rparr>)"
  unfolding finish_post_def Let_def by (auto split: if_split)

lemma post_cases:
  "snd (mcp_post env rq tr) = tr
   \<or> (\<exists>modern message. snd (mcp_post env rq tr) = snd (finish_post env rq modern message (rpc_response env message) tr))"
proof (cases "\<not> origin_is_allowed env rq \<or> \<not> is_dict (rq_body rq)")
  case True
  then show ?thesis by (auto simp: mcp_post_def is_dict_def split: option.split pyval.split)
next
  case False
  then obtain message where m: "rq_body rq = Some (PDict message)"
    by (auto simp: is_dict_def split: option.splits pyval.splits)
  let ?m = "modern_request rq message"
  show ?thesis
  proof (cases "if ?m then check_modern env rq message else check_legacy rq tr")
    case None
    then have "mcp_post env rq tr = finish_post env rq ?m message (rpc_response env message) tr"
      using False m by (simp only: mcp_post_def not_True_eq_False if_False option.case pyval.case Let_def de_Morgan_disj not_not)
    then show ?thesis by (intro disjI2 exI [of _ ?m] exI [of _ message]) simp
  next
    case (Some reply)
    then have "mcp_post env rq tr = (reply, tr)"
      using False m by (simp only: mcp_post_def not_True_eq_False if_False option.case pyval.case Let_def de_Morgan_disj not_not)
    then show ?thesis by simp
  qed
qed

lemma fresh_session:
  assumes "inj (se_session_id env)" "transport_inv env tr"
  shows "dict_get (tr_sessions tr) (se_session_id env (tr_next_session tr)) = None"
proof (rule ccontr)
  assume "dict_get (tr_sessions tr) (se_session_id env (tr_next_session tr)) \<noteq> None"
  then obtain n where "n < tr_next_session tr" "se_session_id env (tr_next_session tr) = se_session_id env n"
    using assms(2) unfolding transport_inv_def by blast
  then show False using assms(1) by (simp add: inj_eq)
qed

lemma follow_reply [simp]:
  "follow s (p, ms) (Post rq, x) = (p, ms)" "follow s (p, ms) (Handled rq modern message response, x) = (p, ms)"
  by (cases x; simp)+

lemma finish_keeps_stream:
  assumes "stream_inv s h tr" "transport_inv env tr" "inj (se_session_id env)"
    "tr' = tr \<or> tr' = snd (finish_post env rq modern message response tr)"
    "\<And>p ms. follow s (p, ms) e = (p, ms)" "emitted s [e] = []"
  shows "stream_inv s (h @ [e]) tr'"
proof (cases "tr' = tr")
  case True
  then show ?thesis using assms by (auto intro: stream_unaffected)
next
  case False
  then obtain v where t: "tr' = tr\<lparr>tr_sessions := dict_set (se_session_id env (tr_next_session tr))
      \<lparr>ts_protocol_version = v, ts_streams = []\<rparr> (tr_sessions tr), tr_next_session := tr_next_session tr + 1\<rparr>"
    using assms(4) finish_cases [where env = env and rq = rq and modern = modern and message = message and response = response and tr = tr]
    by auto
  have "\<not> listens tr (se_session_id env (tr_next_session tr)) s"
    using fresh_session [OF assms(3,2)] by (simp add: listens_def)
  then have "listens tr' i s = listens tr i s" for i unfolding t by simp
  then show ?thesis using assms(5,6) by (intro stream_unaffected [OF assms(1)]) (simp_all add: t)
qed

text \<open>The invariant of the transport.\<close>

lemma transport_inv_queues [simp]: "transport_inv env (tr\<lparr>tr_queues := qs\<rparr>) = transport_inv env tr"
  by (simp add: transport_inv_def)

lemma transport_invI:
  assumes "dict_ok (tr_sessions tr)"
    "\<And>i x. dict_get (tr_sessions tr) i = Some x \<Longrightarrow> distinct (ts_streams x) \<and> (\<forall>s \<in> set (ts_streams x). s < tr_next_stream tr)
       \<and> (\<exists>n < tr_next_session tr. i = se_session_id env n)"
  shows "transport_inv env tr"
  using assms unfolding transport_inv_def by blast

lemma transport_invD:
  assumes "transport_inv env tr" "dict_get (tr_sessions tr) i = Some x"
  shows "distinct (ts_streams x)" "\<And>s. s \<in> set (ts_streams x) \<Longrightarrow> s < tr_next_stream tr"
    "\<exists>n < tr_next_session tr. i = se_session_id env n"
  using assms unfolding transport_inv_def by blast+

lemma transport_inv_keys: "transport_inv env tr \<Longrightarrow> dict_ok (tr_sessions tr)"
  by (simp add: transport_inv_def)

lemma finish_keeps_transport:
  assumes "transport_inv env tr"
  shows "transport_inv env (snd (finish_post env rq modern message response tr))"
  using finish_cases [where env = env and rq = rq and modern = modern and message = message and response = response and tr = tr]
proof (elim disjE exE)
  fix v
  assume f: "snd (finish_post env rq modern message response tr)
    = tr\<lparr>tr_sessions := dict_set (se_session_id env (tr_next_session tr)) \<lparr>ts_protocol_version = v, ts_streams = []\<rparr> (tr_sessions tr),
         tr_next_session := tr_next_session tr + 1\<rparr>"
  show ?thesis unfolding f
  proof (rule transport_invI, goal_cases)
    case 1
    then show ?case using transport_inv_keys [OF assms] by simp
  next
    case (2 i x)
    show ?case
    proof (cases "i = se_session_id env (tr_next_session tr)")
      case True
      then show ?thesis using 2 by auto
    next
      case False
      then have x: "dict_get (tr_sessions tr) i = Some x" using 2 by simp
      obtain n where "n < tr_next_session tr" "i = se_session_id env n" using transport_invD(3) [OF assms x] by blast
      then have "\<exists>n < tr_next_session tr + 1. i = se_session_id env n" by (intro exI [of _ n]) simp
      then show ?thesis using transport_invD(1,2) [OF assms x] by simp
    qed
  qed
qed (simp add: assms)

lemma get_keeps_transport:
  assumes "transport_inv env tr"
  shows "transport_inv env (snd (mcp_get env rq tr))"
  using get_cases [of env rq tr]
proof (elim disjE exE conjE)
  fix i and session :: transport_session
  assume g: "dict_get (tr_sessions tr) i = Some session" "mcp_get env rq tr = (StreamReply (tr_next_stream tr) i,
    tr\<lparr>tr_sessions := dict_set i (session\<lparr>ts_streams := set_add (tr_next_stream tr) (ts_streams session)\<rparr>) (tr_sessions tr),
       tr_queues := dict_set (tr_next_stream tr) [] (tr_queues tr), tr_next_stream := tr_next_stream tr + 1\<rparr>)"
  show ?thesis unfolding g(2) snd_conv
  proof (rule transport_invI, goal_cases)
    case 1
    then show ?case using transport_inv_keys [OF assms] by simp
  next
    case (2 j x)
    show ?case
    proof (cases "j = i")
      case True
      then show ?thesis using 2 transport_invD(1,3) [OF assms g(1)] less_SucI [OF transport_invD(2) [OF assms g(1)]] by auto
    next
      case False
      then have x: "dict_get (tr_sessions tr) j = Some x" using 2 by simp
      show ?thesis using transport_invD(1,3) [OF assms x] less_SucI [OF transport_invD(2) [OF assms x]] by auto
    qed
  qed
qed (simp add: assms)

lemma delete_keeps_transport:
  assumes "transport_inv env tr"
  shows "transport_inv env (snd (mcp_delete env rq tr))"
  using delete_cases [of env rq tr] assms by (auto simp: transport_inv_def split: if_splits)

lemma publish_keeps_transport:
  assumes "transport_inv env tr"
  shows "transport_inv env (snd (publish_mcp_notification i m params tr))"
  using publish_cases [of i m params tr] assms by auto

lemma discard_keeps_transport: "transport_inv env tr \<Longrightarrow> transport_inv env (discard_stream s tr)"
  by (auto simp: transport_inv_def discard_stream_def map_of_values comp_def case_prod_beta)

lemma turn_keeps_transport: "transport_inv env tr \<Longrightarrow> transport_inv env (snd (event_stream_turn s b tr))"
  by (simp add: event_stream_turn_def discard_keeps_transport split: list.split option.split)

section \<open>Every run\<close>

lemma shutdown_keeps_transport: "transport_inv env (shutdown_mcp_transport tr)"
  by (simp add: transport_inv_def shutdown_mcp_transport_def)

lemma perform_keeps_transport:
  assumes "transport_inv env tr"
  shows "transport_inv env (snd (perform env a tr))"
proof (cases a)
  case (Post rq)
  show ?thesis using post_cases [of env rq tr] assms by (auto simp: Post perform_def finish_keeps_transport)
qed (simp_all add: assms perform_def get_keeps_transport delete_keeps_transport finish_keeps_transport
    publish_keeps_transport turn_keeps_transport shutdown_keeps_transport)

lemma perform_keeps_stream:
  assumes "stream_inv s h tr" "transport_inv env tr" "inj (se_session_id env)"
  shows "stream_inv s (h @ [(a, fst (perform env a tr))]) (snd (perform env a tr))"
proof (cases a)
  case (Get rq)
  then show ?thesis using get_keeps_stream [OF assms(1)] by (simp add: perform_def)
next
  case (Delete rq)
  then show ?thesis using delete_keeps_stream [OF assms(1,2)] by (simp add: perform_def)
next
  case (Post rq)
  obtain modern message response
    where "snd (mcp_post env rq tr) = tr \<or> snd (mcp_post env rq tr) = snd (finish_post env rq modern message response tr)"
    using post_cases [of env rq tr] by blast
  then show ?thesis unfolding Post perform_def transport_op.case snd_map_prod id_def
    by (rule finish_keeps_stream [OF assms]) simp_all
next
  case (Handled rq modern message response)
  show ?thesis unfolding Handled perform_def transport_op.case snd_map_prod id_def
    by (rule finish_keeps_stream [OF assms disjI2 [OF refl]]) simp_all
next
  case (Publish i m params)
  then show ?thesis using publish_keeps_stream [OF assms(1,2)] by (simp add: perform_def)
next
  case Shutdown
  then show ?thesis using shutdown_keeps_stream [OF assms(1,2)] by (simp add: perform_def)
next
  case (Turn t disconnected)
  then show ?thesis using turn_keeps_stream [OF assms(1)] turn_elsewhere [OF _ assms(1)]
    by (cases "t = s") (simp_all add: perform_def)
qed

lemma run_inv:
  assumes "transport_run env h tr" "inj (se_session_id env)"
  shows "transport_inv env tr \<and> stream_inv s h tr"
  using assms(1)
proof (induction rule: transport_run.induct)
  case start
  show ?case by (simp add: transport_inv_def stream_inv_def new_transport_def listens_def stream_phase_def due_def emitted_def
      map_filter_def dict_get_def_def)
next
  case (next_op h tr a)
  then show ?case using perform_keeps_transport perform_keeps_stream [OF _ _ assms(2)] by blast
qed

lemma waiting_form: "queue_form p (dict_get_def (tr_queues tr) s []) ms \<Longrightarrow> waiting s tr = ms"
  by (cases p) (simp_all add: waiting_def map_filter_def comp_def)

text \<open>Turns of a stream whose session is gone: the rest of its queue, and the end.\<close>

fun turns :: "nat \<Rightarrow> bool list \<Rightarrow> transport \<Rightarrow> stream_output list" where
  "turns s [] tr = []"
| "turns s (b # bs) tr = fst (event_stream_turn s b tr) # turns s bs (snd (event_stream_turn s b tr))"

lemma turns_drain:
  assumes "dict_get_def (tr_queues tr) s [] = map Some ms @ [None]" "length bs = length ms + 1"
  shows "turns s bs tr = map Event ms @ [Ended]"
  using assms
proof (induction ms arbitrary: tr bs)
  case Nil
  then obtain b where "bs = [b]" by (auto simp: length_Suc_conv)
  then show ?case using Nil by (simp add: event_stream_turn_def)
next
  case (Cons m ms)
  then obtain b bs' where bs: "bs = b # bs'" "length bs' = length ms + 1" by (cases bs) auto
  let ?tr = "tr\<lparr>tr_queues := dict_set s (map Some ms @ [None]) (tr_queues tr)\<rparr>"
  have "event_stream_turn s b tr = (Event m, ?tr)" using Cons.prems(1) by (simp add: event_stream_turn_def)
  moreover have "turns s bs' ?tr = map Event ms @ [Ended]" using bs(2) by (intro Cons.IH) simp_all
  ultimately show ?case using bs(1) by simp
qed

end
