(* ===== verification/McpServerProps.thy ===== *)
theory McpServerProps
  imports McpStreams
begin

text \<open>
  Properties of the MCP server: what a request is answered, what the event streams of a session deliver, and
  that the resources of the catalogue can be read.
\<close>

section \<open>Answers\<close>

text \<open>\<open>r\<close> is a JSON-RPC answer to the request \<open>i\<close>: it has its id and either a result or an error.\<close>

definition answers :: "pyval \<Rightarrow> json_object \<Rightarrow> bool" where
  "answers i r \<longleftrightarrow> dict_get r ''jsonrpc'' = Some (PStr ''2.0'') \<and> dict_get r ''id'' = Some i
     \<and> (dict_get r ''result'' \<noteq> None) = (dict_get r ''error'' = None)"

definition is_error :: "int \<Rightarrow> json_object \<Rightarrow> bool" where
  "is_error code r \<longleftrightarrow>
     (case dict_get r ''error'' of Some (PDict e) \<Rightarrow> dict_get e ''code'' = Some (PInt code) | _ \<Rightarrow> False)"

named_theorems answered \<open>the answers of the methods\<close>

lemma answers_response [answered, simp]: "answers i (jsonrpc_response i x)"
  by (simp add: answers_def jsonrpc_response_def)

lemma answers_error [answered, simp]: "answers i (jsonrpc_error i code m d)"
  by (simp add: answers_def jsonrpc_error_def)

lemma is_error_error [simp]: "is_error c (jsonrpc_error i code m d) \<longleftrightarrow> c = code"
  by (auto simp: is_error_def jsonrpc_error_def)

lemma answers_invalid_params [answered, simp]: "answers i (invalid_params i)"
  by (simp add: invalid_params_def)

lemma answers_initialize [answered]: "answers i (initialize_response env i params)"
  by (simp add: initialize_response_def Let_def split: option.splits pyval.splits)

lemma answers_discover [answered]: "answers i (discover_response env i)"
  by (simp add: discover_response_def)

lemma tools_call_answers [answered]: "tools_call env i params = Inr r \<Longrightarrow> answers i r"
  by (auto simp: tools_call_def split: option.splits pyval.splits sum.splits exn.splits prod.splits if_splits)

lemma prompt_reply_answers [answered]: "prompt_reply env i p f = Inr r \<Longrightarrow> answers i r"
  by (auto simp: prompt_reply_def split: sum.splits exn.splits)

lemma prompts_get_answers [answered]: "prompts_get env i params = Inr r \<Longrightarrow> answers i r"
  by (auto simp: prompts_get_def dest: prompt_reply_answers split: option.splits pyval.splits if_splits)

lemma prompts_execute_answers [answered]: "prompts_execute env i params = Inr r \<Longrightarrow> answers i r"
  by (auto simp: prompts_execute_def dest: prompt_reply_answers split: option.splits pyval.splits if_splits)

lemma resources_read_answers [answered]: "resources_read env i params = Inr r \<Longrightarrow> answers i r"
  by (auto simp: resources_read_def split: option.splits pyval.splits sum.splits exn.splits if_splits)

text \<open>Every answer that a method gives, if it gives one, answers the request.\<close>

definition only_answers :: "pyval \<Rightarrow> json_object result \<Rightarrow> bool" where
  "only_answers i v \<longleftrightarrow> (\<forall>r. v = Inr r \<longrightarrow> answers i r)"

lemma only_answers_if: "only_answers i x \<Longrightarrow> only_answers i y \<Longrightarrow> only_answers i (if c then x else y)"
  by simp

lemma only_answers_Inr: "answers i r \<Longrightarrow> only_answers i (Inr r)"
  by (simp add: only_answers_def)

lemma only_answers_with_params:
  "(\<And>d. only_answers i (f d)) \<Longrightarrow> only_answers i (with_params i params f)"
  by (auto simp: only_answers_def with_params_def split: option.splits)

lemma methods_only_answer:
  "only_answers i (tools_call env i d)" "only_answers i (prompts_get env i d)"
  "only_answers i (prompts_execute env i d)" "only_answers i (resources_read env i d)"
  by (simp_all add: only_answers_def tools_call_answers prompts_get_answers prompts_execute_answers resources_read_answers)

lemma dispatch_only_answers: "only_answers i (dispatch_method env method_name i params)"
  unfolding dispatch_method_def
  by (intro only_answers_if only_answers_Inr only_answers_with_params methods_only_answer answered)

lemma dispatch_answers: "dispatch_method env method_name i params = Inr r \<Longrightarrow> answers i r"
  using dispatch_only_answers unfolding only_answers_def by blast

text \<open>What the dispatcher makes of a message: nothing of a notification, and of anything else an answer.\<close>

definition is_notification :: "json_object \<Rightarrow> bool" where
  "is_notification message \<longleftrightarrow> dict_get message ''id'' = None \<and> dict_get message ''jsonrpc'' = Some (PStr ''2.0'')
     \<and> (\<exists>m. dict_get message ''method'' = Some (PStr m))"

definition reply_id :: "json_object \<Rightarrow> pyval" where
  "reply_id message = (case dict_get message ''id'' of Some i \<Rightarrow> if valid_id i then i else PNone | None \<Rightarrow> PNone)"

lemma none_invalid [simp]: "\<not> valid_id PNone"
  by (simp add: valid_id_def)

lemma handle_bad_id:
  "dict_get message ''id'' = Some i \<Longrightarrow> \<not> valid_id i
     \<Longrightarrow> handle_jsonrpc env message = Inr (Some (jsonrpc_error PNone (-32600) ''Invalid Request'' None))"
  by (simp add: handle_jsonrpc_def dict_get_def_def)

lemma handle_no_id:
  "dict_get message ''id'' = None
     \<Longrightarrow> handle_jsonrpc env message = Inr (if is_notification message then None
         else Some (jsonrpc_error PNone (-32600) ''Invalid Request'' None))"
  by (auto simp: handle_jsonrpc_def dict_get_def_def is_notification_def split: option.splits pyval.splits)

definition answered_by :: "pyval \<Rightarrow> json_object option result \<Rightarrow> bool" where
  "answered_by i v \<longleftrightarrow> (\<forall>x. v = Inr x \<longrightarrow> (\<exists>r. x = Some r \<and> answers i r))"

lemma answered_by_Some [simp]: "answered_by i (Inr (Some r)) \<longleftrightarrow> answers i r"
  by (simp add: answered_by_def)

lemma answered_by_dispatch [simp]: "answered_by i (rbind (dispatch_method env m i params) (\<lambda>r. Inr (Some r)))"
  using dispatch_answers [of env m i params] by (cases "dispatch_method env m i params") (simp_all add: answered_by_def)

lemma handle_request:
  assumes "dict_get message ''id'' = Some i" "valid_id i"
  shows "answered_by i (handle_jsonrpc env message)"
proof -
  have n: "i \<noteq> PNone" using assms(2) by auto
  have g: "dict_get_def message ''id'' PNone = i" using assms(1) by (simp add: dict_get_def_def)
  have on_params: "answered_by i (case v of PNone \<Rightarrow> rbind (dispatch_method env m i None) (\<lambda>r. Inr (Some r))
      | PDict d \<Rightarrow> rbind (dispatch_method env m i (Some d)) (\<lambda>r. Inr (Some r)) | _ \<Rightarrow> Inr (Some (invalid_params i)))" for v m
    by (cases v) simp_all
  have on_method: "answered_by i (case x of Some (PStr m) \<Rightarrow> f m | _ \<Rightarrow> Inr (Some (jsonrpc_error i c t None)))"
    if "\<And>m. answered_by i (f m)" for f x c t
  proof (cases x)
    case (Some v)
    then show ?thesis using that by (cases v) simp_all
  qed simp
  have if_rule: "answered_by i x \<Longrightarrow> answered_by i y \<Longrightarrow> answered_by i (if c then x else y)" for x y c
    by simp
  have c: "(dict_get message ''id'' \<noteq> None \<and> \<not> valid_id i) = False" "(i = PNone) = False" using assms(2) n by auto
  show ?thesis unfolding handle_jsonrpc_def Let_def g c if_False
    by (intro if_rule on_method on_params) simp
qed

lemma rpc_response_cases:
  "case rpc_response env message of None \<Rightarrow> is_notification message
     | Some r \<Rightarrow> \<not> is_notification message \<and> answers (reply_id message) r"
proof (cases "dict_get message ''id''")
  case None
  show ?thesis using None by (simp add: rpc_response_def handle_no_id reply_id_def)
next
  case (Some i)
  then have n: "\<not> is_notification message" by (simp add: is_notification_def)
  show ?thesis
  proof (cases "valid_id i")
    case False
    then show ?thesis using Some n by (simp add: rpc_response_def handle_bad_id reply_id_def)
  next
    case True
    show ?thesis
    proof (cases "handle_jsonrpc env message")
      case (Inl e)
      then show ?thesis using Some True n by (simp add: rpc_response_def reply_id_def)
    next
      case (Inr v)
      then obtain r where "v = Some r" "answers i r" using handle_request [OF Some True, of env] by (auto simp: answered_by_def)
      then show ?thesis using Inr Some True n by (simp add: rpc_response_def reply_id_def)
    qed
  qed
qed

lemma answers_set_result:
  assumes "answers i r" "dict_get r ''result'' \<noteq> None"
  shows "answers i (dict_set ''result'' v r)"
  using assms by (simp add: answers_def)

lemma answers_metadata:
  assumes "answers i r"
  shows "answers i (add_modern_response_metadata r m)"
proof (cases "dict_get r ''result''")
  case (Some v)
  then show ?thesis using assms unfolding add_modern_response_metadata_def Let_def
    by (cases v) (simp_all only: option.case pyval.case answers_set_result option.distinct not_False_eq_True)
qed (simp add: add_modern_response_metadata_def assms)

text \<open>The end of a POST that has passed its checks.\<close>

lemma reply_of_finish:
  "\<exists>header. fst (finish_post env rq modern message response tr)
     = (case (if modern \<and> has_result response then map_option (\<lambda>r. add_modern_response_metadata r (method_text message)) response else response) of
          None \<Rightarrow> EmptyReply 202 header | Some r \<Rightarrow> JsonReply 200 r header)"
  unfolding finish_post_def Let_def by (cases "has_result response"; cases modern) auto

lemma finished_answers:
  assumes "fst v = fst (finish_post env rq modern message (rpc_response env message) tr)"
  shows "if is_notification message then \<exists>header. fst v = EmptyReply 202 header
    else \<exists>r header. fst v = JsonReply 200 r header \<and> answers (reply_id message) r"
proof -
  let ?r = "rpc_response env message"
  obtain header where f: "fst v
     = (case (if modern \<and> has_result ?r then map_option (\<lambda>r. add_modern_response_metadata r (method_text message)) ?r else ?r) of
          None \<Rightarrow> EmptyReply 202 header | Some r \<Rightarrow> JsonReply 200 r header)"
    using reply_of_finish [where env = env and rq = rq and modern = modern and message = message and response = ?r and tr = tr]
    unfolding assms by blast
  show ?thesis
  proof (cases ?r)
    case None
    then show ?thesis using rpc_response_cases [where env = env and message = message] f by (simp add: has_result_def)
  next
    case (Some r)
    then have a: "\<not> is_notification message" "answers (reply_id message) r"
      using rpc_response_cases [where env = env and message = message] by simp_all
    then show ?thesis using f Some answers_metadata [OF a(2)] by (cases "modern \<and> has_result ?r") auto
  qed
qed

text \<open>The refusals of the checks.\<close>

definition refusal :: "http_reply \<Rightarrow> bool" where
  "refusal reply \<longleftrightarrow> (\<exists>status i code m d. reply = JsonReply status (jsonrpc_error i code m d) None \<and> status \<in> {400, 403, 404})"

lemma refusal_error [simp]: "refusal (JsonReply status (jsonrpc_error i code m d) None) \<longleftrightarrow> status \<in> {400, 403, 404}"
  unfolding refusal_def by blast

definition only_errors :: "json_object option \<Rightarrow> bool" where
  "only_errors v \<longleftrightarrow> (\<forall>e. v = Some e \<longrightarrow> (\<exists>i code m d. e = jsonrpc_error i code m d))"

lemma only_errors_simps [simp]: "only_errors None" "only_errors (Some (jsonrpc_error i code m d))"
  by (auto simp: only_errors_def)

lemma only_errors_if: "only_errors x \<Longrightarrow> only_errors y \<Longrightarrow> only_errors (if c then x else y)"
  by simp

lemma only_errors_text:
  "(\<And>s. only_errors (f s)) \<Longrightarrow> only_errors y \<Longrightarrow> only_errors (case v of Some (PStr s) \<Rightarrow> f s | _ \<Rightarrow> y)"
  by (simp split: option.split pyval.split)

lemma modern_request_only_errors: "only_errors (modern_request_error env rq message)"
  unfolding modern_request_error_def Let_def
  by (intro only_errors_text only_errors_if only_errors_simps)

lemma modern_refusal: "check_modern env rq message = Some reply \<Longrightarrow> refusal reply"
  using modern_request_only_errors [of env rq message]
  by (auto simp: check_modern_def only_errors_def split: option.splits if_splits)

lemma legacy_refusal: "check_legacy rq tr = Some reply \<Longrightarrow> refusal reply"
  by (auto simp: check_legacy_def unknown_session_def split: option.splits if_splits)

text \<open>
  C37. Every POST with a JSON object gets exactly one JSON-RPC answer. If the origin, the protocol version or
  the session is refused the answer is an error with status 400, 403 or 404 and the transport is as before.
  Otherwise a notification is accepted with 202 and no body, and any other message gets status 200 and an
  object with the id of the request (null if that is not a string or an integer) and either a result or an
  error, whatever exception the handling raises.
\<close>

theorem post_gets_one_answer:
  assumes "rq_body rq = Some (PDict message)"
  shows "if \<not> origin_is_allowed env rq
           \<or> (if modern_request rq message then check_modern env rq message else check_legacy rq tr) \<noteq> None
         then refusal (fst (mcp_post env rq tr)) \<and> snd (mcp_post env rq tr) = tr
         else if is_notification message then \<exists>header. fst (mcp_post env rq tr) = EmptyReply 202 header
         else \<exists>r header. fst (mcp_post env rq tr) = JsonReply 200 r header \<and> answers (reply_id message) r"
proof (cases "origin_is_allowed env rq")
  case False
  then show ?thesis by (simp add: mcp_post_def origin_refused_def)
next
  case True
  let ?m = "modern_request rq message"
  show ?thesis
  proof (cases "if ?m then check_modern env rq message else check_legacy rq tr")
    case None
    then have p: "mcp_post env rq tr = finish_post env rq ?m message (rpc_response env message) tr"
      using True assms by (simp only: mcp_post_def not_True_eq_False if_False option.case pyval.case Let_def)
    have accepted: "(\<not> origin_is_allowed env rq \<or> (if ?m then check_modern env rq message else check_legacy rq tr) \<noteq> None) = False"
      using True None by simp
    show ?thesis unfolding accepted if_False
      by (rule finished_answers [where env = env and rq = rq and modern = ?m and tr = tr]) (simp only: p)
  next
    case (Some reply)
    then have "mcp_post env rq tr = (reply, tr)"
      using True assms by (simp only: mcp_post_def not_True_eq_False if_False option.case pyval.case Let_def)
    moreover have "refusal reply" using Some by (cases ?m) (simp_all add: modern_refusal legacy_refusal)
    ultimately show ?thesis using Some by (simp only: option.distinct not_False_eq_True simp_thms if_True fst_conv snd_conv)
  qed
qed

section \<open>Event streams\<close>

text \<open>
  C36. Whatever requests, notifications and turns of streams come in whatever order, a stream puts out exactly
  the notifications that were published to its own session between its opening and the removal of the session,
  in their order: what it has put out and what waits in its queue are together what it is due. A stream that
  has ended owes nothing, and a stream whose session was removed puts out the rest in as many turns as
  notifications wait and ends in the next.
\<close>

theorem streams_deliver_their_notifications:
  assumes "transport_run env h tr" "inj (se_session_id env)"
  shows "emitted s h @ waiting s tr = due s h
    \<and> (stream_phase s h = Gone \<longrightarrow> emitted s h = due s h)
    \<and> (stream_phase s h = Closed \<and> length bs = length (waiting s tr) + 1
       \<longrightarrow> turns s bs tr = map Event (waiting s tr) @ [Ended])"
proof -
  have "stream_inv s h tr" using run_inv [OF assms] by blast
  then obtain ms where ms: "due s h = emitted s h @ ms" "queue_form (stream_phase s h) (dict_get_def (tr_queues tr) s []) ms"
    by (rule stream_invD)
  note w = waiting_form [OF ms(2)]
  have "stream_phase s h = Gone \<longrightarrow> emitted s h = due s h" using ms by auto
  moreover have "stream_phase s h = Closed \<and> length bs = length (waiting s tr) + 1
       \<longrightarrow> turns s bs tr = map Event (waiting s tr) @ [Ended]"
    using ms(2) w turns_drain [of tr s ms bs] by auto
  ultimately show ?thesis using ms(1) w by simp
qed

section \<open>Resources\<close>

lemma prompt_from_mapping_name: "prompt_from_mapping name data = Inr p \<Longrightarrow> pd_name p = name"
  unfolding prompt_from_mapping_def
  by (cases "dict_get_def data ''description'' PNone"; cases "dict_get_def data ''template'' PNone")
    (auto split: option.splits)

lemma loaded_prompts_named:
  assumes "load_from_overrides overrides = Inr prompts"
  shows "(\<forall>k p. dict_get prompts k = Some p \<longrightarrow> pd_name p = k) \<and> dict_ok prompts"
  using assms unfolding load_from_overrides_def
proof (rule rfold_invariant)
  fix acc x acc'
  assume inv: "(\<forall>k p. dict_get acc k = Some p \<longrightarrow> pd_name p = k) \<and> dict_ok acc"
    and step: "(case x of (prompt_name, prompt_data) \<Rightarrow>
      if py_strip prompt_name = [] then Inl (ValueError ''Prompt key must be a non-empty string'')
      else rbind (prompt_from_mapping prompt_name (as_mapping prompt_data))
        (\<lambda>prompt. Inr (dict_set (pd_name prompt) prompt acc))) = Inr acc'"
  obtain n d where x: "x = (n, d)" by force
  obtain p where "acc' = dict_set (pd_name p) p acc"
    using step unfolding x prod.case by (cases "py_strip n = []"; cases "prompt_from_mapping n (as_mapping d)") auto
  then show "(\<forall>k p. dict_get acc' k = Some p \<longrightarrow> pd_name p = k) \<and> dict_ok acc'" using inv by auto
qed simp

lemma startswith_prefix [simp]: "startswith (p @ s) p"
  by (induction p) auto

text \<open>The kinds of entries of the catalogue, and reading each.\<close>

definition fixed_uris :: "string list" where
  "fixed_uris = [MCP_MODEL_OVERVIEW_URI, MCP_MAPPING_GUIDE_URI, MCP_IDENTITY_GUIDE_URI, ''i3x://openapi'', ''i3x://mcp-overrides'']"

definition uri_of :: "pyval \<Rightarrow> string" where
  "uri_of entry = (case entry of PDict d \<Rightarrow> (case dict_get d ''uri'' of Some (PStr u) \<Rightarrow> u | _ \<Rightarrow> []) | _ \<Rightarrow> [])"

lemma uri_of_entry [simp]: "uri_of (resource_entry uri n d m) = uri"
  by (simp add: uri_of_def resource_entry_def)

lemma catalog_uris:
  assumes "entry \<in> set (resource_catalog env)"
  shows "uri_of entry \<in> set fixed_uris
    \<or> (\<exists>m i. se_model env = Some m \<and> i \<in> set (br_root_ids m) \<and> known m i \<and> uri_of entry = MCP_ROOT_RESOURCE_PREFIX @ i)
    \<or> (\<exists>prompts k p. se_prompts env = Some prompts \<and> (k, p) \<in> set prompts \<and> uri_of entry = ''i3x://prompts/'' @ pd_name p)"
proof -
  have prompts: "\<exists>prompts k p. se_prompts env = Some prompts \<and> (k, p) \<in> set prompts \<and> pd_name p = n"
    if "(n, d) \<in> set (list_prompt_metadata (se_prompts env))" for n d
    using that by (cases "se_prompts env") (auto simp: list_prompt_metadata_def list_metadata_def)
  have roots: "\<exists>m i. se_model env = Some m \<and> i \<in> set (br_root_ids m) \<and> known m i \<and> uri = MCP_ROOT_RESOURCE_PREFIX @ i"
    if "(uri, n) \<in> set (roots_catalog env)"
      "case se_model env of Some m \<Rightarrow> known m (drop (length MCP_ROOT_RESOURCE_PREFIX) uri) | None \<Rightarrow> False" for uri n
    using that by (auto simp: roots_catalog_def split: option.splits)
  show ?thesis using assms unfolding resource_catalog_def set_append Un_iff
  proof (elim disjE)
    assume "entry \<in> set (map (\<lambda>(uri, name). resource_entry uri name
        ''Top-level i3X model element. Read this resource for a summary and navigation hints.'' ''application/json'')
      (filter (\<lambda>(uri, name). case se_model env of Some m \<Rightarrow> known m (drop (length MCP_ROOT_RESOURCE_PREFIX) uri) | None \<Rightarrow> False) (roots_catalog env)))"
    then obtain uri n where u: "(uri, n) \<in> set (roots_catalog env)"
      "case se_model env of Some m \<Rightarrow> known m (drop (length MCP_ROOT_RESOURCE_PREFIX) uri) | None \<Rightarrow> False" "uri_of entry = uri"
      by auto
    then show ?thesis using roots [OF u(1,2)] by simp
  next
    assume "entry \<in> set (map (\<lambda>(name, description). resource_entry (''i3x://prompts/'' @ name) (''Prompt: '' @ name) description ''application/json'')
      (list_prompt_metadata (se_prompts env)))"
    then obtain n d where "(n, d) \<in> set (list_prompt_metadata (se_prompts env))" "uri_of entry = ''i3x://prompts/'' @ n" by auto
    then show ?thesis using prompts by blast
  qed (auto simp: fixed_uris_def)
qed

definition readable :: "server_env \<Rightarrow> string \<Rightarrow> bool" where
  "readable env uri \<longleftrightarrow> (\<exists>mime t. read_resource_content env uri = Inr (resource_content uri mime t))"

lemma fixed_readable:
  assumes "uri \<in> set fixed_uris" "uri = ''i3x://mcp-overrides'' \<longrightarrow> se_overrides_text env \<noteq> None"
  shows "readable env uri"
proof -
  note uris = MCP_MODEL_OVERVIEW_URI_def MCP_ROOT_RESOURCE_PREFIX_def MCP_MAPPING_GUIDE_URI_def MCP_IDENTITY_GUIDE_URI_def
  have "uri = MCP_MODEL_OVERVIEW_URI \<or> uri = MCP_MAPPING_GUIDE_URI \<or> uri = MCP_IDENTITY_GUIDE_URI \<or> uri = ''i3x://openapi''
    \<or> uri = ''i3x://mcp-overrides''" using assms(1) by (simp add: fixed_uris_def)
  then show ?thesis using assms(2) by (elim disjE) (simp_all add: readable_def read_resource_content_def uris split: option.split, blast+)
qed

lemma root_readable:
  assumes "se_model env = Some m" "i \<in> set (br_root_ids m)" "i \<noteq> []" "known m i"
  shows "readable env (MCP_ROOT_RESOURCE_PREFIX @ i)"
proof -
  obtain n where n: "node_of m i = Some n" using assms(4) by (auto simp: known_def)
  obtain summary where r: "root_content env (MCP_ROOT_RESOURCE_PREFIX @ i) = Inr summary"
    using assms(1-3) n by (simp add: root_content_def)
  have "MCP_ROOT_RESOURCE_PREFIX @ i \<noteq> MCP_MODEL_OVERVIEW_URI"
    by (simp add: MCP_ROOT_RESOURCE_PREFIX_def MCP_MODEL_OVERVIEW_URI_def)
  then show ?thesis using r by (simp add: readable_def read_resource_content_def, blast)
qed

lemma prompt_readable:
  assumes "se_prompts env = Some prompts" "dict_get prompts name = Some p"
  shows "readable env (''i3x://prompts/'' @ name)"
proof -
  have "get_prompt (se_prompts env) name = Inr p" using assms by (simp add: get_prompt_def)
  then show ?thesis by (simp add: readable_def read_resource_content_def MCP_ROOT_RESOURCE_PREFIX_def MCP_MODEL_OVERVIEW_URI_def
      MCP_MAPPING_GUIDE_URI_def MCP_IDENTITY_GUIDE_URI_def, blast)
qed

lemma readable_not_empty: "readable env uri \<Longrightarrow> uri \<noteq> []"
  by (auto simp: readable_def read_resource_content_def MCP_ROOT_RESOURCE_PREFIX_def MCP_MODEL_OVERVIEW_URI_def
      MCP_MAPPING_GUIDE_URI_def MCP_IDENTITY_GUIDE_URI_def)

text \<open>
  C38. Every resource of the catalogue that \<open>resources/list\<close> answers can be read by its URI with
  \<open>resources/read\<close>, roots and prompts included, when the prompts were loaded from the overrides and no root
  has an empty element id. The one exception is \<open>i3x://mcp-overrides\<close>, which is listed whether or not the
  file exists.
\<close>

theorem listed_resources_can_be_read:
  assumes "entry \<in> set (resource_catalog env)"
    "case se_prompts env of None \<Rightarrow> True | Some prompts \<Rightarrow> load_from_overrides overrides = Inr prompts"
    "case se_model env of None \<Rightarrow> True | Some m \<Rightarrow> [] \<notin> set (br_root_ids m)"
    "uri_of entry = ''i3x://mcp-overrides'' \<longrightarrow> se_overrides_text env \<noteq> None"
  shows "\<exists>mime t. resources_read env i [(''uri'', PStr (uri_of entry))]
    = Inr (jsonrpc_response i [(''contents'', PList [PDict (resource_content (uri_of entry) mime t)])])"
proof -
  have "readable env (uri_of entry)"
    using catalog_uris [OF assms(1)]
  proof (elim disjE exE conjE)
    assume "uri_of entry \<in> set fixed_uris"
    then show ?thesis using assms(4) by (rule fixed_readable)
  next
    fix m j assume "se_model env = Some m" "j \<in> set (br_root_ids m)" "known m j" "uri_of entry = MCP_ROOT_RESOURCE_PREFIX @ j"
    then show ?thesis using assms(3) root_readable by auto
  next
    fix prompts k p
    assume p: "se_prompts env = Some prompts" "(k, p) \<in> set prompts" "uri_of entry = ''i3x://prompts/'' @ pd_name p"
    then have n: "\<forall>k p. dict_get prompts k = Some p \<longrightarrow> pd_name p = k" "dict_ok prompts"
      using assms(2) loaded_prompts_named by auto
    then have k: "dict_get prompts k = Some p" using p(2) by simp
    then have "pd_name p = k" using n(1) by blast
    then show ?thesis using prompt_readable [OF p(1) k] p(3) by simp
  qed
  then obtain mime t where r: "read_resource_content env (uri_of entry) = Inr (resource_content (uri_of entry) mime t)" "uri_of entry \<noteq> []"
    using readable_not_empty [of env "uri_of entry"] unfolding readable_def by blast
  then show ?thesis by (intro exI [of _ mime] exI [of _ t]) (simp add: resources_read_def)
qed

text \<open>Concrete inputs: a server with one prompt, and a client that opens a session and its event stream.\<close>

definition demo_overrides :: pyval where
  "demo_overrides = PDict [(''diagnose'', PDict [(''description'', PStr ''Diagnose''), (''inputs'', PList [PStr ''elementId'']),
     (''template'', PStr ''Look at {{elementId}}'')])]"

definition demo_server :: server_env where
  "demo_server = \<lparr>se_allowed_origins = [''https://plant''], se_hostname = (\<lambda>u. None), se_version = ''1'', se_instructions = [],
     se_mapping_guide = [], se_identity_guide = [], se_openapi = PNone, se_overrides_text = None, se_base64_text = (\<lambda>s. None),
     se_json_dumps = (\<lambda>v. ''{}''), se_status_phrase = (\<lambda>c. []), se_str_of = (\<lambda>v. []), se_tools = [],
     se_schema_error = (\<lambda>v args. None), se_call_tool = (\<lambda>t args. Inl (ValueError [])),
     se_prompts = (case load_from_overrides demo_overrides of Inr p \<Rightarrow> Some p | Inl e \<Rightarrow> None), se_model = None, se_revision = [],
     se_build_completed = PNone, se_session_id = (\<lambda>n. replicate (Suc n) CHR ''s'')\<rparr>"

definition demo_request :: http_request where
  "demo_request = \<lparr>rq_origin = Some ''https://plant'', rq_base_url = ''http://server/'', rq_accept = ''text/event-stream'',
     rq_session_id = None, rq_protocol_version = None, rq_method = None, rq_name = None,
     rq_body = Some (PDict [(''jsonrpc'', PStr ''2.0''), (''id'', PInt 1), (''method'', PStr ''initialize''),
       (''params'', PDict [(''protocolVersion'', PStr ''2025-06-18'')])])\<rparr>"

lemma demo_ids: "inj (se_session_id demo_server)"
  by (rule injI, drule arg_cong [where f = length]) (simp add: demo_server_def)

lemma post_gets_one_answer_witness:
  "\<exists>r header. fst (mcp_post demo_server demo_request new_transport) = JsonReply 200 r header \<and> answers (PInt 1) r"
proof -
  let ?message = "[(''jsonrpc'', PStr ''2.0''), (''id'', PInt 1), (''method'', PStr ''initialize''),
       (''params'', PDict [(''protocolVersion'', PStr ''2025-06-18'')])]"
  have b: "rq_body demo_request = Some (PDict ?message)" by (simp add: demo_request_def)
  have "origin_is_allowed demo_server demo_request" by code_simp
  moreover have "(if modern_request demo_request ?message then check_modern demo_server demo_request ?message
    else check_legacy demo_request new_transport) = None" by code_simp
  moreover have "\<not> is_notification ?message" by (simp add: is_notification_def)
  moreover have "reply_id ?message = PInt 1" by code_simp
  ultimately show ?thesis using post_gets_one_answer [OF b, of demo_server new_transport] by simp
qed

text \<open>The run: a session, a stream, two notifications, one turn, and the removal of the session.\<close>

definition demo_ops :: "transport_op list" where
  "demo_ops = [Post demo_request, Get (demo_request\<lparr>rq_session_id := Some ''s''\<rparr>), Publish ''s'' ''notifications/message'' None,
     Publish ''s'' ''notifications/progress'' None, Turn 0 False, Delete (demo_request\<lparr>rq_session_id := Some ''s''\<rparr>),
     Publish ''s'' ''notifications/late'' None]"

fun run_ops :: "server_env \<Rightarrow> transport_op list \<Rightarrow> history \<times> transport \<Rightarrow> history \<times> transport" where
  "run_ops env [] st = st"
| "run_ops env (a # as) (h, tr) = run_ops env as (h @ [(a, fst (perform env a tr))], snd (perform env a tr))"

lemma run_ops_run:
  "transport_run env (fst st) (snd st) \<Longrightarrow> transport_run env (fst (run_ops env as st)) (snd (run_ops env as st))"
proof (induction as arbitrary: st)
  case (Cons a as)
  obtain h tr where st: "st = (h, tr)" by force
  show ?case unfolding st run_ops.simps by (rule Cons.IH) (use Cons.prems st in \<open>simp add: next_op\<close>)
qed simp

lemma streams_deliver_their_notifications_witness:
  "\<exists>h tr. transport_run demo_server h tr \<and> stream_phase 0 h = Closed
    \<and> due 0 h = [notification ''notifications/message'' None, notification ''notifications/progress'' None]
    \<and> emitted 0 h = [notification ''notifications/message'' None]
    \<and> turns 0 [False, False] tr = [Event (notification ''notifications/progress'' None), Ended]"
proof -
  let ?st = "run_ops demo_server demo_ops ([], new_transport)"
  have r: "transport_run demo_server (fst ?st) (snd ?st)" by (rule run_ops_run) (simp add: start)
  note t = streams_deliver_their_notifications [OF r demo_ids, of 0 "[False, False]"]
  have p: "stream_phase 0 (fst ?st) = Closed" by code_simp
  have d: "due 0 (fst ?st) = [notification ''notifications/message'' None, notification ''notifications/progress'' None]" by code_simp
  have e: "emitted 0 (fst ?st) = [notification ''notifications/message'' None]" by code_simp
  have w: "waiting 0 (snd ?st) = [notification ''notifications/progress'' None]" using t d e by simp
  have "turns 0 [False, False] (snd ?st) = [Event (notification ''notifications/progress'' None), Ended]" using t p w by simp
  then show ?thesis using r p d e by blast
qed

lemma listed_resources_can_be_read_witness:
  "\<exists>mime t. resources_read demo_server (PInt 7) [(''uri'', PStr ''i3x://prompts/diagnose'')]
    = Inr (jsonrpc_response (PInt 7) [(''contents'', PList [PDict (resource_content ''i3x://prompts/diagnose'' mime t)])])"
proof -
  let ?e = "resource_entry ''i3x://prompts/diagnose'' ''Prompt: diagnose'' ''Diagnose'' ''application/json''"
  have m: "?e \<in> set (resource_catalog demo_server)" by code_simp
  have p: "case se_prompts demo_server of None \<Rightarrow> True | Some prompts \<Rightarrow> load_from_overrides demo_overrides = Inr prompts" by code_simp
  have "se_model demo_server = None" by (simp add: demo_server_def)
  then show ?thesis using listed_resources_can_be_read [OF m p] by simp
qed

end
