(* ===== verification/Serving.thy ===== *)
theory Serving
  imports Prelude
begin

text \<open>
  How the model and the object type context are built and kept for the requests: the lazy build
  (\<open>application/dependencies.py\<close>), the preload and the periodic refresh (\<open>bootstrap/app_factory.py\<close>) and the
  context with its tokens, its stale answers and its refresh in the background
  (\<open>api/v1/objecttype_helpers.py\<close>). The tasks of the event loop are program counters; a step is what a task
  does from one \<open>await\<close> to the next, so any interleaving is a sequence of steps. A lock may be given to any
  task that waits for it. What a build or a read of the server gives, a value or an exception, comes with the
  step. Models, namespaces, object types and contexts are type variables.
\<close>

section \<open>State\<close>

type_synonym context_tokens = "string \<times> string \<times> string"

record ('m, 'n, 't, 'c) serving_env =
  ve_model_token :: "'m \<Rightarrow> string"
  ve_namespace_token :: "'n \<Rightarrow> string"
  ve_types_token :: "'t \<Rightarrow> string"
  ve_build_context :: "'m \<Rightarrow> 'n \<Rightarrow> 't \<Rightarrow> nat \<Rightarrow> exn + 'c"

text \<open>A request for the model: it awaits the preload, or the lock, or builds, or is answered.\<close>

datatype 'm model_task = AwaitsPreload | AwaitsModelLock | BuildsModel | ModelAnswer "exn + 'm"

datatype ('n, 't, 'c) context_pc =
    Scheduled
  | ReadsNamespaces
  | ReadsTypes 'n
  | AwaitsTypeLock 'n 't
  | BuildsContext 'n 't
  | ContextAnswer "exn + 'c"

record ('m, 'n, 't, 'c) context_task =
  ct_model :: 'm
  ct_allow_stale :: bool
  ct_pc :: "('n, 't, 'c) context_pc"

datatype preload_pc = NoPreload | PreloadBuilds | PreloadDone

datatype refresh_pc = Sleeps | RefreshAwaitsPreload | RefreshAwaitsLock | RefreshBuilds | Warms nat

record ('m, 'n, 't, 'c) serving =
  sv_model :: "'m option"
  sv_context :: "(context_tokens \<times> 'c) option"
  sv_model_lock :: bool
  sv_type_lock :: bool
  sv_preload :: preload_pc
  sv_refresh :: refresh_pc
  sv_type_refresh :: "nat option"
  sv_requests :: "(nat, 'm model_task) dict"
  sv_contexts :: "(nat, ('m, 'n, 't, 'c) context_task) dict"
  sv_next_task :: nat

text \<open>The start of the application, with the preload in the background or without one.\<close>

definition startup :: "bool \<Rightarrow> ('m, 'n, 't, 'c) serving" where
  "startup preload_on_startup =
     \<lparr>sv_model = None, sv_context = None, sv_model_lock = False, sv_type_lock = False,
      sv_preload = (if preload_on_startup then PreloadBuilds else NoPreload), sv_refresh = Sleeps, sv_type_refresh = None,
      sv_requests = [], sv_contexts = [], sv_next_task = 0\<rparr>"

definition set_request :: "nat \<Rightarrow> 'm model_task \<Rightarrow> ('m, 'n, 't, 'c) serving \<Rightarrow> ('m, 'n, 't, 'c) serving" where
  "set_request t task sv = sv\<lparr>sv_requests := dict_set t task (sv_requests sv)\<rparr>"

definition set_pc :: "nat \<Rightarrow> ('n, 't, 'c) context_pc \<Rightarrow> ('m, 'n, 't, 'c) serving \<Rightarrow> ('m, 'n, 't, 'c) serving" where
  "set_pc t pc sv =
     (case dict_get (sv_contexts sv) t of
        None \<Rightarrow> sv
      | Some task \<Rightarrow> sv\<lparr>sv_contexts := dict_set t (task\<lparr>ct_pc := pc\<rparr>) (sv_contexts sv)\<rparr>)"

definition spawn_context :: "'m \<Rightarrow> bool \<Rightarrow> ('n, 't, 'c) context_pc \<Rightarrow> ('m, 'n, 't, 'c) serving \<Rightarrow> ('m, 'n, 't, 'c) serving" where
  "spawn_context m allow_stale pc sv =
     sv\<lparr>sv_contexts := dict_set (sv_next_task sv) \<lparr>ct_model = m, ct_allow_stale = allow_stale, ct_pc = pc\<rparr> (sv_contexts sv),
        sv_next_task := sv_next_task sv + 1\<rparr>"

section \<open>The model\<close>

definition preload_running :: "('m, 'n, 't, 'c) serving \<Rightarrow> bool" where
  "preload_running sv \<longleftrightarrow> sv_preload sv = PreloadBuilds"

definition look_at_cache :: "nat \<Rightarrow> ('m, 'n, 't, 'c) serving \<Rightarrow> ('m, 'n, 't, 'c) serving" where
  "look_at_cache t sv =
     (case sv_model sv of
        Some cache \<Rightarrow> set_request t (ModelAnswer (Inr cache)) sv
      | None \<Rightarrow> set_request t AwaitsModelLock sv)"

definition get_or_build_model :: "('m, 'n, 't, 'c) serving \<Rightarrow> ('m, 'n, 't, 'c) serving" where
  "get_or_build_model sv =
     (let t = sv_next_task sv; sv1 = sv\<lparr>sv_next_task := t + 1\<rparr>
      in if preload_running sv then set_request t AwaitsPreload sv1 else look_at_cache t sv1)"

definition model_lock_acquired :: "nat \<Rightarrow> ('m, 'n, 't, 'c) serving \<Rightarrow> ('m, 'n, 't, 'c) serving" where
  "model_lock_acquired t sv =
     (case sv_model sv of
        Some cache \<Rightarrow> set_request t (ModelAnswer (Inr cache)) sv
      | None \<Rightarrow> set_request t BuildsModel (sv\<lparr>sv_model_lock := True\<rparr>))"

definition model_built :: "nat \<Rightarrow> exn + 'm \<Rightarrow> ('m, 'n, 't, 'c) serving \<Rightarrow> ('m, 'n, 't, 'c) serving" where
  "model_built t r sv =
     (case r of
        Inl e \<Rightarrow> set_request t (ModelAnswer (Inl e)) (sv\<lparr>sv_model_lock := False\<rparr>)
      | Inr built \<Rightarrow>
          set_request t (ModelAnswer (Inr built)) (sv\<lparr>sv_model := Some built, sv_context := None, sv_model_lock := False\<rparr>))"

text \<open>The preload in the background: the context is warmed by a task of its own.\<close>

definition preload_built :: "exn + 'm \<Rightarrow> ('m, 'n, 't, 'c) serving \<Rightarrow> ('m, 'n, 't, 'c) serving" where
  "preload_built r sv =
     (case r of
        Inl e \<Rightarrow> sv\<lparr>sv_preload := PreloadDone\<rparr>
      | Inr preload \<Rightarrow> spawn_context preload False ReadsNamespaces (sv\<lparr>sv_model := Some preload, sv_preload := PreloadDone\<rparr>))"

text \<open>The periodic refresh.\<close>

definition refresh_wakes :: "('m, 'n, 't, 'c) serving \<Rightarrow> ('m, 'n, 't, 'c) serving" where
  "refresh_wakes sv = sv\<lparr>sv_refresh := (if preload_running sv then RefreshAwaitsPreload else RefreshAwaitsLock)\<rparr>"

definition refresh_built :: "exn + 'm \<Rightarrow> ('m, 'n, 't, 'c) serving \<Rightarrow> ('m, 'n, 't, 'c) serving" where
  "refresh_built r sv =
     (case r of
        Inl e \<Rightarrow> sv\<lparr>sv_model_lock := False, sv_refresh := Sleeps\<rparr>
      | Inr built \<Rightarrow>
          spawn_context built False ReadsNamespaces
            (sv\<lparr>sv_model := Some built, sv_model_lock := False, sv_refresh := Warms (sv_next_task sv)\<rparr>))"

section \<open>The object type context\<close>

definition tokens_of :: "('m, 'n, 't, 'c) serving_env \<Rightarrow> 'm \<Rightarrow> 'n \<Rightarrow> 't \<Rightarrow> context_tokens" where
  "tokens_of env m n ot = (ve_model_token env m, ve_namespace_token env n, ve_types_token env ot)"

definition cached_object_type_context :: "context_tokens \<Rightarrow> ('m, 'n, 't, 'c) serving \<Rightarrow> 'c option" where
  "cached_object_type_context tokens sv =
     (case sv_context sv of
        None \<Rightarrow> None
      | Some (cached, c) \<Rightarrow> if cached \<noteq> tokens then None else Some c)"

definition stale_object_type_context :: "('m, 'n, 't, 'c) serving \<Rightarrow> 'c option" where
  "stale_object_type_context sv = map_option snd (sv_context sv)"

definition answered :: "('m, 'n, 't, 'c) serving \<Rightarrow> nat \<Rightarrow> bool" where
  "answered sv t = (case dict_get (sv_contexts sv) t of Some task \<Rightarrow> (case ct_pc task of ContextAnswer _ \<Rightarrow> True | _ \<Rightarrow> False) | None \<Rightarrow> True)"

definition schedule_object_type_context_refresh :: "'m \<Rightarrow> ('m, 'n, 't, 'c) serving \<Rightarrow> ('m, 'n, 't, 'c) serving" where
  "schedule_object_type_context_refresh m sv =
     (if (case sv_type_refresh sv of None \<Rightarrow> False | Some t \<Rightarrow> \<not> answered sv t) then sv
      else spawn_context m False Scheduled (sv\<lparr>sv_type_refresh := Some (sv_next_task sv)\<rparr>))"

text \<open>The refresh starts: it takes the newest model.\<close>

definition refresh_object_type_context :: "nat \<Rightarrow> ('m, 'n, 't, 'c) context_task \<Rightarrow> ('m, 'n, 't, 'c) serving \<Rightarrow> ('m, 'n, 't, 'c) serving" where
  "refresh_object_type_context t task sv =
     sv\<lparr>sv_contexts := dict_set t (task\<lparr>ct_model := (case sv_model sv of Some m \<Rightarrow> m | None \<Rightarrow> ct_model task), ct_pc := ReadsNamespaces\<rparr>)
       (sv_contexts sv)\<rparr>"

definition start_context :: "'m \<Rightarrow> bool \<Rightarrow> 'n option \<Rightarrow> ('m, 'n, 't, 'c) serving \<Rightarrow> ('m, 'n, 't, 'c) serving" where
  "start_context m allow_stale namespace_infos sv =
     spawn_context m allow_stale (case namespace_infos of None \<Rightarrow> ReadsNamespaces | Some n \<Rightarrow> ReadsTypes n) sv"

definition namespaces_read :: "nat \<Rightarrow> exn + 'n \<Rightarrow> ('m, 'n, 't, 'c) serving \<Rightarrow> ('m, 'n, 't, 'c) serving" where
  "namespaces_read t r sv = set_pc t (case r of Inl e \<Rightarrow> ContextAnswer (Inl e) | Inr n \<Rightarrow> ReadsTypes n) sv"

definition types_read ::
  "('m, 'n, 't, 'c) serving_env \<Rightarrow> nat \<Rightarrow> ('m, 'n, 't, 'c) context_task \<Rightarrow> 'n \<Rightarrow> exn + 't \<Rightarrow> ('m, 'n, 't, 'c) serving \<Rightarrow> ('m, 'n, 't, 'c) serving" where
  "types_read env t task n r sv =
     (case r of
        Inl e \<Rightarrow> set_pc t (ContextAnswer (Inl e)) sv
      | Inr ot \<Rightarrow>
          (case cached_object_type_context (tokens_of env (ct_model task) n ot) sv of
             Some c \<Rightarrow> set_pc t (ContextAnswer (Inr c)) sv
           | None \<Rightarrow>
               (case (if ct_allow_stale task then stale_object_type_context sv else None) of
                  Some c \<Rightarrow> set_pc t (ContextAnswer (Inr c)) (schedule_object_type_context_refresh (ct_model task) sv)
                | None \<Rightarrow> set_pc t (AwaitsTypeLock n ot) sv)))"

definition type_lock_acquired ::
  "('m, 'n, 't, 'c) serving_env \<Rightarrow> nat \<Rightarrow> ('m, 'n, 't, 'c) context_task \<Rightarrow> 'n \<Rightarrow> 't \<Rightarrow> ('m, 'n, 't, 'c) serving \<Rightarrow> ('m, 'n, 't, 'c) serving" where
  "type_lock_acquired env t task n ot sv =
     (case cached_object_type_context (tokens_of env (ct_model task) n ot) sv of
        Some c \<Rightarrow> set_pc t (ContextAnswer (Inr c)) sv
      | None \<Rightarrow> set_pc t (BuildsContext n ot) (sv\<lparr>sv_type_lock := True\<rparr>))"

definition context_built ::
  "('m, 'n, 't, 'c) serving_env \<Rightarrow> nat \<Rightarrow> ('m, 'n, 't, 'c) context_task \<Rightarrow> 'n \<Rightarrow> 't \<Rightarrow> nat \<Rightarrow> ('m, 'n, 't, 'c) serving \<Rightarrow> ('m, 'n, 't, 'c) serving" where
  "context_built env t task n ot k sv =
     (case ve_build_context env (ct_model task) n ot k of
        Inl e \<Rightarrow> set_pc t (ContextAnswer (Inl e)) (sv\<lparr>sv_type_lock := False\<rparr>)
      | Inr c \<Rightarrow>
          set_pc t (ContextAnswer (Inr c))
            (sv\<lparr>sv_context := Some (tokens_of env (ct_model task) n ot, c), sv_type_lock := False\<rparr>))"

section \<open>Steps\<close>

datatype ('m, 'n, 't) serving_event =
    ModelRequested
  | PreloadSeen nat
  | ModelLockGiven nat
  | ModelBuilt nat "exn + 'm"
  | PreloadBuilt "exn + 'm"
  | RefreshWakes
  | RefreshSeesPreload
  | RefreshLockGiven
  | RefreshBuilt "exn + 'm"
  | RefreshWarmed
  | ContextRequested nat "'n option"
  | RefreshStarts nat
  | NamespacesRead nat "exn + 'n"
  | TypesRead nat "exn + 't"
  | TypeLockGiven nat
  | ContextBuilt nat nat

text \<open>A step, if the task is where the event finds it. A request for a context has the model it was answered.\<close>

definition serving_step ::
  "('m, 'n, 't, 'c) serving_env \<Rightarrow> ('m, 'n, 't) serving_event \<Rightarrow> ('m, 'n, 't, 'c) serving \<Rightarrow> ('m, 'n, 't, 'c) serving option" where
  "serving_step env e sv =
     (case e of
        ModelRequested \<Rightarrow> Some (get_or_build_model sv)
      | PreloadSeen t \<Rightarrow>
          (case dict_get (sv_requests sv) t of
             Some AwaitsPreload \<Rightarrow> if preload_running sv then None else Some (look_at_cache t sv) | _ \<Rightarrow> None)
      | ModelLockGiven t \<Rightarrow>
          (case dict_get (sv_requests sv) t of
             Some AwaitsModelLock \<Rightarrow> if sv_model_lock sv then None else Some (model_lock_acquired t sv) | _ \<Rightarrow> None)
      | ModelBuilt t r \<Rightarrow> (case dict_get (sv_requests sv) t of Some BuildsModel \<Rightarrow> Some (model_built t r sv) | _ \<Rightarrow> None)
      | PreloadBuilt r \<Rightarrow> if preload_running sv then Some (preload_built r sv) else None
      | RefreshWakes \<Rightarrow> if sv_refresh sv = Sleeps then Some (refresh_wakes sv) else None
      | RefreshSeesPreload \<Rightarrow>
          if sv_refresh sv = RefreshAwaitsPreload \<and> \<not> preload_running sv then Some (sv\<lparr>sv_refresh := RefreshAwaitsLock\<rparr>) else None
      | RefreshLockGiven \<Rightarrow>
          if sv_refresh sv = RefreshAwaitsLock \<and> \<not> sv_model_lock sv
          then Some (sv\<lparr>sv_model_lock := True, sv_refresh := RefreshBuilds\<rparr>) else None
      | RefreshBuilt r \<Rightarrow> if sv_refresh sv = RefreshBuilds then Some (refresh_built r sv) else None
      | RefreshWarmed \<Rightarrow>
          (case sv_refresh sv of Warms t \<Rightarrow> if answered sv t then Some (sv\<lparr>sv_refresh := Sleeps\<rparr>) else None | _ \<Rightarrow> None)
      | ContextRequested t namespace_infos \<Rightarrow>
          (case dict_get (sv_requests sv) t of
             Some (ModelAnswer (Inr m)) \<Rightarrow> Some (start_context m True namespace_infos sv) | _ \<Rightarrow> None)
      | RefreshStarts t \<Rightarrow>
          (case dict_get (sv_contexts sv) t of
             Some task \<Rightarrow> if (case ct_pc task of Scheduled \<Rightarrow> True | _ \<Rightarrow> False) then Some (refresh_object_type_context t task sv) else None
           | None \<Rightarrow> None)
      | NamespacesRead t r \<Rightarrow>
          (case dict_get (sv_contexts sv) t of
             Some task \<Rightarrow> if (case ct_pc task of ReadsNamespaces \<Rightarrow> True | _ \<Rightarrow> False) then Some (namespaces_read t r sv) else None
           | None \<Rightarrow> None)
      | TypesRead t r \<Rightarrow>
          (case dict_get (sv_contexts sv) t of
             Some task \<Rightarrow> (case ct_pc task of ReadsTypes n \<Rightarrow> Some (types_read env t task n r sv) | _ \<Rightarrow> None)
           | None \<Rightarrow> None)
      | TypeLockGiven t \<Rightarrow>
          (case dict_get (sv_contexts sv) t of
             Some task \<Rightarrow> (case ct_pc task of
                 AwaitsTypeLock n ot \<Rightarrow> if sv_type_lock sv then None else Some (type_lock_acquired env t task n ot sv) | _ \<Rightarrow> None)
           | None \<Rightarrow> None)
      | ContextBuilt t k \<Rightarrow>
          (case dict_get (sv_contexts sv) t of
             Some task \<Rightarrow> (case ct_pc task of BuildsContext n ot \<Rightarrow> Some (context_built env t task n ot k sv) | _ \<Rightarrow> None)
           | None \<Rightarrow> None))"

inductive serving_reachable :: "('m, 'n, 't, 'c) serving_env \<Rightarrow> ('m, 'n, 't, 'c) serving \<Rightarrow> bool" for env where
  started: "serving_reachable env (startup preload_on_startup)"
| stepped: "serving_reachable env sv \<Longrightarrow> serving_step env e sv = Some sv' \<Longrightarrow> serving_reachable env sv'"

end
