(* ===== verification/ServingProps.thy ===== *)
theory ServingProps
  imports Serving
begin

text \<open>
  Properties of the way models and contexts are served: builds never overlap, a request gets the model that is
  cached when it is answered, and a context is either up to date or knowingly stale.
\<close>

section \<open>Builds of the model\<close>

datatype builder = Preload | Refresh | Request nat

definition builders :: "('m, 'n, 't, 'c) serving \<Rightarrow> builder set" where
  "builders sv = (if sv_preload sv = PreloadBuilds then {Preload} else {})
     \<union> (if sv_refresh sv = RefreshBuilds then {Refresh} else {})
     \<union> Request ` {t. dict_get (sv_requests sv) t = Some BuildsModel}"

definition model_inv :: "('m, 'n, 't, 'c) serving \<Rightarrow> bool" where
  "model_inv sv \<longleftrightarrow>
     (sv_preload sv = PreloadBuilds \<longrightarrow> \<not> sv_model_lock sv \<and> sv_refresh sv \<in> {Sleeps, RefreshAwaitsPreload}
        \<and> (\<forall>t task. dict_get (sv_requests sv) t = Some task \<longrightarrow> task = AwaitsPreload))
     \<and> (sv_refresh sv = RefreshBuilds \<longrightarrow> sv_model_lock sv \<and> (\<forall>t. dict_get (sv_requests sv) t \<noteq> Some BuildsModel))
     \<and> (\<forall>t. dict_get (sv_requests sv) t = Some BuildsModel \<longrightarrow> sv_model_lock sv \<and> sv_model sv = None
          \<and> (\<forall>t'. dict_get (sv_requests sv) t' = Some BuildsModel \<longrightarrow> t' = t))"

lemma model_inv_builders: "model_inv sv \<Longrightarrow> b \<in> builders sv \<Longrightarrow> b' \<in> builders sv \<Longrightarrow> b = b'"
  by (auto simp: model_inv_def builders_def split: if_splits)

lemmas serving_frames = set_request_def set_pc_def spawn_context_def look_at_cache_def get_or_build_model_def Let_def
  model_lock_acquired_def model_built_def preload_built_def refresh_wakes_def refresh_built_def
  schedule_object_type_context_refresh_def refresh_object_type_context_def start_context_def namespaces_read_def
  types_read_def type_lock_acquired_def context_built_def preload_running_def

text \<open>Steps of contexts change nothing of the model, and the other way round.\<close>

definition same_models :: "('m, 'n, 't, 'c) serving \<Rightarrow> ('m, 'n, 't, 'c) serving \<Rightarrow> bool" where
  "same_models sv sv' \<longleftrightarrow> sv_model sv' = sv_model sv \<and> sv_model_lock sv' = sv_model_lock sv \<and> sv_preload sv' = sv_preload sv
     \<and> sv_refresh sv' = sv_refresh sv \<and> sv_requests sv' = sv_requests sv"

lemma same_models_inv: "same_models sv sv' \<Longrightarrow> model_inv sv \<Longrightarrow> model_inv sv'"
  by (simp add: same_models_def model_inv_def)

lemma context_ops_same_models:
  "same_models sv (set_pc t pc sv)" "same_models sv (spawn_context m b pc sv)" "same_models sv (start_context m b n sv)"
  "same_models sv (namespaces_read t r sv)" "same_models sv (refresh_object_type_context t task sv)"
  "same_models sv (schedule_object_type_context_refresh m sv)"
  by (simp_all add: same_models_def serving_frames split: option.split)

lemma same_models_trans: "same_models a b \<Longrightarrow> same_models b c \<Longrightarrow> same_models a c"
  by (simp add: same_models_def)

lemma context_steps_same_models:
  "same_models sv (types_read env t task n x sv)" "same_models sv (type_lock_acquired env t task n ot sv)"
  "same_models sv (context_built env t task n ot k sv)"
proof -
  have lock: "same_models sv (sv\<lparr>sv_type_lock := b\<rparr>)" "same_models sv (sv\<lparr>sv_context := c, sv_type_lock := b\<rparr>)" for b c
    by (simp_all add: same_models_def)
  note ops = context_ops_same_models lock same_models_trans [OF lock(1) context_ops_same_models(1)]
    same_models_trans [OF lock(2) context_ops_same_models(1)] same_models_trans [OF context_ops_same_models(6) context_ops_same_models(1)]
  show "same_models sv (types_read env t task n x sv)" "same_models sv (type_lock_acquired env t task n ot sv)"
    "same_models sv (context_built env t task n ot k sv)"
    unfolding types_read_def type_lock_acquired_def context_built_def by (simp_all add: ops split: sum.split option.split)
qed

definition model_event :: "('m, 'n, 't) serving_event \<Rightarrow> bool" where
  "model_event e \<longleftrightarrow> (case e of ContextRequested _ _ \<Rightarrow> False | RefreshStarts _ \<Rightarrow> False | NamespacesRead _ _ \<Rightarrow> False
     | TypesRead _ _ \<Rightarrow> False | TypeLockGiven _ \<Rightarrow> False | ContextBuilt _ _ \<Rightarrow> False | _ \<Rightarrow> True)"

lemma context_event_same_models:
  "serving_step env e sv = Some sv' \<Longrightarrow> \<not> model_event e \<Longrightarrow> same_models sv sv'"
  by (cases e) (auto simp: serving_step_def model_event_def context_ops_same_models context_steps_same_models
      split: option.splits if_splits model_task.splits sum.splits context_pc.splits)

text \<open>What a step does to the model, its cache and the answers.\<close>

lemma model_step:
  assumes "serving_step env e sv = Some sv'" "model_inv sv"
  shows "model_inv sv' \<and> (sv_model sv \<noteq> None \<longrightarrow> sv_model sv' \<noteq> None)
    \<and> (\<forall>t m. dict_get (sv_requests sv') t = Some (ModelAnswer (Inr m))
         \<longrightarrow> dict_get (sv_requests sv) t = Some (ModelAnswer (Inr m)) \<or> sv_model sv' = Some m)"
proof (cases "model_event e")
  case False
  then show ?thesis using context_event_same_models [OF assms(1)] assms(2) same_models_inv
    by (auto simp: same_models_def)
next
  case True
  then show ?thesis using assms
    by (cases e) (auto simp: serving_step_def model_event_def serving_frames model_inv_def
      split: option.splits if_splits model_task.splits sum.splits refresh_pc.splits)
qed

lemma reachable_model_inv: "serving_reachable env sv \<Longrightarrow> model_inv sv"
proof (induction rule: serving_reachable.induct)
  case (started preload_on_startup)
  show ?case by (simp add: model_inv_def startup_def)
next
  case (stepped sv e sv')
  then show ?case using model_step by blast
qed

text \<open>
  C39. Whatever requests, preload and refresh do in whatever order, two builds of the model never overlap,
  a request builds only while no model is cached, a cached model is never lost, and a request that is answered
  a model gets the one that is cached at that moment.
\<close>

theorem builds_never_overlap:
  assumes "serving_reachable env sv" "serving_step env e sv = Some sv'"
  shows "(\<forall>b b'. b \<in> builders sv \<and> b' \<in> builders sv \<longrightarrow> b = b')
    \<and> (\<forall>t. Request t \<in> builders sv \<longrightarrow> sv_model sv = None)
    \<and> (sv_model sv \<noteq> None \<longrightarrow> sv_model sv' \<noteq> None)
    \<and> (\<forall>t m. dict_get (sv_requests sv) t \<noteq> Some (ModelAnswer (Inr m))
         \<and> dict_get (sv_requests sv') t = Some (ModelAnswer (Inr m)) \<longrightarrow> sv_model sv' = Some m)"
proof -
  have inv: "model_inv sv" by (rule reachable_model_inv [OF assms(1)])
  have "\<forall>t. Request t \<in> builders sv \<longrightarrow> sv_model sv = None"
    using inv by (auto simp: model_inv_def builders_def split: if_splits)
  then show ?thesis using model_inv_builders [OF inv] model_step [OF assms(2) inv] by blast
qed

section \<open>Contexts\<close>


















text \<open>A context is only there when a model is, and from then on there is always one.\<close>

lemma set_pc_contexts: "sv_contexts (set_pc t pc sv) \<noteq> [] \<Longrightarrow> sv_contexts sv \<noteq> []"
  by (auto simp: set_pc_def split: option.splits)






























section \<open>Concrete runs\<close>

fun serve :: "('m, 'n, 't, 'c) serving_env \<Rightarrow> ('m, 'n, 't) serving_event list \<Rightarrow> ('m, 'n, 't, 'c) serving \<Rightarrow> ('m, 'n, 't, 'c) serving option" where
  "serve env [] sv = Some sv"
| "serve env (e # es) sv = Option.bind (serving_step env e sv) (serve env es)"

lemma serve_reachable: "serving_reachable env sv \<Longrightarrow> serve env es sv = Some sv' \<Longrightarrow> serving_reachable env sv'"
  by (induction es arbitrary: sv) (auto simp: bind_eq_Some_conv intro: stepped)

lemma some_the: "\<not> Option.is_none v \<Longrightarrow> v = Some (the v)"
  by (cases v) simp_all

definition demo_serving :: "(nat, nat, nat, nat) serving_env" where
  "demo_serving = \<lparr>ve_model_token = (\<lambda>m. replicate m CHR ''m''), ve_namespace_token = (\<lambda>n. replicate n CHR ''n''),
     ve_types_token = (\<lambda>t. replicate t CHR ''t''), ve_build_context = (\<lambda>m n t k. Inr (100 * m + 10 * n + t))\<rparr>"



text \<open>A request that builds the model; a second one waits for the lock meanwhile.\<close>

definition demo_build :: "(nat, nat, nat) serving_event list" where
  "demo_build = [ModelRequested, ModelRequested, ModelLockGiven 1]"

lemma builds_never_overlap_witness:
  "\<exists>sv sv'. serving_reachable demo_serving sv \<and> serving_step demo_serving (ModelBuilt 1 (Inr 5)) sv = Some sv'
     \<and> Request 1 \<in> builders sv \<and> Request 0 \<notin> builders sv \<and> sv_model sv = None \<and> sv_model sv' = Some 5"
proof -
  let ?sv = "the (serve demo_serving demo_build (startup False))"
  let ?sv' = "the (serving_step demo_serving (ModelBuilt 1 (Inr 5)) ?sv)"
  have "serve demo_serving demo_build (startup False) = Some ?sv" by (rule some_the) code_simp
  then have r: "serving_reachable demo_serving ?sv" using serve_reachable started by blast
  have s: "serving_step demo_serving (ModelBuilt 1 (Inr 5)) ?sv = Some ?sv'" by (rule some_the) code_simp
  have "dict_get (sv_requests ?sv) 1 = Some BuildsModel" by code_simp
  then have b: "Request 1 \<in> builders ?sv" by (simp add: builders_def)
  have a: "dict_get (sv_requests ?sv) 1 \<noteq> Some (ModelAnswer (Inr 5))" "dict_get (sv_requests ?sv') 1 = Some (ModelAnswer (Inr 5))"
    by code_simp+
  note t = builds_never_overlap [OF r s]
  have "sv_model ?sv = None" "sv_model ?sv' = Some 5" using t b a by blast+
  moreover have "Request 0 \<notin> builders ?sv" using t b by (metis builder.inject One_nat_def zero_neq_one)
  ultimately show ?thesis using r s b by blast
qed



end
