(* ===== verification/Spec2Isabelle.thy ===== *)
theory Spec2Isabelle
  imports SubscriptionProps BuilderEdges ProfileProps ModelAccessProps WriteProps OpcReadProps OpcBrowseProps OpcTypeProps ModelToolProps HttpCachingProps ObjectServiceProps McpCallProps McpServerProps ServingProps
begin

text \<open>
  Verification of i3x2ua, a gateway that browses an OPC UA server, builds a semantic model of its
  address space and serves it over the i3X HTTP interface and as tools of an MCP server. Sources are
  below \<open>src/i3x_server/\<close>.

  \<^bold>\<open>The parts and how they interact.\<close> The OPC UA client (\<open>infrastructure/opcua/client.py\<close>) browses
  the address space and reads, writes and subscribes. What it browses goes through the reference mapper
  and the semantic profiles (\<open>model/mapper.py\<close>, \<open>model/semantic_profiles.py\<close>) into the model builder
  (\<open>model/builder.py\<close>), whose result, the \<open>BuildResult\<close>, is what element lookup, the value routes, the
  subscription service and the MCP tools work on. The subscription service
  (\<open>infrastructure/subscriptions/service.py\<close>) monitors nodes for many clients at once and queues their
  value changes; the API above it hands them out by polling or as a server-sent stream.

  \<^bold>\<open>Vocabulary.\<close> \<open>Prelude\<close>: exceptions as a datatype, results as a sum (\<open>Inl\<close> the exception), Python
  dictionaries as association lists in insertion order, sets as lists without duplicates, the string
  operations used. \<open>Values\<close>: Python values, \<open>==\<close> on them, \<open>normalize_opcua_value\<close>. \<open>Timestamps\<close>:
  points in time and their text. \<open>NodeIds\<close>: \<open>domain/utils.py\<close>. \<open>Model\<close>: the records of
  \<open>schemas/i3x.py\<close>, \<open>schemas/state.py\<close> and \<open>domain/ports/opcua.py\<close>.

  \<^bold>\<open>The subscription service.\<close> \<open>Queue\<close> models the queue of one subscription (\<open>append_update\<close>,
  \<open>acknowledge\<close>, \<open>collect_result\<close>) and relates it to the history of changes; \<open>Monitors\<close> the shared node
  monitors and their bins; \<open>Registry\<close> states the contract of the monitors as a locale and discharges it;
  \<open>Resolve\<close> maps registered elements to nodes; \<open>Subscriptions\<close> has the operations of
  \<open>SubscriptionService\<close>. A Python coroutine that releases the service lock is the sequence of its locked
  sections, each a definition (\<open>register_begin\<close>, \<open>acquire_node_monitor\<close>, \<open>register_commit\<close>,
  \<open>wait_begin\<close>, \<open>wait_finish\<close>, ...), and the theorems about interleavings put other operations between
  them. \<open>ServiceInv\<close> and \<open>Lifecycle\<close> prove the invariant for every operation and for every reachable
  state, \<open>ServiceProps\<close> what follows. \<open>SubscriptionApp\<close>, \<open>SubscriptionApi\<close> and \<open>SubscriptionProps\<close> model
  \<open>application/services/subscription.py\<close>, \<open>subscription_mapper.py\<close> and \<open>api/v1/subscription_routes.py\<close>;
  the server-sent stream is a step relation over the service.

  \<^bold>\<open>The model.\<close> \<open>Profiles\<close> and \<open>ProfileProps\<close>: selection of profiles, class and role of a reference.
  \<open>Builder\<close>: every stage of \<open>ModelBuilder.build\<close>. \<open>BuilderProps\<close>, \<open>BuilderIndex\<close> and \<open>BuilderEdges\<close>:
  parents are unique, relationships can be followed both ways, indexes are exact, references are kept.
  \<open>Lookup\<close>: \<open>api/v1/object_helpers.py\<close> and parts of \<open>model_query.py\<close>. \<open>ModelAccess\<close> and
  \<open>ModelAccessProps\<close>: the tools of \<open>mcp/model_access.py\<close> and their lazily built, cached index.

  \<^bold>\<open>Values.\<close> \<open>ObjectValues\<close> and \<open>ObjectValueProps\<close>: the routes for current and historical values.
  \<open>ObjectService\<close> and \<open>ObjectServiceProps\<close>: \<open>ObjectValueService\<close>, which no route calls yet; every query for
  related objects extends the model it reads, and an unlimited history has no components.
  \<open>ObjectWrites\<close>, \<open>HistoryWrites\<close> and \<open>WriteProps\<close>: the update routes, their validation and the
  conversion of historical values (\<open>infrastructure/opcua/history.py\<close>).

  \<^bold>\<open>The OPC UA client.\<close> asyncua and the server are the record \<open>opc_env\<close>, functions of the transcript of
  what was asked so far; the client's state is \<open>opc_client\<close>. \<open>OpcClient\<close>: retries after a connection
  loss, request limits, attributes in batches. \<open>OpcReads\<close>: values, history, writes, method calls.
  \<open>OpcBrowse\<close>: browsing with continuation points, node records, \<open>browse_tree\<close>. \<open>OpcTypes\<close>: type
  hierarchies and reference type chains with their caches. \<open>OpcFrames\<close> shows once, in a locale, what the
  requests leave unchanged; \<open>OpcReadProps\<close> and \<open>OpcBrowseProps\<close> have the properties, against servers
  that page, limit and fail, and \<open>OpcTypeProps\<close> that type hierarchies are complete.

  \<^bold>\<open>The MCP tools.\<close> \<open>ModelTools\<close> is \<open>mcp/model_tools.py\<close>: validation of arguments, ids, search,
  context, subtree summary and relationship paths; \<open>ModelToolProps\<close> shows that the paths are shortest and
  what the summary covers. \<open>McpPaths\<close> and \<open>McpCalls\<close> are \<open>mcp/invocation.py\<close>: the paths of requests
  with the parts of \<open>urllib.parse\<close> and \<open>posixpath\<close> they use, the values of a container, pages, and
  \<open>invoke_mcp_tool\<close> from the check of the arguments to the answer. \<open>McpCallProps\<close> has their properties.

  \<^bold>\<open>The MCP server.\<close> \<open>McpServer\<close> is \<open>api/mcp/monolithic.py\<close>: the checks of a JSON-RPC request for
  the modern and the legacy protocol, the methods with the resources and tool results, and the transport,
  a record with the sessions and the queues of their event streams. \<open>Prompts\<close> is \<open>prompts/\<close>. \<open>McpStreams\<close>
  puts the operations of the transport together into runs and says what a stream is due;
  \<open>McpServerProps\<close> shows that streams put out just that, that a POST gets one answer, and that listed
  resources can be read.

  \<^bold>\<open>HTTP caching.\<close> \<open>HttpCaching\<close> and \<open>HttpCachingProps\<close>: \<open>http_caching.py\<close>, a request being what its handler
  does step after step; conditional requests are exact.

  \<^bold>\<open>Serving.\<close> \<open>Serving\<close> is how requests come by the model and the object type context while others build
  or refresh them (\<open>application/dependencies.py\<close>, \<open>bootstrap/app_factory.py\<close>,
  \<open>api/v1/objecttype_helpers.py\<close>): tasks with program counters and two locks, every interleaving of their
  steps. \<open>ServingProps\<close> shows that builds never overlap and what the answers are.

  \<^bold>\<open>Bounds, fuel and termination.\<close> Loops over a work list with a visited set have a termination proof.
  Loops that follow a server's answers (\<open>history_loop\<close>, \<open>continue_browse\<close>, \<open>browse_loop\<close>,
  \<open>search_types\<close>) are partial functions into \<open>option\<close>, because a server may go on for ever; the
  theorems about them prove that they return against a server that pages finitely many items.
  \<open>resolve_reference_type_chain\<close> has fuel, one unit for each nested call. Integers are \<open>int\<close> as in Python;
  status codes are \<open>32 word\<close>.

  \<^bold>\<open>Not modelled.\<close> Logging and timing metrics; FastAPI, asyncio's scheduler and asyncua, which are
  parameters; concurrent requests that the client gathers are made in order; the JSON schema documents
  of object types (\<open>schemas/objecttype_schema.py\<close>, \<open>api/v1/objecttype_helpers.py\<close>), which are tables and
  introspection of asyncua's classes; the guides and the table of tools of the MCP server;
  start-up, settings and dependency injection; the duplicates of helper functions in
  \<open>api/v1/monolithic.py\<close>.
\<close>

end
